(* ===== verification/Prelude.thy ===== *)
theory Prelude
  imports Main "HOL-Library.Word"
begin

text \<open>
  Shared vocabulary of the development: names for the machine types, the
  64-bit wrap-around arithmetic of \<^typ>\<open>nat\<close> byte counts, the lower-case
  hexadecimal and decimal printers of the C++ streams, and the generic facts
  on lists, maps and sums that the component theories use.
\<close>

named_theorems store_simps \<open>lookup after update facts of the stores\<close>
named_theorems inv_intros \<open>preservation of component invariants\<close>

type_synonym byte = "8 word"
type_synonym u32 = "32 word"
type_synonym u64 = "64 word"
type_synonym bytes = "8 word list"

section \<open>Byte counts: \<^verbatim>\<open>std::size_t\<close> and \<^verbatim>\<open>std::uint64_t\<close>\<close>

text \<open>A 64-bit unsigned quantity is a natural number below \<^verbatim>\<open>2 ^ 64\<close>; sums and
  differences are reduced explicitly.\<close>

definition u64_mod :: nat where
  "u64_mod = 2 ^ 64"

definition u64_add :: "nat \<Rightarrow> nat \<Rightarrow> nat" where
  "u64_add a b = (a + b) mod u64_mod"

definition u64_sub :: "nat \<Rightarrow> nat \<Rightarrow> nat" where
  "u64_sub a b = (a + (u64_mod - b mod u64_mod)) mod u64_mod"

lemma u64_mod_pos [simp]: "0 < u64_mod"
  by (simp add: u64_mod_def)

lemma u64_add_exact: "a + b < u64_mod \<Longrightarrow> u64_add a b = a + b"
  by (simp add: u64_add_def)

lemma u64_add_less [simp]: "u64_add a b < u64_mod"
  by (simp add: u64_add_def)

lemma u64_sub_exact:
  assumes "b \<le> a" "a < u64_mod"
  shows "u64_sub a b = a - b"
proof -
  have "b < u64_mod" using assms by simp
  then have sum: "a + (u64_mod - b mod u64_mod) = (a - b) + u64_mod"
    using assms by simp
  have "u64_sub a b = (a - b) mod u64_mod"
    unfolding u64_sub_def sum by (rule mod_add_self2)
  then show ?thesis using assms by (simp add: less_imp_diff_less)
qed

lemma u64_add_0 [simp]: "a < u64_mod \<Longrightarrow> u64_add a 0 = a"
  by (simp add: u64_add_def)

section \<open>Printing of unsigned integers\<close>

definition digit_char :: "nat \<Rightarrow> char" where
  "digit_char d = (if d < 10 then char_of (48 + d) else char_of (87 + d))"

definition digit_val :: "char \<Rightarrow> nat" where
  "digit_val c = (if of_char c < (58::nat) then of_char c - 48 else of_char c - 87)"

fun print_base :: "nat \<Rightarrow> nat \<Rightarrow> string" where
  "print_base b n =
     (if b < 2 \<or> n < b then [digit_char n]
      else print_base b (n div b) @ [digit_char (n mod b)])"

declare print_base.simps [simp del]

abbreviation hex :: "nat \<Rightarrow> string" where
  "hex n \<equiv> print_base 16 n"

abbreviation dec :: "nat \<Rightarrow> string" where
  "dec n \<equiv> print_base 10 n"

text \<open>\<^verbatim>\<open>std::setw\<close> with \<^verbatim>\<open>std::setfill('0')\<close>.\<close>

definition zero_pad :: "nat \<Rightarrow> string \<Rightarrow> string" where
  "zero_pad w s = replicate (w - length s) (CHR ''0'') @ s"

definition read_base :: "nat \<Rightarrow> string \<Rightarrow> nat" where
  "read_base b s = foldl (\<lambda>n c. n * b + digit_val c) 0 s"

lemma digit_char_simps:
  "digit_char 0 = CHR ''0''" "digit_char 1 = CHR ''1''" "digit_char 2 = CHR ''2''" "digit_char 3 = CHR ''3''"
  "digit_char 4 = CHR ''4''" "digit_char 5 = CHR ''5''" "digit_char 6 = CHR ''6''" "digit_char 7 = CHR ''7''"
  "digit_char 8 = CHR ''8''" "digit_char 9 = CHR ''9''" "digit_char 10 = CHR ''a''" "digit_char 11 = CHR ''b''"
  "digit_char 12 = CHR ''c''" "digit_char 13 = CHR ''d''" "digit_char 14 = CHR ''e''" "digit_char 15 = CHR ''f''"
  "digit_char (Suc 0) = CHR ''1''" "digit_char (Suc (Suc 0)) = CHR ''2''"
  by (simp_all add: digit_char_def char_of_def bit_Suc_0_iff)

lemma digit_val_char: "d < 16 \<Longrightarrow> digit_val (digit_char d) = d"
  by (simp add: digit_val_def digit_char_def)

lemma read_print_base:
  assumes "2 \<le> b" "b \<le> 16"
  shows "read_base b (print_base b n) = n"
  using assms
proof (induction b n rule: print_base.induct)
  case (1 b n)
  show ?case
  proof (cases "n < b")
    case True
    then show ?thesis using 1 by (simp add: print_base.simps [of b n] read_base_def digit_val_char)
  next
    case False
    then have "n mod b < 16" using 1 
      by (intro order_less_le_trans [OF mod_less_divisor]) auto
    then show ?thesis using 1 False
      by (simp add: print_base.simps [of b n] read_base_def digit_val_char)
  qed
qed

lemma hex_inject [simp]: "hex m = hex n \<longleftrightarrow> m = n"
  using inj_on_inverseI [of UNIV "read_base 16" hex] by (auto simp: read_print_base dest: injD)

lemma dec_inject [simp]: "dec m = dec n \<longleftrightarrow> m = n"
  using inj_on_inverseI [of UNIV "read_base 10" dec] by (auto simp: read_print_base dest: injD)

lemma print_base_nonempty [simp]: "print_base b n \<noteq> []"
  by (subst print_base.simps) simp

lemma of_digit_char: "d < 16 \<Longrightarrow> of_char (digit_char d) = (if d < 10 then 48 + d else 87 + d)"
  by (simp add: digit_char_def)

lemma digit_char_not_dash: "d < 16 \<Longrightarrow> digit_char d \<noteq> CHR ''-''"
  using of_digit_char [of d] by (auto split: if_splits)

lemma print_base_digits:
  assumes "2 \<le> b" "b \<le> 16"
  shows "\<forall>c \<in> set (print_base b n). \<exists>d<16. c = digit_char d"
  using assms
proof (induction b n rule: print_base.induct)
  case (1 b n)
  have "n mod b < 16" using 1 by (intro order_less_le_trans [OF mod_less_divisor]) auto
  then show ?case using 1
    by (subst print_base.simps) (auto intro: order_less_le_trans)
qed

lemma hex_no_dash: "CHR ''-'' \<notin> set (hex n)"
  using print_base_digits [of 16 n] digit_char_not_dash by fastforce

lemma dash_split_inject:
  assumes "c \<notin> set xs" "c \<notin> set ys"
  shows "xs @ c # us = ys @ c # vs \<longleftrightarrow> xs = ys \<and> us = vs"
  using assms by (induction xs arbitrary: ys) (force simp: Cons_eq_append_conv)+

section \<open>Sums over finite maps\<close>

definition map_sum :: "('v \<Rightarrow> nat) \<Rightarrow> ('k \<rightharpoonup> 'v) \<Rightarrow> nat" where
  "map_sum f m = (\<Sum>k\<in>dom m. f (the (m k)))"

definition opt_size :: "('v \<Rightarrow> nat) \<Rightarrow> 'v option \<Rightarrow> nat" where
  "opt_size f x = (case x of None \<Rightarrow> 0 | Some v \<Rightarrow> f v)"

lemma opt_size_simps [simp]: "opt_size f None = 0" "opt_size f (Some v) = f v"
  by (simp_all add: opt_size_def)

lemma map_sum_empty [simp]: "map_sum f Map.empty = 0"
  by (simp add: map_sum_def)

lemma map_sum_remove:
  assumes "finite (dom m)"
  shows "map_sum f m = opt_size f (m k) + map_sum f (m(k := None))"
proof (cases "m k")
  case None
  then have "m(k := None) = m" by auto
  then show ?thesis using None by simp
next
  case (Some v)
  have "(\<Sum>x\<in>dom m - {k}. f (the (m x))) = map_sum f (m(k := None))"
    unfolding map_sum_def by (rule sum.cong) auto
  then show ?thesis
    using Some assms by (simp add: map_sum_def domI sum.remove [of _ k])
qed

lemma map_sum_delete:
  "finite (dom m) \<Longrightarrow> map_sum f (m(k := None)) = map_sum f m - opt_size f (m k)"
  using map_sum_remove [of m f k] by simp

lemma opt_size_le_map_sum: "finite (dom m) \<Longrightarrow> opt_size f (m k) \<le> map_sum f m"
  using map_sum_remove [of m f k] by simp

lemma map_sum_update:
  assumes "finite (dom m)"
  shows "map_sum f (m(k \<mapsto> v)) = map_sum f m - opt_size f (m k) + f v"
  using map_sum_remove [of "m(k \<mapsto> v)" f k] map_sum_delete [of m f k] assms by simp

section \<open>Byte vectors\<close>

text \<open>\<^verbatim>\<open>std::vector::resize\<close> truncates or appends zero bytes; \<^verbatim>\<open>write_at\<close> is the effect of
  \<^verbatim>\<open>std::memcpy\<close> into a vector when the copied range lies inside it.\<close>

definition resize :: "nat \<Rightarrow> bytes \<Rightarrow> bytes" where
  "resize n xs = take n xs @ replicate (n - length xs) 0"

definition write_at :: "nat \<Rightarrow> bytes \<Rightarrow> bytes \<Rightarrow> bytes" where
  "write_at off src xs = take off xs @ src @ drop (off + length src) xs"

definition read_at :: "nat \<Rightarrow> nat \<Rightarrow> bytes \<Rightarrow> bytes" where
  "read_at off n xs = take n (drop off xs)"

lemma length_resize [simp]: "length (resize n xs) = n"
  by (simp add: resize_def)

lemma resize_same [simp]: "length xs = n \<Longrightarrow> resize n xs = xs"
  by (auto simp: resize_def)

lemma length_write_at [simp]:
  "off + length src \<le> length xs \<Longrightarrow> length (write_at off src xs) = length xs"
  by (simp add: write_at_def)

lemma write_at_whole [simp]: "length src = length xs \<Longrightarrow> write_at 0 src xs = src"
  by (simp add: write_at_def)

lemma write_at_nil [simp]: "write_at off [] xs = xs"
  by (simp add: write_at_def)

lemma read_write_at [simp]:
  "off + length src \<le> length xs \<Longrightarrow> read_at off (length src) (write_at off src xs) = src"
  by (simp add: read_at_def write_at_def)

lemma nth_write_at:
  assumes "off + length src \<le> length xs" "i < length xs"
  shows "write_at off src xs ! i =
    (if off \<le> i \<and> i < off + length src then src ! (i - off) else xs ! i)"
  using assms by (auto simp: write_at_def nth_append)

lemma write_at_append:
  assumes "off + length xs + length ys \<le> length zs"
  shows "write_at (off + length xs) ys (write_at off xs zs) = write_at off (xs @ ys) zs"
  using assms by (simp add: write_at_def add.commute add.left_commute)

text \<open>A \<^verbatim>\<open>static_cast<std::int64_t>\<close>.\<close>

definition i64 :: "nat \<Rightarrow> int" where
  "i64 n = sint (word_of_nat n :: 64 word)"

end
