(* ===== verification/Common_Types.thy ===== *)
theory Common_Types
  imports Prelude
begin

text \<open>
  The vocabulary shared by the client SDK and the gateway: error codes
  (\<^verbatim>\<open>include/us3_turbo_access/common/error_code.h\<close>), the gateway's error and
  result types (\<^verbatim>\<open>gateway/result.h\<close>, \<^verbatim>\<open>common/error.cpp\<close>), operation and data
  flow names (\<^verbatim>\<open>gateway/types.h\<close>, \<^verbatim>\<open>common/types.cpp\<close>), and random identifiers and
  expiry times (\<^verbatim>\<open>common/ids.cpp\<close>).
\<close>

section \<open>Error codes and results\<close>

datatype ErrorCode =
    kSuccess | kInvalidArgument | kUnsupported | kInternal | kRpcError
  | kSerializationError | kControlPlaneError | kRegistrationFailed | kTransportError
  | kNotFound | kBadRequest | kRangeNotSatisfiable | kBackendUnavailable
  | kCapacityExceeded | kRdmaUnavailable | kSessionNotFound | kTicketInvalid
  | kStaleState | kPayloadTooLarge | kMethodNotAllowed | kTimeout

fun ErrorCode_ToString :: "ErrorCode \<Rightarrow> string" where
  "ErrorCode_ToString kSuccess = ''success''"
| "ErrorCode_ToString kInvalidArgument = ''invalid_argument''"
| "ErrorCode_ToString kUnsupported = ''unsupported''"
| "ErrorCode_ToString kInternal = ''internal''"
| "ErrorCode_ToString kRpcError = ''rpc_error''"
| "ErrorCode_ToString kSerializationError = ''serialization_error''"
| "ErrorCode_ToString kControlPlaneError = ''control_plane_error''"
| "ErrorCode_ToString kRegistrationFailed = ''registration_failed''"
| "ErrorCode_ToString kTransportError = ''transport_error''"
| "ErrorCode_ToString kNotFound = ''not_found''"
| "ErrorCode_ToString kBadRequest = ''bad_request''"
| "ErrorCode_ToString kRangeNotSatisfiable = ''range_not_satisfiable''"
| "ErrorCode_ToString kBackendUnavailable = ''backend_unavailable''"
| "ErrorCode_ToString kCapacityExceeded = ''capacity_exceeded''"
| "ErrorCode_ToString kRdmaUnavailable = ''rdma_unavailable''"
| "ErrorCode_ToString kSessionNotFound = ''session_not_found''"
| "ErrorCode_ToString kTicketInvalid = ''ticket_invalid''"
| "ErrorCode_ToString kStaleState = ''stale_state''"
| "ErrorCode_ToString kPayloadTooLarge = ''payload_too_large''"
| "ErrorCode_ToString kMethodNotAllowed = ''method_not_allowed''"
| "ErrorCode_ToString kTimeout = ''timeout''"

fun ToHttpStatus :: "ErrorCode \<Rightarrow> int" where
  "ToHttpStatus kSuccess = 200"
| "ToHttpStatus kInvalidArgument = 400"
| "ToHttpStatus kBadRequest = 400"
| "ToHttpStatus kUnsupported = 501"
| "ToHttpStatus kNotFound = 404"
| "ToHttpStatus kSessionNotFound = 404"
| "ToHttpStatus kRangeNotSatisfiable = 416"
| "ToHttpStatus kPayloadTooLarge = 413"
| "ToHttpStatus kCapacityExceeded = 507"
| "ToHttpStatus kStaleState = 409"
| "ToHttpStatus kTicketInvalid = 401"
| "ToHttpStatus kBackendUnavailable = 502"
| "ToHttpStatus kRdmaUnavailable = 503"
| "ToHttpStatus kMethodNotAllowed = 405"
| "ToHttpStatus kTimeout = 504"
| "ToHttpStatus kRpcError = 500"
| "ToHttpStatus kSerializationError = 500"
| "ToHttpStatus kControlPlaneError = 500"
| "ToHttpStatus kRegistrationFailed = 500"
| "ToHttpStatus kTransportError = 500"
| "ToHttpStatus kInternal = 500"

record Error =
  err_code :: ErrorCode
  err_message :: string
  err_retryable :: bool
  err_request_id :: string

type_synonym 'a result = "Error + 'a"

abbreviation Success :: "'a \<Rightarrow> 'a result" where
  "Success \<equiv> Inr"

abbreviation Failure :: "Error \<Rightarrow> 'a result" where
  "Failure \<equiv> Inl"

definition MakeError :: "ErrorCode \<Rightarrow> string \<Rightarrow> bool \<Rightarrow> Error" where
  "MakeError c m r = \<lparr>err_code = c, err_message = m, err_retryable = r, err_request_id = []\<rparr>"

abbreviation success :: "'a result \<Rightarrow> bool" where
  "success r \<equiv> \<not> isl r"

text \<open>The code of a failed result, \<^term>\<open>kSuccess\<close> for a successful one: the member
  \<^verbatim>\<open>error_\<close> of a successful \<^verbatim>\<open>Result\<close> is default constructed.\<close>

definition result_code :: "'a result \<Rightarrow> ErrorCode" where
  "result_code r = (case r of Inl e \<Rightarrow> err_code e | Inr _ \<Rightarrow> kSuccess)"

lemma result_code_simps [simp]:
  "result_code (Inl e) = err_code e" "result_code (Inr x) = kSuccess"
  by (simp_all add: result_code_def)

lemma err_code_MakeError [simp]:
  "err_code (MakeError c m r) = c" "err_retryable (MakeError c m r) = r"
  by (simp_all add: MakeError_def)

lemma ErrorCode_ToString_inject:
  "ErrorCode_ToString a = ErrorCode_ToString b \<Longrightarrow> a = b"
  by (cases a; cases b) simp_all

section \<open>Operations and data flows\<close>

datatype OperationType = kGet | kPut | kHead

datatype DataFlow = NONE | CPUDirect | GPUDirect

fun OperationType_ToString :: "OperationType \<Rightarrow> string" where
  "OperationType_ToString kGet = ''GET''"
| "OperationType_ToString kPut = ''PUT''"
| "OperationType_ToString kHead = ''HEAD''"

fun DataFlow_ToString :: "DataFlow \<Rightarrow> string" where
  "DataFlow_ToString NONE = ''none''"
| "DataFlow_ToString CPUDirect = ''cpu-direct''"
| "DataFlow_ToString GPUDirect = ''gpu-direct''"

definition ParseDataFlow :: "string \<Rightarrow> DataFlow" where
  "ParseDataFlow text =
     (if text = ''gpu-direct'' then GPUDirect
      else if text = ''cpu-direct'' then CPUDirect
      else if text = ''none'' then NONE
      else NONE)"

definition ParseOperationType :: "string \<Rightarrow> OperationType" where
  "ParseOperationType text =
     (if text = ''PUT'' then kPut
      else if text = ''HEAD'' then kHead
      else kGet)"

record ObjectMetadata =
  content_length :: nat
  etag :: string
  version :: string

lemma ObjectMetadata_eta [simp]:
  "\<lparr>content_length = content_length m, etag = etag m, version = version m\<rparr> = m"
  by simp

lemma ParseDataFlow_ToString [simp]: "ParseDataFlow (DataFlow_ToString f) = f"
  by (cases f) (simp_all add: ParseDataFlow_def)

lemma ParseOperationType_ToString [simp]: "ParseOperationType (OperationType_ToString f) = f"
  by (cases f) (simp_all add: ParseOperationType_def)

lemma ParseDataFlow_GPU: "ParseDataFlow t = GPUDirect \<longleftrightarrow> t = ''gpu-direct''"
  by (auto simp: ParseDataFlow_def)

lemma ParseDataFlow_CPU: "ParseDataFlow t = CPUDirect \<longleftrightarrow> t = ''cpu-direct''"
  by (auto simp: ParseDataFlow_def)

section \<open>Identifiers\<close>

text \<open>\<^verbatim>\<open>MakeRandomId\<close> prints two engine outputs as sixteen hexadecimal digits each;
  the random engine is a parameter, so its two draws are arguments.\<close>

definition MakeRandomId :: "string \<Rightarrow> nat \<Rightarrow> nat \<Rightarrow> string" where
  "MakeRandomId prefix hi lo = prefix @ zero_pad 16 (hex hi) @ zero_pad 16 (hex lo)"

text \<open>The identifier that both the index store and the multipart registry give to an upload.\<close>

definition upload_id_of :: "nat \<Rightarrow> nat \<Rightarrow> string" where
  "upload_id_of seq ticks = ''mpu-'' @ hex seq @ CHR ''-'' # hex ticks"

lemma upload_id_of_inject [simp]:
  "upload_id_of m t = upload_id_of n t' \<longleftrightarrow> m = n \<and> t = t'"
  using dash_split_inject [OF hex_no_dash hex_no_dash] by (auto simp: upload_id_of_def)

section \<open>Time stamps\<close>

text \<open>\<^verbatim>\<open>gmtime_r\<close> and the format \<^verbatim>\<open>%Y-%m-%dT%H:%M:%SZ\<close> of \<^verbatim>\<open>strftime\<close>, for a count of seconds since 1970.\<close>

definition civil_date :: "int \<Rightarrow> int \<times> int \<times> int" where
  "civil_date days =
     (let z = days + 719468; era = z div 146097; doe = z mod 146097;
          yoe = (doe - doe div 1460 + doe div 36524 - doe div 146096) div 365;
          doy = doe - (365 * yoe + yoe div 4 - yoe div 100);
          mp = (5 * doy + 2) div 153; d = doy - (153 * mp + 2) div 5 + 1; m = (if mp < 10 then mp + 3 else mp - 9) in
      (yoe + 400 * era + (if m \<le> 2 then 1 else 0), m, d))"

definition two_digits :: "int \<Rightarrow> string" where
  "two_digits n = zero_pad 2 (dec (nat n))"

definition format_utc :: "int \<Rightarrow> string" where
  "format_utc t =
     (case civil_date (t div 86400) of (y, m, d) \<Rightarrow>
      dec (nat y) @ ''-'' @ two_digits m @ ''-'' @ two_digits d @ ''T'' @ two_digits (t mod 86400 div 3600) @ '':'' @
      two_digits (t mod 3600 div 60) @ '':'' @ two_digits (t mod 60) @ ''Z'')"

lemma format_utc_example: "format_utc 1781773200 = ''2026-06-18T09:00:00Z''"
  by code_simp

text \<open>\<^verbatim>\<open>MakeExpireAt\<close>; the argument is the reading of the system clock plus the time to live, in seconds.\<close>

definition MakeExpireAt :: "int \<Rightarrow> string" where
  "MakeExpireAt secs = format_utc secs"

end
