(* ===== verification/Http_Range.thy ===== *)
theory Http_Range
  imports Common_Types
begin

text \<open>
  The \<^verbatim>\<open>Range\<close> header parser of \<^verbatim>\<open>gateway/src/common/range.cpp\<close>.
  \<^verbatim>\<open>std::from_chars\<close> on an unsigned 64-bit target reads the longest prefix of decimal
  digits; without a digit, or when the value does not fit, the target keeps its old value.
\<close>

record HttpRange =
  r_offset :: nat
  r_length :: nat
  partial :: bool
  unsatisfiable :: bool

definition is_digit :: "char \<Rightarrow> bool" where
  "is_digit c \<longleftrightarrow> (48::nat) \<le> of_char c \<and> of_char c \<le> (57::nat)"

definition from_chars :: "string \<Rightarrow> nat \<Rightarrow> nat" where
  "from_chars s old =
     (let ds = takeWhile is_digit s; n = read_base 10 ds in
      if ds = [] \<or> u64_mod \<le> n then old else n)"

definition kBytesPrefix :: string where
  "kBytesPrefix = ''bytes=''"

definition strip_prefix :: "string \<Rightarrow> string \<Rightarrow> string" where
  "strip_prefix p s = (if take (length p) s = p then drop (length p) s else s)"

definition not_dash :: "char \<Rightarrow> bool" where
  "not_dash c \<longleftrightarrow> c \<noteq> CHR ''-''"

definition ParseHttpRange :: "string option \<Rightarrow> nat \<Rightarrow> HttpRange" where
  "ParseHttpRange header_value object_size =
     (let out = \<lparr>r_offset = 0, r_length = 0, partial = False, unsatisfiable = False\<rparr> in
      if header_value = None \<or> header_value = Some [] then out\<lparr>r_length := object_size\<rparr>
      else
        let out = out\<lparr>partial := True\<rparr>;
            value = strip_prefix kBytesPrefix (the header_value) in
        if list_all not_dash value then out\<lparr>r_length := object_size\<rparr>
        else
          let before = takeWhile not_dash value;
              after = tl (dropWhile not_dash value);
              start = from_chars before 0;
              dflt = (if object_size = 0 then 0 else object_size - 1);
              last = (if after \<noteq> [] then from_chars after dflt else dflt) in
          if object_size = 0 \<or> object_size \<le> start
          then out\<lparr>r_offset := object_size, r_length := 0, unsatisfiable := True\<rparr>
          else
            let last = min last (object_size - 1) in
            out\<lparr>r_offset := start,
                r_length := (if start \<le> last then u64_add (last - start) 1 else 0)\<rparr>)"

lemma dec_all_digits: "list_all is_digit (dec n)"
proof -
  have "\<forall>c \<in> set (dec n). is_digit c"
  proof (induction "10::nat" n rule: print_base.induct)
    case (1 n)
    then show ?case by (subst print_base.simps) (auto simp: is_digit_def digit_char_def)
  qed
  then show ?thesis by (simp add: list_all_iff)
qed

lemma from_chars_dec: "n < u64_mod \<Longrightarrow> from_chars (dec n) old = n"
  using dec_all_digits [of n] by (simp add: from_chars_def takeWhile_eq_all_conv [THEN iffD2] list_all_iff read_print_base)

lemma not_dash_dec: "list_all not_dash (dec n)"
  using dec_all_digits [of n] by (auto simp: list_all_iff is_digit_def not_dash_def)

lemma strip_bytes: "strip_prefix kBytesPrefix (kBytesPrefix @ s) = s"
  by (simp add: strip_prefix_def)

lemma bytes_prefix_nonempty: "kBytesPrefix \<noteq> []"
  by (simp add: kBytesPrefix_def)

lemma not_dash_dash: "\<not> not_dash (CHR ''-'')"
  by (simp add: not_dash_def)

lemma dash_parts:
  "list_all not_dash xs \<Longrightarrow> \<not> list_all not_dash (xs @ CHR ''-'' # ys)"
  "list_all not_dash xs \<Longrightarrow> takeWhile not_dash (xs @ CHR ''-'' # ys) = xs"
  "list_all not_dash xs \<Longrightarrow> dropWhile not_dash (xs @ CHR ''-'' # ys) = CHR ''-'' # ys"
  by (induction xs) (simp_all add: not_dash_def)

text \<open>Whatever the header says, the range the gateway serves lies inside the object; an
  unsatisfiable range has length 0 and starts at the end of the object.\<close>

theorem ParseHttpRange_inside:
  "object_size < u64_mod \<Longrightarrow>
   (let r = ParseHttpRange h object_size in
    r_offset r + r_length r \<le> object_size \<and>
    (unsatisfiable r \<longrightarrow> r_length r = 0 \<and> r_offset r = object_size))"
  by (auto simp: ParseHttpRange_def Let_def u64_add_exact)

theorem ParseHttpRange_inside_witness:
  "(10::nat) < u64_mod \<and>
   (let r = ParseHttpRange (Some ''bytes=2-99'') 10 in
    r_offset r + r_length r \<le> 10 \<and>
    (unsatisfiable r \<longrightarrow> r_length r = 0 \<and> r_offset r = 10))"
  using ParseHttpRange_inside [of 10 "Some ''bytes=2-99''"] by (simp add: u64_mod_def)

text \<open>A well-formed header \<^verbatim>\<open>bytes=<a>-<b>\<close> whose first byte exists selects exactly the
  bytes from a to the smaller of b and the last byte of the object, marked partial.\<close>

theorem ParseHttpRange_well_formed:
  assumes "a \<le> b" "b < u64_mod" "a < object_size" "object_size < u64_mod"
  shows "ParseHttpRange (Some (kBytesPrefix @ dec a @ CHR ''-'' # dec b)) object_size =
    \<lparr>r_offset = a, r_length = min b (object_size - 1) - a + 1, partial = True, unsatisfiable = False\<rparr>"
  using assms
  by (auto simp: ParseHttpRange_def Let_def strip_bytes dash_parts not_dash_dec from_chars_dec u64_add_exact
      bytes_prefix_nonempty not_dash_dash)

theorem ParseHttpRange_well_formed_witness:
  "(2::nat) \<le> 5 \<and> (5::nat) < u64_mod \<and> (2::nat) < 10 \<and> (10::nat) < u64_mod \<and>
   ParseHttpRange (Some (kBytesPrefix @ dec 2 @ CHR ''-'' # dec 5)) 10 =
    \<lparr>r_offset = 2, r_length = 4, partial = True, unsatisfiable = False\<rparr>"
  using ParseHttpRange_well_formed [of 2 5 10] by (simp add: u64_mod_def)

end
