(* ===== verification/Backend_Interfaces.thy ===== *)
theory Backend_Interfaces
  imports Common_Types
begin

text \<open>
  The three virtual interfaces of the gateway's storage layer,
  \<^verbatim>\<open>backend/data_store.h\<close>, \<^verbatim>\<open>backend/index_store.h\<close> and \<^verbatim>\<open>backend/backend.h\<close>. A class
  that implements one of them is a record of its methods over an explicit state; a
  caller that holds a pointer to the interface takes the record as an argument.
  Every method that reads the steady clock takes the tick count it reads.
\<close>

record PartRecord =
  pr_part_number :: nat
  pr_etag :: string

definition PartRecordByNumberLess :: "PartRecord \<Rightarrow> PartRecord \<Rightarrow> bool" where
  "PartRecordByNumberLess a b \<longleftrightarrow> pr_part_number a < pr_part_number b"

definition MakeKey :: "string \<Rightarrow> string \<Rightarrow> string" where
  "MakeKey bucket key = bucket @ CHR ''/'' # key"

text \<open>\<^verbatim>\<open>Read\<close> returns the number of copied bytes and the destination buffer after the copy.\<close>

record 's IDataStore =
  ds_Reserve :: "string \<Rightarrow> string \<Rightarrow> nat \<Rightarrow> 's \<Rightarrow> bool result \<times> 's"
  ds_WriteRange :: "string \<Rightarrow> string \<Rightarrow> nat \<Rightarrow> bytes \<Rightarrow> nat option \<Rightarrow> 's \<Rightarrow> bool result \<times> 's"
  ds_Read :: "string \<Rightarrow> string \<Rightarrow> nat \<Rightarrow> bytes \<Rightarrow> 's \<Rightarrow> (nat \<times> bytes) result"
  ds_DeleteObject :: "string \<Rightarrow> string \<Rightarrow> 's \<Rightarrow> bool result \<times> 's"
  ds_WritePart :: "string \<Rightarrow> nat \<Rightarrow> nat \<Rightarrow> bytes \<Rightarrow> 's \<Rightarrow> bool result \<times> 's"
  ds_AbortMultipartData :: "string \<Rightarrow> 's \<Rightarrow> bool result \<times> 's"
  ds_AssembleObject :: "string \<Rightarrow> string \<Rightarrow> string \<Rightarrow> nat list \<Rightarrow> 's \<Rightarrow> nat result \<times> 's"

record 's IIndexStore =
  ix_Head :: "string \<Rightarrow> string \<Rightarrow> 's \<Rightarrow> ObjectMetadata result"
  ix_PutObjectIndex :: "string \<Rightarrow> string \<Rightarrow> nat \<Rightarrow> string \<Rightarrow> string \<Rightarrow> 's \<Rightarrow> bool result \<times> 's"
  ix_DeleteObjectIndex :: "string \<Rightarrow> string \<Rightarrow> 's \<Rightarrow> bool result \<times> 's"
  ix_StartMultipart :: "nat \<Rightarrow> string \<Rightarrow> string \<Rightarrow> nat option \<Rightarrow> 's \<Rightarrow> string result \<times> 's"
  ix_AbortMultipart :: "string \<Rightarrow> 's \<Rightarrow> bool result \<times> 's"
  ix_CommitMultipart :: "string \<Rightarrow> string \<Rightarrow> string \<Rightarrow> nat \<Rightarrow> string \<Rightarrow> string \<Rightarrow> 's
                         \<Rightarrow> ObjectMetadata result \<times> 's"

record 's IBackend =
  be_Head :: "string \<Rightarrow> string \<Rightarrow> 's \<Rightarrow> ObjectMetadata result"
  be_Read :: "string \<Rightarrow> string \<Rightarrow> nat \<Rightarrow> bytes \<Rightarrow> 's \<Rightarrow> (nat \<times> bytes) result"
  be_Write :: "nat \<Rightarrow> string \<Rightarrow> string \<Rightarrow> bytes \<Rightarrow> 's \<Rightarrow> ObjectMetadata result \<times> 's"
  be_WriteRange :: "nat \<Rightarrow> string \<Rightarrow> string \<Rightarrow> nat \<Rightarrow> bytes \<Rightarrow> nat option \<Rightarrow> 's
                    \<Rightarrow> ObjectMetadata result \<times> 's"
  be_Reserve :: "nat \<Rightarrow> string \<Rightarrow> string \<Rightarrow> nat \<Rightarrow> 's \<Rightarrow> ObjectMetadata result \<times> 's"
  be_StartMultipart :: "nat \<Rightarrow> string \<Rightarrow> string \<Rightarrow> nat option \<Rightarrow> 's \<Rightarrow> string result \<times> 's"
  be_WritePart :: "nat \<Rightarrow> string \<Rightarrow> nat \<Rightarrow> nat \<Rightarrow> bytes \<Rightarrow> 's \<Rightarrow> string result \<times> 's"
  be_CompleteMultipart :: "nat \<Rightarrow> string \<Rightarrow> PartRecord list \<Rightarrow> 's \<Rightarrow> ObjectMetadata result \<times> 's"
  be_AbortMultipart :: "string \<Rightarrow> 's \<Rightarrow> bool result \<times> 's"

text \<open>The default bodies of the two \<^verbatim>\<open>IOBuf\<close> overloads flatten the buffer, a list of
  blocks, and call the span version.\<close>

definition IBackend_WriteIOBuf ::
  "'s IBackend \<Rightarrow> nat \<Rightarrow> string \<Rightarrow> string \<Rightarrow> bytes list \<Rightarrow> 's \<Rightarrow> ObjectMetadata result \<times> 's" where
  "IBackend_WriteIOBuf B now bucket key src s = be_Write B now bucket key (concat src) s"

definition IBackend_WritePartIOBuf ::
  "'s IBackend \<Rightarrow> nat \<Rightarrow> string \<Rightarrow> nat \<Rightarrow> nat \<Rightarrow> bytes list \<Rightarrow> 's \<Rightarrow> string result \<times> 's" where
  "IBackend_WritePartIOBuf B now upload_id part_number offset src s =
     be_WritePart B now upload_id part_number offset (concat src) s"

lemma MakeKey_inject:
  assumes "CHR ''/'' \<notin> set b" "CHR ''/'' \<notin> set b'"
  shows "MakeKey b k = MakeKey b' k' \<longleftrightarrow> b = b' \<and> k = k'"
  using dash_split_inject [OF assms] by (simp add: MakeKey_def)

section \<open>The contract of a data store\<close>

text \<open>Size of an object after a ranged write: at least the end of the range and the announced
  total.\<close>

definition write_target :: "nat \<Rightarrow> bytes \<Rightarrow> nat option \<Rightarrow> nat" where
  "write_target offset src total_size =
     max (case total_size of None \<Rightarrow> offset + length src | Some t \<Rightarrow> t) (offset + length src)"

definition written :: "bytes \<Rightarrow> nat \<Rightarrow> bytes \<Rightarrow> nat option \<Rightarrow> bytes" where
  "written old offset src total_size =
     write_at offset src (resize (write_target offset src total_size) old)"

lemma write_target_ge: "offset + length src \<le> write_target offset src total_size"
  by (simp add: write_target_def)

lemma length_written [simp]:
  "length (written old offset src total_size) = write_target offset src total_size"
  using write_target_ge [of offset src total_size] by (simp add: written_def)

lemma written_whole: "written old 0 src (Some (length src)) = src"
  by (simp add: written_def write_target_def)

text \<open>Content of an object, and of a staged part: an absent one counts as empty.\<close>

definition content :: "bytes option \<Rightarrow> bytes" where
  "content x = (case x of None \<Rightarrow> [] | Some b \<Rightarrow> b)"

lemma content_simps [simp]: "content None = []" "content (Some b) = b"
  by (simp_all add: content_def)

text \<open>\<^verbatim>\<open>obj\<close> and \<^verbatim>\<open>staged\<close> read the objects and the staged parts of a state, \<^verbatim>\<open>room s n\<close>
  says that a request of n bytes stays inside the 64-bit arithmetic of the store. A refused
  operation changes no content.\<close>

locale data_store =
  fixes D :: "'s IDataStore"
    and dinv :: "'s \<Rightarrow> bool"
    and room :: "'s \<Rightarrow> nat \<Rightarrow> bool"
    and obj :: "'s \<Rightarrow> string \<Rightarrow> bytes option"
    and staged :: "'s \<Rightarrow> string \<Rightarrow> nat \<Rightarrow> bytes option"
  assumes room_mod: "room s n \<Longrightarrow> n < u64_mod"
    and room_mono: "room s n \<Longrightarrow> m \<le> n \<Longrightarrow> room s m"
    and room_reserve: "room (snd (ds_Reserve D b k n s)) = room s"
    and room_write: "room (snd (ds_WriteRange D b k off src t s)) = room s"
    and room_part: "room (snd (ds_WritePart D u pn off src s)) = room s"
    and reserve_inv: "dinv s \<Longrightarrow> room s n \<Longrightarrow> dinv (snd (ds_Reserve D b k n s))"
    and reserve_ok: "dinv s \<Longrightarrow> room s n \<Longrightarrow> ds_Reserve D b k n s = (Inr r, s') \<Longrightarrow>
      obj s' = (obj s)(MakeKey b k \<mapsto> resize n (content (obj s (MakeKey b k)))) \<and> staged s' = staged s"
    and reserve_failed: "dinv s \<Longrightarrow> room s n \<Longrightarrow> ds_Reserve D b k n s = (Inl e, s') \<Longrightarrow>
      content \<circ> obj s' = content \<circ> obj s \<and> staged s' = staged s"
    and write_inv: "dinv s \<Longrightarrow> room s (write_target off src t) \<Longrightarrow>
      dinv (snd (ds_WriteRange D b k off src t s))"
    and write_ok: "dinv s \<Longrightarrow> room s (write_target off src t) \<Longrightarrow>
      ds_WriteRange D b k off src t s = (Inr r, s') \<Longrightarrow>
      obj s' = (obj s)(MakeKey b k \<mapsto> written (content (obj s (MakeKey b k))) off src t)
      \<and> staged s' = staged s"
    and write_failed: "dinv s \<Longrightarrow> room s (write_target off src t) \<Longrightarrow>
      ds_WriteRange D b k off src t s = (Inl e, s') \<Longrightarrow>
      content \<circ> obj s' = content \<circ> obj s \<and> staged s' = staged s"
    and write_in_place: "dinv s \<Longrightarrow> room s (write_target off src t) \<Longrightarrow>
      write_target off src t \<le> length (content (obj s (MakeKey b k))) \<Longrightarrow>
      isl (fst (ds_WriteRange D b k off src t s)) = False"
    and read_ok: "obj s (MakeKey b k) = Some body \<Longrightarrow> off \<le> length body \<Longrightarrow>
      ds_Read D b k off dst s =
        Inr (min (length body - off) (length dst),
             read_at off (length dst) body @ drop (length body - off) dst)"
    and read_missing: "obj s (MakeKey b k) = None \<Longrightarrow>
      result_code (ds_Read D b k off dst s) = kNotFound"
    and part_inv: "dinv s \<Longrightarrow> room s (off + length src) \<Longrightarrow> dinv (snd (ds_WritePart D u pn off src s))"
    and part_obj: "dinv s \<Longrightarrow> room s (off + length src) \<Longrightarrow>
      obj (snd (ds_WritePart D u pn off src s)) = obj s"
    and part_ok: "dinv s \<Longrightarrow> room s (off + length src) \<Longrightarrow> ds_WritePart D u pn off src s = (Inr r, s') \<Longrightarrow>
      staged s' = (staged s)(u := (staged s u)(pn \<mapsto>
        write_at off src (resize (max (length (content (staged s u pn))) (off + length src))
          (content (staged s u pn)))))"
    and abort_inv: "dinv s \<Longrightarrow> dinv (snd (ds_AbortMultipartData D u s))"
    and abort_ok: "dinv s \<Longrightarrow> obj (snd (ds_AbortMultipartData D u s)) = obj s \<and>
      staged (snd (ds_AbortMultipartData D u s)) = (staged s)(u := Map.empty)"
    and assemble_inv: "dinv s \<Longrightarrow>
      room s (\<Sum>pn\<leftarrow>pns. length (content (staged s u pn))) \<Longrightarrow>
      dinv (snd (ds_AssembleObject D u b k pns s))"
    and assemble_ok: "dinv s \<Longrightarrow>
      room s (\<Sum>pn\<leftarrow>pns. length (content (staged s u pn))) \<Longrightarrow>
      ds_AssembleObject D u b k pns s = (Inr n, s') \<Longrightarrow>
      set pns \<subseteq> dom (staged s u) \<and>
      obj s' = (obj s)(MakeKey b k \<mapsto> concat (map (\<lambda>pn. content (staged s u pn)) pns)) \<and>
      n = (\<Sum>pn\<leftarrow>pns. length (content (staged s u pn))) \<and>
      staged s' = (staged s)(u := Map.empty)"
    and assemble_failed: "dinv s \<Longrightarrow>
      room s (\<Sum>pn\<leftarrow>pns. length (content (staged s u pn))) \<Longrightarrow>
      ds_AssembleObject D u b k pns s = (Inl e, s') \<Longrightarrow>
      content \<circ> obj s' = content \<circ> obj s"

section \<open>The contract of an index store\<close>

locale index_store =
  fixes I :: "'t IIndexStore"
    and iinv :: "'t \<Rightarrow> bool"
    and can_start :: "'t \<Rightarrow> bool"
    and entries :: "'t \<Rightarrow> string \<rightharpoonup> ObjectMetadata"
    and uploads :: "'t \<Rightarrow> string set"
  assumes head: "ix_Head I b k s =
      (case entries s (MakeKey b k) of
         None \<Rightarrow> Inl (MakeError kNotFound ''object not found'' False) | Some m \<Rightarrow> Inr m)"
    and put_ok: "iinv s \<Longrightarrow> \<exists>s'. ix_PutObjectIndex I b k n e v s = (Inr True, s') \<and> iinv s' \<and>
      entries s' = (entries s)(MakeKey b k \<mapsto> \<lparr>content_length = n, etag = e, version = v\<rparr>) \<and>
      uploads s' = uploads s"
    and start_ok: "iinv s \<Longrightarrow> can_start s \<Longrightarrow>
      \<exists>u s'. ix_StartMultipart I now b k hint s = (Inr u, s') \<and> iinv s' \<and> u \<notin> uploads s \<and>
        uploads s' = insert u (uploads s) \<and> entries s' = entries s"
    and abort_upload: "iinv s \<Longrightarrow> \<exists>s'. ix_AbortMultipart I u s = (Inr (u \<in> uploads s), s') \<and> iinv s' \<and>
      uploads s' = uploads s - {u} \<and> entries s' = entries s"
    and commit_ok: "iinv s \<Longrightarrow> u \<in> uploads s \<Longrightarrow>
      \<exists>s'. ix_CommitMultipart I u b k n e v s = (Inr \<lparr>content_length = n, etag = e, version = v\<rparr>, s') \<and>
        iinv s' \<and>
        entries s' = (entries s)(MakeKey b k \<mapsto> \<lparr>content_length = n, etag = e, version = v\<rparr>) \<and>
        uploads s' = uploads s - {u}"
    and commit_unknown: "iinv s \<Longrightarrow> u \<notin> uploads s \<Longrightarrow>
      result_code (fst (ix_CommitMultipart I u b k n e v s)) = kNotFound \<and>
      snd (ix_CommitMultipart I u b k n e v s) = s"

end
