(* ===== verification/Memory_Data_Store.thy ===== *)
theory Memory_Data_Store
  imports Backend_Interfaces
begin

text \<open>
  \<^verbatim>\<open>gateway/src/backend/memory_data_store.cpp\<close>: object bodies and multipart staging in
  process memory under a global capacity. The counter \<^verbatim>\<open>used_bytes_\<close> is 64 bits wide and
  wraps. \<^verbatim>\<open>out_of_bounds\<close> records a \<^verbatim>\<open>memcpy\<close> whose range leaves the destination vector;
  the C++ behaviour is undefined there, and the theorems show when it cannot happen.
\<close>

section \<open>State and operations\<close>

record MpuParts =
  mp_parts :: "nat \<rightharpoonup> bytes"
  reserved_bytes :: nat

record MemoryDataStore =
  capacity_bytes :: nat
  used_bytes :: nat
  bodies :: "string \<rightharpoonup> bytes"
  mpu :: "string \<rightharpoonup> MpuParts"
  out_of_bounds :: bool

definition MemoryDataStore_init :: "nat \<Rightarrow> MemoryDataStore" where
  "MemoryDataStore_init cap =
     \<lparr>capacity_bytes = cap, used_bytes = 0, bodies = Map.empty, mpu = Map.empty, out_of_bounds = False\<rparr>"

definition capacity_error :: Error where
  "capacity_error = MakeError kCapacityExceeded ''memory data store capacity exceeded'' False"

definition ReserveBytes :: "nat \<Rightarrow> MemoryDataStore \<Rightarrow> bool \<times> MemoryDataStore" where
  "ReserveBytes growth s =
     (if growth = 0 then (True, s)
      else let target = u64_add (used_bytes s) growth in
        if capacity_bytes s < target then (False, s)
        else (True, s\<lparr>used_bytes := target\<rparr>))"

definition ReleaseBytes :: "nat \<Rightarrow> MemoryDataStore \<Rightarrow> MemoryDataStore" where
  "ReleaseBytes n s = (if n = 0 then s else s\<lparr>used_bytes := u64_sub (used_bytes s) n\<rparr>)"

text \<open>\<^verbatim>\<open>operator[]\<close> on the map of bodies: an absent entry is created empty.\<close>

definition body_at :: "MemoryDataStore \<Rightarrow> string \<Rightarrow> bytes" where
  "body_at s oid = (case bodies s oid of None \<Rightarrow> [] | Some b \<Rightarrow> b)"

definition set_body :: "string \<Rightarrow> bytes \<Rightarrow> MemoryDataStore \<Rightarrow> MemoryDataStore" where
  "set_body oid b s = s\<lparr>bodies := (bodies s)(oid \<mapsto> b)\<rparr>"

definition erase_body :: "string \<Rightarrow> MemoryDataStore \<Rightarrow> MemoryDataStore" where
  "erase_body oid s = s\<lparr>bodies := (bodies s)(oid := None)\<rparr>"

text \<open>The size change that \<^verbatim>\<open>Reserve\<close>, \<^verbatim>\<open>WriteRange\<close> and \<^verbatim>\<open>AssembleObject\<close> account for:
  growth is reserved, and may fail; shrinking releases.\<close>

definition settle :: "nat \<Rightarrow> nat \<Rightarrow> MemoryDataStore \<Rightarrow> bool \<times> MemoryDataStore" where
  "settle old_size target s =
     (if old_size < target then ReserveBytes (target - old_size) s
      else if target < old_size then (True, ReleaseBytes (old_size - target) s)
      else (True, s))"

definition capacity_failure :: "string \<Rightarrow> nat \<Rightarrow> MemoryDataStore \<Rightarrow> 'a result \<times> MemoryDataStore" where
  "capacity_failure oid old_size s =
     (Failure capacity_error, if old_size = 0 then erase_body oid s else s)"

definition MemoryDataStore_Reserve ::
  "string \<Rightarrow> string \<Rightarrow> nat \<Rightarrow> MemoryDataStore \<Rightarrow> bool result \<times> MemoryDataStore" where
  "MemoryDataStore_Reserve bucket key total_size s =
     (let oid = MakeKey bucket key;
          body = body_at s oid;
          s = set_body oid body s;
          old_size = length body in
      case settle old_size total_size s of
        (False, s) \<Rightarrow> capacity_failure oid old_size s
      | (True, s) \<Rightarrow> (Success True, set_body oid (resize total_size body) s))"

text \<open>\<^verbatim>\<open>memcpy\<close> of \<^verbatim>\<open>src\<close> to \<^verbatim>\<open>body + off\<close>.\<close>

definition copy_fits :: "nat \<Rightarrow> bytes \<Rightarrow> bytes \<Rightarrow> bool" where
  "copy_fits off src body \<longleftrightarrow> src = [] \<or> off + length src \<le> length body"

definition copied :: "nat \<Rightarrow> bytes \<Rightarrow> bytes \<Rightarrow> bytes" where
  "copied off src body = (if copy_fits off src body then write_at off src body else body)"

definition MemoryDataStore_WriteRange ::
  "string \<Rightarrow> string \<Rightarrow> nat \<Rightarrow> bytes \<Rightarrow> nat option \<Rightarrow> MemoryDataStore
   \<Rightarrow> bool result \<times> MemoryDataStore" where
  "MemoryDataStore_WriteRange bucket key offset src total_size s =
     (let oid = MakeKey bucket key;
          body = body_at s oid;
          s = set_body oid body s;
          end_off = u64_add offset (length src);
          target = max (case total_size of None \<Rightarrow> end_off | Some t \<Rightarrow> t) end_off;
          old_size = length body in
      case settle old_size target s of
        (False, s) \<Rightarrow> capacity_failure oid old_size s
      | (True, s) \<Rightarrow>
          let body = resize target body in
          (Success True,
           (set_body oid (copied offset src body) s)
             \<lparr>out_of_bounds := out_of_bounds s \<or> \<not> copy_fits offset src body\<rparr>))"

definition MemoryDataStore_Read ::
  "string \<Rightarrow> string \<Rightarrow> nat \<Rightarrow> bytes \<Rightarrow> MemoryDataStore \<Rightarrow> (nat \<times> bytes) result" where
  "MemoryDataStore_Read bucket key offset dst s =
     (case bodies s (MakeKey bucket key) of
        None \<Rightarrow> Failure (MakeError kNotFound ''object data not found'' False)
      | Some body \<Rightarrow>
          if length body < offset
          then Failure (MakeError kRangeNotSatisfiable ''offset beyond object size'' False)
          else
            let available = length body - offset;
                to_copy = min available (length dst) in
            Success (to_copy, if to_copy \<noteq> 0 then write_at 0 (read_at offset to_copy body) dst else dst))"

definition MemoryDataStore_DeleteObject ::
  "string \<Rightarrow> string \<Rightarrow> MemoryDataStore \<Rightarrow> bool result \<times> MemoryDataStore" where
  "MemoryDataStore_DeleteObject bucket key s =
     (let oid = MakeKey bucket key in
      case bodies s oid of
        None \<Rightarrow> (Success False, s)
      | Some body \<Rightarrow> (Success True, erase_body oid (ReleaseBytes (length body) s)))"

definition empty_mpu :: MpuParts where
  "empty_mpu = \<lparr>mp_parts = Map.empty, reserved_bytes = 0\<rparr>"

definition mpu_at :: "MemoryDataStore \<Rightarrow> string \<Rightarrow> MpuParts" where
  "mpu_at s u = (case mpu s u of None \<Rightarrow> empty_mpu | Some mp \<Rightarrow> mp)"

definition part_at :: "MpuParts \<Rightarrow> nat \<Rightarrow> bytes" where
  "part_at mp pn = (case mp_parts mp pn of None \<Rightarrow> [] | Some b \<Rightarrow> b)"

definition set_part :: "string \<Rightarrow> nat \<Rightarrow> bytes \<Rightarrow> nat \<Rightarrow> MemoryDataStore \<Rightarrow> MemoryDataStore" where
  "set_part u pn b reserved s =
     (let mp = mpu_at s u in
      s\<lparr>mpu := (mpu s)(u \<mapsto> \<lparr>mp_parts = (mp_parts mp)(pn \<mapsto> b), reserved_bytes = reserved\<rparr>)\<rparr>)"

definition MemoryDataStore_WritePart ::
  "string \<Rightarrow> nat \<Rightarrow> nat \<Rightarrow> bytes \<Rightarrow> MemoryDataStore \<Rightarrow> bool result \<times> MemoryDataStore" where
  "MemoryDataStore_WritePart upload_id part_number offset src s =
     (let mp = mpu_at s upload_id;
          part = part_at mp part_number;
          s = set_part upload_id part_number part (reserved_bytes mp) s;
          end_off = u64_add offset (length src);
          old_size = length part in
      if old_size < end_off then
        (case ReserveBytes (end_off - old_size) s of
           (False, s) \<Rightarrow> (Failure capacity_error, s)
         | (True, s) \<Rightarrow>
             let body = resize end_off part in
             (Success True,
              (set_part upload_id part_number (copied offset src body)
                 (u64_add (reserved_bytes mp) (end_off - old_size)) s)
                \<lparr>out_of_bounds := out_of_bounds s \<or> \<not> copy_fits offset src body\<rparr>))
      else
        (Success True,
         (set_part upload_id part_number (copied offset src part) (reserved_bytes mp) s)
           \<lparr>out_of_bounds := out_of_bounds s \<or> \<not> copy_fits offset src part\<rparr>))"

definition MemoryDataStore_AbortMultipartData ::
  "string \<Rightarrow> MemoryDataStore \<Rightarrow> bool result \<times> MemoryDataStore" where
  "MemoryDataStore_AbortMultipartData upload_id s =
     (case mpu s upload_id of
        None \<Rightarrow> (Success False, s)
      | Some mp \<Rightarrow>
          (Success True, (ReleaseBytes (reserved_bytes mp) s)\<lparr>mpu := (mpu s)(upload_id := None)\<rparr>))"

fun assemble_total :: "(nat \<rightharpoonup> bytes) \<Rightarrow> nat list \<Rightarrow> nat \<Rightarrow> nat option" where
  "assemble_total ps [] tot = Some tot"
| "assemble_total ps (pn # pns) tot =
     (case ps pn of
        None \<Rightarrow> None
      | Some b \<Rightarrow> assemble_total ps pns (u64_add tot (length b)))"

definition assembled :: "MpuParts \<Rightarrow> nat list \<Rightarrow> bytes" where
  "assembled mp ordered = concat (map (part_at mp) ordered)"

definition MemoryDataStore_AssembleObject ::
  "string \<Rightarrow> string \<Rightarrow> string \<Rightarrow> nat list \<Rightarrow> MemoryDataStore \<Rightarrow> nat result \<times> MemoryDataStore" where
  "MemoryDataStore_AssembleObject upload_id dest_bucket dest_key ordered_part_numbers s =
     (case mpu s upload_id of
        None \<Rightarrow> (Failure (MakeError kNotFound ''upload_id not found in data store'' False), s)
      | Some mp \<Rightarrow>
          let s = s\<lparr>mpu := (mpu s)(upload_id := None)\<rparr> in
          case assemble_total (mp_parts mp) ordered_part_numbers 0 of
            None \<Rightarrow> (Failure (MakeError kBadRequest ''part_number missing in upload data'' False),
                     ReleaseBytes (reserved_bytes mp) s)
          | Some tot \<Rightarrow>
              let s = ReleaseBytes (reserved_bytes mp) s;
                  oid = MakeKey dest_bucket dest_key;
                  body = body_at s oid;
                  s = set_body oid body s;
                  old_size = length body in
              case settle old_size tot s of
                (False, s) \<Rightarrow> capacity_failure oid old_size s
              | (True, s) \<Rightarrow> (Success tot, set_body oid (assembled mp ordered_part_numbers) s))"

definition memory_data_store :: "MemoryDataStore IDataStore" where
  "memory_data_store =
     \<lparr>ds_Reserve = MemoryDataStore_Reserve, ds_WriteRange = MemoryDataStore_WriteRange,
      ds_Read = MemoryDataStore_Read, ds_DeleteObject = MemoryDataStore_DeleteObject,
      ds_WritePart = MemoryDataStore_WritePart,
      ds_AbortMultipartData = MemoryDataStore_AbortMultipartData,
      ds_AssembleObject = MemoryDataStore_AssembleObject\<rparr>"

section \<open>Accounting invariant\<close>

text \<open>The counter is exactly the number of bytes held by object bodies and staged parts, it
  respects the capacity, and no copy has left its vector.\<close>

definition mpu_wf :: "MpuParts \<Rightarrow> bool" where
  "mpu_wf mp \<longleftrightarrow> finite (dom (mp_parts mp)) \<and> reserved_bytes mp = map_sum length (mp_parts mp)"

definition stored_bytes :: "MemoryDataStore \<Rightarrow> nat" where
  "stored_bytes s = map_sum length (bodies s) + map_sum reserved_bytes (mpu s)"

definition data_store_inv :: "MemoryDataStore \<Rightarrow> bool" where
  "data_store_inv s \<longleftrightarrow>
     finite (dom (bodies s)) \<and> finite (dom (mpu s)) \<and> (\<forall>u mp. mpu s u = Some mp \<longrightarrow> mpu_wf mp) \<and>
     used_bytes s = stored_bytes s \<and> used_bytes s \<le> capacity_bytes s \<and>
     capacity_bytes s < u64_mod \<and> \<not> out_of_bounds s"

text \<open>A request of \<^verbatim>\<open>n\<close> bytes cannot wrap the counter.\<close>

definition fits :: "MemoryDataStore \<Rightarrow> nat \<Rightarrow> bool" where
  "fits s n \<longleftrightarrow> capacity_bytes s + n < u64_mod"

lemma settle_exact:
  assumes "old \<le> used_bytes s" "used_bytes s + target < u64_mod"
  shows "settle old target s =
    (if old < target \<and> capacity_bytes s < used_bytes s + target - old then (False, s)
     else (True, s\<lparr>used_bytes := used_bytes s + target - old\<rparr>))"
  using assms
  by (auto simp: settle_def ReserveBytes_def ReleaseBytes_def u64_add_exact u64_sub_exact Let_def)

lemma body_at_le: "data_store_inv s \<Longrightarrow> length (body_at s oid) \<le> map_sum length (bodies s)"
  using opt_size_le_map_sum [of "bodies s" length oid]
  by (simp add: data_store_inv_def body_at_def opt_size_def split: option.splits)

lemma opt_size_body: "opt_size length (bodies s oid) = length (body_at s oid)"
  by (simp add: body_at_def opt_size_def split: option.splits)

lemma map_sum_set_body:
  "finite (dom (bodies s)) \<Longrightarrow> map_sum length ((bodies s)(oid \<mapsto> b)) =
     map_sum length (bodies s) - length (body_at s oid) + length b"
  by (simp add: map_sum_update opt_size_body)

text \<open>What an operation that replaces one body and settles the difference does to the
  invariant.\<close>

lemma inv_replace_body:
  assumes "data_store_inv s" "used_bytes s + length b - length (body_at s oid) \<le> capacity_bytes s"
  shows "data_store_inv
    (s\<lparr>bodies := (bodies s)(oid \<mapsto> b),
       used_bytes := used_bytes s + length b - length (body_at s oid)\<rparr>)"
  using assms body_at_le [OF assms(1), of oid]
  by (auto simp: data_store_inv_def stored_bytes_def map_sum_set_body)

lemma inv_erase_empty_body:
  assumes "data_store_inv s" "body_at s oid = []"
  shows "data_store_inv (s\<lparr>bodies := (bodies s)(oid := None)\<rparr>)"
  using assms
  by (auto simp: data_store_inv_def stored_bytes_def map_sum_delete opt_size_body)

lemma inv_create_body:
  assumes "data_store_inv s"
  shows "data_store_inv (s\<lparr>bodies := (bodies s)(oid \<mapsto> body_at s oid)\<rparr>)"
  using assms body_at_le [OF assms, of oid]
  by (auto simp: data_store_inv_def stored_bytes_def map_sum_set_body)

section \<open>What each operation does\<close>

lemma used_le: "data_store_inv s \<Longrightarrow> used_bytes s \<le> capacity_bytes s"
  by (simp add: data_store_inv_def)

lemma body_at_used: "data_store_inv s \<Longrightarrow> length (body_at s oid) \<le> used_bytes s"
  using body_at_le [of s oid] by (simp add: data_store_inv_def stored_bytes_def)

lemma set_body_same: "body_at s oid \<noteq> [] \<Longrightarrow> (bodies s)(oid \<mapsto> body_at s oid) = bodies s"
  by (auto simp: body_at_def split: option.splits)

text \<open>The state after a refused growth: an empty body is dropped, anything else is kept.\<close>

definition refused :: "string \<Rightarrow> MemoryDataStore \<Rightarrow> MemoryDataStore" where
  "refused oid s = (if body_at s oid = [] then erase_body oid s else s)"

definition would_exceed :: "MemoryDataStore \<Rightarrow> nat \<Rightarrow> nat \<Rightarrow> bool" where
  "would_exceed s old target \<longleftrightarrow> old < target \<and> capacity_bytes s < used_bytes s + target - old"

definition replace_body :: "string \<Rightarrow> bytes \<Rightarrow> MemoryDataStore \<Rightarrow> MemoryDataStore" where
  "replace_body oid b s =
     s\<lparr>bodies := (bodies s)(oid \<mapsto> b),
       used_bytes := used_bytes s + length b - length (body_at s oid)\<rparr>"

lemma settle_after_create:
  assumes "data_store_inv s" "fits s target"
  shows "settle (length (body_at s oid)) target (set_body oid (body_at s oid) s) =
    (if would_exceed s (length (body_at s oid)) target then (False, set_body oid (body_at s oid) s)
     else (True, (set_body oid (body_at s oid) s)
                   \<lparr>used_bytes := used_bytes s + target - length (body_at s oid)\<rparr>))"
  using settle_exact [of "length (body_at s oid)" "set_body oid (body_at s oid) s" target]
    body_at_used [OF assms(1), of oid] used_le [OF assms(1)] assms(2)
  by (simp add: set_body_def would_exceed_def fits_def)

lemma capacity_failure_refused:
  "capacity_failure oid (length (body_at s oid)) (set_body oid (body_at s oid) s) =
     (Failure capacity_error, refused oid s)"
  by (auto simp: capacity_failure_def refused_def erase_body_def set_body_def set_body_same)

lemma set_body_twice:
  "set_body oid b ((set_body oid c s)\<lparr>used_bytes := u\<rparr>) =
     s\<lparr>bodies := (bodies s)(oid \<mapsto> b), used_bytes := u\<rparr>"
  "out_of_bounds (set_body oid c s) = out_of_bounds s"
  by (simp_all add: set_body_def)

lemma Reserve_eval:
  assumes "data_store_inv s" "fits s n"
  shows "MemoryDataStore_Reserve bucket key n s =
    (let oid = MakeKey bucket key in
     if would_exceed s (length (body_at s oid)) n then (Failure capacity_error, refused oid s)
     else (Success True, replace_body oid (resize n (body_at s oid)) s))"
  using assms
  by (simp add: MemoryDataStore_Reserve_def Let_def settle_after_create capacity_failure_refused
      replace_body_def set_body_twice)

lemma WriteRange_eval:
  assumes "data_store_inv s" "fits s (write_target offset src total_size)"
  shows "MemoryDataStore_WriteRange bucket key offset src total_size s =
    (let oid = MakeKey bucket key in
     if would_exceed s (length (body_at s oid)) (write_target offset src total_size)
     then (Failure capacity_error, refused oid s)
     else (Success True, replace_body oid (written (body_at s oid) offset src total_size) s))"
proof -
  have exact: "u64_add offset (length src) = offset + length src"
    using assms(2) write_target_ge [of offset src total_size] by (simp add: fits_def u64_add_exact)
  have target: "max (case total_size of None \<Rightarrow> offset + length src | Some t \<Rightarrow> t) (offset + length src)
      = write_target offset src total_size"
    by (simp add: write_target_def)
  have "\<not> out_of_bounds s" using assms(1) by (simp add: data_store_inv_def)
  then show ?thesis using assms write_target_ge [of offset src total_size]
    by (simp add: MemoryDataStore_WriteRange_def Let_def exact target settle_after_create
        capacity_failure_refused copied_def copy_fits_def written_def replace_body_def set_body_twice)
qed

lemma inv_refused: "data_store_inv s \<Longrightarrow> data_store_inv (refused oid s)"
  by (simp add: refused_def erase_body_def inv_erase_empty_body)

lemma inv_replace:
  assumes "data_store_inv s" "\<not> would_exceed s (length (body_at s oid)) (length b)"
  shows "data_store_inv (replace_body oid b s)"
  unfolding replace_body_def using assms used_le [OF assms(1)]
  by (intro inv_replace_body) (auto simp: would_exceed_def)

lemma Reserve_inv:
  "data_store_inv s \<Longrightarrow> fits s n \<Longrightarrow> data_store_inv (snd (MemoryDataStore_Reserve bucket key n s))"
  by (simp add: Reserve_eval Let_def inv_refused inv_replace)

lemma WriteRange_inv:
  "data_store_inv s \<Longrightarrow> fits s (write_target offset src total_size) \<Longrightarrow>
   data_store_inv (snd (MemoryDataStore_WriteRange bucket key offset src total_size s))"
  by (simp add: WriteRange_eval Let_def inv_refused inv_replace)

lemma DeleteObject_inv:
  assumes "data_store_inv s"
  shows "data_store_inv (snd (MemoryDataStore_DeleteObject bucket key s))"
proof (cases "bodies s (MakeKey bucket key)")
  case None
  then show ?thesis using assms by (simp add: MemoryDataStore_DeleteObject_def Let_def)
next
  case (Some body)
  moreover have "length body \<le> used_bytes s" "length body \<le> map_sum length (bodies s)"
    using body_at_used [OF assms, of "MakeKey bucket key"] body_at_le [OF assms, of "MakeKey bucket key"] Some
    by (simp_all add: body_at_def)
  ultimately show ?thesis using assms
    by (auto simp: MemoryDataStore_DeleteObject_def Let_def ReleaseBytes_def u64_sub_exact
        erase_body_def data_store_inv_def stored_bytes_def map_sum_delete)
qed

section \<open>Multipart staging\<close>

lemma mpu_at_wf: "data_store_inv s \<Longrightarrow> mpu_wf (mpu_at s u)"
  by (auto simp: data_store_inv_def mpu_at_def empty_mpu_def mpu_wf_def split: option.splits)

lemma opt_size_mpu: "opt_size reserved_bytes (mpu s u) = reserved_bytes (mpu_at s u)"
  by (simp add: mpu_at_def empty_mpu_def opt_size_def split: option.splits)

lemma opt_size_part: "opt_size length (mp_parts mp pn) = length (part_at mp pn)"
  by (simp add: part_at_def opt_size_def split: option.splits)

lemma reserved_le: "data_store_inv s \<Longrightarrow> reserved_bytes (mpu_at s u) \<le> map_sum reserved_bytes (mpu s)"
  using opt_size_le_map_sum [of "mpu s" reserved_bytes u]
  by (simp add: data_store_inv_def opt_size_mpu)

lemma reserved_used: "data_store_inv s \<Longrightarrow> reserved_bytes (mpu_at s u) \<le> used_bytes s"
  using reserved_le [of s u] by (simp add: data_store_inv_def stored_bytes_def)

lemma part_le_reserved: "mpu_wf mp \<Longrightarrow> length (part_at mp pn) \<le> reserved_bytes mp"
  using opt_size_le_map_sum [of "mp_parts mp" length pn] by (simp add: mpu_wf_def opt_size_part)

definition grow_part :: "string \<Rightarrow> nat \<Rightarrow> bytes \<Rightarrow> MemoryDataStore \<Rightarrow> MemoryDataStore" where
  "grow_part u pn b s =
     (let d = length b - length (part_at (mpu_at s u) pn) in
      (set_part u pn b (reserved_bytes (mpu_at s u) + d) s)\<lparr>used_bytes := used_bytes s + d\<rparr>)"

lemma inv_grow_part:
  assumes "data_store_inv s" "length (part_at (mpu_at s u) pn) \<le> length b"
    "used_bytes s + (length b - length (part_at (mpu_at s u) pn)) \<le> capacity_bytes s"
  shows "data_store_inv (grow_part u pn b s)"
proof -
  note wf = mpu_at_wf [OF assms(1), of u]
  have "mpu_wf \<lparr>mp_parts = (mp_parts (mpu_at s u))(pn \<mapsto> b),
      reserved_bytes = reserved_bytes (mpu_at s u) + (length b - length (part_at (mpu_at s u) pn))\<rparr>"
    using wf assms(2) part_le_reserved [OF wf, of pn]
    by (simp add: mpu_wf_def map_sum_update opt_size_part)
  moreover have "map_sum reserved_bytes ((mpu s)(u \<mapsto> mp)) =
      map_sum reserved_bytes (mpu s) - reserved_bytes (mpu_at s u) + reserved_bytes mp" for mp
    using assms(1) by (simp add: map_sum_update opt_size_mpu data_store_inv_def)
  ultimately show ?thesis
    using assms reserved_le [OF assms(1), of u]
    by (auto simp: grow_part_def set_part_def data_store_inv_def stored_bytes_def Let_def)
qed

definition part_exceeds :: "MemoryDataStore \<Rightarrow> nat \<Rightarrow> nat \<Rightarrow> bool" where
  "part_exceeds s old end_off \<longleftrightarrow> capacity_bytes s < used_bytes s + (end_off - old)"

definition new_part :: "MemoryDataStore \<Rightarrow> string \<Rightarrow> nat \<Rightarrow> nat \<Rightarrow> bytes \<Rightarrow> bytes" where
  "new_part s u pn offset src =
     (let part = part_at (mpu_at s u) pn in
      write_at offset src (resize (max (length part) (offset + length src)) part))"

lemma length_new_part:
  "length (new_part s u pn offset src) =
     max (length (part_at (mpu_at s u) pn)) (offset + length src)"
  by (simp add: new_part_def Let_def)

lemma set_part_twice:
  "set_part u pn b r ((set_part u pn c q s)\<lparr>used_bytes := x\<rparr>) = (set_part u pn b r s)\<lparr>used_bytes := x\<rparr>"
  "set_part u pn b r (set_part u pn c q s) = set_part u pn b r s"
  by (simp_all add: set_part_def mpu_at_def Let_def)

lemma set_part_fields:
  "used_bytes (set_part u pn b r s) = used_bytes s"
  "capacity_bytes (set_part u pn b r s) = capacity_bytes s"
  "out_of_bounds (set_part u pn b r s) = out_of_bounds s"
  by (simp_all add: set_part_def Let_def)

lemma set_part_ident:
  "(set_part u pn b r s)\<lparr>used_bytes := used_bytes s\<rparr> = set_part u pn b r s"
  "\<not> out_of_bounds s \<Longrightarrow> (set_part u pn b r s)\<lparr>out_of_bounds := False\<rparr> = set_part u pn b r s"
  by (simp_all add: set_part_def Let_def)

lemma WritePart_eval:
  assumes "data_store_inv s" "fits s (offset + length src)"
  shows "MemoryDataStore_WritePart u pn offset src s =
    (let part = part_at (mpu_at s u) pn in
     if part_exceeds s (length part) (offset + length src)
     then (Failure capacity_error, grow_part u pn part s)
     else (Success True, grow_part u pn (new_part s u pn offset src) s))"
proof -
  let ?part = "part_at (mpu_at s u) pn" and ?e = "offset + length src"
  have exact: "u64_add offset (length src) = ?e"
    using assms(2) by (simp add: fits_def u64_add_exact)
  have safe: "\<not> out_of_bounds s" and le: "used_bytes s \<le> capacity_bytes s"
    using assms(1) by (simp_all add: data_store_inv_def)
  have add: "used_bytes s + (?e - length ?part) < u64_mod"
    "reserved_bytes (mpu_at s u) + (?e - length ?part) < u64_mod"
    using assms(2) le reserved_used [OF assms(1), of u] by (auto simp: fits_def)
  show ?thesis
  proof (cases "length ?part < ?e")
    case True
    then have "max (length ?part) ?e = ?e" by simp
    with True safe add show ?thesis
      by (auto simp: MemoryDataStore_WritePart_def Let_def exact ReserveBytes_def u64_add_exact
          part_exceeds_def grow_part_def new_part_def copied_def copy_fits_def
          set_part_twice set_part_fields)
  next
    case False
    then have "max (length ?part) ?e = length ?part" by simp
    with False safe le show ?thesis
      by (auto simp: MemoryDataStore_WritePart_def Let_def exact part_exceeds_def grow_part_def
          new_part_def copied_def copy_fits_def set_part_twice set_part_fields set_part_ident)
  qed
qed

lemma WritePart_inv:
  assumes "data_store_inv s" "fits s (offset + length src)"
  shows "data_store_inv (snd (MemoryDataStore_WritePart u pn offset src s))"
  using assms used_le [OF assms(1)]
  by (auto simp: WritePart_eval Let_def part_exceeds_def length_new_part intro!: inv_grow_part)

text \<open>Dropping the staging of an upload releases exactly what it holds.\<close>

definition drop_staging :: "string \<Rightarrow> MemoryDataStore \<Rightarrow> MemoryDataStore" where
  "drop_staging u s =
     s\<lparr>mpu := (mpu s)(u := None), used_bytes := used_bytes s - reserved_bytes (mpu_at s u)\<rparr>"

lemma inv_drop_staging: "data_store_inv s \<Longrightarrow> data_store_inv (drop_staging u s)"
  using reserved_le [of s u]
  by (auto simp: drop_staging_def data_store_inv_def stored_bytes_def map_sum_delete opt_size_mpu)

lemma ReleaseBytes_staging:
  assumes "data_store_inv s" "mpu s u = Some mp"
  shows "ReleaseBytes (reserved_bytes mp) s = s\<lparr>used_bytes := used_bytes s - reserved_bytes mp\<rparr>"
    and "ReleaseBytes (reserved_bytes mp) (s\<lparr>mpu := m\<rparr>) =
      s\<lparr>mpu := m, used_bytes := used_bytes s - reserved_bytes mp\<rparr>"
  using reserved_used [OF assms(1), of u] assms(2) used_le [OF assms(1)] assms(1)
  by (simp_all add: ReleaseBytes_def u64_sub_exact mpu_at_def data_store_inv_def)

lemma AbortMultipartData_eval:
  assumes "data_store_inv s"
  shows "MemoryDataStore_AbortMultipartData u s =
    (Success (mpu s u \<noteq> None), if mpu s u = None then s else drop_staging u s)"
  using assms
  by (cases "mpu s u")
    (auto simp: MemoryDataStore_AbortMultipartData_def ReleaseBytes_staging drop_staging_def mpu_at_def)

lemma AbortMultipartData_inv:
  "data_store_inv s \<Longrightarrow> data_store_inv (snd (MemoryDataStore_AbortMultipartData u s))"
  by (simp add: AbortMultipartData_eval inv_drop_staging)

definition parts_size :: "MpuParts \<Rightarrow> nat list \<Rightarrow> nat" where
  "parts_size mp pns = sum_list (map (\<lambda>pn. length (part_at mp pn)) pns)"

lemma length_assembled [simp]: "length (assembled mp pns) = parts_size mp pns"
  by (simp add: assembled_def parts_size_def length_concat comp_def)

lemma assemble_total_exact:
  "acc + parts_size mp pns < u64_mod \<Longrightarrow>
   assemble_total (mp_parts mp) pns acc =
     (if set pns \<subseteq> dom (mp_parts mp) then Some (acc + parts_size mp pns) else None)"
proof (induction pns arbitrary: acc)
  case (Cons pn pns)
  then show ?case
    by (cases "mp_parts mp pn") (auto simp: parts_size_def part_at_def u64_add_exact add.assoc)
qed (simp add: parts_size_def)

lemma body_at_drop_staging [simp]: "body_at (drop_staging u s) oid = body_at s oid"
  by (simp add: body_at_def drop_staging_def)

lemma fits_drop_staging [simp]: "fits (drop_staging u s) n = fits s n"
  by (simp add: fits_def drop_staging_def)

lemma AssembleObject_eval:
  assumes "data_store_inv s" "fits s (parts_size (mpu_at s u) pns)"
  shows "MemoryDataStore_AssembleObject u bucket key pns s =
    (let oid = MakeKey bucket key; mp = mpu_at s u; t = drop_staging u s in
     if mpu s u = None
     then (Failure (MakeError kNotFound ''upload_id not found in data store'' False), s)
     else if \<not> set pns \<subseteq> dom (mp_parts mp)
     then (Failure (MakeError kBadRequest ''part_number missing in upload data'' False), t)
     else if would_exceed t (length (body_at s oid)) (parts_size mp pns)
     then (Failure capacity_error, refused oid t)
     else (Success (parts_size mp pns), replace_body oid (assembled mp pns) t))"
proof (cases "mpu s u")
  case (Some mp)
  then have mp: "mpu_at s u = mp" by (simp add: mpu_at_def)
  have "0 + parts_size mp pns < u64_mod" using assms(2) mp by (simp add: fits_def)
  note total = assemble_total_exact [OF this, simplified]
  have t: "s\<lparr>mpu := (mpu s)(u := None), used_bytes := used_bytes s - reserved_bytes mp\<rparr> = drop_staging u s"
    using mp by (simp add: drop_staging_def)
  show ?thesis
    using assms Some settle_after_create [of "drop_staging u s" "parts_size mp pns" "MakeKey bucket key"]
    by (simp add: MemoryDataStore_AssembleObject_def Let_def mp total ReleaseBytes_staging [OF assms(1) Some] t
        inv_drop_staging replace_body_def set_body_twice
        capacity_failure_refused [of _ "drop_staging u s", simplified])
qed (simp add: MemoryDataStore_AssembleObject_def)

lemma AssembleObject_inv:
  assumes "data_store_inv s" "fits s (parts_size (mpu_at s u) pns)"
  shows "data_store_inv (snd (MemoryDataStore_AssembleObject u bucket key pns s))"
  using assms by (simp add: AssembleObject_eval Let_def inv_refused inv_drop_staging inv_replace)

lemmas data_store_invs =
  Reserve_inv WriteRange_inv DeleteObject_inv WritePart_inv AbortMultipartData_inv AssembleObject_inv

section \<open>The memory store implements the contract\<close>

definition staged_parts :: "MemoryDataStore \<Rightarrow> string \<Rightarrow> nat \<Rightarrow> bytes option" where
  "staged_parts s u = mp_parts (mpu_at s u)"

lemma body_at_content: "body_at s oid = content (bodies s oid)"
  by (simp add: body_at_def content_def)

lemma part_at_content: "part_at (mpu_at s u) pn = content (staged_parts s u pn)"
  by (simp add: part_at_def staged_parts_def content_def)

lemma refused_content: "content \<circ> bodies (refused oid s) = content \<circ> bodies s"
  by (auto simp: refused_def erase_body_def body_at_content)

lemma parts_size_staged:
  "parts_size (mpu_at s u) pns = (\<Sum>pn\<leftarrow>pns. length (content (staged_parts s u pn)))"
  by (simp add: parts_size_def part_at_content)

lemma assembled_staged:
  "assembled (mpu_at s u) pns = concat (map (\<lambda>pn. content (staged_parts s u pn)) pns)"
  by (simp add: assembled_def part_at_content cong: map_cong)

lemma staged_simps [simp]:
  "staged_parts (refused oid s) = staged_parts s"
  "staged_parts (replace_body oid b s) = staged_parts s"
  "staged_parts (drop_staging u s) = (staged_parts s)(u := Map.empty)"
  "bodies (drop_staging u s) = bodies s"
  "bodies (replace_body oid b s) = (bodies s)(oid \<mapsto> b)"
  "bodies (grow_part u pn p s) = bodies s"
  "staged_parts (grow_part u pn p s) = (staged_parts s)(u := (staged_parts s u)(pn \<mapsto> p))"
  by (auto simp: staged_parts_def refused_def erase_body_def replace_body_def drop_staging_def
      grow_part_def set_part_def mpu_at_def empty_mpu_def fun_eq_iff Let_def)

lemma Read_eval:
  "bodies s (MakeKey b k) = Some body \<Longrightarrow> off \<le> length body \<Longrightarrow>
   MemoryDataStore_Read b k off dst s =
     Inr (min (length body - off) (length dst),
          read_at off (length dst) body @ drop (length body - off) dst)"
  by (auto simp: MemoryDataStore_Read_def Let_def write_at_def read_at_def min_def)

lemma memory_data_store_ops [simp]:
  "ds_Reserve memory_data_store = MemoryDataStore_Reserve"
  "ds_WriteRange memory_data_store = MemoryDataStore_WriteRange"
  "ds_Read memory_data_store = MemoryDataStore_Read"
  "ds_DeleteObject memory_data_store = MemoryDataStore_DeleteObject"
  "ds_WritePart memory_data_store = MemoryDataStore_WritePart"
  "ds_AbortMultipartData memory_data_store = MemoryDataStore_AbortMultipartData"
  "ds_AssembleObject memory_data_store = MemoryDataStore_AssembleObject"
  by (simp_all add: memory_data_store_def)

lemma capacity_const [simp]:
  "capacity_bytes (set_body oid b s) = capacity_bytes s"
  "capacity_bytes (erase_body oid s) = capacity_bytes s"
  "capacity_bytes (snd (ReserveBytes n s)) = capacity_bytes s"
  "capacity_bytes (ReleaseBytes n s) = capacity_bytes s"
  "capacity_bytes (snd (settle old target s)) = capacity_bytes s"
  by (simp_all add: set_body_def erase_body_def ReserveBytes_def ReleaseBytes_def settle_def Let_def)

lemma capacity_after:
  "settle old target s = (ok, s') \<Longrightarrow> capacity_bytes s' = capacity_bytes s"
  "ReserveBytes n s = (ok, s') \<Longrightarrow> capacity_bytes s' = capacity_bytes s"
  using capacity_const by (metis snd_conv)+

lemma capacity_ops:
  "capacity_bytes (snd (MemoryDataStore_Reserve b k n s)) = capacity_bytes s"
  "capacity_bytes (snd (MemoryDataStore_WriteRange b k off src t s)) = capacity_bytes s"
  "capacity_bytes (snd (MemoryDataStore_WritePart u pn off src s)) = capacity_bytes s"
  "capacity_bytes (snd (MemoryDataStore_AbortMultipartData u s)) = capacity_bytes s"
  "capacity_bytes (snd (MemoryDataStore_AssembleObject u b k pns s)) = capacity_bytes s"
  by (auto simp: MemoryDataStore_Reserve_def MemoryDataStore_WriteRange_def
      MemoryDataStore_WritePart_def MemoryDataStore_AbortMultipartData_def
      MemoryDataStore_AssembleObject_def Let_def capacity_failure_def set_part_fields
      split: prod.splits bool.splits option.splits dest!: capacity_after)

lemma capacity_after_op:
  "MemoryDataStore_Reserve b k n s = (r, s') \<Longrightarrow> capacity_bytes s' = capacity_bytes s"
  "MemoryDataStore_WriteRange b k off src t s = (r, s') \<Longrightarrow> capacity_bytes s' = capacity_bytes s"
  "MemoryDataStore_WritePart u pn off src s = (r, s') \<Longrightarrow> capacity_bytes s' = capacity_bytes s"
  "MemoryDataStore_AssembleObject u b k pns s = (r', s') \<Longrightarrow> capacity_bytes s' = capacity_bytes s"
  using capacity_ops by (metis snd_conv)+

lemma fits_const:
  "fits (snd (MemoryDataStore_Reserve b k n s)) = fits s"
  "fits (snd (MemoryDataStore_WriteRange b k off src t s)) = fits s"
  "fits (snd (MemoryDataStore_WritePart u pn off src s)) = fits s"
  by (simp_all add: fits_def fun_eq_iff capacity_ops)

lemma mpu_at_dom: "mpu s u = None \<Longrightarrow> staged_parts s u = Map.empty"
  by (simp add: staged_parts_def mpu_at_def empty_mpu_def)

lemmas data_store_evals = Reserve_eval WriteRange_eval WritePart_eval AbortMultipartData_eval
  AssembleObject_eval [unfolded parts_size_staged]

interpretation memory_data: data_store memory_data_store data_store_inv fits bodies staged_parts
  by unfold_locales
    ((simp add: data_store_invs parts_size_staged fits_const; fail) | (simp add: fits_def; fail)
     | (auto simp: Read_eval data_store_evals Let_def refused_content body_at_content part_at_content
         new_part_def mpu_at_dom assembled_staged parts_size_staged would_exceed_def staged_parts_def [symmetric]
         split: if_splits; fail)
     | (simp add: MemoryDataStore_Read_def))+

section \<open>The bounds of a write\<close>

lemma wrapped_end_off:
  assumes "offset < u64_mod" "n < u64_mod"
  shows "u64_add offset n = (if u64_mod \<le> offset + n then offset + n - u64_mod else offset + n)"
  using assms by (simp add: u64_add_def mod_if)

lemma settle_flag: "settle old target s = (ok, s') \<Longrightarrow> out_of_bounds s' = out_of_bounds s"
  by (auto simp: settle_def ReserveBytes_def ReleaseBytes_def Let_def split: if_splits)

lemma range_flag:
  fixes offset src total_size
  defines "target \<equiv> max (case total_size of None \<Rightarrow> u64_add offset (length src) | Some t \<Rightarrow> t) (u64_add offset (length src))"
  shows "out_of_bounds (snd (MemoryDataStore_WriteRange b k offset src total_size s)) \<longleftrightarrow>
    out_of_bounds s \<or> fst (MemoryDataStore_WriteRange b k offset src total_size s) = Success True \<and> src \<noteq> [] \<and> target < offset + length src"
  unfolding MemoryDataStore_WriteRange_def Let_def target_def [symmetric]
  by (auto simp: copy_fits_def capacity_failure_def set_body_def erase_body_def dest!: settle_flag split: prod.splits bool.splits)

lemma part_flag:
  fixes offset src u pn s
  defines "target \<equiv> max (length (part_at (mpu_at s u) pn)) (u64_add offset (length src))"
  shows "out_of_bounds (snd (MemoryDataStore_WritePart u pn offset src s)) \<longleftrightarrow>
    out_of_bounds s \<or> fst (MemoryDataStore_WritePart u pn offset src s) = Success True \<and> src \<noteq> [] \<and> target < offset + length src"
  unfolding MemoryDataStore_WritePart_def Let_def target_def ReserveBytes_def set_part_def
  by (auto simp: copy_fits_def max_def not_less)

text \<open>C18: the copy of a ranged write, and of a part, leaves the destination vector exactly when the end of the range does not fit
  into 64 bits: the sum wraps, the vector is sized for the wrapped end and the bytes go to the unwrapped offset. A refused write
  copies nothing. So the bounds of the two operations are offset + length < 2^64, and nothing weaker.\<close>

theorem write_copy_bounds:
  assumes "offset < u64_mod" "length src < u64_mod" "\<forall>t. total_size = Some t \<longrightarrow> t < u64_mod"
    "length (part_at (mpu_at s u) pn) < u64_mod" "\<not> out_of_bounds s"
  shows "(out_of_bounds (snd (MemoryDataStore_WriteRange b k offset src total_size s)) \<longleftrightarrow>
      fst (MemoryDataStore_WriteRange b k offset src total_size s) = Success True \<and> src \<noteq> [] \<and> u64_mod \<le> offset + length src) \<and>
    (out_of_bounds (snd (MemoryDataStore_WritePart u pn offset src s)) \<longleftrightarrow>
      fst (MemoryDataStore_WritePart u pn offset src s) = Success True \<and> src \<noteq> [] \<and> u64_mod \<le> offset + length src)"
proof -
  have "max (case total_size of None \<Rightarrow> u64_add offset (length src) | Some t \<Rightarrow> t) (u64_add offset (length src)) < offset + length src
      \<longleftrightarrow> u64_mod \<le> offset + length src" if "src \<noteq> []"
    using that assms(1-3) wrapped_end_off [OF assms(1,2)] by (cases total_size) auto
  moreover have "max (length (part_at (mpu_at s u) pn)) (u64_add offset (length src)) < offset + length src
      \<longleftrightarrow> u64_mod \<le> offset + length src" if "src \<noteq> []"
    using that assms(1,2,4) wrapped_end_off [OF assms(1,2)] by auto
  ultimately show ?thesis using assms(5) by (auto simp: range_flag part_flag)
qed

theorem write_copy_bounds_witness:
  "let s = MemoryDataStore_init 10 in
   out_of_bounds (snd (MemoryDataStore_WriteRange ''b'' ''k'' (u64_mod - 1) [1, 2] (Some 2) s)) \<and>
   out_of_bounds (snd (MemoryDataStore_WritePart ''u'' 1 (u64_mod - 1) [1, 2] s)) \<and>
   \<not> out_of_bounds (snd (MemoryDataStore_WriteRange ''b'' ''k'' 3 [1, 2] (Some 5) s)) \<and>
   \<not> out_of_bounds (snd (MemoryDataStore_WritePart ''u'' 1 3 [1, 2] s))"
proof -
  let ?s = "MemoryDataStore_init 10"
  note defs = MemoryDataStore_WriteRange_def MemoryDataStore_WritePart_def MemoryDataStore_init_def settle_def ReserveBytes_def set_body_def
    set_part_def body_at_def part_at_def mpu_at_def empty_mpu_def u64_add_def u64_mod_def Let_def
  have "fst (MemoryDataStore_WriteRange ''b'' ''k'' (u64_mod - 1) [1, 2] (Some 2) ?s) = Success True"
    "fst (MemoryDataStore_WritePart ''u'' 1 (u64_mod - 1) [1, 2] ?s) = Success True"
    by (simp_all add: defs)
  moreover have "length (part_at (mpu_at ?s ''u'') 1) < u64_mod" "\<not> out_of_bounds ?s" by (simp_all add: defs)
  ultimately show ?thesis
    using write_copy_bounds [of "u64_mod - 1" "[1, 2]" "Some 2" ?s "''u''" 1 "''b''" "''k''"]
      write_copy_bounds [of 3 "[1, 2]" "Some 5" ?s "''u''" 1 "''b''" "''k''"]
    by (simp add: Let_def u64_mod_def)
qed

end
