(* ===== verification/Memory_Index_Store.thy ===== *)
theory Memory_Index_Store
  imports Backend_Interfaces
begin

text \<open>
  \<^verbatim>\<open>gateway/src/backend/memory_index_store.cpp\<close>: object metadata by
  \<^verbatim>\<open>bucket/key\<close> and the table of open multipart uploads, whose identifiers carry a
  sequence number.
\<close>

record MpuRecord =
  rec_bucket :: string
  rec_key :: string
  rec_total_size_hint :: "nat option"

record MemoryIndexStore =
  ix_entries :: "string \<rightharpoonup> ObjectMetadata"
  ix_mpu :: "string \<rightharpoonup> MpuRecord"
  mpu_seq :: nat

definition MemoryIndexStore_init :: MemoryIndexStore where
  "MemoryIndexStore_init = \<lparr>ix_entries = Map.empty, ix_mpu = Map.empty, mpu_seq = 0\<rparr>"

definition MemoryIndexStore_Head :: "string \<Rightarrow> string \<Rightarrow> MemoryIndexStore \<Rightarrow> ObjectMetadata result" where
  "MemoryIndexStore_Head bucket key s =
     (case ix_entries s (MakeKey bucket key) of
        None \<Rightarrow> Failure (MakeError kNotFound ''object not found'' False)
      | Some meta \<Rightarrow> Success meta)"

definition MemoryIndexStore_PutObjectIndex ::
  "string \<Rightarrow> string \<Rightarrow> nat \<Rightarrow> string \<Rightarrow> string \<Rightarrow> MemoryIndexStore \<Rightarrow> bool result \<times> MemoryIndexStore" where
  "MemoryIndexStore_PutObjectIndex bucket key len e v s =
     (Success True,
      s\<lparr>ix_entries := (ix_entries s)
          (MakeKey bucket key \<mapsto> \<lparr>content_length = len, etag = e, version = v\<rparr>)\<rparr>)"

definition MemoryIndexStore_DeleteObjectIndex ::
  "string \<Rightarrow> string \<Rightarrow> MemoryIndexStore \<Rightarrow> bool result \<times> MemoryIndexStore" where
  "MemoryIndexStore_DeleteObjectIndex bucket key s =
     (let oid = MakeKey bucket key in
      (Success (ix_entries s oid \<noteq> None), s\<lparr>ix_entries := (ix_entries s)(oid := None)\<rparr>))"

text \<open>\<^verbatim>\<open>emplace\<close> keeps an existing entry.\<close>

definition MemoryIndexStore_StartMultipart ::
  "nat \<Rightarrow> string \<Rightarrow> string \<Rightarrow> nat option \<Rightarrow> MemoryIndexStore \<Rightarrow> string result \<times> MemoryIndexStore" where
  "MemoryIndexStore_StartMultipart now bucket key total_size_hint s =
     (let seq = u64_add (mpu_seq s) 1;
          upload_id = upload_id_of seq now;
          mrec = \<lparr>rec_bucket = bucket, rec_key = key, rec_total_size_hint = total_size_hint\<rparr> in
      (Success upload_id,
       s\<lparr>mpu_seq := seq,
         ix_mpu := (if ix_mpu s upload_id = None then (ix_mpu s)(upload_id \<mapsto> mrec) else ix_mpu s)\<rparr>))"

definition MemoryIndexStore_AbortMultipart ::
  "string \<Rightarrow> MemoryIndexStore \<Rightarrow> bool result \<times> MemoryIndexStore" where
  "MemoryIndexStore_AbortMultipart upload_id s =
     (Success (ix_mpu s upload_id \<noteq> None), s\<lparr>ix_mpu := (ix_mpu s)(upload_id := None)\<rparr>)"

definition MemoryIndexStore_CommitMultipart ::
  "string \<Rightarrow> string \<Rightarrow> string \<Rightarrow> nat \<Rightarrow> string \<Rightarrow> string \<Rightarrow> MemoryIndexStore
   \<Rightarrow> ObjectMetadata result \<times> MemoryIndexStore" where
  "MemoryIndexStore_CommitMultipart upload_id bucket key len e v s =
     (if ix_mpu s upload_id = None
      then (Failure (MakeError kNotFound ''multipart upload_id not found in index'' False), s)
      else
        let meta = \<lparr>content_length = len, etag = e, version = v\<rparr> in
        (Success meta,
         s\<lparr>ix_mpu := (ix_mpu s)(upload_id := None),
           ix_entries := (ix_entries s)(MakeKey bucket key \<mapsto> meta)\<rparr>))"

definition memory_index_store :: "MemoryIndexStore IIndexStore" where
  "memory_index_store =
     \<lparr>ix_Head = MemoryIndexStore_Head, ix_PutObjectIndex = MemoryIndexStore_PutObjectIndex,
      ix_DeleteObjectIndex = MemoryIndexStore_DeleteObjectIndex,
      ix_StartMultipart = MemoryIndexStore_StartMultipart,
      ix_AbortMultipart = MemoryIndexStore_AbortMultipart,
      ix_CommitMultipart = MemoryIndexStore_CommitMultipart\<rparr>"

section \<open>Fresh identifiers\<close>

text \<open>Every open upload was issued under a sequence number the counter has passed.\<close>

definition index_store_inv :: "MemoryIndexStore \<Rightarrow> bool" where
  "index_store_inv s \<longleftrightarrow> mpu_seq s < u64_mod \<and>
     (\<forall>u. ix_mpu s u \<noteq> None \<longrightarrow> (\<exists>n t. u = upload_id_of n t \<and> n \<le> mpu_seq s))"

definition seq_left :: "MemoryIndexStore \<Rightarrow> bool" where
  "seq_left s \<longleftrightarrow> mpu_seq s + 1 < u64_mod"

lemma StartMultipart_fresh:
  assumes "index_store_inv s" "seq_left s"
  shows "ix_mpu s (upload_id_of (u64_add (mpu_seq s) 1) now) = None"
  using assms by (auto simp: index_store_inv_def seq_left_def u64_add_exact)

lemma StartMultipart_inv:
  "index_store_inv s \<Longrightarrow> seq_left s \<Longrightarrow>
   index_store_inv (snd (MemoryIndexStore_StartMultipart now b k hint s))"
  by (fastforce simp: MemoryIndexStore_StartMultipart_def index_store_inv_def seq_left_def Let_def u64_add_exact)

lemma memory_index_store_ops [simp]:
  "ix_Head memory_index_store = MemoryIndexStore_Head"
  "ix_PutObjectIndex memory_index_store = MemoryIndexStore_PutObjectIndex"
  "ix_DeleteObjectIndex memory_index_store = MemoryIndexStore_DeleteObjectIndex"
  "ix_StartMultipart memory_index_store = MemoryIndexStore_StartMultipart"
  "ix_AbortMultipart memory_index_store = MemoryIndexStore_AbortMultipart"
  "ix_CommitMultipart memory_index_store = MemoryIndexStore_CommitMultipart"
  by (simp_all add: memory_index_store_def)

interpretation memory_index:
  index_store memory_index_store index_store_inv seq_left ix_entries "\<lambda>s. dom (ix_mpu s)"
proof (unfold_locales, goal_cases)
  case (3 s now b k hint)
  then show ?case
    using StartMultipart_inv [of s now b k hint] StartMultipart_fresh [of s now]
    by (auto simp: MemoryIndexStore_StartMultipart_def Let_def)
qed (auto simp: MemoryIndexStore_Head_def MemoryIndexStore_PutObjectIndex_def
      MemoryIndexStore_AbortMultipart_def MemoryIndexStore_CommitMultipart_def Let_def
      index_store_inv_def)

end
