(* ===== verification/Composite_Backend.thy ===== *)
theory Composite_Backend
  imports Memory_Data_Store Memory_Index_Store "HOL-Library.Multiset"
begin

text \<open>
  \<^verbatim>\<open>gateway/src/backend/composite_backend.cpp\<close>: an \<^verbatim>\<open>IBackend\<close> made of an index store and
  a data store, both reached through their interfaces. Its correctness is proved once from
  the two contracts and holds for every pair of stores that implement them; the
  memory stores are one such pair.
\<close>

section \<open>Operations\<close>

record ('t, 's) CompositeBackend =
  cb_index :: 't
  cb_data :: 's
  mpu_targets :: "string \<rightharpoonup> string \<times> string"

definition quoted :: "string \<Rightarrow> string" where
  "quoted s = CHR 0x22 # s @ [CHR 0x22]"

definition MakeMeta :: "nat \<Rightarrow> nat \<Rightarrow> ObjectMetadata" where
  "MakeMeta ticks sz =
     \<lparr>content_length = sz, etag = quoted (hex sz @ CHR ''-'' # hex ticks), version = dec ticks\<rparr>"

definition MakePartEtag :: "nat \<Rightarrow> nat \<Rightarrow> nat \<Rightarrow> string" where
  "MakePartEtag ticks part_number sz =
     quoted (hex part_number @ CHR ''-'' # hex sz @ CHR ''-'' # hex ticks)"

definition CompositeBackend_Head ::
  "'t IIndexStore \<Rightarrow> string \<Rightarrow> string \<Rightarrow> ('t, 's) CompositeBackend \<Rightarrow> ObjectMetadata result" where
  "CompositeBackend_Head I bucket key c = ix_Head I bucket key (cb_index c)"

definition CompositeBackend_Read ::
  "'s IDataStore \<Rightarrow> string \<Rightarrow> string \<Rightarrow> nat \<Rightarrow> bytes \<Rightarrow> ('t, 's) CompositeBackend
   \<Rightarrow> (nat \<times> bytes) result" where
  "CompositeBackend_Read D bucket key offset dst c = ds_Read D bucket key offset dst (cb_data c)"

text \<open>The tail shared by \<^verbatim>\<open>WriteRange\<close>, \<^verbatim>\<open>Reserve\<close> and the \<^verbatim>\<open>IOBuf\<close> version of \<^verbatim>\<open>Write\<close>:
  build the metadata and register it.\<close>

definition register_index ::
  "'t IIndexStore \<Rightarrow> nat \<Rightarrow> string \<Rightarrow> string \<Rightarrow> nat \<Rightarrow> ('t, 's) CompositeBackend
   \<Rightarrow> ObjectMetadata result \<times> ('t, 's) CompositeBackend" where
  "register_index I now bucket key final_size c =
     (let meta = MakeMeta now final_size in
      case ix_PutObjectIndex I bucket key (content_length meta) (etag meta) (version meta) (cb_index c) of
        (Inl e, i) \<Rightarrow> (Failure e, c\<lparr>cb_index := i\<rparr>)
      | (Inr _, i) \<Rightarrow> (Success meta, c\<lparr>cb_index := i\<rparr>))"

definition CompositeBackend_WriteRange ::
  "'t IIndexStore \<Rightarrow> 's IDataStore \<Rightarrow> nat \<Rightarrow> string \<Rightarrow> string \<Rightarrow> nat \<Rightarrow> bytes \<Rightarrow> nat option
   \<Rightarrow> ('t, 's) CompositeBackend \<Rightarrow> ObjectMetadata result \<times> ('t, 's) CompositeBackend" where
  "CompositeBackend_WriteRange I D now bucket key offset src total_size c =
     (case ds_WriteRange D bucket key offset src total_size (cb_data c) of
        (Inl e, d) \<Rightarrow> (Failure e, c\<lparr>cb_data := d\<rparr>)
      | (Inr _, d) \<Rightarrow>
          let final_size = (case total_size of None \<Rightarrow> u64_add offset (length src) | Some t \<Rightarrow> t) in
          register_index I now bucket key final_size (c\<lparr>cb_data := d\<rparr>))"

definition CompositeBackend_Write ::
  "'t IIndexStore \<Rightarrow> 's IDataStore \<Rightarrow> nat \<Rightarrow> string \<Rightarrow> string \<Rightarrow> bytes
   \<Rightarrow> ('t, 's) CompositeBackend \<Rightarrow> ObjectMetadata result \<times> ('t, 's) CompositeBackend" where
  "CompositeBackend_Write I D now bucket key src c =
     CompositeBackend_WriteRange I D now bucket key 0 src (Some (length src)) c"

definition CompositeBackend_Reserve ::
  "'t IIndexStore \<Rightarrow> 's IDataStore \<Rightarrow> nat \<Rightarrow> string \<Rightarrow> string \<Rightarrow> nat
   \<Rightarrow> ('t, 's) CompositeBackend \<Rightarrow> ObjectMetadata result \<times> ('t, 's) CompositeBackend" where
  "CompositeBackend_Reserve I D now bucket key total_size c =
     (case ds_Reserve D bucket key total_size (cb_data c) of
        (Inl e, d) \<Rightarrow> (Failure e, c\<lparr>cb_data := d\<rparr>)
      | (Inr _, d) \<Rightarrow> register_index I now bucket key total_size (c\<lparr>cb_data := d\<rparr>))"

definition CompositeBackend_StartMultipart ::
  "'t IIndexStore \<Rightarrow> nat \<Rightarrow> string \<Rightarrow> string \<Rightarrow> nat option
   \<Rightarrow> ('t, 's) CompositeBackend \<Rightarrow> string result \<times> ('t, 's) CompositeBackend" where
  "CompositeBackend_StartMultipart I now bucket key total_size_hint c =
     (case ix_StartMultipart I now bucket key total_size_hint (cb_index c) of
        (Inl e, i) \<Rightarrow> (Failure e, c\<lparr>cb_index := i\<rparr>)
      | (Inr u, i) \<Rightarrow>
          (Success u,
           c\<lparr>cb_index := i,
             mpu_targets := (if mpu_targets c u = None then (mpu_targets c)(u \<mapsto> (bucket, key))
                             else mpu_targets c)\<rparr>))"

definition CompositeBackend_WritePart ::
  "'s IDataStore \<Rightarrow> nat \<Rightarrow> string \<Rightarrow> nat \<Rightarrow> nat \<Rightarrow> bytes
   \<Rightarrow> ('t, 's) CompositeBackend \<Rightarrow> string result \<times> ('t, 's) CompositeBackend" where
  "CompositeBackend_WritePart D now upload_id part_number offset src c =
     (case ds_WritePart D upload_id part_number offset src (cb_data c) of
        (Inl e, d) \<Rightarrow> (Failure e, c\<lparr>cb_data := d\<rparr>)
      | (Inr _, d) \<Rightarrow> (Success (MakePartEtag now part_number (length src)), c\<lparr>cb_data := d\<rparr>))"

definition CompositeBackend_CompleteMultipart ::
  "'t IIndexStore \<Rightarrow> 's IDataStore \<Rightarrow> nat \<Rightarrow> string \<Rightarrow> PartRecord list
   \<Rightarrow> ('t, 's) CompositeBackend \<Rightarrow> ObjectMetadata result \<times> ('t, 's) CompositeBackend" where
  "CompositeBackend_CompleteMultipart I D now upload_id ps c =
     (case mpu_targets c upload_id of
        None \<Rightarrow> (Failure (MakeError kNotFound ''upload_id not found in composite mapping'' False), c)
      | Some (bucket, key) \<Rightarrow>
          let ordered = sort (map pr_part_number ps) in
          case ds_AssembleObject D upload_id bucket key ordered (cb_data c) of
            (Inl e, d) \<Rightarrow> (Failure e, c\<lparr>cb_data := d\<rparr>)
          | (Inr sz, d) \<Rightarrow>
              let meta = MakeMeta now sz in
              case ix_CommitMultipart I upload_id bucket key (content_length meta) (etag meta)
                     (version meta) (cb_index c) of
                (Inl e, i) \<Rightarrow> (Failure e, c\<lparr>cb_data := d, cb_index := i\<rparr>)
              | (Inr _, i) \<Rightarrow>
                  (Success meta,
                   c\<lparr>cb_data := d, cb_index := i, mpu_targets := (mpu_targets c)(upload_id := None)\<rparr>))"

definition CompositeBackend_AbortMultipart ::
  "'t IIndexStore \<Rightarrow> 's IDataStore \<Rightarrow> string
   \<Rightarrow> ('t, 's) CompositeBackend \<Rightarrow> bool result \<times> ('t, 's) CompositeBackend" where
  "CompositeBackend_AbortMultipart I D upload_id c =
     (Success True,
      c\<lparr>cb_data := snd (ds_AbortMultipartData D upload_id (cb_data c)),
        cb_index := snd (ix_AbortMultipart I upload_id (cb_index c)),
        mpu_targets := (mpu_targets c)(upload_id := None)\<rparr>)"

text \<open>The loops over the blocks of an \<^verbatim>\<open>IOBuf\<close>.\<close>

fun write_blocks ::
  "'s IDataStore \<Rightarrow> string \<Rightarrow> string \<Rightarrow> nat \<Rightarrow> bytes list \<Rightarrow> nat \<Rightarrow> 's \<Rightarrow> bool result \<times> 's" where
  "write_blocks D bucket key total_size [] offset d = (Success True, d)"
| "write_blocks D bucket key total_size (block # blocks) offset d =
     (case ds_WriteRange D bucket key offset block (Some total_size) d of
        (Inl e, d) \<Rightarrow> (Failure e, d)
      | (Inr _, d) \<Rightarrow>
          write_blocks D bucket key total_size blocks (u64_add offset (length block)) d)"

definition CompositeBackend_WriteIOBuf ::
  "'t IIndexStore \<Rightarrow> 's IDataStore \<Rightarrow> nat \<Rightarrow> string \<Rightarrow> string \<Rightarrow> bytes list
   \<Rightarrow> ('t, 's) CompositeBackend \<Rightarrow> ObjectMetadata result \<times> ('t, 's) CompositeBackend" where
  "CompositeBackend_WriteIOBuf I D now bucket key src c =
     (let total_size = length (concat src) in
      case ds_Reserve D bucket key total_size (cb_data c) of
        (Inl e, d) \<Rightarrow> (Failure e, c\<lparr>cb_data := d\<rparr>)
      | (Inr _, d) \<Rightarrow>
          (case write_blocks D bucket key total_size src 0 d of
             (Inl e, d) \<Rightarrow> (Failure e, c\<lparr>cb_data := d\<rparr>)
           | (Inr _, d) \<Rightarrow> register_index I now bucket key total_size (c\<lparr>cb_data := d\<rparr>)))"

fun write_part_blocks ::
  "'s IDataStore \<Rightarrow> string \<Rightarrow> nat \<Rightarrow> bytes list \<Rightarrow> nat \<Rightarrow> 's \<Rightarrow> bool result \<times> 's" where
  "write_part_blocks D upload_id part_number [] offset d = (Success True, d)"
| "write_part_blocks D upload_id part_number (block # blocks) offset d =
     (case ds_WritePart D upload_id part_number offset block d of
        (Inl e, d) \<Rightarrow> (Failure e, d)
      | (Inr _, d) \<Rightarrow>
          write_part_blocks D upload_id part_number blocks (u64_add offset (length block)) d)"

definition CompositeBackend_WritePartIOBuf ::
  "'s IDataStore \<Rightarrow> nat \<Rightarrow> string \<Rightarrow> nat \<Rightarrow> nat \<Rightarrow> bytes list
   \<Rightarrow> ('t, 's) CompositeBackend \<Rightarrow> string result \<times> ('t, 's) CompositeBackend" where
  "CompositeBackend_WritePartIOBuf D now upload_id part_number base_offset src c =
     (case write_part_blocks D upload_id part_number src base_offset (cb_data c) of
        (Inl e, d) \<Rightarrow> (Failure e, c\<lparr>cb_data := d\<rparr>)
      | (Inr _, d) \<Rightarrow>
          (Success (MakePartEtag now part_number (length (concat src))), c\<lparr>cb_data := d\<rparr>))"

definition composite_backend ::
  "'t IIndexStore \<Rightarrow> 's IDataStore \<Rightarrow> ('t, 's) CompositeBackend IBackend" where
  "composite_backend I D =
     \<lparr>be_Head = CompositeBackend_Head I, be_Read = CompositeBackend_Read D,
      be_Write = CompositeBackend_Write I D, be_WriteRange = CompositeBackend_WriteRange I D,
      be_Reserve = CompositeBackend_Reserve I D,
      be_StartMultipart = CompositeBackend_StartMultipart I,
      be_WritePart = CompositeBackend_WritePart D,
      be_CompleteMultipart = CompositeBackend_CompleteMultipart I D,
      be_AbortMultipart = CompositeBackend_AbortMultipart I D\<rparr>"

section \<open>Index and data agree\<close>

text \<open>The composite is consistent when the index announces for every object exactly the number of
  bytes the data store holds for it, and the targets recorded for open uploads are those the
  index store knows.\<close>

definition composite_inv ::
  "('s \<Rightarrow> bool) \<Rightarrow> ('s \<Rightarrow> string \<Rightarrow> bytes option) \<Rightarrow> ('t \<Rightarrow> bool) \<Rightarrow> ('t \<Rightarrow> string \<rightharpoonup> ObjectMetadata)
   \<Rightarrow> ('t \<Rightarrow> string set) \<Rightarrow> ('t, 's) CompositeBackend \<Rightarrow> bool" where
  "composite_inv dinv obj iinv entries uploads c \<longleftrightarrow>
     dinv (cb_data c) \<and> iinv (cb_index c) \<and>
     (\<forall>oid m. entries (cb_index c) oid = Some m \<longrightarrow>
        content_length m = length (content (obj (cb_data c) oid))) \<and>
     dom (mpu_targets c) = uploads (cb_index c)"

locale composite =
  data_store D dinv room obj staged + index_store I iinv can_start entries uploads
  for D :: "'s IDataStore" and dinv room obj staged
    and I :: "'t IIndexStore" and iinv can_start entries uploads
begin

abbreviation ok :: "('t, 's) CompositeBackend \<Rightarrow> bool" where
  "ok c \<equiv> composite_inv dinv obj iinv entries uploads c"

lemma register_ok:
  assumes "dinv d" "iinv (cb_index c)" "dom (mpu_targets c) = uploads (cb_index c)"
    and "\<forall>oid m. oid \<noteq> MakeKey b k \<longrightarrow> entries (cb_index c) oid = Some m \<longrightarrow>
        content_length m = length (content (obj d oid))"
    and "n = length (content (obj d (MakeKey b k)))"
  shows "\<exists>c'. register_index I now b k n (c\<lparr>cb_data := d\<rparr>) = (Inr (MakeMeta now n), c') \<and> ok c' \<and>
    cb_data c' = d \<and> mpu_targets c' = mpu_targets c \<and>
    entries (cb_index c') = (entries (cb_index c))(MakeKey b k \<mapsto> MakeMeta now n)"
proof -
  let ?m = "MakeMeta now n"
  obtain i where i: "ix_PutObjectIndex I b k (content_length ?m) (etag ?m) (version ?m) (cb_index c) = (Inr True, i)"
      "iinv i" "entries i = (entries (cb_index c))(MakeKey b k \<mapsto> ?m)"
      "uploads i = uploads (cb_index c)"
    using put_ok [OF assms(2), of b k "content_length ?m" "etag ?m" "version ?m"] by auto
  moreover have "content_length ?m = n" by (simp add: MakeMeta_def)
  ultimately show ?thesis
    using assms by (auto simp: register_index_def Let_def composite_inv_def)
qed

lemma ok_data_step:
  assumes "ok c" "dinv d" "content \<circ> obj d = content \<circ> obj (cb_data c)"
  shows "ok (c\<lparr>cb_data := d\<rparr>)"
proof -
  have "content (obj d oid) = content (obj (cb_data c) oid)" for oid
    using assms(3) by (metis comp_apply)
  then show ?thesis using assms by (simp add: composite_inv_def)
qed

lemma write_range_run:
  assumes "ok c" "room (cb_data c) (write_target off src t)"
    and "\<forall>n. t = Some n \<longrightarrow> off + length src \<le> n"
    and "CompositeBackend_WriteRange I D now b k off src t c = (r, c')"
  shows "ok c'" "mpu_targets c' = mpu_targets c" "staged (cb_data c') = staged (cb_data c)"
    "r = Inl e \<Longrightarrow> content \<circ> obj (cb_data c') = content \<circ> obj (cb_data c) \<and> cb_index c' = cb_index c"
    "r = Inr m \<Longrightarrow> m = MakeMeta now (write_target off src t) \<and>
      obj (cb_data c') = (obj (cb_data c))(MakeKey b k \<mapsto>
        written (content (obj (cb_data c) (MakeKey b k))) off src t) \<and>
      entries (cb_index c') = (entries (cb_index c))(MakeKey b k \<mapsto> m)"
proof -
  obtain q d where qd: "ds_WriteRange D b k off src t (cb_data c) = (q, d)" by fastforce
  have di: "dinv (cb_data c)" and d: "dinv d"
    using assms(1) write_inv [of "cb_data c" off src t b k] assms(2) qd
    by (auto simp: composite_inv_def)
  let ?n = "case t of None \<Rightarrow> u64_add off (length src) | Some n \<Rightarrow> n"
  have n: "?n = write_target off src t"
    using assms(3) room_mod [OF assms(2)]
    by (auto simp: write_target_def u64_add_exact split: option.splits)
  have "ok c' \<and> mpu_targets c' = mpu_targets c \<and> staged (cb_data c') = staged (cb_data c) \<and>
    (\<forall>e. r = Inl e \<longrightarrow> content \<circ> obj (cb_data c') = content \<circ> obj (cb_data c) \<and> cb_index c' = cb_index c) \<and>
    (\<forall>m. r = Inr m \<longrightarrow> m = MakeMeta now (write_target off src t) \<and>
      obj (cb_data c') = (obj (cb_data c))(MakeKey b k \<mapsto>
        written (content (obj (cb_data c) (MakeKey b k))) off src t) \<and>
      entries (cb_index c') = (entries (cb_index c))(MakeKey b k \<mapsto> m))"
  proof (cases q)
    case (Inl e)
    then show ?thesis
      using write_failed [OF di assms(2)] qd ok_data_step [OF assms(1) d] assms(4)
      by (auto simp: CompositeBackend_WriteRange_def)
  next
    case (Inr x)
    have obj: "obj d = (obj (cb_data c))(MakeKey b k \<mapsto>
        written (content (obj (cb_data c) (MakeKey b k))) off src t)" "staged d = staged (cb_data c)"
      using write_ok [OF di assms(2)] qd Inr by auto
    have run: "register_index I now b k (write_target off src t) (c\<lparr>cb_data := d\<rparr>) = (r, c')"
      using assms(4) qd Inr n by (simp add: CompositeBackend_WriteRange_def)
    have "\<exists>c''. register_index I now b k (write_target off src t) (c\<lparr>cb_data := d\<rparr>) =
         (Inr (MakeMeta now (write_target off src t)), c'') \<and> ok c'' \<and>
      cb_data c'' = d \<and> mpu_targets c'' = mpu_targets c \<and> entries (cb_index c'') =
         (entries (cb_index c))(MakeKey b k \<mapsto> MakeMeta now (write_target off src t))"
      using assms(1) by (intro register_ok) (simp_all add: d obj composite_inv_def)
    with run obj show ?thesis by auto
  qed
  then show "ok c'" "mpu_targets c' = mpu_targets c" "staged (cb_data c') = staged (cb_data c)"
    "r = Inl e \<Longrightarrow> content \<circ> obj (cb_data c') = content \<circ> obj (cb_data c) \<and> cb_index c' = cb_index c"
    "r = Inr m \<Longrightarrow> m = MakeMeta now (write_target off src t) \<and>
      obj (cb_data c') = (obj (cb_data c))(MakeKey b k \<mapsto>
        written (content (obj (cb_data c) (MakeKey b k))) off src t) \<and>
      entries (cb_index c') = (entries (cb_index c))(MakeKey b k \<mapsto> m)"
    by blast+
qed

lemma reserve_run:
  assumes "ok c" "room (cb_data c) n"
    and "CompositeBackend_Reserve I D now b k n c = (r, c')"
  shows "ok c'" "mpu_targets c' = mpu_targets c" "staged (cb_data c') = staged (cb_data c)"
    "r = Inl e \<Longrightarrow> content \<circ> obj (cb_data c') = content \<circ> obj (cb_data c) \<and> cb_index c' = cb_index c"
    "r = Inr m \<Longrightarrow> m = MakeMeta now n \<and>
      obj (cb_data c') = (obj (cb_data c))(MakeKey b k \<mapsto> resize n (content (obj (cb_data c) (MakeKey b k)))) \<and>
      entries (cb_index c') = (entries (cb_index c))(MakeKey b k \<mapsto> m)"
proof -
  obtain q d where qd: "ds_Reserve D b k n (cb_data c) = (q, d)" by fastforce
  have di: "dinv (cb_data c)" and d: "dinv d"
    using assms(1) reserve_inv [of "cb_data c" n b k] assms(2) qd by (auto simp: composite_inv_def)
  have "ok c' \<and> mpu_targets c' = mpu_targets c \<and> staged (cb_data c') = staged (cb_data c) \<and>
    (\<forall>e. r = Inl e \<longrightarrow> content \<circ> obj (cb_data c') = content \<circ> obj (cb_data c) \<and> cb_index c' = cb_index c) \<and>
    (\<forall>m. r = Inr m \<longrightarrow> m = MakeMeta now n \<and>
      obj (cb_data c') = (obj (cb_data c))(MakeKey b k \<mapsto> resize n (content (obj (cb_data c) (MakeKey b k)))) \<and>
      entries (cb_index c') = (entries (cb_index c))(MakeKey b k \<mapsto> m))"
  proof (cases q)
    case (Inl e)
    then show ?thesis
      using reserve_failed [OF di assms(2)] qd ok_data_step [OF assms(1) d] assms(3)
      by (auto simp: CompositeBackend_Reserve_def)
  next
    case (Inr x)
    have obj: "obj d = (obj (cb_data c))(MakeKey b k \<mapsto> resize n (content (obj (cb_data c) (MakeKey b k))))"
        "staged d = staged (cb_data c)"
      using reserve_ok [OF di assms(2)] qd Inr by auto
    have run: "register_index I now b k n (c\<lparr>cb_data := d\<rparr>) = (r, c')"
      using assms(3) qd Inr by (simp add: CompositeBackend_Reserve_def)
    have "\<exists>c''. register_index I now b k n (c\<lparr>cb_data := d\<rparr>) = (Inr (MakeMeta now n), c'') \<and> ok c'' \<and>
      cb_data c'' = d \<and> mpu_targets c'' = mpu_targets c \<and>
      entries (cb_index c'') = (entries (cb_index c))(MakeKey b k \<mapsto> MakeMeta now n)"
      using assms(1) by (intro register_ok) (simp_all add: d obj composite_inv_def)
    with run obj show ?thesis by auto
  qed
  then show "ok c'" "mpu_targets c' = mpu_targets c" "staged (cb_data c') = staged (cb_data c)"
    "r = Inl e \<Longrightarrow> content \<circ> obj (cb_data c') = content \<circ> obj (cb_data c) \<and> cb_index c' = cb_index c"
    "r = Inr m \<Longrightarrow> m = MakeMeta now n \<and>
      obj (cb_data c') = (obj (cb_data c))(MakeKey b k \<mapsto> resize n (content (obj (cb_data c) (MakeKey b k)))) \<and>
      entries (cb_index c') = (entries (cb_index c))(MakeKey b k \<mapsto> m)"
    by blast+
qed

lemma start_run:
  assumes "ok c" "can_start (cb_index c)"
  shows "\<exists>u c'. CompositeBackend_StartMultipart I now b k hint c = (Inr u, c') \<and> ok c' \<and>
    mpu_targets c u = None \<and> mpu_targets c' = (mpu_targets c)(u \<mapsto> (b, k)) \<and>
    cb_data c' = cb_data c \<and> entries (cb_index c') = entries (cb_index c)"
proof -
  have "iinv (cb_index c)" using assms(1) by (simp add: composite_inv_def)
  from start_ok [OF this assms(2)] obtain u i where
    ui: "ix_StartMultipart I now b k hint (cb_index c) = (Inr u, i)" "iinv i" "u \<notin> uploads (cb_index c)"
      "uploads i = insert u (uploads (cb_index c))" "entries i = entries (cb_index c)" by blast
  moreover have "mpu_targets c u = None" using ui(3) assms(1) by (auto simp: composite_inv_def)
  ultimately show ?thesis using assms(1)
    by (auto simp: CompositeBackend_StartMultipart_def composite_inv_def)
qed

lemma write_part_run:
  assumes "ok c" "room (cb_data c) (off + length src)"
    and "CompositeBackend_WritePart D now u pn off src c = (r, c')"
  shows "ok c'" "mpu_targets c' = mpu_targets c" "obj (cb_data c') = obj (cb_data c)"
    "cb_index c' = cb_index c"
    "r = Inr e \<Longrightarrow> e = MakePartEtag now pn (length src) \<and>
      staged (cb_data c') = (staged (cb_data c))(u := (staged (cb_data c) u)(pn \<mapsto>
        write_at off src (resize (max (length (content (staged (cb_data c) u pn))) (off + length src))
          (content (staged (cb_data c) u pn)))))"
proof -
  obtain q d where qd: "ds_WritePart D u pn off src (cb_data c) = (q, d)" by fastforce
  have di: "dinv (cb_data c)" and d: "dinv d" "obj d = obj (cb_data c)"
    using assms(1) part_inv [of "cb_data c" off src u pn] part_obj [of "cb_data c" off src u pn]
      assms(2) qd by (auto simp: composite_inv_def)
  have c': "c' = c\<lparr>cb_data := d\<rparr>"
    using assms(3) qd by (auto simp: CompositeBackend_WritePart_def split: sum.splits)
  then show "ok c'" "mpu_targets c' = mpu_targets c" "obj (cb_data c') = obj (cb_data c)"
      "cb_index c' = cb_index c"
    using ok_data_step [OF assms(1) d(1)] d(2) by auto
  show "r = Inr e \<Longrightarrow> e = MakePartEtag now pn (length src) \<and>
      staged (cb_data c') = (staged (cb_data c))(u := (staged (cb_data c) u)(pn \<mapsto>
        write_at off src (resize (max (length (content (staged (cb_data c) u pn))) (off + length src))
          (content (staged (cb_data c) u pn)))))"
    using part_ok [OF di assms(2)] qd assms(3) c'
    by (auto simp: CompositeBackend_WritePart_def split: sum.splits)
qed

lemma abort_run:
  assumes "ok c"
  shows "\<exists>c'. CompositeBackend_AbortMultipart I D u c = (Inr True, c') \<and> ok c' \<and>
    obj (cb_data c') = obj (cb_data c) \<and> staged (cb_data c') = (staged (cb_data c))(u := Map.empty) \<and>
    entries (cb_index c') = entries (cb_index c) \<and> mpu_targets c' = (mpu_targets c)(u := None)"
proof -
  have "dinv (cb_data c)" "iinv (cb_index c)" using assms by (simp_all add: composite_inv_def)
  then obtain i where "ix_AbortMultipart I u (cb_index c) = (Inr (u \<in> uploads (cb_index c)), i)"
    "iinv i" "uploads i = uploads (cb_index c) - {u}" "entries i = entries (cb_index c)"
    using abort_upload by blast
  then show ?thesis
    using abort_inv [OF \<open>dinv (cb_data c)\<close>, of u] abort_ok [OF \<open>dinv (cb_data c)\<close>, of u] assms
    by (auto simp: CompositeBackend_AbortMultipart_def composite_inv_def)
qed

lemma assembled_run:
  assumes "ok c" "mpu_targets c u = Some (b, k)" "room (cb_data c) n" "n = (\<Sum>pn\<leftarrow>ordered. length (content (staged (cb_data c) u pn)))"
    and "ds_AssembleObject D u b k ordered (cb_data c) = (Inr n', d)" "ordered = sort (map pr_part_number ps)"
    and "CompositeBackend_CompleteMultipart I D now u ps c = (r, c')"
  shows "ok c'" "r = Inr (MakeMeta now n)" "set ordered \<subseteq> dom (staged (cb_data c) u)"
    "obj (cb_data c') = (obj (cb_data c))(MakeKey b k \<mapsto> concat (map (\<lambda>pn. content (staged (cb_data c) u pn)) ordered))"
    "entries (cb_index c') = (entries (cb_index c))(MakeKey b k \<mapsto> MakeMeta now n)"
    "mpu_targets c' = (mpu_targets c)(u := None)" "staged (cb_data c') = (staged (cb_data c))(u := Map.empty)"
proof -
  have di: "dinv (cb_data c)" "iinv (cb_index c)" using assms(1) by (simp_all add: composite_inv_def)
  have d: "dinv d" using assemble_inv [OF di(1) assms(3) [unfolded assms(4)], of b k] assms(5) by simp
  have as: "set ordered \<subseteq> dom (staged (cb_data c) u)" "n' = n"
      "obj d = (obj (cb_data c))(MakeKey b k \<mapsto> concat (map (\<lambda>pn. content (staged (cb_data c) u pn)) ordered))"
      "staged d = (staged (cb_data c))(u := Map.empty)"
    using assemble_ok [OF di(1) assms(3) [unfolded assms(4)], of b k n' d] assms(4,5) by auto
  let ?m = "MakeMeta now n"
  have "u \<in> uploads (cb_index c)" using assms(1,2) by (auto simp: composite_inv_def)
  then obtain i where i: "ix_CommitMultipart I u b k (content_length ?m) (etag ?m) (version ?m) (cb_index c) = (Inr ?m, i)"
      "iinv i" "entries i = (entries (cb_index c))(MakeKey b k \<mapsto> ?m)" "uploads i = uploads (cb_index c) - {u}"
    using commit_ok [OF di(2), of u b k "content_length ?m" "etag ?m" "version ?m"] by (auto simp only: ObjectMetadata_eta)
  have c': "c' = c\<lparr>cb_data := d, cb_index := i, mpu_targets := (mpu_targets c)(u := None)\<rparr>" and r: "r = Inr ?m"
    using assms(2,5,6,7) i(1) as(2) by (auto simp: CompositeBackend_CompleteMultipart_def Let_def)
  have "content_length ?m = length (concat (map (\<lambda>pn. content (staged (cb_data c) u pn)) ordered))"
    by (simp add: MakeMeta_def length_concat comp_def assms(4))
  then show "ok c'" using assms(1) d i as c' by (auto simp: composite_inv_def)
  show "r = Inr ?m" "set ordered \<subseteq> dom (staged (cb_data c) u)" by (fact r, fact as(1))
  show "obj (cb_data c') = (obj (cb_data c))(MakeKey b k \<mapsto> concat (map (\<lambda>pn. content (staged (cb_data c) u pn)) ordered))"
    "entries (cb_index c') = (entries (cb_index c))(MakeKey b k \<mapsto> ?m)"
    "mpu_targets c' = (mpu_targets c)(u := None)" "staged (cb_data c') = (staged (cb_data c))(u := Map.empty)"
    using c' as i by simp_all
qed

lemma complete_run:
  assumes "ok c" "ordered = sort (map pr_part_number ps)"
    and "room (cb_data c) (\<Sum>pn\<leftarrow>ordered. length (content (staged (cb_data c) u pn)))"
    and "CompositeBackend_CompleteMultipart I D now u ps c = (r, c')"
  shows "ok c'"
    "r = Inl e \<Longrightarrow> mpu_targets c' = mpu_targets c \<and> content \<circ> obj (cb_data c') = content \<circ> obj (cb_data c)"
    "r = Inr m \<Longrightarrow> \<exists>b k. mpu_targets c u = Some (b, k) \<and> set ordered \<subseteq> dom (staged (cb_data c) u) \<and>
      obj (cb_data c') = (obj (cb_data c))(MakeKey b k \<mapsto>
        concat (map (\<lambda>pn. content (staged (cb_data c) u pn)) ordered)) \<and>
      m = MakeMeta now (\<Sum>pn\<leftarrow>ordered. length (content (staged (cb_data c) u pn))) \<and>
      entries (cb_index c') = (entries (cb_index c))(MakeKey b k \<mapsto> m) \<and>
      mpu_targets c' = (mpu_targets c)(u := None) \<and>
      staged (cb_data c') = (staged (cb_data c))(u := Map.empty)"
proof -
  have di: "dinv (cb_data c)" using assms(1) by (simp add: composite_inv_def)
  consider "mpu_targets c u = None" | b k e d where "mpu_targets c u = Some (b, k)" "ds_AssembleObject D u b k ordered (cb_data c) = (Inl e, d)"
    | b k n d where "mpu_targets c u = Some (b, k)" "ds_AssembleObject D u b k ordered (cb_data c) = (Inr n, d)"
    by (metis option.exhaust surj_pair sum.exhaust)
  then have "ok c' \<and>
    (\<forall>e. r = Inl e \<longrightarrow> mpu_targets c' = mpu_targets c \<and> content \<circ> obj (cb_data c') = content \<circ> obj (cb_data c)) \<and>
    (\<forall>m. r = Inr m \<longrightarrow> (\<exists>b k. mpu_targets c u = Some (b, k) \<and> set ordered \<subseteq> dom (staged (cb_data c) u) \<and>
      obj (cb_data c') = (obj (cb_data c))(MakeKey b k \<mapsto> concat (map (\<lambda>pn. content (staged (cb_data c) u pn)) ordered)) \<and>
      m = MakeMeta now (\<Sum>pn\<leftarrow>ordered. length (content (staged (cb_data c) u pn))) \<and>
      entries (cb_index c') = (entries (cb_index c))(MakeKey b k \<mapsto> m) \<and> mpu_targets c' = (mpu_targets c)(u := None) \<and>
      staged (cb_data c') = (staged (cb_data c))(u := Map.empty)))"
  proof cases
    case 1
    then show ?thesis using assms(1,4) by (auto simp: CompositeBackend_CompleteMultipart_def)
  next
    case (2 b k e d)
    have "dinv d" using assemble_inv [OF di assms(3), of b k] 2(2) by simp
    then show ?thesis
      using assemble_failed [OF di assms(3)] ok_data_step [OF assms(1)] assms(2,4) 2 by (auto simp: CompositeBackend_CompleteMultipart_def)
  next
    case (3 b k n d)
    note a = assembled_run [OF assms(1) 3(1) assms(3) refl 3(2) assms(2,4)]
    show ?thesis using a 3(1) by auto
  qed
  then show "ok c'"
    "r = Inl e \<Longrightarrow> mpu_targets c' = mpu_targets c \<and> content \<circ> obj (cb_data c') = content \<circ> obj (cb_data c)"
    "r = Inr m \<Longrightarrow> \<exists>b k. mpu_targets c u = Some (b, k) \<and> set ordered \<subseteq> dom (staged (cb_data c) u) \<and>
      obj (cb_data c') = (obj (cb_data c))(MakeKey b k \<mapsto>
        concat (map (\<lambda>pn. content (staged (cb_data c) u pn)) ordered)) \<and>
      m = MakeMeta now (\<Sum>pn\<leftarrow>ordered. length (content (staged (cb_data c) u pn))) \<and>
      entries (cb_index c') = (entries (cb_index c))(MakeKey b k \<mapsto> m) \<and>
      mpu_targets c' = (mpu_targets c)(u := None) \<and>
      staged (cb_data c') = (staged (cb_data c))(u := Map.empty)"
    by simp_all
qed

lemma iobuf_blocks_run:
  assumes "dinv d" "room d n" "off + length (concat blocks) \<le> n"
    and "obj d (MakeKey b k) = Some body" "length body = n"
  shows "\<exists>d'. write_blocks D b k n blocks off d = (Inr True, d') \<and> dinv d' \<and>
    obj d' = (obj d)(MakeKey b k \<mapsto> write_at off (concat blocks) body) \<and> staged d' = staged d"
  using assms
proof (induction blocks arbitrary: off d body)
  case Nil
  then show ?case by auto
next
  case (Cons block blocks)
  have target: "write_target off block (Some n) = n" using Cons.prems(3) by (simp add: write_target_def)
  then have room: "room d (write_target off block (Some n))" using Cons.prems by simp
  obtain q d' where qd: "ds_WriteRange D b k off block (Some n) d = (q, d')" by fastforce
  have "\<not> isl q" using write_in_place [OF Cons.prems(1) room, of b k] target Cons.prems(4,5) qd by simp
  then obtain x where q: "q = Inr x" by (cases q) auto
  have d': "dinv d'" "room d' n" "obj d' = (obj d)(MakeKey b k \<mapsto> write_at off block body)" "staged d' = staged d"
    using write_inv [OF Cons.prems(1) room, of b k] room_write [of b k off block "Some n" d]
      write_ok [OF Cons.prems(1) room, of b k x d'] Cons.prems qd q target
    by (auto simp: written_def)
  have off': "u64_add off (length block) = off + length block"
    using room_mod [OF Cons.prems(2)] Cons.prems(3) by (simp add: u64_add_exact)
  have "\<exists>d''. write_blocks D b k n blocks (off + length block) d' = (Inr True, d'') \<and> dinv d'' \<and>
      obj d'' = (obj d')(MakeKey b k \<mapsto> write_at (off + length block) (concat blocks) (write_at off block body)) \<and>
      staged d'' = staged d'"
    using Cons.prems d' by (intro Cons.IH) auto
  moreover have "write_at (off + length block) (concat blocks) (write_at off block body) =
      write_at off (block @ concat blocks) body"
    using Cons.prems by (intro write_at_append) simp
  ultimately show ?case using qd q d' by (auto simp: off')
qed

end

section \<open>The memory backend\<close>

type_synonym MemoryBackend = "(MemoryIndexStore, MemoryDataStore) CompositeBackend"

definition MemoryBackend_init :: "nat \<Rightarrow> MemoryBackend" where
  "MemoryBackend_init cap =
     \<lparr>cb_index = MemoryIndexStore_init, cb_data = MemoryDataStore_init cap, mpu_targets = Map.empty\<rparr>"

definition memory_backend :: "MemoryBackend IBackend" where
  "memory_backend = composite_backend memory_index_store memory_data_store"

interpretation mem: composite memory_data_store data_store_inv fits bodies staged_parts
  memory_index_store index_store_inv seq_left ix_entries "\<lambda>s. dom (ix_mpu s)"
  by (intro composite.intro memory_data.data_store_axioms memory_index.index_store_axioms)

abbreviation memory_backend_inv :: "MemoryBackend \<Rightarrow> bool" where
  "memory_backend_inv \<equiv> composite_inv data_store_inv bodies index_store_inv ix_entries (\<lambda>s. dom (ix_mpu s))"

lemma memory_backend_init_inv: "cap < u64_mod \<Longrightarrow> memory_backend_inv (MemoryBackend_init cap)"
  by (simp add: MemoryBackend_init_def composite_inv_def data_store_inv_def stored_bytes_def
      index_store_inv_def MemoryDataStore_init_def MemoryIndexStore_init_def)

lemma memory_backend_ops [simp]:
  "be_Head memory_backend = CompositeBackend_Head memory_index_store"
  "be_Read memory_backend = CompositeBackend_Read memory_data_store"
  "be_Write memory_backend = CompositeBackend_Write memory_index_store memory_data_store"
  "be_WriteRange memory_backend = CompositeBackend_WriteRange memory_index_store memory_data_store"
  "be_Reserve memory_backend = CompositeBackend_Reserve memory_index_store memory_data_store"
  "be_StartMultipart memory_backend = CompositeBackend_StartMultipart memory_index_store"
  "be_WritePart memory_backend = CompositeBackend_WritePart memory_data_store"
  "be_CompleteMultipart memory_backend = CompositeBackend_CompleteMultipart memory_index_store memory_data_store"
  "be_AbortMultipart memory_backend = CompositeBackend_AbortMultipart memory_index_store memory_data_store"
  by (simp_all add: memory_backend_def composite_backend_def)

text \<open>All histories of a memory backend, with the requests that the 64-bit arithmetic can
  express: an announced total covers the written range, and the sizes do not wrap.\<close>

inductive memory_backend_reach :: "nat \<Rightarrow> MemoryBackend \<Rightarrow> bool" for cap where
  init: "cap < u64_mod \<Longrightarrow> memory_backend_reach cap (MemoryBackend_init cap)"
| write_range: "memory_backend_reach cap c \<Longrightarrow> cap + write_target off src t < u64_mod \<Longrightarrow>
    (\<forall>n. t = Some n \<longrightarrow> off + length src \<le> n) \<Longrightarrow>
    memory_backend_reach cap (snd (be_WriteRange memory_backend now b k off src t c))"
| reserve: "memory_backend_reach cap c \<Longrightarrow> cap + n < u64_mod \<Longrightarrow>
    memory_backend_reach cap (snd (be_Reserve memory_backend now b k n c))"
| start: "memory_backend_reach cap c \<Longrightarrow> mpu_seq (cb_index c) + 1 < u64_mod \<Longrightarrow>
    memory_backend_reach cap (snd (be_StartMultipart memory_backend now b k hint c))"
| write_part: "memory_backend_reach cap c \<Longrightarrow> cap + off + length src < u64_mod \<Longrightarrow>
    memory_backend_reach cap (snd (be_WritePart memory_backend now u pn off src c))"
| complete: "memory_backend_reach cap c \<Longrightarrow>
    cap + (\<Sum>p\<leftarrow>ps. length (content (staged_parts (cb_data c) u (pr_part_number p)))) < u64_mod \<Longrightarrow>
    memory_backend_reach cap (snd (be_CompleteMultipart memory_backend now u ps c))"
| abort: "memory_backend_reach cap c \<Longrightarrow>
    memory_backend_reach cap (snd (be_AbortMultipart memory_backend u c))"

lemma sum_list_sort: "(\<Sum>pn\<leftarrow>sort (map f ps). g pn) = (\<Sum>p\<leftarrow>ps. g (f p) :: nat)"
proof -
  have "(\<Sum>pn\<leftarrow>sort (map f ps). g pn) = (\<Sum>pn\<leftarrow>map f ps. g pn)"
    by (simp only: sum_mset_sum_list [symmetric] mset_map mset_sort)
  then show ?thesis by (simp add: comp_def)
qed

lemma capacity_register: "cb_data (snd (register_index I now b k n c)) = cb_data c"
  by (simp add: register_index_def Let_def split: prod.split sum.split)

lemma capacity_backend:
  "capacity_bytes (cb_data (snd (be_WriteRange memory_backend now b k off src t c))) = capacity_bytes (cb_data c)"
  "capacity_bytes (cb_data (snd (be_Reserve memory_backend now b k n c))) = capacity_bytes (cb_data c)"
  "capacity_bytes (cb_data (snd (be_StartMultipart memory_backend now b k hint c))) = capacity_bytes (cb_data c)"
  "capacity_bytes (cb_data (snd (be_WritePart memory_backend now u pn off src c))) = capacity_bytes (cb_data c)"
  "capacity_bytes (cb_data (snd (be_CompleteMultipart memory_backend now u ps c))) = capacity_bytes (cb_data c)"
  "capacity_bytes (cb_data (snd (be_AbortMultipart memory_backend u c))) = capacity_bytes (cb_data c)"
  by (auto simp: CompositeBackend_WriteRange_def CompositeBackend_Reserve_def capacity_register
      CompositeBackend_StartMultipart_def CompositeBackend_WritePart_def Let_def
      CompositeBackend_CompleteMultipart_def CompositeBackend_AbortMultipart_def capacity_ops
      split: prod.splits sum.splits option.splits dest: capacity_after_op)

lemma memory_backend_reach_inv:
  "memory_backend_reach cap c \<Longrightarrow> memory_backend_inv c \<and> capacity_bytes (cb_data c) = cap"
  supply cap = capacity_backend [unfolded memory_backend_ops]
proof (induction rule: memory_backend_reach.induct)
  case init
  then show ?case
    using memory_backend_init_inv by (simp add: MemoryBackend_init_def MemoryDataStore_init_def)
next
  case (write_range c off src t now b k)
  then have "fits (cb_data c) (write_target off src t)" by (simp add: fits_def)
  then show ?case
    using write_range mem.write_range_run(1) [of c off src t, OF _ _ _ surjective_pairing]
    by (simp add: cap)
next
  case (reserve c n now b k)
  then have "fits (cb_data c) n" by (simp add: fits_def)
  then show ?case
    using reserve mem.reserve_run(1) [of c n, OF _ _ surjective_pairing]
    by (simp add: cap)
next
  case (start c now b k hint)
  then have "seq_left (cb_index c)" by (simp add: seq_left_def)
  then obtain u c' where "CompositeBackend_StartMultipart memory_index_store now b k hint c = (Inr u, c')"
      "memory_backend_inv c'"
    using start.IH mem.start_run by meson
  then show ?case using start.IH cap(3) [of now b k hint c] by simp
next
  case (write_part c off src now u pn)
  then have "fits (cb_data c) (off + length src)" by (simp add: fits_def)
  then show ?case
    using write_part mem.write_part_run(1) [of c off src, OF _ _ surjective_pairing]
    by (simp add: cap)
next
  case (complete c u ps now)
  then have "fits (cb_data c) (\<Sum>pn\<leftarrow>sort (map pr_part_number ps). length (content (staged_parts (cb_data c) u pn)))"
    by (simp add: fits_def sum_list_sort)
  then show ?case
    using complete mem.complete_run(1) [where c = c and ps = ps and u = u, OF _ refl _ surjective_pairing]
    by (simp add: cap)
next
  case (abort c u)
  then obtain c' where
    "CompositeBackend_AbortMultipart memory_index_store memory_data_store u c = (Inr True, c')"
      "memory_backend_inv c'"
    using mem.abort_run by meson
  then show ?case using abort.IH cap(6) [of u c] by simp
qed

lemma replace_same_length:
  "length b = length (body_at s oid) \<Longrightarrow> replace_body oid b s = s\<lparr>bodies := (bodies s)(oid \<mapsto> b)\<rparr>"
  by (simp add: replace_body_def)

lemma write_blocks_memory:
  assumes "data_store_inv d" "fits d n" "off + length (concat blocks) \<le> n"
    and "bodies d (MakeKey b k) = Some body" "length body = n"
  shows "write_blocks memory_data_store b k n blocks off d =
    (Inr True, d\<lparr>bodies := (bodies d)(MakeKey b k \<mapsto> write_at off (concat blocks) body)\<rparr>)"
  using assms
proof (induction blocks arbitrary: off d body)
  case Nil
  then show ?case by (simp add: fun_upd_idem)
next
  case (Cons block blocks)
  let ?d = "d\<lparr>bodies := (bodies d)(MakeKey b k \<mapsto> write_at off block body)\<rparr>"
  have target: "write_target off block (Some n) = n" using Cons.prems(3) by (simp add: write_target_def)
  have body: "body_at d (MakeKey b k) = body" using Cons.prems(4) by (simp add: body_at_def)
  have step: "MemoryDataStore_WriteRange b k off block (Some n) d = (Inr True, ?d)"
    using WriteRange_eval [of d off block "Some n" b k] Cons.prems body target
    by (simp add: would_exceed_def replace_same_length written_def)
  then have "data_store_inv ?d"
    using WriteRange_inv [of d off block "Some n" b k] Cons.prems target by simp
  moreover have "u64_add off (length block) = off + length block"
    using Cons.prems(2,3) by (simp add: u64_add_exact fits_def)
  ultimately show ?case
    using Cons.IH [of ?d "off + length block" "write_at off block body"] Cons.prems step
    by (simp add: write_at_append fits_def cong: if_cong)
qed

lemmas backend_evals =
  CompositeBackend_WriteRange_def CompositeBackend_Write_def CompositeBackend_Head_def
  CompositeBackend_Read_def register_index_def MakeMeta_def quoted_def
  MemoryDataStore_WriteRange_def MemoryDataStore_Read_def MemoryIndexStore_PutObjectIndex_def
  MemoryIndexStore_Head_def MemoryBackend_init_def MemoryDataStore_init_def MemoryIndexStore_init_def
  body_at_def set_body_def settle_def ReserveBytes_def ReleaseBytes_def u64_add_def u64_mod_def
  copied_def copy_fits_def resize_def write_at_def read_at_def MakeKey_def Let_def

section \<open>Properties\<close>



text \<open>C10: after a successful \<^verbatim>\<open>Write\<close> the object is exactly what was written: reading from any
  offset inside it into any buffer copies the bytes of the source from that offset on, as many
  as the buffer takes, and leaves the rest of the buffer alone; \<^verbatim>\<open>Head\<close> returns the metadata of the
  write, whose length is the number of written bytes; every other object is unchanged.\<close>

theorem write_then_read:
  assumes "memory_backend_reach cap c" "cap + length src < u64_mod"
    and "be_Write memory_backend now b k src c = (Inr m, c')" "off \<le> length src"
  shows "be_Read memory_backend b k off dst c' =
      Inr (min (length src - off) (length dst),
           take (length dst) (drop off src) @ drop (length src - off) dst) \<and>
    be_Head memory_backend b k c' = Inr m \<and> content_length m = length src \<and>
    (\<forall>b2 k2 off2 dst2. MakeKey b2 k2 \<noteq> MakeKey b k \<longrightarrow>
      be_Read memory_backend b2 k2 off2 dst2 c' = be_Read memory_backend b2 k2 off2 dst2 c)"
proof -
  have inv: "memory_backend_inv c" "capacity_bytes (cb_data c) = cap"
    using memory_backend_reach_inv [OF assms(1)] by auto
  have t: "write_target 0 src (Some (length src)) = length src" by (simp add: write_target_def)
  have room: "fits (cb_data c) (write_target 0 src (Some (length src)))"
    using assms(2) inv(2) t by (simp add: fits_def)
  have run: "CompositeBackend_WriteRange memory_index_store memory_data_store now b k 0 src
      (Some (length src)) c = (Inr m, c')"
    using assms(3) by (simp add: CompositeBackend_Write_def)
  note eff = mem.write_range_run(5) [OF inv(1) room _ run refl, unfolded t written_whole, simplified]
  have "be_Read memory_backend b k off dst c' =
      Inr (min (length src - off) (length dst), take (length dst) (drop off src) @ drop (length src - off) dst)"
    using eff assms(4) Read_eval [of "cb_data c'" b k src off dst]
    by (simp add: CompositeBackend_Read_def read_at_def)
  moreover have "be_Head memory_backend b k c' = Inr m \<and> content_length m = length src"
    using eff by (simp add: CompositeBackend_Head_def MemoryIndexStore_Head_def MakeMeta_def)
  ultimately show ?thesis
    using eff by (simp add: CompositeBackend_Read_def MemoryDataStore_Read_def)
qed

theorem write_then_read_witness:
  "\<exists>c'. be_Write memory_backend 7 ''b'' ''k'' [1, 2, 3] (MemoryBackend_init 10) = (Inr (MakeMeta 7 3), c') \<and>
     be_Read memory_backend ''b'' ''k'' 1 [9, 9, 9, 9] c' = Inr (2, [2, 3, 9, 9])"
proof -
  have reach: "memory_backend_reach 10 (MemoryBackend_init 10)" "10 + length [1, 2, 3 :: byte] < u64_mod"
    by (simp_all add: u64_mod_def memory_backend_reach.init)
  obtain c' where w: "be_Write memory_backend 7 ''b'' ''k'' [1, 2, 3] (MemoryBackend_init 10) = (Inr (MakeMeta 7 3), c')"
    by (simp add: backend_evals)
  show ?thesis using w write_then_read [OF reach w, of 1 "[9, 9, 9, 9]"] by (auto simp: numeral_eq_Suc)
qed

text \<open>C11: the zero-copy \<^verbatim>\<open>Write\<close> of an \<^verbatim>\<open>IOBuf\<close>, which reserves the object and then writes it
  block by block, is the ordinary \<^verbatim>\<open>Write\<close> of the flattened buffer: same result, same state,
  on success and on a refused capacity, however the buffer is cut into blocks.\<close>

theorem iobuf_write_is_write:
  assumes "data_store_inv (cb_data c)" "fits (cb_data c) (length (concat src))"
  shows "CompositeBackend_WriteIOBuf I memory_data_store now b k src c =
    CompositeBackend_Write I memory_data_store now b k (concat src) c"
proof -
  let ?d = "cb_data c" and ?oid = "MakeKey b k" and ?n = "length (concat src)"
  let ?old = "body_at ?d ?oid"
  have t: "write_target 0 (concat src) (Some ?n) = ?n" by (simp add: write_target_def)
  show ?thesis
  proof (cases "would_exceed ?d (length ?old) ?n")
    case True
    then show ?thesis
      using Reserve_eval [OF assms, of b k] WriteRange_eval [of ?d 0 "concat src" "Some ?n" b k] assms
      by (simp add: CompositeBackend_WriteIOBuf_def CompositeBackend_Write_def
          CompositeBackend_WriteRange_def t Let_def)
  next
    case False
    let ?d1 = "replace_body ?oid (resize ?n ?old) ?d"
    have "data_store_inv ?d1" using False assms by (intro inv_replace) auto
    moreover have "fits ?d1 ?n" using assms(2) by (simp add: fits_def replace_body_def)
    ultimately have "write_blocks memory_data_store b k ?n src 0 ?d1 =
        (Inr True, ?d1\<lparr>bodies := (bodies ?d1)(?oid \<mapsto> concat src)\<rparr>)"
      using write_blocks_memory [of ?d1 ?n 0 src b k "resize ?n ?old"] by simp
    moreover have "?d1\<lparr>bodies := (bodies ?d1)(?oid \<mapsto> concat src)\<rparr> = replace_body ?oid (concat src) ?d"
      by (simp add: replace_body_def cong: if_cong)
    ultimately show ?thesis
      using False Reserve_eval [OF assms, of b k] WriteRange_eval [of ?d 0 "concat src" "Some ?n" b k] assms
      by (simp add: CompositeBackend_WriteIOBuf_def CompositeBackend_Write_def CompositeBackend_WriteRange_def
          t written_whole Let_def)
  qed
qed

theorem iobuf_write_is_write_witness:
  "let c = MemoryBackend_init 10 in
   data_store_inv (cb_data c) \<and> fits (cb_data c) (length (concat [[1, 2], [], [3 :: byte]])) \<and>
   CompositeBackend_WriteIOBuf memory_index_store memory_data_store 7 ''b'' ''k'' [[1, 2], [], [3]] c =
   CompositeBackend_Write memory_index_store memory_data_store 7 ''b'' ''k'' [1, 2, 3] c"
proof -
  have "data_store_inv (cb_data (MemoryBackend_init 10))"
    using memory_backend_init_inv [of 10] by (simp add: composite_inv_def u64_mod_def)
  moreover have "fits (cb_data (MemoryBackend_init 10)) (length (concat [[1, 2], [], [3 :: byte]]))"
    by (simp add: fits_def u64_mod_def MemoryBackend_init_def MemoryDataStore_init_def)
  ultimately show ?thesis
    using iobuf_write_is_write [of "MemoryBackend_init 10" "[[1, 2], [], [3]]" memory_index_store 7 "''b''" "''k''"]
    by (simp add: Let_def)
qed

end
