(* ===== verification/Null_Backend.thy ===== *)
theory Null_Backend
  imports Composite_Backend
begin

text \<open>
  \<^verbatim>\<open>gateway/src/backend/null_*.cpp\<close>: the stubs that accept everything and store nothing, used to exercise the
  protocol. The null backend and the composite of the two null stores have a trivial state; the null
  index counts the uploads it started.
\<close>

section \<open>The null backend\<close>

definition MakeEmptyMeta :: ObjectMetadata where
  "MakeEmptyMeta = \<lparr>content_length = 0, etag = quoted ''null'', version = ''null''\<rparr>"

definition null_backend :: "unit IBackend" where
  "null_backend =
     \<lparr>be_Head = (\<lambda>b k s. Success MakeEmptyMeta),
      be_Read = (\<lambda>b k off dst s. Success (0, dst)),
      be_Write = (\<lambda>now b k src s. (Success MakeEmptyMeta, s)),
      be_WriteRange = (\<lambda>now b k off src t s. (Success MakeEmptyMeta, s)),
      be_Reserve = (\<lambda>now b k n s. (Success MakeEmptyMeta, s)),
      be_StartMultipart = (\<lambda>now b k hint s. (Success ''null-mpu'', s)),
      be_WritePart = (\<lambda>now u pn off src s. (Success (quoted ''null-part''), s)),
      be_CompleteMultipart = (\<lambda>now u ps s. (Success MakeEmptyMeta, s)),
      be_AbortMultipart = (\<lambda>u s. (Success True, s))\<rparr>"

section \<open>The null stores\<close>

definition null_data_store :: "unit IDataStore" where
  "null_data_store =
     \<lparr>ds_Reserve = (\<lambda>b k n s. (Success True, s)),
      ds_WriteRange = (\<lambda>b k off src t s. (Success True, s)),
      ds_Read = (\<lambda>b k off dst s. Success (0, dst)),
      ds_DeleteObject = (\<lambda>b k s. (Success True, s)),
      ds_WritePart = (\<lambda>u pn off src s. (Success True, s)),
      ds_AbortMultipartData = (\<lambda>u s. (Success True, s)),
      ds_AssembleObject = (\<lambda>u b k pns s. (Success 0, s))\<rparr>"

text \<open>The state of the index is its sequence counter.\<close>

definition null_upload_id :: "nat \<Rightarrow> string" where
  "null_upload_id seq = ''null-mpu-'' @ dec seq"

definition NullIndexStore_StartMultipart :: "nat \<Rightarrow> string \<Rightarrow> string \<Rightarrow> nat option \<Rightarrow> nat \<Rightarrow> string result \<times> nat" where
  "NullIndexStore_StartMultipart now bucket key hint seq =
     (let seq = u64_add seq 1 in (Success (null_upload_id seq), seq))"

definition null_index_store :: "nat IIndexStore" where
  "null_index_store =
     \<lparr>ix_Head = (\<lambda>b k s. Success \<lparr>content_length = 0, etag = quoted ''null'', version = ''null''\<rparr>),
      ix_PutObjectIndex = (\<lambda>b k n e v s. (Success True, s)),
      ix_DeleteObjectIndex = (\<lambda>b k s. (Success True, s)),
      ix_StartMultipart = NullIndexStore_StartMultipart,
      ix_AbortMultipart = (\<lambda>u s. (Success True, s)),
      ix_CommitMultipart = (\<lambda>u b k n e v s. (Success \<lparr>content_length = n, etag = e, version = v\<rparr>, s))\<rparr>"

text \<open>The composite of the two, which \<^verbatim>\<open>BackendKind::kComposite\<close> selects.\<close>

definition null_composite :: "(nat, unit) CompositeBackend IBackend" where
  "null_composite = composite_backend null_index_store null_data_store"

section \<open>Uploads of the null composite\<close>

lemma null_upload_id_inject [simp]: "null_upload_id m = null_upload_id n \<longleftrightarrow> m = n"
  by (simp add: null_upload_id_def)

lemma null_start:
  assumes "mpu_targets c (null_upload_id n) = None" "n = u64_add (cb_index c) 1"
  shows "be_StartMultipart null_composite now b k hint c =
     (Inr (null_upload_id n), c\<lparr>cb_index := n, mpu_targets := (mpu_targets c)(null_upload_id n \<mapsto> (b, k))\<rparr>)"
  using assms
  by (simp add: null_composite_def composite_backend_def CompositeBackend_StartMultipart_def null_index_store_def
      NullIndexStore_StartMultipart_def Let_def)

lemma null_complete:
  "mpu_targets c u = Some (b, k) \<Longrightarrow> be_CompleteMultipart null_composite now u ps c =
     (Inr (MakeMeta now 0), c\<lparr>mpu_targets := (mpu_targets c)(u := None)\<rparr>)"
  by (simp add: null_composite_def composite_backend_def CompositeBackend_CompleteMultipart_def null_data_store_def
      null_index_store_def Let_def)

lemma null_complete_unknown:
  "mpu_targets c u = None \<Longrightarrow> result_code (fst (be_CompleteMultipart null_composite now u ps c)) = kNotFound"
  by (simp add: null_composite_def composite_backend_def CompositeBackend_CompleteMultipart_def)

text \<open>Every identifier in use was issued: it carries a number of at most the counter.\<close>

definition null_issued :: "(nat, unit) CompositeBackend \<Rightarrow> bool" where
  "null_issued c \<longleftrightarrow> (\<forall>u \<in> dom (mpu_targets c). \<exists>n \<le> cb_index c. u = null_upload_id n)"

text \<open>The uploads of the composite of null stores are kept apart. As long as the 64-bit counter has not
  run out, starting an upload succeeds with an identifier that no open upload has, and the new upload can
  be completed exactly once: it reports the empty object, and a second completion of the same identifier is
  refused as not found.\<close>

theorem null_composite_uploads:
  assumes "null_issued c" "cb_index c + 1 < u64_mod"
    and "be_StartMultipart null_composite now b k hint c = (r, c1)"
    and "be_CompleteMultipart null_composite now2 u ps c1 = (r2, c2)" "r = Inr u"
  shows "mpu_targets c u = None \<and> null_issued c1 \<and> r2 = Inr (MakeMeta now2 0) \<and>
    result_code (fst (be_CompleteMultipart null_composite now3 u ps c2)) = kNotFound"
proof -
  let ?n = "cb_index c + 1"
  have exact: "?n = u64_add (cb_index c) 1" using assms(2) by (simp add: u64_add_exact)
  have fresh: "mpu_targets c (null_upload_id ?n) = None"
  proof (rule ccontr)
    assume "mpu_targets c (null_upload_id ?n) \<noteq> None"
    then have "null_upload_id ?n \<in> dom (mpu_targets c)" by blast
    then obtain n where "n \<le> cb_index c" "null_upload_id ?n = null_upload_id n"
      using assms(1) unfolding null_issued_def by blast
    then show False by simp
  qed
  then have u: "u = null_upload_id ?n"
    and c1: "c1 = c\<lparr>cb_index := ?n, mpu_targets := (mpu_targets c)(u \<mapsto> (b, k))\<rparr>"
    using assms(3,5) null_start [OF fresh exact, of now b k hint] by auto
  have "null_issued c1" using assms(1) u c1 by (auto simp: null_issued_def intro: le_SucI)
  moreover have "mpu_targets c1 u = Some (b, k)" using c1 by simp
  then have "r2 = Inr (MakeMeta now2 0)" "mpu_targets c2 u = None"
    using assms(4) null_complete [of c1 u b k now2 ps] by auto
  ultimately show ?thesis using fresh u null_complete_unknown [of c2 u now3 ps] by simp
qed

theorem null_composite_uploads_witness:
  "let c = \<lparr>cb_index = 0, cb_data = (), mpu_targets = Map.empty\<rparr>;
       (r, c1) = be_StartMultipart null_composite 5 ''b'' ''k'' None c;
       (r2, c2) = be_CompleteMultipart null_composite 6 ''null-mpu-1'' [] c1 in
   null_issued c \<and> r = Inr ''null-mpu-1'' \<and> r2 = Inr (MakeMeta 6 0)"
proof -
  let ?c = "\<lparr>cb_index = 0, cb_data = (), mpu_targets = Map.empty\<rparr> :: (nat, unit) CompositeBackend"
  obtain r c1 where s: "be_StartMultipart null_composite 5 ''b'' ''k'' None ?c = (r, c1)" by fastforce
  obtain r2 c2 where t: "be_CompleteMultipart null_composite 6 ''null-mpu-1'' [] c1 = (r2, c2)" by fastforce
  have i: "null_issued ?c" "cb_index ?c + 1 < u64_mod" by (simp_all add: null_issued_def u64_mod_def)
  have r: "r = Inr ''null-mpu-1''"
    using s null_start [of ?c 1 5 "''b''" "''k''" None]
    by (simp add: u64_add_def u64_mod_def null_upload_id_def print_base.simps digit_char_simps)
  show ?thesis using null_composite_uploads [OF i s t r, of 6] i s t r by (simp add: Let_def)
qed

end
