(* ===== verification/Io_Worker_Pool.thy ===== *)
theory Io_Worker_Pool
  imports Prelude "HOL-Library.Multiset"
begin

text \<open>
  \<^verbatim>\<open>gateway/src/runtime/io_worker_pool.cpp\<close>: the worker threads that run blocking work for the RPC
  services. The pool is a step relation whose steps are the atomic sections of the source: the unlocked test of
  \<^verbatim>\<open>running_\<close>, the push under the lock, the notification, the loop of a worker around its condition variable, the task
  itself. A task is an abstract value; the record keeps the tasks handed to \<^verbatim>\<open>Submit\<close>, the order in which
  they entered the queue and were started, and those that were executed.
\<close>

section \<open>State\<close>

text \<open>A worker outside the lock; holding the lock after it found nothing to do; waiting on the
  condition variable; executing a task; returned from \<^verbatim>\<open>WorkerLoop\<close>.\<close>

datatype 't Worker = Idle | Checked | Asleep | Busy 't | Exited

record 't IoWorkerPool =
  io_running :: bool
  io_queue :: "'t list"
  io_workers :: "'t Worker list"
  io_passed :: "'t list"
  io_notify :: "bool list"
  io_stop_notify :: bool
  io_submitted :: "'t list"
  io_pushed :: "'t list"
  io_started :: "'t list"
  io_executed :: "'t multiset"

text \<open>\<^verbatim>\<open>io_passed\<close> holds the tasks whose \<^verbatim>\<open>Submit\<close> saw a running pool and has not pushed yet, \<^verbatim>\<open>io_notify\<close> the
  notifications still to be sent (to all workers or to one), \<^verbatim>\<open>io_stop_notify\<close> that of \<^verbatim>\<open>Stop\<close>.\<close>

definition IoWorkerPool_init :: "nat \<Rightarrow> 't IoWorkerPool" where
  "IoWorkerPool_init worker_count =
     \<lparr>io_running = True, io_queue = [], io_workers = replicate (if worker_count = 0 then 1 else worker_count) Idle,
      io_passed = [], io_notify = [], io_stop_notify = False, io_submitted = [], io_pushed = [], io_started = [],
      io_executed = {#}\<rparr>"

definition unlocked :: "'t IoWorkerPool \<Rightarrow> bool" where
  "unlocked p \<longleftrightarrow> Checked \<notin> set (io_workers p)"

definition awake :: "'t Worker \<Rightarrow> 't Worker" where
  "awake w = (case w of Asleep \<Rightarrow> Idle | _ \<Rightarrow> w)"

section \<open>Steps\<close>

text \<open>The entry of \<^verbatim>\<open>Submit\<close>: a stopped pool executes the task in the caller.\<close>

definition Submit_test :: "'t \<Rightarrow> 't IoWorkerPool \<Rightarrow> 't IoWorkerPool" where
  "Submit_test t p =
     (let p = p\<lparr>io_submitted := io_submitted p @ [t]\<rparr> in
      if \<not> io_running p then p\<lparr>io_executed := add_mset t (io_executed p)\<rparr>
      else p\<lparr>io_passed := io_passed p @ [t]\<rparr>)"

definition Submit_push :: "'t \<Rightarrow> 't IoWorkerPool \<Rightarrow> 't IoWorkerPool" where
  "Submit_push t p =
     (let was_empty = (io_queue p = []) in
      p\<lparr>io_passed := remove1 t (io_passed p), io_queue := io_queue p @ [t], io_pushed := io_pushed p @ [t],
        io_notify := was_empty # io_notify p\<rparr>)"

definition notify_all :: "'t IoWorkerPool \<Rightarrow> 't IoWorkerPool" where
  "notify_all p = p\<lparr>io_workers := map awake (io_workers p)\<rparr>"

definition notify_one :: "nat \<Rightarrow> 't IoWorkerPool \<Rightarrow> 't IoWorkerPool" where
  "notify_one i p = p\<lparr>io_workers := (io_workers p)[i := awake (io_workers p ! i)]\<rparr>"

definition Stop_set :: "'t IoWorkerPool \<Rightarrow> 't IoWorkerPool" where
  "Stop_set p = (if io_running p then p\<lparr>io_running := False, io_stop_notify := True\<rparr> else p)"

text \<open>A worker that got the lock: it goes to wait, takes the first task, or returns.\<close>

definition WorkerLoop_check :: "nat \<Rightarrow> 't IoWorkerPool \<Rightarrow> 't IoWorkerPool" where
  "WorkerLoop_check i p =
     (if io_running p \<and> io_queue p = [] then p\<lparr>io_workers := (io_workers p)[i := Checked]\<rparr>
      else case io_queue p of
        t # q \<Rightarrow> p\<lparr>io_queue := q, io_workers := (io_workers p)[i := Busy t], io_started := io_started p @ [t]\<rparr>
      | [] \<Rightarrow> p\<lparr>io_workers := (io_workers p)[i := Exited]\<rparr>)"

definition WorkerLoop_done :: "nat \<Rightarrow> 't \<Rightarrow> 't IoWorkerPool \<Rightarrow> 't IoWorkerPool" where
  "WorkerLoop_done i t p = p\<lparr>io_workers := (io_workers p)[i := Idle], io_executed := add_mset t (io_executed p)\<rparr>"

text \<open>The steps without the spurious wake-ups a condition variable may add.\<close>

inductive io_step :: "'t IoWorkerPool \<Rightarrow> 't IoWorkerPool \<Rightarrow> bool" where
  submit: "io_step p (Submit_test t p)"
| push: "t \<in> set (io_passed p) \<Longrightarrow> unlocked p \<Longrightarrow> io_step p (Submit_push t p)"
| notify: "io_notify p = True # ns \<Longrightarrow> io_step p (notify_all (p\<lparr>io_notify := ns\<rparr>))"
| notify_one: "io_notify p = False # ns \<Longrightarrow> i < length (io_workers p) \<Longrightarrow> io_step p (notify_one i (p\<lparr>io_notify := ns\<rparr>))"
| stop: "io_step p (Stop_set p)"
| stop_notify: "io_stop_notify p \<Longrightarrow> io_step p (notify_all (p\<lparr>io_stop_notify := False\<rparr>))"
| check: "i < length (io_workers p) \<Longrightarrow> io_workers p ! i = Idle \<Longrightarrow> unlocked p \<Longrightarrow> io_step p (WorkerLoop_check i p)"
| wait: "i < length (io_workers p) \<Longrightarrow> io_workers p ! i = Checked \<Longrightarrow>
    io_step p (p\<lparr>io_workers := (io_workers p)[i := Asleep]\<rparr>)"
| finish: "i < length (io_workers p) \<Longrightarrow> io_workers p ! i = Busy t \<Longrightarrow> io_step p (WorkerLoop_done i t p)"

inductive_cases io_stepE: "io_step p p'"

text \<open>With spurious wake-ups.\<close>

inductive io_step_any :: "'t IoWorkerPool \<Rightarrow> 't IoWorkerPool \<Rightarrow> bool" where
  step: "io_step p p' \<Longrightarrow> io_step_any p p'"
| spurious: "i < length (io_workers p) \<Longrightarrow> io_step_any p (notify_one i p)"

section \<open>Conservation of tasks\<close>

definition in_hand :: "'t Worker list \<Rightarrow> 't multiset" where
  "in_hand ws = mset (concat (map (\<lambda>w. case w of Busy t \<Rightarrow> [t] | _ \<Rightarrow> []) ws))"

lemma in_hand_simps [simp]:
  "in_hand [] = {#}" "in_hand (w # ws) = (case w of Busy t \<Rightarrow> {#t#} | _ \<Rightarrow> {#}) + in_hand ws"
  by (auto simp: in_hand_def split: Worker.splits)

lemma in_hand_replicate [simp]: "in_hand (replicate n Idle) = {#}"
  by (induction n) simp_all

lemma in_hand_update:
  "i < length ws \<Longrightarrow> in_hand (ws[i := w]) + (case ws ! i of Busy t \<Rightarrow> {#t#} | _ \<Rightarrow> {#}) =
     in_hand ws + (case w of Busy t \<Rightarrow> {#t#} | _ \<Rightarrow> {#})"
proof (induction ws arbitrary: i)
  case (Cons v ws)
  then show ?case by (cases i) (auto simp: ac_simps split: Worker.splits)
qed simp

lemma in_hand_awake [simp]: "in_hand (map awake ws) = in_hand ws"
  by (induction ws) (auto simp: awake_def split: Worker.splits)

lemma in_hand_awake_one [simp]: "in_hand (ws[i := awake (ws ! i)]) = in_hand ws"
proof (cases "i < length ws")
  case True
  then show ?thesis using in_hand_update [OF True, of "awake (ws ! i)"] by (auto simp: awake_def split: Worker.splits)
qed (simp add: list_update_beyond)

text \<open>Every submitted task is executed, in the hand of a worker, queued, or in a \<^verbatim>\<open>Submit\<close> on its way to
  the queue; tasks are started in the order in which they were queued.\<close>

definition io_inv :: "'t IoWorkerPool \<Rightarrow> bool" where
  "io_inv p \<longleftrightarrow> mset (io_submitted p) = io_executed p + in_hand (io_workers p) + mset (io_queue p) + mset (io_passed p) \<and>
     io_pushed p = io_started p @ io_queue p \<and> (io_running p \<longrightarrow> Exited \<notin> set (io_workers p)) \<and> io_workers p \<noteq> []"

lemma awake_eq_Exited [simp]: "awake w = Exited \<longleftrightarrow> w = Exited" "Exited = awake w \<longleftrightarrow> Exited = w"
  by (simp_all add: awake_def split: Worker.splits)

lemma awake_not_exited: "Exited \<in> set (map awake ws) \<longleftrightarrow> Exited \<in> set ws"
  by (induction ws) auto

lemma not_exited_update:
  "Exited \<notin> set ws \<Longrightarrow> w \<noteq> Exited \<Longrightarrow> Exited \<notin> set (ws[i := w])"
  using set_update_subset_insert [of ws i w] by auto

lemma notify_one_inv:
  assumes "io_inv p" "i < length (io_workers p)"
  shows "io_inv (notify_one i p)"
proof -
  have "io_workers p ! i \<noteq> Exited" if "Exited \<notin> set (io_workers p)" using assms(2) that by (metis nth_mem)
  then show ?thesis
    using assms by (auto simp: io_inv_def notify_one_def dest!: set_update_subset_insert [THEN subsetD])
qed

lemma io_inv_step:
  assumes "io_step p p'" "io_inv p"
  shows "io_inv p'"
  using assms
proof (cases rule: io_step.cases)
  case (submit t)
  then show ?thesis using assms(2) by (simp add: Submit_test_def Let_def io_inv_def)
next
  case (push t)
  then show ?thesis using assms(2) by (simp add: Submit_push_def Let_def io_inv_def)
next
  case (notify ns)
  then show ?thesis using assms(2) by (simp add: notify_all_def io_inv_def awake_not_exited del: set_map)
next
  case (notify_one ns i)
  have "io_inv (p\<lparr>io_notify := ns\<rparr>)" using assms(2) by (simp add: io_inv_def)
  then show ?thesis using notify_one notify_one_inv by fastforce
next
  case stop
  then show ?thesis using assms(2) by (simp add: Stop_set_def io_inv_def)
next
  case stop_notify
  then show ?thesis using assms(2) by (simp add: notify_all_def io_inv_def awake_not_exited del: set_map)
next
  case (check i)
  then show ?thesis
    using assms(2) in_hand_update [OF check(2)]
    by (auto simp: WorkerLoop_check_def io_inv_def not_exited_update split: list.splits)
next
  case (wait i)
  then show ?thesis
    using assms(2) in_hand_update [OF wait(2), of Asleep] by (auto simp: io_inv_def not_exited_update)
next
  case (finish i t)
  then show ?thesis
    using assms(2) in_hand_update [OF finish(2), of Idle]
    by (auto simp: WorkerLoop_done_def io_inv_def not_exited_update)
qed

lemma io_inv_any: "io_step_any p p' \<Longrightarrow> io_inv p \<Longrightarrow> io_inv p'"
  by (induction rule: io_step_any.induct) (auto intro: io_inv_step notify_one_inv)

lemma io_inv_steps: "io_step_any\<^sup>*\<^sup>* p p' \<Longrightarrow> io_inv p \<Longrightarrow> io_inv p'"
  by (induction rule: rtranclp_induct) (auto intro: io_inv_any)

lemma io_inv_init [simp]: "io_inv (IoWorkerPool_init n)"
  by (simp add: io_inv_def IoWorkerPool_init_def)

section \<open>After a stop\<close>

text \<open>No submission is on its way, and a worker that returned left an empty queue behind.\<close>

definition stopped_quiet :: "'t IoWorkerPool \<Rightarrow> bool" where
  "stopped_quiet p \<longleftrightarrow> \<not> io_running p \<and> io_passed p = [] \<and> (Exited \<in> set (io_workers p) \<longrightarrow> io_queue p = [])"

lemma stopped_quiet_step:
  assumes "io_step p p'" "stopped_quiet p"
  shows "stopped_quiet p'"
  using assms(1)
proof (cases rule: io_step.cases)
  case (notify_one ns i)
  then show ?thesis using assms(2)
    by (auto simp: stopped_quiet_def notify_one_def in_set_conv_nth nth_list_update split: if_splits)
next
  case (check i)
  then show ?thesis using assms(2)
    by (auto simp: stopped_quiet_def WorkerLoop_check_def split: list.splits
        dest!: set_update_subset_insert [THEN subsetD])
next
  case (wait i)
  then show ?thesis using assms(2)
    by (auto simp: stopped_quiet_def dest!: set_update_subset_insert [THEN subsetD])
next
  case (finish i t)
  then show ?thesis using assms(2)
    by (auto simp: stopped_quiet_def WorkerLoop_done_def dest!: set_update_subset_insert [THEN subsetD])
qed (use assms(2) in \<open>auto simp: stopped_quiet_def Submit_test_def Stop_set_def notify_all_def Let_def
      awake_not_exited [simplified]\<close>)

lemma stopped_quiet_steps: "io_step_any\<^sup>*\<^sup>* p p' \<Longrightarrow> stopped_quiet p \<Longrightarrow> stopped_quiet p'"
proof (induction rule: rtranclp_induct)
  case (step q r)
  from step.hyps(2) show ?case
  proof cases
    case step
    then show ?thesis using stopped_quiet_step step.IH \<open>stopped_quiet p\<close> by blast
  next
    case (spurious i)
    then show ?thesis using step.IH step.prems
      by (auto simp: stopped_quiet_def notify_one_def in_set_conv_nth nth_list_update split: if_splits)
  qed
qed

lemma in_hand_exited: "set ws \<subseteq> {Exited} \<Longrightarrow> in_hand ws = {#}"
  by (induction ws) auto

text \<open>Once all workers have returned after a quiet stop, everything submitted was executed.\<close>

lemma io_drained:
  assumes "io_inv p" "io_running p" "io_passed p = []" "io_step_any\<^sup>*\<^sup>* (Stop_set p) p'" "set (io_workers p') \<subseteq> {Exited}"
  shows "io_executed p' = mset (io_submitted p') \<and> io_queue p' = []"
proof -
  note inv = assms(1)
  have "stopped_quiet (Stop_set p)"
    using inv assms(2,3) by (simp add: stopped_quiet_def Stop_set_def io_inv_def)
  then have q: "stopped_quiet p'" using stopped_quiet_steps [OF assms(4)] by blast
  have "io_inv (Stop_set p)" using io_inv_step [OF io_step.stop inv] .
  then have inv': "io_inv p'" using io_inv_steps [OF assms(4)] by blast
  then have "Exited \<in> set (io_workers p')" using assms(5) by (cases "io_workers p'") (auto simp: io_inv_def)
  then have "io_queue p' = []" "io_passed p' = []" using q by (auto simp: stopped_quiet_def)
  then show ?thesis using inv' in_hand_exited [OF assms(5)] by (simp add: io_inv_def)
qed

section \<open>Properties\<close>


text \<open>A stop drains the queue. If the pool is stopped while no \<^verbatim>\<open>Submit\<close> is between its test and its push, then
  once all workers have returned (which is when \<^verbatim>\<open>Stop\<close> returns) every task ever submitted was executed exactly
  once, tasks queued before the stop and tasks submitted after it included.\<close>

theorem io_stop_drains:
  assumes "io_step_any\<^sup>*\<^sup>* (IoWorkerPool_init n) p" "io_running p" "io_passed p = []"
    and "io_step_any\<^sup>*\<^sup>* (Stop_set p) p'" "set (io_workers p') \<subseteq> {Exited}"
  shows "io_executed p' = mset (io_submitted p') \<and> io_queue p' = []"
  by (rule io_drained [OF io_inv_steps [OF assms(1) io_inv_init] assms(2-)])

section \<open>Examples\<close>

text \<open>One worker; a task is submitted, the pool is stopped and drained.\<close>

definition example_queued :: "nat IoWorkerPool" where
  "example_queued = Submit_push 7 (Submit_test 7 (IoWorkerPool_init 1))"

definition example_drained :: "nat IoWorkerPool" where
  "example_drained = WorkerLoop_check 0 (WorkerLoop_done 0 7 (WorkerLoop_check 0 (Stop_set example_queued)))"

lemmas io_evals = example_queued_def example_drained_def Submit_push_def Submit_test_def IoWorkerPool_init_def
  WorkerLoop_check_def WorkerLoop_done_def Stop_set_def unlocked_def Let_def

lemma example_queued_reach: "io_step_any\<^sup>*\<^sup>* (IoWorkerPool_init 1) example_queued"
proof -
  have "io_step_any (IoWorkerPool_init 1) (Submit_test (7 :: nat) (IoWorkerPool_init 1))" by (intro io_step_any.step io_step.submit)
  moreover have "io_step_any (Submit_test 7 (IoWorkerPool_init 1)) example_queued"
    unfolding example_queued_def by (intro io_step_any.step io_step.push) (simp_all add: io_evals)
  ultimately show ?thesis by auto
qed

lemma example_drained_reach: "io_step_any\<^sup>*\<^sup>* (Stop_set example_queued) example_drained"
proof -
  let ?a = "WorkerLoop_check 0 (Stop_set example_queued)" and ?s = "Stop_set example_queued"
  have "io_step_any ?s ?a" by (intro io_step_any.step io_step.check) (simp_all add: io_evals)
  moreover have "io_step_any ?a (WorkerLoop_done 0 7 ?a)" by (intro io_step_any.step io_step.finish) (simp_all add: io_evals)
  moreover have "io_step_any (WorkerLoop_done 0 7 ?a) example_drained"
    unfolding example_drained_def by (intro io_step_any.step io_step.check) (simp_all add: io_evals)
  ultimately show ?thesis by auto
qed


theorem io_stop_drains_witness:
  "io_step_any\<^sup>*\<^sup>* (Stop_set example_queued) example_drained \<and> set (io_workers example_drained) \<subseteq> {Exited} \<and>
   io_executed example_drained = {#7#}"
proof -
  have "io_running example_queued" "io_passed example_queued = []" "set (io_workers example_drained) \<subseteq> {Exited}"
    "io_submitted example_drained = [7]"
    by (simp_all add: io_evals)
  then show ?thesis
    using io_stop_drains [OF example_queued_reach _ _ example_drained_reach] example_drained_reach by simp
qed

section \<open>Two races\<close>

text \<open>A \<^verbatim>\<open>Submit\<close> that saw a running pool may push after the workers returned: the task stays in the queue for
  ever and its RPC is never answered.\<close>

lemma late_push_is_lost:
  "\<exists>p. io_step\<^sup>*\<^sup>* (IoWorkerPool_init 1 :: nat IoWorkerPool) p \<and> set (io_workers p) \<subseteq> {Exited} \<and> io_queue p = [7] \<and>
     7 \<notin># io_executed p"
proof -
  let ?a = "Submit_test 7 (IoWorkerPool_init 1) :: nat IoWorkerPool"
  let ?b = "WorkerLoop_check 0 (Stop_set ?a)"
  let ?c = "Submit_push 7 ?b"
  have "io_step (IoWorkerPool_init 1) ?a" "io_step ?a (Stop_set ?a)" by (rule io_step.submit io_step.stop)+
  moreover have "io_step (Stop_set ?a) ?b" by (rule io_step.check) (simp_all add: io_evals)
  moreover have "io_step ?b ?c" by (rule io_step.push) (simp_all add: io_evals)
  ultimately have "io_step\<^sup>*\<^sup>* (IoWorkerPool_init 1) ?c" by auto
  moreover have "set (io_workers ?c) \<subseteq> {Exited}" "io_queue ?c = [7]" "7 \<notin># io_executed ?c" by (simp_all add: io_evals)
  ultimately show ?thesis by blast
qed

text \<open>\<^verbatim>\<open>Stop\<close> changes \<^verbatim>\<open>running_\<close> and notifies without the lock. A worker that tested it before and waits after
  is not woken by anything the pool still does, so that the join in \<^verbatim>\<open>Stop\<close> depends on a spurious wake-up.\<close>

lemma stop_wakeup_lost:
  "\<exists>p. io_step\<^sup>*\<^sup>* (IoWorkerPool_init 1 :: nat IoWorkerPool) p \<and> \<not> io_running p \<and>
     (\<forall>p'. io_step\<^sup>*\<^sup>* p p' \<longrightarrow> io_workers p' = [Asleep])"
proof -
  let ?i = "IoWorkerPool_init 1 :: nat IoWorkerPool"
  let ?a = "WorkerLoop_check 0 ?i"
  let ?b = "Stop_set ?a"
  let ?c = "notify_all (?b\<lparr>io_stop_notify := False\<rparr>)"
  let ?d = "?c\<lparr>io_workers := (io_workers ?c)[0 := Asleep]\<rparr>"
  have "io_step ?i ?a" by (rule io_step.check) (simp_all add: io_evals)
  moreover have "io_step ?a ?b" by (rule io_step.stop)
  moreover have "io_step ?b ?c" by (rule io_step.stop_notify) (simp add: io_evals)
  moreover have "io_step ?c ?d" by (rule io_step.wait) (simp_all add: io_evals notify_all_def awake_def)
  ultimately have reach: "io_step\<^sup>*\<^sup>* ?i ?d" by auto
  define hung :: "nat IoWorkerPool \<Rightarrow> bool" where
    "hung p \<longleftrightarrow> io_workers p = [Asleep] \<and> \<not> io_running p \<and> io_passed p = [] \<and> io_notify p = [] \<and> \<not> io_stop_notify p" for p
  have step: "hung p'" if "io_step p p'" "hung p" for p p'
    using that by (cases rule: io_step.cases) (auto simp: hung_def Submit_test_def Stop_set_def Let_def)
  have d: "hung ?d" by (simp add: hung_def io_evals notify_all_def awake_def)
  have "hung q'" if "io_step\<^sup>*\<^sup>* q q'" "hung q" for q q'
    using that by (induction rule: rtranclp_induct) (use step in auto)
  then show ?thesis using reach d unfolding hung_def by blast
qed

end
