(* ===== verification/Rpc_Messages.thy ===== *)
theory Rpc_Messages
  imports Common_Types
begin

text \<open>
  The protobuf messages of the RPC services (\<^verbatim>\<open>gateway/proto/control_plane.proto\<close> and
  \<^verbatim>\<open>gateway/proto/rdma_data_plane.proto\<close>) as records, shared by the gateway, the proxy, the data backend and the
  client SDK. Unsigned fields are natural numbers, maps are partial functions except for the response headers
  of \<^verbatim>\<open>HeadObject\<close>, which are listed in the order the gateway adds them.
\<close>

type_synonym 'r rpc = "string + 'r"

record OpenSessionRequest =
  osr_request_id :: string
  osr_session_id :: string
  osr_bucket :: string
  osr_object_key :: string
  osr_op_type :: string
  osr_data_flow :: string
  osr_buffer_type :: string
  osr_offset :: nat
  osr_expected_size :: nat
  osr_idempotency_key :: string
  osr_is_multipart_part :: bool

record OpenSessionResponse =
  osp_request_id :: string
  osp_session_id :: string
  osp_ticket :: string
  osp_gateway_id :: string
  osp_data_endpoint :: string
  osp_expire_at :: string

record GdsChunkRequest =
  gcr_request_id :: string
  gcr_session_id :: string
  gcr_transfer_ticket :: string
  gcr_bucket :: string
  gcr_object_key :: string
  gcr_data_flow :: string
  gcr_buffer_type :: string
  gcr_checksum_policy :: string
  gcr_chunk_offset :: nat
  gcr_chunk_size :: nat
  gcr_rdma_token :: string
  gcr_extra_headers :: "string \<rightharpoonup> string"
  gcr_upload_id :: string
  gcr_part_number :: nat

record GdsChunkResponse =
  gcp_selected_gateway :: string
  gcp_gateway_id :: string
  gcp_transfer_status :: string
  gcp_rdma_reply :: string
  gcp_etag :: string
  gcp_version :: string
  gcp_crc32c :: "32 word"
  gcp_bytes_received :: nat

record HeadObjectResponse =
  hor_content_length :: nat
  hor_etag :: string
  hor_version :: string
  hor_headers :: "(string \<times> string) list"

record StartUploadRequest =
  su_bucket :: string
  su_object_key :: string
  su_expected_total_size :: nat
  su_data_flow :: string
  su_idempotency_key :: string

record CompleteUploadRequest =
  cur_upload_id :: string
  cur_parts :: "(nat \<times> string) list"
  cur_data_flow :: string

record StartUploadResponse =
  sur_upload_id :: string
  sur_max_part_size :: nat

record CompleteUploadResponse =
  cup_etag :: string
  cup_version :: string
  cup_content_length :: nat

record ReportGdsPutRequest =
  rgr_session_id :: string
  rgr_etag :: string
  rgr_crc32c :: "32 word"
  rgr_bytes_transferred :: nat

record RdmaDiscoverResponse =
  rdr_host :: string
  rdr_max_msg_bytes :: nat
  rdr_ucx_port :: nat
  rdr_gw_raddr :: nat
  rdr_gw_packed_rkey :: bytes

record RdmaCommitRequest =
  rcr_session_id :: string
  rcr_bytes_transferred :: nat
  rcr_client_checksum :: string

record RdmaCommitResponse =
  rcp_etag :: string
  rcp_version :: string

record RdmaCommitPartRequest =
  rpr_session_id :: string
  rpr_upload_id :: string
  rpr_part_number :: nat
  rpr_bytes_transferred :: nat
  rpr_client_checksum :: string

end
