(* ===== verification/Client_Types.thy ===== *)
theory Client_Types
  imports Rpc_Messages "HOL-Library.State_Monad"
begin

text \<open>
  The vocabulary of the client SDK: the public types and options (\<^verbatim>\<open>client/types.h\<close>, \<^verbatim>\<open>client/options.h\<close>), its
  errors, results and statuses (\<^verbatim>\<open>client/result.h\<close>, \<^verbatim>\<open>client/status.h\<close>, \<^verbatim>\<open>core/common/errors.cpp\<close>), and the
  builders of RPC payloads (\<^verbatim>\<open>core/contracts\<close>). Stateful client code is written in the state monad over
  the state of the client process and its surroundings.
\<close>

section \<open>Public types\<close>

text \<open>The client's \<^verbatim>\<open>DataFlow\<close>, \<^verbatim>\<open>OperationType\<close> and \<^verbatim>\<open>ErrorCode\<close> have the constructors of the gateway's.\<close>

datatype BufferType = kHostRegular | kHostPinned | kCudaDevice

fun ClientDataFlow_ToString :: "DataFlow \<Rightarrow> string" where
  "ClientDataFlow_ToString NONE = ''none''"
| "ClientDataFlow_ToString GPUDirect = ''gpu-direct''"
| "ClientDataFlow_ToString CPUDirect = ''cpu-direct''"

fun BufferType_ToString :: "BufferType \<Rightarrow> string" where
  "BufferType_ToString kHostRegular = ''host-regular''"
| "BufferType_ToString kHostPinned = ''host-pinned''"
| "BufferType_ToString kCudaDevice = ''cuda-device''"

fun ClientOperationType_ToString :: "OperationType \<Rightarrow> string" where
  "ClientOperationType_ToString kGet = ''GET''"
| "ClientOperationType_ToString kPut = ''PUT''"
| "ClientOperationType_ToString kHead = ''HEAD''"

type_synonym headers = "string \<rightharpoonup> string"

record ObjectDescriptor =
  od_bucket :: string
  od_key :: string
  od_data_flow :: DataFlow
  od_checksum_policy :: string
  od_offset :: "nat option"
  od_length :: "nat option"
  od_expected_total_size :: "nat option"
  od_idempotency_key :: string

record TransferProgress =
  tp_bytes_completed :: nat
  tp_bytes_total :: nat
  tp_data_flow :: DataFlow

text \<open>A request carries whether a progress callback is installed; the calls it receives are recorded in
  the state. Durations are milliseconds.\<close>

record PutObjectRequest =
  put_bucket :: string
  put_key :: string
  put_timeout_ms :: int
  put_extra_headers :: headers
  put_checksum_policy :: string
  put_idempotency_key :: string
  put_progress_callback :: bool

record GetObjectRequest =
  get_bucket :: string
  get_key :: string
  get_offset :: nat
  get_length :: "nat option"
  get_timeout_ms :: int
  get_extra_headers :: headers
  get_checksum_policy :: string
  get_progress_callback :: bool

definition PutObjectRequest_default :: PutObjectRequest where
  "PutObjectRequest_default =
     \<lparr>put_bucket = [], put_key = [], put_timeout_ms = 30000, put_extra_headers = Map.empty,
      put_checksum_policy = ''none'', put_idempotency_key = [], put_progress_callback = False\<rparr>"

definition GetObjectRequest_default :: GetObjectRequest where
  "GetObjectRequest_default =
     \<lparr>get_bucket = [], get_key = [], get_offset = 0, get_length = None, get_timeout_ms = 30000,
      get_extra_headers = Map.empty, get_checksum_policy = ''none'', get_progress_callback = False\<rparr>"

text \<open>\<^verbatim>\<open>MutableBufferView\<close> and \<^verbatim>\<open>ConstBufferView\<close>: an address (0 is the null pointer), a size and the
  kind of memory.\<close>

record BufferView =
  bv_data :: nat
  bv_size :: nat
  bv_type :: BufferType

record ClientObjectMetadata =
  cm_content_length :: nat
  cm_etag :: string
  cm_version :: string
  cm_headers :: headers

record TransferOutcome =
  to_selected_flow :: DataFlow
  to_bytes_transferred :: nat
  to_request_id :: string
  to_session_id :: string
  to_transfer_status :: string
  to_gateway_id :: string
  to_rdma_reply :: string
  to_etag :: string
  to_version :: string
  to_server_crc32c :: "32 word option"

definition TransferOutcome_default :: TransferOutcome where
  "TransferOutcome_default =
     \<lparr>to_selected_flow = NONE, to_bytes_transferred = 0, to_request_id = [], to_session_id = [],
      to_transfer_status = [], to_gateway_id = [], to_rdma_reply = [], to_etag = [], to_version = [],
      to_server_crc32c = None\<rparr>"

record PlatformCapabilities =
  cuda_runtime_available :: bool
  gpu_available :: bool
  cuobject_available :: bool

section \<open>Options\<close>

record GdsClientOptions =
  parallel_get_threshold :: nat
  parallel_get_chunks :: nat
  put_single_max_bytes :: nat

text \<open>Of the HTTP options only those read by \<^verbatim>\<open>MakeRetryPolicy\<close>: no HTTP path is left in the client.\<close>

record HttpClientOptions =
  max_retry_attempts :: int
  retry_initial_backoff :: int
  retry_max_backoff :: int

record RdmaClientOptions =
  rdma_max_msg_bytes :: nat
  pool_max_idle_per_endpoint :: nat
  rdma_send_crc32c :: bool

record ClientOptions =
  o_endpoint :: string
  o_client_id :: string
  o_bearer_token :: string
  o_default_headers :: headers
  o_default_timeout :: int
  o_request_timeout :: int
  o_head_timeout :: int
  o_put_timeout :: int
  o_get_timeout :: int
  o_gds_data_endpoint :: string
  o_data_flow :: DataFlow
  o_async_worker_threads :: nat
  o_gds :: GdsClientOptions
  o_rdma :: RdmaClientOptions
  o_http :: HttpClientOptions

definition GdsClientOptions_default :: GdsClientOptions where
  "GdsClientOptions_default =
     \<lparr>parallel_get_threshold = 67108864, parallel_get_chunks = 4, put_single_max_bytes = 1073741824\<rparr>"

definition HttpClientOptions_default :: HttpClientOptions where
  "HttpClientOptions_default = \<lparr>max_retry_attempts = 3, retry_initial_backoff = 100, retry_max_backoff = 2000\<rparr>"

definition RdmaClientOptions_default :: RdmaClientOptions where
  "RdmaClientOptions_default =
     \<lparr>rdma_max_msg_bytes = 4294967296, pool_max_idle_per_endpoint = 8, rdma_send_crc32c = False\<rparr>"

definition ClientOptions_default :: ClientOptions where
  "ClientOptions_default =
     \<lparr>o_endpoint = [], o_client_id = ''us3-turbo-access-client'', o_bearer_token = [], o_default_headers = Map.empty,
      o_default_timeout = 30000, o_request_timeout = 300000, o_head_timeout = 0, o_put_timeout = 0, o_get_timeout = 0,
      o_gds_data_endpoint = [], o_data_flow = NONE, o_async_worker_threads = 0, o_gds = GdsClientOptions_default,
      o_rdma = RdmaClientOptions_default, o_http = HttpClientOptions_default\<rparr>"

section \<open>Errors, results, statuses\<close>

record ClientError =
  ce_code :: ErrorCode
  ce_message :: string
  ce_retryable :: bool
  ce_failed_path :: string
  ce_request_id :: string

type_synonym 'a cresult = "ClientError + 'a"

definition ClientMakeError :: "ErrorCode \<Rightarrow> string \<Rightarrow> bool \<Rightarrow> string \<Rightarrow> string \<Rightarrow> ClientError" where
  "ClientMakeError c m r p i =
     \<lparr>ce_code = c, ce_message = m, ce_retryable = r, ce_failed_path = p, ce_request_id = i\<rparr>"

text \<open>\<^verbatim>\<open>Status\<close>: success, or the error it was built from; an error whose code is \<^verbatim>\<open>kSuccess\<close> still counts as
  success.\<close>

record Status =
  st_ok :: bool
  st_error :: "ClientError option"

definition Status_Ok :: Status where
  "Status_Ok = \<lparr>st_ok = True, st_error = None\<rparr>"

definition Status_FromError :: "ClientError \<Rightarrow> Status" where
  "Status_FromError e = \<lparr>st_ok = (ce_code e = kSuccess), st_error = Some e\<rparr>"

definition MakeNotInitialized :: "string \<Rightarrow> ClientError" where
  "MakeNotInitialized component =
     ClientMakeError kInternal (component @ '' is not initialized. Call Client::Initialize first.'') True [] []"

definition MakeInvalidArgument :: "string \<Rightarrow> ClientError" where
  "MakeInvalidArgument m = ClientMakeError kInvalidArgument m False [] []"

definition MakeUnsupportedPath :: "DataFlow \<Rightarrow> string \<Rightarrow> ClientError" where
  "MakeUnsupportedPath path m = ClientMakeError kUnsupported m False (ClientDataFlow_ToString path) []"

definition MakeTransportFailure :: "string \<Rightarrow> DataFlow \<Rightarrow> string \<Rightarrow> bool \<Rightarrow> ClientError" where
  "MakeTransportFailure m path rid retryable =
     ClientMakeError kTransportError m retryable (ClientDataFlow_ToString path) rid"

definition MakeRegistrationFailure :: "string \<Rightarrow> ClientError" where
  "MakeRegistrationFailure m = ClientMakeError kRegistrationFailed m False [] []"

text \<open>What a failed \<^verbatim>\<open>brpc::Controller\<close> reports: an error code, of which two mean a timeout, and a text.\<close>

datatype brpc_errno = ERPCTIMEDOUT | ETIMEDOUT | OtherErrno int

record RpcFailure =
  rf_code :: brpc_errno
  rf_text :: string

definition MakeRpcFailure :: "RpcFailure \<Rightarrow> string \<Rightarrow> DataFlow \<Rightarrow> string \<Rightarrow> ClientError" where
  "MakeRpcFailure c m path rid =
     (let is_timeout = (rf_code c = ERPCTIMEDOUT \<or> rf_code c = ETIMEDOUT) in
      ClientMakeError (if is_timeout then kTimeout else kControlPlaneError) (m @ '': '' @ rf_text c) True
        (ClientDataFlow_ToString path) rid)"

definition CheckRpcFailure :: "(RpcFailure + 'r) \<Rightarrow> string \<Rightarrow> DataFlow \<Rightarrow> string \<Rightarrow> bool cresult" where
  "CheckRpcFailure c m path rid = (case c of Inr _ \<Rightarrow> Inr True | Inl f \<Rightarrow> Inl (MakeRpcFailure f m path rid))"

lemmas client_errors = ClientMakeError_def MakeNotInitialized_def MakeInvalidArgument_def MakeUnsupportedPath_def
  MakeTransportFailure_def MakeRegistrationFailure_def MakeRpcFailure_def

section \<open>RPC context\<close>

record RpcCallMetadata =
  rc_client_id :: string
  rc_bearer_token :: string
  rc_default_headers :: headers
  rc_timeout :: int

record Controller =
  ct_headers :: headers
  ct_timeout_ms :: int

definition to_int32 :: "int \<Rightarrow> int" where
  "to_int32 i = sint (word_of_int i :: 32 word)"

definition ApplyRequestHeaders :: "RpcCallMetadata \<Rightarrow> Controller" where
  "ApplyRequestHeaders c =
     (let h = rc_default_headers c;
          h = (if rc_client_id c \<noteq> [] then h(''x-fa-client-id'' \<mapsto> rc_client_id c) else h);
          h = (if rc_bearer_token c \<noteq> [] then h(''Authorization'' \<mapsto> ''Bearer '' @ rc_bearer_token c) else h) in
      \<lparr>ct_headers = h, ct_timeout_ms = to_int32 (rc_timeout c)\<rparr>)"

definition ApplyRequestTimeout :: "ClientOptions \<Rightarrow> Controller" where
  "ApplyRequestTimeout opts = \<lparr>ct_headers = Map.empty, ct_timeout_ms = to_int32 (o_request_timeout opts)\<rparr>"

fun PerOpTimeout :: "ClientOptions \<Rightarrow> OperationType \<Rightarrow> int" where
  "PerOpTimeout opts kHead = (if o_head_timeout opts > 0 then o_head_timeout opts else o_request_timeout opts)"
| "PerOpTimeout opts kPut = (if o_put_timeout opts > 0 then o_put_timeout opts else o_request_timeout opts)"
| "PerOpTimeout opts kGet = (if o_get_timeout opts > 0 then o_get_timeout opts else o_request_timeout opts)"

definition MakeRpcContext :: "ClientOptions \<Rightarrow> int \<Rightarrow> OperationType \<Rightarrow> RpcCallMetadata" where
  "MakeRpcContext opts timeout op =
     \<lparr>rc_client_id = o_client_id opts, rc_bearer_token = o_bearer_token opts,
      rc_default_headers = o_default_headers opts,
      rc_timeout = (if timeout \<le> 0 then PerOpTimeout opts op else timeout)\<rparr>"

section \<open>Payload builders\<close>

record SessionPlan =
  sp_operation :: OperationType
  sp_bucket :: string
  sp_key :: string
  sp_offset :: nat
  sp_length :: "nat option"
  sp_timeout :: int
  sp_idempotency_key :: string
  sp_buffer_type :: BufferType
  sp_path :: DataFlow
  sp_is_multipart_part :: bool

record SessionOpening =
  sn_context :: RpcCallMetadata
  sn_operation :: OperationType
  sn_bucket :: string
  sn_key :: string
  sn_data_flow :: DataFlow
  sn_buffer_type :: BufferType
  sn_offset :: nat
  sn_length :: "nat option"
  sn_request_id :: string
  sn_session_id :: string
  sn_idempotency_key :: string
  sn_is_multipart_part :: bool

record ObjectRequest =
  or_bucket :: string
  or_key :: string
  or_offset :: nat
  or_length :: "nat option"
  or_data_flow :: DataFlow
  or_buffer_type :: BufferType
  or_checksum_policy :: string
  or_extra_headers :: headers

record ChunkOpPlan =
  pl_operation :: OperationType
  pl_bucket :: string
  pl_key :: string
  pl_offset :: nat
  pl_length :: "nat option"
  pl_checksum_policy :: string
  pl_extra_headers :: headers
  pl_timeout :: int
  pl_buffer_type :: BufferType
  pl_path :: DataFlow
  pl_request_id :: string
  pl_session_id :: string
  pl_ticket :: string
  pl_rdma_token :: string
  pl_chunk_offset :: nat
  pl_chunk_size :: nat
  pl_upload_id :: string
  pl_part_number :: nat

record ChunkOp =
  ck_context :: RpcCallMetadata
  ck_object :: ObjectRequest
  ck_operation :: OperationType
  ck_request_id :: string
  ck_session_id :: string
  ck_transfer_ticket :: string
  ck_rdma_token :: string
  ck_chunk_offset :: nat
  ck_chunk_size :: nat
  ck_upload_id :: string
  ck_part_number :: nat

record TransferSession =
  ts_request_id :: string
  ts_session_id :: string
  ts_ticket :: string
  ts_expire_at :: string
  ts_gateway_id :: string

text \<open>\<^verbatim>\<open>MakeId\<close> prints one output of the engine, given here as an argument, with sixteen digits.\<close>

definition MakeId :: "string \<Rightarrow> nat \<Rightarrow> string" where
  "MakeId prefix v = prefix @ zero_pad 16 (hex v)"

definition MakeSessionHandshake :: "ClientOptions \<Rightarrow> nat \<Rightarrow> nat \<Rightarrow> SessionPlan \<Rightarrow> SessionOpening" where
  "MakeSessionHandshake opts r1 r2 p =
     \<lparr>sn_context = MakeRpcContext opts (sp_timeout p) (sp_operation p), sn_operation = sp_operation p,
      sn_bucket = sp_bucket p, sn_key = sp_key p, sn_data_flow = sp_path p, sn_buffer_type = sp_buffer_type p,
      sn_offset = sp_offset p, sn_length = sp_length p, sn_request_id = MakeId ''req-'' r1,
      sn_session_id = MakeId ''ses-'' r2, sn_idempotency_key = sp_idempotency_key p,
      sn_is_multipart_part = sp_is_multipart_part p\<rparr>"

definition MakeChunkOp :: "ClientOptions \<Rightarrow> ChunkOpPlan \<Rightarrow> ChunkOp" where
  "MakeChunkOp opts p =
     \<lparr>ck_context = MakeRpcContext opts (pl_timeout p) (pl_operation p),
      ck_object = \<lparr>or_bucket = pl_bucket p, or_key = pl_key p, or_offset = pl_offset p, or_length = pl_length p,
        or_data_flow = pl_path p, or_buffer_type = pl_buffer_type p, or_checksum_policy = pl_checksum_policy p,
        or_extra_headers = pl_extra_headers p\<rparr>,
      ck_operation = pl_operation p, ck_request_id = pl_request_id p, ck_session_id = pl_session_id p,
      ck_transfer_ticket = pl_ticket p, ck_rdma_token = pl_rdma_token p, ck_chunk_offset = pl_chunk_offset p,
      ck_chunk_size = pl_chunk_size p, ck_upload_id = pl_upload_id p, ck_part_number = pl_part_number p\<rparr>"

definition ImportSession :: "OpenSessionResponse \<Rightarrow> TransferSession" where
  "ImportSession r =
     \<lparr>ts_request_id = osp_request_id r, ts_session_id = osp_session_id r, ts_ticket = osp_ticket r,
      ts_expire_at = osp_expire_at r,
      ts_gateway_id = (if osp_gateway_id r = [] then ''gateway-local'' else osp_gateway_id r)\<rparr>"

section \<open>Facts\<close>

lemma ClientMakeError_fields [simp]:
  "ce_code (ClientMakeError c m r p i) = c" "ce_retryable (ClientMakeError c m r p i) = r"
  "ce_message (ClientMakeError c m r p i) = m"
  by (simp_all add: ClientMakeError_def)

text \<open>The names the client sends are the names the gateway parses.\<close>

lemma gateway_parses_client_names [simp]:
  "ParseDataFlow (ClientDataFlow_ToString f) = f" "ParseOperationType (ClientOperationType_ToString op) = op"
  by (cases f; simp add: ParseDataFlow_def) (cases op; simp add: ParseOperationType_def)

lemma to_int32_exact: "- (2 ^ 31) \<le> i \<Longrightarrow> i < 2 ^ 31 \<Longrightarrow> to_int32 i = i"
  unfolding to_int32_def by (subst signed_of_int) (simp add: signed_take_bit_int_eq_self)

text \<open>A request left with its default timeout never reaches the per-operation timeouts of the options.\<close>

lemma default_timeout_shadows_options:
  "rc_timeout (MakeRpcContext opts (put_timeout_ms PutObjectRequest_default) kPut) = 30000"
  "rc_timeout (MakeRpcContext opts (get_timeout_ms GetObjectRequest_default) kGet) = 30000"
  by (simp_all add: MakeRpcContext_def PutObjectRequest_default_def GetObjectRequest_default_def)

end
