(* ===== verification/Client_State.thy ===== *)
theory Client_State
  imports Client_Types Complex_Main
begin

text \<open>
  The state of a client process and what it calls outside the repository. A \<^verbatim>\<open>Platform\<close> collects the clock, the
  random engine, brpc (one operation per RPC, addressed to the endpoint a channel was initialised with), the cuObject
  library (\<^verbatim>\<open>struct CuObjApi\<close> of \<^verbatim>\<open>transports/gds/cuobj_library.h\<close>) and UCX, each as an arbitrary function on an arbitrary
  outside world. \<^verbatim>\<open>ClientState\<close> holds the mutable members of the client's classes, and the retry wrapper of
  \<^verbatim>\<open>core/routing/retry_policy.h\<close> is defined here because every transfer path uses it.
\<close>

section \<open>The outside\<close>

type_synonym ('w, 'a) call = "'w \<Rightarrow> 'a \<times> 'w"

record EpSlot =
  ep :: "nat option"
  rkey :: "nat option"

record 'w Platform =
  p_now :: "('w, int) call"
  p_random :: "('w, nat) call"
  p_jitter :: "('w, real) call"
  p_sleep_ms :: "int \<Rightarrow> ('w, unit) call"
  p_ChannelInit :: "string \<Rightarrow> ('w, bool) call"
  p_OpenSession :: "string \<Rightarrow> Controller \<Rightarrow> OpenSessionRequest \<Rightarrow> ('w, RpcFailure + OpenSessionResponse) call"
  p_HeadObject :: "string \<Rightarrow> Controller \<Rightarrow> string \<Rightarrow> string \<Rightarrow> ('w, RpcFailure + HeadObjectResponse) call"
  p_GdsGet :: "string \<Rightarrow> Controller \<Rightarrow> GdsChunkRequest \<Rightarrow> ('w, RpcFailure + GdsChunkResponse) call"
  p_GdsPut :: "string \<Rightarrow> Controller \<Rightarrow> GdsChunkRequest \<Rightarrow> ('w, RpcFailure + GdsChunkResponse) call"
  p_AbortSession :: "string \<Rightarrow> Controller \<Rightarrow> string \<Rightarrow> ('w, RpcFailure + bool) call"
  p_StartUpload :: "string \<Rightarrow> Controller \<Rightarrow> StartUploadRequest \<Rightarrow> ('w, RpcFailure + StartUploadResponse) call"
  p_CompleteUpload :: "string \<Rightarrow> Controller \<Rightarrow> CompleteUploadRequest \<Rightarrow> ('w, RpcFailure + CompleteUploadResponse) call"
  p_AbortUpload :: "string \<Rightarrow> Controller \<Rightarrow> string \<Rightarrow> string \<Rightarrow> ('w, RpcFailure + unit) call"
  p_DiscoverRdmaEndpoint :: "string \<Rightarrow> Controller \<Rightarrow> string \<Rightarrow> nat \<Rightarrow> ('w, RpcFailure + RdmaDiscoverResponse) call"
  p_CommitObject :: "string \<Rightarrow> Controller \<Rightarrow> RdmaCommitRequest \<Rightarrow> ('w, RpcFailure + RdmaCommitResponse) call"
  p_CommitPart :: "string \<Rightarrow> Controller \<Rightarrow> RdmaCommitPartRequest \<Rightarrow> ('w, RpcFailure + string) call"
  p_RdmaAbortSession :: "string \<Rightarrow> Controller \<Rightarrow> string \<Rightarrow> ('w, RpcFailure + bool) call"
  p_dlopen :: "string \<Rightarrow> ('w, nat option) call"
  p_dlsym :: "nat \<Rightarrow> string \<Rightarrow> ('w, bool) call"
  p_dlclose :: "nat \<Rightarrow> ('w, unit) call"
  p_constructor :: "('w, unit) call"
  p_destructor :: "('w, unit) call"
  p_is_connected :: "('w, bool) call"
  p_get_descriptor :: "nat \<Rightarrow> nat \<Rightarrow> ('w, bool) call"
  p_put_descriptor :: "nat \<Rightarrow> ('w, bool) call"
  p_get_rdma_token :: "nat \<Rightarrow> nat \<Rightarrow> nat \<Rightarrow> bool \<Rightarrow> ('w, string option) call"
  p_put_rdma_token :: "string \<Rightarrow> ('w, unit) call"
  p_inet_pton :: "string \<Rightarrow> bool"
  p_ep_create :: "string \<Rightarrow> nat \<Rightarrow> ('w, string + nat) call"
  p_rkey_unpack :: "nat \<Rightarrow> bytes \<Rightarrow> ('w, string + nat) call"
  p_rkey_destroy :: "nat \<Rightarrow> ('w, unit) call"
  p_ep_close :: "nat \<Rightarrow> ('w, unit) call"
  p_put_nbx :: "nat \<Rightarrow> nat \<Rightarrow> nat \<Rightarrow> nat \<Rightarrow> nat \<Rightarrow> int \<Rightarrow> ('w, string option option) call"
  p_am_send_nbx :: "nat \<Rightarrow> string \<Rightarrow> int \<Rightarrow> ('w, string option option) call"
  p_crc32c :: "nat \<Rightarrow> nat \<Rightarrow> ('w, 32 word) call"
  p_base64 :: "bytes \<Rightarrow> string"

section \<open>The client's state\<close>

record ChannelRegistry =
  ch_endpoint :: string
  ch_baidu :: "string option"
  ch_gds_data :: "string option"
  ch_last_init_error :: "ClientError option"

record 'w ClientState =
  cw :: 'w
  channels :: ChannelRegistry
  metadata_stub :: "string option"
  gds_stub :: "string option"
  rdma_stub :: "string option"
  cuobj_library :: "nat cresult option"
  cuobj_holder :: "unit cresult option"
  registered :: "nat \<rightharpoonup> nat"
  idle :: "string \<Rightarrow> EpSlot list"
  progress_log :: "TransferProgress list"

type_synonym ('w, 'a) client = "('w ClientState, 'a) state"

definition ext :: "('w, 'a) call \<Rightarrow> ('w, 'a) client" where
  "ext f = State (\<lambda>s. case f (cw s) of (x, w) \<Rightarrow> (x, s\<lparr>cw := w\<rparr>))"

definition gets :: "('s \<Rightarrow> 'a) \<Rightarrow> ('s, 'a) state" where
  "gets f = State (\<lambda>s. (f s, s))"

definition modify :: "('s \<Rightarrow> 's) \<Rightarrow> ('s, unit) state" where
  "modify f = State (\<lambda>s. ((), f s))"

abbreviation ret :: "'a \<Rightarrow> ('s, 'a) state" where
  "ret \<equiv> State_Monad.return"

text \<open>\<^verbatim>\<open>if (!r.success()) return Failure(r.error());\<close> followed by the use of \<^verbatim>\<open>r.value()\<close>.\<close>

definition or_fail :: "'a cresult \<Rightarrow> ('a \<Rightarrow> ('s, 'b cresult) state) \<Rightarrow> ('s, 'b cresult) state" where
  "or_fail r f = (case r of Inl e \<Rightarrow> ret (Inl e) | Inr x \<Rightarrow> f x)"

definition report_progress :: "bool \<Rightarrow> nat \<Rightarrow> nat \<Rightarrow> DataFlow \<Rightarrow> ('w, unit) client" where
  "report_progress callback completed total_bytes flow =
     (if callback
      then modify (\<lambda>s. s\<lparr>progress_log := progress_log s @
             [\<lparr>tp_bytes_completed = completed, tp_bytes_total = total_bytes, tp_data_flow = flow\<rparr>]\<rparr>)
      else ret ())"

lemma run_ext [simp]: "run_state (ext f) s = (case f (cw s) of (x, w) \<Rightarrow> (x, s\<lparr>cw := w\<rparr>))"
  by (simp add: ext_def)

lemma run_gets [simp]: "run_state (gets f) s = (f s, s)"
  by (simp add: gets_def)

lemma run_modify [simp]: "run_state (modify f) s = ((), f s)"
  by (simp add: modify_def)

lemma or_fail_simps [simp]: "or_fail (Inl e) f = ret (Inl e)" "or_fail (Inr x) f = f x"
  by (simp_all add: or_fail_def)

section \<open>Reasoning about client code\<close>

text \<open>An outside call that leaves a view of the world as it was.\<close>

definition quiet :: "('w \<Rightarrow> 'b) \<Rightarrow> ('w, 'a) call \<Rightarrow> bool" where
  "quiet f c \<longleftrightarrow> (\<forall>w. f (snd (c w)) = f w)"

lemma quietD: "quiet f c \<Longrightarrow> f (snd (c w)) = f w"
  by (simp add: quiet_def)

text \<open>\<^verbatim>\<open>preserves I m\<close>: running \<^verbatim>\<open>m\<close> keeps the invariant; \<^verbatim>\<open>unchanged f m\<close>: it leaves the view \<^verbatim>\<open>f\<close> of the state as it was.\<close>

named_theorems mon_intros \<open>invariants of monadic code\<close>

definition preserves :: "('s \<Rightarrow> bool) \<Rightarrow> ('s, 'a) state \<Rightarrow> bool" where
  "preserves I m \<longleftrightarrow> (\<forall>s. I s \<longrightarrow> I (snd (run_state m s)))"

definition unchanged :: "('s \<Rightarrow> 'b) \<Rightarrow> ('s, 'a) state \<Rightarrow> bool" where
  "unchanged f m \<longleftrightarrow> (\<forall>s. f (snd (run_state m s)) = f s)"

lemma preserves_bind [mon_intros]:
  "preserves I m \<Longrightarrow> (\<And>x. preserves I (k x)) \<Longrightarrow> preserves I (m \<bind> k)"
  by (simp add: preserves_def split_beta)

lemma preserves_ret [mon_intros]: "preserves I (ret x)" "preserves I (gets f)"
  by (simp_all add: preserves_def)

lemma preserves_or_fail [mon_intros]: "(\<And>x. preserves I (k x)) \<Longrightarrow> preserves I (or_fail r k)"
  by (simp add: or_fail_def preserves_ret split: sum.split)

lemma preserves_cases [mon_intros]:
  "(b \<Longrightarrow> preserves I m) \<Longrightarrow> (\<not> b \<Longrightarrow> preserves I n) \<Longrightarrow> preserves I (if b then m else n)"
  "preserves I m \<Longrightarrow> (\<And>x. preserves I (k x)) \<Longrightarrow> preserves I (case ox of None \<Rightarrow> m | Some x \<Rightarrow> k x)"
  "(\<And>e. preserves I (h e)) \<Longrightarrow> (\<And>x. preserves I (k x)) \<Longrightarrow> preserves I (case r of Inl e \<Rightarrow> h e | Inr x \<Rightarrow> k x)"
  "(\<And>x y. preserves I (g x y)) \<Longrightarrow> preserves I (case p of (x, y) \<Rightarrow> g x y)"
  by (simp_all split: option.split sum.split prod.split)

lemma preserves_modify: "(\<And>s. I s \<Longrightarrow> I (f s)) \<Longrightarrow> preserves I (modify f)"
  by (simp add: preserves_def)

lemma preserves_ext: "(\<And>s. I s \<Longrightarrow> I (s\<lparr>cw := snd (c (cw s))\<rparr>)) \<Longrightarrow> preserves I (ext c)"
  by (simp add: preserves_def split_beta)

lemma preservesD: "preserves I m \<Longrightarrow> run_state m s = (x, s') \<Longrightarrow> I s \<Longrightarrow> I s'"
  by (metis preserves_def snd_conv)

lemma unchanged_preserves: "unchanged f m \<longleftrightarrow> (\<forall>v. preserves (\<lambda>s. f s = v) m)"
  by (auto simp: unchanged_def preserves_def)

lemma unchangedI: "(\<And>v. preserves (\<lambda>s. f s = v) m) \<Longrightarrow> unchanged f m"
  by (simp add: unchanged_preserves)

lemma unchangedD: "unchanged f m \<Longrightarrow> run_state m s = (x, s') \<Longrightarrow> f s' = f s"
  by (metis unchanged_def snd_conv)

text \<open>\<^verbatim>\<open>valid I m Q\<close>: started in a state with \<^verbatim>\<open>I\<close>, the code returns a value and a state related by \<^verbatim>\<open>Q\<close>. The leading steps
  of a sequence are discharged by their invariant.\<close>

definition valid :: "('s \<Rightarrow> bool) \<Rightarrow> ('s, 'a) state \<Rightarrow> ('a \<Rightarrow> 's \<Rightarrow> bool) \<Rightarrow> bool" where
  "valid I m Q \<longleftrightarrow> (\<forall>s. I s \<longrightarrow> (case run_state m s of (x, s') \<Rightarrow> Q x s'))"

lemma validD: "valid I m Q \<Longrightarrow> run_state m s = (x, s') \<Longrightarrow> I s \<Longrightarrow> Q x s'"
  by (fastforce simp: valid_def)

lemma valid_preserves: "preserves I m \<longleftrightarrow> valid I m (\<lambda>_. I)"
  by (simp add: valid_def preserves_def split_beta)

lemma valid_seq: "valid I m R \<Longrightarrow> (\<And>x. valid (R x) (k x) Q) \<Longrightarrow> valid I (m \<bind> k) Q"
  by (fastforce simp: valid_def split: prod.splits)

lemma valid_bind: "preserves I m \<Longrightarrow> (\<And>x. valid I (k x) Q) \<Longrightarrow> valid I (m \<bind> k) Q"
  by (rule valid_seq [where R = "\<lambda>_. I"]) (simp_all add: valid_preserves)

lemma valid_ret: "(\<And>s. I s \<Longrightarrow> Q x s) \<Longrightarrow> valid I (ret x) Q"
  by (simp add: valid_def)

lemma valid_or_fail:
  "(\<And>e s. I s \<Longrightarrow> Q (Inl e) s) \<Longrightarrow> (\<And>x. valid I (k x) Q) \<Longrightarrow> valid I (or_fail r k) Q"
  by (simp add: or_fail_def valid_ret split: sum.split)

lemma valid_if: "(b \<Longrightarrow> valid I m Q) \<Longrightarrow> (\<not> b \<Longrightarrow> valid I n Q) \<Longrightarrow> valid I (if b then m else n) Q"
  by simp

lemma valid_case_sum:
  "(\<And>e. valid I (h e) Q) \<Longrightarrow> (\<And>x. valid I (k x) Q) \<Longrightarrow> valid I (case r of Inl e \<Rightarrow> h e | Inr x \<Rightarrow> k x) Q"
  by (simp split: sum.split)

lemma valid_weaken: "valid I m Q \<Longrightarrow> (\<And>x s. Q x s \<Longrightarrow> R x s) \<Longrightarrow> valid I m R"
  by (fastforce simp: valid_def)

lemmas valid_intros = valid_bind valid_ret valid_or_fail valid_if

section \<open>The retry policy\<close>

record RetryPolicy =
  max_attempts :: int
  initial_backoff :: int
  max_backoff :: int

definition MakeRetryPolicy :: "HttpClientOptions \<Rightarrow> RetryPolicy" where
  "MakeRetryPolicy opts =
     \<lparr>max_attempts = (if max_retry_attempts opts > 0 then max_retry_attempts opts else 1),
      initial_backoff = retry_initial_backoff opts, max_backoff = retry_max_backoff opts\<rparr>"

definition DefaultRetryPolicy :: RetryPolicy where
  "DefaultRetryPolicy = \<lparr>max_attempts = 3, initial_backoff = 100, max_backoff = 2000\<rparr>"

text \<open>The delay before retry \<^verbatim>\<open>attempt\<close>: exponential, capped, times a draw from [0.5, 1.5), truncated. The source
  computes the power as a 64-bit shift; the delay of the model is that of the source while the shifted value fits.\<close>

definition capped_backoff :: "RetryPolicy \<Rightarrow> int \<Rightarrow> int" where
  "capped_backoff policy attempt =
     (let backoff = initial_backoff policy * 2 ^ nat (attempt - 1) in
      if backoff > max_backoff policy then max_backoff policy else backoff)"

definition retry_delay :: "RetryPolicy \<Rightarrow> int \<Rightarrow> real \<Rightarrow> int" where
  "retry_delay policy attempt jitter = \<lfloor>real_of_int (capped_backoff policy attempt) * jitter\<rfloor>"

function retry_loop ::
  "'w Platform \<Rightarrow> RetryPolicy \<Rightarrow> ('w, 'a cresult) client \<Rightarrow> int \<Rightarrow> 'a cresult \<Rightarrow> ('w, 'a cresult) client" where
  "retry_loop P policy fn attempt latest =
     (if attempt < max_attempts policy
      then case latest of
             Inr _ \<Rightarrow> ret latest
           | Inl e \<Rightarrow>
               if \<not> ce_retryable e then ret latest
               else do {
                 j \<leftarrow> ext (p_jitter P);
                 _ \<leftarrow> ext (p_sleep_ms P (retry_delay policy attempt j));
                 latest \<leftarrow> fn;
                 retry_loop P policy fn (attempt + 1) latest
               }
      else ret latest)"
  by pat_completeness auto
termination by (relation "measure (\<lambda>(P, policy, fn, attempt, latest). nat (max_attempts policy - attempt))") auto

declare retry_loop.simps [simp del]

definition RetryIfRetryable ::
  "'w Platform \<Rightarrow> RetryPolicy \<Rightarrow> ('w, 'a cresult) client \<Rightarrow> ('w, 'a cresult) client" where
  "RetryIfRetryable P policy fn = do { latest \<leftarrow> fn; retry_loop P policy fn 1 latest }"

lemma preserves_retry_loop:
  assumes "preserves I fn" "\<And>c s. I s \<Longrightarrow> c = p_jitter P \<Longrightarrow> I (s\<lparr>cw := snd (c (cw s))\<rparr>)"
    and "\<And>n s. I s \<Longrightarrow> I (s\<lparr>cw := snd (p_sleep_ms P n (cw s))\<rparr>)"
  shows "preserves I (retry_loop P policy fn n r)"
proof (induction "nat (max_attempts policy - n)" arbitrary: n r)
  case 0
  then show ?case by (subst retry_loop.simps) (simp add: mon_intros)
next
  case (Suc k)
  have "k = nat (max_attempts policy - (n + 1))" using Suc(2) by simp
  from Suc(1) [OF this] show ?case
    by (subst retry_loop.simps) (intro mon_intros assms(1) preserves_ext assms(2,3) refl)
qed

lemma preserves_Retry:
  assumes "preserves I fn" "\<And>s. I s \<Longrightarrow> I (s\<lparr>cw := snd (p_jitter P (cw s))\<rparr>)"
    and "\<And>n s. I s \<Longrightarrow> I (s\<lparr>cw := snd (p_sleep_ms P n (cw s))\<rparr>)"
  shows "preserves I (RetryIfRetryable P policy fn)"
  unfolding RetryIfRetryable_def by (intro mon_intros assms preserves_retry_loop) (simp_all add: assms)

subsection \<open>Runs of the retry wrapper\<close>

text \<open>A history of attempts: the results of the calls in order, each retry preceded by one sleep.\<close>

inductive attempts ::
  "'w Platform \<Rightarrow> RetryPolicy \<Rightarrow> ('w, 'a cresult) client \<Rightarrow> int \<Rightarrow> 'w ClientState \<Rightarrow> 'a cresult list \<Rightarrow> 'w ClientState \<Rightarrow> bool"
  for P policy fn where
  first: "run_state fn s = (r, s') \<Longrightarrow> attempts P policy fn n s [r] s'"
| again: "run_state fn s = (Inl e, s1) \<Longrightarrow> ce_retryable e \<Longrightarrow> n < max_attempts policy \<Longrightarrow>
    p_jitter P (cw s1) = (j, w1) \<Longrightarrow> p_sleep_ms P (retry_delay policy n j) w1 = (u, w2) \<Longrightarrow>
    attempts P policy fn (n + 1) (s1\<lparr>cw := w2\<rparr>) rs s' \<Longrightarrow> attempts P policy fn n s (Inl e # rs) s'"

inductive_cases attempts_elims: "attempts P policy fn n s rs s'"

abbreviation gives_up :: "'a cresult \<Rightarrow> bool" where
  "gives_up r \<equiv> (case r of Inr _ \<Rightarrow> True | Inl e \<Rightarrow> \<not> ce_retryable e)"

lemma attempts_nonempty: "attempts P policy fn n s rs s' \<Longrightarrow> rs \<noteq> []"
  by (induction rule: attempts.induct) simp_all

lemma attempts_bound:
  assumes "attempts P policy fn n s rs s'"
  shows "length rs \<le> 1 + nat (max_attempts policy - n)"
  using assms by (induction rule: attempts.induct) auto

lemma attempts_all_but_last:
  assumes "attempts P policy fn n s rs s'" "r \<in> set (butlast rs)"
  shows "\<exists>e. r = Inl e \<and> ce_retryable e"
  using assms by (induction rule: attempts.induct) (auto split: if_splits dest: attempts_nonempty)

lemma retry_loop_attempts:
  assumes "run_state fn s = (first, s1)" "run_state (retry_loop P policy fn n first) s1 = (r, s')"
  shows "\<exists>rs. attempts P policy fn n s rs s' \<and> last rs = r \<and>
    (gives_up r \<or> int (length rs) \<ge> 1 + max_attempts policy - n)"
  using assms
proof (induction "nat (max_attempts policy - n)" arbitrary: n s first s1)
  case 0
  then have "r = first" "s' = s1" by (simp_all add: retry_loop.simps [of P policy fn n first])
  then show ?case using 0 attempts.first [OF 0(2), of P policy n] by (intro exI [of _ "[first]"]) auto
next
  case (Suc k)
  have less: "n < max_attempts policy" using Suc(2) by simp
  show ?case
  proof (cases "gives_up first")
    case True
    then have "r = first" "s' = s1"
      using Suc(4) less by (auto simp: retry_loop.simps [of P policy fn n first] split: sum.splits)
    then show ?thesis using True attempts.first [OF Suc(3), of P policy n] by (intro exI [of _ "[first]"]) auto
  next
    case False
    then obtain e where e: "first = Inl e" "ce_retryable e" by (auto split: sum.splits)
    obtain j w1 where j: "p_jitter P (cw s1) = (j, w1)" by fastforce
    obtain u w2 where u: "p_sleep_ms P (retry_delay policy n j) w1 = (u, w2)"
      by (cases "p_sleep_ms P (retry_delay policy n j) w1") blast
    obtain nxt s2 where nxt: "run_state fn (s1\<lparr>cw := w2\<rparr>) = (nxt, s2)" by fastforce
    have "run_state (retry_loop P policy fn (n + 1) nxt) s2 = (r, s')"
      using Suc(4) less e j u nxt by (simp add: retry_loop.simps [of P policy fn n "Inl e"])
    moreover have "k = nat (max_attempts policy - (n + 1))" using Suc(2) by simp
    ultimately obtain rs where rs: "attempts P policy fn (n + 1) (s1\<lparr>cw := w2\<rparr>) rs s'"
      "last rs = r" "gives_up r \<or> int (length rs) \<ge> max_attempts policy - n"
      using Suc(1) [OF _ nxt] by force
    from attempts.again [OF Suc(3) [unfolded e(1)] e(2) less j u rs(1)] rs(2,3) attempts_nonempty [OF rs(1)]
    show ?thesis by (intro exI [of _ "first # rs"]) (auto simp: e)
  qed
qed

text \<open>The retry wrapper ends after at most \<^verbatim>\<open>max_attempts\<close> calls (one if the limit is not positive). It returns
  the result of the last call; every earlier call failed with a retryable error, so a success or a
  permanent error is returned at once; and it stops on a retryable error only when the attempts are used up.\<close>

theorem retry_attempts_bounded:
  "\<exists>rs s'. run_state (RetryIfRetryable P policy fn) s = (last rs, s') \<and> attempts P policy fn 1 s rs s' \<and>
    length rs \<le> max 1 (nat (max_attempts policy)) \<and>
    list_all (\<lambda>r. case r of Inl e \<Rightarrow> ce_retryable e | Inr _ \<Rightarrow> False) (butlast rs) \<and>
    (gives_up (last rs) \<or> length rs = max 1 (nat (max_attempts policy)))"
proof -
  obtain first s1 where f: "run_state fn s = (first, s1)" by fastforce
  obtain r s' where l: "run_state (retry_loop P policy fn 1 first) s1 = (r, s')" by fastforce
  from retry_loop_attempts [OF f l] obtain rs where
    rs: "attempts P policy fn 1 s rs s'" "last rs = r" "gives_up r \<or> int (length rs) \<ge> max_attempts policy" by auto
  have run: "run_state (RetryIfRetryable P policy fn) s = (r, s')" using f l by (simp add: RetryIfRetryable_def)
  have len: "length rs \<le> max 1 (nat (max_attempts policy))" "1 \<le> length rs"
    using attempts_bound [OF rs(1)] attempts_nonempty [OF rs(1)] by (auto simp: Suc_le_eq)
  have butlast: "list_all (\<lambda>r. case r of Inl e \<Rightarrow> ce_retryable e | Inr _ \<Rightarrow> False) (butlast rs)"
    using attempts_all_but_last [OF rs(1)] by (fastforce simp: list_all_iff)
  show ?thesis using run rs len butlast by (intro exI [of _ rs] exI [of _ s']) auto
qed

text \<open>The sleep before a retry lies between half the capped delay and one and a half times it.\<close>

lemma retry_delay_bounds:
  assumes "1 / 2 \<le> j" "j < 3 / 2" "0 \<le> initial_backoff policy" "0 \<le> max_backoff policy"
  shows "capped_backoff policy n div 2 \<le> retry_delay policy n j" "2 * retry_delay policy n j \<le> 3 * max_backoff policy"
proof -
  let ?b = "capped_backoff policy n"
  have b: "0 \<le> ?b" "?b \<le> max_backoff policy" using assms(3,4) by (auto simp: capped_backoff_def Let_def)
  have "real_of_int (?b div 2) \<le> real_of_int ?b * (1 / 2)" by linarith
  also have "\<dots> \<le> real_of_int ?b * j" using b(1) assms(1) by (intro mult_left_mono) auto
  finally show "?b div 2 \<le> retry_delay policy n j" by (simp add: retry_delay_def le_floor_iff)
  have "real_of_int (retry_delay policy n j) \<le> real_of_int ?b * j" by (simp add: retry_delay_def)
  also have "\<dots> \<le> real_of_int (max_backoff policy) * (3 / 2)" using b assms by (intro mult_mono) auto
  finally show "2 * retry_delay policy n j \<le> 3 * max_backoff policy" by linarith
qed

end
