(* ===== verification/Client_Rpc.thy ===== *)
theory Client_Rpc
  imports Client_State
begin

text \<open>
  The RPC layer of the client: the shared channels (\<^verbatim>\<open>core/common/channel_registry.cpp\<close>, \<^verbatim>\<open>core/common/brpc_channel.cpp\<close>)
  and the thin stubs over them (\<^verbatim>\<open>control/metadata_client.cpp\<close>, \<^verbatim>\<open>data/gds_data_client.cpp\<close>,
  \<^verbatim>\<open>data/rdma_data_plane_client.cpp\<close>). A channel is known by the endpoint it was initialised with, and a stub by
  the channel it was built on, so the model tells to which server every RPC is sent.
\<close>

section \<open>Channels\<close>

function TrimTrailingSlash :: "string \<Rightarrow> string" where
  "TrimTrailingSlash s = (if s \<noteq> [] \<and> last s = CHR ''/'' then TrimTrailingSlash (butlast s) else s)"
  by pat_completeness auto
termination by (relation "measure length") auto

declare TrimTrailingSlash.simps [simp del]

definition upd_channels :: "(ChannelRegistry \<Rightarrow> ChannelRegistry) \<Rightarrow> ('w, unit) client" where
  "upd_channels f = modify (\<lambda>s. s\<lparr>channels := f (channels s)\<rparr>)"

definition channel_error :: "ClientError \<Rightarrow> ('w, bool cresult) client" where
  "channel_error e = do { _ \<leftarrow> upd_channels (\<lambda>c. c\<lparr>ch_last_init_error := Some e\<rparr>); ret (Inl e) }"

definition ChannelRegistry_ready :: "ChannelRegistry \<Rightarrow> bool" where
  "ChannelRegistry_ready c \<longleftrightarrow> ch_baidu c \<noteq> None"

definition gds_data_std :: "ChannelRegistry \<Rightarrow> string option" where
  "gds_data_std c = (if ch_gds_data c \<noteq> None then ch_gds_data c else ch_baidu c)"

definition ChannelRegistry_Initialize :: "'w Platform \<Rightarrow> ClientOptions \<Rightarrow> ('w, bool cresult) client" where
  "ChannelRegistry_Initialize P opts = do {
     c \<leftarrow> gets channels;
     if ChannelRegistry_ready c then ret (Inr True)
     else if o_endpoint opts = [] then channel_error (MakeInvalidArgument ''endpoint must not be empty'')
     else do {
       let endpoint = TrimTrailingSlash (o_endpoint opts);
       _ \<leftarrow> upd_channels (\<lambda>c. c\<lparr>ch_endpoint := endpoint\<rparr>);
       up \<leftarrow> ext (p_ChannelInit P endpoint);
       if \<not> up then channel_error (ClientMakeError kRpcError (''Failed to initialize shared baidu_std channel: '' @ endpoint) True [] [])
       else do {
         _ \<leftarrow> upd_channels (\<lambda>c. c\<lparr>ch_baidu := Some endpoint\<rparr>);
         if o_gds_data_endpoint opts \<noteq> [] then do {
           let gds_endpoint = TrimTrailingSlash (o_gds_data_endpoint opts);
           up \<leftarrow> ext (p_ChannelInit P gds_endpoint);
           if \<not> up then channel_error (ClientMakeError kRpcError (''Failed to initialize gds_data channel: '' @ gds_endpoint) True [] [])
           else do {
             _ \<leftarrow> upd_channels (\<lambda>c. c\<lparr>ch_gds_data := Some gds_endpoint, ch_last_init_error := None\<rparr>);
             ret (Inr True) } }
         else do {
           _ \<leftarrow> upd_channels (\<lambda>c. c\<lparr>ch_last_init_error := None\<rparr>);
           ret (Inr True) } } } }"

definition ChannelRegistry_empty :: ChannelRegistry where
  "ChannelRegistry_empty = \<lparr>ch_endpoint = [], ch_baidu = None, ch_gds_data = None, ch_last_init_error = None\<rparr>"

text \<open>The constructor initialises at once when the endpoint is known, and only remembers a failure.\<close>

definition ChannelRegistry_construct :: "'w Platform \<Rightarrow> ClientOptions \<Rightarrow> ('w, unit) client" where
  "ChannelRegistry_construct P opts = do {
     _ \<leftarrow> upd_channels (\<lambda>_. ChannelRegistry_empty);
     if o_endpoint opts \<noteq> [] then do {
       r \<leftarrow> ChannelRegistry_Initialize P opts;
       (case r of Inl e \<Rightarrow> upd_channels (\<lambda>c. c\<lparr>ch_last_init_error := Some e\<rparr>) | Inr _ \<Rightarrow> ret ()) }
     else ret () }"

definition ChannelRegistry_Shutdown :: "('w, unit) client" where
  "ChannelRegistry_Shutdown = upd_channels (\<lambda>c. c\<lparr>ch_gds_data := None, ch_baidu := None, ch_endpoint := []\<rparr>)"

text \<open>\<^verbatim>\<open>BrpcChannel\<close>: a channel of its own, kept beside the registry in the source.\<close>

record BrpcChannel =
  bc_endpoint :: string
  bc_channel :: "string option"

definition BrpcChannel_ready :: "BrpcChannel \<Rightarrow> bool" where
  "BrpcChannel_ready c \<longleftrightarrow> bc_channel c \<noteq> None"

definition BrpcChannel_Initialize :: "'w Platform \<Rightarrow> ClientOptions \<Rightarrow> BrpcChannel \<Rightarrow> ('w, bool cresult \<times> BrpcChannel) client" where
  "BrpcChannel_Initialize P opts c =
     (if BrpcChannel_ready c then ret (Inr True, c)
      else if o_endpoint opts = [] then ret (Inl (MakeInvalidArgument ''endpoint must not be empty''), c)
      else do {
        let c = c\<lparr>bc_endpoint := TrimTrailingSlash (o_endpoint opts)\<rparr>;
        up \<leftarrow> ext (p_ChannelInit P (bc_endpoint c));
        if \<not> up then ret (Inl (ClientMakeError kRpcError (''Failed to initialize brpc channel: '' @ bc_endpoint c) True [] []), c)
        else ret (Inr True, c\<lparr>bc_channel := Some (bc_endpoint c)\<rparr>) })"

definition BrpcChannel_Shutdown :: "BrpcChannel \<Rightarrow> BrpcChannel" where
  "BrpcChannel_Shutdown c = c\<lparr>bc_channel := None, bc_endpoint := []\<rparr>"

text \<open>A channel is connected to the trimmed endpoint of the options or not at all, and a failed attempt can be repeated.\<close>

lemma BrpcChannel_lifecycle:
  assumes "run_state (BrpcChannel_Initialize P opts c) s = ((r, c'), s')" "bc_channel c \<in> {None, Some (TrimTrailingSlash (o_endpoint opts))}"
  shows "bc_channel c' \<in> {None, Some (TrimTrailingSlash (o_endpoint opts))} \<and> (BrpcChannel_ready c' \<longleftrightarrow> r = Inr True) \<and>
    (r = Inr True \<longrightarrow> run_state (BrpcChannel_Initialize P opts c') s' = ((Inr True, c'), s')) \<and>
    \<not> BrpcChannel_ready (BrpcChannel_Shutdown c')"
  using assms
  by (auto simp: BrpcChannel_Initialize_def BrpcChannel_ready_def BrpcChannel_Shutdown_def Let_def split: if_splits prod.splits)

section \<open>The metadata client\<close>

definition MetadataClient_Initialize :: "('w, bool cresult) client" where
  "MetadataClient_Initialize = do {
     stub \<leftarrow> gets metadata_stub;
     if stub \<noteq> None then ret (Inr True)
     else do {
       c \<leftarrow> gets channels;
       (case ch_baidu c of
          None \<Rightarrow> ret (Inl (MakeInvalidArgument ''MetadataClient: shared baidu_std channel is not initialized''))
        | Some ch \<Rightarrow> do { _ \<leftarrow> modify (\<lambda>s. s\<lparr>metadata_stub := Some ch\<rparr>); ret (Inr True) }) } }"

definition MetadataClient_Shutdown :: "('w, unit) client" where
  "MetadataClient_Shutdown = modify (\<lambda>s. s\<lparr>metadata_stub := None\<rparr>)"

definition option_context :: "ClientOptions \<Rightarrow> RpcCallMetadata" where
  "option_context opts =
     \<lparr>rc_client_id = o_client_id opts, rc_bearer_token = o_bearer_token opts,
      rc_default_headers = o_default_headers opts, rc_timeout = o_default_timeout opts\<rparr>"

definition BuildOpenSessionRequest :: "SessionOpening \<Rightarrow> OpenSessionRequest" where
  "BuildOpenSessionRequest q =
     \<lparr>osr_request_id = sn_request_id q, osr_session_id = sn_session_id q, osr_bucket = sn_bucket q,
      osr_object_key = sn_key q, osr_op_type = ClientOperationType_ToString (sn_operation q),
      osr_data_flow = ClientDataFlow_ToString (sn_data_flow q), osr_buffer_type = BufferType_ToString (sn_buffer_type q),
      osr_offset = sn_offset q, osr_expected_size = (case sn_length q of None \<Rightarrow> 0 | Some n \<Rightarrow> n),
      osr_idempotency_key = sn_idempotency_key q, osr_is_multipart_part = sn_is_multipart_part q\<rparr>"

definition RpcOpenTransferSession ::
  "'w Platform \<Rightarrow> SessionOpening \<Rightarrow> ('w, OpenSessionResponse cresult) client" where
  "RpcOpenTransferSession P q = do {
     stub \<leftarrow> gets metadata_stub;
     (case stub of
        None \<Rightarrow> ret (Inl (MakeNotInitialized ''Metadata client''))
      | Some ch \<Rightarrow> do {
          reply \<leftarrow> ext (p_OpenSession P ch (ApplyRequestHeaders (sn_context q)) (BuildOpenSessionRequest q));
          or_fail (CheckRpcFailure reply ''Failed to open transfer session'' (sn_data_flow q) (sn_request_id q))
            (\<lambda>_. ret (Inr (projr reply))) }) }"

definition MetadataClient_HeadObject ::
  "'w Platform \<Rightarrow> ClientOptions \<Rightarrow> string \<Rightarrow> string \<Rightarrow> ('w, ClientObjectMetadata cresult) client" where
  "MetadataClient_HeadObject P opts bucket key = do {
     stub \<leftarrow> gets metadata_stub;
     (case stub of
        None \<Rightarrow> ret (Inl (MakeNotInitialized ''Metadata client''))
      | Some ch \<Rightarrow> do {
          reply \<leftarrow> ext (p_HeadObject P ch (ApplyRequestHeaders (option_context opts)) bucket key);
          or_fail (CheckRpcFailure reply ''HeadObject RPC failed'' GPUDirect [])
            (\<lambda>_. let m = projr reply in
              ret (Inr \<lparr>cm_content_length = hor_content_length m, cm_etag = hor_etag m, cm_version = hor_version m,
                cm_headers = map_of (hor_headers m)\<rparr>)) }) }"

definition BuildStartUploadRequest :: "ObjectDescriptor \<Rightarrow> StartUploadRequest" where
  "BuildStartUploadRequest d =
     \<lparr>su_bucket = od_bucket d, su_object_key = od_key d,
      su_expected_total_size = (case od_expected_total_size d of None \<Rightarrow> 0 | Some n \<Rightarrow> n),
      su_data_flow = ClientDataFlow_ToString (od_data_flow d), su_idempotency_key = od_idempotency_key d\<rparr>"

definition RpcCreateMultipartUpload ::
  "'w Platform \<Rightarrow> ClientOptions \<Rightarrow> ObjectDescriptor \<Rightarrow> ('w, StartUploadResponse cresult) client" where
  "RpcCreateMultipartUpload P opts d = do {
     stub \<leftarrow> gets metadata_stub;
     (case stub of
        None \<Rightarrow> ret (Inl (MakeNotInitialized ''Metadata client''))
      | Some ch \<Rightarrow> do {
          reply \<leftarrow> ext (p_StartUpload P ch (ApplyRequestHeaders (option_context opts)) (BuildStartUploadRequest d));
          or_fail (CheckRpcFailure reply ''RpcCreateMultipartUpload failed'' (od_data_flow d) [])
            (\<lambda>_. ret (Inr (projr reply))) }) }"

definition RpcCompleteMultipartUpload ::
  "'w Platform \<Rightarrow> ClientOptions \<Rightarrow> string \<Rightarrow> (nat \<times> string) list \<Rightarrow> DataFlow
   \<Rightarrow> ('w, CompleteUploadResponse cresult) client" where
  "RpcCompleteMultipartUpload P opts upload_id parts data_flow = do {
     stub \<leftarrow> gets metadata_stub;
     (case stub of
        None \<Rightarrow> ret (Inl (MakeNotInitialized ''Metadata client''))
      | Some ch \<Rightarrow> do {
          reply \<leftarrow> ext (p_CompleteUpload P ch (ApplyRequestHeaders (option_context opts))
            \<lparr>cur_upload_id = upload_id, cur_parts = parts, cur_data_flow = ClientDataFlow_ToString data_flow\<rparr>);
          or_fail (CheckRpcFailure reply ''CompleteUpload RPC failed'' data_flow [])
            (\<lambda>_. ret (Inr (projr reply))) }) }"

definition RpcAbortMultipartUpload ::
  "'w Platform \<Rightarrow> ClientOptions \<Rightarrow> string \<Rightarrow> DataFlow \<Rightarrow> ('w, bool cresult) client" where
  "RpcAbortMultipartUpload P opts upload_id data_flow = do {
     stub \<leftarrow> gets metadata_stub;
     (case stub of
        None \<Rightarrow> ret (Inl (MakeNotInitialized ''Metadata client''))
      | Some ch \<Rightarrow> do {
          reply \<leftarrow> ext (p_AbortUpload P ch (ApplyRequestHeaders (option_context opts)) upload_id
            (ClientDataFlow_ToString data_flow));
          or_fail (CheckRpcFailure reply ''AbortUpload RPC failed'' data_flow [])
            (\<lambda>_. ret (Inr True)) }) }"

text \<open>Best effort: a failed RPC is a success that erased nothing.\<close>

definition MetadataClient_AbortSession ::
  "'w Platform \<Rightarrow> ClientOptions \<Rightarrow> string \<Rightarrow> ('w, bool cresult) client" where
  "MetadataClient_AbortSession P opts session_id = do {
     stub \<leftarrow> gets metadata_stub;
     (case stub of
        None \<Rightarrow> ret (Inl (MakeNotInitialized ''Metadata client''))
      | Some ch \<Rightarrow> do {
          reply \<leftarrow> ext (p_AbortSession P ch (ApplyRequestHeaders (option_context opts)) session_id);
          ret (Inr (case reply of Inl _ \<Rightarrow> False | Inr erased \<Rightarrow> erased)) }) }"

section \<open>The GDS data client\<close>

definition GdsDataClient_Initialize :: "('w, bool cresult) client" where
  "GdsDataClient_Initialize = do {
     stub \<leftarrow> gets gds_stub;
     if stub \<noteq> None then ret (Inr True)
     else do {
       c \<leftarrow> gets channels;
       (case gds_data_std c of
          None \<Rightarrow> ret (Inl (MakeInvalidArgument ''GdsDataClient: gds_data channel is not initialized''))
        | Some ch \<Rightarrow> do { _ \<leftarrow> modify (\<lambda>s. s\<lparr>gds_stub := Some ch\<rparr>); ret (Inr True) }) } }"

definition GdsDataClient_Shutdown :: "('w, unit) client" where
  "GdsDataClient_Shutdown = modify (\<lambda>s. s\<lparr>gds_stub := None\<rparr>)"

definition BuildGdsChunkRequest :: "ChunkOp \<Rightarrow> GdsChunkRequest" where
  "BuildGdsChunkRequest q =
     \<lparr>gcr_request_id = ck_request_id q, gcr_session_id = ck_session_id q, gcr_transfer_ticket = ck_transfer_ticket q,
      gcr_bucket = or_bucket (ck_object q), gcr_object_key = or_key (ck_object q),
      gcr_data_flow = ClientDataFlow_ToString (or_data_flow (ck_object q)),
      gcr_buffer_type = BufferType_ToString (or_buffer_type (ck_object q)),
      gcr_checksum_policy = or_checksum_policy (ck_object q), gcr_chunk_offset = ck_chunk_offset q,
      gcr_chunk_size = ck_chunk_size q, gcr_rdma_token = ck_rdma_token q,
      gcr_extra_headers = or_extra_headers (ck_object q), gcr_upload_id = ck_upload_id q,
      gcr_part_number = ck_part_number q\<rparr>"

definition GdsChunk :: "'w Platform \<Rightarrow> ChunkOp \<Rightarrow> ('w, GdsChunkResponse cresult) client" where
  "GdsChunk P q = do {
     stub \<leftarrow> gets gds_stub;
     (case stub of
        None \<Rightarrow> ret (Inl (MakeNotInitialized ''GDS data client''))
      | Some ch \<Rightarrow> do {
          reply \<leftarrow> ext ((if ck_operation q = kGet then p_GdsGet P else p_GdsPut P) ch
                      (ApplyRequestHeaders (ck_context q)) (BuildGdsChunkRequest q));
          or_fail (CheckRpcFailure reply ''Failed to execute GDS chunk RPC'' (or_data_flow (ck_object q)) (ck_request_id q))
            (\<lambda>_. ret (Inr (projr reply))) }) }"

section \<open>The RDMA data plane client\<close>

record RdmaDiscoverInfo =
  di_host :: string
  di_ucx_port :: nat
  di_max_msg_bytes :: nat
  di_gw_raddr :: nat
  di_gw_packed_rkey :: bytes

definition RdmaDataPlaneClient_Initialize :: "('w, bool cresult) client" where
  "RdmaDataPlaneClient_Initialize = do {
     stub \<leftarrow> gets rdma_stub;
     if stub \<noteq> None then ret (Inr True)
     else do {
       c \<leftarrow> gets channels;
       (case ch_baidu c of
          None \<Rightarrow> ret (Inl (MakeInvalidArgument ''RdmaDataPlaneClient: shared baidu_std channel is not initialized''))
        | Some ch \<Rightarrow> do { _ \<leftarrow> modify (\<lambda>s. s\<lparr>rdma_stub := Some ch\<rparr>); ret (Inr True) }) } }"

definition RdmaDataPlaneClient_Shutdown :: "('w, unit) client" where
  "RdmaDataPlaneClient_Shutdown = modify (\<lambda>s. s\<lparr>rdma_stub := None\<rparr>)"

definition RdmaClient_PrepareTransfer ::
  "'w Platform \<Rightarrow> ClientOptions \<Rightarrow> string \<Rightarrow> nat \<Rightarrow> ('w, RdmaDiscoverInfo cresult) client" where
  "RdmaClient_PrepareTransfer P opts session_id transfer_bytes = do {
     stub \<leftarrow> gets rdma_stub;
     (case stub of
        None \<Rightarrow> ret (Inl (MakeNotInitialized ''RDMA data plane client''))
      | Some ch \<Rightarrow> do {
          reply \<leftarrow> ext (p_DiscoverRdmaEndpoint P ch (ApplyRequestTimeout opts) session_id transfer_bytes);
          or_fail (CheckRpcFailure reply ''PrepareTransfer RPC failed'' CPUDirect [])
            (\<lambda>_. let r = projr reply in
              ret (Inr \<lparr>di_host = rdr_host r, di_ucx_port = rdr_ucx_port r, di_max_msg_bytes = rdr_max_msg_bytes r,
                di_gw_raddr = rdr_gw_raddr r, di_gw_packed_rkey = rdr_gw_packed_rkey r\<rparr>)) }) }"

definition RdmaClient_CommitObject ::
  "'w Platform \<Rightarrow> ClientOptions \<Rightarrow> string \<Rightarrow> nat \<Rightarrow> string \<Rightarrow> ('w, RdmaCommitResponse cresult) client" where
  "RdmaClient_CommitObject P opts session_id bytes_transferred crc = do {
     stub \<leftarrow> gets rdma_stub;
     (case stub of
        None \<Rightarrow> ret (Inl (MakeNotInitialized ''RDMA data plane client''))
      | Some ch \<Rightarrow> do {
          reply \<leftarrow> ext (p_CommitObject P ch (ApplyRequestTimeout opts)
            \<lparr>rcr_session_id = session_id, rcr_bytes_transferred = bytes_transferred, rcr_client_checksum = crc\<rparr>);
          or_fail (CheckRpcFailure reply ''CommitObject RPC failed'' CPUDirect [])
            (\<lambda>_. ret (Inr (projr reply))) }) }"

definition RdmaClient_AbortSession ::
  "'w Platform \<Rightarrow> ClientOptions \<Rightarrow> string \<Rightarrow> ('w, bool cresult) client" where
  "RdmaClient_AbortSession P opts session_id = do {
     stub \<leftarrow> gets rdma_stub;
     (case stub of
        None \<Rightarrow> ret (Inl (MakeNotInitialized ''RDMA data plane client''))
      | Some ch \<Rightarrow> do {
          reply \<leftarrow> ext (p_RdmaAbortSession P ch (ApplyRequestTimeout opts) session_id);
          or_fail (CheckRpcFailure reply ''AbortSession RPC failed'' CPUDirect [])
            (\<lambda>_. ret (Inr (projr reply))) }) }"

definition RdmaClient_CommitPart ::
  "'w Platform \<Rightarrow> ClientOptions \<Rightarrow> string \<Rightarrow> string \<Rightarrow> nat \<Rightarrow> nat \<Rightarrow> string \<Rightarrow> ('w, string cresult) client" where
  "RdmaClient_CommitPart P opts session_id upload_id part_number bytes_transferred crc = do {
     stub \<leftarrow> gets rdma_stub;
     (case stub of
        None \<Rightarrow> ret (Inl (MakeNotInitialized ''RDMA data plane client''))
      | Some ch \<Rightarrow> do {
          reply \<leftarrow> ext (p_CommitPart P ch (ApplyRequestTimeout opts)
            \<lparr>rpr_session_id = session_id, rpr_upload_id = upload_id, rpr_part_number = part_number,
             rpr_bytes_transferred = bytes_transferred, rpr_client_checksum = crc\<rparr>);
          or_fail (CheckRpcFailure reply ''CommitPart RPC failed'' CPUDirect [])
            (\<lambda>_. ret (Inr (projr reply))) }) }"

lemmas rpc_clients = RpcOpenTransferSession_def MetadataClient_HeadObject_def RpcCreateMultipartUpload_def
  RpcCompleteMultipartUpload_def RpcAbortMultipartUpload_def MetadataClient_AbortSession_def GdsChunk_def
  RdmaClient_PrepareTransfer_def RdmaClient_CommitObject_def RdmaClient_AbortSession_def RdmaClient_CommitPart_def

section \<open>Facts\<close>

lemma TrimTrailingSlash_snoc: "TrimTrailingSlash (s @ ''/'') = TrimTrailingSlash s"
  by (subst TrimTrailingSlash.simps) simp

lemma TrimTrailingSlash_no_slash: "TrimTrailingSlash s = [] \<or> last (TrimTrailingSlash s) \<noteq> CHR ''/''"
proof (induction s rule: TrimTrailingSlash.induct)
  case (1 s)
  then show ?case by (cases "s \<noteq> [] \<and> last s = CHR ''/''") (auto simp: TrimTrailingSlash.simps [of s])
qed

lemma run_upd_channels [simp]: "run_state (upd_channels f) s = ((), s\<lparr>channels := f (channels s)\<rparr>)"
  by (simp add: upd_channels_def)

lemma run_channel_error [simp]:
  "run_state (channel_error e) s = (Inl e, s\<lparr>channels := (channels s)\<lparr>ch_last_init_error := Some e\<rparr>\<rparr>)"
  by (simp add: channel_error_def)

lemma CheckRpcFailure_simps [simp]:
  "CheckRpcFailure (Inr x) m p i = Inr True" "CheckRpcFailure (Inl f) m p i = Inl (MakeRpcFailure f m p i)"
  by (simp_all add: CheckRpcFailure_def)

lemma Initialize_ready:
  "ChannelRegistry_ready (channels s) \<Longrightarrow> run_state (ChannelRegistry_Initialize P opts) s = (Inr True, s)"
  by (simp add: ChannelRegistry_Initialize_def)

text \<open>A registry whose data channel failed to initialise is ready for the next call, so initialising it again succeeds
  without a data channel, and the GDS data client falls back to the control endpoint.\<close>

theorem retried_init_loses_data_endpoint:
  assumes "channels s = ChannelRegistry_empty" "o_endpoint opts \<noteq> []" "o_gds_data_endpoint opts \<noteq> []"
    and "p_ChannelInit P (TrimTrailingSlash (o_endpoint opts)) (cw s) = (True, w1)"
    and "p_ChannelInit P (TrimTrailingSlash (o_gds_data_endpoint opts)) w1 = (False, w2)"
  shows "\<exists>e s1. run_state (ChannelRegistry_Initialize P opts) s = (Inl e, s1) \<and>
    run_state (ChannelRegistry_Initialize P opts) s1 = (Inr True, s1) \<and>
    gds_data_std (channels s1) = Some (TrimTrailingSlash (o_endpoint opts))"
proof -
  let ?s = "snd (run_state (ChannelRegistry_Initialize P opts) s)"
  have "isl (fst (run_state (ChannelRegistry_Initialize P opts) s))"
    "ch_baidu (channels ?s) = Some (TrimTrailingSlash (o_endpoint opts))" "ch_gds_data (channels ?s) = None"
    using assms by (simp_all add: ChannelRegistry_Initialize_def ChannelRegistry_ready_def ChannelRegistry_empty_def Let_def)
  then show ?thesis using Initialize_ready [of ?s P opts]
    by (auto simp: isl_def gds_data_std_def ChannelRegistry_ready_def prod_eq_iff)
qed

end
