(* ===== verification/Client_Cuobj.thy ===== *)
theory Client_Cuobj
  imports Client_Rpc
begin

text \<open>
  The cuObject side of the client: loading the library (\<^verbatim>\<open>transports/gds/cuobj_library.cpp\<close>), the process-wide client and
  descriptor table with the RDMA tokens (\<^verbatim>\<open>transports/gds/gds_memory_registry.cpp\<close>). The two function-local statics that hold
  the library and the cuObject client are optional members of the state.
\<close>

section \<open>The library\<close>

definition kCuObjLibraryCandidates :: "string list" where
  "kCuObjLibraryCandidates =
     [''/usr/local/cuda/targets/x86_64-linux/lib/libcuobjclient.so.1'',
      ''/usr/local/cuda-13.2/targets/x86_64-linux/lib/libcuobjclient.so.1'',
      ''libcuobjclient.so.1'', ''libcuobjclient.so'']"

definition cuobj_symbols :: "string list" where
  "cuobj_symbols =
     [''_ZN11cuObjClientC1ER10CUObjIOOps15cuObjProto_enum'', ''_ZN11cuObjClientD1Ev'',
      ''_ZN11cuObjClient11isConnectedEv'', ''_ZN11cuObjClient21cuMemObjGetDescriptorEPvm'',
      ''_ZN11cuObjClient33cuMemObjGetMaxRequestCallbackSizeEPv'', ''_ZN11cuObjClient21cuMemObjPutDescriptorEPv'',
      ''_ZN11cuObjClient6getCtxEPKv'', ''_ZN11cuObjClient8cuObjGetEPvS0_mll'', ''_ZN11cuObjClient8cuObjPutEPvS0_mll'',
      ''_ZN11cuObjClient20cuMemObjGetRDMATokenEPvmm16cuObjOpType_enumPPc'', ''_ZN11cuObjClient20cuMemObjPutRDMATokenEPc'']"

definition ResolveSymbol :: "'w Platform \<Rightarrow> nat \<Rightarrow> string \<Rightarrow> ('w, unit cresult) client" where
  "ResolveSymbol P handle name = do {
     found \<leftarrow> ext (p_dlsym P handle name);
     ret (if found then Inr ()
          else Inl (MakeUnsupportedPath GPUDirect (''Failed to resolve libcuobjclient symbol: '' @ name))) }"

fun ResolveApi :: "'w Platform \<Rightarrow> nat \<Rightarrow> string list \<Rightarrow> ('w, unit cresult) client" where
  "ResolveApi P handle [] = ret (Inr ())"
| "ResolveApi P handle (name # names) = do {
     r \<leftarrow> ResolveSymbol P handle name;
     or_fail r (\<lambda>_. ResolveApi P handle names) }"

fun CuObjLibrary_Load :: "'w Platform \<Rightarrow> string list \<Rightarrow> ('w, nat cresult) client" where
  "CuObjLibrary_Load P [] = ret (Inl (MakeUnsupportedPath GPUDirect ''Failed to dynamically load libcuobjclient''))"
| "CuObjLibrary_Load P (candidate # candidates) = do {
     handle \<leftarrow> ext (p_dlopen P candidate);
     (case handle of
        None \<Rightarrow> CuObjLibrary_Load P candidates
      | Some h \<Rightarrow> do {
          api \<leftarrow> ResolveApi P h cuobj_symbols;
          (case api of
             Inr _ \<Rightarrow> ret (Inr h)
           | Inl e \<Rightarrow> do { _ \<leftarrow> ext (p_dlclose P h); ret (Inl e) }) }) }"

definition CuObjLibrary_Get :: "'w Platform \<Rightarrow> ('w, nat cresult) client" where
  "CuObjLibrary_Get P = do {
     holder \<leftarrow> gets cuobj_library;
     (case holder of
        Some r \<Rightarrow> ret r
      | None \<Rightarrow> do {
          r \<leftarrow> CuObjLibrary_Load P kCuObjLibraryCandidates;
          _ \<leftarrow> modify (\<lambda>s. s\<lparr>cuobj_library := Some r\<rparr>);
          ret r }) }"

section \<open>The cuObject client and its descriptor table\<close>

definition CuObjState_construct :: "'w Platform \<Rightarrow> ('w, unit cresult) client" where
  "CuObjState_construct P = do {
     lib \<leftarrow> CuObjLibrary_Get P;
     or_fail lib (\<lambda>_. do {
       _ \<leftarrow> ext (p_constructor P);
       connected \<leftarrow> ext (p_is_connected P);
       if connected then ret (Inr ())
       else do {
         _ \<leftarrow> ext (p_destructor P);
         ret (Inl (MakeTransportFailure ''cuObjClient is not connected to an RDMA service'' GPUDirect [] True)) } }) }"

definition CuObjState_Get :: "'w Platform \<Rightarrow> ('w, unit cresult) client" where
  "CuObjState_Get P = do {
     holder \<leftarrow> gets cuobj_holder;
     (case holder of
        Some r \<Rightarrow> ret r
      | None \<Rightarrow> do {
          r \<leftarrow> CuObjState_construct P;
          _ \<leftarrow> modify (\<lambda>s. s\<lparr>cuobj_holder := Some r\<rparr>);
          ret r }) }"

text \<open>At process exit every descriptor that is still registered is given back, then the client is destroyed.\<close>

fun put_descriptors :: "'w Platform \<Rightarrow> nat list \<Rightarrow> ('w, unit) client" where
  "put_descriptors P [] = ret ()"
| "put_descriptors P (p # ps) = do { _ \<leftarrow> ext (p_put_descriptor P p); put_descriptors P ps }"

definition CuObjState_destruct :: "'w Platform \<Rightarrow> nat list \<Rightarrow> ('w, unit) client" where
  "CuObjState_destruct P order = do {
     _ \<leftarrow> put_descriptors P order;
     _ \<leftarrow> modify (\<lambda>s. s\<lparr>registered := Map.empty\<rparr>);
     holder \<leftarrow> gets cuobj_holder;
     if holder = Some (Inr ()) then ext (p_destructor P) else ret () }"

definition RegisterUnderLock :: "'w Platform \<Rightarrow> nat \<Rightarrow> nat \<Rightarrow> ('w, bool cresult) client" where
  "RegisterUnderLock P ptr sz = do {
     reg \<leftarrow> gets registered;
     if reg ptr \<noteq> None then ret (Inr True)
     else do {
       rc \<leftarrow> ext (p_get_descriptor P ptr sz);
       if \<not> rc then ret (Inl (MakeTransportFailure ''cuMemObjGetDescriptor failed'' GPUDirect [] True))
       else do {
         _ \<leftarrow> modify (\<lambda>s. s\<lparr>registered := (registered s)(ptr \<mapsto> sz)\<rparr>);
         ret (Inr True) } } }"

definition ValidateBuffer :: "BufferView \<Rightarrow> unit cresult" where
  "ValidateBuffer b =
     (if bv_type b \<noteq> kCudaDevice
      then Inl (MakeUnsupportedPath GPUDirect ''The GDS channel only supports CUDA device buffers'')
      else if bv_data b = 0 \<or> bv_size b = 0
      then Inl (MakeInvalidArgument ''GDS buffers must be non-null and have a positive size'')
      else Inr ())"

definition GdsMemoryRegistry_Register :: "OperationType \<Rightarrow> BufferView \<Rightarrow> unit cresult" where
  "GdsMemoryRegistry_Register op b = ValidateBuffer b"

definition RegisterBuffer :: "'w Platform \<Rightarrow> nat \<Rightarrow> nat \<Rightarrow> ('w, bool cresult) client" where
  "RegisterBuffer P ptr sz =
     (if ptr = 0 \<or> sz = 0
      then ret (Inl (MakeInvalidArgument ''RegisterDeviceBuffer requires non-null ptr and positive size''))
      else do { state \<leftarrow> CuObjState_Get P; or_fail state (\<lambda>_. RegisterUnderLock P ptr sz) })"

definition UnregisterBuffer :: "'w Platform \<Rightarrow> nat \<Rightarrow> ('w, bool cresult) client" where
  "UnregisterBuffer P ptr =
     (if ptr = 0 then ret (Inl (MakeInvalidArgument ''UnregisterDeviceBuffer requires non-null ptr''))
      else do {
        state \<leftarrow> CuObjState_Get P;
        or_fail state (\<lambda>_. do {
          reg \<leftarrow> gets registered;
          if reg ptr = None then ret (Inr True)
          else do {
            rc \<leftarrow> ext (p_put_descriptor P ptr);
            _ \<leftarrow> modify (\<lambda>s. s\<lparr>registered := (registered s)(ptr := None)\<rparr>);
            ret (if \<not> rc then Inl (MakeTransportFailure ''cuMemObjPutDescriptor failed'' GPUDirect [] True)
                 else Inr True) } }) })"

text \<open>\<^verbatim>\<open>AcquireToken\<close> registers the buffer first when it is unknown; the sum of size and offset is a 64-bit sum.\<close>

definition AcquireToken ::
  "'w Platform \<Rightarrow> nat \<Rightarrow> nat \<Rightarrow> nat \<Rightarrow> OperationType \<Rightarrow> ('w, string cresult) client" where
  "AcquireToken P ptr sz offset op =
     (if ptr = 0 \<or> sz = 0
      then ret (Inl (MakeInvalidArgument ''AcquireToken requires non-null ptr and positive size''))
      else do {
        state \<leftarrow> CuObjState_Get P;
        or_fail state (\<lambda>_. do {
          reg \<leftarrow> gets registered;
          r \<leftarrow> (if reg ptr = None then RegisterUnderLock P ptr (u64_add sz offset) else ret (Inr True));
          or_fail r (\<lambda>_. do {
            tok \<leftarrow> ext (p_get_rdma_token P ptr sz offset (op = kGet));
            ret (case tok of
                   None \<Rightarrow> Inl (MakeTransportFailure ''cuMemObjGetRDMAToken failed'' GPUDirect [] True)
                 | Some t \<Rightarrow> Inr t) }) }) })"

definition GdsRdmaToken_Reset :: "'w Platform \<Rightarrow> string \<Rightarrow> ('w, unit) client" where
  "GdsRdmaToken_Reset P tok = ext (p_put_rdma_token P tok)"

section \<open>The table mirrors the library\<close>

text \<open>What the table relies on, as an interface: the descriptors the library holds, as a set in the outside world, change
  only by a successful \<^verbatim>\<open>cuMemObjGetDescriptor\<close> and by \<^verbatim>\<open>cuMemObjPutDescriptor\<close>; tokens and connections do not touch them.\<close>

locale descriptor_api =
  fixes P :: "'w Platform" and held :: "'w \<Rightarrow> nat set"
  assumes get_descriptor: "p_get_descriptor P ptr n w = (ok, w') \<Longrightarrow> held w' = (if ok then insert ptr (held w) else held w)"
    and put_descriptor: "p_put_descriptor P ptr w = (ok, w') \<Longrightarrow> held w' = held w - {ptr}"
    and others: "quiet held (p_get_rdma_token P ptr n off b)" "quiet held (p_put_rdma_token P t)"
      "quiet held (p_dlopen P nm)" "quiet held (p_dlsym P h nm)" "quiet held (p_dlclose P h)"
      "quiet held (p_constructor P)" "quiet held (p_is_connected P)" "quiet held (p_destructor P)"
begin

definition mirrors :: "'w ClientState \<Rightarrow> bool" where
  "mirrors s \<longleftrightarrow> held (cw s) = dom (registered s)"

lemmas held_ext = preserves_ext [where I = "\<lambda>s. held (cw s) = h \<and> registered s = reg" for h reg]

lemma Resolve_steady: "preserves (\<lambda>s. held (cw s) = h \<and> registered s = reg) (ResolveApi P lib names)"
  by (induction names) (simp_all add: ResolveSymbol_def mon_intros, intro mon_intros held_ext, simp_all add: others [THEN quietD])

lemma Load_steady: "preserves (\<lambda>s. held (cw s) = h \<and> registered s = reg) (CuObjLibrary_Load P cs)"
  by (induction cs) (simp_all add: mon_intros, intro mon_intros held_ext Resolve_steady, simp_all add: others [THEN quietD])

lemma Get_steady: "preserves (\<lambda>s. held (cw s) = h \<and> registered s = reg) (CuObjState_Get P)"
  unfolding CuObjState_Get_def CuObjState_construct_def CuObjLibrary_Get_def
  by (intro mon_intros held_ext Load_steady preserves_modify) (simp_all add: others [THEN quietD])

lemma Get_mirrors: "preserves mirrors (CuObjState_Get P)"
  using Get_steady by (auto simp: preserves_def mirrors_def)

lemma RegisterUnderLock_mirrors: "preserves mirrors (RegisterUnderLock P ptr n)"
  by (auto simp: preserves_def RegisterUnderLock_def mirrors_def split: prod.splits dest!: get_descriptor)

lemma RegisterBuffer_mirrors: "preserves mirrors (RegisterBuffer P ptr n)"
  unfolding RegisterBuffer_def by (intro mon_intros Get_mirrors RegisterUnderLock_mirrors)

lemma forget_mirrors:
  "preserves mirrors (do { rc \<leftarrow> ext (p_put_descriptor P ptr);
     _ \<leftarrow> modify (\<lambda>s. s\<lparr>registered := (registered s)(ptr := None)\<rparr>); ret (f rc) })"
  by (auto simp: preserves_def mirrors_def split: prod.splits dest!: put_descriptor)

lemma UnregisterBuffer_mirrors: "preserves mirrors (UnregisterBuffer P ptr)"
  unfolding UnregisterBuffer_def by (intro mon_intros Get_mirrors forget_mirrors)

lemma AcquireToken_mirrors: "preserves mirrors (AcquireToken P ptr n off op)"
  unfolding AcquireToken_def
  by (intro mon_intros Get_mirrors RegisterUnderLock_mirrors preserves_ext) (simp add: mirrors_def others [THEN quietD])

lemma token_Reset_mirrors: "preserves mirrors (GdsRdmaToken_Reset P tok)"
  unfolding GdsRdmaToken_Reset_def by (intro preserves_ext) (simp add: mirrors_def others [THEN quietD])

lemma put_descriptors_held:
  "held (cw (snd (run_state (put_descriptors P ps) s))) = held (cw s) - set ps"
  by (induction ps arbitrary: s) (auto simp: split_beta put_descriptor [OF prod.collapse [symmetric]])

end

end
