(* ===== verification/Client_Gds.thy ===== *)
theory Client_Gds
  imports Client_Cuobj "HOL-Library.Multiset"
begin

text \<open>
  The GDS path of the client: the chunk RPC issuer (\<^verbatim>\<open>transports/gds/chunk_dispatcher.cpp\<close>), token-direct transfers
  (\<^verbatim>\<open>transports/gds/cuobject_client.cpp\<close>), the shared preflight (\<^verbatim>\<open>core/routing/transfer_path.cpp\<close>) and
  \<^verbatim>\<open>core/gds/gds_transfer_path.cpp\<close> with its parallel GET. The sub-requests of a parallel GET are run in the order in
  which they are submitted; each waits for its own RPCs only.
\<close>

section \<open>Dispatching a chunk\<close>

record ChunkDispatcher =
  cd_op :: OperationType
  cd_bucket :: string
  cd_key :: string
  cd_offset :: nat
  cd_length :: "nat option"
  cd_timeout :: int
  cd_checksum_policy :: string
  cd_extra_headers :: headers
  cd_request_id :: string
  cd_session_id :: string
  cd_ticket :: string
  cd_upload_id :: string
  cd_part_number :: nat
  cd_part_base_offset :: nat

record DispatchOutcome =
  do_gateway_id :: string
  do_transfer_status :: string
  do_rdma_reply :: string
  do_etag :: string
  do_version :: string
  do_crc32c :: "32 word"

definition ChunkDispatcher_get :: "TransferSession \<Rightarrow> GetObjectRequest \<Rightarrow> OperationType \<Rightarrow> ChunkDispatcher" where
  "ChunkDispatcher_get ses q op =
     \<lparr>cd_op = op, cd_bucket = get_bucket q, cd_key = get_key q, cd_offset = get_offset q, cd_length = get_length q,
      cd_timeout = get_timeout_ms q, cd_checksum_policy = get_checksum_policy q, cd_extra_headers = get_extra_headers q,
      cd_request_id = ts_request_id ses, cd_session_id = ts_session_id ses, cd_ticket = ts_ticket ses,
      cd_upload_id = [], cd_part_number = 0, cd_part_base_offset = 0\<rparr>"

definition ChunkDispatcher_put :: "TransferSession \<Rightarrow> PutObjectRequest \<Rightarrow> OperationType \<Rightarrow> ChunkDispatcher" where
  "ChunkDispatcher_put ses q op =
     \<lparr>cd_op = op, cd_bucket = put_bucket q, cd_key = put_key q, cd_offset = 0, cd_length = None,
      cd_timeout = put_timeout_ms q, cd_checksum_policy = put_checksum_policy q, cd_extra_headers = put_extra_headers q,
      cd_request_id = ts_request_id ses, cd_session_id = ts_session_id ses, cd_ticket = ts_ticket ses,
      cd_upload_id = [], cd_part_number = 0, cd_part_base_offset = 0\<rparr>"

definition SetMultipart :: "string \<Rightarrow> nat \<Rightarrow> ChunkDispatcher \<Rightarrow> ChunkDispatcher" where
  "SetMultipart upload_id part_number d =
     d\<lparr>cd_upload_id := upload_id, cd_part_number := part_number, cd_part_base_offset := cd_offset d\<rparr>"

definition chunk_plan_of :: "ChunkDispatcher \<Rightarrow> string \<Rightarrow> nat \<Rightarrow> nat \<Rightarrow> ChunkOpPlan" where
  "chunk_plan_of d rdma_token chunk_offset chunk_size =
     \<lparr>pl_operation = cd_op d, pl_bucket = cd_bucket d, pl_key = cd_key d, pl_offset = cd_offset d, pl_length = cd_length d,
      pl_checksum_policy = cd_checksum_policy d, pl_extra_headers = cd_extra_headers d, pl_timeout = cd_timeout d,
      pl_buffer_type = kCudaDevice, pl_path = GPUDirect, pl_request_id = cd_request_id d, pl_session_id = cd_session_id d,
      pl_ticket = cd_ticket d, pl_rdma_token = rdma_token,
      pl_chunk_offset = (if cd_upload_id d = [] then chunk_offset else u64_sub chunk_offset (cd_part_base_offset d)),
      pl_chunk_size = chunk_size, pl_upload_id = cd_upload_id d, pl_part_number = cd_part_number d\<rparr>"

definition Dispatch ::
  "'w Platform \<Rightarrow> ClientOptions \<Rightarrow> ChunkDispatcher \<Rightarrow> string \<Rightarrow> nat \<Rightarrow> nat \<Rightarrow> ('w, DispatchOutcome cresult) client" where
  "Dispatch P opts d rdma_token chunk_offset chunk_size =
     (if rdma_token = []
      then ret (Inl (MakeTransportFailure ''GDS chunk dispatched without a valid RDMA token'' GPUDirect (cd_request_id d) True))
      else do {
        response \<leftarrow> GdsChunk P (MakeChunkOp opts (chunk_plan_of d rdma_token chunk_offset chunk_size));
        or_fail response (\<lambda>v. ret (Inr
          \<lparr>do_gateway_id = gcp_selected_gateway v, do_transfer_status = gcp_transfer_status v,
           do_rdma_reply = gcp_rdma_reply v, do_etag = gcp_etag v, do_version = gcp_version v,
           do_crc32c = gcp_crc32c v\<rparr>)) })"

section \<open>Token-direct transfers\<close>

definition transfer_outcome :: "TransferSession \<Rightarrow> DispatchOutcome \<Rightarrow> nat \<Rightarrow> TransferOutcome" where
  "transfer_outcome ses v nbytes =
     \<lparr>to_selected_flow = GPUDirect, to_bytes_transferred = nbytes, to_request_id = ts_request_id ses,
      to_session_id = ts_session_id ses,
      to_transfer_status = (if do_transfer_status v = [] then ''completed'' else do_transfer_status v),
      to_gateway_id = (if do_gateway_id v = [] then ts_gateway_id ses else do_gateway_id v),
      to_rdma_reply = do_rdma_reply v, to_etag = do_etag v, to_version = do_version v,
      to_server_crc32c = (if do_crc32c v \<noteq> 0 then Some (do_crc32c v) else None)\<rparr>"

text \<open>The token of a transfer is given back when it goes out of scope, whatever the outcome.\<close>

definition with_token ::
  "'w Platform \<Rightarrow> nat \<Rightarrow> nat \<Rightarrow> OperationType \<Rightarrow> (string \<Rightarrow> ('w, 'a cresult) client) \<Rightarrow> ('w, 'a cresult) client" where
  "with_token P ptr sz op body = do {
     tok \<leftarrow> AcquireToken P ptr sz 0 op;
     or_fail tok (\<lambda>t. do { r \<leftarrow> body t; _ \<leftarrow> GdsRdmaToken_Reset P t; ret r }) }"

definition ExecuteTransferGet ::
  "'w Platform \<Rightarrow> ClientOptions \<Rightarrow> TransferSession \<Rightarrow> GetObjectRequest \<Rightarrow> nat \<Rightarrow> nat \<Rightarrow> ('w, TransferOutcome cresult) client" where
  "ExecuteTransferGet P opts ses q buffer buffer_size =
     (if buffer = 0 \<or> buffer_size = 0
      then ret (Inl (MakeInvalidArgument ''GDS transfer requires non-null buffer and positive size''))
      else let req_bytes = min (case get_length q of None \<Rightarrow> buffer_size | Some n \<Rightarrow> n) buffer_size in
      if req_bytes = 0 then ret (Inl (MakeInvalidArgument ''Requested transfer length is zero''))
      else with_token P buffer req_bytes kGet (\<lambda>tok. do {
        disp \<leftarrow> Dispatch P opts (ChunkDispatcher_get ses q kGet) tok (get_offset q) req_bytes;
        or_fail disp (\<lambda>v. do {
          _ \<leftarrow> report_progress (get_progress_callback q) req_bytes req_bytes GPUDirect;
          ret (Inr (transfer_outcome ses v req_bytes)) }) }))"

definition ExecuteTransferPut ::
  "'w Platform \<Rightarrow> ClientOptions \<Rightarrow> TransferSession \<Rightarrow> PutObjectRequest \<Rightarrow> nat \<Rightarrow> nat \<Rightarrow> string \<Rightarrow> nat
   \<Rightarrow> ('w, TransferOutcome cresult) client" where
  "ExecuteTransferPut P opts ses q buffer buffer_size upload_id part_number =
     (if buffer = 0 \<or> buffer_size = 0
      then ret (Inl (MakeInvalidArgument ''GDS transfer requires non-null buffer and positive size''))
      else with_token P buffer buffer_size kPut (\<lambda>tok. do {
        let d = ChunkDispatcher_put ses q kPut;
        let d = (if upload_id \<noteq> [] then SetMultipart upload_id part_number d else d);
        disp \<leftarrow> Dispatch P opts d tok 0 buffer_size;
        or_fail disp (\<lambda>v. do {
          _ \<leftarrow> report_progress (put_progress_callback q) buffer_size buffer_size GPUDirect;
          ret (Inr (transfer_outcome ses v buffer_size)) }) }))"

definition ExecuteGet ::
  "'w Platform \<Rightarrow> ClientOptions \<Rightarrow> TransferSession \<Rightarrow> GetObjectRequest \<Rightarrow> BufferView \<Rightarrow> ('w, TransferOutcome cresult) client" where
  "ExecuteGet P opts ses q b = ExecuteTransferGet P opts ses q (bv_data b) (bv_size b)"

definition ExecutePut ::
  "'w Platform \<Rightarrow> ClientOptions \<Rightarrow> TransferSession \<Rightarrow> PutObjectRequest \<Rightarrow> BufferView \<Rightarrow> ('w, TransferOutcome cresult) client" where
  "ExecutePut P opts ses q b = ExecuteTransferPut P opts ses q (bv_data b) (bv_size b) [] 0"

definition ExecutePutPart ::
  "'w Platform \<Rightarrow> ClientOptions \<Rightarrow> TransferSession \<Rightarrow> PutObjectRequest \<Rightarrow> BufferView \<Rightarrow> string \<Rightarrow> nat
   \<Rightarrow> ('w, TransferOutcome cresult) client" where
  "ExecutePutPart P opts ses q b upload_id part_number =
     ExecuteTransferPut P opts ses q (bv_data b) (bv_size b) upload_id part_number"

section \<open>Preflight\<close>

fun BufferTypeName :: "BufferType \<Rightarrow> string" where
  "BufferTypeName kHostRegular = ''kHostRegular''"
| "BufferTypeName kHostPinned = ''kHostPinned''"
| "BufferTypeName kCudaDevice = ''kCudaDevice''"

definition CommonPreflight ::
  "DataFlow \<Rightarrow> string \<Rightarrow> bool \<Rightarrow> BufferType \<Rightarrow> BufferType \<Rightarrow> bool cresult" where
  "CommonPreflight path name available actual required =
     (if \<not> available then Inl (MakeUnsupportedPath path (name @ '' path is not available on this client''))
      else if actual \<noteq> required
      then Inl (MakeUnsupportedPath path (name @ '' path requires buffer.type='' @ BufferTypeName required @
                  '', got buffer.type='' @ BufferTypeName actual))
      else Inr True)"

definition PreflightGds :: "bool \<Rightarrow> BufferType \<Rightarrow> bool cresult" where
  "PreflightGds available t =
     CommonPreflight GPUDirect ''GDS (requires kCudaDevice GPU buffer)'' available t kCudaDevice"

section \<open>Opening sessions\<close>

definition open_session :: "'w Platform \<Rightarrow> ClientOptions \<Rightarrow> SessionPlan \<Rightarrow> ('w, OpenSessionResponse cresult) client" where
  "open_session P opts plan = do {
     r1 \<leftarrow> ext (p_random P);
     r2 \<leftarrow> ext (p_random P);
     RpcOpenTransferSession P (MakeSessionHandshake opts r1 r2 plan) }"

definition OpenSessionForGet ::
  "'w Platform \<Rightarrow> ClientOptions \<Rightarrow> GetObjectRequest \<Rightarrow> BufferView \<Rightarrow> ('w, TransferSession cresult) client" where
  "OpenSessionForGet P opts q b =
     or_fail (GdsMemoryRegistry_Register kGet b) (\<lambda>_. do {
       open_response \<leftarrow> open_session P opts
         \<lparr>sp_operation = kGet, sp_bucket = get_bucket q, sp_key = get_key q, sp_offset = get_offset q,
          sp_length = get_length q, sp_timeout = get_timeout_ms q, sp_idempotency_key = [],
          sp_buffer_type = bv_type b, sp_path = GPUDirect, sp_is_multipart_part = False\<rparr>;
       or_fail open_response (\<lambda>r. ret (Inr (ImportSession r))) })"

definition put_plan :: "PutObjectRequest \<Rightarrow> BufferView \<Rightarrow> DataFlow \<Rightarrow> bool \<Rightarrow> SessionPlan" where
  "put_plan q b path is_part =
     \<lparr>sp_operation = kPut, sp_bucket = put_bucket q, sp_key = put_key q, sp_offset = 0, sp_length = None,
      sp_timeout = put_timeout_ms q, sp_idempotency_key = put_idempotency_key q, sp_buffer_type = bv_type b,
      sp_path = path, sp_is_multipart_part = is_part\<rparr>"

definition OpenSessionForPut ::
  "'w Platform \<Rightarrow> ClientOptions \<Rightarrow> PutObjectRequest \<Rightarrow> BufferView \<Rightarrow> ('w, TransferSession cresult) client" where
  "OpenSessionForPut P opts q b =
     or_fail (GdsMemoryRegistry_Register kPut b) (\<lambda>_. do {
       open_response \<leftarrow> open_session P opts (put_plan q b GPUDirect False);
       or_fail open_response (\<lambda>r. ret (Inr (ImportSession r))) })"

section \<open>The transfer path\<close>

definition kGpuPageSize :: nat where
  "kGpuPageSize = 4096"

definition GetObjectSingle ::
  "'w Platform \<Rightarrow> ClientOptions \<Rightarrow> GetObjectRequest \<Rightarrow> BufferView \<Rightarrow> ('w, TransferOutcome cresult) client" where
  "GetObjectSingle P opts q b = do {
     ses \<leftarrow> OpenSessionForGet P opts q b;
     or_fail ses (\<lambda>ses. ExecuteGet P opts ses q b) }"

text \<open>The sub-requests of a parallel GET: indices in order, the last one with the remainder, empty ones skipped.\<close>

fun parallel_subs ::
  "nat \<Rightarrow> nat \<Rightarrow> nat \<Rightarrow> GetObjectRequest \<Rightarrow> BufferView \<Rightarrow> nat \<Rightarrow> nat \<Rightarrow> nat list \<Rightarrow> (GetObjectRequest \<times> BufferView) list" where
  "parallel_subs k base_aligned rem_bytes q b cursor_off cursor_buf [] = []"
| "parallel_subs k base_aligned rem_bytes q b cursor_off cursor_buf (i # is) =
     (let len = (if i = k - 1 then base_aligned + rem_bytes else base_aligned) in
      if len = 0 then parallel_subs k base_aligned rem_bytes q b cursor_off cursor_buf is
      else (q\<lparr>get_offset := cursor_off, get_length := Some len, get_progress_callback := False\<rparr>,
            \<lparr>bv_data = bv_data b + cursor_buf, bv_size = len, bv_type = bv_type b\<rparr>)
           # parallel_subs k base_aligned rem_bytes q b (u64_add cursor_off len) (cursor_buf + len) is)"

definition parallel_plan :: "nat \<Rightarrow> nat \<Rightarrow> GetObjectRequest \<Rightarrow> BufferView \<Rightarrow> (GetObjectRequest \<times> BufferView) list" where
  "parallel_plan k nbytes q b =
     (let base_aligned = (nbytes div k div kGpuPageSize) * kGpuPageSize;
          rem_bytes = nbytes - base_aligned * k in
      parallel_subs k base_aligned rem_bytes q b (get_offset q) 0 [0..<k])"

fun run_subs ::
  "'w Platform \<Rightarrow> ClientOptions \<Rightarrow> (GetObjectRequest \<times> BufferView) list \<Rightarrow> ('w, TransferOutcome cresult list) client" where
  "run_subs P opts [] = ret []"
| "run_subs P opts ((q, b) # subs) = do {
     r \<leftarrow> GetObjectSingle P opts q b;
     rs \<leftarrow> run_subs P opts subs;
     ret (r # rs) }"

definition first_of :: "string \<Rightarrow> string \<Rightarrow> string" where
  "first_of acc v = (if acc = [] then v else acc)"

text \<open>The loop over the futures.\<close>

fun gather ::
  "bool \<Rightarrow> nat \<Rightarrow> TransferOutcome cresult list \<Rightarrow> TransferOutcome \<Rightarrow> ('w, TransferOutcome cresult) client" where
  "gather callback nbytes [] acc = ret (Inr acc)"
| "gather callback nbytes (r # rs) acc =
     or_fail r (\<lambda>v. do {
       let acc = acc\<lparr>to_bytes_transferred := to_bytes_transferred acc + to_bytes_transferred v,
         to_etag := first_of (to_etag acc) (to_etag v), to_version := first_of (to_version acc) (to_version v),
         to_request_id := first_of (to_request_id acc) (to_request_id v),
         to_session_id := first_of (to_session_id acc) (to_session_id v),
         to_gateway_id := first_of (to_gateway_id acc) (to_gateway_id v)\<rparr>;
       _ \<leftarrow> report_progress callback (to_bytes_transferred acc) nbytes GPUDirect;
       gather callback nbytes rs acc })"

definition GetObjectParallel ::
  "'w Platform \<Rightarrow> ClientOptions \<Rightarrow> nat \<Rightarrow> GetObjectRequest \<Rightarrow> BufferView \<Rightarrow> ('w, TransferOutcome cresult) client" where
  "GetObjectParallel P opts nbytes q b =
     (let k = min (parallel_get_chunks (o_gds opts)) nbytes in
      if k \<le> 1 then GetObjectSingle P opts q b
      else do {
        rs \<leftarrow> run_subs P opts (parallel_plan k nbytes q b);
        gather (get_progress_callback q) nbytes rs
          (TransferOutcome_default\<lparr>to_selected_flow := GPUDirect, to_transfer_status := ''completed''\<rparr>) })"

definition GdsTransferPath_available :: "PlatformCapabilities \<Rightarrow> bool" where
  "GdsTransferPath_available caps = cuobject_available caps"

text \<open>\<^verbatim>\<open>executor\<close> tells whether the provider returns an executor.\<close>

definition GdsTransferPath_GetObject ::
  "'w Platform \<Rightarrow> ClientOptions \<Rightarrow> PlatformCapabilities \<Rightarrow> bool \<Rightarrow> GetObjectRequest \<Rightarrow> BufferView
   \<Rightarrow> ('w, TransferOutcome cresult) client" where
  "GdsTransferPath_GetObject P opts caps executor q b =
     or_fail (PreflightGds (GdsTransferPath_available caps) (bv_type b)) (\<lambda>_.
       case get_length q of
         Some n \<Rightarrow>
           if n \<ge> parallel_get_threshold (o_gds opts) \<and> parallel_get_chunks (o_gds opts) \<ge> 2 \<and> executor
           then GetObjectParallel P opts n q b else GetObjectSingle P opts q b
       | None \<Rightarrow> GetObjectSingle P opts q b)"

definition too_large :: "ClientOptions \<Rightarrow> string \<Rightarrow> string \<Rightarrow> BufferView \<Rightarrow> bool cresult" where
  "too_large opts what hint b =
     (let max_put = put_single_max_bytes (o_gds opts) in
      if max_put \<noteq> 0 \<and> bv_size b > max_put
      then Inl (ClientMakeError kPayloadTooLarge (what @ dec (bv_size b) @ '' exceeds gds.put_single_max_bytes '' @
                  dec max_put @ hint) False [] [])
      else Inr True)"

text \<open>One attempt of a PUT: a failed transfer marks its session failed on the gateway before the next attempt opens a
  new one.\<close>

definition put_attempt ::
  "'w Platform \<Rightarrow> ClientOptions \<Rightarrow> int \<Rightarrow> string \<Rightarrow> PutObjectRequest \<Rightarrow> BufferView
   \<Rightarrow> (TransferSession \<Rightarrow> ('w, TransferOutcome cresult) client) \<Rightarrow> ('w, TransferOutcome cresult) client" where
  "put_attempt P opts deadline what q b exec = do {
     now \<leftarrow> ext (p_now P);
     if now \<ge> deadline then ret (Inl (ClientMakeError kTimeout (what @ '' retry deadline exceeded'') True [] []))
     else do {
       ses \<leftarrow> OpenSessionForPut P opts q b;
       or_fail ses (\<lambda>ses. do {
         outcome \<leftarrow> exec ses;
         (case outcome of
            Inr _ \<Rightarrow> ret outcome
          | Inl _ \<Rightarrow> do { _ \<leftarrow> MetadataClient_AbortSession P opts (ts_session_id ses); ret outcome }) }) } }"

definition GdsTransferPath_PutObject ::
  "'w Platform \<Rightarrow> ClientOptions \<Rightarrow> PlatformCapabilities \<Rightarrow> PutObjectRequest \<Rightarrow> BufferView \<Rightarrow> ('w, TransferOutcome cresult) client" where
  "GdsTransferPath_PutObject P opts caps q b =
     or_fail (PreflightGds (GdsTransferPath_available caps) (bv_type b)) (\<lambda>_.
     or_fail (too_large opts ''GDS PUT body '' ''; use multipart upload'' b) (\<lambda>_. do {
       now \<leftarrow> ext (p_now P);
       RetryIfRetryable P DefaultRetryPolicy
         (put_attempt P opts (now + o_request_timeout opts) ''PutObject'' q b (\<lambda>ses. ExecutePut P opts ses q b)) }))"

definition GdsTransferPath_PutObjectPart ::
  "'w Platform \<Rightarrow> ClientOptions \<Rightarrow> PlatformCapabilities \<Rightarrow> PutObjectRequest \<Rightarrow> BufferView \<Rightarrow> string \<Rightarrow> nat
   \<Rightarrow> ('w, TransferOutcome cresult) client" where
  "GdsTransferPath_PutObjectPart P opts caps q b upload_id part_number =
     or_fail (PreflightGds (GdsTransferPath_available caps) (bv_type b)) (\<lambda>_.
     or_fail (too_large opts ''GDS UploadPart body '' [] b) (\<lambda>_. do {
       now \<leftarrow> ext (p_now P);
       RetryIfRetryable P DefaultRetryPolicy
         (put_attempt P opts (now + o_request_timeout opts) ''PutObjectPart'' q b
            (\<lambda>ses. ExecutePutPart P opts ses q b upload_id part_number)) }))"

section \<open>The split of a parallel GET\<close>

abbreviation sub_range :: "GetObjectRequest \<times> BufferView \<Rightarrow> nat list" where
  "sub_range s \<equiv> [get_offset (fst s)..<get_offset (fst s) + bv_size (snd s)]"

abbreviation sub_addresses :: "GetObjectRequest \<times> BufferView \<Rightarrow> nat list" where
  "sub_addresses s \<equiv> [bv_data (snd s)..<bv_data (snd s) + bv_size (snd s)]"

lemma upt_glue: "[a..<a + m] @ [a + m..<a + (m + n)] = [a..<a + (m + n)]"
  using upt_add_eq_append [of a "a + m" n] by (simp add: add.assoc)

lemma subs_cover:
  assumes "j < k" "off + (base * (k - j) + rm) < u64_mod"
  shows "concat (map sub_range (parallel_subs k base rm q b off pos [j..<k])) = [off..<off + (base * (k - j) + rm)]"
    "concat (map sub_addresses (parallel_subs k base rm q b off pos [j..<k])) =
       [bv_data b + pos..<bv_data b + pos + (base * (k - j) + rm)]"
  using assms
proof (induction "k - Suc j" arbitrary: j off pos)
  case 0
  {
    case 1
    then have "k = Suc j" using 0 by simp
    then show ?case by (simp add: Let_def)
  next
    case 2
    then have "k = Suc j" using 0 by simp
    then show ?case by (simp add: Let_def)
  }
next
  case (Suc n)
  have upt: "[j..<k] = j # [Suc j..<k]" "j \<noteq> k - 1" if "j < k" using Suc(3) that by (auto simp: upt_rec)
  have split: "base * (k - j) + rm = base + (base * (k - Suc j) + rm)" if "j < k"
    using Suc(3) that by (metis Suc_diff_Suc add.assoc mult_Suc_right)
  {
    case 1
    note IH = Suc(1) [of "Suc j" "u64_add off base" "pos + base"]
    have add: "u64_add off base = off + base" using 1 split by (intro u64_add_exact) simp
    show ?case using IH 1 Suc(3) split add upt_glue [of off base "base * (k - Suc j) + rm"]
      by (cases "base = 0") (auto simp: upt Let_def add.assoc)
  next
    case 2
    note IH = Suc(2) [of "Suc j" "u64_add off base" "pos + base"]
    have add: "u64_add off base = off + base" using 2 split by (intro u64_add_exact) simp
    show ?case using IH 2 Suc(3) split add upt_glue [of "bv_data b + pos" base "base * (k - Suc j) + rm"]
      by (cases "base = 0") (auto simp: upt Let_def add.assoc)
  }
qed

lemma subs_shape:
  assumes "s \<in> set (parallel_subs k base rm q b off pos is)"
  shows "get_length (fst s) = Some (bv_size (snd s)) \<and> 0 < bv_size (snd s) \<and> bv_type (snd s) = bv_type b \<and>
    get_bucket (fst s) = get_bucket q \<and> get_key (fst s) = get_key q \<and> \<not> get_progress_callback (fst s)"
  using assms by (induction k base rm q b off pos "is" rule: parallel_subs.induct) (auto simp: Let_def split: if_splits)

lemma subs_length: "length (parallel_subs k base rm q b off pos is) \<le> length is"
  by (induction k base rm q b off pos "is" rule: parallel_subs.induct) (auto simp: Let_def)

lemma subs_before_last:
  "k - 1 \<notin> set is \<Longrightarrow> s \<in> set (parallel_subs k base rm q b off pos is) \<Longrightarrow> bv_size (snd s) = base"
  by (induction k base rm q b off pos "is" rule: parallel_subs.induct) (auto simp: Let_def split: if_splits)

lemma subs_append:
  "\<exists>off' pos'. parallel_subs k base rm q b off pos (is @ js) =
     parallel_subs k base rm q b off pos is @ parallel_subs k base rm q b off' pos' js"
  by (induction k base rm q b off pos "is" rule: parallel_subs.induct) (auto simp: Let_def)

lemma subs_aligned:
  assumes "s \<in> set (butlast (parallel_subs k base rm q b off pos [0..<k]))" "0 < k"
  shows "bv_size (snd s) = base"
proof -
  have "[0..<k] = [0..<k - 1] @ [k - 1]" using assms(2) upt_Suc_append [of 0 "k - 1"] by simp
  then obtain off' pos' where split: "parallel_subs k base rm q b off pos [0..<k] =
      parallel_subs k base rm q b off pos [0..<k - 1] @ parallel_subs k base rm q b off' pos' [k - 1]"
    using subs_append [of k base rm q b off pos "[0..<k - 1]" "[k - 1]"] by auto
  have "set (butlast (parallel_subs k base rm q b off pos [0..<k])) \<subseteq> set (parallel_subs k base rm q b off pos [0..<k - 1])"
    unfolding split by (auto simp: Let_def butlast_append dest: in_set_butlastD)
  then show ?thesis using assms(1) by (intro subs_before_last [of k "[0..<k - 1]"]) auto
qed

lemma plan_total: "0 < k \<Longrightarrow> (n div k div p) * p * k + (n - (n div k div p) * p * k) = (n :: nat)"
  by (metis div_times_less_eq_dividend le_add_diff_inverse le_trans mult_le_mono1)

lemma plan_cover:
  assumes "0 < k" "get_offset q + n < u64_mod"
  shows "concat (map sub_range (parallel_plan k n q b)) = [get_offset q..<get_offset q + n]"
    "concat (map sub_addresses (parallel_plan k n q b)) = [bv_data b..<bv_data b + n]"
proof -
  let ?base = "(n div k div kGpuPageSize) * kGpuPageSize"
  have sum: "?base * k + (n - ?base * k) = n" by (rule plan_total [OF assms(1)])
  show "concat (map sub_range (parallel_plan k n q b)) = [get_offset q..<get_offset q + n]"
    "concat (map sub_addresses (parallel_plan k n q b)) = [bv_data b..<bv_data b + n]"
    using subs_cover [of 0 k "get_offset q" ?base "n - ?base * k" q b 0] assms sum by (simp_all add: parallel_plan_def Let_def)
qed

lemma plan_shape:
  "s \<in> set (parallel_plan k n q b) \<Longrightarrow> get_length (fst s) = Some (bv_size (snd s)) \<and> 0 < bv_size (snd s) \<and>
     bv_type (snd s) = bv_type b \<and> get_bucket (fst s) = get_bucket q \<and> get_key (fst s) = get_key q \<and> \<not> get_progress_callback (fst s)"
  unfolding parallel_plan_def Let_def by (rule subs_shape)

text \<open>A parallel GET asks for exactly the bytes of the request. The sub-requests, in order, cover the requested
  byte range and the destination addresses without gap or overlap; each is non-empty and as long as its destination view,
  there are at most as many as configured, and all but the last are a multiple of the GPU page size.\<close>

theorem parallel_get_partition:
  assumes "2 \<le> k" "get_offset q + n < u64_mod"
  shows "concat (map sub_range (parallel_plan k n q b)) = [get_offset q..<get_offset q + n] \<and>
    concat (map sub_addresses (parallel_plan k n q b)) = [bv_data b..<bv_data b + n] \<and>
    length (parallel_plan k n q b) \<le> k \<and>
    (\<forall>s \<in> set (parallel_plan k n q b). get_length (fst s) = Some (bv_size (snd s)) \<and> 0 < bv_size (snd s)) \<and>
    (\<forall>s \<in> set (butlast (parallel_plan k n q b)). bv_size (snd s) mod kGpuPageSize = 0)"
proof -
  let ?base = "(n div k div kGpuPageSize) * kGpuPageSize"
  note cover = plan_cover [of k q n b]
  have "length (parallel_plan k n q b) \<le> k"
    using subs_length [of k ?base _ q b _ _ "[0..<k]"] by (simp add: parallel_plan_def Let_def)
  moreover have "\<forall>s \<in> set (parallel_plan k n q b). get_length (fst s) = Some (bv_size (snd s)) \<and> 0 < bv_size (snd s)"
    using plan_shape by blast
  moreover have "\<forall>s \<in> set (butlast (parallel_plan k n q b)). bv_size (snd s) mod kGpuPageSize = 0"
    using subs_aligned [of _ k ?base] assms(1) by (auto simp: parallel_plan_def Let_def)
  ultimately show ?thesis using cover assms by simp
qed

definition example_get :: GetObjectRequest where
  "example_get = GetObjectRequest_default\<lparr>get_bucket := ''b'', get_key := ''k'', get_offset := 5, get_length := Some 10000\<rparr>"

theorem parallel_get_partition_witness:
  "concat (map sub_range (parallel_plan 2 10000 example_get \<lparr>bv_data = 64, bv_size = 10000, bv_type = kCudaDevice\<rparr>)) =
     [get_offset example_get..<get_offset example_get + 10000]"
proof -
  have "get_offset example_get + 10000 < u64_mod" by (simp add: example_get_def u64_mod_def)
  from parallel_get_partition [OF order_refl this] show ?thesis by blast
qed

text \<open>The split never looks at the size of the destination: when the caller's buffer is shorter than the requested
  length, which the single-session GET cuts down to the buffer, some sub-request is sent with a view beyond its end.\<close>

theorem parallel_get_overruns_buffer:
  assumes "2 \<le> k" "get_offset q + n < u64_mod" "bv_size b < n"
  shows "\<exists>s \<in> set (parallel_plan k n q b). bv_data b + bv_size b < bv_data (snd s) + bv_size (snd s)"
proof -
  have "concat (map sub_addresses (parallel_plan k n q b)) = [bv_data b..<bv_data b + n]" using plan_cover(2) assms(1,2) by simp
  then have "bv_data b + (n - 1) \<in> set (concat (map sub_addresses (parallel_plan k n q b)))" using assms(3) by simp
  then show ?thesis using assms(3) by (auto intro!: bexI)
qed

section \<open>Tokens and descriptors\<close>

text \<open>The whole cuObject interface: beside the descriptors, the tokens that are alive in the library. RPCs, the clock and the
  random engine touch neither.\<close>

locale cuobj_api = descriptor_api P held for P :: "'w Platform" and held :: "'w \<Rightarrow> nat set" +
  fixes live :: "'w \<Rightarrow> string multiset"
  assumes get_token: "p_get_rdma_token P ptr n off b w = (tok, w') \<Longrightarrow>
      live w' = live w + (case tok of None \<Rightarrow> {#} | Some t \<Rightarrow> {#t#})"
    and put_token: "live (snd (p_put_rdma_token P t w)) = live w - {#t#}"
    and live_others: "quiet live (p_get_descriptor P ptr n)" "quiet live (p_put_descriptor P ptr)"
      "quiet live (p_dlopen P nm)" "quiet live (p_dlsym P h nm)" "quiet live (p_dlclose P h)"
      "quiet live (p_constructor P)" "quiet live (p_is_connected P)" "quiet live (p_destructor P)"
    and rpcs: "quiet (\<lambda>w. (held w, live w)) (p_now P)" "quiet (\<lambda>w. (held w, live w)) (p_random P)"
      "quiet (\<lambda>w. (held w, live w)) (p_jitter P)" "quiet (\<lambda>w. (held w, live w)) (p_sleep_ms P ms)"
      "quiet (\<lambda>w. (held w, live w)) (p_OpenSession P ch c os)" "quiet (\<lambda>w. (held w, live w)) (p_GdsGet P ch c gr)"
      "quiet (\<lambda>w. (held w, live w)) (p_GdsPut P ch c gr)" "quiet (\<lambda>w. (held w, live w)) (p_AbortSession P ch c sid)"
begin

definition accounts :: "string multiset \<Rightarrow> 'w ClientState \<Rightarrow> bool" where
  "accounts L s \<longleftrightarrow> mirrors s \<and> live (cw s) = L"

lemma ext_quiet: "quiet (\<lambda>w. (held w, live w)) c \<Longrightarrow> preserves (accounts L) (ext c)"
  by (rule preserves_ext) (simp add: accounts_def mirrors_def quiet_def)

lemmas ext_rpcs = rpcs [THEN ext_quiet]

lemma live_steady:
  "preserves (\<lambda>s. live (cw s) = L) (CuObjState_Get P)" "preserves (\<lambda>s. live (cw s) = L) (RegisterUnderLock P ptr n)"
proof -
  have res: "preserves (\<lambda>s. live (cw s) = L) (ResolveApi P lib names)" for lib names
    by (induction names) (simp_all add: ResolveSymbol_def mon_intros,
        intro mon_intros preserves_ext, simp_all add: live_others [THEN quietD])
  have load: "preserves (\<lambda>s. live (cw s) = L) (CuObjLibrary_Load P cs)" for cs
    by (induction cs) (simp_all add: mon_intros, intro mon_intros preserves_ext res, simp_all add: live_others [THEN quietD])
  show "preserves (\<lambda>s. live (cw s) = L) (CuObjState_Get P)"
    unfolding CuObjState_Get_def CuObjState_construct_def CuObjLibrary_Get_def
    by (intro mon_intros preserves_ext load preserves_modify) (simp_all add: live_others [THEN quietD])
  show "preserves (\<lambda>s. live (cw s) = L) (RegisterUnderLock P ptr n)"
    unfolding RegisterUnderLock_def
    by (intro mon_intros preserves_ext preserves_modify) (simp_all add: live_others [THEN quietD])
qed

lemma accounts_cuobj:
  "preserves (accounts L) (CuObjState_Get P)" "preserves (accounts L) (RegisterUnderLock P ptr n)"
  using live_steady Get_mirrors RegisterUnderLock_mirrors by (auto simp: preserves_def accounts_def)

lemma AcquireToken_accounts:
  "valid (accounts L) (AcquireToken P ptr n off op)
     (\<lambda>r s. case r of Inl e \<Rightarrow> accounts L s | Inr t \<Rightarrow> accounts (add_mset t L) s)"
proof -
  have tok: "valid (accounts L) (do { tok \<leftarrow> ext (p_get_rdma_token P ptr n off b);
      ret (case tok of None \<Rightarrow> Inl e | Some t \<Rightarrow> Inr t) })
    (\<lambda>r s. case r of Inl e \<Rightarrow> accounts L s | Inr t \<Rightarrow> accounts (add_mset t L) s)" for b e
    using others(1) [THEN quietD, of ptr n off b] get_token [OF prod.collapse [symmetric], of ptr n off b]
    by (simp add: valid_def accounts_def mirrors_def split_beta split: option.split)
  show ?thesis
    unfolding AcquireToken_def
    by (intro valid_intros accounts_cuobj preserves_cases preserves_ret tok) simp_all
qed

lemma Reset_accounts: "valid (accounts (add_mset t L)) (GdsRdmaToken_Reset P t) (\<lambda>_. accounts L)"
  using others(2) [THEN quietD, of t] put_token [of t]
  by (auto simp: valid_def GdsRdmaToken_Reset_def accounts_def mirrors_def split_beta)

lemma with_token_accounts:
  assumes "\<And>t L. preserves (accounts L) (body t)"
  shows "preserves (accounts L) (with_token P ptr n op body)"
  unfolding valid_preserves with_token_def
proof (rule valid_seq [OF AcquireToken_accounts])
  fix tok
  show "valid (\<lambda>s. case tok of Inl e \<Rightarrow> accounts L s | Inr t \<Rightarrow> accounts (add_mset t L) s)
    (or_fail tok (\<lambda>t. do { r \<leftarrow> body t; _ \<leftarrow> GdsRdmaToken_Reset P t; ret r })) (\<lambda>_. accounts L)"
  proof (cases tok)
    case (Inr t)
    have "valid (accounts (add_mset t L)) (do { r \<leftarrow> body t; _ \<leftarrow> GdsRdmaToken_Reset P t; ret r }) (\<lambda>_. accounts L)"
      by (rule valid_bind [OF assms valid_seq [OF Reset_accounts valid_ret]])
    then show ?thesis using Inr by simp
  qed (simp add: valid_ret)
qed

lemma report_progress_accounts: "preserves (accounts L) (report_progress cb x y f)"
  unfolding report_progress_def by (intro mon_intros preserves_modify) (simp add: accounts_def mirrors_def)

lemma Dispatch_accounts: "preserves (accounts L) (Dispatch P opts d tok off n)"
  unfolding Dispatch_def GdsChunk_def by (intro mon_intros ext_rpcs) (simp_all add: ext_rpcs)

lemma open_accounts: "preserves (accounts L) (open_session P opts plan)"
  unfolding open_session_def RpcOpenTransferSession_def by (intro mon_intros ext_rpcs)

lemma execute_accounts:
  "preserves (accounts L) (ExecuteTransferGet P opts ses q ptr n)"
  "preserves (accounts L) (ExecuteTransferPut P opts ses pq ptr n uid pn)"
  unfolding ExecuteTransferGet_def ExecuteTransferPut_def Let_def
  by (intro mon_intros with_token_accounts Dispatch_accounts report_progress_accounts)+

lemma single_accounts: "preserves (accounts L) (GetObjectSingle P opts q b)"
  unfolding GetObjectSingle_def OpenSessionForGet_def ExecuteGet_def
  by (intro mon_intros open_accounts execute_accounts)

lemma run_subs_accounts: "preserves (accounts L) (run_subs P opts subs)"
  by (induction subs) (auto intro!: mon_intros single_accounts)

lemma gather_accounts: "preserves (accounts L) (gather cb n rs acc)"
  by (induction rs arbitrary: acc) (auto simp: Let_def intro!: mon_intros report_progress_accounts)

lemma get_accounts: "preserves (accounts L) (GdsTransferPath_GetObject P opts caps executor q b)"
  unfolding GdsTransferPath_GetObject_def GetObjectParallel_def Let_def
  by (intro mon_intros single_accounts run_subs_accounts gather_accounts)

lemma attempt_accounts:
  "(\<And>ses. preserves (accounts L) (exec ses)) \<Longrightarrow> preserves (accounts L) (put_attempt P opts dl what q b exec)"
  unfolding put_attempt_def OpenSessionForPut_def MetadataClient_AbortSession_def
  by (intro mon_intros open_accounts ext_rpcs)

lemma retry_accounts: "preserves (accounts L) fn \<Longrightarrow> preserves (accounts L) (RetryIfRetryable P policy fn)"
  using ext_rpcs(3,4) by (intro preserves_Retry) (simp_all add: preserves_def split_beta)

lemma put_accounts:
  "preserves (accounts L) (GdsTransferPath_PutObject P opts caps q b)"
  "preserves (accounts L) (GdsTransferPath_PutObjectPart P opts caps q b uid pn)"
  unfolding GdsTransferPath_PutObject_def GdsTransferPath_PutObjectPart_def ExecutePut_def ExecutePutPart_def
  by (intro mon_intros ext_rpcs retry_accounts attempt_accounts execute_accounts)+

end


end
