(* ===== verification/Crc32c.thy ===== *)
theory Crc32c
  imports Common_Types
begin

text \<open>
  CRC-32C of \<^verbatim>\<open>gateway/src/common/crc32c.cpp\<close> and the base64 form in which the
  client sends it (\<^verbatim>\<open>client/src/core/common/crc32c_helper.cpp\<close>). The table-driven
  update is proved equal to the bit-serial division it optimises, the streaming
  interface to be insensitive to how the data is cut into chunks, the checksum
  to detect every change of a single byte, and the base64 parser to invert the
  encoder of the client.
\<close>

unbundle bit_operations_syntax

section \<open>Definitions\<close>

definition kPoly :: u32 where
  "kPoly = 0x82F63B78"

definition crc_shift :: "u32 \<Rightarrow> u32" where
  "crc_shift c = (if c AND 1 \<noteq> 0 then drop_bit 1 c XOR kPoly else drop_bit 1 c)"

definition MakeTable :: "u32 list" where
  "MakeTable = map (\<lambda>i. (crc_shift ^^ 8) (of_nat i)) [0..<256]"

definition kTable :: "u32 list" where
  "kTable = MakeTable"

definition Crc32cInit :: u32 where
  "Crc32cInit = 0xFFFFFFFF"

primrec Crc32cUpdate :: "u32 \<Rightarrow> bytes \<Rightarrow> u32" where
  "Crc32cUpdate state [] = state"
| "Crc32cUpdate state (p # ps) =
     Crc32cUpdate (drop_bit 8 state XOR kTable ! unat ((state XOR ucast p) AND 0xFF)) ps"

definition Crc32cFinalize :: "u32 \<Rightarrow> u32" where
  "Crc32cFinalize state = state XOR 0xFFFFFFFF"

definition Crc32c :: "bytes \<Rightarrow> u32" where
  "Crc32c data = Crc32cFinalize (Crc32cUpdate Crc32cInit data)"

text \<open>The reference: one bit of the message at a time, least significant bit of
  each byte first, divided by the reflected Castagnoli polynomial.\<close>

definition crc_bit :: "u32 \<Rightarrow> bool \<Rightarrow> u32" where
  "crc_bit s b = (if bit s 0 \<noteq> b then drop_bit 1 s XOR kPoly else drop_bit 1 s)"

definition byte_bits :: "byte \<Rightarrow> bool list" where
  "byte_bits p = map (bit p) [0..<8]"

definition crc_bitwise :: "u32 \<Rightarrow> bytes \<Rightarrow> u32" where
  "crc_bitwise s ps = foldl crc_bit s (concat (map byte_bits ps))"

section \<open>Base64\<close>

definition char_code :: "char \<Rightarrow> int" where
  "char_code c = int (of_char c)"

definition base64_idx :: "char \<Rightarrow> int" where
  "base64_idx c =
     (if 65 \<le> char_code c \<and> char_code c \<le> 90 then char_code c - 65
      else if 97 \<le> char_code c \<and> char_code c \<le> 122 then char_code c - 97 + 26
      else if 48 \<le> char_code c \<and> char_code c \<le> 57 then char_code c - 48 + 52
      else if c = CHR ''+'' then 62
      else if c = CHR ''/'' then 63
      else -1)"

fun base64_loop :: "string \<Rightarrow> bytes \<Rightarrow> u32 \<Rightarrow> int \<Rightarrow> bytes option" where
  "base64_loop [] out buf bits = Some out"
| "base64_loop (c # cs) out buf bits =
     (if c = CHR ''='' then Some out
      else let v = base64_idx c in
        if v < 0 then None
        else let buf = push_bit 6 buf OR word_of_int v; bits = bits + 6 in
          if bits \<ge> 8
          then base64_loop cs (out @ [ucast (drop_bit (nat (bits - 8)) buf AND 0xFF)]) buf (bits - 8)
          else base64_loop cs out buf bits)"

declare base64_loop.simps [simp del]

definition ParseBase64Crc32c :: "string \<Rightarrow> u32 option" where
  "ParseBase64Crc32c s =
     (if s = [] then None
      else case base64_loop s [] 0 0 of
        None \<Rightarrow> None
      | Some out \<Rightarrow>
          if length out < 4 then None
          else Some (push_bit 24 (ucast (out ! 0)) OR push_bit 16 (ucast (out ! 1))
                     OR push_bit 8 (ucast (out ! 2)) OR ucast (out ! 3)))"

text \<open>\<^verbatim>\<open>butil::Base64Encode\<close> is a parameter of the client's encoder.\<close>

definition Base64Crc32cBigEndian :: "(bytes \<Rightarrow> string) \<Rightarrow> u32 \<Rightarrow> string" where
  "Base64Crc32cBigEndian base64_encode crc32c =
     base64_encode [ucast (drop_bit 24 crc32c AND 0xFF), ucast (drop_bit 16 crc32c AND 0xFF),
                    ucast (drop_bit 8 crc32c AND 0xFF), ucast (crc32c AND 0xFF)]"

text \<open>The standard alphabet and the padding of RFC 4648 for a four-byte input, which
  is what the library promises.\<close>

definition base64_char :: "nat \<Rightarrow> char" where
  "base64_char n =
     (if n < 26 then char_of (65 + n)
      else if n < 52 then char_of (71 + n)
      else if n < 62 then char_of (n - 4)
      else if n = 62 then CHR ''+'' else CHR ''/'')"

definition sextet :: "byte \<Rightarrow> char" where
  "sextet w = base64_char (unat (w AND 0x3F))"

definition rfc4648_quad :: "(bytes \<Rightarrow> string) \<Rightarrow> bool" where
  "rfc4648_quad enc \<longleftrightarrow> (\<forall>a b c d. enc [a, b, c, d] =
     [sextet (drop_bit 2 a), sextet (push_bit 4 a OR drop_bit 4 b),
      sextet (push_bit 2 b OR drop_bit 6 c), sextet c,
      sextet (drop_bit 2 d), sextet (push_bit 4 d), CHR ''='', CHR ''=''])"

definition rfc4648_encode_quad :: "bytes \<Rightarrow> string" where
  "rfc4648_encode_quad bs = (case bs of [a, b, c, d] \<Rightarrow>
     [sextet (drop_bit 2 a), sextet (push_bit 4 a OR drop_bit 4 b),
      sextet (push_bit 2 b OR drop_bit 6 c), sextet c,
      sextet (drop_bit 2 d), sextet (push_bit 4 d), CHR ''='', CHR ''=''] | _ \<Rightarrow> [])"

section \<open>The table and the bit-serial reference\<close>

lemma crc_shift_bit: "crc_shift c = crc_bit c False"
  by (simp add: crc_shift_def crc_bit_def and_one_eq odd_iff_mod_2_eq_one bit_0)

lemma crc_bit_xor: "crc_bit (s XOR t) (b \<noteq> c) = crc_bit s b XOR crc_bit t c"
  by (auto simp: crc_bit_def bit_xor_iff drop_bit_xor ac_simps intro!: bit_word_eqI simp add: bit_simps)

lemma crc_shift_xor: "crc_shift (s XOR t) = crc_shift s XOR crc_shift t"
  using crc_bit_xor [of s t False False] by (simp add: crc_shift_bit)

lemma crc_shift_pow_xor: "(crc_shift ^^ k) (s XOR t) = (crc_shift ^^ k) s XOR (crc_shift ^^ k) t"
  by (induction k) (simp_all add: crc_shift_xor)

lemma crc_shift_pow_clear:
  "(\<forall>i<k. \<not> bit s i) \<Longrightarrow> (crc_shift ^^ k) s = drop_bit k s"
proof (induction k)
  case (Suc k)
  then have "\<not> bit (drop_bit k s) 0" by (simp add: bit_drop_bit_eq)
  with Suc show ?case
    by (simp add: crc_shift_bit crc_bit_def drop_bit_Suc [symmetric] drop_bit_drop_bit add.commute)
qed simp

lemma kTable_nth: "i < 256 \<Longrightarrow> kTable ! i = (crc_shift ^^ 8) (of_nat i)"
  by (simp add: kTable_def MakeTable_def)

lemma crc_shift_of_bool: "crc_shift (x XOR of_bool b) = crc_bit x b"
proof -
  have "crc_bit (of_bool b) b = 0" by (cases b) (simp_all add: crc_bit_def)
  then show ?thesis using crc_bit_xor [of x "of_bool b" b b] by (simp add: crc_shift_bit)
qed

lemma take_bit_Suc_xor:
  fixes q :: u32
  shows "take_bit (Suc k) q = take_bit k q XOR push_bit k (of_bool (bit q k))"
  by (rule bit_word_eqI) (auto simp: bit_simps less_Suc_eq)

lemma foldl_crc_bit:
  fixes q :: u32
  assumes "k \<le> 32"
  shows "foldl crc_bit s (map (bit q) [0..<k]) = (crc_shift ^^ k) (s XOR take_bit k q)"
  using assms
proof (induction k)
  case (Suc k)
  let ?x = "(crc_shift ^^ k) (s XOR take_bit k q)"
  let ?b = "of_bool (bit q k) :: u32"
  have "(crc_shift ^^ k) (push_bit k ?b) = ?b"
  proof -
    have "(crc_shift ^^ k) (push_bit k ?b) = drop_bit k (push_bit k ?b)"
      by (rule crc_shift_pow_clear) (auto simp: bit_simps)
    also have "\<dots> = ?b" using Suc.prems
      by (intro bit_word_eqI) (auto simp: bit_simps)
    finally show ?thesis .
  qed
  then have "(crc_shift ^^ k) (s XOR take_bit (Suc k) q) = ?x XOR ?b"
    by (simp add: take_bit_Suc_xor crc_shift_pow_xor xor.assoc [symmetric])
  then have "(crc_shift ^^ Suc k) (s XOR take_bit (Suc k) q) = crc_bit ?x (bit q k)"
    by (simp add: crc_shift_of_bool)
  then show ?case using Suc by simp
qed simp

lemma byte_bit_less: "bit (p :: byte) n \<Longrightarrow> n < 8"
  using bit_imp_le_length [of p n] by simp

lemma word_bit_less: "bit (s :: u32) n \<Longrightarrow> n < 32"
  using bit_imp_le_length [of s n] by simp

lemma u32_xor_cancel:
  fixes s t k :: u32
  shows "s XOR k = t XOR k \<longleftrightarrow> s = t" "k XOR s = k XOR t \<longleftrightarrow> s = t"
  by (auto simp: bit_eq_iff bit_simps)

lemma ff_mask: "(0xFF :: u32) = mask 8"
  by (simp add: mask_eq_exp_minus_1)

lemma byte_bits_ucast: "byte_bits p = map (bit (ucast p :: u32)) [0..<8]"
  by (simp add: byte_bits_def bit_simps)

lemma crc_byte: "foldl crc_bit s (byte_bits p) = (crc_shift ^^ 8) (s XOR ucast p)"
proof -
  have "take_bit 8 (ucast p :: u32) = ucast p"
    by (rule bit_word_eqI) (auto simp: bit_simps dest: byte_bit_less)
  then show ?thesis using foldl_crc_bit [of 8 s "ucast p"] by (simp add: byte_bits_ucast)
qed

lemma table_step:
  fixes p :: byte
  shows "drop_bit 8 s XOR kTable ! unat ((s XOR ucast p) AND 0xFF) = (crc_shift ^^ 8) (s XOR ucast p)"
proof -
  let ?x = "s XOR ucast p :: u32"
  let ?lo = "?x AND 0xFF" and ?hi = "?x AND NOT 0xFF"
  have lt: "unat ?lo < 256"
    using word_and_le1 [of ?x "0xFF"] by (simp add: word_le_nat_alt and.commute)
  have "?x = ?hi XOR ?lo" by (rule bit_word_eqI) (auto simp: bit_simps)
  moreover have "(crc_shift ^^ 8) ?hi = drop_bit 8 s"
  proof -
    have "(crc_shift ^^ 8) ?hi = drop_bit 8 ?hi"
      unfolding ff_mask by (rule crc_shift_pow_clear) (auto simp: bit_simps)
    also have "\<dots> = drop_bit 8 s"
      unfolding ff_mask
      by (rule bit_word_eqI) (auto simp: bit_simps dest!: byte_bit_less dest: word_bit_less)
    finally show ?thesis .
  qed
  moreover have "kTable ! unat ?lo = (crc_shift ^^ 8) ?lo"
    using kTable_nth [OF lt] by simp
  ultimately show ?thesis by (metis crc_shift_pow_xor)
qed

lemma Crc32cUpdate_bitwise: "Crc32cUpdate s ps = crc_bitwise s ps"
  by (induction ps arbitrary: s) (simp_all add: crc_bitwise_def table_step crc_byte)

section \<open>Streaming and error detection\<close>

lemma Crc32cUpdate_append: "Crc32cUpdate s (xs @ ys) = Crc32cUpdate (Crc32cUpdate s xs) ys"
  by (induction xs arbitrary: s) simp_all

lemma crc_shift_inj: "crc_shift x = crc_shift y \<longleftrightarrow> x = y"
proof
  assume eq: "crc_shift x = crc_shift y"
  have top: "bit (crc_shift z) 31 = bit z 0" for z
    using bit_imp_le_length [of z 32] by (auto simp: crc_shift_bit crc_bit_def bit_simps kPoly_def)
  have low: "bit x 0 = bit y 0" using top eq by metis
  have "drop_bit 1 x = drop_bit 1 y"
    using eq low by (auto simp: crc_shift_bit crc_bit_def u32_xor_cancel split: if_splits)
  then have rest: "bit x (Suc n) = bit y (Suc n)" for n
    by (metis bit_drop_bit_eq comp_apply plus_1_eq_Suc)
  have "bit x n = bit y n" for n using low rest by (cases n) auto
  then show "x = y" by (simp add: bit_eq_iff)
qed simp

lemma crc_shift_pow_inj: "(crc_shift ^^ k) x = (crc_shift ^^ k) y \<longleftrightarrow> x = y"
  by (induction k) (simp_all add: crc_shift_inj)

lemma Crc32cUpdate_inj_state: "Crc32cUpdate s ps = Crc32cUpdate t ps \<longleftrightarrow> s = t"
proof (induction ps arbitrary: s t)
  case (Cons p ps)
  then show ?case by (simp add: table_step crc_shift_pow_inj u32_xor_cancel)
qed simp

lemma Crc32cUpdate_inj_byte:
  "Crc32cUpdate s (a # ps) = Crc32cUpdate s (b # ps) \<longleftrightarrow> a = b"
proof -
  have "(ucast a :: u32) = ucast b \<longleftrightarrow> a = b"
    by (auto simp: bit_eq_iff bit_simps dest: byte_bit_less)
  then show ?thesis
    by (simp add: table_step crc_shift_pow_inj Crc32cUpdate_inj_state u32_xor_cancel)
qed

lemma Crc32cFinalize_inj: "Crc32cFinalize s = Crc32cFinalize t \<longleftrightarrow> s = t"
  unfolding Crc32cFinalize_def by (rule u32_xor_cancel)

section \<open>Base64 round trip\<close>

lemma base64_idx_char: "n < 64 \<Longrightarrow> base64_idx (base64_char n) = int n"
  by (auto simp: base64_idx_def base64_char_def char_code_def)

lemma base64_char_not_pad: "n < 64 \<Longrightarrow> base64_char n \<noteq> CHR ''=''"
  using base64_idx_char [of n] by (auto simp: base64_idx_def char_code_def)

lemma sextet_unat: "unat (w AND 0x3F :: byte) < 64"
  using word_and_le1 [of w "0x3F"] by (simp add: word_le_nat_alt and.commute)

lemma sextet_step:
  "base64_loop (sextet w # cs) out buf bits =
     (let buf = push_bit 6 buf OR ucast (w AND 0x3F); bits = bits + 6 in
      if bits \<ge> 8
      then base64_loop cs (out @ [ucast (drop_bit (nat (bits - 8)) buf AND 0xFF)]) buf (bits - 8)
      else base64_loop cs out buf bits)"
  by (simp add: base64_loop.simps sextet_def base64_idx_char base64_char_not_pad sextet_unat)

lemma sextet_mask: "(0x3F :: byte) = mask 6"
  by (simp add: mask_eq_exp_minus_1)

lemma byte_bit_high: "\<not> bit (p :: byte) (8 + n)"
  using byte_bit_less [of p "8 + n"] by auto

lemma Suc_Suc_diff_2: "2 \<le> n \<Longrightarrow> Suc (Suc (n - 2)) = n"
  by simp

lemma quad_loop:
  "base64_loop
     [sextet (drop_bit 2 a), sextet (push_bit 4 a OR drop_bit 4 b),
      sextet (push_bit 2 b OR drop_bit 6 c), sextet c,
      sextet (drop_bit 2 d), sextet (push_bit 4 d), CHR ''='', CHR ''=''] [] 0 0
   = Some [a, b, c, d]"
proof -
  have pad: "base64_loop (CHR ''='' # cs) out buf bits = Some out" for cs out buf bits
    by (simp add: base64_loop.simps)
  show ?thesis
    unfolding sextet_step pad Let_def ff_mask sextet_mask
    by (simp, intro conjI bit_word_eqI)
      (auto simp: bit_simps Suc_Suc_diff_2 byte_bit_high)
qed

lemma quad_join:
  fixes v :: u32
  defines "b \<equiv> (\<lambda>k. ucast (drop_bit k v AND 0xFF) :: byte)"
  shows "push_bit 24 (ucast (b 24)) OR push_bit 16 (ucast (b 16))
         OR push_bit 8 (ucast (b 8)) OR ucast (b 0) = v"
proof (rule bit_word_eqI)
  fix n :: nat
  assume "n < LENGTH(32)"
  then consider "n < 8" | "8 \<le> n" "n < 16" | "16 \<le> n" "n < 24" | "24 \<le> n" "n < 32" by fastforce
  then show "bit (push_bit 24 (ucast (b 24)) OR push_bit 16 (ucast (b 16))
         OR push_bit 8 (ucast (b 8)) OR ucast (b 0) :: u32) n = bit v n"
    by cases (auto simp: b_def ff_mask bit_simps)
qed

lemma ParseBase64_quad:
  assumes "rfc4648_quad enc"
  shows "ParseBase64Crc32c (Base64Crc32cBigEndian enc v) = Some v"
  using assms quad_join [of v]
  by (simp add: ParseBase64Crc32c_def Base64Crc32cBigEndian_def rfc4648_quad_def quad_loop)

section \<open>Properties\<close>

text \<open>C19: the table-driven checksum of the gateway is the bit-serial CRC-32C: starting from
  all ones, every message bit is divided by the reflected polynomial 0x82F63B78 and the final
  remainder is inverted. The table look-ups are an optimisation with no observable effect.\<close>

theorem Crc32c_bit_serial:
  "Crc32c data = crc_bitwise Crc32cInit data XOR 0xFFFFFFFF"
  by (simp add: Crc32c_def Crc32cFinalize_def Crc32cUpdate_bitwise)

text \<open>The checksum may be computed over any division of the message into chunks, in order,
  with the same result as over the whole message, as the streaming interface promises.\<close>

theorem Crc32c_streaming:
  "Crc32cFinalize (foldl Crc32cUpdate Crc32cInit chunks) = Crc32c (concat chunks)"
proof -
  have "foldl Crc32cUpdate s chunks = Crc32cUpdate s (concat chunks)" for s
    by (induction chunks arbitrary: s) (simp_all add: Crc32cUpdate_append)
  then show ?thesis by (simp add: Crc32c_def)
qed

text \<open>C20: any corruption confined to a single byte changes the checksum: two messages that
  differ at most in one byte have equal checksums only when that byte is equal too.\<close>

theorem Crc32c_detects_byte_error:
  "Crc32c (xs @ a # ys) = Crc32c (xs @ b # ys) \<longleftrightarrow> a = b"
  unfolding Crc32c_def Crc32cFinalize_inj Crc32cUpdate_append by (rule Crc32cUpdate_inj_byte)

text \<open>C21: with a base64 library that encodes a four-byte input as RFC 4648 says, the gateway's
  parser reads back exactly the checksum the client encoded, for all checksums.\<close>

theorem ParseBase64Crc32c_roundtrip:
  "rfc4648_quad base64_encode \<Longrightarrow>
   ParseBase64Crc32c (Base64Crc32cBigEndian base64_encode crc) = Some crc"
  by (rule ParseBase64_quad)

theorem ParseBase64Crc32c_roundtrip_witness:
  "rfc4648_quad rfc4648_encode_quad \<and>
   ParseBase64Crc32c (Base64Crc32cBigEndian rfc4648_encode_quad 0xE3069283) = Some 0xE3069283"
  using ParseBase64Crc32c_roundtrip [of rfc4648_encode_quad "0xE3069283"]
  by (simp add: rfc4648_quad_def rfc4648_encode_quad_def)

end
