(* ===== verification/Client_Rdma.thy ===== *)
theory Client_Rdma
  imports Client_Gds Crc32c
begin

text \<open>
  The RDMA path of the client: the endpoint pool (\<^verbatim>\<open>transports/ucx/ucx_endpoint_pool.cpp\<close>), the write with its
  completion message (\<^verbatim>\<open>transports/ucx/ucx_endpoint.cpp\<close>), the client checksum (\<^verbatim>\<open>core/common/crc32c_helper.cpp\<close>) and
  \<^verbatim>\<open>core/rdma/rdma_transfer_path.cpp\<close>. The two UCX calls of a write report what is known at the deadline: still pending,
  done, or an error status.
\<close>

section \<open>The endpoint pool\<close>

definition EpPool_Key :: "string \<Rightarrow> nat \<Rightarrow> string" where
  "EpPool_Key host port = host @ '':'' @ dec port"

definition EpPool_Acquire :: "'w Platform \<Rightarrow> string \<Rightarrow> nat \<Rightarrow> bytes \<Rightarrow> ('w, EpSlot cresult) client" where
  "EpPool_Acquire P host port packed_rkey = do {
     let key = EpPool_Key host port;
     pool \<leftarrow> gets idle;
     (case pool key of
        slot # rest \<Rightarrow> do { _ \<leftarrow> modify (\<lambda>s. s\<lparr>idle := (idle s)(key := rest)\<rparr>); ret (Inr slot) }
      | [] \<Rightarrow>
          if \<not> p_inet_pton P host then ret (Inl (MakeTransportFailure (''invalid UCX host: '' @ host) CPUDirect [] False))
          else do {
            st \<leftarrow> ext (p_ep_create P host port);
            (case st of
               Inl status \<Rightarrow> ret (Inl (MakeTransportFailure status CPUDirect [] True))
             | Inr e \<Rightarrow>
                 if packed_rkey = [] then ret (Inr \<lparr>ep = Some e, rkey = None\<rparr>)
                 else do {
                   ust \<leftarrow> ext (p_rkey_unpack P e packed_rkey);
                   ret (Inr \<lparr>ep = Some e, rkey = (case ust of Inl _ \<Rightarrow> None | Inr k \<Rightarrow> Some k)\<rparr>) }) }) }"

definition destroy_rkey :: "'w Platform \<Rightarrow> EpSlot \<Rightarrow> ('w, unit) client" where
  "destroy_rkey P slot = (case rkey slot of None \<Rightarrow> ret () | Some k \<Rightarrow> ext (p_rkey_destroy P k))"

definition EpPool_Return :: "'w Platform \<Rightarrow> nat \<Rightarrow> string \<Rightarrow> nat \<Rightarrow> EpSlot \<Rightarrow> ('w, unit) client" where
  "EpPool_Return P max_idle host port slot =
     (case ep slot of
        None \<Rightarrow> ret ()
      | Some e \<Rightarrow> do {
          _ \<leftarrow> destroy_rkey P slot;
          let key = EpPool_Key host port;
          pool \<leftarrow> gets idle;
          if length (pool key) < max_idle
          then modify (\<lambda>s. s\<lparr>idle := (idle s)(key := idle s key @ [slot\<lparr>rkey := None\<rparr>])\<rparr>)
          else ext (p_ep_close P e) })"

definition EpPool_Discard :: "'w Platform \<Rightarrow> EpSlot \<Rightarrow> ('w, unit) client" where
  "EpPool_Discard P slot =
     (case ep slot of
        None \<Rightarrow> ret ()
      | Some e \<Rightarrow> do { _ \<leftarrow> destroy_rkey P slot; ext (p_ep_close P e) })"

section \<open>Writing to the gateway\<close>

definition SendAmWriteDone :: "'w Platform \<Rightarrow> nat \<Rightarrow> string \<Rightarrow> int \<Rightarrow> ('w, string option option) client" where
  "SendAmWriteDone P e session_id deadline = ext (p_am_send_nbx P e session_id deadline)"

definition PutAndNotify ::
  "'w Platform \<Rightarrow> nat \<Rightarrow> nat \<Rightarrow> nat \<Rightarrow> nat \<Rightarrow> nat \<Rightarrow> string \<Rightarrow> int \<Rightarrow> ('w, string option option) client" where
  "PutAndNotify P e src n gw_raddr gw_rkey session_id deadline = do {
     put \<leftarrow> ext (p_put_nbx P e src n gw_raddr gw_rkey deadline);
     (case put of
        Some None \<Rightarrow> SendAmWriteDone P e session_id deadline
      | _ \<Rightarrow> ret put) }"

definition ComputeClientCrc32c :: "'w Platform \<Rightarrow> BufferView \<Rightarrow> bool \<Rightarrow> ('w, 32 word option) client" where
  "ComputeClientCrc32c P b send_crc32c =
     (if \<not> send_crc32c then ret None
      else if bv_data b = 0 \<or> bv_size b = 0 then ret None
      else do { v \<leftarrow> ext (p_crc32c P (bv_data b) (bv_size b)); ret (Some v) })"

section \<open>The transfer path\<close>

record WritePrepared =
  wp_session_id :: string
  wp_request_id :: string
  wp_gateway_id :: string
  wp_ep_host :: string
  wp_ep_port :: nat
  wp_slot :: EpSlot

definition RdmaTransferPath_available :: "bool \<Rightarrow> bool \<Rightarrow> bool" where
  "RdmaTransferPath_available available ucx_created = (available \<and> ucx_created)"

definition RdmaTransferPath_GetObject :: "GetObjectRequest \<Rightarrow> BufferView \<Rightarrow> ('w, TransferOutcome cresult) client" where
  "RdmaTransferPath_GetObject q b = ret (Inl (MakeUnsupportedPath CPUDirect ''RDMA GET not implemented yet''))"

definition ReturnEp :: "'w Platform \<Rightarrow> ClientOptions \<Rightarrow> WritePrepared \<Rightarrow> bool \<Rightarrow> ('w, unit) client" where
  "ReturnEp P opts w good =
     (if ep (wp_slot w) = None then ret ()
      else if good then EpPool_Return P (pool_max_idle_per_endpoint (o_rdma opts)) (wp_ep_host w) (wp_ep_port w) (wp_slot w)
      else EpPool_Discard P (wp_slot w))"

text \<open>\<^verbatim>\<open>check_deadline\<close>, and the two ways of leaving after the session is open.\<close>

definition check_deadline :: "'w Platform \<Rightarrow> int \<Rightarrow> ('w, bool) client" where
  "check_deadline P deadline = do { now \<leftarrow> ext (p_now P); ret (now < deadline) }"

definition timeout_err :: "string \<Rightarrow> ClientError" where
  "timeout_err stage = ClientMakeError kTimeout (''UCX RMA timeout before '' @ stage) True [] []"

definition abort_with :: "'w Platform \<Rightarrow> ClientOptions \<Rightarrow> string \<Rightarrow> ClientError \<Rightarrow> ('w, 'a cresult) client" where
  "abort_with P opts session_id e = do { _ \<leftarrow> RdmaClient_AbortSession P opts session_id; ret (Inl e) }"

definition discard_with :: "'w Platform \<Rightarrow> ClientOptions \<Rightarrow> EpSlot \<Rightarrow> string \<Rightarrow> ClientError \<Rightarrow> ('w, 'a cresult) client" where
  "discard_with P opts slot session_id e = do { _ \<leftarrow> EpPool_Discard P slot; abort_with P opts session_id e }"

text \<open>The write itself, with an endpoint in hand.\<close>

definition write_step ::
  "'w Platform \<Rightarrow> ClientOptions \<Rightarrow> BufferView \<Rightarrow> int \<Rightarrow> OpenSessionResponse \<Rightarrow> RdmaDiscoverInfo \<Rightarrow> EpSlot
   \<Rightarrow> ('w, WritePrepared cresult) client" where
  "write_step P opts b deadline r d slot = do {
     let sid = osp_session_id r;
     in_time \<leftarrow> check_deadline P deadline;
     if \<not> in_time then discard_with P opts slot sid (timeout_err ''PutAndNotify'')
     else do {
       put \<leftarrow> PutAndNotify P (the (ep slot)) (bv_data b) (bv_size b) (di_gw_raddr d) (the (rkey slot)) sid deadline;
       (case put of
          None \<Rightarrow> discard_with P opts slot sid
            (ClientMakeError kTimeout ''PutAndNotify timeout'' True (ClientDataFlow_ToString CPUDirect) [])
        | Some (Some status) \<Rightarrow> discard_with P opts slot sid
            (MakeTransportFailure (''PutAndNotify failed: '' @ status) CPUDirect sid True)
        | Some None \<Rightarrow> ret (Inr \<lparr>wp_session_id = sid, wp_request_id = osp_request_id r, wp_gateway_id = osp_gateway_id r,
            wp_ep_host = di_host d, wp_ep_port = di_ucx_port d mod 65536, wp_slot = slot\<rparr>)) } }"

definition unpack_step ::
  "'w Platform \<Rightarrow> ClientOptions \<Rightarrow> RdmaDiscoverInfo \<Rightarrow> string \<Rightarrow> EpSlot \<Rightarrow> ('w, EpSlot cresult) client" where
  "unpack_step P opts d sid slot = do {
     slot \<leftarrow> (if rkey slot = None \<and> di_gw_packed_rkey d \<noteq> [] then do {
                 ust \<leftarrow> ext (p_rkey_unpack P (the (ep slot)) (di_gw_packed_rkey d));
                 (case ust of
                    Inl status \<Rightarrow> discard_with P opts slot sid
                      (MakeTransportFailure (''ucp_ep_rkey_unpack: '' @ status) CPUDirect sid False)
                  | Inr k \<Rightarrow> ret (Inr (slot\<lparr>rkey := Some k\<rparr>))) }
               else ret (Inr slot));
     or_fail slot (\<lambda>slot.
       if rkey slot = None
       then discard_with P opts slot sid (MakeTransportFailure ''gw_packed_rkey is empty'' CPUDirect sid False)
       else ret (Inr slot)) }"

text \<open>The steps after \<^verbatim>\<open>OpenSession\<close>: first those that need an endpoint, then the discovery before them.\<close>

definition transfer_step ::
  "'w Platform \<Rightarrow> ClientOptions \<Rightarrow> BufferView \<Rightarrow> int \<Rightarrow> OpenSessionResponse \<Rightarrow> RdmaDiscoverInfo
   \<Rightarrow> ('w, WritePrepared cresult) client" where
  "transfer_step P opts b deadline r d = do {
     slot_res \<leftarrow> EpPool_Acquire P (di_host d) (di_ucx_port d mod 65536) (di_gw_packed_rkey d);
     (case slot_res of
        Inl e \<Rightarrow> abort_with P opts (osp_session_id r) e
      | Inr slot \<Rightarrow> do {
          slot \<leftarrow> unpack_step P opts d (osp_session_id r) slot;
          or_fail slot (\<lambda>slot. write_step P opts b deadline r d slot) }) }"

definition discover_step ::
  "'w Platform \<Rightarrow> ClientOptions \<Rightarrow> BufferView \<Rightarrow> int \<Rightarrow> OpenSessionResponse \<Rightarrow> ('w, WritePrepared cresult) client" where
  "discover_step P opts b deadline r = do {
     let sid = osp_session_id r;
     in_time \<leftarrow> check_deadline P deadline;
     if \<not> in_time then abort_with P opts sid (timeout_err ''PrepareTransfer'')
     else do {
       disc \<leftarrow> RdmaClient_PrepareTransfer P opts sid (bv_size b);
       (case disc of
          Inl e \<Rightarrow> abort_with P opts sid e
        | Inr d \<Rightarrow>
            if di_ucx_port d = 0 \<or> di_gw_raddr d = 0
            then abort_with P opts sid (MakeTransportFailure ''gateway UCX not enabled or gw_raddr is zero'' CPUDirect sid False)
            else do {
              in_time \<leftarrow> check_deadline P deadline;
              if \<not> in_time then abort_with P opts sid (timeout_err ''pool.Acquire'')
              else transfer_step P opts b deadline r d }) } }"

definition PrepareAndWrite ::
  "'w Platform \<Rightarrow> ClientOptions \<Rightarrow> PutObjectRequest \<Rightarrow> BufferView \<Rightarrow> bool \<Rightarrow> int \<Rightarrow> ('w, WritePrepared cresult) client" where
  "PrepareAndWrite P opts q b is_multipart_part deadline = do {
     in_time \<leftarrow> check_deadline P deadline;
     if \<not> in_time then ret (Inl (timeout_err ''OpenSession''))
     else do {
       open_resp \<leftarrow> open_session P opts (put_plan q b CPUDirect is_multipart_part);
       or_fail open_resp (\<lambda>r. discover_step P opts b deadline r) } }"

text \<open>One attempt of \<^verbatim>\<open>PutObject\<close> or \<^verbatim>\<open>PutObjectPart\<close>: \<^verbatim>\<open>commit\<close> is the RPC that publishes the bytes and
  gives the etag and version of the outcome.\<close>

definition rdma_attempt ::
  "'w Platform \<Rightarrow> ClientOptions \<Rightarrow> int \<Rightarrow> string \<Rightarrow> PutObjectRequest \<Rightarrow> BufferView \<Rightarrow> bool
   \<Rightarrow> (string \<Rightarrow> string \<Rightarrow> ('w, (string \<times> string) cresult) client) \<Rightarrow> ('w, TransferOutcome cresult) client" where
  "rdma_attempt P opts deadline what q b is_part commit = do {
     now \<leftarrow> ext (p_now P);
     if now \<ge> deadline then ret (Inl (ClientMakeError kTimeout (what @ '' retry deadline exceeded'') True [] []))
     else do {
       prepared \<leftarrow> PrepareAndWrite P opts q b is_part deadline;
       or_fail prepared (\<lambda>w. do {
         crc \<leftarrow> ComputeClientCrc32c P b (rdma_send_crc32c (o_rdma opts));
         let crc_b64 = (case crc of None \<Rightarrow> [] | Some v \<Rightarrow> Base64Crc32cBigEndian (p_base64 P) v);
         c \<leftarrow> commit (wp_session_id w) crc_b64;
         _ \<leftarrow> ReturnEp P opts w (\<not> isl c);
         (case c of
            Inl e \<Rightarrow> abort_with P opts (wp_session_id w) e
          | Inr (tag, ver) \<Rightarrow> do {
              _ \<leftarrow> report_progress (put_progress_callback q) (bv_size b) (bv_size b) CPUDirect;
              ret (Inr (TransferOutcome_default
                \<lparr>to_selected_flow := CPUDirect, to_request_id := wp_request_id w, to_session_id := wp_session_id w,
                 to_gateway_id := wp_gateway_id w, to_transfer_status := ''completed'', to_etag := tag,
                 to_version := ver, to_bytes_transferred := bv_size b\<rparr>)) }) }) } }"

definition commit_object_rpc ::
  "'w Platform \<Rightarrow> ClientOptions \<Rightarrow> BufferView \<Rightarrow> string \<Rightarrow> string \<Rightarrow> ('w, (string \<times> string) cresult) client" where
  "commit_object_rpc P opts b sid crc = do {
     c \<leftarrow> RdmaClient_CommitObject P opts sid (bv_size b) crc;
     or_fail c (\<lambda>v. ret (Inr (rcp_etag v, rcp_version v))) }"

definition commit_part_rpc ::
  "'w Platform \<Rightarrow> ClientOptions \<Rightarrow> BufferView \<Rightarrow> string \<Rightarrow> nat \<Rightarrow> string \<Rightarrow> string \<Rightarrow> ('w, (string \<times> string) cresult) client" where
  "commit_part_rpc P opts b upload_id part_number sid crc = do {
     c \<leftarrow> RdmaClient_CommitPart P opts sid upload_id part_number (bv_size b) crc;
     or_fail c (\<lambda>part_etag. ret (Inr (part_etag, []))) }"

definition RdmaTransferPath_PutObject ::
  "'w Platform \<Rightarrow> ClientOptions \<Rightarrow> bool \<Rightarrow> PutObjectRequest \<Rightarrow> BufferView \<Rightarrow> ('w, TransferOutcome cresult) client" where
  "RdmaTransferPath_PutObject P opts available q b =
     (if \<not> available then ret (Inl (MakeUnsupportedPath CPUDirect ''UCX not initialized''))
      else if bv_size b > rdma_max_msg_bytes (o_rdma opts)
      then ret (Inl (ClientMakeError kPayloadTooLarge ''PUT body exceeds rdma.max_msg_bytes; use multipart upload'' False [] []))
      else do {
        now \<leftarrow> ext (p_now P);
        RetryIfRetryable P DefaultRetryPolicy
          (rdma_attempt P opts (now + o_request_timeout opts) ''PutObject'' q b False (commit_object_rpc P opts b)) })"

definition RdmaTransferPath_PutObjectPart ::
  "'w Platform \<Rightarrow> ClientOptions \<Rightarrow> bool \<Rightarrow> PutObjectRequest \<Rightarrow> BufferView \<Rightarrow> string \<Rightarrow> nat
   \<Rightarrow> ('w, TransferOutcome cresult) client" where
  "RdmaTransferPath_PutObjectPart P opts available q b upload_id part_number =
     (if \<not> available then ret (Inl (MakeUnsupportedPath CPUDirect ''UCX not initialized''))
      else if upload_id = [] \<or> part_number = 0
      then ret (Inl (MakeInvalidArgument ''PutObjectPart needs a non-empty upload_id and part_number>=1''))
      else if bv_size b > rdma_max_msg_bytes (o_rdma opts)
      then ret (Inl (ClientMakeError kPayloadTooLarge ''UploadPart body exceeds rdma.max_msg_bytes'' False [] []))
      else do {
        now \<leftarrow> ext (p_now P);
        RetryIfRetryable P DefaultRetryPolicy
          (rdma_attempt P opts (now + o_request_timeout opts) ''PutObjectPart'' q b True
            (commit_part_rpc P opts b upload_id part_number)) })"

section \<open>Endpoints, keys and sessions\<close>

definition slots_mset :: "EpSlot list \<Rightarrow> nat multiset" where
  "slots_mset l = mset (map (the \<circ> ep) l)"

definition pooled :: "(string \<Rightarrow> EpSlot list) \<Rightarrow> nat multiset" where
  "pooled pool = (\<Sum>k | pool k \<noteq> []. slots_mset (pool k))"

definition ep_pool_wf :: "nat \<Rightarrow> (string \<Rightarrow> EpSlot list) \<Rightarrow> bool" where
  "ep_pool_wf max_idle pool \<longleftrightarrow> finite {k. pool k \<noteq> []} \<and>
     (\<forall>k. length (pool k) \<le> max_idle \<and> (\<forall>slot \<in> set (pool k). ep slot \<noteq> None \<and> rkey slot = None))"

lemma pooled_over:
  assumes "finite A" "{k. pool k \<noteq> []} \<subseteq> A"
  shows "pooled pool = (\<Sum>k\<in>A. slots_mset (pool k))"
  unfolding pooled_def using assms by (intro sum.mono_neutral_left) (auto simp: slots_mset_def)

lemma pooled_upd:
  assumes "finite {k. pool k \<noteq> []}"
  shows "pooled (pool(k := l)) + slots_mset (pool k) = pooled pool + slots_mset l"
proof -
  let ?A = "insert k {k. pool k \<noteq> []}"
  have fin: "finite ?A" "{j. (pool(k := l)) j \<noteq> []} \<subseteq> ?A" using assms by auto
  have "pooled (pool(k := l)) = slots_mset l + (\<Sum>j\<in>?A - {k}. slots_mset (pool j))"
    unfolding pooled_over [OF fin] using fin(1) by (simp add: sum.remove [of ?A k])
  moreover have "pooled pool = slots_mset (pool k) + (\<Sum>j\<in>?A - {k}. slots_mset (pool j))"
    unfolding pooled_over [OF fin(1), of pool, OF subset_insertI] using fin(1) by (simp add: sum.remove [of ?A k])
  ultimately show ?thesis by simp
qed

lemma ep_pool_wf_upd:
  assumes "ep_pool_wf m pool" "length l \<le> m" "\<forall>slot \<in> set l. ep slot \<noteq> None \<and> rkey slot = None"
  shows "ep_pool_wf m (pool(k := l))"
proof -
  have "{j. (pool(k := l)) j \<noteq> []} \<subseteq> insert k {k. pool k \<noteq> []}" by auto
  moreover have "finite (insert k {k. pool k \<noteq> []})" using assms(1) by (simp add: ep_pool_wf_def)
  ultimately have "finite {j. (pool(k := l)) j \<noteq> []}" by (rule finite_subset)
  then show ?thesis using assms by (simp add: ep_pool_wf_def)
qed

text \<open>The outside as the RDMA path uses it: the open endpoints, the unpacked remote keys, and the sessions opened for it that
  are neither committed nor aborted.\<close>

locale ucp_api =
  fixes P :: "'w Platform" and opens keys :: "'w \<Rightarrow> nat multiset" and pending :: "'w \<Rightarrow> string multiset"
  assumes ep_create: "p_ep_create P h port w = (re, w') \<Longrightarrow>
      opens w' = opens w + (case re of Inl _ \<Rightarrow> {#} | Inr e \<Rightarrow> {#e#}) \<and> keys w' = keys w \<and> pending w' = pending w"
    and rkey_unpack: "p_rkey_unpack P e pk w = (rk, w') \<Longrightarrow>
      opens w' = opens w \<and> keys w' = keys w + (case rk of Inl _ \<Rightarrow> {#} | Inr k \<Rightarrow> {#k#}) \<and> pending w' = pending w"
    and rkey_destroy: "p_rkey_destroy P k w = (u, w') \<Longrightarrow>
      opens w' = opens w \<and> keys w' = keys w - {#k#} \<and> pending w' = pending w"
    and ep_close: "p_ep_close P e w = (u, w') \<Longrightarrow>
      opens w' = opens w - {#e#} \<and> keys w' = keys w \<and> pending w' = pending w"
    and OpenSession: "p_OpenSession P ch c q w = (ro, w') \<Longrightarrow> opens w' = opens w \<and> keys w' = keys w \<and>
      pending w' = pending w + (case ro of Inl _ \<Rightarrow> {#} | Inr v \<Rightarrow> {#osp_session_id v#})"
    and CommitObject: "p_CommitObject P ch c rc w = (rr, w') \<Longrightarrow> opens w' = opens w \<and> keys w' = keys w \<and>
      pending w' = (case rr of Inl _ \<Rightarrow> pending w | Inr _ \<Rightarrow> pending w - {#rcr_session_id rc#})"
    and CommitPart: "p_CommitPart P ch c rp w = (rs, w') \<Longrightarrow> opens w' = opens w \<and> keys w' = keys w \<and>
      pending w' = (case rs of Inl _ \<Rightarrow> pending w | Inr _ \<Rightarrow> pending w - {#rpr_session_id rp#})"
    and RdmaAbort: "p_RdmaAbortSession P ch c sid w = (rb, w') \<Longrightarrow> opens w' = opens w \<and> keys w' = keys w \<and>
      pending w' = pending w - {#sid#}"
    and quiet_calls: "quiet (\<lambda>w. (opens w, keys w, pending w)) (p_now P)" "quiet (\<lambda>w. (opens w, keys w, pending w)) (p_random P)"
      "quiet (\<lambda>w. (opens w, keys w, pending w)) (p_jitter P)" "quiet (\<lambda>w. (opens w, keys w, pending w)) (p_sleep_ms P ms)"
      "quiet (\<lambda>w. (opens w, keys w, pending w)) (p_DiscoverRdmaEndpoint P ch c sid n)"
      "quiet (\<lambda>w. (opens w, keys w, pending w)) (p_put_nbx P e src n ra rk2 dl)"
      "quiet (\<lambda>w. (opens w, keys w, pending w)) (p_am_send_nbx P e sid dl)"
      "quiet (\<lambda>w. (opens w, keys w, pending w)) (p_crc32c P a n)"
begin

definition books :: "nat \<Rightarrow> nat multiset \<Rightarrow> nat multiset \<Rightarrow> string multiset \<Rightarrow> 'w ClientState \<Rightarrow> bool" where
  "books m E K S s \<longleftrightarrow> rdma_stub s \<noteq> None \<and> ep_pool_wf m (idle s) \<and> opens (cw s) = E + pooled (idle s) \<and>
     keys (cw s) = K \<and> pending (cw s) = S"

definition slot_books :: "nat \<Rightarrow> nat multiset \<Rightarrow> nat multiset \<Rightarrow> string multiset \<Rightarrow> EpSlot \<Rightarrow> 'w ClientState \<Rightarrow> bool" where
  "slot_books m E K S slot s \<longleftrightarrow> ep slot \<noteq> None \<and>
     books m (add_mset (the (ep slot)) E) (K + (case rkey slot of None \<Rightarrow> {#} | Some k \<Rightarrow> {#k#})) S s"

lemma ext_quiet: "quiet (\<lambda>w. (opens w, keys w, pending w)) c \<Longrightarrow> preserves (books m E K S) (ext c)"
  by (rule preserves_ext) (simp add: books_def quiet_def)

lemmas ext_calls = quiet_calls [THEN ext_quiet]

lemma quiet_slot: "(\<And>E K. preserves (books m E K S) c) \<Longrightarrow> preserves (slot_books m E K S slot) c"
  by (simp add: preserves_def slot_books_def)

lemma Acquire_books:
  "valid (books m E K S) (EpPool_Acquire P host port pk)
     (\<lambda>r s. case r of Inl _ \<Rightarrow> books m E K S s | Inr slot \<Rightarrow> slot_books m E K S slot s)"
proof (unfold valid_def, intro allI impI)
  fix s
  assume b: "books m E K S s"
  let ?key = "EpPool_Key host port"
  show "case run_state (EpPool_Acquire P host port pk) s of (r, s') \<Rightarrow>
      (case r of Inl _ \<Rightarrow> books m E K S s' | Inr slot \<Rightarrow> slot_books m E K S slot s')"
  proof (cases "idle s ?key")
    case Nil
    then show ?thesis using b
      by (auto simp: EpPool_Acquire_def Let_def books_def slot_books_def split: prod.splits sum.splits
          dest!: ep_create rkey_unpack)
  next
    case (Cons slot rest)
    have wf: "ep_pool_wf m (idle s)" using b by (simp add: books_def)
    then have slot: "ep slot \<noteq> None" "rkey slot = None" "length rest \<le> m"
      "\<forall>x \<in> set rest. ep x \<noteq> None \<and> rkey x = None" "finite {k. idle s k \<noteq> []}"
      using Cons unfolding ep_pool_wf_def by (metis list.set_intros(1), metis list.set_intros(1), metis Suc_leD length_Cons,
          metis list.set_intros(2), blast)
    have "pooled ((idle s)(?key := rest)) + {#the (ep slot)#} = pooled (idle s)"
      using pooled_upd [OF slot(5), of ?key rest] Cons by (simp add: slots_mset_def)
    then show ?thesis using b Cons slot ep_pool_wf_upd [OF wf slot(3,4)]
      by (simp add: EpPool_Acquire_def Let_def books_def slot_books_def)
  qed
qed

lemma destroy_books:
  "ep slot = Some e \<Longrightarrow> valid (slot_books m E K S slot) (destroy_rkey P slot) (\<lambda>_. books m (add_mset e E) K S)"
  by (auto simp: valid_def destroy_rkey_def slot_books_def books_def split: option.splits prod.splits dest!: rkey_destroy)

lemma close_books: "valid (books m (add_mset e E) K S) (ext (p_ep_close P e)) (\<lambda>_. books m E K S)"
  by (auto simp: valid_def books_def split: prod.splits dest!: ep_close)

lemma Discard_books: "valid (slot_books m E K S slot) (EpPool_Discard P slot) (\<lambda>_. books m E K S)"
proof (cases "ep slot")
  case (Some e)
  from valid_seq [OF destroy_books [OF this] close_books] show ?thesis by (simp add: EpPool_Discard_def Some)
qed (simp add: valid_def slot_books_def)

lemma Return_books: "valid (slot_books m E K S slot) (EpPool_Return P m host port slot) (\<lambda>_. books m E K S)"
proof (cases "ep slot")
  case (Some e)
  let ?key = "EpPool_Key host port"
  have "valid (books m (add_mset e E) K S)
    (do { pool \<leftarrow> gets idle;
       if length (pool ?key) < m
       then modify (\<lambda>s. s\<lparr>idle := (idle s)(?key := idle s ?key @ [slot\<lparr>rkey := None\<rparr>])\<rparr>)
       else ext (p_ep_close P e) }) (\<lambda>_. books m E K S)"
  proof (unfold valid_def, intro allI impI)
    fix s
    assume b: "books m (add_mset e E) K S s"
    have wf: "ep_pool_wf m (idle s)" "finite {k. idle s k \<noteq> []}" using b by (simp_all add: books_def ep_pool_wf_def)
    have "pooled ((idle s)(?key := idle s ?key @ [slot\<lparr>rkey := None\<rparr>])) = add_mset e (pooled (idle s))"
      using pooled_upd [OF wf(2), of ?key "idle s ?key @ [slot\<lparr>rkey := None\<rparr>]"] Some by (simp add: slots_mset_def)
    moreover have "length (idle s ?key) < m \<Longrightarrow> ep_pool_wf m ((idle s)(?key := idle s ?key @ [slot\<lparr>rkey := None\<rparr>]))"
      using wf(1) Some by (intro ep_pool_wf_upd) (auto simp: ep_pool_wf_def)
    ultimately show "case run_state (do { pool \<leftarrow> gets idle;
       if length (pool ?key) < m
       then modify (\<lambda>s. s\<lparr>idle := (idle s)(?key := idle s ?key @ [slot\<lparr>rkey := None\<rparr>])\<rparr>)
       else ext (p_ep_close P e) }) s of (u, s') \<Rightarrow> books m E K S s'"
      using b by (auto simp: books_def split: prod.splits dest!: ep_close)
  qed
  from valid_seq [OF destroy_books [OF Some] this] show ?thesis by (simp add: EpPool_Return_def Some Let_def)
qed (simp add: valid_def slot_books_def)

lemma abort_books:
  "valid (books m E K (add_mset sid S)) (abort_with P opts sid err) (\<lambda>r s. isl r \<and> books m E K S s)"
  by (auto simp: valid_def abort_with_def RdmaClient_AbortSession_def books_def or_fail_def
      split: option.splits prod.splits sum.splits dest!: RdmaAbort)

lemma discard_with_books:
  "valid (slot_books m E K (add_mset sid S) slot) (discard_with P opts slot sid err) (\<lambda>r s. isl r \<and> books m E K S s)"
  unfolding discard_with_def by (rule valid_seq [OF Discard_books abort_books])

lemma deadline_books: "preserves (books m E K S) (check_deadline P dl)"
  unfolding check_deadline_def by (intro mon_intros ext_calls)

lemma PutAndNotify_books: "preserves (books m E K S) (PutAndNotify P e src n ra rk sid dl)"
  unfolding PutAndNotify_def SendAmWriteDone_def
  by (intro mon_intros ext_calls)

abbreviation in_hand :: "nat \<Rightarrow> nat multiset \<Rightarrow> nat multiset \<Rightarrow> string multiset \<Rightarrow> WritePrepared cresult \<Rightarrow> 'w ClientState \<Rightarrow> bool" where
  "in_hand m E K S r s \<equiv> (case r of Inl _ \<Rightarrow> books m E K S s
     | Inr w \<Rightarrow> slot_books m E K (add_mset (wp_session_id w) S) (wp_slot w) s)"

lemma abort_in_hand: "valid (books m E K (add_mset sid S)) (abort_with P opts sid e) (in_hand m E K S)"
  by (rule valid_weaken [OF abort_books]) (auto simp: isl_def)

lemma write_step_books:
  "valid (slot_books m E K (add_mset (osp_session_id r) S) slot) (write_step P opts b dl r d slot) (in_hand m E K S)"
proof -
  have fail: "valid (slot_books m E K (add_mset (osp_session_id r) S) slot) (discard_with P opts slot (osp_session_id r) e)
      (in_hand m E K S)" for e
    by (rule valid_weaken [OF discard_with_books]) (auto simp: isl_def)
  show ?thesis
    unfolding write_step_def Let_def
    by (intro valid_bind quiet_slot deadline_books valid_if fail PutAndNotify_books)
      (auto split: option.split intro: fail intro!: valid_ret)
qed

lemma rkey_step_books:
  assumes "rkey slot = None"
  shows "valid (slot_books m E K (add_mset sid S) slot) (ext (p_rkey_unpack P (the (ep slot)) pk))
    (\<lambda>r s. case r of Inl _ \<Rightarrow> slot_books m E K (add_mset sid S) slot s
       | Inr k \<Rightarrow> slot_books m E K (add_mset sid S) (slot\<lparr>rkey := Some k\<rparr>) s)"
  using assms by (auto simp: valid_def slot_books_def books_def split: prod.splits sum.splits dest!: rkey_unpack)

lemma unpack_step_books:
  "valid (slot_books m E K (add_mset sid S) slot) (unpack_step P opts d sid slot)
     (\<lambda>r s. case r of Inl _ \<Rightarrow> books m E K S s | Inr slot \<Rightarrow> slot_books m E K (add_mset sid S) slot s)"
  (is "valid _ _ ?post")
proof -
  have fail: "valid (slot_books m E K (add_mset sid S) sl) (discard_with P opts sl sid e) ?post" for sl e
    by (rule valid_weaken [OF discard_with_books]) (auto simp: isl_def)
  have first: "valid (slot_books m E K (add_mset sid S) slot)
     (if rkey slot = None \<and> di_gw_packed_rkey d \<noteq> [] then do {
         ust \<leftarrow> ext (p_rkey_unpack P (the (ep slot)) (di_gw_packed_rkey d));
         (case ust of
            Inl status \<Rightarrow> discard_with P opts slot sid
              (MakeTransportFailure (''ucp_ep_rkey_unpack: '' @ status) CPUDirect sid False)
          | Inr k \<Rightarrow> ret (Inr (slot\<lparr>rkey := Some k\<rparr>))) }
       else ret (Inr slot)) ?post"
  proof (rule valid_if)
    assume "rkey slot = None \<and> di_gw_packed_rkey d \<noteq> []"
    then have "rkey slot = None" by simp
    then show "valid (slot_books m E K (add_mset sid S) slot) (do {
         ust \<leftarrow> ext (p_rkey_unpack P (the (ep slot)) (di_gw_packed_rkey d));
         (case ust of
            Inl status \<Rightarrow> discard_with P opts slot sid
              (MakeTransportFailure (''ucp_ep_rkey_unpack: '' @ status) CPUDirect sid False)
          | Inr k \<Rightarrow> ret (Inr (slot\<lparr>rkey := Some k\<rparr>))) }) ?post"
    proof (rule valid_seq [OF rkey_step_books])
      fix ust
      show "valid (\<lambda>s. case ust of Inl _ \<Rightarrow> slot_books m E K (add_mset sid S) slot s
          | Inr k \<Rightarrow> slot_books m E K (add_mset sid S) (slot\<lparr>rkey := Some k\<rparr>) s)
        (case ust of
            Inl status \<Rightarrow> discard_with P opts slot sid
              (MakeTransportFailure (''ucp_ep_rkey_unpack: '' @ status) CPUDirect sid False)
          | Inr k \<Rightarrow> ret (Inr (slot\<lparr>rkey := Some k\<rparr>))) ?post"
        using fail by (cases ust) (simp_all add: valid_ret)
    qed
  qed (simp add: valid_ret)
  show ?thesis
    unfolding unpack_step_def
  proof (rule valid_seq [OF first])
    fix r
    show "valid (?post r) (or_fail r (\<lambda>slot. if rkey slot = None
       then discard_with P opts slot sid (MakeTransportFailure ''gw_packed_rkey is empty'' CPUDirect sid False)
       else ret (Inr slot))) ?post"
      by (cases r) (auto intro: fail intro!: valid_ret)
  qed
qed

lemma open_books:
  "valid (books m E K S) (open_session P opts plan)
     (\<lambda>r s. case r of Inl _ \<Rightarrow> books m E K S s | Inr v \<Rightarrow> books m E K (add_mset (osp_session_id v) S) s)"
  unfolding open_session_def
proof (intro valid_bind ext_calls)
  fix r1 r2
  show "valid (books m E K S) (RpcOpenTransferSession P (MakeSessionHandshake opts r1 r2 plan))
     (\<lambda>r s. case r of Inl _ \<Rightarrow> books m E K S s | Inr v \<Rightarrow> books m E K (add_mset (osp_session_id v) S) s)"
    by (auto simp: valid_def RpcOpenTransferSession_def books_def or_fail_def CheckRpcFailure_def
        split: option.splits prod.splits sum.splits dest!: OpenSession)
qed

lemma PrepareTransfer_books: "preserves (books m E K S) (RdmaClient_PrepareTransfer P opts sid n)"
  unfolding RdmaClient_PrepareTransfer_def Let_def by (intro mon_intros ext_calls)

lemma transfer_books:
  "valid (books m E K (add_mset (osp_session_id r) S)) (transfer_step P opts b dl r d) (in_hand m E K S)"
  unfolding transfer_step_def
proof (rule valid_seq [OF Acquire_books])
  fix x
  have slot: "valid (slot_books m E K (add_mset (osp_session_id r) S) sl)
      (do { slot \<leftarrow> unpack_step P opts d (osp_session_id r) sl;
            or_fail slot (\<lambda>slot. write_step P opts b dl r d slot) }) (in_hand m E K S)" for sl
  proof (rule valid_seq [OF unpack_step_books])
    fix y
    show "valid (\<lambda>s. case y of Inl _ \<Rightarrow> books m E K S s | Inr slot \<Rightarrow> slot_books m E K (add_mset (osp_session_id r) S) slot s)
      (or_fail y (\<lambda>slot. write_step P opts b dl r d slot)) (in_hand m E K S)"
      by (cases y) (auto intro: write_step_books intro!: valid_ret)
  qed
  show "valid (\<lambda>s. case x of Inl _ \<Rightarrow> books m E K (add_mset (osp_session_id r) S) s
      | Inr slot \<Rightarrow> slot_books m E K (add_mset (osp_session_id r) S) slot s)
    (case x of Inl e \<Rightarrow> abort_with P opts (osp_session_id r) e
       | Inr slot \<Rightarrow> do {
           slot \<leftarrow> unpack_step P opts d (osp_session_id r) slot;
           or_fail slot (\<lambda>slot. write_step P opts b dl r d slot) }) (in_hand m E K S)"
    using abort_in_hand slot by (cases x) auto
qed

lemma discover_books:
  "valid (books m E K (add_mset (osp_session_id r) S)) (discover_step P opts b dl r) (in_hand m E K S)"
  unfolding discover_step_def Let_def
  by (intro valid_bind valid_if valid_case_sum deadline_books PrepareTransfer_books abort_in_hand transfer_books)

lemma Prepare_books: "valid (books m E K S) (PrepareAndWrite P opts q b part dl) (in_hand m E K S)"
  unfolding PrepareAndWrite_def
proof (rule valid_bind [OF deadline_books], rule valid_if, simp add: valid_ret, rule valid_seq [OF open_books])
  fix x
  show "valid (\<lambda>s. case x of Inl _ \<Rightarrow> books m E K S s | Inr v \<Rightarrow> books m E K (add_mset (osp_session_id v) S) s)
    (or_fail x (\<lambda>r. discover_step P opts b dl r)) (in_hand m E K S)"
    using discover_books by (cases x) (auto intro!: valid_ret)
qed

text \<open>What a commit RPC does to the books while an endpoint is in hand.\<close>

definition commits :: "(string \<Rightarrow> string \<Rightarrow> ('w, (string \<times> string) cresult) client) \<Rightarrow> bool" where
  "commits commit \<longleftrightarrow> (\<forall>m E K S sid crc. valid (books m E K (add_mset sid S)) (commit sid crc)
     (\<lambda>r s. case r of Inl _ \<Rightarrow> books m E K (add_mset sid S) s | Inr _ \<Rightarrow> books m E K S s))"

lemma commit_rpcs: "commits (commit_object_rpc P opts b)" "commits (commit_part_rpc P opts b uid n)"
  by (auto simp: commits_def valid_def commit_object_rpc_def commit_part_rpc_def RdmaClient_CommitObject_def
      RdmaClient_CommitPart_def books_def or_fail_def CheckRpcFailure_def
      split: option.splits prod.splits sum.splits dest!: CommitObject CommitPart)

lemma ReturnEp_books:
  assumes "pool_max_idle_per_endpoint (o_rdma opts) = m"
  shows "valid (slot_books m E K S (wp_slot w)) (ReturnEp P opts w good) (\<lambda>_. books m E K S)"
proof (cases "ep (wp_slot w)")
  case (Some e)
  then show ?thesis using assms Return_books Discard_books by (simp add: ReturnEp_def)
qed (simp add: valid_def slot_books_def)

lemma crc_books: "preserves (books m E K S) (ComputeClientCrc32c P b send)"
  unfolding ComputeClientCrc32c_def by (intro mon_intros ext_calls)

lemma progress_books: "preserves (books m E K S) (report_progress cb x y f)"
  unfolding report_progress_def by (intro mon_intros preserves_modify) (simp add: books_def)

lemma finish_books:
  assumes "commits commit" "pool_max_idle_per_endpoint (o_rdma opts) = m" "\<And>x. preserves (books m E K S) (k x)"
  shows "valid (slot_books m E K (add_mset (wp_session_id w) S) (wp_slot w))
    (do { c \<leftarrow> commit (wp_session_id w) crc;
          _ \<leftarrow> ReturnEp P opts w (\<not> isl c);
          (case c of Inl e \<Rightarrow> abort_with P opts (wp_session_id w) e | Inr x \<Rightarrow> k x) }) (\<lambda>_. books m E K S)"
proof -
  let ?sid = "wp_session_id w"
  have commit: "valid (slot_books m E K (add_mset ?sid S) (wp_slot w)) (commit ?sid crc)
     (\<lambda>r s. case r of Inl _ \<Rightarrow> slot_books m E K (add_mset ?sid S) (wp_slot w) s | Inr _ \<Rightarrow> slot_books m E K S (wp_slot w) s)"
    using assms(1) unfolding commits_def slot_books_def valid_def by (fastforce split: prod.splits sum.splits)
  show ?thesis
  proof (rule valid_seq [OF commit])
    fix c
    show "valid (\<lambda>s. case c of Inl _ \<Rightarrow> slot_books m E K (add_mset ?sid S) (wp_slot w) s | Inr _ \<Rightarrow> slot_books m E K S (wp_slot w) s)
      (do { _ \<leftarrow> ReturnEp P opts w (\<not> isl c);
            (case c of Inl e \<Rightarrow> abort_with P opts ?sid e | Inr x \<Rightarrow> k x) }) (\<lambda>_. books m E K S)"
    proof (cases c)
      case (Inl e)
      have "valid (books m E K (add_mset ?sid S)) (abort_with P opts ?sid e) (\<lambda>_. books m E K S)"
        by (rule valid_weaken [OF abort_books]) simp
      from valid_seq [OF ReturnEp_books [OF assms(2)] this] show ?thesis by (simp add: Inl)
    qed (use valid_seq [OF ReturnEp_books [OF assms(2)] assms(3) [unfolded valid_preserves]] in simp)
  qed
qed

lemma attempt_books:
  assumes "commits commit" "pool_max_idle_per_endpoint (o_rdma opts) = m"
  shows "preserves (books m E K S) (rdma_attempt P opts dl what q b part commit)"
  unfolding rdma_attempt_def valid_preserves
proof (rule valid_bind [OF ext_calls(1)], rule valid_if, simp add: valid_ret, rule valid_seq [OF Prepare_books])
  fix x
  show "valid (in_hand m E K S x) (or_fail x (\<lambda>w. do {
      crc \<leftarrow> ComputeClientCrc32c P b (rdma_send_crc32c (o_rdma opts));
      let crc_b64 = (case crc of None \<Rightarrow> [] | Some v \<Rightarrow> Base64Crc32cBigEndian (p_base64 P) v);
      c \<leftarrow> commit (wp_session_id w) crc_b64;
      _ \<leftarrow> ReturnEp P opts w (\<not> isl c);
      (case c of
         Inl e \<Rightarrow> abort_with P opts (wp_session_id w) e
       | Inr (tag, ver) \<Rightarrow> do {
           _ \<leftarrow> report_progress (put_progress_callback q) (bv_size b) (bv_size b) CPUDirect;
           ret (Inr (TransferOutcome_default
             \<lparr>to_selected_flow := CPUDirect, to_request_id := wp_request_id w, to_session_id := wp_session_id w,
              to_gateway_id := wp_gateway_id w, to_transfer_status := ''completed'', to_etag := tag,
              to_version := ver, to_bytes_transferred := bv_size b\<rparr>)) }) })) (\<lambda>_. books m E K S)"
    by (cases x) (simp_all add: valid_ret Let_def, intro valid_bind quiet_slot crc_books finish_books assms mon_intros progress_books)
qed

lemma retry_books: "preserves (books m E K S) fn \<Longrightarrow> preserves (books m E K S) (RetryIfRetryable P policy fn)"
  using ext_calls(3,4) by (intro preserves_Retry) (simp_all add: preserves_def split_beta)

lemma put_books:
  assumes "pool_max_idle_per_endpoint (o_rdma opts) = m"
  shows "preserves (books m E K S) (RdmaTransferPath_PutObject P opts av q b)"
    "preserves (books m E K S) (RdmaTransferPath_PutObjectPart P opts av q b uid n)"
  unfolding RdmaTransferPath_PutObject_def RdmaTransferPath_PutObjectPart_def
  by (intro mon_intros ext_calls retry_books attempt_books commit_rpcs assms)+

end


end
