(* ===== verification/Client_Multipart.thy ===== *)
theory Client_Multipart
  imports Client_Rdma
begin

text \<open>
  Multipart uploads on the client: the two link sessions (\<^verbatim>\<open>core/gds/gds_multipart_flow.cpp\<close>,
  \<^verbatim>\<open>core/rdma/rdma_multipart_flow.cpp\<close>) behind the interface of \<^verbatim>\<open>core/upload/i_multipart_flow.h\<close>, their selection
  (\<^verbatim>\<open>core/upload/upload_coordinator.cpp\<close>), and the upload handle with its concurrent workers
  (\<^verbatim>\<open>core/client/multipart_upload.cpp\<close>). The workers of \<^verbatim>\<open>UploadParts\<close> are a step relation: a step is one section under
  a lock, one atomic operation, or one blocking part transfer.
\<close>

section \<open>Link sessions\<close>

record CompleteResult =
  cr_etag :: string
  cr_version :: string
  cr_content_length :: nat

record 'w IMultipartSession =
  ms_upload_id :: string
  ms_max_part_size :: nat
  ms_UploadPart :: "nat \<Rightarrow> nat \<Rightarrow> string \<Rightarrow> BufferView \<Rightarrow> ('w, TransferOutcome cresult) client"
  ms_Complete :: "(nat \<times> string) list \<Rightarrow> ('w, CompleteResult cresult) client"
  ms_Abort :: "('w, bool cresult) client"

definition part_request :: "string \<Rightarrow> string \<Rightarrow> string \<Rightarrow> PutObjectRequest" where
  "part_request bucket key checksum_policy =
     PutObjectRequest_default\<lparr>put_bucket := bucket, put_key := key, put_checksum_policy := checksum_policy\<rparr>"

definition complete_session ::
  "'w Platform \<Rightarrow> ClientOptions \<Rightarrow> string \<Rightarrow> DataFlow \<Rightarrow> (nat \<times> string) list \<Rightarrow> ('w, CompleteResult cresult) client" where
  "complete_session P opts upload_id flow parts = do {
     out \<leftarrow> RpcCompleteMultipartUpload P opts upload_id (map (\<lambda>p. (fst p, snd p)) parts) flow;
     or_fail out (\<lambda>v. ret (Inr \<lparr>cr_etag = cup_etag v, cr_version = cup_version v, cr_content_length = cup_content_length v\<rparr>)) }"

definition GdsMultipartSession ::
  "'w Platform \<Rightarrow> ClientOptions \<Rightarrow> PlatformCapabilities \<Rightarrow> string \<Rightarrow> string \<Rightarrow> string \<Rightarrow> nat \<Rightarrow> 'w IMultipartSession" where
  "GdsMultipartSession P opts caps bucket key upload_id max_part_size =
     \<lparr>ms_upload_id = upload_id, ms_max_part_size = max_part_size,
      ms_UploadPart = (\<lambda>part_number object_offset checksum_policy b.
        GdsTransferPath_PutObjectPart P opts caps (part_request bucket key checksum_policy) b upload_id part_number),
      ms_Complete = complete_session P opts upload_id GPUDirect,
      ms_Abort = RpcAbortMultipartUpload P opts upload_id GPUDirect\<rparr>"

definition RdmaMultipartSession ::
  "'w Platform \<Rightarrow> ClientOptions \<Rightarrow> bool \<Rightarrow> string \<Rightarrow> string \<Rightarrow> string \<Rightarrow> nat \<Rightarrow> 'w IMultipartSession" where
  "RdmaMultipartSession P opts available bucket key upload_id max_part_size =
     \<lparr>ms_upload_id = upload_id, ms_max_part_size = max_part_size,
      ms_UploadPart = (\<lambda>part_number object_offset checksum_policy b.
        RdmaTransferPath_PutObjectPart P opts available (part_request bucket key checksum_policy) b upload_id part_number),
      ms_Complete = complete_session P opts upload_id CPUDirect,
      ms_Abort = RpcAbortMultipartUpload P opts upload_id CPUDirect\<rparr>"

definition create_session ::
  "'w Platform \<Rightarrow> ClientOptions \<Rightarrow> ObjectDescriptor \<Rightarrow> (string \<Rightarrow> nat \<Rightarrow> 'w IMultipartSession)
   \<Rightarrow> ('w, Status \<times> 'w IMultipartSession option) client" where
  "create_session P opts d session = do {
     r \<leftarrow> RpcCreateMultipartUpload P opts d;
     ret (case r of
            Inl e \<Rightarrow> (Status_FromError e, None)
          | Inr v \<Rightarrow> (Status_Ok, Some (session (sur_upload_id v) (sur_max_part_size v)))) }"

definition GdsMultipartFlow_CreateSession ::
  "'w Platform \<Rightarrow> ClientOptions \<Rightarrow> PlatformCapabilities \<Rightarrow> ObjectDescriptor
   \<Rightarrow> ('w, Status \<times> 'w IMultipartSession option) client" where
  "GdsMultipartFlow_CreateSession P opts caps d =
     create_session P opts d (GdsMultipartSession P opts caps (od_bucket d) (od_key d))"

definition RdmaMultipartFlow_CreateSession ::
  "'w Platform \<Rightarrow> ClientOptions \<Rightarrow> bool \<Rightarrow> ObjectDescriptor \<Rightarrow> ('w, Status \<times> 'w IMultipartSession option) client" where
  "RdmaMultipartFlow_CreateSession P opts available d =
     create_session P opts d (RdmaMultipartSession P opts available (od_bucket d) (od_key d))"

text \<open>\<^verbatim>\<open>SelectFlow\<close>: anything but \<^verbatim>\<open>CPUDirect\<close> is served by the GDS flow.\<close>

definition SelectFlow ::
  "'w Platform \<Rightarrow> ClientOptions \<Rightarrow> PlatformCapabilities \<Rightarrow> bool \<Rightarrow> DataFlow
   \<Rightarrow> ObjectDescriptor \<Rightarrow> ('w, Status \<times> 'w IMultipartSession option) client" where
  "SelectFlow P opts caps available flow =
     (case flow of CPUDirect \<Rightarrow> RdmaMultipartFlow_CreateSession P opts available
      | _ \<Rightarrow> GdsMultipartFlow_CreateSession P opts caps)"

section \<open>The upload handle\<close>

record 'w UploadImpl =
  up_session :: "'w IMultipartSession"
  up_checksum_policy :: string
  up_data_flow :: DataFlow
  up_parts :: "(nat \<times> string) list"
  up_bytes_committed :: nat
  up_finished :: bool

definition UploadImpl_init :: "'w IMultipartSession \<Rightarrow> DataFlow \<Rightarrow> 'w UploadImpl" where
  "UploadImpl_init ses flow =
     \<lparr>up_session = ses, up_checksum_policy = ''none'', up_data_flow = flow, up_parts = [], up_bytes_committed = 0,
      up_finished = False\<rparr>"

definition set_checksum_policy :: "string \<Rightarrow> 'w UploadImpl \<Rightarrow> 'w UploadImpl" where
  "set_checksum_policy policy u = u\<lparr>up_checksum_policy := policy\<rparr>"

definition IsUploadFinished :: "'w UploadImpl \<Rightarrow> bool" where
  "IsUploadFinished u = up_finished u"

definition RecordUploadedPart :: "nat \<Rightarrow> string \<Rightarrow> nat \<Rightarrow> 'w UploadImpl \<Rightarrow> 'w UploadImpl" where
  "RecordUploadedPart part_number tag nbytes u =
     u\<lparr>up_parts := up_parts u @ [(part_number, tag)], up_bytes_committed := u64_add (up_bytes_committed u) nbytes\<rparr>"

definition SnapshotPartsForComplete :: "'w UploadImpl \<Rightarrow> (nat \<times> string) list cresult" where
  "SnapshotPartsForComplete u =
     (if up_finished u then Inl (MakeInvalidArgument ''multipart upload already finalized'') else Inr (up_parts u))"

definition MarkUploadFinished :: "'w UploadImpl \<Rightarrow> 'w UploadImpl" where
  "MarkUploadFinished u = u\<lparr>up_finished := True\<rparr>"

text \<open>The checks of \<^verbatim>\<open>UploadPart\<close>, ending with the snapshot of the checksum policy.\<close>

definition part_guard :: "'w UploadImpl \<Rightarrow> BufferView \<Rightarrow> string cresult" where
  "part_guard u b =
     (let limit = ms_max_part_size (up_session u) in
      if bv_size b = 0 then Inl (MakeInvalidArgument ''UploadPart buffer is empty'')
      else if limit \<noteq> 0 \<and> bv_size b > limit then Inl (MakeInvalidArgument ''part exceeds gateway max_part_size'')
      else if up_finished u then Inl (MakeInvalidArgument ''multipart upload already finalized'')
      else Inr (up_checksum_policy u))"

definition MultipartUpload_UploadPart ::
  "nat \<Rightarrow> nat \<Rightarrow> BufferView \<Rightarrow> 'w UploadImpl \<Rightarrow> ('w, TransferOutcome cresult \<times> 'w UploadImpl) client" where
  "MultipartUpload_UploadPart part_number object_offset b u =
     (case part_guard u b of
        Inl e \<Rightarrow> ret (Inl e, u)
      | Inr policy \<Rightarrow> do {
          outcome \<leftarrow> ms_UploadPart (up_session u) part_number object_offset policy b;
          ret (case outcome of
                 Inl e \<Rightarrow> (outcome, u)
               | Inr v \<Rightarrow> (outcome, RecordUploadedPart part_number (to_etag v) (bv_size b) u)) })"

definition MultipartUpload_Complete :: "'w UploadImpl \<Rightarrow> ('w, CompleteResult cresult \<times> 'w UploadImpl) client" where
  "MultipartUpload_Complete u =
     (case SnapshotPartsForComplete u of
        Inl e \<Rightarrow> ret (Inl e, u)
      | Inr parts \<Rightarrow> do {
          r \<leftarrow> ms_Complete (up_session u) parts;
          _ \<leftarrow> (if isl r then ms_Abort (up_session u) else ret (Inr True));
          ret (r, MarkUploadFinished u) })"

definition MultipartUpload_Abort :: "'w UploadImpl \<Rightarrow> ('w, bool cresult \<times> 'w UploadImpl) client" where
  "MultipartUpload_Abort u =
     (if IsUploadFinished u then ret (Inr True, u)
      else do { out \<leftarrow> ms_Abort (up_session u); ret (out, MarkUploadFinished u) })"

text \<open>The destructor; an empty handle has no implementation.\<close>

definition ShouldBestEffortAbortOnDestruct :: "'w UploadImpl option \<Rightarrow> bool" where
  "ShouldBestEffortAbortOnDestruct h = (case h of None \<Rightarrow> False | Some u \<Rightarrow> \<not> up_finished u)"

definition MultipartUpload_destruct :: "'w UploadImpl option \<Rightarrow> ('w, unit) client" where
  "MultipartUpload_destruct h =
     (if \<not> ShouldBestEffortAbortOnDestruct h then ret ()
      else do { _ \<leftarrow> ms_Abort (up_session (the h)); ret () })"

section \<open>Concurrent part uploads\<close>

record PartSpec =
  ps_part_number :: nat
  ps_object_offset :: nat
  ps_buffer :: BufferView

definition NormalizeUploadPartsConcurrency :: "nat \<Rightarrow> nat \<Rightarrow> nat" where
  "NormalizeUploadPartsConcurrency concurrency part_count =
     (if concurrency = 0 then 1 else if concurrency > part_count then part_count else concurrency)"

text \<open>Where a worker stands: at its start, about to take an index, about to look at the error, inside \<^verbatim>\<open>UploadPart\<close> before
  its checks, during the transfer and before recording the part, about to store the outcome or the error, returned.\<close>

datatype worker =
    Begin | Fetch | Check nat | Guard nat | Send nat string | Record nat TransferOutcome | Store nat TransferOutcome
  | Fail nat ClientError | Returned

record 'w UploadRun =
  ur_client :: "'w ClientState"
  ur_impl :: "'w UploadImpl"
  ur_next_index :: nat
  ur_first_error :: "ClientError option"
  ur_outcomes :: "TransferOutcome list"
  ur_workers :: "worker list"
  ur_stored :: "nat list"
  ur_dropped :: "nat list"

definition HasError :: "'w UploadRun \<Rightarrow> bool" where
  "HasError r \<longleftrightarrow> ur_first_error r \<noteq> None"

definition RecordError :: "ClientError \<Rightarrow> 'w UploadRun \<Rightarrow> 'w UploadRun" where
  "RecordError e r = (if ur_first_error r \<noteq> None then r else r\<lparr>ur_first_error := Some e\<rparr>)"

definition RecordSuccess :: "nat \<Rightarrow> TransferOutcome \<Rightarrow> 'w UploadRun \<Rightarrow> 'w UploadRun" where
  "RecordSuccess i v r = r\<lparr>ur_outcomes := (ur_outcomes r)[i := v]\<rparr>"

definition goto :: "nat \<Rightarrow> worker \<Rightarrow> 'w UploadRun \<Rightarrow> 'w UploadRun" where
  "goto j pc r = r\<lparr>ur_workers := (ur_workers r)[j := pc]\<rparr>"

definition cuda_error :: ClientError where
  "cuda_error = MakeInvalidArgument ''worker cudaSetDevice failed; cannot bind CUDA context''"

inductive upload_step :: "PartSpec list \<Rightarrow> 'w UploadRun \<Rightarrow> 'w UploadRun \<Rightarrow> bool" for parts where
  device: "j < length (ur_workers r) \<Longrightarrow> ur_workers r ! j = Begin \<Longrightarrow> upload_step parts r (goto j Fetch r)"
| no_device: "j < length (ur_workers r) \<Longrightarrow> ur_workers r ! j = Begin \<Longrightarrow>
    upload_step parts r (goto j Returned (RecordError cuda_error r))"
| fetch: "j < length (ur_workers r) \<Longrightarrow> ur_workers r ! j = Fetch \<Longrightarrow>
    upload_step parts r (goto j (if ur_next_index r \<ge> length parts then Returned else Check (ur_next_index r))
      (r\<lparr>ur_next_index := ur_next_index r + 1\<rparr>))"
| check: "j < length (ur_workers r) \<Longrightarrow> ur_workers r ! j = Check i \<Longrightarrow> \<not> HasError r \<Longrightarrow>
    upload_step parts r (goto j (Guard i) r)"
| short_circuit: "j < length (ur_workers r) \<Longrightarrow> ur_workers r ! j = Check i \<Longrightarrow> HasError r \<Longrightarrow>
    upload_step parts r (goto j Returned (r\<lparr>ur_dropped := i # ur_dropped r\<rparr>))"
| guard_ok: "j < length (ur_workers r) \<Longrightarrow> ur_workers r ! j = Guard i \<Longrightarrow>
    part_guard (ur_impl r) (ps_buffer (parts ! i)) = Inr policy \<Longrightarrow> upload_step parts r (goto j (Send i policy) r)"
| guard_fails: "j < length (ur_workers r) \<Longrightarrow> ur_workers r ! j = Guard i \<Longrightarrow>
    part_guard (ur_impl r) (ps_buffer (parts ! i)) = Inl e \<Longrightarrow> upload_step parts r (goto j (Fail i e) r)"
| sent: "j < length (ur_workers r) \<Longrightarrow> ur_workers r ! j = Send i policy \<Longrightarrow>
    run_state (ms_UploadPart (up_session (ur_impl r)) (ps_part_number (parts ! i)) (ps_object_offset (parts ! i)) policy
      (ps_buffer (parts ! i))) (ur_client r) = (Inr v, c) \<Longrightarrow>
    upload_step parts r (goto j (Record i v) (r\<lparr>ur_client := c\<rparr>))"
| send_fails: "j < length (ur_workers r) \<Longrightarrow> ur_workers r ! j = Send i policy \<Longrightarrow>
    run_state (ms_UploadPart (up_session (ur_impl r)) (ps_part_number (parts ! i)) (ps_object_offset (parts ! i)) policy
      (ps_buffer (parts ! i))) (ur_client r) = (Inl e, c) \<Longrightarrow>
    upload_step parts r (goto j (Fail i e) (r\<lparr>ur_client := c\<rparr>))"
| recorded: "j < length (ur_workers r) \<Longrightarrow> ur_workers r ! j = Record i v \<Longrightarrow>
    upload_step parts r (goto j (Store i v)
      (r\<lparr>ur_impl := RecordUploadedPart (ps_part_number (parts ! i)) (to_etag v) (bv_size (ps_buffer (parts ! i))) (ur_impl r)\<rparr>))"
| stored: "j < length (ur_workers r) \<Longrightarrow> ur_workers r ! j = Store i v \<Longrightarrow>
    upload_step parts r (goto j Fetch ((RecordSuccess i v r)\<lparr>ur_stored := i # ur_stored r\<rparr>))"
| failed: "j < length (ur_workers r) \<Longrightarrow> ur_workers r ! j = Fail i e \<Longrightarrow>
    upload_step parts r (goto j Fetch ((RecordError e r)\<lparr>ur_dropped := i # ur_dropped r\<rparr>))"

inductive_cases upload_step_cases: "upload_step parts r r'"

definition UploadRun_init :: "PartSpec list \<Rightarrow> nat \<Rightarrow> 'w ClientState \<Rightarrow> 'w UploadImpl \<Rightarrow> 'w UploadRun" where
  "UploadRun_init parts concurrency c u =
     \<lparr>ur_client = c, ur_impl = u, ur_next_index = 0, ur_first_error = None,
      ur_outcomes = replicate (length parts) TransferOutcome_default,
      ur_workers = replicate (NormalizeUploadPartsConcurrency concurrency (length parts)) Begin,
      ur_stored = [], ur_dropped = []\<rparr>"

definition joined :: "'w UploadRun \<Rightarrow> bool" where
  "joined r \<longleftrightarrow> (\<forall>pc \<in> set (ur_workers r). pc = Returned)"

text \<open>The end of \<^verbatim>\<open>UploadParts\<close>, after the workers have been joined.\<close>

definition finish_upload_parts :: "'w UploadRun \<Rightarrow> TransferOutcome list cresult \<times> 'w UploadImpl \<times> 'w ClientState" where
  "finish_upload_parts r =
     (case ur_first_error r of
        Some e \<Rightarrow> let ((_, u), c) = run_state (MultipartUpload_Abort (ur_impl r)) (ur_client r) in (Inl e, u, c)
      | None \<Rightarrow> (Inr (ur_outcomes r), ur_impl r, ur_client r))"

inductive UploadParts ::
  "PartSpec list \<Rightarrow> nat \<Rightarrow> 'w UploadImpl \<Rightarrow> 'w ClientState \<Rightarrow> TransferOutcome list cresult \<Rightarrow> 'w UploadImpl \<Rightarrow> 'w ClientState \<Rightarrow> bool"
  where
  nothing: "UploadParts [] concurrency u c (Inr []) u c"
| ran: "parts \<noteq> [] \<Longrightarrow> (upload_step parts)\<^sup>*\<^sup>* (UploadRun_init parts concurrency c u) r \<Longrightarrow> joined r \<Longrightarrow>
    finish_upload_parts r = (res, u', c') \<Longrightarrow> UploadParts parts concurrency u c res u' c'"

section \<open>The workers end\<close>

fun weight :: "worker \<Rightarrow> nat" where
  "weight Returned = 0" | "weight Fetch = 1" | "weight (Store i v) = 2" | "weight (Fail i e) = 2"
| "weight (Record i v) = 3" | "weight (Send i p) = 4" | "weight (Guard i) = 5" | "weight (Check i) = 6" | "weight Begin = 2"

definition run_measure :: "PartSpec list \<Rightarrow> 'w UploadRun \<Rightarrow> nat" where
  "run_measure parts r = 6 * (length parts - ur_next_index r) + sum_list (map weight (ur_workers r))"

lemma goto_fields [simp]:
  "ur_client (goto j pc r) = ur_client r" "ur_impl (goto j pc r) = ur_impl r" "ur_next_index (goto j pc r) = ur_next_index r"
  "ur_first_error (goto j pc r) = ur_first_error r" "ur_outcomes (goto j pc r) = ur_outcomes r"
  "ur_workers (goto j pc r) = (ur_workers r)[j := pc]" "ur_stored (goto j pc r) = ur_stored r" "ur_dropped (goto j pc r) = ur_dropped r"
  by (simp_all add: goto_def)

lemma RecordError_fields [simp]:
  "ur_client (RecordError e r) = ur_client r" "ur_impl (RecordError e r) = ur_impl r"
  "ur_next_index (RecordError e r) = ur_next_index r" "ur_outcomes (RecordError e r) = ur_outcomes r"
  "ur_workers (RecordError e r) = ur_workers r" "ur_stored (RecordError e r) = ur_stored r"
  "ur_dropped (RecordError e r) = ur_dropped r" "HasError (RecordError e r)"
  "HasError (goto j pc r) = HasError r" "HasError (r\<lparr>ur_dropped := d\<rparr>) = HasError r"
  "HasError (r\<lparr>ur_stored := d\<rparr>) = HasError r" "HasError (r\<lparr>ur_client := c\<rparr>) = HasError r"
  "HasError (r\<lparr>ur_impl := u\<rparr>) = HasError r" "HasError (r\<lparr>ur_next_index := n\<rparr>) = HasError r"
  by (auto simp: RecordError_def HasError_def goto_def)

lemma RecordSuccess_fields [simp]:
  "ur_client (RecordSuccess i v r) = ur_client r" "ur_impl (RecordSuccess i v r) = ur_impl r"
  "ur_next_index (RecordSuccess i v r) = ur_next_index r" "ur_workers (RecordSuccess i v r) = ur_workers r"
  "ur_stored (RecordSuccess i v r) = ur_stored r" "ur_dropped (RecordSuccess i v r) = ur_dropped r"
  "ur_outcomes (RecordSuccess i v r) = (ur_outcomes r)[i := v]" "HasError (RecordSuccess i v r) = HasError r"
  by (simp_all add: RecordSuccess_def HasError_def)

lemma weight_update:
  "j < length ws \<Longrightarrow> sum_list (map weight (ws[j := pc])) + weight (ws ! j) = sum_list (map weight ws) + weight pc"
  by (induction ws arbitrary: j) (auto simp: nth_Cons split: nat.splits)

lemma measure_goto:
  assumes "j < length (ur_workers r)" "ur_workers r1 = ur_workers r"
    and "6 * (length parts - ur_next_index r1) + weight pc < 6 * (length parts - ur_next_index r) + weight (ur_workers r ! j)"
  shows "run_measure parts (goto j pc r1) < run_measure parts r"
  using weight_update [OF assms(1), of pc] assms(2,3) by (simp add: run_measure_def)

lemma step_decreases: "upload_step parts r r' \<Longrightarrow> run_measure parts r' < run_measure parts r"
  by (erule upload_step.cases) (auto intro!: measure_goto)

lemma step_wf: "wfP (\<lambda>r' r. upload_step parts r r')"
  by (rule wfp_if_convertible_to_nat [where f = "run_measure parts"]) (rule step_decreases)

lemma not_joined_steps:
  assumes "\<not> joined r"
  shows "\<exists>r'. upload_step parts r r'"
proof -
  obtain j where j: "j < length (ur_workers r)" "ur_workers r ! j \<noteq> Returned"
    using assms by (auto simp: joined_def in_set_conv_nth)
  show ?thesis
  proof (cases "ur_workers r ! j")
    case (Send i p)
    obtain x c where "run_state (ms_UploadPart (up_session (ur_impl r)) (ps_part_number (parts ! i))
        (ps_object_offset (parts ! i)) p (ps_buffer (parts ! i))) (ur_client r) = (x, c)" by fastforce
    then show ?thesis using upload_step.sent [OF j(1) Send] upload_step.send_fails [OF j(1) Send] by (cases x) blast+
  next
    case (Guard i)
    then show ?thesis using upload_step.guard_ok [OF j(1) Guard] upload_step.guard_fails [OF j(1) Guard]
      by (cases "part_guard (ur_impl r) (ps_buffer (parts ! i))") blast+
  next
    case (Check i)
    then show ?thesis using upload_step.check [OF j(1) Check] upload_step.short_circuit [OF j(1) Check] by blast
  qed (use j(2) in \<open>simp_all\<close>, (blast intro: upload_step.device [OF j(1)] upload_step.fetch [OF j(1)]
      upload_step.recorded [OF j(1)] upload_step.stored [OF j(1)] upload_step.failed [OF j(1)])+)
qed

lemma runs_to_join: "\<exists>r'. (upload_step parts)\<^sup>*\<^sup>* r r' \<and> joined r'"
proof (induction r rule: wfp_induct_rule [OF step_wf [of parts]])
  case (1 r)
  show ?case
  proof (cases "joined r")
    case False
    then obtain r1 where r1: "upload_step parts r r1" using not_joined_steps by blast
    from 1 [OF r1] show ?thesis using r1 by (meson converse_rtranclp_into_rtranclp)
  qed blast
qed

lemma upload_parts_result: "\<exists>res u' c'. UploadParts parts concurrency u c res u' c'"
proof (cases "parts = []")
  case False
  obtain r where r: "(upload_step parts)\<^sup>*\<^sup>* (UploadRun_init parts concurrency c u) r" "joined r"
    using runs_to_join by blast
  obtain res u' c' where "finish_upload_parts r = (res, u', c')" by (rule prod_cases3)
  then show ?thesis using UploadParts.ran [OF False r] by blast
qed (use UploadParts.nothing in blast)

text \<open>C32: \<^verbatim>\<open>UploadParts\<close> always returns. Under every scheduling of the workers and every outcome of the transfers, each
  step decreases a measure, so no run is infinite; as long as a worker has not returned some step is possible, so the
  joins cannot block; and a result exists for every list of parts and every requested concurrency.\<close>

theorem upload_parts_terminates:
  "wfP (\<lambda>r' r. upload_step parts r r') \<and> (\<forall>r :: 'w UploadRun. joined r \<or> (\<exists>r'. upload_step parts r r')) \<and>
   (\<exists>res u' c'. UploadParts parts concurrency (u :: 'w UploadImpl) c res u' c')"
  using step_wf not_joined_steps upload_parts_result by blast

section \<open>Every part once\<close>

fun held :: "worker \<Rightarrow> nat list" where
  "held (Check i) = [i]" | "held (Guard i) = [i]" | "held (Send i p) = [i]" | "held (Record i v) = [i]"
| "held (Store i v) = [i]" | "held (Fail i e) = [i]" | "held _ = []"

fun in_store :: "PartSpec list \<Rightarrow> worker \<Rightarrow> (nat \<times> string) list" where
  "in_store parts (Store i v) = [(ps_part_number (parts ! i), to_etag v)]" | "in_store parts _ = []"

abbreviation part_ref :: "PartSpec list \<Rightarrow> TransferOutcome list \<Rightarrow> nat \<Rightarrow> nat \<times> string" where
  "part_ref parts outs i \<equiv> (ps_part_number (parts ! i), to_etag (outs ! i))"

definition upload_inv :: "PartSpec list \<Rightarrow> 'w UploadImpl \<Rightarrow> 'w UploadRun \<Rightarrow> bool" where
  "upload_inv parts u r \<longleftrightarrow>
     ur_workers r \<noteq> [] \<and> length (ur_outcomes r) = length parts \<and> up_session (ur_impl r) = up_session u \<and> up_finished (ur_impl r) = up_finished u \<and>
     mset (concat (map held (ur_workers r))) + mset (ur_stored r) + mset (ur_dropped r) =
       mset [0..<min (ur_next_index r) (length parts)] \<and>
     (ur_dropped r \<noteq> [] \<longrightarrow> HasError r) \<and>
     (Returned \<in> set (ur_workers r) \<and> \<not> HasError r \<longrightarrow> length parts \<le> ur_next_index r) \<and>
     mset (up_parts (ur_impl r)) = mset (up_parts u) + mset (map (part_ref parts (ur_outcomes r)) (ur_stored r)) +
       mset (concat (map (in_store parts) (ur_workers r)))"

lemma concat_update:
  "j < length ws \<Longrightarrow> mset (concat (map f (ws[j := pc]))) + mset (f (ws ! j)) = mset (concat (map f ws)) + mset (f pc)"
  by (induction ws arbitrary: j) (auto simp: nth_Cons ac_simps split: nat.splits)

lemma concat_disjoint:
  "distinct (concat (map f ws)) \<Longrightarrow> j < length ws \<Longrightarrow> k < length ws \<Longrightarrow> j \<noteq> k \<Longrightarrow>
   x \<in> set (f (ws ! j)) \<Longrightarrow> x \<notin> set (f (ws ! k))"
proof (induction ws arbitrary: j k)
  case (Cons w ws)
  have sub: "i < length ws \<Longrightarrow> set (f (ws ! i)) \<subseteq> set (concat (map f ws))" for i using nth_mem by fastforce
  have dis: "set (f w) \<inter> set (concat (map f ws)) = {}" "distinct (concat (map f ws))" using Cons.prems(1) by auto
  show ?case
  proof (cases j)
    case 0
    then obtain k' where "k = Suc k'" "k' < length ws" using Cons.prems by (cases k) auto
    then show ?thesis using sub dis(1) Cons.prems(5) 0 by (auto simp: disjoint_iff)
  next
    case (Suc j')
    then show ?thesis using sub [of j'] dis Cons.prems Cons.IH [of j' "k - 1"] by (cases k) (auto simp: disjoint_iff)
  qed
qed simp

lemma held_distinct:
  assumes "upload_inv parts u r" "j < length (ur_workers r)" "i \<in> set (held (ur_workers r ! j))"
  shows "i < length parts" "i \<notin> set (ur_stored r)"
proof -
  let ?all = "concat (map held (ur_workers r)) @ ur_stored r @ ur_dropped r"
  have eq: "mset ?all = mset [0..<min (ur_next_index r) (length parts)]" using assms(1) by (simp add: upload_inv_def ac_simps)
  have "i \<in> set (concat (map held (ur_workers r)))" using assms(2,3) by auto
  moreover have "distinct ?all" "set ?all = {0..<min (ur_next_index r) (length parts)}"
    using mset_eq_imp_distinct_iff [OF eq] mset_eq_setD [OF eq] by simp_all
  ultimately show "i < length parts" "i \<notin> set (ur_stored r)" by auto
qed

lemma mset_balance:
  fixes w :: "'a multiset"
  assumes "w' + h = w + h'" "h' + s' + d' + N = h + s + d + N'" "w + s + d = N"
  shows "w' + s' + d' = N'"
proof (rule multiset_eqI)
  fix x
  show "count (w' + s' + d') x = count N' x" using assms [THEN arg_cong, of "\<lambda>m. count m x"] by simp
qed

lemma mset_balance_refs:
  fixes w :: "'a multiset"
  assumes "w' + h = w + h'" "p' + t + h = p + t' + h'" "p = q + t + w"
  shows "p' = q + t' + w'"
proof (rule multiset_eqI)
  fix x
  show "count p' x = count (q + t' + w') x" using assms [THEN arg_cong, of "\<lambda>m. count m x"] by simp
qed

lemma inv_goto:
  assumes "upload_inv parts u r" "j < length (ur_workers r)" "ur_workers r1 = ur_workers r"
    and "length (ur_outcomes r1) = length (ur_outcomes r)" "up_session (ur_impl r1) = up_session (ur_impl r)"
      "up_finished (ur_impl r1) = up_finished (ur_impl r)"
    and index: "mset (held pc) + mset (ur_stored r1) + mset (ur_dropped r1) + mset [0..<min (ur_next_index r) (length parts)] =
      mset (held (ur_workers r ! j)) + mset (ur_stored r) + mset (ur_dropped r) + mset [0..<min (ur_next_index r1) (length parts)]"
    and error: "HasError r \<Longrightarrow> HasError r1" "ur_dropped r1 \<noteq> [] \<Longrightarrow> HasError r1" "ur_next_index r \<le> ur_next_index r1"
      "pc = Returned \<Longrightarrow> \<not> HasError r1 \<Longrightarrow> length parts \<le> ur_next_index r1"
    and refs: "mset (up_parts (ur_impl r1)) + mset (map (part_ref parts (ur_outcomes r)) (ur_stored r)) +
        mset (in_store parts (ur_workers r ! j)) =
      mset (up_parts (ur_impl r)) + mset (map (part_ref parts (ur_outcomes r1)) (ur_stored r1)) + mset (in_store parts pc)"
  shows "upload_inv parts u (goto j pc r1)"
proof -
  note inv = assms(1) [unfolded upload_inv_def]
  have i1: "mset (concat (map held (ur_workers r))) + mset (ur_stored r) + mset (ur_dropped r) =
      mset [0..<min (ur_next_index r) (length parts)]" using inv by blast
  have i2: "mset (up_parts (ur_impl r)) = mset (up_parts u) + mset (map (part_ref parts (ur_outcomes r)) (ur_stored r)) +
      mset (concat (map (in_store parts) (ur_workers r)))" using inv by blast
  note o1 = mset_balance [OF concat_update [OF assms(2), of held pc] index i1]
  note o2 = mset_balance_refs [OF concat_update [OF assms(2), of "in_store parts" pc] refs i2]
  have i3: "Returned \<in> set (ur_workers r) \<and> \<not> HasError r \<longrightarrow> length parts \<le> ur_next_index r" using inv by blast
  have o3: "Returned \<in> set ((ur_workers r)[j := pc]) \<and> \<not> HasError r1 \<longrightarrow> length parts \<le> ur_next_index r1"
    using i3 error(1,3,4) subsetD [OF set_update_subset_insert [of "ur_workers r" j pc], of Returned] by auto
  have o4: "(ur_workers r)[j := pc] \<noteq> []" "length (ur_outcomes r1) = length parts" "up_session (ur_impl r1) = up_session u" "up_finished (ur_impl r1) = up_finished u"
    using inv assms(4-6) by simp_all
  show ?thesis unfolding upload_inv_def using o1 o2 o3 o4 error(2) by (simp only: goto_fields assms(3) RecordError_fields) blast
qed

lemma inv_init: "parts \<noteq> [] \<Longrightarrow> upload_inv parts u (UploadRun_init parts n c u)"
  by (auto simp: upload_inv_def UploadRun_init_def HasError_def NormalizeUploadPartsConcurrency_def)

lemma inv_step:
  assumes "upload_step parts r r'" "upload_inv parts u r"
  shows "upload_inv parts u r'"
proof -
  have dropped: "ur_dropped r \<noteq> [] \<Longrightarrow> HasError r" using assms(2) by (simp add: upload_inv_def)
  show ?thesis using assms(1)
proof (cases rule: upload_step.cases)
  case (fetch j)
  have "mset [0..<min (Suc (ur_next_index r)) (length parts)] =
      mset [0..<min (ur_next_index r) (length parts)] + (if ur_next_index r < length parts then {#ur_next_index r#} else {#})"
    by (auto simp: min_def le_Suc_eq simp del: mset_upt)
  then show ?thesis unfolding fetch(1)
    using fetch(2,3) assms(2) by (intro inv_goto [OF assms(2)]) (auto simp: upload_inv_def split: if_splits)
next
  case (stored j i v)
  have i: "i < length parts" "i \<notin> set (ur_stored r)" using held_distinct [OF assms(2) stored(2)] stored(3) by auto
  have len: "length (ur_outcomes r) = length parts" using assms(2) by (simp add: upload_inv_def)
  have "image_mset (part_ref parts ((ur_outcomes r)[i := v])) (mset (ur_stored r)) =
      image_mset (part_ref parts (ur_outcomes r)) (mset (ur_stored r))"
    using i(2) by (intro image_mset_cong) (metis nth_list_update_neq set_mset_mset)
  then show ?thesis unfolding stored(1)
    using stored(2,3) assms(2) i(1) len by (intro inv_goto [OF assms(2)]) (auto simp: upload_inv_def)
next
  case (recorded j i v)
  show ?thesis unfolding recorded(1)
    by (rule inv_goto [OF assms(2) recorded(2)]) (simp_all add: recorded(3) dropped RecordUploadedPart_def)
qed (auto intro!: inv_goto [OF assms(2)] simp: dropped)
qed

lemma inv_run:
  "(upload_step parts)\<^sup>*\<^sup>* r r' \<Longrightarrow> upload_inv parts u r \<Longrightarrow> upload_inv parts u r'"
  by (induction rule: rtranclp_induct) (auto intro: inv_step)

text \<open>A run that was joined without an error has stored every index, once.\<close>

lemma all_stored:
  assumes "upload_inv parts u r" "joined r" "\<not> HasError r"
  shows "mset (ur_stored r) = mset [0..<length parts]" "set (ur_stored r) = {0..<length parts}"
proof -
  have ret: "pc = Returned" if "pc \<in> set (ur_workers r)" for pc using assms(2) that by (simp add: joined_def)
  have "\<forall>pc \<in> set (ur_workers r). held pc = []" using ret held.simps(9) by blast
  then have none: "concat (map held (ur_workers r)) = []" by simp
  have rest: "ur_dropped r = []" "length parts \<le> ur_next_index r"
    using assms ret [of "hd (ur_workers r)"] hd_in_set [of "ur_workers r"] by (auto simp: upload_inv_def)
  have "mset (concat (map held (ur_workers r))) + mset (ur_stored r) + mset (ur_dropped r) =
      mset [0..<min (ur_next_index r) (length parts)]" using assms(1) unfolding upload_inv_def by blast
  then show "mset (ur_stored r) = mset [0..<length parts]" unfolding none using rest by simp
  from mset_eq_setD [OF this] show "set (ur_stored r) = {0..<length parts}" by simp
qed

subsection \<open>What the transfers establish\<close>

text \<open>The contract of a link session as \<^verbatim>\<open>UploadParts\<close> uses it: transferring the part at an index adds it, with its outcome, to the
  delivered parts; a failed transfer loses nothing that was delivered. A part may be sent at any time, in any order.\<close>

locale part_sink =
  fixes ses :: "'w IMultipartSession" and parts :: "PartSpec list"
    and delivered :: "(nat \<times> TransferOutcome) set \<Rightarrow> 'w ClientState \<Rightarrow> bool"
  assumes deliver: "delivered M c \<Longrightarrow> i < length parts \<Longrightarrow> i \<notin> fst ` M \<Longrightarrow>
      run_state (ms_UploadPart ses (ps_part_number (parts ! i)) (ps_object_offset (parts ! i)) policy (ps_buffer (parts ! i))) c = (Inr v, c') \<Longrightarrow>
      delivered (insert (i, v) M) c'"
    and lose_nothing: "delivered M c \<Longrightarrow> i < length parts \<Longrightarrow> i \<notin> fst ` M \<Longrightarrow>
      run_state (ms_UploadPart ses (ps_part_number (parts ! i)) (ps_object_offset (parts ! i)) policy (ps_buffer (parts ! i))) c = (Inl e, c') \<Longrightarrow>
      delivered M c'"
begin

fun sent_by :: "worker \<Rightarrow> (nat \<times> TransferOutcome) list" where
  "sent_by (Record i v) = [(i, v)]" | "sent_by (Store i v) = [(i, v)]" | "sent_by _ = []"

definition sent_now :: "'w UploadRun \<Rightarrow> (nat \<times> TransferOutcome) set" where
  "sent_now r = set (concat (map sent_by (ur_workers r)))"

definition kept_outcomes :: "'w UploadRun \<Rightarrow> (nat \<times> TransferOutcome) set" where
  "kept_outcomes r = (\<lambda>i. (i, ur_outcomes r ! i)) ` set (ur_stored r)"

definition sink_inv :: "'w UploadRun \<Rightarrow> bool" where
  "sink_inv r \<longleftrightarrow> delivered (kept_outcomes r \<union> sent_now r) (ur_client r)"

lemma sent_goto:
  assumes "j < length (ur_workers r)" "ur_workers r1 = ur_workers r"
  shows "set (sent_by pc) = set (sent_by (ur_workers r ! j)) \<Longrightarrow> sent_now (goto j pc r1) = sent_now r"
    "sent_by (ur_workers r ! j) = [] \<Longrightarrow> sent_now (goto j pc r1) = sent_now r \<union> set (sent_by pc)"
    "sent_by pc = [] \<Longrightarrow> sent_now r = sent_now (goto j pc r1) \<union> set (sent_by (ur_workers r ! j))"
proof -
  have eq: "sent_now (goto j pc r1) \<union> set (sent_by (ur_workers r ! j)) = sent_now r \<union> set (sent_by pc)"
    using concat_update [OF assms(1), of sent_by pc, THEN arg_cong, of set_mset] assms(2) by (simp add: sent_now_def)
  then show "sent_by (ur_workers r ! j) = [] \<Longrightarrow> sent_now (goto j pc r1) = sent_now r \<union> set (sent_by pc)"
    "sent_by pc = [] \<Longrightarrow> sent_now r = sent_now (goto j pc r1) \<union> set (sent_by (ur_workers r ! j))" by simp_all
  assume same: "set (sent_by pc) = set (sent_by (ur_workers r ! j))"
  have "set (sent_by (ur_workers r ! j)) \<subseteq> sent_now r" using assms(1) nth_mem by (fastforce simp: sent_now_def)
  moreover have "set (sent_by pc) \<subseteq> sent_now (goto j pc r1)"
    using assms by (auto simp: sent_now_def intro!: bexI [OF _ set_update_memI])
  ultimately show "sent_now (goto j pc r1) = sent_now r" using eq same by blast
qed

lemma sink_same:
  assumes "delivered (kept_outcomes r \<union> sent_now r) (ur_client r1)" "j < length (ur_workers r)" "ur_workers r1 = ur_workers r"
    and "set (sent_by pc) = set (sent_by (ur_workers r ! j))" "ur_stored r1 = ur_stored r" "ur_outcomes r1 = ur_outcomes r"
  shows "sink_inv (goto j pc r1)"
  using assms sent_goto(1) [OF assms(2,3,4)] by (simp add: sink_inv_def kept_outcomes_def)

lemma sent_not_yet:
  assumes "upload_inv parts u r" "j < length (ur_workers r)" "held (ur_workers r ! j) = [i]" "sent_by (ur_workers r ! j) = []"
  shows "i \<notin> fst ` (kept_outcomes r \<union> sent_now r)"
proof
  assume "i \<in> fst ` (kept_outcomes r \<union> sent_now r)"
  then obtain k where k: "k < length (ur_workers r)" "i \<in> fst ` set (sent_by (ur_workers r ! k))"
    using held_distinct(2) [OF assms(1,2)] assms(3) by (auto simp: sent_now_def kept_outcomes_def in_set_conv_nth) (metis fst_conv image_eqI nth_mem)
  then have held: "held (ur_workers r ! k) = [i]" by (cases "ur_workers r ! k") auto
  have "distinct (concat (map held (ur_workers r)) @ ur_stored r @ ur_dropped r)"
    using assms(1) mset_eq_imp_distinct_iff [of "concat (map held (ur_workers r)) @ ur_stored r @ ur_dropped r"
        "[0..<min (ur_next_index r) (length parts)]"] by (simp add: upload_inv_def ac_simps)
  then have "distinct (concat (map held (ur_workers r)))" by simp
  moreover have "j \<noteq> k" using k(2) assms(4) by auto
  ultimately show False using concat_disjoint [of held "ur_workers r" j k i] assms(2,3) k(1) held by simp
qed

text \<open>The part a worker is about to send has not been delivered.\<close>

lemma about_to_send:
  assumes "upload_inv parts u r" "j < length (ur_workers r)" "ur_workers r ! j = Send i policy"
  shows "i < length parts" "i \<notin> fst ` (kept_outcomes r \<union> sent_now r)"
  using held_distinct(1) [OF assms(1,2)] sent_not_yet [OF assms(1,2)] assms(3) by auto

lemma sink_step:
  assumes "upload_step parts r r'" "upload_inv parts u r" "up_session u = ses" "sink_inv r"
  shows "sink_inv r'"
proof -
  have ses: "up_session (ur_impl r) = ses" using assms(2,3) by (simp add: upload_inv_def)
  note del = assms(4) [unfolded sink_inv_def]
  show ?thesis using assms(1)
  proof (cases rule: upload_step.cases)
    case (sent j i policy v c)
    note i = about_to_send [OF assms(2) sent(2,3)]
    have now: "sent_now (goto j (Record i v) (r\<lparr>ur_client := c\<rparr>)) = insert (i, v) (sent_now r)"
      using sent_goto(2) [OF sent(2)] sent(3) by simp
    from deliver [OF del i sent(4) [unfolded ses]] show ?thesis
      unfolding sent(1) using now by (simp add: sink_inv_def kept_outcomes_def)
  next
    case (send_fails j i policy e c)
    from lose_nothing [OF del about_to_send [OF assms(2) send_fails(2,3)] send_fails(4) [unfolded ses]] show ?thesis
      unfolding send_fails(1) using send_fails(2,3) by (intro sink_same) simp_all
  next
    case (stored j i v)
    have i: "i < length parts" "i \<notin> set (ur_stored r)" using held_distinct [OF assms(2) stored(2)] stored(3) by auto
    have len: "length (ur_outcomes r) = length parts" using assms(2) by (simp add: upload_inv_def)
    have now: "sent_now r = insert (i, v) (sent_now r')"
      using sent_goto(3) [OF stored(2), of "(RecordSuccess i v r)\<lparr>ur_stored := i # ur_stored r\<rparr>" Fetch] stored(1,3) by simp
    have "kept_outcomes r' = insert (i, v) (kept_outcomes r)"
      using i len stored(1) by (auto simp: kept_outcomes_def nth_list_update image_iff)
    then show ?thesis using del now stored(1) by (simp add: sink_inv_def)
  qed (use del in \<open>auto intro!: sink_same split: if_splits\<close>)
qed

lemma sink_run:
  assumes "(upload_step parts)\<^sup>*\<^sup>* r r'" "upload_inv parts u r" "up_session u = ses" "sink_inv r"
  shows "sink_inv r'"
  using assms(1,4) by (induction rule: rtranclp_induct) (auto intro: sink_step inv_run [OF _ assms(2)] assms(3))

lemma sink_init: "delivered {} c \<Longrightarrow> sink_inv (UploadRun_init parts n c u)"
  by (simp add: sink_inv_def sent_now_def kept_outcomes_def UploadRun_init_def)

lemma all_delivered:
  assumes "UploadParts parts n u c (Inr outs) u' c'" "up_session u = ses" "delivered {} c"
  shows "delivered ((\<lambda>i. (i, outs ! i)) ` {0..<length parts}) c'"
proof -
  consider "parts = []" "c' = c"
    | r where "parts \<noteq> []" "(upload_step parts)\<^sup>*\<^sup>* (UploadRun_init parts n c u) r" "joined r" "finish_upload_parts r = (Inr outs, u', c')"
    using assms(1) by (auto elim: UploadParts.cases)
  then show ?thesis
  proof cases
    case 2
    have err: "\<not> HasError r" "ur_outcomes r = outs" "ur_client r = c'"
      using 2(4) by (auto simp: finish_upload_parts_def HasError_def split: option.splits prod.splits)
    note inv = inv_run [OF 2(2) inv_init [OF 2(1)]] sink_run [OF 2(2) inv_init [OF 2(1)] assms(2) sink_init [OF assms(3)]]
    have "sent_now r = {}" using 2(3) by (auto simp: sent_now_def joined_def)
    then show ?thesis using inv(2) all_stored(2) [OF inv(1) 2(3) err(1)] err(2,3) by (simp add: sink_inv_def kept_outcomes_def)
  qed (use assms(3) in simp)
qed

end

text \<open>A sink that accepts every part it is given: then only a worker that cannot bind its device makes \<^verbatim>\<open>UploadParts\<close> fail.\<close>

locale prompt_sink = part_sink +
  assumes prompt: "delivered M c \<Longrightarrow> i < length parts \<Longrightarrow> i \<notin> fst ` M \<Longrightarrow>
      \<exists>v c'. run_state (ms_UploadPart ses (ps_part_number (parts ! i)) (ps_object_offset (parts ! i)) policy (ps_buffer (parts ! i))) c = (Inr v, c')"
begin

definition untroubled :: "'a UploadRun \<Rightarrow> bool" where
  "untroubled r \<longleftrightarrow> ur_first_error r \<in> {None, Some cuda_error} \<and> (\<forall>i e. Fail i e \<notin> set (ur_workers r))"

lemma prompt_step:
  assumes "upload_step parts r r'" "upload_inv parts u r" "up_session u = ses" "sink_inv r" "untroubled r"
    and "\<forall>p \<in> set parts. \<exists>policy. part_guard u (ps_buffer p) = Inr policy"
  shows "untroubled r'"
proof -
  have impl: "up_session (ur_impl r) = ses" "\<exists>policy. part_guard (ur_impl r) (ps_buffer p) = Inr policy" if "p \<in> set parts" for p
    using assms(2,3,6) that by (auto simp: upload_inv_def part_guard_def Let_def split: if_splits)
  show ?thesis
    using assms(1)
  proof (cases rule: upload_step.cases)
    case (send_fails j i policy e c)
    note i = about_to_send [OF assms(2) send_fails(2,3)]
    show ?thesis using prompt [OF assms(4) [unfolded sink_inv_def] i, of policy] impl(1) [OF nth_mem [OF i(1)]] send_fails(4) by auto
  next
    case (guard_fails j i e)
    have "i < length parts" using held_distinct(1) [OF assms(2) guard_fails(2)] guard_fails(3) by auto
    then show ?thesis using impl(2) [OF nth_mem] guard_fails(4) by fastforce
  next
    case (failed j i e)
    then show ?thesis using assms(5) nth_mem [OF failed(2)] by (auto simp: untroubled_def)
  qed (use assms(5) in \<open>auto simp: untroubled_def RecordError_def RecordSuccess_def HasError_def
      dest!: set_update_subset_insert [THEN subsetD]\<close>)
qed

lemma prompt_run:
  assumes "(upload_step parts)\<^sup>*\<^sup>* r r'" "upload_inv parts u r" "up_session u = ses" "sink_inv r" "untroubled r"
    and "\<forall>p \<in> set parts. \<exists>policy. part_guard u (ps_buffer p) = Inr policy"
  shows "untroubled r'"
  using assms(1)
proof (induction rule: rtranclp_induct)
  case (step y z)
  show ?case
    by (rule prompt_step [OF step(2) inv_run [OF step(1) assms(2)] assms(3) sink_run [OF step(1) assms(2-4)] step(3) assms(6)])
qed (rule assms(5))

lemma only_device_fails:
  assumes "UploadParts parts n u c (Inl e) u' c'" "up_session u = ses" "delivered {} c"
    and "\<forall>p \<in> set parts. \<exists>policy. part_guard u (ps_buffer p) = Inr policy"
  shows "e = cuda_error"
proof -
  obtain r where r: "parts \<noteq> []" "(upload_step parts)\<^sup>*\<^sup>* (UploadRun_init parts n c u) r" "ur_first_error r = Some e"
    using assms(1) by (auto elim!: UploadParts.cases simp: finish_upload_parts_def split: option.splits prod.splits)
  have "untroubled (UploadRun_init parts n c u)" by (simp add: untroubled_def UploadRun_init_def)
  from prompt_run [OF r(2) inv_init [OF r(1)] assms(2) sink_init [OF assms(3)] this assms(4)] r(3) show ?thesis by (simp add: untroubled_def)
qed

end

text \<open>A successful \<^verbatim>\<open>UploadParts\<close> uploaded every part exactly once. Whatever the concurrency and the interleaving of the
  workers, the result lists one outcome per requested part, in request order, and the handle has gained exactly one
  reference per part, carrying its number and the etag of its outcome, which is what \<^verbatim>\<open>Complete\<close> sends to the gateway.\<close>

theorem upload_parts_every_part_once:
  assumes "UploadParts parts concurrency u c (Inr outs) u' c'"
  shows "length outs = length parts \<and> up_finished u' = up_finished u \<and> up_session u' = up_session u \<and>
    mset (up_parts u') = mset (up_parts u) + mset (map (\<lambda>i. (ps_part_number (parts ! i), to_etag (outs ! i))) [0..<length parts])"
proof -
  consider "parts = []" "outs = []" "u' = u"
    | r where "parts \<noteq> []" "(upload_step parts)\<^sup>*\<^sup>* (UploadRun_init parts concurrency c u) r" "joined r"
      "finish_upload_parts r = (Inr outs, u', c')"
    using assms by (auto elim: UploadParts.cases)
  then show ?thesis
  proof cases
    case 2
    have err: "\<not> HasError r" "ur_outcomes r = outs" "ur_impl r = u'"
      using 2(4) by (auto simp: finish_upload_parts_def HasError_def split: option.splits prod.splits)
    have inv: "upload_inv parts u r" by (rule inv_run [OF 2(2) inv_init [OF 2(1)]])
    have "\<forall>pc \<in> set (ur_workers r). in_store parts pc = []" using 2(3) by (auto simp: joined_def)
    then have none: "concat (map (in_store parts) (ur_workers r)) = []" by simp
    have "mset (up_parts u') = mset (up_parts u) + image_mset (part_ref parts outs) (mset (ur_stored r)) +
        mset (concat (map (in_store parts) (ur_workers r)))"
      using inv err(2,3) unfolding upload_inv_def by (metis mset_map)
    then have "mset (up_parts u') = mset (up_parts u) + image_mset (part_ref parts outs) (mset [0..<length parts])"
      unfolding none all_stored(1) [OF inv 2(3) err(1)] by simp
    then show ?thesis using inv err(2,3) by (auto simp: upload_inv_def)
  qed simp
qed

text \<open>After a failure the upload is over: the handle is finished, the link session was told to abort, and neither further
  parts nor \<^verbatim>\<open>Complete\<close> reach the gateway.\<close>

lemma finished_handle:
  "up_finished u \<Longrightarrow> part_guard u b \<noteq> Inr policy"
  "up_finished u \<Longrightarrow> run_state (MultipartUpload_Complete u) c = ((Inl (MakeInvalidArgument ''multipart upload already finalized''), u), c)"
  "up_finished u \<Longrightarrow> run_state (MultipartUpload_Abort u) c = ((Inr True, u), c)"
  "up_finished u \<Longrightarrow> run_state (MultipartUpload_destruct (Some u)) c = ((), c)"
  by (auto simp: part_guard_def Let_def MultipartUpload_Complete_def SnapshotPartsForComplete_def MultipartUpload_Abort_def
      IsUploadFinished_def MultipartUpload_destruct_def ShouldBestEffortAbortOnDestruct_def)

lemma Abort_finishes:
  "run_state (MultipartUpload_Abort u) c = ((r, u'), c') \<Longrightarrow> up_finished u'"
  "run_state (MultipartUpload_Complete u) c = ((q, u'), c') \<Longrightarrow> up_finished u'"
  by (auto simp: MultipartUpload_Abort_def IsUploadFinished_def MultipartUpload_Complete_def SnapshotPartsForComplete_def
      MarkUploadFinished_def split: if_splits sum.splits prod.splits)

text \<open>A failed \<^verbatim>\<open>UploadParts\<close> closes the upload. When some part fails, the handle is finished afterwards, so every later
  \<^verbatim>\<open>UploadPart\<close> and \<^verbatim>\<open>Complete\<close> is refused locally, and a later \<^verbatim>\<open>Abort\<close> or destruction sends nothing more.\<close>

theorem upload_parts_failure_closes:
  assumes "UploadParts parts concurrency u c (Inl e) u' c'"
  shows "up_finished u' \<and> (\<forall>n off b d. \<exists>err. run_state (MultipartUpload_UploadPart n off b u') d = ((Inl err, u'), d)) \<and>
    (\<forall>d. \<exists>err. run_state (MultipartUpload_Complete u') d = ((Inl err, u'), d)) \<and>
    (\<forall>d. run_state (MultipartUpload_Abort u') d = ((Inr True, u'), d) \<and> run_state (MultipartUpload_destruct (Some u')) d = ((), d))"
proof -
  from assms obtain r where "finish_upload_parts r = (Inl e, u', c')" by (auto elim: UploadParts.cases)
  then have fin: "up_finished u'"
    using Abort_finishes(1) by (fastforce simp: finish_upload_parts_def Let_def split: option.splits prod.splits)
  have "\<exists>err. part_guard u' b = Inl err" for b using finished_handle(1) [OF fin, of b] by (cases "part_guard u' b") auto
  then have "\<exists>err. run_state (MultipartUpload_UploadPart n off b u') d = ((Inl err, u'), d)" for n off b d
    by (metis (no_types, lifting) MultipartUpload_UploadPart_def run_state_return sum.case(1))
  then show ?thesis using fin finished_handle(2-4) [OF fin] by blast
qed

section \<open>A schedule\<close>

text \<open>One step of a given worker, with a CUDA device at hand; running it repeatedly is one of the schedules.\<close>

fun worker_step :: "PartSpec list \<Rightarrow> nat \<Rightarrow> 'w UploadRun \<Rightarrow> 'w UploadRun" where
  "worker_step parts j r =
     (case ur_workers r ! j of
        Begin \<Rightarrow> goto j Fetch r
      | Fetch \<Rightarrow> goto j (if ur_next_index r \<ge> length parts then Returned else Check (ur_next_index r))
          (r\<lparr>ur_next_index := ur_next_index r + 1\<rparr>)
      | Check i \<Rightarrow> if HasError r then goto j Returned (r\<lparr>ur_dropped := i # ur_dropped r\<rparr>) else goto j (Guard i) r
      | Guard i \<Rightarrow> (case part_guard (ur_impl r) (ps_buffer (parts ! i)) of
          Inr policy \<Rightarrow> goto j (Send i policy) r | Inl e \<Rightarrow> goto j (Fail i e) r)
      | Send i policy \<Rightarrow>
          (case run_state (ms_UploadPart (up_session (ur_impl r)) (ps_part_number (parts ! i)) (ps_object_offset (parts ! i)) policy
              (ps_buffer (parts ! i))) (ur_client r) of
             (Inr v, c) \<Rightarrow> goto j (Record i v) (r\<lparr>ur_client := c\<rparr>)
           | (Inl e, c) \<Rightarrow> goto j (Fail i e) (r\<lparr>ur_client := c\<rparr>))
      | Record i v \<Rightarrow> goto j (Store i v)
          (r\<lparr>ur_impl := RecordUploadedPart (ps_part_number (parts ! i)) (to_etag v) (bv_size (ps_buffer (parts ! i))) (ur_impl r)\<rparr>)
      | Store i v \<Rightarrow> goto j Fetch ((RecordSuccess i v r)\<lparr>ur_stored := i # ur_stored r\<rparr>)
      | Fail i e \<Rightarrow> goto j Fetch ((RecordError e r)\<lparr>ur_dropped := i # ur_dropped r\<rparr>)
      | Returned \<Rightarrow> r)"

lemma worker_step_is_step:
  assumes "j < length (ur_workers r)" "ur_workers r ! j \<noteq> Returned"
  shows "upload_step parts r (worker_step parts j r)"
proof (cases "ur_workers r ! j")
  case Fetch
  then show ?thesis using upload_step.fetch [OF assms(1) Fetch] by simp
qed (use assms in \<open>auto intro: upload_step.intros split: sum.split prod.split\<close>)

lemma length_worker_step: "length (ur_workers (worker_step parts j r)) = length (ur_workers r)"
  by (cases "ur_workers r ! j") (simp_all split: sum.split prod.split)

declare worker_step.simps [simp del]

fun run_worker :: "PartSpec list \<Rightarrow> nat \<Rightarrow> 'w UploadRun \<Rightarrow> 'w UploadRun" where
  "run_worker parts 0 r = r"
| "run_worker parts (Suc n) r = (if ur_workers r ! 0 = Returned then r else run_worker parts n (worker_step parts 0 r))"

lemma run_worker_steps: "0 < length (ur_workers r) \<Longrightarrow> (upload_step parts)\<^sup>*\<^sup>* r (run_worker parts n r)"
proof (induction parts n r rule: run_worker.induct)
  case (2 parts n r)
  then show ?case
    using worker_step_is_step [of 0 r parts]
    by (auto simp: length_worker_step intro: converse_rtranclp_into_rtranclp)
qed simp

lemma UploadParts_schedule:
  assumes "parts \<noteq> []" "joined (run_worker parts n (UploadRun_init parts concurrency c u))"
    and "finish_upload_parts (run_worker parts n (UploadRun_init parts concurrency c u)) = (res, u', c')"
  shows "UploadParts parts concurrency u c res u' c'"
proof (rule UploadParts.ran [OF assms(1) run_worker_steps assms(2,3)])
  show "0 < length (ur_workers (UploadRun_init parts concurrency c u))"
    using assms(1) by (simp add: UploadRun_init_def NormalizeUploadPartsConcurrency_def)
qed

text \<open>A single worker is joined once its measure is used up, and with a prompt sink its run ends without an error.\<close>

lemma run_worker_joins: "length (ur_workers r) = 1 \<Longrightarrow> run_measure parts r \<le> n \<Longrightarrow> joined (run_worker parts n r)"
proof (induction n arbitrary: r)
  case 0
  then obtain pc where "ur_workers r = [pc]" by (cases "ur_workers r") auto
  with 0 show ?case by (cases pc) (simp_all add: run_measure_def joined_def)
next
  case (Suc n)
  show ?case
  proof (cases "ur_workers r ! 0 = Returned")
    case True
    then show ?thesis using Suc.prems(1) by (cases "ur_workers r") (auto simp: joined_def)
  next
    case False
    then have "run_measure parts (worker_step parts 0 r) < run_measure parts r"
      using step_decreases [OF worker_step_is_step [of 0 r parts]] Suc.prems(1) by simp
    then show ?thesis using Suc.IH [of "worker_step parts 0 r"] Suc.prems False by (simp add: length_worker_step)
  qed
qed

context prompt_sink
begin

lemma worker_quiet:
  assumes "0 < length (ur_workers r)" "untroubled r"
  shows "ur_first_error (worker_step parts 0 r) = ur_first_error r"
proof -
  have "Fail i e \<noteq> ur_workers r ! 0" for i e using assms nth_mem [OF assms(1)] by (metis untroubled_def)
  then show ?thesis
    by (cases "ur_workers r ! 0") (auto simp: worker_step.simps RecordSuccess_def split: sum.split prod.split)
qed

lemma run_worker_quiet:
  assumes "0 < length (ur_workers r)" "upload_inv parts u r" "up_session u = ses" "sink_inv r" "untroubled r"
    and "\<forall>p \<in> set parts. \<exists>policy. part_guard u (ps_buffer p) = Inr policy"
  shows "ur_first_error (run_worker parts n r) = ur_first_error r"
  using assms(1,2,4,5)
proof (induction n arbitrary: r)
  case (Suc n)
  show ?case
  proof (cases "ur_workers r ! 0 = Returned")
    case False
    note step = worker_step_is_step [OF Suc.prems(1) False, of parts]
    have "ur_first_error (run_worker parts n (worker_step parts 0 r)) = ur_first_error (worker_step parts 0 r)"
      using Suc.prems step inv_step [OF step] sink_step [OF step _ assms(3)] prompt_step [OF step _ assms(3) _ _ assms(6)]
      by (intro Suc.IH) (simp_all add: length_worker_step)
    then show ?thesis using False worker_quiet [OF Suc.prems(1,4)] by simp
  qed simp
qed simp

lemma schedule_succeeds:
  assumes "parts \<noteq> []" "up_session u = ses" "delivered {} c" "\<forall>p \<in> set parts. \<exists>policy. part_guard u (ps_buffer p) = Inr policy"
  shows "\<exists>outs u' c'. UploadParts parts 1 u c (Inr outs) u' c'"
proof -
  let ?r = "UploadRun_init parts 1 c u"
  let ?e = "run_worker parts (run_measure parts ?r) ?r"
  have one: "length (ur_workers ?r) = 1" using assms(1) by (cases parts) (simp_all add: UploadRun_init_def NormalizeUploadPartsConcurrency_def)
  have "untroubled ?r" by (simp add: untroubled_def UploadRun_init_def)
  then have "ur_first_error ?e = ur_first_error ?r"
    using one inv_init [OF assms(1)] sink_init [OF assms(3)] by (intro run_worker_quiet [OF _ _ assms(2) _ _ assms(4)]) simp_all
  then have "finish_upload_parts ?e = (Inr (ur_outcomes ?e), ur_impl ?e, ur_client ?e)"
    by (simp add: finish_upload_parts_def UploadRun_init_def)
  from UploadParts_schedule [OF assms(1) run_worker_joins [OF one order_refl] this] show ?thesis by blast
qed

end

section \<open>Examples\<close>

text \<open>A session that accepts the parts of at most four bytes that start with an even address.\<close>

definition example_session :: "unit IMultipartSession" where
  "example_session =
     \<lparr>ms_upload_id = ''u1'', ms_max_part_size = 4,
      ms_UploadPart = (\<lambda>n off policy b. ret
        (if bv_data b mod 2 = 0 then Inr (TransferOutcome_default\<lparr>to_etag := replicate n (CHR ''e''), to_bytes_transferred := bv_size b\<rparr>)
         else Inl (MakeInvalidArgument ''odd''))),
      ms_Complete = (\<lambda>ps. ret (Inr \<lparr>cr_etag = concat (map snd ps), cr_version = ''1'', cr_content_length = 0\<rparr>)),
      ms_Abort = ret (Inr True)\<rparr>"

definition example_client :: "unit ClientState" where
  "example_client =
     \<lparr>cw = (), channels = \<lparr>ch_endpoint = ''gw'', ch_baidu = None, ch_gds_data = None, ch_last_init_error = None\<rparr>,
      metadata_stub = None, gds_stub = None, rdma_stub = None, cuobj_library = None, cuobj_holder = None,
      registered = Map.empty, idle = (\<lambda>_. []), progress_log = []\<rparr>"

definition example_part :: "nat \<Rightarrow> nat \<Rightarrow> PartSpec" where
  "example_part n ptr = \<lparr>ps_part_number = n, ps_object_offset = 0, ps_buffer = \<lparr>bv_data = ptr, bv_size = 3, bv_type = kCudaDevice\<rparr>\<rparr>"

lemma run_worker_numeral:
  "run_worker parts (numeral k) r =
     (if ur_workers r ! 0 = Returned then r else run_worker parts (pred_numeral k) (worker_step parts 0 r))"
  by (simp add: numeral_eq_Suc)

lemmas upload_evals = run_worker_numeral UploadRun_init_def NormalizeUploadPartsConcurrency_def worker_step.simps goto_def part_guard_def Let_def
  UploadImpl_init_def example_session_def example_part_def example_client_def RecordUploadedPart_def RecordSuccess_def HasError_def
  joined_def

theorem upload_parts_every_part_once_witness:
  "\<exists>outs u' c'. UploadParts [example_part 2 8, example_part 1 4] 1 (UploadImpl_init example_session GPUDirect) example_client (Inr outs) u' c' \<and>
     length outs = 2 \<and> mset (up_parts u') = {#(2, to_etag (outs ! 0)), (1, to_etag (outs ! 1))#}"
proof -
  let ?ps = "[example_part 2 8, example_part 1 4]" and ?u = "UploadImpl_init example_session GPUDirect"
  define r where "r = run_worker ?ps 14 (UploadRun_init ?ps 1 example_client ?u)"
  have "joined r" "ur_first_error r = None" unfolding r_def by (simp_all add: upload_evals)
  then have fin: "joined r" "finish_upload_parts r = (Inr (ur_outcomes r), ur_impl r, ur_client r)"
    by (simp_all add: finish_upload_parts_def)
  have run: "UploadParts ?ps 1 ?u example_client (Inr (ur_outcomes r)) (ur_impl r) (ur_client r)"
    by (rule UploadParts_schedule [OF _ fin [unfolded r_def], folded r_def]) simp
  have "up_parts ?u = []" by (simp add: UploadImpl_init_def)
  with upload_parts_every_part_once [OF run] have "length (ur_outcomes r) = 2"
    "mset (up_parts (ur_impl r)) = {#(2, to_etag (ur_outcomes r ! 0)), (1, to_etag (ur_outcomes r ! 1))#}"
    by (simp_all add: example_part_def upt_rec add_mset_commute)
  then show ?thesis using run by blast
qed

theorem upload_parts_failure_closes_witness:
  "\<exists>e u' c'. UploadParts [example_part 1 3, example_part 2 4] 1 (UploadImpl_init example_session GPUDirect) example_client (Inl e) u' c' \<and>
     up_finished u'"
proof -
  let ?ps = "[example_part 1 3, example_part 2 4]" and ?u = "UploadImpl_init example_session GPUDirect"
  define r where "r = run_worker ?ps 14 (UploadRun_init ?ps 1 example_client ?u)"
  have fin: "joined r" "ur_first_error r = Some (MakeInvalidArgument ''odd'')" unfolding r_def by code_simp+
  obtain u' c' where f: "finish_upload_parts r = (Inl (MakeInvalidArgument ''odd''), u', c')"
    using fin(2) by (simp add: finish_upload_parts_def split_beta)
  have run: "UploadParts ?ps 1 ?u example_client (Inl (MakeInvalidArgument ''odd'')) u' c'"
    by (rule UploadParts_schedule [OF _ fin(1) [unfolded r_def] f [unfolded r_def]]) simp
  from upload_parts_failure_closes [OF run] run show ?thesis by blast
qed

end
