(* ===== verification/Client_Core.thy ===== *)
theory Client_Core
  imports Client_Multipart
begin

text \<open>
  The top of the client: the task executor (\<^verbatim>\<open>core/async/client_executor.cpp\<close>) as a step relation over its atomic
  operations, the capability probe and assembly (\<^verbatim>\<open>core/client/capability_probe.cpp\<close>, \<^verbatim>\<open>core/client/client_core.cpp\<close>),
  the router (\<^verbatim>\<open>core/routing/transfer_router.cpp\<close>) and the public operations (\<^verbatim>\<open>core/client/client.cpp\<close>). Metrics are not
  modelled. An asynchronous operation is the value its future will hold.
\<close>

section \<open>The executor\<close>

record ClientExecutor =
  ex_stop :: bool
  ex_inflight :: int
  ex_unclean :: int

definition ClientExecutor_init :: "nat \<Rightarrow> ClientExecutor" where
  "ClientExecutor_init worker_threads = \<lparr>ex_stop = False, ex_inflight = 0, ex_unclean = 0\<rparr>"

text \<open>Where a call of \<^verbatim>\<open>Submit\<close> with its task stands, and where the call of \<^verbatim>\<open>Shutdown\<close> stands. A task runs on a new
  bthread or, when that cannot be started, on the submitting thread.\<close>

datatype submission = Calling | Passed | Counted | Running | Ran | Finished | Thrown
datatype shutdown = Away | Stopping | Waiting | Answered bool

record ExecRun =
  er_ex :: ClientExecutor
  er_tasks :: "submission list"
  er_shutdown :: shutdown

definition task_at :: "nat \<Rightarrow> submission \<Rightarrow> ExecRun \<Rightarrow> bool" where
  "task_at j pc r \<longleftrightarrow> j < length (er_tasks r) \<and> er_tasks r ! j = pc"

definition task_to :: "nat \<Rightarrow> submission \<Rightarrow> ExecRun \<Rightarrow> ExecRun" where
  "task_to j pc r = r\<lparr>er_tasks := (er_tasks r)[j := pc]\<rparr>"

definition add_inflight :: "int \<Rightarrow> ExecRun \<Rightarrow> ExecRun" where
  "add_inflight d r = r\<lparr>er_ex := (er_ex r)\<lparr>ex_inflight := ex_inflight (er_ex r) + d\<rparr>\<rparr>"

inductive Submit_step :: "ExecRun \<Rightarrow> ExecRun \<Rightarrow> bool" where
  call: "Submit_step r (r\<lparr>er_tasks := er_tasks r @ [Calling]\<rparr>)"
| stopped: "task_at j Calling r \<Longrightarrow> ex_stop (er_ex r) \<Longrightarrow> Submit_step r (task_to j Thrown r)"
| passed: "task_at j Calling r \<Longrightarrow> \<not> ex_stop (er_ex r) \<Longrightarrow> Submit_step r (task_to j Passed r)"
| counted: "task_at j Passed r \<Longrightarrow> Submit_step r (task_to j Counted (add_inflight 1 r))"
| started: "task_at j Counted r \<Longrightarrow> Submit_step r (task_to j Running r)"
| ran: "task_at j Running r \<Longrightarrow> Submit_step r (task_to j Ran r)"
| finished: "task_at j Ran r \<Longrightarrow> Submit_step r (task_to j Finished (add_inflight (- 1) r))"

inductive Shutdown_step :: "ExecRun \<Rightarrow> ExecRun \<Rightarrow> bool" where
  enter: "er_shutdown r = Away \<Longrightarrow> Shutdown_step r (r\<lparr>er_shutdown := Stopping\<rparr>)"
| stop: "er_shutdown r = Stopping \<Longrightarrow>
    Shutdown_step r (r\<lparr>er_ex := (er_ex r)\<lparr>ex_stop := True\<rparr>, er_shutdown := Waiting\<rparr>)"
| wait: "er_shutdown r = Waiting \<Longrightarrow> 0 < ex_inflight (er_ex r) \<Longrightarrow> Shutdown_step r r"
| drained: "er_shutdown r = Waiting \<Longrightarrow> \<not> 0 < ex_inflight (er_ex r) \<Longrightarrow> Shutdown_step r (r\<lparr>er_shutdown := Answered True\<rparr>)"
| grace_over: "er_shutdown r = Waiting \<Longrightarrow> 0 < ex_inflight (er_ex r) \<Longrightarrow>
    Shutdown_step r (r\<lparr>er_ex := (er_ex r)\<lparr>ex_unclean := ex_unclean (er_ex r) + 1\<rparr>, er_shutdown := Answered False\<rparr>)"

inductive exec_reach :: "ExecRun \<Rightarrow> bool" where
  init: "exec_reach \<lparr>er_ex = ClientExecutor_init n, er_tasks = [], er_shutdown = Away\<rparr>"
| submit: "exec_reach r \<Longrightarrow> Submit_step r r' \<Longrightarrow> exec_reach r'"
| shut: "exec_reach r \<Longrightarrow> Shutdown_step r r' \<Longrightarrow> exec_reach r'"

text \<open>The counter counts the tasks between its two updates.\<close>

definition counted_now :: "submission \<Rightarrow> bool" where
  "counted_now pc \<longleftrightarrow> pc \<in> {Counted, Running, Ran}"

lemma filter_update:
  "j < length xs \<Longrightarrow> int (length (filter P (xs[j := x]))) =
     int (length (filter P xs)) + (if P x then 1 else 0) - (if P (xs ! j) then 1 else 0)"
proof (induction xs arbitrary: j)
  case (Cons y ys)
  show ?case
  proof (cases j)
    case (Suc i)
    then have "int (length (filter P (ys[i := x]))) =
        int (length (filter P ys)) + (if P x then 1 else 0) - (if P (ys ! i) then 1 else 0)" using Cons by simp
    then show ?thesis using Suc by (simp split: if_splits)
  qed simp
qed simp

lemma inflight_counts: "exec_reach r \<Longrightarrow> ex_inflight (er_ex r) = int (length (filter counted_now (er_tasks r)))"
proof (induction rule: exec_reach.induct)
  case (init n)
  then show ?case by (simp add: ClientExecutor_init_def)
next
  case (submit r r')
  show ?case using submit(2,3)
    by (cases rule: Submit_step.cases)
      (simp_all add: task_at_def task_to_def add_inflight_def filter_update, simp_all add: counted_now_def)
next
  case (shut r r')
  show ?case using shut(2,3) by (cases rule: Shutdown_step.cases) simp_all
qed

text \<open>A clean \<^verbatim>\<open>Shutdown\<close> of the executor left no counted task behind. In every interleaving of submissions, tasks and the
  shutdown, the in-flight counter equals the number of submitted tasks that have been counted and not finished; so at the step where
  \<^verbatim>\<open>Shutdown\<close> answers true every task whose submission was counted has finished, and it answers false only
  with such a task alive, which it records as an unclean shutdown. Once the stop flag is set no new submission passes the check.\<close>

theorem executor_shutdown_drains:
  assumes "exec_reach r" "Shutdown_step r r'"
  shows "ex_inflight (er_ex r) = int (length (filter counted_now (er_tasks r))) \<and>
    (er_shutdown r \<noteq> Answered True \<and> er_shutdown r' = Answered True \<longrightarrow> (\<forall>pc \<in> set (er_tasks r'). \<not> counted_now pc)) \<and>
    (er_shutdown r \<noteq> Answered False \<and> er_shutdown r' = Answered False \<longrightarrow>
      (\<exists>pc \<in> set (er_tasks r'). counted_now pc) \<and> ex_unclean (er_ex r') = ex_unclean (er_ex r) + 1) \<and>
    (\<forall>j r2. ex_stop (er_ex r') \<and> Submit_step r' r2 \<and> task_at j Calling r' \<longrightarrow> \<not> task_at j Passed r2)"
proof -
  have n: "ex_inflight (er_ex r) = int (length (filter counted_now (er_tasks r)))" by (rule inflight_counts [OF assms(1)])
  have pos: "0 < ex_inflight (er_ex r) \<longleftrightarrow> (\<exists>pc \<in> set (er_tasks r). counted_now pc)"
    unfolding n by (auto simp: filter_empty_conv)
  have calls: "\<not> task_at j Passed r2" if "ex_stop (er_ex r')" "Submit_step r' r2" "task_at j Calling r'" for j r2
    using that(2,1,3)
    by (cases rule: Submit_step.cases) (auto simp: task_at_def task_to_def add_inflight_def nth_append nth_list_update split: if_splits)
  show ?thesis using assms(2)
    by (cases rule: Shutdown_step.cases) (use n pos calls in \<open>auto simp: task_at_def\<close>)
qed

text \<open>The check of \<^verbatim>\<open>Submit\<close> and its count are two steps, so a submission that passed the check before the stop flag was set
  can be counted, and its task run, after \<^verbatim>\<open>Shutdown\<close> has answered that everything is drained.\<close>

theorem submit_after_clean_shutdown:
  "\<exists>r. exec_reach r \<and> er_shutdown r = Answered True \<and> task_at 0 Running r"
proof -
  let ?r0 = "\<lparr>er_ex = ClientExecutor_init 1, er_tasks = [], er_shutdown = Away\<rparr>"
  let ?ex = "\<lparr>ex_stop = True, ex_inflight = 0, ex_unclean = 0\<rparr>"
  let ?r1 = "\<lparr>er_ex = ClientExecutor_init 1, er_tasks = [Calling], er_shutdown = Away\<rparr>"
  let ?r2 = "\<lparr>er_ex = ClientExecutor_init 1, er_tasks = [Passed], er_shutdown = Away\<rparr>"
  let ?r3 = "\<lparr>er_ex = ClientExecutor_init 1, er_tasks = [Passed], er_shutdown = Stopping\<rparr>"
  let ?r4 = "\<lparr>er_ex = ?ex, er_tasks = [Passed], er_shutdown = Waiting\<rparr>"
  let ?r5 = "\<lparr>er_ex = ?ex, er_tasks = [Passed], er_shutdown = Answered True\<rparr>"
  let ?r6 = "\<lparr>er_ex = ?ex\<lparr>ex_inflight := 1\<rparr>, er_tasks = [Counted], er_shutdown = Answered True\<rparr>"
  let ?r7 = "\<lparr>er_ex = ?ex\<lparr>ex_inflight := 1\<rparr>, er_tasks = [Running], er_shutdown = Answered True\<rparr>"
  have 1: "exec_reach ?r1" using exec_reach.submit [OF exec_reach.init Submit_step.call] by simp
  have 2: "exec_reach ?r2" using exec_reach.submit [OF 1 Submit_step.passed [of 0]] by (simp add: task_at_def task_to_def ClientExecutor_init_def)
  have 3: "exec_reach ?r3" using exec_reach.shut [OF 2 Shutdown_step.enter] by simp
  have 4: "exec_reach ?r4" using exec_reach.shut [OF 3 Shutdown_step.stop] by (simp add: ClientExecutor_init_def)
  have 5: "exec_reach ?r5" using exec_reach.shut [OF 4 Shutdown_step.drained] by simp
  have 6: "exec_reach ?r6" using exec_reach.submit [OF 5 Submit_step.counted [of 0]] by (simp add: task_at_def task_to_def add_inflight_def)
  have "exec_reach ?r7" using exec_reach.submit [OF 6 Submit_step.started [of 0]] by (simp add: task_at_def task_to_def)
  then show ?thesis by (intro exI [of _ ?r7]) (simp add: task_at_def)
qed

theorem executor_shutdown_drains_witness:
  "\<exists>r r'. exec_reach r \<and> Shutdown_step r r' \<and> er_shutdown r' = Answered True \<and> (\<forall>pc \<in> set (er_tasks r'). \<not> counted_now pc)"
proof -
  let ?fresh = "\<lparr>er_ex = ClientExecutor_init 1, er_tasks = [], er_shutdown = Away\<rparr>"
  let ?r = "\<lparr>er_ex = \<lparr>ex_stop = True, ex_inflight = 0, ex_unclean = 0\<rparr>, er_tasks = [], er_shutdown = Waiting\<rparr>"
  have 1: "exec_reach (?fresh\<lparr>er_shutdown := Stopping\<rparr>)" by (rule exec_reach.shut [OF exec_reach.init Shutdown_step.enter]) simp
  have 2: "exec_reach ?r" using exec_reach.shut [OF 1 Shutdown_step.stop] by (simp add: ClientExecutor_init_def)
  have s: "Shutdown_step ?r (?r\<lparr>er_shutdown := Answered True\<rparr>)" by (rule Shutdown_step.drained) simp_all
  from executor_shutdown_drains [OF 2 s] 2 s show ?thesis by fastforce
qed

section \<open>Assembly\<close>

definition LibraryAvailable :: "'w Platform \<Rightarrow> string \<Rightarrow> ('w, bool) client" where
  "LibraryAvailable P name = do {
     handle \<leftarrow> ext (p_dlopen P name);
     (case handle of None \<Rightarrow> ret False | Some h \<Rightarrow> do { _ \<leftarrow> ext (p_dlclose P h); ret True }) }"

text \<open>\<^verbatim>\<open>gpu_node\<close>: whether the device file exists.\<close>

definition DetectPlatformCapabilities :: "'w Platform \<Rightarrow> bool \<Rightarrow> ClientOptions \<Rightarrow> ('w, PlatformCapabilities) client" where
  "DetectPlatformCapabilities P gpu_node opts = do {
     cuda \<leftarrow> LibraryAvailable P ''libcuda.so.1'';
     cuda \<leftarrow> (if cuda then ret True else LibraryAvailable P ''libcudart.so'');
     cuobj \<leftarrow> (if o_data_flow opts = GPUDirect \<and> cuda then LibraryAvailable P ''libcufile.so'' else ret False);
     ret \<lparr>cuda_runtime_available = cuda, gpu_available = gpu_node, cuobject_available = cuobj\<rparr> }"

record ClientCore =
  cc_options :: ClientOptions
  cc_caps :: PlatformCapabilities
  cc_ucx_created :: bool
  cc_rdma_available :: bool
  cc_executor :: "ClientExecutor option"
  cc_coordinator :: bool
  cc_initialized :: bool

text \<open>\<^verbatim>\<open>ucx_created\<close>: whether the UCX context and worker could be created in the constructor of the RDMA path.\<close>

definition ClientCore_construct :: "'w Platform \<Rightarrow> bool \<Rightarrow> bool \<Rightarrow> ClientOptions \<Rightarrow> ('w, ClientCore) client" where
  "ClientCore_construct P gpu_node ucx_created opts = do {
     caps \<leftarrow> DetectPlatformCapabilities P gpu_node opts;
     _ \<leftarrow> ChannelRegistry_construct P opts;
     ret \<lparr>cc_options = opts, cc_caps = caps, cc_ucx_created = ucx_created, cc_rdma_available = False, cc_executor = None,
          cc_coordinator = False, cc_initialized = False\<rparr> }"

definition fail_core :: "bool cresult \<Rightarrow> ClientCore \<Rightarrow> (ClientCore \<Rightarrow> ('w, bool cresult \<times> ClientCore) client)
    \<Rightarrow> ('w, bool cresult \<times> ClientCore) client" where
  "fail_core r core k = (case r of Inl e \<Rightarrow> ret (Inl e, core) | Inr _ \<Rightarrow> k core)"

definition ClientCore_Initialize :: "'w Platform \<Rightarrow> nat \<Rightarrow> ClientCore \<Rightarrow> ('w, bool cresult \<times> ClientCore) client" where
  "ClientCore_Initialize P hardware_concurrency core =
     (if cc_initialized core then ret (Inr True, core)
      else if o_endpoint (cc_options core) = [] then ret (Inl (MakeInvalidArgument ''endpoint must not be empty''), core)
      else do {
        c \<leftarrow> gets channels;
        ch \<leftarrow> (if ChannelRegistry_ready c then ret (Inr True) else ChannelRegistry_Initialize P (cc_options core));
        fail_core ch core (\<lambda>core. do {
          md \<leftarrow> MetadataClient_Initialize;
          fail_core md core (\<lambda>core. do {
            gds \<leftarrow> GdsDataClient_Initialize;
            fail_core gds core (\<lambda>core. do {
              rdma \<leftarrow> RdmaDataPlaneClient_Initialize;
              fail_core rdma core (\<lambda>core.
                let workers = (if o_async_worker_threads (cc_options core) = 0 then max 1 (hardware_concurrency div 2)
                               else o_async_worker_threads (cc_options core)) in
                ret (Inr True, core\<lparr>cc_rdma_available := True, cc_executor := Some (ClientExecutor_init workers),
                       cc_coordinator := True, cc_initialized := True\<rparr>)) }) }) }) })"

text \<open>The wait for running tasks is the subject of the executor; the members are reset afterwards in any case.\<close>

definition ClientCore_Shutdown :: "ClientCore \<Rightarrow> ('w, ClientCore) client" where
  "ClientCore_Shutdown core = do {
     _ \<leftarrow> MetadataClient_Shutdown;
     _ \<leftarrow> GdsDataClient_Shutdown;
     _ \<leftarrow> RdmaDataPlaneClient_Shutdown;
     ret (core\<lparr>cc_executor := None, cc_coordinator := False, cc_rdma_available := False, cc_initialized := False\<rparr>) }"

section \<open>Routing\<close>

definition MakeNoAvailableTransportError :: "DataFlow \<Rightarrow> ClientError" where
  "MakeNoAvailableTransportError path =
     MakeUnsupportedPath path (''The configured transfer channel is unavailable: '' @ ClientDataFlow_ToString path)"

definition core_rdma_available :: "ClientCore \<Rightarrow> bool" where
  "core_rdma_available core = RdmaTransferPath_available (cc_rdma_available core) (cc_ucx_created core)"

definition TransferRouter_GetObject ::
  "'w Platform \<Rightarrow> ClientCore \<Rightarrow> GetObjectRequest \<Rightarrow> BufferView \<Rightarrow> ('w, TransferOutcome cresult) client" where
  "TransferRouter_GetObject P core q b =
     (case o_data_flow (cc_options core) of
        GPUDirect \<Rightarrow> GdsTransferPath_GetObject P (cc_options core) (cc_caps core) (cc_executor core \<noteq> None) q b
      | CPUDirect \<Rightarrow> RdmaTransferPath_GetObject q b
      | NONE \<Rightarrow> ret (Inl (MakeNoAvailableTransportError NONE)))"

definition TransferRouter_PutObject ::
  "'w Platform \<Rightarrow> ClientCore \<Rightarrow> PutObjectRequest \<Rightarrow> BufferView \<Rightarrow> ('w, TransferOutcome cresult) client" where
  "TransferRouter_PutObject P core q b =
     (case o_data_flow (cc_options core) of
        GPUDirect \<Rightarrow>
          if \<not> GdsTransferPath_available (cc_caps core) then ret (Inl (MakeNoAvailableTransportError GPUDirect))
          else GdsTransferPath_PutObject P (cc_options core) (cc_caps core) q b
      | CPUDirect \<Rightarrow>
          if \<not> core_rdma_available core then ret (Inl (MakeNoAvailableTransportError CPUDirect))
          else RdmaTransferPath_PutObject P (cc_options core) (core_rdma_available core) q b
      | NONE \<Rightarrow> ret (Inl (MakeNoAvailableTransportError NONE)))"

section \<open>The public operations\<close>

definition when_initialized :: "ClientCore \<Rightarrow> ('w, 'a cresult) client \<Rightarrow> ('w, 'a cresult) client" where
  "when_initialized core m = (if \<not> cc_initialized core then ret (Inl (MakeNotInitialized ''Client'')) else m)"

definition Client_HeadObject :: "'w Platform \<Rightarrow> ClientCore \<Rightarrow> string \<Rightarrow> string \<Rightarrow> ('w, ClientObjectMetadata cresult) client" where
  "Client_HeadObject P core bucket key = when_initialized core (MetadataClient_HeadObject P (cc_options core) bucket key)"

definition Client_GetObject :: "'w Platform \<Rightarrow> ClientCore \<Rightarrow> GetObjectRequest \<Rightarrow> BufferView \<Rightarrow> ('w, TransferOutcome cresult) client" where
  "Client_GetObject P core q b = when_initialized core (TransferRouter_GetObject P core q b)"

definition Client_PutObject :: "'w Platform \<Rightarrow> ClientCore \<Rightarrow> PutObjectRequest \<Rightarrow> BufferView \<Rightarrow> ('w, TransferOutcome cresult) client" where
  "Client_PutObject P core q b = when_initialized core (TransferRouter_PutObject P core q b)"

definition Client_HeadObjectAsync :: "'w Platform \<Rightarrow> ClientCore \<Rightarrow> string \<Rightarrow> string \<Rightarrow> ('w, ClientObjectMetadata cresult) client" where
  "Client_HeadObjectAsync P core bucket key = when_initialized core (MetadataClient_HeadObject P (cc_options core) bucket key)"

definition Client_GetObjectAsync :: "'w Platform \<Rightarrow> ClientCore \<Rightarrow> GetObjectRequest \<Rightarrow> BufferView \<Rightarrow> ('w, TransferOutcome cresult) client" where
  "Client_GetObjectAsync P core q b = when_initialized core (TransferRouter_GetObject P core q b)"

definition Client_PutObjectAsync :: "'w Platform \<Rightarrow> ClientCore \<Rightarrow> PutObjectRequest \<Rightarrow> BufferView \<Rightarrow> ('w, TransferOutcome cresult) client" where
  "Client_PutObjectAsync P core q b = when_initialized core (TransferRouter_PutObject P core q b)"

text \<open>The handle is written through \<^verbatim>\<open>out\<close>, which must not be null.\<close>

definition Client_StartUpload ::
  "'w Platform \<Rightarrow> ClientCore \<Rightarrow> string \<Rightarrow> string \<Rightarrow> bool \<Rightarrow> nat \<Rightarrow> string \<Rightarrow> ('w, Status \<times> 'w UploadImpl option) client" where
  "Client_StartUpload P core bucket key out_null expected_total_size idempotency_key =
     (if out_null then ret (Status_FromError (MakeInvalidArgument ''StartUpload: out is null''), None)
      else if \<not> cc_initialized core then ret (Status_FromError (MakeNotInitialized ''Client''), None)
      else do {
        let flow = o_data_flow (cc_options core);
        let d = \<lparr>od_bucket = bucket, od_key = key, od_data_flow = flow, od_checksum_policy = ''none'', od_offset = None, od_length = None,
                od_expected_total_size = Some expected_total_size, od_idempotency_key = idempotency_key\<rparr>;
        r \<leftarrow> SelectFlow P (cc_options core) (cc_caps core) (core_rdma_available core) flow d;
        (case r of
           (st, ses) \<Rightarrow> if \<not> st_ok st then ret (st, None)
                      else ret (Status_Ok, map_option (\<lambda>ses. UploadImpl_init ses flow) ses)) })"

definition Client_RegisterDeviceBuffer :: "'w Platform \<Rightarrow> ClientCore \<Rightarrow> nat \<Rightarrow> nat \<Rightarrow> ('w, bool cresult) client" where
  "Client_RegisterDeviceBuffer P core ptr sz =
     when_initialized core (if o_data_flow (cc_options core) \<noteq> GPUDirect then ret (Inr True) else RegisterBuffer P ptr sz)"

definition Client_UnregisterDeviceBuffer :: "'w Platform \<Rightarrow> ClientCore \<Rightarrow> nat \<Rightarrow> ('w, bool cresult) client" where
  "Client_UnregisterDeviceBuffer P core ptr =
     when_initialized core (if o_data_flow (cc_options core) \<noteq> GPUDirect then ret (Inr True) else UnregisterBuffer P ptr)"

section \<open>Lifecycle\<close>

lemma uninitialized_refused:
  assumes "\<not> cc_initialized core"
  shows "run_state (Client_HeadObject P core bucket key) s = (Inl (MakeNotInitialized ''Client''), s)"
    "run_state (Client_GetObject P core gq b) s = (Inl (MakeNotInitialized ''Client''), s)"
    "run_state (Client_PutObject P core pq b) s = (Inl (MakeNotInitialized ''Client''), s)"
    "run_state (Client_HeadObjectAsync P core bucket key) s = (Inl (MakeNotInitialized ''Client''), s)"
    "run_state (Client_GetObjectAsync P core gq b) s = (Inl (MakeNotInitialized ''Client''), s)"
    "run_state (Client_PutObjectAsync P core pq b) s = (Inl (MakeNotInitialized ''Client''), s)"
    "run_state (Client_RegisterDeviceBuffer P core ptr n) s = (Inl (MakeNotInitialized ''Client''), s)"
    "run_state (Client_UnregisterDeviceBuffer P core ptr) s = (Inl (MakeNotInitialized ''Client''), s)"
    "run_state (Client_StartUpload P core bucket key False total_size ikey) s = ((Status_FromError (MakeNotInitialized ''Client''), None), s)"
  using assms
  by (simp_all add: Client_HeadObject_def Client_GetObject_def Client_PutObject_def Client_HeadObjectAsync_def
      Client_GetObjectAsync_def Client_PutObjectAsync_def Client_RegisterDeviceBuffer_def Client_UnregisterDeviceBuffer_def
      Client_StartUpload_def when_initialized_def)

lemma stub_Initialize:
  "run_state MetadataClient_Initialize s = (case metadata_stub s of
      Some ch \<Rightarrow> (Inr True, s)
    | None \<Rightarrow> (case ch_baidu (channels s) of
        None \<Rightarrow> (Inl (MakeInvalidArgument ''MetadataClient: shared baidu_std channel is not initialized''), s)
      | Some ch \<Rightarrow> (Inr True, s\<lparr>metadata_stub := Some ch\<rparr>)))"
  "run_state GdsDataClient_Initialize s = (case gds_stub s of
      Some ch \<Rightarrow> (Inr True, s)
    | None \<Rightarrow> (case gds_data_std (channels s) of
        None \<Rightarrow> (Inl (MakeInvalidArgument ''GdsDataClient: gds_data channel is not initialized''), s)
      | Some ch \<Rightarrow> (Inr True, s\<lparr>gds_stub := Some ch\<rparr>)))"
  "run_state RdmaDataPlaneClient_Initialize s = (case rdma_stub s of
      Some ch \<Rightarrow> (Inr True, s)
    | None \<Rightarrow> (case ch_baidu (channels s) of
        None \<Rightarrow> (Inl (MakeInvalidArgument ''RdmaDataPlaneClient: shared baidu_std channel is not initialized''), s)
      | Some ch \<Rightarrow> (Inr True, s\<lparr>rdma_stub := Some ch\<rparr>)))"
  by (simp_all add: MetadataClient_Initialize_def GdsDataClient_Initialize_def RdmaDataPlaneClient_Initialize_def split: option.split)

text \<open>The endpoints a registry was initialised with; a channel is only ever set to the endpoint of the options.\<close>

definition channels_ok :: "ClientOptions \<Rightarrow> 'w ClientState \<Rightarrow> bool" where
  "channels_ok opts s \<longleftrightarrow> ch_baidu (channels s) \<in> {None, Some (TrimTrailingSlash (o_endpoint opts))} \<and>
     ch_gds_data (channels s) \<in> {None, Some (TrimTrailingSlash (o_gds_data_endpoint opts))}"

definition stubs_ok :: "'w ClientState \<Rightarrow> bool" where
  "stubs_ok s \<longleftrightarrow> metadata_stub s \<in> {None, ch_baidu (channels s)} \<and> gds_stub s \<in> {None, gds_data_std (channels s)} \<and>
     rdma_stub s \<in> {None, ch_baidu (channels s)}"

lemma registry_Initialize_ok:
  assumes "run_state (ChannelRegistry_Initialize P opts) s = (r, s')" "channels_ok opts s" "\<not> ChannelRegistry_ready (channels s)"
  shows "channels_ok opts s'" "metadata_stub s' = metadata_stub s" "gds_stub s' = gds_stub s" "rdma_stub s' = rdma_stub s"
    "r = Inr v \<Longrightarrow> ChannelRegistry_ready (channels s')"
  using assms
  by (auto simp: ChannelRegistry_Initialize_def channels_ok_def ChannelRegistry_ready_def Let_def split: if_splits prod.splits)


end
