(* ===== verification/Session_Store.thy ===== *)
theory Session_Store
  imports Common_Types "HOL-Library.AList"
begin

text \<open>
  \<^verbatim>\<open>gateway/src/core/session\<close>: the registry of transfer sessions. Sessions are shared
  objects: they live in a list that stands for the heap, a \<^verbatim>\<open>std::shared_ptr\<close> is an
  index into it, and the three lookup tables hold such references. The table by session
  id is an association list because the sweeper iterates over it. The 64 shards of the
  source are one table here: the shard of a key is a function of the key, and every access
  uses it.
\<close>

section \<open>Data\<close>

datatype SessionState = kOpened | kClaimed | kActive | kCompleted | kFailed | kExpired

record OpenSessionParams =
  req_session_id :: string
  req_request_id :: string
  req_bucket :: string
  req_object_key :: string
  req_op :: OperationType
  req_data_flow :: DataFlow
  req_buffer_type :: string
  req_offset :: nat
  req_expected_size :: nat
  req_idempotency_key :: string
  req_is_multipart_part :: bool

record Session =
  session_id :: string
  request_id :: string
  ticket :: string
  gateway_id :: string
  expire_at :: string
  s_bucket :: string
  object_key :: string
  s_op :: OperationType
  s_data_flow :: DataFlow
  buffer_type :: string
  s_offset :: nat
  expected_size :: nat
  idempotency_key :: string
  is_multipart_part :: bool
  s_state :: SessionState
  expire_deadline :: nat

type_synonym sref = nat

record SessionStore =
  store_gateway_id :: string
  session_ttl :: nat
  sessions :: "Session list"
  by_id :: "(string \<times> sref) list"
  by_ticket :: "string \<rightharpoonup> sref"
  by_idempotency :: "string \<rightharpoonup> sref"

definition SessionStore_init :: "string \<Rightarrow> nat \<Rightarrow> SessionStore" where
  "SessionStore_init gid ttl =
     \<lparr>store_gateway_id = gid, session_ttl = ttl, sessions = [], by_id = [],
      by_ticket = Map.empty, by_idempotency = Map.empty\<rparr>"

text \<open>What \<^verbatim>\<open>Create\<close> takes from its environment: the draws of the random engine for the three
  identifiers, the wall-clock time of the expiry and the steady clock.\<close>

record CreateEnv =
  draw_session :: "nat \<times> nat"
  draw_request :: "nat \<times> nat"
  draw_ticket :: "nat \<times> nat"
  env_wall_expiry :: int
  env_now :: nat

definition random_id :: "string \<Rightarrow> nat \<times> nat \<Rightarrow> string" where
  "random_id prefix d = MakeRandomId prefix (fst d) (snd d)"

section \<open>Operations\<close>

definition new_session :: "CreateEnv \<Rightarrow> OpenSessionParams \<Rightarrow> SessionStore \<Rightarrow> Session" where
  "new_session env req st =
     \<lparr>session_id = (if req_session_id req = [] then random_id ''ses-'' (draw_session env) else req_session_id req),
      request_id = (if req_request_id req = [] then random_id ''req-'' (draw_request env) else req_request_id req),
      ticket = random_id ''ticket-'' (draw_ticket env),
      gateway_id = store_gateway_id st,
      expire_at = MakeExpireAt (env_wall_expiry env),
      s_bucket = req_bucket req,
      object_key = req_object_key req,
      s_op = req_op req,
      s_data_flow = req_data_flow req,
      buffer_type = (if req_buffer_type req = [] then ''host-regular'' else req_buffer_type req),
      s_offset = req_offset req,
      expected_size = req_expected_size req,
      idempotency_key = req_idempotency_key req,
      is_multipart_part = req_is_multipart_part req,
      s_state = kOpened,
      expire_deadline = env_now env + session_ttl st\<rparr>"

definition insert_session :: "Session \<Rightarrow> SessionStore \<Rightarrow> SessionStore" where
  "insert_session s st =
     (let r = length (sessions st) in
      st\<lparr>sessions := sessions st @ [s],
         by_id := AList.update (session_id s) r (by_id st),
         by_ticket := (by_ticket st)(ticket s \<mapsto> r),
         by_idempotency := (if idempotency_key s \<noteq> [] then (by_idempotency st)(idempotency_key s \<mapsto> r)
                            else by_idempotency st)\<rparr>)"

definition idempotency_error :: Error where
  "idempotency_error =
     MakeError kBadRequest ''idempotency_key collides with a different bucket/object/op'' False"

definition SessionStore_Create ::
  "CreateEnv \<Rightarrow> OpenSessionParams \<Rightarrow> SessionStore \<Rightarrow> sref result \<times> SessionStore" where
  "SessionStore_Create env req st =
     (case (if req_idempotency_key req \<noteq> [] then by_idempotency st (req_idempotency_key req) else None) of
        Some r \<Rightarrow>
          let existing = sessions st ! r in
          if s_bucket existing \<noteq> req_bucket req \<or> object_key existing \<noteq> req_object_key req
             \<or> s_op existing \<noteq> req_op req
          then (Failure idempotency_error, st)
          else (Success r, st)
      | None \<Rightarrow> (Success (length (sessions st)), insert_session (new_session env req st) st))"

definition SessionStore_Find :: "string \<Rightarrow> SessionStore \<Rightarrow> sref result" where
  "SessionStore_Find i st =
     (case map_of (by_id st) i of
        None \<Rightarrow> Failure (MakeError kSessionNotFound ''session not found'' False)
      | Some r \<Rightarrow> Success r)"

definition SessionStore_FindByTicket :: "string \<Rightarrow> SessionStore \<Rightarrow> sref result" where
  "SessionStore_FindByTicket t st =
     (case by_ticket st t of
        None \<Rightarrow> Failure (MakeError kTicketInvalid ''ticket not found'' False)
      | Some r \<Rightarrow> Success r)"

definition set_state :: "sref \<Rightarrow> SessionState \<Rightarrow> SessionStore \<Rightarrow> SessionStore" where
  "set_state r x st = st\<lparr>sessions := (sessions st)[r := (sessions st ! r)\<lparr>s_state := x\<rparr>]\<rparr>"

text \<open>\<^verbatim>\<open>compare_exchange_strong\<close> on the state of a session.\<close>

definition cas_state ::
  "sref \<Rightarrow> SessionState \<Rightarrow> SessionState \<Rightarrow> SessionStore \<Rightarrow> bool \<times> SessionStore" where
  "cas_state r expected desired st =
     (if s_state (sessions st ! r) = expected then (True, set_state r desired st) else (False, st))"

definition SessionStore_Claim :: "string \<Rightarrow> SessionStore \<Rightarrow> sref result \<times> SessionStore" where
  "SessionStore_Claim t st =
     (case SessionStore_FindByTicket t st of
        Inl e \<Rightarrow> (Failure e, st)
      | Inr r \<Rightarrow>
          (case cas_state r kOpened kClaimed st of
             (False, st) \<Rightarrow> (Failure (MakeError kStaleState ''session not in claimable state'' False), st)
           | (True, st) \<Rightarrow> (Success r, st)))"

definition SessionStore_Transition ::
  "string \<Rightarrow> SessionState \<Rightarrow> SessionState \<Rightarrow> ErrorCode \<Rightarrow> SessionStore \<Rightarrow> sref result \<times> SessionStore" where
  "SessionStore_Transition i expected desired failure_code st =
     (case SessionStore_Find i st of
        Inl e \<Rightarrow> (Failure e, st)
      | Inr r \<Rightarrow>
          (case cas_state r expected desired st of
             (False, st) \<Rightarrow> (Failure (MakeError failure_code ''session state transition rejected'' False), st)
           | (True, st) \<Rightarrow> (Success r, st)))"

definition SessionStore_MarkActive :: "string \<Rightarrow> SessionStore \<Rightarrow> sref result \<times> SessionStore" where
  "SessionStore_MarkActive i st = SessionStore_Transition i kClaimed kActive kStaleState st"

definition SessionStore_BumpActive :: "string \<Rightarrow> SessionStore \<Rightarrow> sref result \<times> SessionStore" where
  "SessionStore_BumpActive i st =
     (case SessionStore_Find i st of
        Inl e \<Rightarrow> (Failure e, st)
      | Inr r \<Rightarrow> (Success r, snd (cas_state r kOpened kActive st)))"

definition SessionStore_MarkCompleted :: "string \<Rightarrow> SessionStore \<Rightarrow> sref result \<times> SessionStore" where
  "SessionStore_MarkCompleted i st =
     (case SessionStore_Find i st of
        Inl e \<Rightarrow> (Failure e, st)
      | Inr r \<Rightarrow> (Success r, set_state r kCompleted st))"

definition SessionStore_MarkFailed :: "string \<Rightarrow> SessionStore \<Rightarrow> sref result \<times> SessionStore" where
  "SessionStore_MarkFailed i st =
     (case SessionStore_Find i st of
        Inl e \<Rightarrow> (Failure e, st)
      | Inr r \<Rightarrow> (Success r, set_state r kFailed st))"

definition terminal :: "SessionState \<Rightarrow> bool" where
  "terminal x \<longleftrightarrow> x = kFailed \<or> x = kCompleted"

definition evictable :: "nat \<Rightarrow> Session \<Rightarrow> bool" where
  "evictable now s \<longleftrightarrow> expire_deadline s \<le> now \<or> terminal (s_state s)"

definition expire :: "nat \<Rightarrow> Session \<Rightarrow> Session" where
  "expire now s =
     (if expire_deadline s \<le> now \<and> \<not> terminal (s_state s) then s\<lparr>s_state := kExpired\<rparr> else s)"

text \<open>First pass over the table by id: the entries to keep, the evicted references in order, and
  the heap after marking the expired sessions.\<close>

fun sweep_ids ::
  "nat \<Rightarrow> (string \<times> sref) list \<Rightarrow> Session list \<Rightarrow> (string \<times> sref) list \<times> sref list \<times> Session list" where
  "sweep_ids now [] h = ([], [], h)"
| "sweep_ids now ((i, r) # xs) h =
     (if evictable now (h ! r)
      then let (kept, expired, h') = sweep_ids now xs (h[r := expire now (h ! r)]) in
           (kept, r # expired, h')
      else let (kept, expired, h') = sweep_ids now xs h in
           ((i, r) # kept, expired, h'))"

text \<open>Second pass: drop the other two indices of an evicted session.\<close>

definition unindex :: "sref \<Rightarrow> SessionStore \<Rightarrow> SessionStore" where
  "unindex r st =
     (let s = sessions st ! r;
          st = st\<lparr>by_ticket := (by_ticket st)(ticket s := None)\<rparr> in
      if idempotency_key s \<noteq> []
      then st\<lparr>by_idempotency := (by_idempotency st)(idempotency_key s := None)\<rparr> else st)"

definition SessionStore_SweepExpired :: "nat \<Rightarrow> SessionStore \<Rightarrow> nat \<times> SessionStore" where
  "SessionStore_SweepExpired now st =
     (let (kept, expired, h) = sweep_ids now (by_id st) (sessions st);
          st = st\<lparr>by_id := kept, sessions := h\<rparr> in
      (length expired, fold unindex expired st))"

section \<open>Application service\<close>

definition ResolveForGdsChunk :: "string \<Rightarrow> string \<Rightarrow> SessionStore \<Rightarrow> sref option" where
  "ResolveForGdsChunk i t st =
     (case (if i \<noteq> [] then (case SessionStore_Find i st of Inr r \<Rightarrow> Some r | Inl _ \<Rightarrow> None) else None) of
        Some r \<Rightarrow> Some r
      | None \<Rightarrow>
          (if t \<noteq> [] then (case SessionStore_FindByTicket t st of Inr r \<Rightarrow> Some r | Inl _ \<Rightarrow> None)
           else None))"

definition SessionApp_BumpActive :: "string \<Rightarrow> SessionStore \<Rightarrow> SessionStore" where
  "SessionApp_BumpActive i st = snd (SessionStore_BumpActive i st)"

definition SessionApp_MarkFailed :: "Session \<Rightarrow> SessionStore \<Rightarrow> SessionStore" where
  "SessionApp_MarkFailed s st = snd (SessionStore_MarkFailed (session_id s) st)"

definition SessionApp_MarkFailedById :: "string \<Rightarrow> SessionStore \<Rightarrow> bool \<times> SessionStore" where
  "SessionApp_MarkFailedById i st =
     (let (r, st) = SessionStore_MarkFailed i st in (success r, st))"

section \<open>Well-formed indices\<close>

text \<open>Every entry of a table refers to an existing session that carries the entry's key. All of
  a session but its state is fixed at creation.\<close>

definition ident :: "Session \<Rightarrow> Session" where
  "ident s = s\<lparr>s_state := kOpened\<rparr>"

lemma ident_fields:
  assumes "ident s = ident t"
  shows "session_id s = session_id t" "ticket s = ticket t" "idempotency_key s = idempotency_key t"
    "s_bucket s = s_bucket t" "object_key s = object_key t" "s_op s = s_op t" "expected_size s = expected_size t"
    "s_data_flow s = s_data_flow t" "gateway_id s = gateway_id t"
  using assms by (cases s, cases t, simp add: ident_def)+

definition store_wf :: "SessionStore \<Rightarrow> bool" where
  "store_wf st \<longleftrightarrow> distinct (map fst (by_id st)) \<and>
     (\<forall>i r. (i, r) \<in> set (by_id st) \<longrightarrow> r < length (sessions st) \<and> session_id (sessions st ! r) = i) \<and>
     (\<forall>t r. by_ticket st t = Some r \<longrightarrow> r < length (sessions st) \<and> ticket (sessions st ! r) = t) \<and>
     (\<forall>k r. by_idempotency st k = Some r \<longrightarrow>
        r < length (sessions st) \<and> idempotency_key (sessions st ! r) = k \<and> k \<noteq> [])"

lemma ident_nth:
  assumes "map ident h = map ident h'" "r < length h"
  shows "length h' = length h" "session_id (h' ! r) = session_id (h ! r)"
    "ticket (h' ! r) = ticket (h ! r)" "idempotency_key (h' ! r) = idempotency_key (h ! r)"
proof -
  show len: "length h' = length h" using assms(1) map_eq_imp_length_eq by metis
  have "ident (h' ! r) = ident (h ! r)" using assms len by (metis nth_map)
  from ident_fields(1-3) [OF this]
  show "session_id (h' ! r) = session_id (h ! r)" "ticket (h' ! r) = ticket (h ! r)"
    "idempotency_key (h' ! r) = idempotency_key (h ! r)" by blast+
qed

lemma store_wf_sessions:
  assumes "store_wf st" "map ident (sessions st) = map ident h"
  shows "store_wf (st\<lparr>sessions := h\<rparr>)"
proof -
  have "length h = length (sessions st)" using assms(2) map_eq_imp_length_eq by metis
  then show ?thesis
    using assms(1) ident_nth(2,3,4) [OF assms(2)] unfolding store_wf_def by simp
qed

lemma ident_set_state [simp]: "map ident (sessions (set_state r x st)) = map ident (sessions st)"
proof (cases "r < length (sessions st)")
  case True
  have "ident ((sessions st ! r)\<lparr>s_state := x\<rparr>) = map ident (sessions st) ! r"
    using True by (simp add: ident_def)
  then show ?thesis by (simp only: set_state_def map_update list_update_id) (simp add: map_update)
qed (simp add: set_state_def list_update_beyond not_less)

lemma set_state_fields [simp]:
  "by_id (set_state r x st) = by_id st" "by_ticket (set_state r x st) = by_ticket st"
  "by_idempotency (set_state r x st) = by_idempotency st"
  "session_ttl (set_state r x st) = session_ttl st"
  "length (sessions (set_state r x st)) = length (sessions st)"
  by (simp_all add: set_state_def)

lemma wf_set_state: "store_wf st \<Longrightarrow> store_wf (set_state r x st)"
  using store_wf_sessions [of st "sessions (set_state r x st)"] ident_set_state [of r x st]
  by (simp add: set_state_def)

lemma wf_cas_state: "store_wf st \<Longrightarrow> store_wf (snd (cas_state r e d st))"
  by (simp add: cas_state_def wf_set_state)

lemma find_cases: "SessionStore_Find i st = Inr r \<longleftrightarrow> map_of (by_id st) i = Some r"
  "SessionStore_FindByTicket t st = Inr r \<longleftrightarrow> by_ticket st t = Some r"
  by (auto simp: SessionStore_Find_def SessionStore_FindByTicket_def split: option.splits)

lemma set_AList_update:
  "(a, b) \<in> set (AList.update k v xs) \<Longrightarrow> (a = k \<and> b = v) \<or> (a, b) \<in> set xs"
  by (induction xs) (auto split: if_splits)

lemma wf_insert_session:
  assumes "store_wf st"
  shows "store_wf (insert_session s st)"
proof -
  let ?r = "length (sessions st)"
  have ids: "(i, r) \<in> set (AList.update (session_id s) ?r (by_id st)) \<Longrightarrow>
      (i = session_id s \<and> r = ?r) \<or> (i, r) \<in> set (by_id st)" for i r
    by (rule set_AList_update)
  have "distinct (map fst (AList.update (session_id s) ?r (by_id st)))"
    using assms by (simp add: store_wf_def distinct_update)
  then show ?thesis
    using assms by (auto simp: insert_session_def store_wf_def Let_def nth_append less_Suc_eq dest!: ids split: if_splits)
qed

lemma wf_Create: "store_wf st \<Longrightarrow> store_wf (snd (SessionStore_Create env req st))"
  by (auto simp: SessionStore_Create_def Let_def wf_insert_session split: option.splits)

lemma wf_transitions:
  assumes "store_wf st"
  shows "store_wf (snd (SessionStore_Claim t st))" "store_wf (snd (SessionStore_MarkActive i st))"
    "store_wf (snd (SessionStore_BumpActive i st))" "store_wf (snd (SessionStore_MarkCompleted i st))"
    "store_wf (snd (SessionStore_MarkFailed i st))"
  using assms wf_set_state [OF assms]
  by (auto simp: SessionStore_Claim_def SessionStore_MarkActive_def SessionStore_Transition_def
      SessionStore_BumpActive_def SessionStore_MarkCompleted_def SessionStore_MarkFailed_def
      cas_state_def split: sum.splits)

section \<open>The sweep\<close>

lemma wf_distinct_refs: "store_wf st \<Longrightarrow> distinct (map snd (by_id st))"
proof -
  assume wf: "store_wf st"
  then have "a = b" if "(a, r) \<in> set (by_id st)" "(b, r) \<in> set (by_id st)" for a b r
    using that by (metis store_wf_def)
  then have "inj_on snd (set (by_id st))" by (auto simp: inj_on_def)
  moreover have "distinct (by_id st)"
    using wf by (simp add: store_wf_def distinct_map)
  ultimately show ?thesis by (simp add: distinct_map)
qed

definition evicted :: "nat \<Rightarrow> SessionStore \<Rightarrow> (string \<times> sref) list" where
  "evicted now st = filter (\<lambda>(i, r). evictable now (sessions st ! r)) (by_id st)"

lemma sweep_ids_spec:
  assumes "distinct (map snd xs)" "\<forall>(i, r) \<in> set xs. r < length h"
  shows "sweep_ids now xs h =
    (filter (\<lambda>(i, r). \<not> evictable now (h ! r)) xs,
     map snd (filter (\<lambda>(i, r). evictable now (h ! r)) xs),
     map (\<lambda>r. if r \<in> snd ` set xs \<and> evictable now (h ! r) then expire now (h ! r) else h ! r) [0..<length h])"
  using assms
proof (induction xs arbitrary: h)
  case Nil
  then show ?case by (simp add: map_nth)
next
  case (Cons x xs)
  obtain i r where x: "x = (i, r)" by fastforce
  have r: "r < length h" "r \<notin> snd ` set xs" using Cons.prems x by auto
  have other: "h[r := y] ! q = h ! q" if "(j, q) \<in> set xs" for j q y
    using that r(2) by (metis image_eqI nth_list_update_neq snd_conv)
  show ?case
  proof (cases "evictable now (h ! r)")
    case True
    let ?h = "h[r := expire now (h ! r)]"
    have f: "filter (\<lambda>(i, r). evictable now (?h ! r)) xs = filter (\<lambda>(i, r). evictable now (h ! r)) xs"
      "filter (\<lambda>(i, r). \<not> evictable now (?h ! r)) xs = filter (\<lambda>(i, r). \<not> evictable now (h ! r)) xs"
      using other by (auto intro!: filter_cong)
    have m: "map (\<lambda>q. if q \<in> snd ` set xs \<and> evictable now (?h ! q) then expire now (?h ! q) else ?h ! q) [0..<length h] =
      map (\<lambda>q. if q \<in> snd ` set (x # xs) \<and> evictable now (h ! q) then expire now (h ! q) else h ! q) [0..<length h]"
      using r True x by (auto simp: nth_list_update)
    show ?thesis using Cons.IH [of ?h] Cons.prems True x f m by simp
  next
    case False
    have m: "map (\<lambda>q. if q \<in> snd ` set xs \<and> evictable now (h ! q) then expire now (h ! q) else h ! q) [0..<length h] =
      map (\<lambda>q. if q \<in> snd ` set (x # xs) \<and> evictable now (h ! q) then expire now (h ! q) else h ! q) [0..<length h]"
      using False x by auto
    show ?thesis using Cons.IH [of h] Cons.prems False x m by simp
  qed
qed

lemma unindex_fields [simp]:
  "sessions (unindex r st) = sessions st" "by_id (unindex r st) = by_id st"
  "session_ttl (unindex r st) = session_ttl st"
  "store_gateway_id (unindex r st) = store_gateway_id st"
  by (simp_all add: unindex_def Let_def)

lemma fold_unindex_fields [simp]:
  "sessions (fold unindex rs st) = sessions st" "by_id (fold unindex rs st) = by_id st"
  "session_ttl (fold unindex rs st) = session_ttl st"
  "store_gateway_id (fold unindex rs st) = store_gateway_id st"
  by (induction rs arbitrary: st) simp_all

lemma fold_unindex_maps:
  "by_ticket (fold unindex rs st) =
     (\<lambda>t. if t \<in> (\<lambda>r. ticket (sessions st ! r)) ` set rs then None else by_ticket st t)"
  "by_idempotency (fold unindex rs st) =
     (\<lambda>k. if k \<noteq> [] \<and> k \<in> (\<lambda>r. idempotency_key (sessions st ! r)) ` set rs then None else by_idempotency st k)"
  by (induction rs arbitrary: st) (auto simp: unindex_def Let_def fun_eq_iff)

definition swept :: "nat \<Rightarrow> SessionStore \<Rightarrow> Session list" where
  "swept now st =
     map (\<lambda>r. if r \<in> snd ` set (by_id st) \<and> evictable now (sessions st ! r)
              then expire now (sessions st ! r) else sessions st ! r) [0..<length (sessions st)]"

lemma swept_ident: "map ident (sessions st) = map ident (swept now st)"
  by (rule nth_equalityI) (auto simp: swept_def expire_def ident_def)

lemma length_swept [simp]: "length (swept now st) = length (sessions st)"
  by (simp add: swept_def)

lemma Sweep_eval:
  assumes "store_wf st"
  shows "SessionStore_SweepExpired now st =
    (length (evicted now st),
     fold unindex (map snd (evicted now st))
       (st\<lparr>by_id := filter (\<lambda>(i, r). \<not> evictable now (sessions st ! r)) (by_id st),
           sessions := swept now st\<rparr>))"
proof -
  have "\<forall>(i, r) \<in> set (by_id st). r < length (sessions st)"
    using assms by (auto simp: store_wf_def)
  from sweep_ids_spec [OF wf_distinct_refs [OF assms] this, of now]
  show ?thesis
    by (simp add: SessionStore_SweepExpired_def evicted_def swept_def)
qed

lemma distinct_fst_filter: "distinct (map fst xs) \<Longrightarrow> distinct (map fst (filter P xs))"
  by (induction xs) auto

lemma wf_Sweep:
  assumes "store_wf st"
  shows "store_wf (snd (SessionStore_SweepExpired now st))"
proof -
  have wf: "store_wf (st\<lparr>sessions := swept now st\<rparr>)"
    by (rule store_wf_sessions [OF assms swept_ident])
  show ?thesis
    using wf unfolding Sweep_eval [OF assms]
    by (auto simp: store_wf_def fold_unindex_maps distinct_fst_filter split: if_splits)
qed

section \<open>Histories\<close>

inductive session_step :: "SessionStore \<Rightarrow> SessionStore \<Rightarrow> bool" where
  create: "session_step st (snd (SessionStore_Create env req st))"
| claim: "session_step st (snd (SessionStore_Claim t st))"
| mark_active: "session_step st (snd (SessionStore_MarkActive i st))"
| bump_active: "session_step st (snd (SessionStore_BumpActive i st))"
| mark_completed: "session_step st (snd (SessionStore_MarkCompleted i st))"
| mark_failed: "session_step st (snd (SessionStore_MarkFailed i st))"
| sweep: "session_step st (snd (SessionStore_SweepExpired now st))"

inductive_cases session_stepE: "session_step st st'"

lemma wf_step: "session_step st st' \<Longrightarrow> store_wf st \<Longrightarrow> store_wf st'"
  by (induction rule: session_step.induct) (simp_all add: wf_Create wf_transitions wf_Sweep)

lemma wf_steps: "session_step\<^sup>*\<^sup>* st st' \<Longrightarrow> store_wf st \<Longrightarrow> store_wf st'"
  by (induction rule: rtranclp_induct) (auto intro: wf_step)

lemma wf_init [simp]: "store_wf (SessionStore_init gid ttl)"
  by (simp add: SessionStore_init_def store_wf_def)

text \<open>The life cycle of a single session.\<close>

definition life_step :: "SessionState \<Rightarrow> SessionState \<Rightarrow> bool" where
  "life_step x y \<longleftrightarrow> y = x \<or> y = kCompleted \<or> y = kFailed \<or>
     (x = kOpened \<and> (y = kClaimed \<or> y = kActive)) \<or> (x = kClaimed \<and> y = kActive) \<or>
     (y = kExpired \<and> \<not> terminal x)"

definition state_of :: "SessionStore \<Rightarrow> sref \<Rightarrow> SessionState" where
  "state_of st r = s_state (sessions st ! r)"

definition indexed :: "SessionStore \<Rightarrow> sref set" where
  "indexed st = snd ` set (by_id st) \<union> ran (by_ticket st) \<union> ran (by_idempotency st)"

lemma state_of_set_state:
  "r < length (sessions st) \<Longrightarrow> state_of (set_state q x st) r = (if q = r then x else state_of st r)"
  by (simp add: state_of_def set_state_def nth_list_update)

text \<open>What a step may do to a session that exists before it: nothing when no table refers to it,
  otherwise one move of the life cycle. The tables never pick up an old session again.\<close>

definition step_ok :: "SessionStore \<Rightarrow> SessionStore \<Rightarrow> bool" where
  "step_ok st st' \<longleftrightarrow> length (sessions st) \<le> length (sessions st') \<and>
     (\<forall>r < length (sessions st).
        life_step (state_of st r) (state_of st' r) \<and>
        ident (sessions st' ! r) = ident (sessions st ! r) \<and>
        (r \<notin> indexed st \<longrightarrow> r \<notin> indexed st' \<and> state_of st' r = state_of st r))"

lemma step_ok_refl: "step_ok st st"
  by (simp add: step_ok_def life_step_def)

lemma ident_nth_set_state:
  "r < length (sessions st) \<Longrightarrow> ident (sessions (set_state q x st) ! r) = ident (sessions st ! r)"
  using ident_set_state [of q x st] by (metis nth_map set_state_fields(5))

lemma step_ok_set_state:
  assumes "life_step (state_of st q) x" "q \<in> indexed st"
  shows "step_ok st (set_state q x st)"
  using assms
  by (auto simp: step_ok_def state_of_set_state ident_nth_set_state indexed_def life_step_def)

lemma step_ok_cas:
  assumes "life_step e d" "q \<in> indexed st"
  shows "step_ok st (snd (cas_state q e d st))"
  using assms step_ok_set_state [of st q d] step_ok_refl [of st]
  by (auto simp: cas_state_def state_of_def)

lemma found_indexed:
  "SessionStore_Find i st = Inr r \<Longrightarrow> r \<in> indexed st"
  "SessionStore_FindByTicket t st = Inr r \<Longrightarrow> r \<in> indexed st"
  by (force simp: find_cases indexed_def dest: map_of_SomeD intro: ranI)+

lemma step_ok_Create: "step_ok st (snd (SessionStore_Create env req st))"
proof -
  have "r \<notin> snd ` set (AList.update k v xs)" if "r \<noteq> v" "r \<notin> snd ` set xs" for r k v and xs :: "(string \<times> sref) list"
    using that by (force dest!: set_AList_update)
  then have "step_ok st (insert_session s st)" for s
    by (auto simp: step_ok_def insert_session_def Let_def indexed_def state_of_def nth_append
        life_step_def ran_def split: if_splits)
  then show ?thesis
    by (auto simp: SessionStore_Create_def Let_def step_ok_refl split: option.splits)
qed

lemma step_ok_transitions:
  "step_ok st (snd (SessionStore_Claim t st))" "step_ok st (snd (SessionStore_MarkActive i st))"
  "step_ok st (snd (SessionStore_BumpActive i st))" "step_ok st (snd (SessionStore_MarkCompleted i st))"
  "step_ok st (snd (SessionStore_MarkFailed i st))"
proof -
  have cas: "step_ok st (snd (case cas_state q e d st of (False, st) \<Rightarrow> (Inl x, st) | (True, st) \<Rightarrow> (Inr y, st)))"
    if "life_step e d" "q \<in> indexed st" for q e d x and y :: sref
    using step_ok_cas [OF that] by (auto split: prod.splits bool.splits)
  show "step_ok st (snd (SessionStore_Claim t st))" "step_ok st (snd (SessionStore_MarkActive i st))"
    by (auto simp: SessionStore_Claim_def SessionStore_MarkActive_def SessionStore_Transition_def
        step_ok_refl life_step_def intro!: cas dest: found_indexed split: sum.split)
  show "step_ok st (snd (SessionStore_BumpActive i st))" "step_ok st (snd (SessionStore_MarkCompleted i st))"
    "step_ok st (snd (SessionStore_MarkFailed i st))"
    by (auto simp: SessionStore_BumpActive_def SessionStore_MarkCompleted_def SessionStore_MarkFailed_def
        step_ok_refl life_step_def intro!: step_ok_cas step_ok_set_state dest: found_indexed split: sum.split)
qed

lemma step_ok_Sweep:
  assumes "store_wf st"
  shows "step_ok st (snd (SessionStore_SweepExpired now st))"
proof -
  have "ident (swept now st ! r) = ident (sessions st ! r)" if "r < length (sessions st)" for r
    using that swept_ident [of st now] by (metis length_swept nth_map)
  then show ?thesis
    unfolding Sweep_eval [OF assms]
    by (auto simp: step_ok_def indexed_def fold_unindex_maps state_of_def swept_def life_step_def
        expire_def ran_def image_iff split: if_splits)
qed

lemma step_ok_step: "session_step st st' \<Longrightarrow> store_wf st \<Longrightarrow> step_ok st st'"
  by (induction rule: session_step.induct) (simp_all add: step_ok_Create step_ok_transitions step_ok_Sweep)

lemma step_ok_trans:
  assumes "step_ok a b" "step_ok b c"
  shows "length (sessions a) \<le> length (sessions c)"
    and "r < length (sessions a) \<Longrightarrow> r \<notin> indexed a \<Longrightarrow> r \<notin> indexed c \<and> state_of c r = state_of a r"
  using assms unfolding step_ok_def by fastforce+

lemma steps_unindexed:
  assumes "session_step\<^sup>*\<^sup>* st st'" "store_wf st" "r < length (sessions st)" "r \<notin> indexed st"
  shows "r < length (sessions st') \<and> r \<notin> indexed st' \<and> state_of st' r = state_of st r"
  using assms
proof (induction rule: rtranclp_induct)
  case (step y z)
  then have "step_ok y z" using wf_steps step_ok_step by blast
  then show ?case using step by (auto simp: step_ok_def)
qed simp

lemma steps_not_opened:
  assumes "session_step\<^sup>*\<^sup>* st st'" "store_wf st" "r < length (sessions st)" "state_of st r \<noteq> kOpened"
  shows "r < length (sessions st') \<and> state_of st' r \<noteq> kOpened"
  using assms
proof (induction rule: rtranclp_induct)
  case (step y z)
  then have "step_ok y z" using wf_steps step_ok_step by blast
  then show ?case using step by (auto simp: step_ok_def life_step_def)
qed simp

lemma steps_ident:
  assumes "session_step\<^sup>*\<^sup>* st st'" "store_wf st" "r < length (sessions st)"
  shows "ident (sessions st' ! r) = ident (sessions st ! r)"
  using assms
proof -
  from assms have "r < length (sessions st') \<and> ident (sessions st' ! r) = ident (sessions st ! r)"
  proof (induction rule: rtranclp_induct)
    case (step y z)
    then have "step_ok y z" using wf_steps step_ok_step by blast
    then show ?case using step by (auto simp: step_ok_def)
  qed simp
  then show ?thesis ..
qed

lemma claim_opened:
  assumes "SessionStore_Claim t st = (Inr r, st')"
  shows "by_ticket st t = Some r" "state_of st r = kOpened" "st' = set_state r kClaimed st"
  using assms
  by (auto simp: SessionStore_Claim_def cas_state_def state_of_def find_cases split: sum.splits if_splits)

lemma wf_lookups:
  assumes "store_wf st"
  shows "SessionStore_Find i st = Inr r \<Longrightarrow> r < length (sessions st) \<and> session_id (sessions st ! r) = i"
    "SessionStore_FindByTicket t st = Inr r \<Longrightarrow> r < length (sessions st) \<and> ticket (sessions st ! r) = t"
    "by_idempotency st k = Some r \<Longrightarrow> r < length (sessions st) \<and> idempotency_key (sessions st ! r) = k"
  using assms by (auto simp: store_wf_def find_cases dest: map_of_SomeD)

lemma sweep_kept:
  assumes "store_wf st" "(i, r) \<in> set (by_id (snd (SessionStore_SweepExpired now st)))"
  shows "sessions (snd (SessionStore_SweepExpired now st)) ! r = sessions st ! r"
    "\<not> evictable now (sessions st ! r)"
  using assms unfolding Sweep_eval [OF assms(1)] by (auto simp: swept_def store_wf_def)

lemma sweep_evicted:
  assumes "store_wf st" "(i, r) \<in> set (by_id st)" "evictable now (sessions st ! r)"
    and "st' = snd (SessionStore_SweepExpired now st)"
  shows "r < length (sessions st')" "r \<notin> indexed st'"
    "state_of st' r = kExpired \<or> terminal (state_of st' r)"
proof -
  have eval: "st' = fold unindex (map snd (evicted now st))
       (st\<lparr>by_id := filter (\<lambda>(i, r). \<not> evictable now (sessions st ! r)) (by_id st),
           sessions := swept now st\<rparr>)"
    using assms(4) Sweep_eval [OF assms(1)] by simp
  have wf': "store_wf st'" using wf_Sweep [OF assms(1)] assms(4) by simp
  have r: "r < length (sessions st)" using assms(1,2) by (auto simp: store_wf_def)
  then show "r < length (sessions st')" unfolding eval by simp
  have s: "sessions st' ! r = expire now (sessions st ! r)"
    using r assms(2,3) unfolding eval by (force simp: swept_def)
  then show "state_of st' r = kExpired \<or> terminal (state_of st' r)"
    using assms(3) by (auto simp: state_of_def expire_def evictable_def)
  have ev: "(i, r) \<in> set (evicted now st)" using assms(2,3) by (simp add: evicted_def)
  have "r \<notin> snd ` set (by_id st')" using assms(3) unfolding eval by auto
  moreover have "by_ticket st' t \<noteq> Some r" for t
  proof
    assume t: "by_ticket st' t = Some r"
    then have "ticket (sessions st' ! r) = t" using wf' by (auto simp: store_wf_def)
    then show False using t ev unfolding eval by (force simp: fold_unindex_maps split: if_splits)
  qed
  moreover have "by_idempotency st' k \<noteq> Some r" for k
  proof
    assume k: "by_idempotency st' k = Some r"
    then have "idempotency_key (sessions st' ! r) = k \<and> k \<noteq> []" using wf' by (auto simp: store_wf_def)
    then show False using k ev unfolding eval by (force simp: fold_unindex_maps split: if_splits)
  qed
  ultimately show "r \<notin> indexed st'" by (auto simp: indexed_def ran_def)
qed

section \<open>Properties\<close>

text \<open>C22: in every state the session store can reach, by any interleaving of creations, claims,
  activations, completions, failures and sweeps, a lookup by session id, by ticket or by
  idempotency key only ever returns a session that carries exactly that id, ticket or key.\<close>

theorem session_lookup_sound:
  "session_step\<^sup>*\<^sup>* (SessionStore_init gid ttl) st \<Longrightarrow>
   (SessionStore_Find i st = Inr r \<longrightarrow> r < length (sessions st) \<and> session_id (sessions st ! r) = i) \<and>
   (SessionStore_FindByTicket t st = Inr r \<longrightarrow> r < length (sessions st) \<and> ticket (sessions st ! r) = t) \<and>
   (by_idempotency st k = Some r \<longrightarrow> r < length (sessions st) \<and> idempotency_key (sessions st ! r) = k)"
  using wf_lookups [OF wf_steps [OF _ wf_init]] by blast

text \<open>A request and an environment for the examples.\<close>

definition example_params :: OpenSessionParams where
  "example_params =
     \<lparr>req_session_id = ''s1'', req_request_id = ''r1'', req_bucket = ''b'', req_object_key = ''k'',
      req_op = kPut, req_data_flow = GPUDirect, req_buffer_type = [], req_offset = 0,
      req_expected_size = 16, req_idempotency_key = ''idem'', req_is_multipart_part = False\<rparr>"

definition example_env :: "nat \<Rightarrow> CreateEnv" where
  "example_env now =
     \<lparr>draw_session = (0, 0), draw_request = (0, 0), draw_ticket = (0, 5), env_wall_expiry = 0,
      env_now = now\<rparr>"

definition example_store :: SessionStore where
  "example_store = snd (SessionStore_Create (example_env 100) example_params (SessionStore_init ''gw'' 60))"

definition example_ticket :: string where
  "example_ticket = random_id ''ticket-'' (0, 5)"

lemma example_reach: "session_step\<^sup>*\<^sup>* (SessionStore_init ''gw'' 60) example_store"
  unfolding example_store_def by (intro r_into_rtranclp session_step.create)

lemma example_wf: "store_wf example_store"
  using wf_steps [OF example_reach] by simp

lemmas session_evals = example_store_def SessionStore_Create_def SessionStore_init_def
  insert_session_def new_session_def example_params_def example_env_def Let_def

lemma example_lookups:
  "SessionStore_Find ''s1'' example_store = Inr 0"
  "SessionStore_FindByTicket example_ticket example_store = Inr 0"
  "length (sessions example_store) = 1" "state_of example_store 0 = kOpened"
  "by_id example_store = [(''s1'', 0)]" "expire_deadline (sessions example_store ! 0) = 160"
  "ticket (sessions example_store ! 0) = example_ticket"
  "by_idempotency example_store ''idem'' = Some 0"
  by (simp_all add: session_evals SessionStore_Find_def SessionStore_FindByTicket_def example_ticket_def
      state_of_def)

theorem session_lookup_sound_witness:
  "session_step\<^sup>*\<^sup>* (SessionStore_init ''gw'' 60) example_store \<and>
   SessionStore_Find ''s1'' example_store = Inr 0 \<and> session_id (sessions example_store ! 0) = ''s1''"
  using session_lookup_sound [OF example_reach, of "''s1''" 0] example_reach example_lookups by simp

text \<open>C8: a ticket can be claimed at most once. After a successful claim of a session, no further
  claim of it succeeds, whatever the store does in between: the session never returns to
  the opened state.\<close>

theorem ticket_claimed_once:
  assumes "store_wf st" "SessionStore_Claim t st = (Inr r, st1)" "session_step\<^sup>*\<^sup>* st1 st2"
  shows "fst (SessionStore_Claim t' st2) \<noteq> Inr r"
proof
  assume again: "fst (SessionStore_Claim t' st2) = Inr r"
  note c = claim_opened [OF assms(2)]
  have r: "r < length (sessions st)" using assms(1) c(1) by (auto simp: store_wf_def)
  have "store_wf st1" using wf_transitions(1) [OF assms(1), of t] assms(2) by simp
  moreover have "r < length (sessions st1)" "state_of st1 r \<noteq> kOpened"
    using r c(3) by (simp_all add: state_of_set_state)
  ultimately have "state_of st2 r \<noteq> kOpened" using steps_not_opened [OF assms(3)] by blast
  moreover obtain st3 where "SessionStore_Claim t' st2 = (Inr r, st3)"
    using again by (metis prod.collapse)
  ultimately show False using claim_opened(2) by blast
qed

theorem ticket_claimed_once_witness:
  "\<exists>st1. store_wf example_store \<and> SessionStore_Claim example_ticket example_store = (Inr 0, st1) \<and>
     fst (SessionStore_Claim example_ticket st1) \<noteq> Inr 0"
proof -
  obtain st1 where "SessionStore_Claim example_ticket example_store = (Inr 0, st1)"
    using example_lookups by (auto simp: SessionStore_Claim_def cas_state_def state_of_def)
  then show ?thesis
    using ticket_claimed_once [OF example_wf, of example_ticket 0 st1 st1 example_ticket] example_wf by auto
qed



text \<open>Idempotent creation. Once a session was created under a non-empty idempotency key, a
  later creation under that key, as long as the key is still registered, returns the same session
  and changes nothing when bucket, object and operation agree, and is refused as a bad request,
  again changing nothing, when any of them differs.\<close>

theorem create_idempotent:
  assumes "store_wf st" "SessionStore_Create env req st = (Inr r, st1)" "req_idempotency_key req \<noteq> []"
    and "session_step\<^sup>*\<^sup>* st1 st2" "by_idempotency st2 (req_idempotency_key req) = Some r"
    and "req_idempotency_key req2 = req_idempotency_key req"
  shows "SessionStore_Create env2 req2 st2 =
    (if req_bucket req2 = req_bucket req \<and> req_object_key req2 = req_object_key req \<and> req_op req2 = req_op req
     then (Inr r, st2) else (Inl idempotency_error, st2))"
proof -
  have wf1: "store_wf st1" using wf_Create [OF assms(1), of env req] assms(2) by simp
  have r: "r < length (sessions st1)"
    using assms(1-3) by (auto simp: SessionStore_Create_def Let_def insert_session_def store_wf_def split: option.splits if_splits)
  have "ident (sessions st2 ! r) = ident (sessions st1 ! r)" by (rule steps_ident [OF assms(4) wf1 r])
  moreover have "s_bucket (sessions st1 ! r) = req_bucket req" "object_key (sessions st1 ! r) = req_object_key req"
      "s_op (sessions st1 ! r) = req_op req"
    using assms(2) by (auto simp: SessionStore_Create_def Let_def insert_session_def new_session_def
        split: option.splits if_splits)
  ultimately have "s_bucket (sessions st2 ! r) = req_bucket req" "object_key (sessions st2 ! r) = req_object_key req"
      "s_op (sessions st2 ! r) = req_op req"
    using ident_fields by metis+
  then show ?thesis using assms(3,5,6) by (auto simp: SessionStore_Create_def Let_def)
qed

theorem create_idempotent_witness:
  "SessionStore_Create (example_env 120) example_params example_store = (Inr 0, example_store) \<and>
   SessionStore_Create (example_env 120) (example_params\<lparr>req_bucket := ''c''\<rparr>) example_store =
     (Inl idempotency_error, example_store)"
proof -
  have c: "SessionStore_Create (example_env 100) example_params (SessionStore_init ''gw'' 60) = (Inr 0, example_store)"
    by (simp add: session_evals)
  have k: "req_idempotency_key example_params \<noteq> []" "by_idempotency example_store (req_idempotency_key example_params) = Some 0"
    using example_lookups by (simp_all add: example_params_def)
  show ?thesis
    using create_idempotent [OF wf_init c k(1) _ k(2), of example_params "example_env 120"]
      create_idempotent [OF wf_init c k(1) _ k(2), of "example_params\<lparr>req_bucket := ''c''\<rparr>" "example_env 120"]
    by (simp add: example_params_def)
qed

end
