(* ===== verification/Session_Opener.thy ===== *)
theory Session_Opener
  imports Session_Store Composite_Backend
begin

text \<open>
  \<^verbatim>\<open>gateway/src/core/session_opener\<close>, \<^verbatim>\<open>core/metadata/metadata_service.h\<close> and the executor interface
  of \<^verbatim>\<open>data_path/data_path_executor.h\<close>: opening a session registers it and hands it to the hook
  of the data path it asks for. The state an executor works on (its transport and the storage
  backend behind it) is the type parameter.
\<close>

section \<open>Interfaces\<close>

record 'e IDataPathExecutor =
  dp_kind :: DataFlow
  dp_available :: "'e \<Rightarrow> bool"
  dp_endpoint :: "'e \<Rightarrow> string"
  dp_Start :: "'e \<Rightarrow> bool result \<times> 'e"
  dp_Stop :: "'e \<Rightarrow> 'e"
  dp_OnSessionOpened :: "Session \<Rightarrow> 'e \<Rightarrow> bool result \<times> 'e"

definition IDataPathExecutor_OnSessionOpened :: "Session \<Rightarrow> 'e \<Rightarrow> bool result \<times> 'e" where
  "IDataPathExecutor_OnSessionOpened s e = (Success True, e)"

definition MetadataService_Head :: "'s IBackend \<Rightarrow> string \<Rightarrow> string \<Rightarrow> 's \<Rightarrow> ObjectMetadata result" where
  "MetadataService_Head B bucket key b = be_Head B bucket key b"

definition MetadataService_Reserve ::
  "'s IBackend \<Rightarrow> nat \<Rightarrow> string \<Rightarrow> string \<Rightarrow> nat \<Rightarrow> 's \<Rightarrow> ObjectMetadata result \<times> 's" where
  "MetadataService_Reserve B now bucket key total_size b = be_Reserve B now bucket key total_size b"

section \<open>Opening a session\<close>

record 'e SessionOpener =
  so_gds_executor :: "'e IDataPathExecutor option"
  so_rdma_executor :: "'e IDataPathExecutor option"

fun SelectExecutor :: "'e SessionOpener \<Rightarrow> DataFlow \<Rightarrow> 'e IDataPathExecutor option" where
  "SelectExecutor so GPUDirect = so_gds_executor so"
| "SelectExecutor so CPUDirect = so_rdma_executor so"
| "SelectExecutor so NONE = None"

definition SessionOpener_Open ::
  "'e SessionOpener \<Rightarrow> CreateEnv \<Rightarrow> OpenSessionParams \<Rightarrow> SessionStore \<Rightarrow> 'e
   \<Rightarrow> sref result \<times> SessionStore \<times> 'e" where
  "SessionOpener_Open so env req st e =
     (case SessionStore_Create env req st of
        (Inl err, st) \<Rightarrow> (Failure err, st, e)
      | (Inr r, st) \<Rightarrow>
          let session = sessions st ! r in
          (case SelectExecutor so (s_data_flow session) of
             None \<Rightarrow> (Failure (MakeError kBadRequest
                 (''no executor registered for data path: '' @ DataFlow_ToString (s_data_flow session)) False), st, e)
           | Some executor \<Rightarrow>
               (case dp_OnSessionOpened executor session e of
                  (Inl err, e) \<Rightarrow> (Failure err, snd (SessionStore_MarkFailed (session_id session) st), e)
                | (Inr _, e) \<Rightarrow> (Success r, st, e))))"

section \<open>A fresh session\<close>

definition fresh_request :: "OpenSessionParams \<Rightarrow> SessionStore \<Rightarrow> bool" where
  "fresh_request req st \<longleftrightarrow> req_idempotency_key req = [] \<or> by_idempotency st (req_idempotency_key req) = None"

lemma Create_fresh:
  assumes "fresh_request req st"
  shows "SessionStore_Create env req st =
    (Inr (length (sessions st)), insert_session (new_session env req st) st)"
  using assms by (auto simp: fresh_request_def SessionStore_Create_def)

lemma inserted:
  assumes "st' = insert_session s st"
  shows "sessions st' ! length (sessions st) = s" "length (sessions st') = Suc (length (sessions st))"
    "SessionStore_Find (session_id s) st' = Inr (length (sessions st))"
    "SessionStore_FindByTicket (ticket s) st' = Inr (length (sessions st))"
  using assms
  by (simp_all add: insert_session_def Let_def SessionStore_Find_def SessionStore_FindByTicket_def update_conv)

lemma new_session_fields [simp]:
  "s_data_flow (new_session env req st) = req_data_flow req" "s_bucket (new_session env req st) = req_bucket req"
  "object_key (new_session env req st) = req_object_key req" "s_op (new_session env req st) = req_op req"
  "expected_size (new_session env req st) = req_expected_size req" "s_state (new_session env req st) = kOpened"
  by (simp_all add: new_session_def)

lemma failed_is_swept:
  assumes "store_wf st" "SessionStore_Find i st = Inr r" "state_of st r = kFailed"
  shows "r \<notin> indexed (snd (SessionStore_SweepExpired now st))"
proof -
  have "(i, r) \<in> set (by_id st)" using assms(2) by (simp add: find_cases map_of_SomeD)
  moreover have "evictable now (sessions st ! r)" using assms(3) by (simp add: evictable_def terminal_def state_of_def)
  ultimately show ?thesis using sweep_evicted(2) [OF assms(1) _ _ refl] by blast
qed

section \<open>Properties\<close>

text \<open>Opening a session under a fresh idempotency key has exactly three outcomes. Either the
  data path of the request has an executor whose hook accepts the session: then the result is a new
  session in the opened state that is found by its id and by its ticket. Or the hook refuses it: the
  caller gets the error of the hook and the session is marked failed, so that the next sweep evicts it
  from every table whatever the clock says. Or no executor serves the data path: the request is refused
  as bad, no executor is called and the registered session is left in the opened state.\<close>

theorem open_session_outcomes:
  assumes "store_wf st" "fresh_request req st" "SessionOpener_Open so env req st e = (res, st', e')"
  defines "r \<equiv> length (sessions st)" and "s \<equiv> new_session env req st"
  shows "case SelectExecutor so (req_data_flow req) of
      None \<Rightarrow> result_code res = kBadRequest \<and> e' = e \<and> state_of st' r = kOpened
    | Some executor \<Rightarrow>
        (case dp_OnSessionOpened executor s e of
           (Inr _, e1) \<Rightarrow> res = Inr r \<and> e' = e1 \<and> SessionStore_Find (session_id s) st' = Inr r \<and>
             SessionStore_FindByTicket (ticket s) st' = Inr r \<and> sessions st' ! r = s \<and> s_state s = kOpened
         | (Inl err, e1) \<Rightarrow> res = Inl err \<and> e' = e1 \<and> state_of st' r = kFailed \<and>
             (\<forall>now. r \<notin> indexed (snd (SessionStore_SweepExpired now st'))))"
proof -
  let ?st1 = "insert_session s st"
  have c: "SessionStore_Create env req st = (Inr r, ?st1)"
    using Create_fresh [OF assms(2)] by (simp add: r_def s_def)
  note ins = inserted [OF refl, of s st, folded r_def]
  have flow: "s_data_flow s = req_data_flow req" "s_state s = kOpened" by (simp_all add: s_def)
  have wf1: "store_wf ?st1" using wf_Create [OF assms(1), of env req] c by simp
  have mark: "SessionStore_MarkFailed (session_id s) ?st1 = (Inr r, set_state r kFailed ?st1)"
    using ins(3) by (simp add: SessionStore_MarkFailed_def)
  have failed: "state_of (set_state r kFailed ?st1) r = kFailed" using ins(2) by (simp add: state_of_set_state)
  have find: "SessionStore_Find (session_id s) (set_state r kFailed ?st1) = Inr r"
    using ins(3) by (simp add: SessionStore_Find_def)
  note swept = failed_is_swept [OF wf_set_state [OF wf1] find failed]
  show ?thesis
    using assms(3) c ins flow mark failed swept
    by (auto simp: SessionOpener_Open_def Let_def result_code_def MakeError_def state_of_def split: option.splits prod.splits sum.splits)
qed

definition refusing_executor :: "nat IDataPathExecutor" where
  "refusing_executor = \<lparr>dp_kind = GPUDirect, dp_available = (\<lambda>e. False), dp_endpoint = (\<lambda>e. []),
     dp_Start = (\<lambda>e. (Inr True, e)), dp_Stop = (\<lambda>e. e),
     dp_OnSessionOpened = (\<lambda>s e. (Inl (MakeError kRdmaUnavailable [] False), e + 1))\<rparr>"

theorem open_session_outcomes_witness:
  "let st = SessionStore_init ''gw'' 60;
       so = \<lparr>so_gds_executor = Some refusing_executor, so_rdma_executor = None\<rparr>;
       (res, st', e') = SessionOpener_Open so (example_env 100) example_params st 0 in
   store_wf st \<and> fresh_request example_params st \<and> result_code res = kRdmaUnavailable \<and> e' = 1 \<and>
   0 \<notin> indexed (snd (SessionStore_SweepExpired 0 st'))"
proof -
  let ?st = "SessionStore_init ''gw'' 60"
  let ?so = "\<lparr>so_gds_executor = Some refusing_executor, so_rdma_executor = None\<rparr>"
  have f: "fresh_request example_params ?st" by (simp add: fresh_request_def SessionStore_init_def)
  have len: "length (sessions ?st) = 0" by (simp add: SessionStore_init_def)
  obtain res st' e' where o: "SessionOpener_Open ?so (example_env 100) example_params ?st 0 = (res, st', e')"
    using prod_cases3 by blast
  show ?thesis
    using open_session_outcomes [OF wf_init f o] f o len
    by (simp add: refusing_executor_def example_params_def)
qed

end
