(* ===== verification/Multipart.thy ===== *)
theory Multipart
  imports Composite_Backend "HOL-Library.AList"
begin

text \<open>
  \<^verbatim>\<open>gateway/src/core/multipart\<close>: the registry of multipart uploads and the coordinator
  that opens, completes and aborts them against an \<^verbatim>\<open>IBackend\<close>. Uploads are shared
  objects, so they live in a list that stands for the heap and the registry maps an upload id
  to an index into it. Metrics and log lines are not modelled.
\<close>

section \<open>Uploads and their registry\<close>

datatype UploadState = kUpActive | kUpCompleting | kUpCompleted | kUpAborted

record PartProgress =
  pp_part_number :: nat
  pp_offset :: nat
  pp_size :: nat
  pp_etag :: string

text \<open>\<^verbatim>\<open>part_md5_ctxs\<close> holds, per part, the bytes fed into its digest so far; the digest
  function itself belongs to OpenSSL and is a parameter where it is used.\<close>

record MultipartUpload =
  upload_id :: string
  u_bucket :: string
  u_object_key :: string
  u_data_flow :: string
  expected_total_size :: "nat option"
  backend_upload_id :: string
  u_parts :: "nat \<rightharpoonup> PartProgress"
  u_state :: UploadState
  created_at :: nat
  last_activity_at :: nat
  part_md5_ctxs :: "nat \<rightharpoonup> bytes"

type_synonym uref = nat

record MultipartStore =
  mp_ttl :: nat
  mp_seq :: nat
  uploads :: "MultipartUpload list"
  up_by_id :: "(string \<times> uref) list"

record CreateParams =
  cp_bucket :: string
  cp_object_key :: string
  cp_data_flow :: string
  cp_expected_total_size :: "nat option"
  cp_backend_upload_id :: string

definition MultipartStore_init :: "nat \<Rightarrow> MultipartStore" where
  "MultipartStore_init ttl = \<lparr>mp_ttl = ttl, mp_seq = 0, uploads = [], up_by_id = []\<rparr>"

text \<open>\<^verbatim>\<open>ticks\<close> goes into the identifier, \<^verbatim>\<open>now\<close> is the second reading of the clock.\<close>

definition MultipartStore_Create ::
  "nat \<Rightarrow> nat \<Rightarrow> CreateParams \<Rightarrow> MultipartStore \<Rightarrow> uref \<times> MultipartStore" where
  "MultipartStore_Create ticks now p st =
     (let seq = u64_add (mp_seq st) 1;
          uid = upload_id_of seq ticks;
          upload = \<lparr>upload_id = uid, u_bucket = cp_bucket p, u_object_key = cp_object_key p,
                    u_data_flow = cp_data_flow p, expected_total_size = cp_expected_total_size p,
                    backend_upload_id = cp_backend_upload_id p, u_parts = Map.empty,
                    u_state = kUpActive, created_at = now, last_activity_at = now,
                    part_md5_ctxs = Map.empty\<rparr>;
          r = length (uploads st) in
      (r, st\<lparr>mp_seq := seq, uploads := uploads st @ [upload],
             up_by_id := (if map_of (up_by_id st) uid = None then (uid, r) # up_by_id st
                          else up_by_id st)\<rparr>))"

definition MultipartStore_Find :: "string \<Rightarrow> MultipartStore \<Rightarrow> uref option" where
  "MultipartStore_Find uid st = map_of (up_by_id st) uid"

definition update_upload :: "uref \<Rightarrow> (MultipartUpload \<Rightarrow> MultipartUpload) \<Rightarrow> MultipartStore \<Rightarrow> MultipartStore" where
  "update_upload r f st = st\<lparr>uploads := (uploads st)[r := f (uploads st ! r)]\<rparr>"

definition MultipartStore_Touch :: "uref \<Rightarrow> nat \<Rightarrow> MultipartStore \<Rightarrow> MultipartStore" where
  "MultipartStore_Touch r now st = update_upload r (\<lambda>u. u\<lparr>last_activity_at := now\<rparr>) st"

definition MultipartStore_Erase :: "string \<Rightarrow> MultipartStore \<Rightarrow> bool \<times> MultipartStore" where
  "MultipartStore_Erase uid st =
     (map_of (up_by_id st) uid \<noteq> None, st\<lparr>up_by_id := AList.delete uid (up_by_id st)\<rparr>)"

definition idle_too_long :: "nat \<Rightarrow> nat \<Rightarrow> MultipartUpload \<Rightarrow> bool" where
  "idle_too_long now ttl u \<longleftrightarrow> int now - int (last_activity_at u) > int ttl"

definition MultipartStore_SweepExpired :: "nat \<Rightarrow> MultipartStore \<Rightarrow> nat \<times> uref list \<times> MultipartStore" where
  "MultipartStore_SweepExpired now st =
     (if mp_ttl st = 0 then (0, [], st)
      else
        let expired = filter (\<lambda>(i, r). idle_too_long now (mp_ttl st) (uploads st ! r)) (up_by_id st) in
        (length expired, map snd expired,
         st\<lparr>up_by_id := filter (\<lambda>(i, r). \<not> idle_too_long now (mp_ttl st) (uploads st ! r)) (up_by_id st)\<rparr>))"

section \<open>The coordinator\<close>

record 's MultipartCoordinator =
  co_backend :: 's
  co_store :: MultipartStore
  max_part_size :: nat
  min_part_size :: nat

record StartUploadParams =
  sup_bucket :: string
  sup_object_key :: string
  sup_expected_total_size :: "nat option"
  sup_data_flow :: string
  sup_idempotency_key :: string

record StartUploadResult =
  sur_upload_id :: string
  sur_max_part_size :: nat

definition CreateUpload ::
  "'s IBackend \<Rightarrow> nat \<Rightarrow> StartUploadParams \<Rightarrow> 's MultipartCoordinator
   \<Rightarrow> StartUploadResult result \<times> 's MultipartCoordinator" where
  "CreateUpload B now params co =
     (case be_StartMultipart B now (sup_bucket params) (sup_object_key params)
             (sup_expected_total_size params) (co_backend co) of
        (Inl e, b) \<Rightarrow> (Failure e, co\<lparr>co_backend := b\<rparr>)
      | (Inr backend_id, b) \<Rightarrow>
          let cp = \<lparr>cp_bucket = sup_bucket params, cp_object_key = sup_object_key params,
                    cp_data_flow = sup_data_flow params,
                    cp_expected_total_size = sup_expected_total_size params,
                    cp_backend_upload_id = backend_id\<rparr>;
              (r, st) = MultipartStore_Create now now cp (co_store co) in
          (Success \<lparr>sur_upload_id = upload_id (uploads st ! r), sur_max_part_size = max_part_size co\<rparr>,
           co\<lparr>co_backend := b, co_store := st\<rparr>))"

definition bad_request :: "string \<Rightarrow> Error" where
  "bad_request m = MakeError kBadRequest m False"

text \<open>The validation loop over the sorted parts, from index i on; \<^verbatim>\<open>n\<close> is their number.\<close>

fun validate_parts ::
  "nat \<Rightarrow> (nat \<rightharpoonup> PartProgress) \<Rightarrow> nat \<Rightarrow> nat \<Rightarrow> PartRecord list \<Rightarrow> Error option" where
  "validate_parts min_size recorded n i [] = None"
| "validate_parts min_size recorded n i (pr # prs) =
     (if pr_part_number pr \<noteq> (i + 1) mod 2 ^ 32 then
        Some (bad_request (''part_number sequence must be 1..N contiguous; got '' @
          dec (pr_part_number pr) @ '' at index '' @ dec i))
      else if pr_etag pr = [] then
        Some (bad_request (''etag must be supplied for part '' @ dec (pr_part_number pr)))
      else case recorded (pr_part_number pr) of
        None \<Rightarrow> Some (bad_request (''part '' @ dec (pr_part_number pr) @ '' has no recorded data on gateway''))
      | Some rp \<Rightarrow>
          if pp_etag rp \<noteq> pr_etag pr then
            Some (bad_request (''etag mismatch for part '' @ dec (pr_part_number pr)))
          else if i + 1 \<noteq> n \<and> min_size \<noteq> 0 \<and> pp_size rp < min_size then
            Some (bad_request (''part '' @ dec (pr_part_number pr) @ '' smaller than min_part_size ('' @
              dec (pp_size rp) @ '' < '' @ dec min_size @ '')''))
          else validate_parts min_size recorded n (i + 1) prs)"

text \<open>\<^verbatim>\<open>CompleteUpload\<close> in the two sections the upload's lock delimits: claiming the upload, and
  validating, committing or undoing the claim.\<close>

definition complete_claim ::
  "string \<Rightarrow> PartRecord list \<Rightarrow> string \<Rightarrow> MultipartStore \<Rightarrow> uref result \<times> MultipartStore" where
  "complete_claim uid ps expected_data_path st =
     (if ps = [] then (Failure (bad_request ''CompleteUpload requires at least one part''), st)
      else case MultipartStore_Find uid st of
        None \<Rightarrow> (Failure (MakeError kNotFound ''multipart upload_id not found'' False), st)
      | Some r \<Rightarrow>
          let u = uploads st ! r in
          if u_data_flow u \<noteq> expected_data_path then
            (Failure (bad_request (''upload was started on data_flow '' @ CHR 0x27 # u_data_flow u @
               CHR 0x27 # '', cannot complete via '' @ CHR 0x27 # expected_data_path @ [CHR 0x27])), st)
          else if u_state u \<noteq> kUpActive then (Failure (bad_request ''multipart upload not active''), st)
          else (Success r, update_upload r (\<lambda>u. u\<lparr>u_state := kUpCompleting\<rparr>) st))"

text \<open>The snapshot of the recorded parts is taken when the upload is claimed.\<close>

definition complete_finish ::
  "'s IBackend \<Rightarrow> nat \<Rightarrow> uref \<Rightarrow> (nat \<rightharpoonup> PartProgress) \<Rightarrow> PartRecord list \<Rightarrow> 's MultipartCoordinator
   \<Rightarrow> ObjectMetadata result \<times> 's MultipartCoordinator" where
  "complete_finish B now r recorded ps co =
     (let rollback = (\<lambda>co. co\<lparr>co_store := update_upload r (\<lambda>u. u\<lparr>u_state := kUpActive\<rparr>) (co_store co)\<rparr>);
          u = uploads (co_store co) ! r;
          sorted = sort_key pr_part_number ps in
      case validate_parts (min_part_size co) recorded (length sorted) 0 sorted of
        Some e \<Rightarrow> (Failure e, rollback co)
      | None \<Rightarrow>
          (case be_CompleteMultipart B now (backend_upload_id u) ps (co_backend co) of
             (Inl e, b) \<Rightarrow> (Failure e, rollback (co\<lparr>co_backend := b\<rparr>))
           | (Inr meta, b) \<Rightarrow>
               let st = update_upload r (\<lambda>u. u\<lparr>u_state := kUpCompleted\<rparr>) (co_store co) in
               (Success meta,
                co\<lparr>co_backend := b, co_store := snd (MultipartStore_Erase (upload_id u) st)\<rparr>)))"

definition CompleteUpload ::
  "'s IBackend \<Rightarrow> nat \<Rightarrow> string \<Rightarrow> PartRecord list \<Rightarrow> string \<Rightarrow> 's MultipartCoordinator
   \<Rightarrow> ObjectMetadata result \<times> 's MultipartCoordinator" where
  "CompleteUpload B now uid ps expected_data_path co =
     (case complete_claim uid ps expected_data_path (co_store co) of
        (Inl e, st) \<Rightarrow> (Failure e, co\<lparr>co_store := st\<rparr>)
      | (Inr r, st) \<Rightarrow>
          complete_finish B now r (u_parts (uploads (co_store co) ! r)) ps (co\<lparr>co_store := st\<rparr>))"

definition AbortUpload ::
  "'s IBackend \<Rightarrow> string \<Rightarrow> string \<Rightarrow> 's MultipartCoordinator \<Rightarrow> bool result \<times> 's MultipartCoordinator" where
  "AbortUpload B uid expected_data_path co =
     (case MultipartStore_Find uid (co_store co) of
        None \<Rightarrow> (Success False, co)
      | Some r \<Rightarrow>
          let u = uploads (co_store co) ! r in
          if u_data_flow u \<noteq> expected_data_path then
            (Failure (bad_request (''upload was started on data_flow '' @ CHR 0x27 # u_data_flow u @
               CHR 0x27 # '', cannot abort via '' @ CHR 0x27 # expected_data_path @ [CHR 0x27])), co)
          else
            let st = update_upload r (\<lambda>u. u\<lparr>u_state := kUpAborted\<rparr>) (co_store co);
                b = snd (be_AbortMultipart B (backend_upload_id u) (co_backend co)) in
            (Success True,
             co\<lparr>co_backend := b, co_store := snd (MultipartStore_Erase (upload_id u) st)\<rparr>))"

definition AbortBackend :: "'s IBackend \<Rightarrow> string \<Rightarrow> 's MultipartCoordinator \<Rightarrow> 's MultipartCoordinator" where
  "AbortBackend B backend_id co =
     (if backend_id = [] then co
      else co\<lparr>co_backend := snd (be_AbortMultipart B backend_id (co_backend co))\<rparr>)"

definition Lookup :: "string \<Rightarrow> 's MultipartCoordinator \<Rightarrow> uref result" where
  "Lookup uid co =
     (case MultipartStore_Find uid (co_store co) of
        None \<Rightarrow> Failure (MakeError kNotFound ''multipart upload_id not found'' False)
      | Some r \<Rightarrow> Success r)"

definition RegisterPart ::
  "nat \<Rightarrow> uref \<Rightarrow> nat \<Rightarrow> nat \<Rightarrow> nat \<Rightarrow> string \<Rightarrow> 's MultipartCoordinator \<Rightarrow> 's MultipartCoordinator" where
  "RegisterPart now r part_number offset sz e co =
     co\<lparr>co_store := update_upload r
          (\<lambda>u. u\<lparr>u_parts := (u_parts u)(part_number \<mapsto>
                   \<lparr>pp_part_number = part_number, pp_offset = offset, pp_size = sz, pp_etag = e\<rparr>),
                 last_activity_at := now\<rparr>) (co_store co)\<rparr>"

definition GeneratePartEtag :: "nat \<Rightarrow> nat \<Rightarrow> string" where
  "GeneratePartEtag part_number sz = dec part_number @ CHR ''-'' # dec sz"

text \<open>The multipart half of one round of \<^verbatim>\<open>SessionSweeper::Run\<close>.\<close>

definition sweep_abort ::
  "'s IBackend \<Rightarrow> uref \<Rightarrow> 's MultipartCoordinator \<Rightarrow> 's MultipartCoordinator" where
  "sweep_abort B r co =
     (let bid = backend_upload_id (uploads (co_store co) ! r) in
      AbortBackend B bid (co\<lparr>co_store := update_upload r (\<lambda>u. u\<lparr>u_state := kUpAborted\<rparr>) (co_store co)\<rparr>))"

definition sweep_uploads :: "'s IBackend \<Rightarrow> nat \<Rightarrow> 's MultipartCoordinator \<Rightarrow> nat \<times> 's MultipartCoordinator" where
  "sweep_uploads B now co =
     (let (removed, expired, st) = MultipartStore_SweepExpired now (co_store co) in
      (removed, fold (sweep_abort B) expired (co\<lparr>co_store := st\<rparr>)))"

section \<open>What the coordinator asks of a backend\<close>

locale multipart_backend =
  fixes B :: "'s IBackend"
    and binv :: "'s \<Rightarrow> bool"
    and can_open :: "'s \<Rightarrow> bool"
    and room_for :: "'s \<Rightarrow> nat \<Rightarrow> bool"
    and target :: "'s \<Rightarrow> string \<Rightarrow> (string \<times> string) option"
    and parts_of :: "'s \<Rightarrow> string \<Rightarrow> nat \<Rightarrow> bytes option"
    and object :: "'s \<Rightarrow> string \<Rightarrow> bytes option"
  assumes start: "binv s \<Longrightarrow> can_open s \<Longrightarrow>
      \<exists>u s'. be_StartMultipart B now b k hint s = (Inr u, s') \<and> binv s' \<and> target s u = None \<and>
        target s' = (target s)(u \<mapsto> (b, k)) \<and> parts_of s' = parts_of s \<and> object s' = object s"
    and complete_inv: "binv s \<Longrightarrow> room_for s (\<Sum>p\<leftarrow>ps. length (content (parts_of s u (pr_part_number p)))) \<Longrightarrow>
      binv (snd (be_CompleteMultipart B now u ps s))"
    and complete_failed: "binv s \<Longrightarrow>
      room_for s (\<Sum>p\<leftarrow>ps. length (content (parts_of s u (pr_part_number p)))) \<Longrightarrow>
      be_CompleteMultipart B now u ps s = (Inl e, s') \<Longrightarrow>
      target s' = target s \<and> content \<circ> object s' = content \<circ> object s"
    and complete_ok: "binv s \<Longrightarrow>
      room_for s (\<Sum>p\<leftarrow>ps. length (content (parts_of s u (pr_part_number p)))) \<Longrightarrow>
      be_CompleteMultipart B now u ps s = (Inr m, s') \<Longrightarrow>
      \<exists>b k. target s u = Some (b, k) \<and> target s' = (target s)(u := None) \<and>
        object s' = (object s)(MakeKey b k \<mapsto>
          concat (map (\<lambda>pn. content (parts_of s u pn)) (sort (map pr_part_number ps)))) \<and>
        content_length m = (\<Sum>p\<leftarrow>ps. length (content (parts_of s u (pr_part_number p))))"
    and abort: "binv s \<Longrightarrow> binv (snd (be_AbortMultipart B u s)) \<and>
      target (snd (be_AbortMultipart B u s)) = (target s)(u := None) \<and>
      parts_of (snd (be_AbortMultipart B u s)) u = Map.empty \<and>
      object (snd (be_AbortMultipart B u s)) = object s"

interpretation memory_mp: multipart_backend memory_backend memory_backend_inv
  "\<lambda>c. seq_left (cb_index c)" "\<lambda>c. fits (cb_data c)" mpu_targets "\<lambda>c. staged_parts (cb_data c)"
  "\<lambda>c. bodies (cb_data c)"
proof (unfold_locales, goal_cases)
  case (1 s now b k hint)
  then obtain u c' where "CompositeBackend_StartMultipart memory_index_store now b k hint s = (Inr u, c')"
    "memory_backend_inv c'" "mpu_targets s u = None" "mpu_targets c' = (mpu_targets s)(u \<mapsto> (b, k))"
    "cb_data c' = cb_data s"
    using mem.start_run by meson
  then show ?case by auto
next
  case (2 s u ps now)
  then show ?case
    using mem.complete_run(1) [where c = s and ps = ps and u = u, OF _ refl _ surjective_pairing]
    by (simp add: sum_list_sort)
next
  case (3 s u ps now e s')
  then show ?case
    using mem.complete_run(2) [where c = s and ps = ps and u = u, OF _ refl] by (simp add: sum_list_sort)
next
  case (4 s u ps now m s')
  then obtain b k where "mpu_targets s u = Some (b, k)"
    "bodies (cb_data s') = (bodies (cb_data s))(MakeKey b k \<mapsto>
        concat (map (\<lambda>pn. content (staged_parts (cb_data s) u pn)) (sort (map pr_part_number ps))))"
    "m = MakeMeta now (\<Sum>pn\<leftarrow>sort (map pr_part_number ps). length (content (staged_parts (cb_data s) u pn)))"
    "mpu_targets s' = (mpu_targets s)(u := None)"
    using mem.complete_run(3) [where c = s and ps = ps and u = u and c' = s' and now = now and m = m, OF _ refl]
    by (auto simp: sum_list_sort)
  then show ?case by (auto simp: MakeMeta_def sum_list_sort)
next
  case (5 s u)
  then obtain c' where "CompositeBackend_AbortMultipart memory_index_store memory_data_store u s = (Inr True, c')"
    "memory_backend_inv c'" "bodies (cb_data c') = bodies (cb_data s)"
    "staged_parts (cb_data c') = (staged_parts (cb_data s))(u := Map.empty)"
    "mpu_targets c' = (mpu_targets s)(u := None)"
    using mem.abort_run by meson
  then show ?case by simp
qed

section \<open>Registry invariant\<close>

definition fixed :: "MultipartUpload \<Rightarrow> string \<times> string \<times> string \<times> string \<times> string" where
  "fixed u = (upload_id u, u_bucket u, u_object_key u, u_data_flow u, backend_upload_id u)"

definition registry_wf :: "MultipartStore \<Rightarrow> bool" where
  "registry_wf st \<longleftrightarrow> mp_seq st < u64_mod \<and> distinct (map fst (up_by_id st)) \<and>
     (\<forall>(i, r) \<in> set (up_by_id st). r < length (uploads st) \<and> upload_id (uploads st ! r) = i \<and>
        (\<exists>n t. i = upload_id_of n t \<and> n \<le> mp_seq st))"

lemma fixed_eq:
  "fixed u = fixed v \<Longrightarrow> upload_id u = upload_id v \<and> u_bucket u = u_bucket v \<and>
     u_object_key u = u_object_key v \<and> u_data_flow u = u_data_flow v \<and> backend_upload_id u = backend_upload_id v"
  by (simp add: fixed_def)

lemma update_upload_fields [simp]:
  "up_by_id (update_upload r f st) = up_by_id st" "mp_seq (update_upload r f st) = mp_seq st"
  "mp_ttl (update_upload r f st) = mp_ttl st"
  "length (uploads (update_upload r f st)) = length (uploads st)"
  by (simp_all add: update_upload_def)

lemma nth_update_upload:
  "q < length (uploads st) \<Longrightarrow>
   uploads (update_upload r f st) ! q = (if q = r then f (uploads st ! r) else uploads st ! q)"
  by (simp add: update_upload_def nth_list_update)

lemma fixed_update_upload:
  assumes "\<And>u. fixed (f u) = fixed u" "q < length (uploads st)"
  shows "fixed (uploads (update_upload r f st) ! q) = fixed (uploads st ! q)"
  using assms by (simp add: nth_update_upload)

lemma update_upload_fixed:
  assumes "\<And>u. fixed (f u) = fixed u" "q < length (uploads st)"
  shows "upload_id (uploads (update_upload r f st) ! q) = upload_id (uploads st ! q)"
    "u_bucket (uploads (update_upload r f st) ! q) = u_bucket (uploads st ! q)"
    "u_object_key (uploads (update_upload r f st) ! q) = u_object_key (uploads st ! q)"
    "u_data_flow (uploads (update_upload r f st) ! q) = u_data_flow (uploads st ! q)"
    "backend_upload_id (uploads (update_upload r f st) ! q) = backend_upload_id (uploads st ! q)"
  using fixed_eq [OF fixed_update_upload [OF assms]] by blast+

lemma registry_wf_update:
  assumes "registry_wf st" "\<And>u. fixed (f u) = fixed u"
  shows "registry_wf (update_upload r f st)"
  using assms(1) update_upload_fixed(1) [of f _ st r, OF assms(2)] by (auto simp: registry_wf_def)

lemma registry_wf_sub:
  assumes "registry_wf st" "set xs \<subseteq> set (up_by_id st)" "distinct (map fst xs)"
  shows "registry_wf (st\<lparr>up_by_id := xs\<rparr>)"
  using assms by (auto simp: registry_wf_def)

lemma registry_wf_erase: "registry_wf st \<Longrightarrow> registry_wf (snd (MultipartStore_Erase i st))"
  unfolding MultipartStore_Erase_def
  by (auto simp: AList.delete_eq registry_wf_def distinct_map_filter intro!: registry_wf_sub)

lemma registry_wf_sweep: "registry_wf st \<Longrightarrow> registry_wf (snd (snd (MultipartStore_SweepExpired now st)))"
  unfolding MultipartStore_SweepExpired_def
  by (auto simp: Let_def registry_wf_def distinct_map_filter intro!: registry_wf_sub)

definition new_upload_id :: "nat \<Rightarrow> MultipartStore \<Rightarrow> string" where
  "new_upload_id ticks st = upload_id_of (mp_seq st + 1) ticks"

lemma Create_eval:
  assumes "registry_wf st" "mp_seq st + 1 < u64_mod" "MultipartStore_Create ticks now p st = (r, st')"
  shows "r = length (uploads st)" "registry_wf st'"
    "map_of (up_by_id st) (new_upload_id ticks st) = None"
    "up_by_id st' = (new_upload_id ticks st, r) # up_by_id st"
    "uploads st' = uploads st @ [uploads st' ! r]" "upload_id (uploads st' ! r) = new_upload_id ticks st"
    "u_bucket (uploads st' ! r) = cp_bucket p" "u_object_key (uploads st' ! r) = cp_object_key p"
    "u_data_flow (uploads st' ! r) = cp_data_flow p"
    "backend_upload_id (uploads st' ! r) = cp_backend_upload_id p"
    "u_state (uploads st' ! r) = kUpActive" "u_parts (uploads st' ! r) = Map.empty"
proof -
  have fresh: "(upload_id_of (mp_seq st + 1) ticks, q) \<notin> set (up_by_id st)" for q
    using assms(1) by (auto simp: registry_wf_def)
  then have none: "map_of (up_by_id st) (upload_id_of (mp_seq st + 1) ticks) = None"
    by (metis map_of_SomeD not_None_eq)
  then show "map_of (up_by_id st) (new_upload_id ticks st) = None" by (simp add: new_upload_id_def)
  show "r = length (uploads st)" "up_by_id st' = (new_upload_id ticks st, r) # up_by_id st"
    "uploads st' = uploads st @ [uploads st' ! r]" "upload_id (uploads st' ! r) = new_upload_id ticks st"
    "u_bucket (uploads st' ! r) = cp_bucket p" "u_object_key (uploads st' ! r) = cp_object_key p"
    "u_data_flow (uploads st' ! r) = cp_data_flow p"
    "backend_upload_id (uploads st' ! r) = cp_backend_upload_id p"
    "u_state (uploads st' ! r) = kUpActive" "u_parts (uploads st' ! r) = Map.empty"
    using assms(2,3) none
    by (auto simp: MultipartStore_Create_def Let_def u64_add_exact new_upload_id_def)
  show "registry_wf st'"
    using assms fresh none
    by (fastforce simp: MultipartStore_Create_def Let_def u64_add_exact registry_wf_def nth_append)
qed

section \<open>Validation of the part list\<close>

definition part_accepted :: "nat \<Rightarrow> (nat \<rightharpoonup> PartProgress) \<Rightarrow> nat \<Rightarrow> PartRecord \<Rightarrow> bool" where
  "part_accepted min_size recorded n pr \<longleftrightarrow> pr_etag pr \<noteq> [] \<and>
     (\<exists>rp. recorded (pr_part_number pr) = Some rp \<and> pp_etag rp = pr_etag pr \<and>
        (pr_part_number pr \<noteq> n \<longrightarrow> min_size \<le> pp_size rp))"

lemma validate_parts_iff:
  assumes "n = i + length prs" "n < 2 ^ 32"
  shows "validate_parts min_size recorded n i prs = None \<longleftrightarrow>
    map pr_part_number prs = [i + 1..<n + 1] \<and> (\<forall>pr \<in> set prs. part_accepted min_size recorded n pr)"
  using assms
proof (induction prs arbitrary: i)
  case (Cons pr prs)
  have "(i + 1) mod 2 ^ 32 = i + 1" using Cons.prems by simp
  moreover have "[i + 1..<n + 1] = (i + 1) # [i + 2..<n + 1]"
    using Cons.prems(1) upt_conv_Cons [of "i + 1" "n + 1"] by simp
  ultimately show ?case
    using Cons.IH [of "i + 1"] Cons.prems
    by (cases "recorded (i + 1)") (auto simp: part_accepted_def)
qed simp

lemma validate_parts_code: "validate_parts m rcd n i prs = Some e \<Longrightarrow> err_code e = kBadRequest"
  by (induction m rcd n i prs rule: validate_parts.induct)
    (auto simp: bad_request_def split: if_splits option.splits)

definition parts_accepted :: "nat \<Rightarrow> (nat \<rightharpoonup> PartProgress) \<Rightarrow> PartRecord list \<Rightarrow> bool" where
  "parts_accepted min_size recorded ps \<longleftrightarrow>
     sort (map pr_part_number ps) = [1..<length ps + 1] \<and>
     (\<forall>pr \<in> set ps. part_accepted min_size recorded (length ps) pr)"

lemma map_sort_key: "map f (sort_key f xs) = sort (map f xs)"
  by (rule properties_for_sort [symmetric]) (simp_all add: mset_map [symmetric] del: mset_map, simp)

lemma validate_sorted:
  assumes "length ps < 2 ^ 32"
  shows "validate_parts m recorded (length ps) 0 (sort_key pr_part_number ps) = None \<longleftrightarrow>
    parts_accepted m recorded ps"
  using validate_parts_iff [of "length ps" 0 "sort_key pr_part_number ps" m recorded] assms
  by (simp add: parts_accepted_def map_sort_key)

section \<open>Coordinator and backend agree\<close>

definition coordinator_inv ::
  "('s \<Rightarrow> bool) \<Rightarrow> ('s \<Rightarrow> string \<Rightarrow> (string \<times> string) option) \<Rightarrow> 's MultipartCoordinator \<Rightarrow> bool" where
  "coordinator_inv binv target co \<longleftrightarrow> binv (co_backend co) \<and> registry_wf (co_store co) \<and>
     (\<forall>i r. (i, r) \<in> set (up_by_id (co_store co)) \<longrightarrow>
        target (co_backend co) (backend_upload_id (uploads (co_store co) ! r)) =
          Some (u_bucket (uploads (co_store co) ! r), u_object_key (uploads (co_store co) ! r))) \<and>
     (\<forall>i r j q. (i, r) \<in> set (up_by_id (co_store co)) \<longrightarrow> (j, q) \<in> set (up_by_id (co_store co)) \<longrightarrow>
        backend_upload_id (uploads (co_store co) ! r) = backend_upload_id (uploads (co_store co) ! q) \<longrightarrow> i = j)"

lemma find_registered: "MultipartStore_Find uid st = Some r \<Longrightarrow> (uid, r) \<in> set (up_by_id st)"
  by (simp add: MultipartStore_Find_def map_of_SomeD)

lemma wf_entry: "registry_wf st \<Longrightarrow> (i, r) \<in> set (up_by_id st) \<Longrightarrow> r < length (uploads st) \<and> upload_id (uploads st ! r) = i"
  by (auto simp: registry_wf_def)

lemma inv_update:
  assumes "coordinator_inv binv target co" "\<And>u. fixed (f u) = fixed u"
  shows "coordinator_inv binv target (co\<lparr>co_store := update_upload r f (co_store co)\<rparr>)"
proof -
  have wf: "registry_wf (co_store co)" using assms(1) by (simp add: coordinator_inv_def)
  have same: "backend_upload_id (uploads (update_upload r f (co_store co)) ! q) = backend_upload_id (uploads (co_store co) ! q)"
    "u_bucket (uploads (update_upload r f (co_store co)) ! q) = u_bucket (uploads (co_store co) ! q)"
    "u_object_key (uploads (update_upload r f (co_store co)) ! q) = u_object_key (uploads (co_store co) ! q)"
    if "(j, q) \<in> set (up_by_id (co_store co))" for j q
    using wf_entry [OF wf that] update_upload_fixed [of f q "co_store co" r, OF assms(2)] by auto
  show ?thesis
    using assms(1) registry_wf_update [OF wf assms(2), of r] same
    by (simp add: coordinator_inv_def)
qed

text \<open>Dropping an upload from both sides.\<close>

lemma inv_drop:
  assumes "coordinator_inv binv target co" "(uid, r) \<in> set (up_by_id (co_store co))"
    and "binv b" "target b = (target (co_backend co))(backend_upload_id (uploads (co_store co) ! r) := None)"
  shows "coordinator_inv binv target
    (co\<lparr>co_backend := b, co_store := snd (MultipartStore_Erase uid (co_store co))\<rparr>)"
proof -
  have wf: "registry_wf (snd (MultipartStore_Erase uid (co_store co)))"
    using assms(1) registry_wf_erase by (simp add: coordinator_inv_def)
  have "backend_upload_id (uploads (co_store co) ! q) \<noteq> backend_upload_id (uploads (co_store co) ! r)"
    if "(j, q) \<in> set (up_by_id (co_store co))" "j \<noteq> uid" for j q
    using that assms(1,2) unfolding coordinator_inv_def by blast
  then show ?thesis
    using assms wf by (auto simp: coordinator_inv_def MultipartStore_Erase_def AList.delete_eq)
qed

text \<open>The sweeper's references are no longer registered, and no registered upload shares a
  backend upload with them.\<close>

definition detached :: "'s MultipartCoordinator \<Rightarrow> uref \<Rightarrow> bool" where
  "detached co r \<longleftrightarrow> r < length (uploads (co_store co)) \<and>
     (\<forall>j q. (j, q) \<in> set (up_by_id (co_store co)) \<longrightarrow>
        backend_upload_id (uploads (co_store co) ! q) \<noteq> backend_upload_id (uploads (co_store co) ! r))"

lemma sweep_registry:
  assumes "registry_wf st" "MultipartStore_SweepExpired now st = (n, rs, st')"
  shows "set (up_by_id st') \<subseteq> set (up_by_id st)" "uploads st' = uploads st"
    "\<forall>r \<in> set rs. \<exists>i. (i, r) \<in> set (up_by_id st) \<and> (\<forall>j. (i, j) \<notin> set (up_by_id st'))"
proof -
  let ?idle = "\<lambda>r. idle_too_long now (mp_ttl st) (uploads st ! r)"
  have eqs: "rs = [] \<and> st' = st \<or>
      rs = map snd (filter (\<lambda>(i, r). ?idle r) (up_by_id st)) \<and>
      st' = st\<lparr>up_by_id := filter (\<lambda>(i, r). \<not> ?idle r) (up_by_id st)\<rparr>"
    using assms(2) unfolding MultipartStore_SweepExpired_def Let_def by (simp split: if_splits)
  then show "set (up_by_id st') \<subseteq> set (up_by_id st)" "uploads st' = uploads st" by auto
  have uniq: "(i, q) \<in> set (up_by_id st) \<Longrightarrow> (i, r) \<in> set (up_by_id st) \<Longrightarrow> q = r" for i q r
    using assms(1) by (auto simp: registry_wf_def dest: eq_key_imp_eq_value)
  show "\<forall>r \<in> set rs. \<exists>i. (i, r) \<in> set (up_by_id st) \<and> (\<forall>j. (i, j) \<notin> set (up_by_id st'))"
    using eqs
  proof
    assume e: "rs = map snd (filter (\<lambda>(i, r). ?idle r) (up_by_id st)) \<and>
      st' = st\<lparr>up_by_id := filter (\<lambda>(i, r). \<not> ?idle r) (up_by_id st)\<rparr>"
    show ?thesis
    proof
      fix r assume "r \<in> set rs"
      then obtain i where i: "(i, r) \<in> set (up_by_id st)" "?idle r" using e by auto
      then have "(i, j) \<notin> set (up_by_id st')" for j using e uniq [OF _ i(1), of j] by auto
      then show "\<exists>i. (i, r) \<in> set (up_by_id st) \<and> (\<forall>j. (i, j) \<notin> set (up_by_id st'))" using i(1) by blast
    qed
  qed simp
qed

lemma rollback_id:
  assumes "r < length (uploads st)" "u_state (uploads st ! r) = kUpActive"
  shows "update_upload r (\<lambda>u. u\<lparr>u_state := kUpActive\<rparr>)
    (update_upload r (\<lambda>u. u\<lparr>u_state := kUpCompleting\<rparr>) st) = st"
proof -
  have "(uploads st ! r)\<lparr>u_state := kUpActive\<rparr> = uploads st ! r" using assms(2) by simp
  then show ?thesis using assms(1) by (simp add: update_upload_def)
qed

lemma claim_cases:
  assumes "complete_claim uid ps dp st = (res, st')" "MultipartStore_Find uid st = Some r"
  shows "(\<exists>e. res = Inl e \<and> st' = st) \<or>
    (res = Inr r \<and> ps \<noteq> [] \<and> u_data_flow (uploads st ! r) = dp \<and> u_state (uploads st ! r) = kUpActive \<and>
     st' = update_upload r (\<lambda>u. u\<lparr>u_state := kUpCompleting\<rparr>) st)"
  using assms by (auto simp: complete_claim_def Let_def split: if_splits)

text \<open>What a successful completion has checked, and the call of the backend it ended with.\<close>

lemma complete_checked:
  assumes "CompleteUpload B now uid ps dp co = (Inr m, co')" "length ps < 2 ^ 32"
  shows "\<exists>r. MultipartStore_Find uid (co_store co) = Some r \<and> parts_accepted (min_part_size co) (u_parts (uploads (co_store co) ! r)) ps \<and>
    be_CompleteMultipart B now (backend_upload_id (uploads (co_store co) ! r)) ps (co_backend co) = (Inr m, co_backend co')"
proof -
  obtain r where r: "MultipartStore_Find uid (co_store co) = Some r"
    using assms(1) by (auto simp: CompleteUpload_def complete_claim_def split: if_splits option.splits)
  let ?st = "update_upload r (\<lambda>u. u\<lparr>u_state := kUpCompleting\<rparr>) (co_store co)"
  have run: "complete_finish B now r (u_parts (uploads (co_store co) ! r)) ps (co\<lparr>co_store := ?st\<rparr>) = (Inr m, co')"
    using assms(1) r by (auto simp: CompleteUpload_def complete_claim_def Let_def split: if_splits)
  have "backend_upload_id (uploads ?st ! r) = backend_upload_id (uploads (co_store co) ! r)"
    by (cases "r < length (uploads (co_store co))") (simp_all add: update_upload_def list_update_beyond)
  then show ?thesis
    using run r validate_sorted [OF assms(2)]
    by (auto simp: complete_finish_def Let_def split: option.splits sum.splits prod.splits)
qed

context multipart_backend
begin

abbreviation co_ok :: "'s MultipartCoordinator \<Rightarrow> bool" where
  "co_ok \<equiv> coordinator_inv binv target"

lemma create_ok:
  assumes "co_ok co" "can_open (co_backend co)" "mp_seq (co_store co) + 1 < u64_mod"
  shows "\<exists>co' r. CreateUpload B now params co =
      (Inr \<lparr>sur_upload_id = new_upload_id now (co_store co), sur_max_part_size = max_part_size co\<rparr>, co') \<and>
    co_ok co' \<and> MultipartStore_Find (new_upload_id now (co_store co)) (co_store co) = None \<and>
    MultipartStore_Find (new_upload_id now (co_store co)) (co_store co') = Some r \<and>
    u_state (uploads (co_store co') ! r) = kUpActive \<and> u_parts (uploads (co_store co') ! r) = Map.empty \<and>
    u_data_flow (uploads (co_store co') ! r) = sup_data_flow params \<and>
    target (co_backend co') (backend_upload_id (uploads (co_store co') ! r)) =
      Some (sup_bucket params, sup_object_key params) \<and>
    target (co_backend co) (backend_upload_id (uploads (co_store co') ! r)) = None \<and>
    parts_of (co_backend co') = parts_of (co_backend co) \<and> object (co_backend co') = object (co_backend co)"
proof -
  let ?st = "co_store co"
  have bi: "binv (co_backend co)" and wf: "registry_wf ?st" using assms(1) by (simp_all add: coordinator_inv_def)
  from start [OF bi assms(2)] obtain bu b where
    b: "be_StartMultipart B now (sup_bucket params) (sup_object_key params) (sup_expected_total_size params)
          (co_backend co) = (Inr bu, b)" "binv b" "target (co_backend co) bu = None"
      "target b = (target (co_backend co))(bu \<mapsto> (sup_bucket params, sup_object_key params))"
      "object b = object (co_backend co)" "parts_of b = parts_of (co_backend co)"
    by blast
  define cp where "cp = \<lparr>cp_bucket = sup_bucket params, cp_object_key = sup_object_key params,
      cp_data_flow = sup_data_flow params, cp_expected_total_size = sup_expected_total_size params,
      cp_backend_upload_id = bu\<rparr>"
  obtain r st' where rs: "MultipartStore_Create now now cp ?st = (r, st')" by fastforce
  note c = Create_eval [OF wf assms(3) rs]
  define co' where "co' = co\<lparr>co_backend := b, co_store := st'\<rparr>"
  have old: "uploads st' ! q = uploads ?st ! q" if "(j, q) \<in> set (up_by_id ?st)" for j q
    using wf_entry [OF wf that] c(5) by (metis nth_append)
  have old_bu: "backend_upload_id (uploads ?st ! q) \<noteq> bu" if "(j, q) \<in> set (up_by_id ?st)" for j q
    using assms(1) that b(3) by (fastforce simp: coordinator_inv_def)
  have cpf: "cp_bucket cp = sup_bucket params" "cp_object_key cp = sup_object_key params"
      "cp_data_flow cp = sup_data_flow params" "cp_backend_upload_id cp = bu" by (simp_all add: cp_def)
  have "co_ok co'"
    using assms(1) b c old old_bu cpf
    unfolding coordinator_inv_def co'_def by auto
  moreover have "CreateUpload B now params co =
      (Inr \<lparr>sur_upload_id = new_upload_id now ?st, sur_max_part_size = max_part_size co\<rparr>, co')"
    using b(1) rs c(6) by (simp add: CreateUpload_def co'_def cp_def)
  moreover have "MultipartStore_Find (new_upload_id now ?st) ?st = None"
      "MultipartStore_Find (new_upload_id now ?st) (co_store co') = Some r"
    using c(3,4) by (simp_all add: MultipartStore_Find_def co'_def)
  moreover have "u_state (uploads (co_store co') ! r) = kUpActive" "u_parts (uploads (co_store co') ! r) = Map.empty"
      "u_data_flow (uploads (co_store co') ! r) = sup_data_flow params"
      "target (co_backend co') (backend_upload_id (uploads (co_store co') ! r)) =
        Some (sup_bucket params, sup_object_key params)" "object (co_backend co') = object (co_backend co)"
      "target (co_backend co) (backend_upload_id (uploads (co_store co') ! r)) = None"
      "parts_of (co_backend co') = parts_of (co_backend co)"
    using c b cpf by (simp_all add: co'_def)
  ultimately show ?thesis by blast
qed

lemma abort_ok:
  assumes "co_ok co" "AbortUpload B uid dp co = (r, co')"
  shows "co_ok co'" "object (co_backend co') = object (co_backend co)"
    "r = Inr True \<Longrightarrow> MultipartStore_Find uid (co_store co') = None"
proof -
  have "co_ok co' \<and> object (co_backend co') = object (co_backend co) \<and>
    (r = Inr True \<longrightarrow> MultipartStore_Find uid (co_store co') = None)"
  proof (cases "MultipartStore_Find uid (co_store co)")
    case None
    then show ?thesis using assms by (auto simp: AbortUpload_def)
  next
    case (Some q)
    let ?u = "uploads (co_store co) ! q"
    have reg: "(uid, q) \<in> set (up_by_id (co_store co))" by (rule find_registered [OF Some])
    have wf: "registry_wf (co_store co)" "binv (co_backend co)" using assms(1) by (simp_all add: coordinator_inv_def)
    have q: "q < length (uploads (co_store co))" "upload_id ?u = uid" using wf_entry [OF wf(1) reg] by auto
    show ?thesis
    proof (cases "u_data_flow ?u = dp")
      case False
      then show ?thesis using assms Some by (auto simp: AbortUpload_def Let_def)
    next
      case True
      let ?b = "snd (be_AbortMultipart B (backend_upload_id ?u) (co_backend co))"
      let ?co = "co\<lparr>co_store := update_upload q (\<lambda>u. u\<lparr>u_state := kUpAborted\<rparr>) (co_store co)\<rparr>"
      have co': "co' = ?co\<lparr>co_backend := ?b, co_store := snd (MultipartStore_Erase uid (co_store ?co))\<rparr>" "r = Inr True"
        using assms(2) Some True q by (auto simp: AbortUpload_def Let_def)
      have inv: "co_ok ?co" by (rule inv_update [OF assms(1)]) (simp add: fixed_def)
      have "backend_upload_id (uploads (co_store ?co) ! q) = backend_upload_id ?u"
        using q by (simp add: nth_update_upload)
      then have "co_ok co'"
        unfolding co' using reg abort [OF wf(2), of "backend_upload_id ?u"]
        by (intro inv_drop [OF inv, of uid q]) simp_all
      then show ?thesis
        using abort [OF wf(2)] co' by (simp add: MultipartStore_Find_def MultipartStore_Erase_def AList.delete_conv')
    qed
  qed
  then show "co_ok co'" "object (co_backend co') = object (co_backend co)"
    "r = Inr True \<Longrightarrow> MultipartStore_Find uid (co_store co') = None" by blast+
qed

lemma register_ok: "co_ok co \<Longrightarrow> co_ok (RegisterPart now r pn off sz e co)"
  unfolding RegisterPart_def by (rule inv_update) (simp_all add: fixed_def)

lemma completed_run:
  assumes "co_ok co" "(uid, r) \<in> set (up_by_id (co_store co))" "parts_accepted mn us ps"
    and "room_for (co_backend co) (\<Sum>p\<leftarrow>ps. length (content
       (parts_of (co_backend co) (backend_upload_id (uploads (co_store co) ! r)) (pr_part_number p))))"
    and "be_CompleteMultipart B now (backend_upload_id (uploads (co_store co) ! r)) ps (co_backend co) = (Inr m, b)"
    and "st = update_upload r (\<lambda>u. u\<lparr>u_state := kUpCompleted\<rparr>) (update_upload r (\<lambda>u. u\<lparr>u_state := kUpCompleting\<rparr>) (co_store co))"
    and "co' = co\<lparr>co_backend := b, co_store := snd (MultipartStore_Erase uid st)\<rparr>"
  shows "co_ok co'" "MultipartStore_Find uid (co_store co') = None"
    "object b = (object (co_backend co))
        (MakeKey (u_bucket (uploads (co_store co) ! r)) (u_object_key (uploads (co_store co) ! r)) \<mapsto>
          concat (map (\<lambda>pn. content (parts_of (co_backend co)
              (backend_upload_id (uploads (co_store co) ! r)) pn)) [1..<length ps + 1]))"
    "content_length m = (\<Sum>p\<leftarrow>ps. length (content
       (parts_of (co_backend co) (backend_upload_id (uploads (co_store co) ! r)) (pr_part_number p))))"
proof -
  let ?u = "uploads (co_store co) ! r"
  have bi: "binv (co_backend co)" and wf: "registry_wf (co_store co)" using assms(1) by (simp_all add: coordinator_inv_def)
  have r: "r < length (uploads (co_store co))" using wf_entry [OF wf assms(2)] by auto
  have tgt: "target (co_backend co) (backend_upload_id ?u) = Some (u_bucket ?u, u_object_key ?u)"
    using assms(1,2) by (simp add: coordinator_inv_def)
  have binv: "binv b" using complete_inv [OF bi assms(4), of now] assms(5) by simp
  show "object b = (object (co_backend co))(MakeKey (u_bucket ?u) (u_object_key ?u) \<mapsto>
          concat (map (\<lambda>pn. content (parts_of (co_backend co) (backend_upload_id ?u) pn)) [1..<length ps + 1]))"
    "content_length m = (\<Sum>p\<leftarrow>ps. length (content (parts_of (co_backend co) (backend_upload_id ?u) (pr_part_number p))))"
    using complete_ok [OF bi assms(4), of now m b] assms(3,5) tgt by (auto simp: parts_accepted_def)
  have eff: "target b = (target (co_backend co))(backend_upload_id ?u := None)"
    using complete_ok [OF bi assms(4), of now m b] assms(3,5) tgt by (auto simp: parts_accepted_def)
  have "co_ok (co\<lparr>co_store := update_upload r (\<lambda>u. u\<lparr>u_state := kUpCompleting\<rparr>) (co_store co)\<rparr>)"
    by (rule inv_update [OF assms(1)]) (simp add: fixed_def)
  from inv_update [OF this, of "\<lambda>u. u\<lparr>u_state := kUpCompleted\<rparr>" r]
  have inv: "co_ok (co\<lparr>co_store := st\<rparr>)" by (simp add: assms(6) fixed_def)
  have "backend_upload_id (uploads st ! r) = backend_upload_id ?u" using r by (simp add: assms(6) nth_update_upload)
  then have "co_ok ((co\<lparr>co_store := st\<rparr>)\<lparr>co_backend := b, co_store := snd (MultipartStore_Erase uid (co_store (co\<lparr>co_store := st\<rparr>)))\<rparr>)"
    by (intro inv_drop [OF inv, of uid r]) (use assms(2,6) binv eff in simp_all)
  then show "co_ok co'" by (simp add: assms(7))
  show "MultipartStore_Find uid (co_store co') = None"
    by (simp add: assms(7) MultipartStore_Find_def MultipartStore_Erase_def AList.delete_conv')
qed

lemma complete_run:
  assumes "co_ok co" "MultipartStore_Find uid (co_store co) = Some r" "length ps < 2 ^ 32"
    and "room_for (co_backend co) (\<Sum>p\<leftarrow>ps. length (content
       (parts_of (co_backend co) (backend_upload_id (uploads (co_store co) ! r)) (pr_part_number p))))"
    and "CompleteUpload B now uid ps dp co = (res, co')"
  shows "co_ok co'"
    and "res = Inl e \<Longrightarrow> content \<circ> object (co_backend co') = content \<circ> object (co_backend co) \<and>
      up_by_id (co_store co') = up_by_id (co_store co) \<and>
      uploads (co_store co') = uploads (co_store co)"
    and "res = Inr m \<Longrightarrow>
      parts_accepted (min_part_size co) (u_parts (uploads (co_store co) ! r)) ps \<and>
      u_state (uploads (co_store co) ! r) = kUpActive \<and> u_data_flow (uploads (co_store co) ! r) = dp \<and>
      object (co_backend co') = (object (co_backend co))
        (MakeKey (u_bucket (uploads (co_store co) ! r)) (u_object_key (uploads (co_store co) ! r)) \<mapsto>
          concat (map (\<lambda>pn. content (parts_of (co_backend co)
              (backend_upload_id (uploads (co_store co) ! r)) pn)) [1..<length ps + 1])) \<and>
      content_length m = (\<Sum>p\<leftarrow>ps. length (content
       (parts_of (co_backend co) (backend_upload_id (uploads (co_store co) ! r)) (pr_part_number p)))) \<and>
      MultipartStore_Find uid (co_store co') = None"
proof -
  let ?st = "co_store co"
  let ?u = "uploads ?st ! r"
  let ?n = "\<Sum>p\<leftarrow>ps. length (content (parts_of (co_backend co) (backend_upload_id ?u) (pr_part_number p)))"
  let ?obj = "concat (map (\<lambda>pn. content (parts_of (co_backend co) (backend_upload_id ?u) pn)) [1..<length ps + 1])"
  let ?fail = "content \<circ> object (co_backend co') = content \<circ> object (co_backend co) \<and>
      up_by_id (co_store co') = up_by_id ?st \<and> uploads (co_store co') = uploads ?st"
  let ?good = "\<lambda>m. parts_accepted (min_part_size co) (u_parts ?u) ps \<and>
      u_state ?u = kUpActive \<and> u_data_flow ?u = dp \<and>
      object (co_backend co') = (object (co_backend co))(MakeKey (u_bucket ?u) (u_object_key ?u) \<mapsto> ?obj) \<and>
      content_length m = ?n \<and> MultipartStore_Find uid (co_store co') = None"
  have bi: "binv (co_backend co)" and wf: "registry_wf ?st" using assms(1) by (simp_all add: coordinator_inv_def)
  have reg: "(uid, r) \<in> set (up_by_id ?st)" by (rule find_registered [OF assms(2)])
  have r: "r < length (uploads ?st)" "upload_id ?u = uid" using wf_entry [OF wf reg] by auto
  obtain cl st1 where cl: "complete_claim uid ps dp ?st = (cl, st1)" by fastforce
  have "co_ok co' \<and> ((\<exists>e. res = Inl e \<and> ?fail) \<or> (\<exists>m. res = Inr m \<and> ?good m))"
    using claim_cases [OF cl assms(2)]
  proof (elim disjE exE conjE)
    fix e assume "cl = Inl e" "st1 = ?st"
    then show ?thesis using assms(1,5) cl by (auto simp: CompleteUpload_def)
  next
    assume claimed: "cl = Inr r" "u_data_flow ?u = dp" "u_state ?u = kUpActive"
      and st1: "st1 = update_upload r (\<lambda>u. u\<lparr>u_state := kUpCompleting\<rparr>) ?st"
    have run: "complete_finish B now r (u_parts ?u) ps (co\<lparr>co_store := st1\<rparr>) = (res, co')"
      using assms(5) cl claimed(1) by (simp add: CompleteUpload_def)
    have bu: "backend_upload_id (uploads st1 ! r) = backend_upload_id ?u" "upload_id (uploads st1 ! r) = uid"
      using r st1 by (simp_all add: nth_update_upload)
    have undone: "update_upload r (\<lambda>u. u\<lparr>u_state := kUpActive\<rparr>) st1 = ?st"
      unfolding st1 by (rule rollback_id [OF r(1) claimed(3)])
    show ?thesis
    proof (cases "validate_parts (min_part_size co) (u_parts ?u) (length ps) 0 (sort_key pr_part_number ps)")
      case (Some e)
      then show ?thesis using run undone assms(1) by (auto simp: complete_finish_def Let_def)
    next
      case None
      then have acc: "parts_accepted (min_part_size co) (u_parts ?u) ps"
        using validate_sorted [OF assms(3)] by blast
      obtain q b where qb: "be_CompleteMultipart B now (backend_upload_id ?u) ps (co_backend co) = (q, b)" by fastforce
      show ?thesis
      proof (cases q)
        case (Inl e)
        have "binv b" using complete_inv [OF bi assms(4), of now] qb by simp
        moreover have "co' = co\<lparr>co_backend := b\<rparr>" "res = Inl e"
          using run None qb Inl bu(1) undone by (auto simp: complete_finish_def Let_def)
        ultimately show ?thesis
          using complete_failed [OF bi assms(4), of now e b] qb Inl assms(1) by (auto simp: coordinator_inv_def)
      next
        case (Inr m)
        let ?st' = "update_upload r (\<lambda>u. u\<lparr>u_state := kUpCompleted\<rparr>) st1"
        have co': "co' = co\<lparr>co_backend := b, co_store := snd (MultipartStore_Erase uid ?st')\<rparr>" "res = Inr m"
          using run None qb Inr bu by (auto simp: complete_finish_def Let_def)
        show ?thesis
          using completed_run [OF assms(1) reg acc assms(4) qb [unfolded Inr] _ co'(1)] st1 co' acc claimed by auto
      qed
    qed
  qed
  then show "co_ok co'" "res = Inl e \<Longrightarrow> ?fail" "res = Inr m \<Longrightarrow> ?good m" by auto
qed

lemma sweep_abort_ok:
  assumes "co_ok co" "detached co r"
  shows "co_ok (sweep_abort B r co)" "detached co q \<Longrightarrow> detached (sweep_abort B r co) q"
    "object (co_backend (sweep_abort B r co)) = object (co_backend co)"
proof -
  let ?co = "co\<lparr>co_store := update_upload r (\<lambda>u. u\<lparr>u_state := kUpAborted\<rparr>) (co_store co)\<rparr>"
  let ?bid = "backend_upload_id (uploads (co_store co) ! r)"
  have inv: "co_ok ?co" by (rule inv_update [OF assms(1)]) (simp add: fixed_def)
  have bi: "binv (co_backend co)" using assms(1) by (simp add: coordinator_inv_def)
  note ab = abort [OF bi, of ?bid]
  have wf: "registry_wf (co_store co)" using assms(1) by (simp add: coordinator_inv_def)
  have same: "backend_upload_id (uploads (co_store ?co) ! q) = backend_upload_id (uploads (co_store co) ! q)"
    if "q < length (uploads (co_store co))" for q
    using that by (simp add: nth_update_upload)
  have other: "backend_upload_id (uploads (co_store ?co) ! q) \<noteq> ?bid"
    if "(j, q) \<in> set (up_by_id (co_store co))" for j q
    using that assms(2) same wf_entry [OF wf that] by (auto simp: detached_def)
  have eq: "sweep_abort B r co = (if ?bid = [] then ?co
      else ?co\<lparr>co_backend := snd (be_AbortMultipart B ?bid (co_backend co))\<rparr>)"
    by (simp add: sweep_abort_def AbortBackend_def Let_def)
  show "co_ok (sweep_abort B r co)"
    using inv ab other unfolding eq by (auto simp: coordinator_inv_def)
  show "object (co_backend (sweep_abort B r co)) = object (co_backend co)"
    using ab unfolding eq by simp
  show "detached co q \<Longrightarrow> detached (sweep_abort B r co) q"
    using same wf_entry [OF wf] unfolding eq by (auto simp: detached_def)
qed

lemma sweep_fold_ok:
  "co_ok co \<Longrightarrow> \<forall>r \<in> set rs. detached co r \<Longrightarrow>
   co_ok (fold (sweep_abort B) rs co) \<and> object (co_backend (fold (sweep_abort B) rs co)) = object (co_backend co)"
  by (induction rs arbitrary: co) (simp_all add: sweep_abort_ok)

lemma sweep_ok:
  assumes "co_ok co"
  shows "co_ok (snd (sweep_uploads B now co))"
    "object (co_backend (snd (sweep_uploads B now co))) = object (co_backend co)"
proof -
  obtain n rs st where s: "MultipartStore_SweepExpired now (co_store co) = (n, rs, st)" by (metis prod_cases3)
  have wf: "registry_wf (co_store co)" "registry_wf st"
    using assms registry_wf_sweep [of "co_store co" now] s by (auto simp: coordinator_inv_def)
  note st = sweep_registry [OF wf(1) s]
  have inv: "co_ok (co\<lparr>co_store := st\<rparr>)"
    using assms wf(2) st(1,2) unfolding coordinator_inv_def by (simp, blast)
  have "detached (co\<lparr>co_store := st\<rparr>) r" if "r \<in> set rs" for r
    using st that assms wf_entry [OF wf(1)] unfolding detached_def coordinator_inv_def by (simp, blast)
  then show "co_ok (snd (sweep_uploads B now co))"
    "object (co_backend (snd (sweep_uploads B now co))) = object (co_backend co)"
    using sweep_fold_ok [OF inv, of rs] s by (auto simp: sweep_uploads_def)
qed

end

section \<open>Concurrent completion\<close>

text \<open>What other callers may do to the registry between the claim of a completion and its end,
  short of aborting or sweeping the upload.\<close>

inductive other_caller :: "MultipartStore \<Rightarrow> MultipartStore \<Rightarrow> bool" where
  opens: "other_caller st (snd (MultipartStore_Create ticks now p st))"
| claims: "other_caller st (snd (complete_claim uid ps dp st))"
| touches: "other_caller st (MultipartStore_Touch r now st)"
| registers: "other_caller st (update_upload r (\<lambda>u. u\<lparr>u_parts := (u_parts u)(pn \<mapsto> pp), last_activity_at := now\<rparr>) st)"

lemma other_caller_keeps:
  assumes "other_caller st st'" "r < length (uploads st)" "u_state (uploads st ! r) = kUpCompleting"
  shows "r < length (uploads st') \<and> u_state (uploads st' ! r) = kUpCompleting"
  using assms
proof (induction rule: other_caller.induct)
  case (claims st uid ps dp)
  then show ?case
    by (auto simp: complete_claim_def Let_def nth_update_upload split: option.splits)
qed (auto simp: MultipartStore_Create_def MultipartStore_Touch_def nth_update_upload nth_append Let_def)

lemma other_callers_keep:
  assumes "other_caller\<^sup>*\<^sup>* st st'" "r < length (uploads st)" "u_state (uploads st ! r) = kUpCompleting"
  shows "u_state (uploads st' ! r) = kUpCompleting"
proof -
  from assms have "r < length (uploads st') \<and> u_state (uploads st' ! r) = kUpCompleting"
    by (induction rule: rtranclp_induct) (auto dest: other_caller_keeps)
  then show ?thesis ..
qed

lemma claim_active:
  "complete_claim uid ps dp st = (Inr r, st') \<Longrightarrow> MultipartStore_Find uid st = Some r \<and>
   u_state (uploads st ! r) = kUpActive \<and> st' = update_upload r (\<lambda>u. u\<lparr>u_state := kUpCompleting\<rparr>) st"
  by (auto simp: complete_claim_def Let_def split: if_splits option.splits)

section \<open>Histories of a coordinator over the memory backend\<close>

type_synonym MemoryCoordinator = "MemoryBackend MultipartCoordinator"

definition MemoryCoordinator_init :: "nat \<Rightarrow> nat \<Rightarrow> nat \<Rightarrow> nat \<Rightarrow> MemoryCoordinator" where
  "MemoryCoordinator_init cap ttl max_size min_size =
     \<lparr>co_backend = MemoryBackend_init cap, co_store = MultipartStore_init ttl,
      max_part_size = max_size, min_part_size = min_size\<rparr>"

definition memory_coordinator_inv :: "MemoryCoordinator \<Rightarrow> bool" where
  "memory_coordinator_inv = coordinator_inv memory_backend_inv mpu_targets"

text \<open>Bytes staged for the listed parts of an upload.\<close>

definition staged_bytes :: "MemoryCoordinator \<Rightarrow> string \<Rightarrow> PartRecord list \<Rightarrow> nat" where
  "staged_bytes co bid ps = (\<Sum>p\<leftarrow>ps. length (content (staged_parts (cb_data (co_backend co)) bid (pr_part_number p))))"

inductive coordinator_reach :: "MemoryCoordinator \<Rightarrow> bool" where
  init: "cap < u64_mod \<Longrightarrow> coordinator_reach (MemoryCoordinator_init cap ttl mx mn)"
| create: "coordinator_reach co \<Longrightarrow> mpu_seq (cb_index (co_backend co)) + 1 < u64_mod \<Longrightarrow>
    mp_seq (co_store co) + 1 < u64_mod \<Longrightarrow> coordinator_reach (snd (CreateUpload memory_backend now params co))"
| stage: "coordinator_reach co \<Longrightarrow> fits (cb_data (co_backend co)) (off + length src) \<Longrightarrow>
    coordinator_reach (co\<lparr>co_backend := snd (be_WritePart memory_backend now u pn off src (co_backend co))\<rparr>)"
| register: "coordinator_reach co \<Longrightarrow> coordinator_reach (RegisterPart now r pn off sz e co)"
| complete: "coordinator_reach co \<Longrightarrow> length ps < 2 ^ 32 \<Longrightarrow>
    (\<forall>bid. fits (cb_data (co_backend co)) (staged_bytes co bid ps)) \<Longrightarrow>
    coordinator_reach (snd (CompleteUpload memory_backend now uid ps dp co))"
| abort: "coordinator_reach co \<Longrightarrow> coordinator_reach (snd (AbortUpload memory_backend uid dp co))"
| sweep: "coordinator_reach co \<Longrightarrow> coordinator_reach (snd (sweep_uploads memory_backend now co))"

lemma coordinator_reach_inv: "coordinator_reach co \<Longrightarrow> memory_coordinator_inv co"
  unfolding memory_coordinator_inv_def
proof (induction rule: coordinator_reach.induct)
  case (init cap ttl mx mn)
  then show ?case
    using memory_backend_init_inv
    by (simp add: coordinator_inv_def MemoryCoordinator_init_def MultipartStore_init_def registry_wf_def)
next
  case (create co now params)
  then show ?case
    using memory_mp.create_ok [of co now params] by (auto simp: seq_left_def)
next
  case (stage co off src now u pn)
  then have "memory_backend_inv (co_backend co)" by (simp add: coordinator_inv_def)
  note w = mem.write_part_run(1,2) [OF this stage.hyps(2) surjective_pairing]
  show ?case using stage.IH w by (simp add: coordinator_inv_def)
next
  case (register co now r pn off sz e)
  then show ?case by (simp add: memory_mp.register_ok)
next
  case (complete co ps now uid dp)
  show ?case
  proof (cases "MultipartStore_Find uid (co_store co)")
    case None
    then show ?thesis
      using complete.IH by (auto simp: CompleteUpload_def complete_claim_def)
  next
    case (Some r)
    then show ?thesis
      using memory_mp.complete_run(1) [OF complete.IH Some complete.hyps(2) _ surjective_pairing]
        complete.hyps(3) by (simp add: staged_bytes_def)
  qed
next
  case (abort co uid dp)
  then show ?case using memory_mp.abort_ok(1) [OF _ surjective_pairing] by blast
next
  case (sweep co now)
  then show ?case using memory_mp.sweep_ok(1) by blast
qed

section \<open>An upload of two parts\<close>

text \<open>The example state the witnesses use: an upload of object \<^verbatim>\<open>b/k\<close> whose part 2 was staged
  before its part 1.\<close>

definition example_upload_params :: StartUploadParams where
  "example_upload_params = \<lparr>sup_bucket = ''b'', sup_object_key = ''k'', sup_expected_total_size = None,
     sup_data_flow = ''gpu-direct'', sup_idempotency_key = []\<rparr>"

definition example_stage :: "nat \<Rightarrow> bytes \<Rightarrow> string \<Rightarrow> MemoryCoordinator \<Rightarrow> MemoryCoordinator" where
  "example_stage pn src e co =
     RegisterPart 6 0 pn 0 (length src) e
       (co\<lparr>co_backend := snd (be_WritePart memory_backend 6 ''mpu-1-5'' pn 0 src (co_backend co))\<rparr>)"

definition example_opened :: MemoryCoordinator where
  "example_opened = snd (CreateUpload memory_backend 5 example_upload_params (MemoryCoordinator_init 100 60 1000 2))"

definition example_staged :: MemoryCoordinator where
  "example_staged = example_stage 1 [1, 2] ''e1'' (example_stage 2 [3] ''e2'' example_opened)"

definition example_list :: "PartRecord list" where
  "example_list = [\<lparr>pr_part_number = 2, pr_etag = ''e2''\<rparr>, \<lparr>pr_part_number = 1, pr_etag = ''e1''\<rparr>]"

lemmas upload_evals = example_upload_params_def example_stage_def example_opened_def
  MemoryCoordinator_init_def MultipartStore_init_def CreateUpload_def MultipartStore_Create_def RegisterPart_def
  update_upload_def CompositeBackend_StartMultipart_def MemoryIndexStore_StartMultipart_def
  CompositeBackend_WritePart_def MemoryDataStore_WritePart_def mpu_at_def part_at_def set_part_def empty_mpu_def
  upload_id_of_def print_base.simps digit_char_simps backend_evals u64_sub_def

lemmas complete_evals = CompleteUpload_def complete_claim_def complete_finish_def MultipartStore_Find_def
  CompositeBackend_CompleteMultipart_def MemoryDataStore_AssembleObject_def MemoryIndexStore_CommitMultipart_def
  assembled_def MultipartStore_Erase_def AList.delete_eq example_list_def example_staged_def upload_evals

lemma example_staged_facts:
  "MultipartStore_Find ''mpu-1-5'' (co_store example_staged) = Some 0"
  "backend_upload_id (uploads (co_store example_staged) ! 0) = ''mpu-1-5''"
  "u_bucket (uploads (co_store example_staged) ! 0) = ''b''"
  "u_object_key (uploads (co_store example_staged) ! 0) = ''k''"
  "staged_bytes example_staged ''mpu-1-5'' example_list = 3"
  "fits (cb_data (co_backend example_staged)) 3"
  "staged_parts (cb_data (co_backend example_staged)) ''mpu-1-5'' 1 = Some [1, 2]"
  "staged_parts (cb_data (co_backend example_staged)) ''mpu-1-5'' 2 = Some [3]"
  by (simp_all add: MultipartStore_Find_def staged_bytes_def staged_parts_def fits_def example_list_def
      example_staged_def upload_evals)

lemma example_list_length: "length example_list = 2" "length example_list < 2 ^ 32"
  by (simp_all add: example_list_def)

lemma example_staged_reach: "coordinator_reach example_staged"
proof -
  have "coordinator_reach (MemoryCoordinator_init 100 60 1000 2)"
    by (rule coordinator_reach.init) (simp add: u64_mod_def)
  then have "coordinator_reach example_opened"
    unfolding example_opened_def by (rule coordinator_reach.create) (simp_all add: upload_evals)
  moreover have "fits (cb_data (co_backend example_opened)) (0 + length [3 :: byte])"
    "fits (cb_data (co_backend (example_stage 2 [3] ''e2'' example_opened))) (0 + length [1, 2 :: byte])"
    by (simp_all add: fits_def upload_evals)
  ultimately show ?thesis
    unfolding example_staged_def example_stage_def [of 1]
    by (intro coordinator_reach.register coordinator_reach.stage) (simp_all add: example_stage_def
        coordinator_reach.register coordinator_reach.stage del: memory_backend_ops)
qed

section \<open>Properties\<close>

text \<open>C6: a multipart upload stores the concatenation of its parts. When \<^verbatim>\<open>CompleteUpload\<close> succeeds, the
  upload was active and opened on the same data flow; the part numbers it was given are exactly
  1 to N, each with a non-empty etag equal to the one recorded for that part, and all but the last
  at least of the minimum size; the object under the upload's bucket and key is the bytes staged
  for part 1, then part 2 and so on; the returned metadata has the total length; every other object
  is unchanged and the upload is gone from the registry.\<close>

theorem complete_upload_stores_object:
  assumes "coordinator_reach co" "MultipartStore_Find uid (co_store co) = Some r" "length ps < 2 ^ 32"
    and "u = uploads (co_store co) ! r"
    and "fits (cb_data (co_backend co)) (staged_bytes co (backend_upload_id u) ps)"
    and "CompleteUpload memory_backend now uid ps dp co = (Inr m, co')"
  shows "u_state u = kUpActive \<and> u_data_flow u = dp \<and> parts_accepted (min_part_size co) (u_parts u) ps \<and>
    bodies (cb_data (co_backend co')) = (bodies (cb_data (co_backend co)))
      (MakeKey (u_bucket u) (u_object_key u) \<mapsto>
        concat (map (\<lambda>pn. content (staged_parts (cb_data (co_backend co)) (backend_upload_id u) pn)) [1..<length ps + 1])) \<and>
    content_length m = staged_bytes co (backend_upload_id u) ps \<and>
    MultipartStore_Find uid (co_store co') = None"
  using memory_mp.complete_run(3) [OF coordinator_reach_inv [unfolded memory_coordinator_inv_def, OF assms(1)]
      assms(2,3) _ assms(6) refl] assms(4,5)
  by (simp add: staged_bytes_def)

theorem complete_upload_stores_object_witness:
  "\<exists>co'. CompleteUpload memory_backend 9 ''mpu-1-5'' example_list ''gpu-direct'' example_staged =
       (Inr (MakeMeta 9 3), co') \<and>
     bodies (cb_data (co_backend co')) (MakeKey ''b'' ''k'') = Some [1, 2, 3]"
proof -
  obtain co' where c: "CompleteUpload memory_backend 9 ''mpu-1-5'' example_list ''gpu-direct'' example_staged =
       (Inr (MakeMeta 9 3), co')"
    by (simp add: complete_evals)
  have "[1..<length example_list + 1] = [1, 2]" by (simp add: example_list_length upt_rec)
  then show ?thesis
    using c complete_upload_stores_object [OF example_staged_reach example_staged_facts(1)
        example_list_length(2) refl _ c] example_staged_facts
    by (simp add: MakeKey_def)
qed





text \<open>In every state the multipart registry and the memory backend can reach together, each
  registered upload is known to the backend under its backend id with exactly the upload's
  bucket and key, no two registered uploads share a backend upload, and looking an upload up by its
  id returns the upload with that id.\<close>

theorem registry_matches_backend:
  assumes "coordinator_reach co" "MultipartStore_Find uid (co_store co) = Some r"
    and "MultipartStore_Find uid2 (co_store co) = Some r2" "uid2 \<noteq> uid"
  shows "upload_id (uploads (co_store co) ! r) = uid \<and>
    mpu_targets (co_backend co) (backend_upload_id (uploads (co_store co) ! r)) =
      Some (u_bucket (uploads (co_store co) ! r), u_object_key (uploads (co_store co) ! r)) \<and>
    backend_upload_id (uploads (co_store co) ! r2) \<noteq> backend_upload_id (uploads (co_store co) ! r)"
proof -
  have inv: "coordinator_inv memory_backend_inv mpu_targets co"
    using coordinator_reach_inv [OF assms(1)] by (simp add: memory_coordinator_inv_def)
  then show ?thesis
    using find_registered [OF assms(2)] find_registered [OF assms(3)] assms(4)
      wf_entry [of "co_store co" uid r]
    unfolding coordinator_inv_def by metis
qed

theorem registry_matches_backend_witness:
  "let co = snd (CreateUpload memory_backend 6 example_upload_params example_staged) in
   coordinator_reach co \<and>
   mpu_targets (co_backend co) (backend_upload_id (uploads (co_store co) ! 0)) = Some (''b'', ''k'') \<and>
   backend_upload_id (uploads (co_store co) ! 1) \<noteq> backend_upload_id (uploads (co_store co) ! 0)"
proof -
  let ?co = "snd (CreateUpload memory_backend 6 example_upload_params example_staged)"
  have r: "coordinator_reach ?co"
    by (rule coordinator_reach.create [OF example_staged_reach]) (simp_all add: example_staged_def upload_evals)
  have "MultipartStore_Find ''mpu-1-5'' (co_store ?co) = Some 0" "MultipartStore_Find ''mpu-2-6'' (co_store ?co) = Some 1"
    "u_bucket (uploads (co_store ?co) ! 0) = ''b''" "u_object_key (uploads (co_store ?co) ! 0) = ''k''"
    by (simp_all add: MultipartStore_Find_def example_staged_def upload_evals)
  then show ?thesis using r registry_matches_backend [OF r, of "''mpu-1-5''" 0 "''mpu-2-6''" 1] by (simp add: Let_def)
qed

end
