(* ===== verification/Pinned_Buffer_Pool.thy ===== *)
theory Pinned_Buffer_Pool
  imports Prelude "HOL-Library.Multiset"
begin

text \<open>
  \<^verbatim>\<open>gateway/src/data_path/gds/buffer_pool.cpp\<close>: host buffers that are pinned and registered
  with the RDMA server, cached per size class. \<^verbatim>\<open>cuObjServer\<close> is outside the repository:
  the answers of \<^verbatim>\<open>allocHostBuffer\<close> and \<^verbatim>\<open>registerBuffer\<close> are arguments of \<^verbatim>\<open>Acquire\<close> (\<^term>\<open>None\<close> for a
  null pointer). \<^verbatim>\<open>live_buffers\<close> and \<^verbatim>\<open>live_mrs\<close> record the host buffers that were allocated and
  not freed and the memory regions that were registered and not deregistered.
\<close>

section \<open>State\<close>

record CachedBuffer =
  cb_buf :: "nat option"
  cb_capacity :: nat
  cb_mr :: "nat option"

record PinnedBufferLease =
  has_pool :: bool
  lease_data :: "nat option"
  lease_capacity :: nat
  lease_mr :: "nat option"
  size_class :: nat

record PinnedBufferPool =
  size_classes :: "nat list"
  max_per_class :: nat
  buckets :: "CachedBuffer list list"
  pool_shutdown :: bool
  hit_total :: nat
  miss_total :: nat
  oversize_total :: nat
  live_buffers :: "nat multiset"
  live_mrs :: "nat multiset"

definition empty_lease :: PinnedBufferLease where
  "empty_lease = \<lparr>has_pool = False, lease_data = None, lease_capacity = 0, lease_mr = None, size_class = 0\<rparr>"

definition lease_ok :: "PinnedBufferLease \<Rightarrow> bool" where
  "lease_ok l \<longleftrightarrow> lease_data l \<noteq> None \<and> lease_mr l \<noteq> None"

definition PinnedBufferPool_init :: "nat list \<Rightarrow> nat \<Rightarrow> PinnedBufferPool" where
  "PinnedBufferPool_init classes per_class =
     \<lparr>size_classes = sort classes, max_per_class = per_class, buckets = replicate (length classes) [],
      pool_shutdown = False, hit_total = 0, miss_total = 0, oversize_total = 0,
      live_buffers = {#}, live_mrs = {#}\<rparr>"

section \<open>Operations\<close>

fun pick_from :: "nat list \<Rightarrow> nat \<Rightarrow> nat \<Rightarrow> nat" where
  "pick_from [] sz i = i"
| "pick_from (c # cs) sz i = (if sz \<le> c then i else pick_from cs sz (i + 1))"

definition PickClass :: "nat \<Rightarrow> PinnedBufferPool \<Rightarrow> nat" where
  "PickClass sz p = pick_from (size_classes p) sz 0"

text \<open>Allocation and registration of a fresh buffer, with the clean-up of a failed registration;
  the oversize and the miss path share it.\<close>

definition alloc_registered ::
  "nat option \<Rightarrow> nat option \<Rightarrow> nat \<Rightarrow> nat \<Rightarrow> PinnedBufferPool \<Rightarrow> PinnedBufferLease \<times> PinnedBufferPool" where
  "alloc_registered alloc reg capacity cls p =
     (case alloc of
        None \<Rightarrow> (empty_lease, p)
      | Some d \<Rightarrow>
          (case reg of
             None \<Rightarrow> (empty_lease, p)
           | Some m \<Rightarrow>
               (\<lparr>has_pool = True, lease_data = Some d, lease_capacity = capacity, lease_mr = Some m,
                 size_class = cls\<rparr>,
                p\<lparr>live_buffers := add_mset d (live_buffers p), live_mrs := add_mset m (live_mrs p)\<rparr>)))"

definition Acquire ::
  "nat option \<Rightarrow> nat option \<Rightarrow> nat \<Rightarrow> PinnedBufferPool \<Rightarrow> PinnedBufferLease \<times> PinnedBufferPool" where
  "Acquire alloc reg sz p =
     (if sz = 0 then (empty_lease, p)
      else
        let idx = PickClass sz p in
        if idx = length (size_classes p) then
          alloc_registered alloc reg sz (length (size_classes p)) (p\<lparr>oversize_total := oversize_total p + 1\<rparr>)
        else
          let capacity = size_classes p ! idx; free_list = buckets p ! idx in
          if \<not> pool_shutdown p \<and> free_list \<noteq> [] then
            let reuse = last free_list in
            (\<lparr>has_pool = True, lease_data = cb_buf reuse, lease_capacity = cb_capacity reuse,
              lease_mr = cb_mr reuse, size_class = idx\<rparr>,
             p\<lparr>buckets := (buckets p)[idx := butlast free_list], hit_total := hit_total p + 1\<rparr>)
          else alloc_registered alloc reg capacity idx (p\<lparr>miss_total := miss_total p + 1\<rparr>))"

definition Dispose :: "CachedBuffer \<Rightarrow> PinnedBufferPool \<Rightarrow> PinnedBufferPool" where
  "Dispose c p =
     (let p = (case cb_mr c of None \<Rightarrow> p | Some m \<Rightarrow> p\<lparr>live_mrs := live_mrs p - {#m#}\<rparr>) in
      (case cb_buf c of None \<Rightarrow> p | Some d \<Rightarrow> p\<lparr>live_buffers := live_buffers p - {#d#}\<rparr>))"

definition Pool_Release ::
  "nat option \<Rightarrow> nat \<Rightarrow> nat option \<Rightarrow> nat \<Rightarrow> PinnedBufferPool \<Rightarrow> PinnedBufferPool" where
  "Pool_Release d capacity mr cls p =
     (if d = None then p
      else
        let r = \<lparr>cb_buf = d, cb_capacity = capacity, cb_mr = mr\<rparr> in
        if pool_shutdown p \<or> length (size_classes p) \<le> cls then Dispose r p
        else if max_per_class p \<le> length (buckets p ! cls) then Dispose r p
        else p\<lparr>buckets := (buckets p)[cls := buckets p ! cls @ [r]]\<rparr>)"

definition Lease_Release :: "PinnedBufferLease \<Rightarrow> PinnedBufferPool \<Rightarrow> PinnedBufferLease \<times> PinnedBufferPool" where
  "Lease_Release l p =
     (if lease_data l = None then (l, p)
      else if has_pool l
      then (empty_lease, Pool_Release (lease_data l) (lease_capacity l) (lease_mr l) (size_class l) p)
      else (empty_lease, p\<lparr>live_buffers := live_buffers p - {#the (lease_data l)#}\<rparr>))"

text \<open>Move construction and move assignment: the source is emptied; assignment first releases the
  target. Self-assignment is the identity and is decided by address, so it is a separate argument.\<close>

definition Lease_move :: "PinnedBufferLease \<Rightarrow> PinnedBufferLease \<times> PinnedBufferLease" where
  "Lease_move other = (other, empty_lease)"

definition Lease_move_assign ::
  "bool \<Rightarrow> PinnedBufferLease \<Rightarrow> PinnedBufferLease \<Rightarrow> PinnedBufferPool
   \<Rightarrow> PinnedBufferLease \<times> PinnedBufferLease \<times> PinnedBufferPool" where
  "Lease_move_assign same this other p =
     (if same then (this, other, p)
      else (other, empty_lease, snd (Lease_Release this p)))"

definition Pool_Shutdown :: "PinnedBufferPool \<Rightarrow> PinnedBufferPool" where
  "Pool_Shutdown p =
     (if pool_shutdown p then p
      else
        let to_destroy = concat (buckets p) in
        fold Dispose to_destroy (p\<lparr>pool_shutdown := True, buckets := map (\<lambda>_. []) (buckets p)\<rparr>))"

section \<open>Size classes\<close>

lemma pick_from_spec:
  "i \<le> pick_from cs sz i \<and> pick_from cs sz i \<le> i + length cs \<and>
   (pick_from cs sz i < i + length cs \<longrightarrow> sz \<le> cs ! (pick_from cs sz i - i)) \<and>
   (\<forall>j < pick_from cs sz i - i. cs ! j < sz)"
proof (induction cs arbitrary: i)
  case (Cons c cs)
  show ?case
  proof (cases "sz \<le> c")
    case False
    then show ?thesis
      using Cons.IH [of "i + 1"] by (auto simp: nth_Cons' Suc_diff_Suc less_Suc_eq_0_disj split: if_splits)
  qed simp
qed simp

lemma PickClass_spec:
  "PickClass sz p \<le> length (size_classes p)"
  "PickClass sz p < length (size_classes p) \<Longrightarrow> sz \<le> size_classes p ! PickClass sz p"
  "j < PickClass sz p \<Longrightarrow> size_classes p ! j < sz"
  using pick_from_spec [of 0 "size_classes p" sz] by (auto simp: PickClass_def)

section \<open>Ownership\<close>

text \<open>A pool is consistent with the outstanding leases when every live buffer and every live
  memory region belongs to exactly one lease or one cache entry, and the cache of a class holds
  complete buffers of exactly the class capacity, at most the configured number.\<close>

definition buf_of :: "nat option list \<Rightarrow> nat multiset" where
  "buf_of xs = mset (concat (map (\<lambda>x. case x of None \<Rightarrow> [] | Some d \<Rightarrow> [d]) xs))"

definition pool_wf :: "PinnedBufferPool \<Rightarrow> bool" where
  "pool_wf p \<longleftrightarrow> sorted (size_classes p) \<and> length (buckets p) = length (size_classes p) \<and>
     (\<forall>i < length (buckets p). length (buckets p ! i) \<le> max_per_class p \<and>
        (\<forall>c \<in> set (buckets p ! i). cb_buf c \<noteq> None \<and> cb_mr c \<noteq> None \<and> cb_capacity c = size_classes p ! i)) \<and>
     (pool_shutdown p \<longrightarrow> concat (buckets p) = [])"

definition owned :: "PinnedBufferPool \<Rightarrow> PinnedBufferLease list \<Rightarrow> bool" where
  "owned p ls \<longleftrightarrow>
     live_buffers p = buf_of (map cb_buf (concat (buckets p))) + buf_of (map lease_data ls) \<and>
     live_mrs p = buf_of (map cb_mr (concat (buckets p))) + buf_of (map lease_mr ls) \<and>
     (\<forall>l \<in> set ls. has_pool l \<and> lease_ok l \<and>
        (size_class l < length (size_classes p) \<longrightarrow> lease_capacity l = size_classes p ! size_class l))"

lemma buf_of_simps [simp]:
  "buf_of [] = {#}" "buf_of (x # xs) = (case x of None \<Rightarrow> {#} | Some d \<Rightarrow> {#d#}) + buf_of xs"
  "buf_of (xs @ ys) = buf_of xs + buf_of ys"
  by (auto simp: buf_of_def split: option.splits)

lemma buf_of_concat_update:
  "i < length bs \<Longrightarrow> buf_of (map f (concat (bs[i := x]))) + buf_of (map f (bs ! i)) =
     buf_of (map f (concat bs)) + buf_of (map f x)"
proof (induction bs arbitrary: i)
  case (Cons b bs)
  then show ?case by (cases i) (auto simp: ac_simps)
qed simp

lemma Dispose_fields [simp]:
  "size_classes (Dispose c p) = size_classes p" "buckets (Dispose c p) = buckets p"
  "max_per_class (Dispose c p) = max_per_class p" "pool_shutdown (Dispose c p) = pool_shutdown p"
  by (simp_all add: Dispose_def Let_def split: option.splits)

lemma fold_Dispose_fields [simp]:
  "size_classes (fold Dispose cs p) = size_classes p" "buckets (fold Dispose cs p) = buckets p"
  "max_per_class (fold Dispose cs p) = max_per_class p" "pool_shutdown (fold Dispose cs p) = pool_shutdown p"
  by (induction cs arbitrary: p) simp_all

lemma Dispose_live:
  "live_buffers (Dispose c p) = live_buffers p - buf_of [cb_buf c]"
  "live_mrs (Dispose c p) = live_mrs p - buf_of [cb_mr c]"
  by (simp_all add: Dispose_def Let_def split: option.splits)

lemma fold_Dispose_live:
  "live_buffers (fold Dispose cs p) = live_buffers p - buf_of (map cb_buf cs)"
  "live_mrs (fold Dispose cs p) = live_mrs p - buf_of (map cb_mr cs)"
  by (induction cs arbitrary: p) (simp_all add: Dispose_live diff_diff_add_mset)

lemma alloc_registered_ok:
  assumes "alloc_registered alloc reg cap cls p = (l, p')" "pool_wf p" "owned p ls"
    and "cls < length (size_classes p) \<longrightarrow> cap = size_classes p ! cls"
  shows "pool_wf p' \<and> owned p' (if lease_ok l then l # ls else ls) \<and>
    (lease_ok l \<longrightarrow> lease_capacity l = cap)"
  using assms
  by (auto simp: alloc_registered_def empty_lease_def lease_ok_def pool_wf_def owned_def split: option.splits)

lemma Acquire_reuse:
  assumes "pool_wf p" "owned p ls" "idx < length (size_classes p)" "buckets p ! idx \<noteq> []" "\<not> pool_shutdown p"
    and "reuse = last (buckets p ! idx)"
    and "l = \<lparr>has_pool = True, lease_data = cb_buf reuse, lease_capacity = cb_capacity reuse,
              lease_mr = cb_mr reuse, size_class = idx\<rparr>"
    and "p' = p\<lparr>buckets := (buckets p)[idx := butlast (buckets p ! idx)], hit_total := n\<rparr>"
  shows "pool_wf p' \<and> owned p' (l # ls) \<and> lease_ok l \<and> lease_capacity l = size_classes p ! idx"
proof -
  let ?b = "buckets p ! idx"
  have split: "?b = butlast ?b @ [reuse]" using assms(4,6) by simp
  have idx: "idx < length (buckets p)" using assms(1,3) by (simp add: pool_wf_def)
  have mem: "reuse \<in> set ?b" using assms(4,6) by simp
  have full: "cb_buf reuse \<noteq> None" "cb_mr reuse \<noteq> None" "cb_capacity reuse = size_classes p ! idx"
    using assms(1) idx mem by (auto simp: pool_wf_def)
  have "buf_of (map f ?b) = buf_of (map f (butlast ?b)) + buf_of [f reuse]" for f :: "CachedBuffer \<Rightarrow> nat option"
    by (subst split) simp
  then have conc: "buf_of (map f (concat (buckets p))) = buf_of (map f (concat (buckets p'))) + buf_of [f reuse]"
    for f :: "CachedBuffer \<Rightarrow> nat option"
    using buf_of_concat_update [OF idx, of f "butlast ?b"] assms(8) by (simp add: ac_simps)
  have "pool_wf p'"
    using assms(1,5,8) idx by (auto simp: pool_wf_def nth_list_update dest: in_set_butlastD)
  moreover have "owned p' (l # ls)"
    using assms(2,7,8) conc full by (auto simp: owned_def lease_ok_def ac_simps)
  ultimately show ?thesis using assms(7) full by (simp add: lease_ok_def)
qed

lemma Acquire_ok:
  assumes "Acquire alloc reg sz p = (l, p')" "pool_wf p" "owned p ls"
  shows "pool_wf p' \<and> owned p' (if lease_ok l then l # ls else ls) \<and>
    (lease_ok l \<longrightarrow> 0 < sz \<and> lease_capacity l =
       (if PickClass sz p < length (size_classes p) then size_classes p ! PickClass sz p else sz))"
proof (cases "sz = 0")
  case True
  then show ?thesis using assms by (auto simp: Acquire_def empty_lease_def lease_ok_def)
next
  case False
  let ?idx = "PickClass sz p"
  have keep: "pool_wf (p\<lparr>oversize_total := x\<rparr>)" "owned (p\<lparr>oversize_total := x\<rparr>) ls"
    "pool_wf (p\<lparr>miss_total := x\<rparr>)" "owned (p\<lparr>miss_total := x\<rparr>) ls" for x
    using assms(2,3) by (simp_all add: pool_wf_def owned_def)
  show ?thesis
  proof (cases "?idx = length (size_classes p)")
    case True
    then show ?thesis
      using assms(1) False alloc_registered_ok [OF _ keep(1,2)] by (auto simp: Acquire_def Let_def)
  next
    case idx: False
    then have lt: "?idx < length (size_classes p)" using PickClass_spec(1) [of sz p] by simp
    show ?thesis
    proof (cases "\<not> pool_shutdown p \<and> buckets p ! ?idx \<noteq> []")
      case True
      then show ?thesis
        using assms(1) False lt Acquire_reuse [OF assms(2,3) lt _ _ refl refl refl] by (auto simp: Acquire_def Let_def)
    next
      case miss: False
      then have run: "alloc_registered alloc reg (size_classes p ! ?idx) ?idx (p\<lparr>miss_total := miss_total p + 1\<rparr>) = (l, p')"
        using assms(1) False lt by (auto simp: Acquire_def Let_def)
      show ?thesis using alloc_registered_ok [OF run keep(3,4)] lt False by simp
    qed
  qed
qed

lemma Release_ok:
  assumes "pool_wf p" "owned p (ls1 @ l # ls2)" "p' = snd (Lease_Release l p)"
  shows "pool_wf p' \<and> owned p' (ls1 @ ls2)"
proof -
  obtain d m where dm: "lease_data l = Some d" "lease_mr l = Some m" "has_pool l"
    and cap: "size_class l < length (size_classes p) \<longrightarrow> lease_capacity l = size_classes p ! size_class l"
    using assms(2) by (auto simp: owned_def lease_ok_def)
  let ?r = "\<lparr>cb_buf = Some d, cb_capacity = lease_capacity l, cb_mr = Some m\<rparr>"
  have p': "p' = Pool_Release (Some d) (lease_capacity l) (Some m) (size_class l) p"
    using assms(3) dm by (simp add: Lease_Release_def)
  have live: "live_buffers p = add_mset d (buf_of (map cb_buf (concat (buckets p))) + buf_of (map lease_data (ls1 @ ls2)))"
    "live_mrs p = add_mset m (buf_of (map cb_mr (concat (buckets p))) + buf_of (map lease_mr (ls1 @ ls2)))"
    using assms(2) dm by (simp_all add: owned_def)
  show ?thesis
  proof (cases "pool_shutdown p \<or> length (size_classes p) \<le> size_class l \<or>
      max_per_class p \<le> length (buckets p ! size_class l)")
    case True
    then have "p' = Dispose ?r p" using p' by (auto simp: Pool_Release_def Let_def)
    then show ?thesis
      using assms(1,2) live dm by (auto simp: pool_wf_def owned_def Dispose_live)
  next
    case False
    then have cls: "size_class l < length (size_classes p)" "size_class l < length (buckets p)"
      using assms(1) by (simp_all add: pool_wf_def)
    have eq: "p' = p\<lparr>buckets := (buckets p)[size_class l := buckets p ! size_class l @ [?r]]\<rparr>"
      using p' False by (simp add: Pool_Release_def Let_def)
    have conc: "buf_of (map f (concat (buckets p'))) = buf_of (map f (concat (buckets p))) + buf_of [f ?r]"
      for f :: "CachedBuffer \<Rightarrow> nat option"
      using buf_of_concat_update [OF cls(2), of f "buckets p ! size_class l @ [?r]"] eq
      by (simp add: ac_simps)
    have "pool_wf p'"
      using assms(1) False cls cap eq by (auto simp: pool_wf_def nth_list_update)
    moreover have "owned p' (ls1 @ ls2)"
      using assms(2) live conc [of cb_buf] conc [of cb_mr] by (auto simp: owned_def eq)
    ultimately show ?thesis ..
  qed
qed

lemma concat_map_nil: "concat (map (\<lambda>_. []) xs) = []"
  by (induction xs) simp_all

lemma Shutdown_ok:
  assumes "pool_wf p" "owned p ls"
  shows "pool_wf (Pool_Shutdown p) \<and> owned (Pool_Shutdown p) ls \<and> pool_shutdown (Pool_Shutdown p)"
proof (cases "pool_shutdown p")
  case False
  then show ?thesis
    using assms
    by (auto simp: Pool_Shutdown_def Let_def pool_wf_def owned_def fold_Dispose_live concat_map_nil)
qed (use assms in \<open>simp add: Pool_Shutdown_def\<close>)

section \<open>Histories\<close>

text \<open>A pool together with the leases its users hold; the answers of the RDMA server are
  arbitrary, failures included.\<close>

inductive pool_reach :: "PinnedBufferPool \<Rightarrow> PinnedBufferLease list \<Rightarrow> bool" where
  init: "pool_reach (PinnedBufferPool_init classes per_class) []"
| acquire: "pool_reach p ls \<Longrightarrow> Acquire alloc reg sz p = (l, p') \<Longrightarrow>
    pool_reach p' (if lease_ok l then l # ls else ls)"
| release: "pool_reach p (ls1 @ l # ls2) \<Longrightarrow> pool_reach (snd (Lease_Release l p)) (ls1 @ ls2)"
| shutdown: "pool_reach p ls \<Longrightarrow> pool_reach (Pool_Shutdown p) ls"

lemma concat_replicate_nil: "concat (replicate n []) = []"
  by (induction n) simp_all

lemma pool_reach_ok: "pool_reach p ls \<Longrightarrow> pool_wf p \<and> owned p ls"
proof (induction rule: pool_reach.induct)
  case (init classes per_class)
  then show ?case
    by (simp add: PinnedBufferPool_init_def pool_wf_def owned_def concat_replicate_nil)
next
  case (acquire p ls alloc reg sz l p')
  then show ?case using Acquire_ok by blast
next
  case (release p ls1 l ls2)
  then show ?case using Release_ok by blast
next
  case (shutdown p ls)
  then show ?case using Shutdown_ok by blast
qed

section \<open>Properties\<close>

text \<open>In every history of acquisitions, releases and a shutdown, whatever the RDMA server
  answers, every live host buffer and memory region belongs to exactly one outstanding lease or one
  cache entry (none is leaked, shared or freed twice), a class never caches more buffers than
  configured, and after a shutdown with all leases returned nothing is left allocated or registered.\<close>

theorem pool_no_leak:
  "pool_reach p ls \<Longrightarrow>
   live_buffers p = buf_of (map cb_buf (concat (buckets p))) + buf_of (map lease_data ls) \<and>
   live_mrs p = buf_of (map cb_mr (concat (buckets p))) + buf_of (map lease_mr ls) \<and>
   (\<forall>b \<in> set (buckets p). length b \<le> max_per_class p) \<and>
   (pool_shutdown p \<and> ls = [] \<longrightarrow> live_buffers p = {#} \<and> live_mrs p = {#})"
  using pool_reach_ok [of p ls]
  by (auto simp: owned_def pool_wf_def in_set_conv_nth simp del: concat_eq_Nil_conv)

definition example_pool :: PinnedBufferPool where
  "example_pool = snd (Acquire (Some 100) (Some 7) 5 (PinnedBufferPool_init [16, 8] 1))"

definition example_lease :: PinnedBufferLease where
  "example_lease = \<lparr>has_pool = True, lease_data = Some 100, lease_capacity = 8, lease_mr = Some 7, size_class = 0\<rparr>"

lemmas pool_evals = Acquire_def PinnedBufferPool_init_def PickClass_def alloc_registered_def Let_def

lemma example_pool_reach: "pool_reach example_pool [example_lease]"
proof -
  have "Acquire (Some 100) (Some 7) 5 (PinnedBufferPool_init [16, 8] 1) = (example_lease, example_pool)"
    by (simp add: example_pool_def pool_evals example_lease_def)
  from pool_reach.acquire [OF pool_reach.init this] show ?thesis by (simp add: example_lease_def lease_ok_def)
qed

theorem pool_no_leak_witness:
  "let p = Pool_Shutdown (snd (Lease_Release example_lease example_pool)) in
   pool_reach p [] \<and> live_buffers example_pool = {#100#} \<and> live_buffers p = {#} \<and> live_mrs p = {#}"
proof -
  let ?p = "Pool_Shutdown (snd (Lease_Release example_lease example_pool))"
  have "pool_reach (snd (Lease_Release example_lease example_pool)) ([] @ [])"
    by (rule pool_reach.release) (simp add: example_pool_reach)
  then have r: "pool_reach ?p []" by (simp add: pool_reach.shutdown)
  have "pool_shutdown ?p"
    using Shutdown_ok pool_reach_ok [OF pool_reach.release [of _ "[]" _ "[]", simplified, OF example_pool_reach]] by blast
  moreover have "live_buffers example_pool = {#100#}" by (simp add: example_pool_def pool_evals)
  ultimately show ?thesis using r pool_no_leak [OF r] unfolding Let_def by blast
qed

text \<open>A lease is large enough and as small as possible: a usable lease for a request of n
  bytes has the capacity of the smallest size class of at least n bytes, or exactly n bytes when
  every class is smaller.\<close>

theorem acquire_best_fit:
  assumes "pool_reach p ls" "Acquire alloc reg sz p = (l, p')" "lease_ok l"
  shows "sz \<le> lease_capacity l \<and>
    (\<forall>c \<in> set (size_classes p). sz \<le> c \<longrightarrow> lease_capacity l \<le> c \<and> lease_capacity l \<in> set (size_classes p)) \<and>
    ((\<forall>c \<in> set (size_classes p). c < sz) \<longrightarrow> lease_capacity l = sz)"
proof -
  let ?i = "PickClass sz p"
  have wf: "pool_wf p" "owned p ls" using pool_reach_ok [OF assms(1)] by auto
  have cap: "lease_capacity l = (if ?i < length (size_classes p) then size_classes p ! ?i else sz)"
    using Acquire_ok [OF assms(2) wf] assms(3) by simp
  have sorted: "sorted (size_classes p)" using wf(1) by (simp add: pool_wf_def)
  have le: "size_classes p ! ?i \<le> c" "?i < length (size_classes p)"
    if c: "c \<in> set (size_classes p)" "sz \<le> c" for c
  proof -
    obtain j where j: "j < length (size_classes p)" "c = size_classes p ! j" using c(1) by (auto simp: in_set_conv_nth)
    then have "?i \<le> j" using PickClass_spec(3) [of j sz p] c(2) by force
    then show "size_classes p ! ?i \<le> c" "?i < length (size_classes p)"
      using j sorted by (auto simp: sorted_iff_nth_mono)
  qed
  have "sz \<le> lease_capacity l" using cap PickClass_spec(2) [of sz p] by auto
  moreover have "lease_capacity l = sz" if "\<forall>c \<in> set (size_classes p). c < sz"
    using that cap PickClass_spec(2) [of sz p] nth_mem [of ?i "size_classes p"] by (auto simp: not_le [symmetric])
  ultimately show ?thesis using cap le by auto
qed

theorem acquire_best_fit_witness:
  "lease_ok (fst (Acquire (Some 100) (Some 7) 5 (PinnedBufferPool_init [16, 8] 1))) \<and>
   (5::nat) \<le> lease_capacity (fst (Acquire (Some 100) (Some 7) 5 (PinnedBufferPool_init [16, 8] 1))) \<and>
   lease_capacity (fst (Acquire (Some 100) (Some 7) 5 (PinnedBufferPool_init [16, 8] 1))) \<le> 8"
proof -
  let ?a = "Acquire (Some 100) (Some 7) 5 (PinnedBufferPool_init [16, 8] 1)"
  have "?a = (example_lease, example_pool)" by (simp add: example_pool_def pool_evals example_lease_def)
  moreover have "lease_ok example_lease" by (simp add: example_lease_def lease_ok_def)
  ultimately show ?thesis
    using acquire_best_fit [OF pool_reach.init, of "Some 100" "Some 7" 5 "[16, 8]" 1]
    by (simp add: PinnedBufferPool_init_def)
qed

end
