(* ===== verification/Object_Backend.thy ===== *)
theory Object_Backend
  imports Composite_Backend
begin

text \<open>
  What the data paths ask of an \<^verbatim>\<open>IBackend\<close> for whole objects: ranged writes, whole writes, reservations
  and reads. The contract is a locale, with the assembly of an object from chunks proved
  once in it, and the memory backend implements it.
\<close>

section \<open>Chunks of an object\<close>

text \<open>The bytes of the body agree with the data on the positions K; until the first chunk arrived
  nothing is known of the length.\<close>

definition agrees :: "bytes \<Rightarrow> nat set \<Rightarrow> bytes \<Rightarrow> bool" where
  "agrees data K body \<longleftrightarrow> (K = {} \<or> length body = length data) \<and>
     (\<forall>i\<in>K. i < length data \<and> body ! i = data ! i)"

definition is_chunk :: "bytes \<Rightarrow> nat \<Rightarrow> bytes \<Rightarrow> bool" where
  "is_chunk data off src \<longleftrightarrow> off + length src \<le> length data \<and> src = take (length src) (drop off data)"

lemma agrees_all: "agrees data {..<length data} body \<Longrightarrow> data \<noteq> [] \<Longrightarrow> body = data"
  by (auto simp: agrees_def lessThan_empty_iff intro: nth_equalityI)

lemma nth_written:
  assumes "off + length src \<le> n" "i < n"
  shows "written old off src (Some n) ! i =
    (if off \<le> i \<and> i < off + length src then src ! (i - off) else resize n old ! i)"
  using assms nth_write_at [of off src "resize n old" i]
  by (simp add: written_def write_target_def)

lemma agrees_written:
  assumes "agrees data K old" "is_chunk data off src"
  shows "agrees data (K \<union> {off..<off + length src}) (written old off src (Some (length data)))"
proof -
  let ?n = "length data"
  have fit: "off + length src \<le> ?n" using assms(2) by (simp add: is_chunk_def)
  have src: "src ! (i - off) = data ! i" if "off \<le> i" "i < off + length src" for i
  proof -
    have "src ! (i - off) = take (length src) (drop off data) ! (i - off)" using assms(2) by (metis is_chunk_def)
    then show ?thesis using that fit by simp
  qed
  have old: "resize ?n old ! i = data ! i" if "i \<in> K" for i
    using assms(1) that by (auto simp: agrees_def)
  show ?thesis
    using fit src old assms(1) by (auto simp: agrees_def nth_written write_target_def)
qed

section \<open>The contract\<close>

locale object_backend =
  fixes B :: "'s IBackend"
    and binv :: "'s \<Rightarrow> bool"
    and room :: "'s \<Rightarrow> nat \<Rightarrow> bool"
    and object :: "'s \<Rightarrow> string \<Rightarrow> bytes option"
  assumes write_inv: "binv s \<Longrightarrow> room s (write_target off src t) \<Longrightarrow>
      (\<forall>n. t = Some n \<longrightarrow> off + length src \<le> n) \<Longrightarrow>
      binv (snd (be_WriteRange B now b k off src t s)) \<and> room (snd (be_WriteRange B now b k off src t s)) = room s"
    and write_ok: "binv s \<Longrightarrow> room s (write_target off src t) \<Longrightarrow>
      (\<forall>n. t = Some n \<longrightarrow> off + length src \<le> n) \<Longrightarrow>
      be_WriteRange B now b k off src t s = (Inr m, s') \<Longrightarrow>
      content_length m = write_target off src t \<and>
      object s' = (object s)(MakeKey b k \<mapsto> written (content (object s (MakeKey b k))) off src t)"
    and write_failed: "binv s \<Longrightarrow> room s (write_target off src t) \<Longrightarrow>
      (\<forall>n. t = Some n \<longrightarrow> off + length src \<le> n) \<Longrightarrow>
      be_WriteRange B now b k off src t s = (Inl e, s') \<Longrightarrow> content \<circ> object s' = content \<circ> object s"
    and write_whole: "be_Write B now b k src s = be_WriteRange B now b k 0 src (Some (length src)) s"
    and reserve_inv: "binv s \<Longrightarrow> room s n \<Longrightarrow>
      binv (snd (be_Reserve B now b k n s)) \<and> room (snd (be_Reserve B now b k n s)) = room s"
    and reserve_ok: "binv s \<Longrightarrow> room s n \<Longrightarrow> be_Reserve B now b k n s = (Inr m, s') \<Longrightarrow>
      object s' = (object s)(MakeKey b k \<mapsto> resize n (content (object s (MakeKey b k))))"
    and read_ok: "object s (MakeKey b k) = Some body \<Longrightarrow> off \<le> length body \<Longrightarrow>
      be_Read B b k off dst s =
        Inr (min (length body - off) (length dst), read_at off (length dst) body @ drop (length body - off) dst)"
    and read_missing: "object s (MakeKey b k) = None \<Longrightarrow> result_code (be_Read B b k off dst s) = kNotFound"
begin

lemma chunk_written:
  assumes "binv s" "room s (length data)" "agrees data K (content (object s (MakeKey b k)))" "is_chunk data off src"
    and "be_WriteRange B now b k off src (Some (length data)) s = (Inr m, s')"
  shows "binv s'" "room s' = room s" "content_length m = length data"
    "agrees data (K \<union> {off..<off + length src}) (content (object s' (MakeKey b k)))"
    "\<And>j. j \<noteq> MakeKey b k \<Longrightarrow> object s' j = object s j" "object s' (MakeKey b k) \<noteq> None"
proof -
  have fit: "off + length src \<le> length data" using assms(4) by (simp add: is_chunk_def)
  then have t: "write_target off src (Some (length data)) = length data" by (simp add: write_target_def)
  have r: "room s (write_target off src (Some (length data)))" using assms(2) t by simp
  have cov: "\<forall>n. Some (length data) = Some n \<longrightarrow> off + length src \<le> n" using fit by simp
  show "binv s'" "room s' = room s" using write_inv [OF assms(1) r cov, of now b k] assms(5) by simp_all
  note w = write_ok [OF assms(1) r cov assms(5)]
  show "content_length m = length data" using w t by simp
  show "agrees data (K \<union> {off..<off + length src}) (content (object s' (MakeKey b k)))"
    using w agrees_written [OF assms(3,4)] by simp
  show "\<And>j. j \<noteq> MakeKey b k \<Longrightarrow> object s' j = object s j" "object s' (MakeKey b k) \<noteq> None"
    using w by simp_all
qed

lemma chunk_read:
  assumes "object s (MakeKey b k) = Some data" "off \<le> length data" "be_Read B b k off (resize n st) s = Inr (z, dst)"
  shows "take z dst = take n (drop off data)" "z = min (length data - off) n"
  using read_ok [OF assms(1,2), of "resize n st"] assms(3) by (auto simp: read_at_def min_def)

end

section \<open>The memory backend\<close>

interpretation memory_objects: object_backend memory_backend memory_backend_inv
  "\<lambda>c. fits (cb_data c)" "\<lambda>c. bodies (cb_data c)"
proof (unfold_locales, goal_cases)
  case (1 s off src t now b k)
  then show ?case
    using mem.write_range_run(1) [of s off src t, OF _ _ _ surjective_pairing]
      capacity_backend(1) [of now b k off src t s] by (auto simp: fits_def fun_eq_iff)
next
  case (2 s off src t now b k m s')
  then show ?case
    using mem.write_range_run(5) [of s off src t now b k "Inr m" s' m] by (simp add: MakeMeta_def)
next
  case (3 s off src t now b k e s')
  then show ?case
    using mem.write_range_run(4) [of s off src t now b k "Inl e" s' e] by (simp add: comp_def)
next
  case (4 now b k src s)
  then show ?case by (simp add: CompositeBackend_Write_def)
next
  case (5 s n now b k)
  then show ?case
    using mem.reserve_run(1) [of s n, OF _ _ surjective_pairing] capacity_backend(2) [of now b k n s]
    by (auto simp: fits_def fun_eq_iff)
next
  case (6 s n now b k m s')
  then show ?case using mem.reserve_run(5) [of s n now b k "Inr m" s' m] by simp
next
  case (7 s b k body off dst)
  then show ?case by (simp add: CompositeBackend_Read_def Read_eval)
next
  case (8 s b k off dst)
  then show ?case by (simp add: CompositeBackend_Read_def MemoryDataStore_Read_def)
qed

end
