(* ===== verification/Gds_Executor.thy ===== *)
theory Gds_Executor
  imports Session_Opener Multipart Pinned_Buffer_Pool Crc32c Object_Backend
begin

text \<open>
  \<^verbatim>\<open>gateway/src/data_path/gds\<close>: the executor that moves chunks between GPU memory and the storage
  backend through pinned buffers, and the multipart handler on top of it. \<^verbatim>\<open>cuObjServer\<close>, the
  verbs library and the MD5 function are outside the repository: what the server answers
  during one call is an argument (\<^verbatim>\<open>CuAnswers\<close>), MD5 is a function argument. The executor keeps a record
  of the channels it holds and of the RDMA writes it ordered. The storage backend is
  shared with other components, so its state is passed beside the executor's.
\<close>

section \<open>State\<close>

record GdsOptions =
  rdma_port :: nat
  buffer_size_classes :: "nat list"
  buffer_max_per_class :: nat
  max_chunk_bytes :: nat

record GdsExecutor =
  g_public_host :: string
  g_bind_host :: string
  g_opts :: GdsOptions
  g_server :: bool
  g_pool :: "PinnedBufferPool option"
  live_channels :: "nat multiset"
  rdma_writes :: "(string \<times> nat \<times> bytes) list"

text \<open>The answers of the server during one call: whether it is connected, the pinned buffer and
  its registration, the content of the buffer before and after the transfer, the channel
  (\<^term>\<open>None\<close> for \<^verbatim>\<open>INVALID_CHANNEL_ID\<close>), the transferred byte count and the text of the status.\<close>

record CuAnswers =
  ca_connected :: bool
  ca_alloc :: "nat option"
  ca_reg :: "nat option"
  ca_staging :: bytes
  ca_channel :: "nat option"
  ca_transferred :: int
  ca_received :: bytes
  ca_status :: string

definition GdsExecutor_init :: "string \<Rightarrow> string \<Rightarrow> GdsOptions \<Rightarrow> GdsExecutor" where
  "GdsExecutor_init host bind opts =
     \<lparr>g_public_host = host, g_bind_host = bind, g_opts = opts, g_server = False, g_pool = None,
      live_channels = {#}, rdma_writes = []\<rparr>"

section \<open>Helpers\<close>

definition BuildObjectId :: "Session \<Rightarrow> string" where
  "BuildObjectId s = s_bucket s @ ''/'' @ object_key s"

text \<open>\<^verbatim>\<open>strtoull\<close> to base 16: leading white space, an optional sign, an optional prefix, the longest
  run of hexadecimal digits, saturating, negated modulo 2 to the 64 for a minus sign.\<close>

definition is_space :: "char \<Rightarrow> bool" where
  "is_space c \<longleftrightarrow> c \<in> set [CHR 0x20, CHR 0x09, CHR 0x0A, CHR 0x0B, CHR 0x0C, CHR 0x0D]"

definition hex_val :: "char \<Rightarrow> nat option" where
  "hex_val c =
     (let n = of_char c :: nat in
      if 48 \<le> n \<and> n \<le> 57 then Some (n - 48)
      else if 97 \<le> n \<and> n \<le> 102 then Some (n - 87)
      else if 65 \<le> n \<and> n \<le> 70 then Some (n - 55)
      else None)"

fun hex_run :: "nat \<Rightarrow> string \<Rightarrow> nat" where
  "hex_run acc [] = acc"
| "hex_run acc (c # cs) = (case hex_val c of None \<Rightarrow> acc | Some d \<Rightarrow> hex_run (16 * acc + d) cs)"

definition hex_prefix :: "string \<Rightarrow> string" where
  "hex_prefix s =
     (case s of
        z # x # d # ds \<Rightarrow> if z = CHR ''0'' \<and> x \<in> {CHR ''x'', CHR ''X''} \<and> hex_val d \<noteq> None then d # ds else s
      | _ \<Rightarrow> s)"

definition strtoull16 :: "string \<Rightarrow> nat" where
  "strtoull16 s =
     (let s = dropWhile is_space s;
          (neg, s) = (case s of c # cs \<Rightarrow> if c = CHR ''-'' then (True, cs)
                                         else if c = CHR ''+'' then (False, cs) else (False, s)
                              | [] \<Rightarrow> (False, []));
          v = hex_run 0 (hex_prefix s) in
      if u64_mod \<le> v then u64_mod - 1 else if neg then u64_sub 0 v else v)"

text \<open>A C string ends at its first null character.\<close>

definition c_str :: "string \<Rightarrow> string" where
  "c_str s = takeWhile (\<lambda>c. c \<noteq> CHR 0x00) s"

definition ParseRemoteBufferAddress :: "string \<Rightarrow> nat" where
  "ParseRemoteBufferAddress token =
     (let h = takeWhile (\<lambda>c. c \<noteq> CHR '':'') token in
      if h = [] then 0 else strtoull16 (c_str h))"

text \<open>The lowercase hexadecimal digest between double quotes; \<^verbatim>\<open>md5\<close> gives the digest bytes.\<close>

definition hex2 :: "byte \<Rightarrow> string" where
  "hex2 b = zero_pad 2 (hex (unat b))"

definition digest_etag :: "bytes \<Rightarrow> string" where
  "digest_etag digest = CHR 0x22 # concat (map hex2 digest) @ [CHR 0x22]"

definition Md5Hex :: "(bytes \<Rightarrow> bytes) \<Rightarrow> bytes \<Rightarrow> string" where
  "Md5Hex md5 data = digest_etag (md5 data)"

section \<open>Lifecycle\<close>

definition GdsExecutor_endpoint :: "GdsExecutor \<Rightarrow> string" where
  "GdsExecutor_endpoint ex = g_public_host ex @ '':'' @ dec (rdma_port (g_opts ex))"

text \<open>\<^verbatim>\<open>was_connected\<close> is the answer of the existing server, \<^verbatim>\<open>connected\<close> that of the new one.\<close>

definition GdsExecutor_Start :: "bool \<Rightarrow> bool \<Rightarrow> GdsExecutor \<Rightarrow> bool result \<times> GdsExecutor" where
  "GdsExecutor_Start was_connected connected ex =
     (if g_server ex \<and> was_connected then (Success True, ex)
      else if \<not> connected then
        (Failure (MakeError kRdmaUnavailable (''cuObjServer init failed on '' @ g_bind_host ex @ '':'' @
           dec (rdma_port (g_opts ex))) False), ex)
      else
        (Success True,
         ex\<lparr>g_server := True,
            g_pool := Some (PinnedBufferPool_init (buffer_size_classes (g_opts ex)) (buffer_max_per_class (g_opts ex)))\<rparr>))"

text \<open>The pool that is shut down outlives the executor's reference only in leases still held; its
  final state is returned.\<close>

definition GdsExecutor_Stop :: "GdsExecutor \<Rightarrow> PinnedBufferPool option \<times> GdsExecutor" where
  "GdsExecutor_Stop ex =
     (map_option Pool_Shutdown (g_pool ex), ex\<lparr>g_pool := None, g_server := False\<rparr>)"

definition GdsExecutor_available :: "bool \<Rightarrow> GdsExecutor \<Rightarrow> bool" where
  "GdsExecutor_available connected ex \<longleftrightarrow> g_server ex \<and> connected"

definition GetServer :: "bool \<Rightarrow> GdsExecutor \<Rightarrow> bool result" where
  "GetServer connected ex =
     (if \<not> g_server ex \<or> \<not> connected then Failure (MakeError kRdmaUnavailable ''cuObjServer not available'' False)
      else Success True)"

definition GdsExecutor_OnSessionOpened ::
  "'s IBackend \<Rightarrow> bool \<Rightarrow> nat \<Rightarrow> Session \<Rightarrow> GdsExecutor \<times> 's \<Rightarrow> bool result \<times> GdsExecutor \<times> 's" where
  "GdsExecutor_OnSessionOpened B connected now s eb =
     (let (ex, b) = eb in
      if \<not> GdsExecutor_available connected ex then
        (Failure (MakeError kRdmaUnavailable ''gds-cuobject service is not available on gateway'' False), ex, b)
      else if s_op s = kPut \<and> expected_size s \<noteq> 0 then
        (case MetadataService_Reserve B now (s_bucket s) (object_key s) (expected_size s) b of
           (Inl e, b) \<Rightarrow> (Failure e, ex, b)
         | (Inr _, b) \<Rightarrow> (Success True, ex, b))
      else (Success True, ex, b))"

section \<open>Chunk transfers\<close>

definition take_lease :: "CuAnswers \<Rightarrow> nat \<Rightarrow> GdsExecutor \<Rightarrow> PinnedBufferLease \<times> GdsExecutor" where
  "take_lease a len ex =
     (case g_pool ex of
        None \<Rightarrow> (empty_lease, ex)
      | Some p \<Rightarrow> let (l, p) = Acquire (ca_alloc a) (ca_reg a) len p in (l, ex\<lparr>g_pool := Some p\<rparr>))"

text \<open>Leaving the scope of a lease, and of a channel.\<close>

definition drop_lease :: "PinnedBufferLease \<Rightarrow> GdsExecutor \<Rightarrow> GdsExecutor" where
  "drop_lease l ex = ex\<lparr>g_pool := map_option (\<lambda>p. snd (Lease_Release l p)) (g_pool ex)\<rparr>"

definition allocateChannelId :: "CuAnswers \<Rightarrow> GdsExecutor \<Rightarrow> nat option \<times> GdsExecutor" where
  "allocateChannelId a ex =
     (case ca_channel a of
        None \<Rightarrow> (None, ex)
      | Some c \<Rightarrow> (Some c, ex\<lparr>live_channels := add_mset c (live_channels ex)\<rparr>))"

definition ChannelGuard_release :: "nat \<Rightarrow> GdsExecutor \<Rightarrow> GdsExecutor" where
  "ChannelGuard_release c ex = ex\<lparr>live_channels := live_channels ex - {#c#}\<rparr>"

record GetChunkOutcome =
  rdma_reply :: string
  gc_crc32c :: "32 word"

definition pinned_alloc_failed :: Error where
  "pinned_alloc_failed = MakeError kRdmaUnavailable ''cuObjServer pinned buffer alloc failed'' False"

definition channel_failed :: Error where
  "channel_failed = MakeError kRdmaUnavailable ''cuObjServer allocateChannelId failed'' False"

definition empty_outcome :: GetChunkOutcome where
  "empty_outcome = \<lparr>rdma_reply = ''gds-cuobject-rdma-write-empty'', gc_crc32c = 0\<rparr>"

text \<open>The part of \<^verbatim>\<open>GetChunk\<close> that runs while the lease is held.\<close>

definition get_with_lease ::
  "'s IBackend \<Rightarrow> CuAnswers \<Rightarrow> Session \<Rightarrow> string \<Rightarrow> nat \<Rightarrow> nat \<Rightarrow> 's \<Rightarrow> GdsExecutor
   \<Rightarrow> GetChunkOutcome result \<times> GdsExecutor" where
  "get_with_lease B a s rdma_token off len b ex =
     (case be_Read B (s_bucket s) (object_key s) off (resize len (ca_staging a)) b of
        Inl e \<Rightarrow> (Failure e, ex)
      | Inr (actual_size, staging) \<Rightarrow>
          if actual_size = 0 then (Success empty_outcome, ex)
          else
            let crc = Crc32c (take actual_size staging) in
            (case allocateChannelId a ex of
               (None, ex) \<Rightarrow> (Failure channel_failed, ex)
             | (Some channel, ex) \<Rightarrow>
                 let remote = ParseRemoteBufferAddress rdma_token;
                     ex = ex\<lparr>rdma_writes := rdma_writes ex @ [(BuildObjectId s, remote, take actual_size staging)]\<rparr>;
                     transferred = ca_transferred a;
                     ex = ChannelGuard_release channel ex in
                 if transferred < 0 then
                   (Failure (MakeError kRpcError (''cuObjServer handleGetObject failed: '' @ ca_status a) False), ex)
                 else if nat transferred \<noteq> actual_size then
                   (Failure (MakeError kRpcError ''cuObjServer handleGetObject short transfer'' False), ex)
                 else (Success \<lparr>rdma_reply = ''gds-cuobject-rdma-write'', gc_crc32c = crc\<rparr>, ex)))"

definition GetChunk ::
  "'s IBackend \<Rightarrow> CuAnswers \<Rightarrow> Session \<Rightarrow> string \<Rightarrow> nat \<Rightarrow> nat \<Rightarrow> 's \<Rightarrow> GdsExecutor
   \<Rightarrow> GetChunkOutcome result \<times> GdsExecutor" where
  "GetChunk B a s rdma_token off len b ex =
     (if max_chunk_bytes (g_opts ex) < len then
        (Failure (MakeError kBadRequest ''GDS GET chunk exceeds 1 GiB cuObjServer limit'' False), ex)
      else if len = 0 then (Success empty_outcome, ex)
      else case GetServer (ca_connected a) ex of
        Inl e \<Rightarrow> (Failure e, ex)
      | Inr _ \<Rightarrow>
          let (lease, ex) = take_lease a len ex in
          if \<not> lease_ok lease then (Failure pinned_alloc_failed, drop_lease lease ex)
          else
            let (res, ex) = get_with_lease B a s rdma_token off len b ex in
            (res, drop_lease lease ex))"

text \<open>What \<^verbatim>\<open>PutChunk\<close> and \<^verbatim>\<open>PutPart\<close> share for a non-empty chunk: the server lookup, the lease, the
  channel, the RDMA read and the check of its count; \<^verbatim>\<open>persist\<close> stores the received prefix of the
  buffer while lease and channel are held.\<close>

definition put_through ::
  "CuAnswers \<Rightarrow> nat \<Rightarrow> (bytes \<Rightarrow> 's \<Rightarrow> 'r result \<times> 's) \<Rightarrow> GdsExecutor \<times> 's \<Rightarrow> 'r result \<times> GdsExecutor \<times> 's" where
  "put_through a len persist eb =
     (let (ex, b) = eb in
      case GetServer (ca_connected a) ex of
        Inl e \<Rightarrow> (Failure e, ex, b)
      | Inr _ \<Rightarrow>
          let (lease, ex) = take_lease a len ex in
          if \<not> lease_ok lease then (Failure pinned_alloc_failed, drop_lease lease ex, b)
          else
            (case allocateChannelId a ex of
               (None, ex) \<Rightarrow> (Failure channel_failed, drop_lease lease ex, b)
             | (Some channel, ex) \<Rightarrow>
                 let transferred = ca_transferred a in
                 if transferred < 0 then
                   (Failure (MakeError kRpcError (''cuObjServer handlePutObject failed: '' @ ca_status a) False),
                    drop_lease lease (ChannelGuard_release channel ex), b)
                 else
                   let view = take (nat transferred) (ca_received a);
                       (w, b) = persist view b in
                   (w, drop_lease lease (ChannelGuard_release channel ex), b)))"

definition session_total :: "Session \<Rightarrow> nat option" where
  "session_total s = (if expected_size s \<noteq> 0 then Some (expected_size s) else None)"

definition PutChunk ::
  "'s IBackend \<Rightarrow> CuAnswers \<Rightarrow> nat \<Rightarrow> Session \<Rightarrow> nat \<Rightarrow> nat \<Rightarrow> GdsExecutor \<times> 's
   \<Rightarrow> ObjectMetadata result \<times> GdsExecutor \<times> 's" where
  "PutChunk B a now s off len eb =
     (let (ex, b) = eb; total_size = session_total s in
      if max_chunk_bytes (g_opts ex) < len then
        (Failure (MakeError kBadRequest ''GDS PUT chunk exceeds 1 GiB cuObjServer limit'' False), ex, b)
      else if len = 0 then
        let (w, b) = be_WriteRange B now (s_bucket s) (object_key s) off [] total_size b in (w, ex, b)
      else put_through a len
             (\<lambda>view. be_WriteRange B now (s_bucket s) (object_key s) off view total_size) (ex, b))"

text \<open>The running digest of a part: the context of a part is the bytes fed into it so far, and
  finalising a copy of it applies MD5 to them.\<close>

definition md5_accumulate ::
  "(bytes \<Rightarrow> bytes) \<Rightarrow> nat \<Rightarrow> bytes \<Rightarrow> MultipartUpload \<Rightarrow> string \<times> MultipartUpload" where
  "md5_accumulate md5 part_number data u =
     (let ctx = (case part_md5_ctxs u part_number of None \<Rightarrow> data | Some fed \<Rightarrow> fed @ data) in
      (digest_etag (md5 ctx), u\<lparr>part_md5_ctxs := (part_md5_ctxs u)(part_number \<mapsto> ctx)\<rparr>))"

definition persist_part ::
  "'s IBackend \<Rightarrow> (bytes \<Rightarrow> bytes) \<Rightarrow> nat \<Rightarrow> string \<Rightarrow> nat \<Rightarrow> nat \<Rightarrow> string \<Rightarrow> bytes
   \<Rightarrow> 's \<times> MultipartUpload option \<Rightarrow> string result \<times> 's \<times> MultipartUpload option" where
  "persist_part B md5 now uid part_number off checksum_policy view bu =
     (let (b, upload) = bu in
      case be_WritePart B now uid part_number off view b of
        (Inl e, b) \<Rightarrow> (Failure e, b, upload)
      | (Inr e, b) \<Rightarrow>
          if checksum_policy = ''md5'' then
            (case upload of
               Some u \<Rightarrow> let (e, u) = md5_accumulate md5 part_number view u in (Success e, b, Some u)
             | None \<Rightarrow> (Success (Md5Hex md5 view), b, None))
          else (Success e, b, upload))"

definition PutPart ::
  "'s IBackend \<Rightarrow> (bytes \<Rightarrow> bytes) \<Rightarrow> CuAnswers \<Rightarrow> nat \<Rightarrow> string \<Rightarrow> nat \<Rightarrow> nat \<Rightarrow> nat \<Rightarrow> string
   \<Rightarrow> GdsExecutor \<times> 's \<times> MultipartUpload option
   \<Rightarrow> string result \<times> GdsExecutor \<times> 's \<times> MultipartUpload option" where
  "PutPart B md5 a now uid part_number off len checksum_policy eb =
     (let (ex, b, upload) = eb in
      if max_chunk_bytes (g_opts ex) < len then
        (Failure (MakeError kBadRequest ''GDS PUT part exceeds 1 GiB cuObjServer limit'' False), ex, b, upload)
      else if len = 0 then
        let (w, b) = be_WritePart B now uid part_number off [] b in (w, ex, b, upload)
      else put_through a len (persist_part B md5 now uid part_number off checksum_policy) (ex, b, upload))"

section \<open>The multipart handler\<close>

record GdsMultipartPartResult =
  gp_part_etag :: string
  gp_rdma_reply :: string
  gp_crc32c :: "32 word"

definition GdsMultipart_UploadPart ::
  "'s IBackend \<Rightarrow> (bytes \<Rightarrow> bytes) \<Rightarrow> CuAnswers \<Rightarrow> nat \<Rightarrow> string \<Rightarrow> nat \<Rightarrow> nat \<Rightarrow> nat \<Rightarrow> string
   \<Rightarrow> GdsExecutor \<times> 's MultipartCoordinator
   \<Rightarrow> GdsMultipartPartResult result \<times> GdsExecutor \<times> 's MultipartCoordinator" where
  "GdsMultipart_UploadPart B md5 a now uid part_number chunk_offset chunk_size checksum_policy ec =
     (let (ex, co) = ec in
      case Lookup uid co of
        Inl e \<Rightarrow> (Failure e, ex, co)
      | Inr r \<Rightarrow>
          let u = uploads (co_store co) ! r;
              (part_etag, ex, b, u') = PutPart B md5 a now (backend_upload_id u) part_number chunk_offset
                 chunk_size checksum_policy (ex, co_backend co, Some u);
              co = co\<lparr>co_backend := b, co_store := update_upload r (\<lambda>_. the u') (co_store co)\<rparr> in
          (case part_etag of
             Inl e \<Rightarrow> (Failure e, ex, co)
           | Inr e \<Rightarrow>
               (Success \<lparr>gp_part_etag = e, gp_rdma_reply = ''gds-cuobject-rdma-read'', gp_crc32c = 0\<rparr>,
                ex, RegisterPart now r part_number chunk_offset chunk_size e co)))"

section \<open>Resources\<close>

text \<open>Between calls no lease is outstanding.\<close>

definition gds_wf :: "GdsExecutor \<Rightarrow> bool" where
  "gds_wf ex \<longleftrightarrow> (\<forall>p. g_pool ex = Some p \<longrightarrow> pool_wf p \<and> owned p [])"

text \<open>While a call runs, the lease it took is the only one.\<close>

definition gds_holds :: "PinnedBufferLease \<Rightarrow> GdsExecutor \<Rightarrow> bool" where
  "gds_holds l ex \<longleftrightarrow> (\<forall>p. g_pool ex = Some p \<longrightarrow> pool_wf p \<and> owned p (if lease_ok l then [l] else []))"

lemma take_lease_ok:
  assumes "gds_wf ex" "take_lease a len ex = (l, ex')"
  shows "gds_holds l ex'" "live_channels ex' = live_channels ex" "g_opts ex' = g_opts ex"
    "rdma_writes ex' = rdma_writes ex" "lease_data l = None \<or> lease_ok l"
proof -
  show "gds_holds l ex'"
    using assms Acquire_ok [of "ca_alloc a" "ca_reg a" len _ l _ "[]"]
    by (fastforce simp: take_lease_def gds_wf_def gds_holds_def empty_lease_def lease_ok_def split: option.splits prod.splits)
  show "live_channels ex' = live_channels ex" "g_opts ex' = g_opts ex" "rdma_writes ex' = rdma_writes ex"
    using assms(2) by (auto simp: take_lease_def split: option.splits prod.splits)
  have "lease_data l' = None \<or> lease_ok l'"
    if p: "g_pool ex = Some p" "Acquire (ca_alloc a) (ca_reg a) len p = (l', p')" for p l' p'
  proof -
    have wf: "pool_wf p" using assms(1) p(1) by (simp add: gds_wf_def)
    let ?i = "PickClass len p"
    have "cb_mr (last (buckets p ! ?i)) \<noteq> None" if "?i \<noteq> length (size_classes p)" "buckets p ! ?i \<noteq> []"
    proof -
      have "?i < length (buckets p)" using wf that(1) PickClass_spec(1) [of len p] by (simp add: pool_wf_def)
      then show ?thesis using wf last_in_set [OF that(2)] by (auto simp: pool_wf_def)
    qed
    then show ?thesis using p(2)
      by (auto simp: Acquire_def Let_def alloc_registered_def empty_lease_def lease_ok_def
          split: if_splits option.splits)
  qed
  then show "lease_data l = None \<or> lease_ok l"
    using assms(2) by (auto simp: take_lease_def empty_lease_def split: option.splits prod.splits)
qed

lemma drop_lease_ok:
  assumes "gds_holds l ex" "lease_data l = None \<or> lease_ok l"
  shows "gds_wf (drop_lease l ex)"
proof -
  have "pool_wf (snd (Lease_Release l p)) \<and> owned (snd (Lease_Release l p)) []"
    if p: "g_pool ex = Some p" for p
  proof (cases "lease_ok l")
    case True
    then have "pool_wf p" "owned p ([] @ l # [])" using assms(1) p by (simp_all add: gds_holds_def)
    from Release_ok [OF this refl] show ?thesis by simp
  next
    case False
    then show ?thesis using assms p by (simp add: gds_holds_def Lease_Release_def)
  qed
  then show ?thesis by (auto simp: gds_wf_def drop_lease_def)
qed

lemma drop_lease_fields [simp]:
  "live_channels (drop_lease l ex) = live_channels ex" "g_opts (drop_lease l ex) = g_opts ex"
  "rdma_writes (drop_lease l ex) = rdma_writes ex" "g_server (drop_lease l ex) = g_server ex"
  by (simp_all add: drop_lease_def)

lemma channel_ops [simp]:
  "gds_holds l (ex\<lparr>live_channels := c\<rparr>) = gds_holds l ex"
  "gds_holds l (ex\<lparr>rdma_writes := w\<rparr>) = gds_holds l ex"
  by (simp_all add: gds_holds_def)

text \<open>Every path of a transfer returns its lease and its channel.\<close>

lemma put_through_released:
  assumes "gds_wf ex" "put_through a len persist (ex, b) = (r, ex', b')"
  shows "gds_wf ex'" "live_channels ex' = live_channels ex" "g_opts ex' = g_opts ex" "rdma_writes ex' = rdma_writes ex"
proof -
  obtain l ex1 where l: "take_lease a len ex = (l, ex1)" by fastforce
  note t = take_lease_ok [OF assms(1) l]
  have "gds_wf (drop_lease l ex1)" "gds_wf (drop_lease l (ex1\<lparr>live_channels := c\<rparr>))" for c
    using drop_lease_ok t(1,5) by simp_all
  then have "gds_wf ex' \<and> live_channels ex' = live_channels ex \<and> g_opts ex' = g_opts ex \<and> rdma_writes ex' = rdma_writes ex"
    using assms l t(2-4)
    by (auto simp: put_through_def allocateChannelId_def ChannelGuard_release_def Let_def
        split: sum.splits option.splits prod.splits if_splits)
  then show "gds_wf ex'" "live_channels ex' = live_channels ex" "g_opts ex' = g_opts ex" "rdma_writes ex' = rdma_writes ex"
    by auto
qed

lemma put_through_effect:
  assumes "put_through a len persist (ex, b) = (r, ex', b')"
  shows "(isl r \<and> b' = b) \<or>
    (0 \<le> ca_transferred a \<and> persist (take (nat (ca_transferred a)) (ca_received a)) b = (r, b'))"
  using assms
  by (auto simp: put_through_def allocateChannelId_def Let_def split: sum.splits option.splits prod.splits if_splits)

lemma GetChunk_released:
  assumes "gds_wf ex" "GetChunk B a s tok off len b ex = (r, ex')"
  shows "gds_wf ex'" "live_channels ex' = live_channels ex" "g_opts ex' = g_opts ex"
proof -
  obtain l ex1 where l: "take_lease a len ex = (l, ex1)" by fastforce
  obtain q ex2 where q: "get_with_lease B a s tok off len b ex1 = (q, ex2)" by fastforce
  note t = take_lease_ok [OF assms(1) l]
  have "gds_holds l ex2 \<and> live_channels ex2 = live_channels ex1 \<and> g_opts ex2 = g_opts ex1"
    using q t(1)
    by (auto simp: get_with_lease_def allocateChannelId_def ChannelGuard_release_def Let_def
        split: sum.splits option.splits prod.splits if_splits)
  then have "gds_wf (drop_lease l ex1)" "gds_wf (drop_lease l ex2)" "live_channels ex2 = live_channels ex"
      "g_opts ex2 = g_opts ex"
    using drop_lease_ok t by auto
  then show "gds_wf ex'" "live_channels ex' = live_channels ex" "g_opts ex' = g_opts ex"
    using assms l q t(2,3) by (auto simp: GetChunk_def Let_def split: sum.splits if_splits)
qed

lemma PutChunk_released:
  assumes "gds_wf ex" "PutChunk B a now s off len (ex, b) = (r, ex', b')"
  shows "gds_wf ex' \<and> live_channels ex' = live_channels ex \<and> g_opts ex' = g_opts ex"
  using assms put_through_released [of ex a len]
  by (fastforce simp: PutChunk_def Let_def split: if_splits prod.splits)

lemma PutPart_released:
  assumes "gds_wf ex" "PutPart B md5 a now uid pn off len policy (ex, b, u) = (r, ex', b', u')"
  shows "gds_wf ex' \<and> live_channels ex' = live_channels ex \<and> g_opts ex' = g_opts ex"
  using assms put_through_released [of ex a len]
  by (fastforce simp: PutPart_def Let_def split: if_splits prod.splits)

section \<open>A cooperating server\<close>

text \<open>The RDMA server is connected and grants what one call of the given length asks for.\<close>

definition grants :: "CuAnswers \<Rightarrow> nat \<Rightarrow> GdsExecutor \<Rightarrow> bool" where
  "grants a len ex \<longleftrightarrow> gds_wf ex \<and> g_server ex \<and> g_pool ex \<noteq> None \<and> ca_connected a \<and> ca_alloc a \<noteq> None \<and>
     ca_reg a \<noteq> None \<and> ca_channel a \<noteq> None \<and> 0 < len \<and> len \<le> max_chunk_bytes (g_opts ex)"

lemma grants_lease:
  assumes "grants a len ex" "take_lease a len ex = (l, ex1)"
  shows "lease_ok l" "g_server ex1"
proof -
  obtain p where p: "g_pool ex = Some p" using assms(1) by (auto simp: grants_def)
  have wf: "pool_wf p" using assms(1) p by (simp add: grants_def gds_wf_def)
  let ?i = "PickClass len p"
  have reuse: "lease_ok (\<lparr>has_pool = True, lease_data = cb_buf (last (buckets p ! ?i)),
      lease_capacity = cb_capacity (last (buckets p ! ?i)), lease_mr = cb_mr (last (buckets p ! ?i)), size_class = ?i\<rparr>)"
    if "?i \<noteq> length (size_classes p)" "buckets p ! ?i \<noteq> []"
  proof -
    have "?i < length (buckets p)" using wf that(1) PickClass_spec(1) [of len p] by (simp add: pool_wf_def)
    then show ?thesis using wf last_in_set [OF that(2)] by (auto simp: pool_wf_def lease_ok_def)
  qed
  show "lease_ok l"
    using assms p reuse
    by (auto simp: take_lease_def grants_def Acquire_def Let_def alloc_registered_def split: if_splits option.splits)
      (auto simp: lease_ok_def)
  show "g_server ex1" using assms p by (auto simp: take_lease_def grants_def split: prod.splits)
qed

lemma put_through_granted:
  assumes "grants a len ex" "0 \<le> ca_transferred a"
  shows "\<exists>ex'. put_through a len persist (ex, b) =
      (fst (persist (take (nat (ca_transferred a)) (ca_received a)) b), ex',
       snd (persist (take (nat (ca_transferred a)) (ca_received a)) b)) \<and> g_server ex' \<and> g_pool ex' \<noteq> None"
proof -
  obtain l ex1 where l: "take_lease a len ex = (l, ex1)" by fastforce
  obtain c where c: "ca_channel a = Some c" using assms(1) by (auto simp: grants_def)
  have p1: "g_pool ex1 \<noteq> None" using l assms(1) by (auto simp: take_lease_def grants_def split: prod.splits)
  show ?thesis
    using grants_lease [OF assms(1) l] l c p1 assms
    by (auto simp: put_through_def GetServer_def grants_def Let_def allocateChannelId_def ChannelGuard_release_def
        drop_lease_def split: prod.splits)
qed

section \<open>Histories\<close>

inductive gds_reach :: "'s IBackend \<Rightarrow> GdsExecutor \<Rightarrow> bool" for B where
  init: "gds_reach B (GdsExecutor_init host bind opts)"
| start: "gds_reach B ex \<Longrightarrow> gds_reach B (snd (GdsExecutor_Start was now_connected ex))"
| stop: "gds_reach B ex \<Longrightarrow> gds_reach B (snd (GdsExecutor_Stop ex))"
| opened: "gds_reach B ex \<Longrightarrow> GdsExecutor_OnSessionOpened B conn now s (ex, b) = (r, ex', b') \<Longrightarrow> gds_reach B ex'"
| get: "gds_reach B ex \<Longrightarrow> GetChunk B a s tok off len b ex = (r, ex') \<Longrightarrow> gds_reach B ex'"
| put: "gds_reach B ex \<Longrightarrow> PutChunk B a now s off len (ex, b) = (r', ex', b') \<Longrightarrow> gds_reach B ex'"
| put_part: "gds_reach B ex \<Longrightarrow> PutPart B md5 a now uid pn off len policy (ex, b, u) = (r2, ex', b', u') \<Longrightarrow>
    gds_reach B ex'"

lemma OnSessionOpened_executor:
  "GdsExecutor_OnSessionOpened B conn now s (ex, b) = (r, ex', b') \<Longrightarrow> ex' = ex"
  by (auto simp: GdsExecutor_OnSessionOpened_def Let_def split: if_splits prod.splits sum.splits)

lemma gds_reach_wf: "gds_reach B ex \<Longrightarrow> gds_wf ex \<and> live_channels ex = {#}"
proof (induction rule: gds_reach.induct)
  case (start ex was now_connected)
  have "pool_wf (PinnedBufferPool_init cs n) \<and> owned (PinnedBufferPool_init cs n) []" for cs n
    by (rule pool_reach_ok [OF pool_reach.init])
  then show ?case using start by (simp add: GdsExecutor_Start_def gds_wf_def)
next
  case (opened ex conn now s b r ex' b')
  then show ?case using OnSessionOpened_executor [OF opened.hyps(2)] by simp
next
  case (get ex a s tok off len b r ex')
  then show ?case using GetChunk_released [of ex B a s tok off len b r ex'] by simp
next
  case (put ex a now s off len b r' ex' b')
  then show ?case using PutChunk_released [of ex B a now s off len b r' ex' b'] by simp
next
  case (put_part ex md5 a now uid pn off len policy b u r2 ex' b' u')
  then show ?case using PutPart_released [of ex B md5 a now uid pn off len policy b u r2 ex' b' u'] by simp
qed (simp_all add: GdsExecutor_init_def GdsExecutor_Stop_def gds_wf_def)

lemma stop_releases:
  assumes "gds_wf ex" "GdsExecutor_Stop ex = (Some p, ex')"
  shows "live_buffers p = {#} \<and> live_mrs p = {#}"
proof -
  obtain q where q: "g_pool ex = Some q" "p = Pool_Shutdown q" using assms(2) by (auto simp: GdsExecutor_Stop_def)
  then have "pool_wf p" "owned p []" "pool_shutdown p"
    using Shutdown_ok [of q "[]"] assms(1) by (auto simp: gds_wf_def)
  then show ?thesis by (simp add: pool_wf_def owned_def del: concat_eq_Nil_conv)
qed

section \<open>Properties\<close>


text \<open>A run of chunk requests of one session, each with the answers of the RDMA server and the
  range it asks for; the first component tells whether all were accepted.\<close>

fun put_chunks ::
  "'s IBackend \<Rightarrow> nat \<Rightarrow> Session \<Rightarrow> (CuAnswers \<times> nat \<times> nat) list \<Rightarrow> GdsExecutor \<times> 's
   \<Rightarrow> bool \<times> GdsExecutor \<times> 's" where
  "put_chunks B now s [] eb = (True, eb)"
| "put_chunks B now s ((a, off, len) # cs) eb =
     (let (r, eb) = PutChunk B a now s off len eb; (ok, eb) = put_chunks B now s cs eb in
      (success r \<and> ok, eb))"

text \<open>The documented behaviour of a complete RDMA read: all requested bytes arrive, and the buffer
  starts with the bytes the client has at that range.\<close>

definition delivers :: "bytes \<Rightarrow> CuAnswers \<times> nat \<times> nat \<Rightarrow> bool" where
  "delivers data c \<longleftrightarrow>
     (case c of (a, off, len) \<Rightarrow> 0 < len \<and> off + len \<le> length data \<and> ca_transferred a = int len \<and>
        take len (ca_received a) = take len (drop off data))"

lemma delivers_chunk:
  assumes "delivers data (a, off, len)"
  shows "is_chunk data off (take (nat (ca_transferred a)) (ca_received a))"
    "length (take (nat (ca_transferred a)) (ca_received a)) = len"
proof -
  have r: "take (nat (ca_transferred a)) (ca_received a) = take len (drop off data)" "off + len \<le> length data"
    using assms by (simp_all add: delivers_def)
  show "length (take (nat (ca_transferred a)) (ca_received a)) = len" using r by simp
  show "is_chunk data off (take (nat (ca_transferred a)) (ca_received a))" using r by (simp add: is_chunk_def)
qed

lemma PutChunk_effect:
  assumes "PutChunk B a now s off len (ex, b) = (Inr m, ex', b')" "len \<noteq> 0"
  shows "0 \<le> ca_transferred a" "be_WriteRange B now (s_bucket s) (object_key s) off
      (take (nat (ca_transferred a)) (ca_received a)) (session_total s) b = (Inr m, b')"
proof -
  have "put_through a len (\<lambda>view. be_WriteRange B now (s_bucket s) (object_key s) off view (session_total s))
      (ex, b) = (Inr m, ex', b')"
    using assms by (auto simp: PutChunk_def Let_def split: if_splits)
  from put_through_effect [OF this] show "0 \<le> ca_transferred a"
    "be_WriteRange B now (s_bucket s) (object_key s) off
      (take (nat (ca_transferred a)) (ca_received a)) (session_total s) b = (Inr m, b')"
    by auto
qed

definition covered :: "(CuAnswers \<times> nat \<times> nat) list \<Rightarrow> nat set" where
  "covered cs = (\<Union>(a, off, len) \<in> set cs. {off..<off + len})"

context object_backend
begin

lemma put_chunks_agree:
  assumes "binv b" "room b (length data)" "agrees data K (content (object b (MakeKey (s_bucket s) (object_key s))))"
    and "expected_size s = length data" "\<forall>c \<in> set cs. delivers data c"
    and "put_chunks B now s cs (ex, b) = (True, ex', b')"
  shows "binv b' \<and> agrees data (K \<union> covered cs) (content (object b' (MakeKey (s_bucket s) (object_key s)))) \<and>
    (cs \<noteq> [] \<longrightarrow> object b' (MakeKey (s_bucket s) (object_key s)) \<noteq> None) \<and>
    (\<forall>j. j \<noteq> MakeKey (s_bucket s) (object_key s) \<longrightarrow> object b' j = object b j)"
  using assms
proof (induction cs arbitrary: K ex b)
  case Nil
  then show ?case by (simp add: covered_def)
next
  case (Cons c cs)
  obtain a off len where c: "c = (a, off, len)" by (cases c)
  let ?k = "MakeKey (s_bucket s) (object_key s)" and ?v = "take (nat (ca_transferred a)) (ca_received a)"
  have d: "delivers data (a, off, len)" using Cons.prems(5) c by simp
  have pos: "len \<noteq> 0" "length data \<noteq> 0" using d by (auto simp: delivers_def)
  obtain r ex1 b1 where p: "PutChunk B a now s off len (ex, b) = (r, ex1, b1)" using prod_cases3 by blast
  then have rest: "put_chunks B now s cs (ex1, b1) = (True, ex', b')" and "success r"
    using Cons.prems(6) c by (auto split: prod.splits)
  then obtain m where "r = Inr m" by (cases r) auto
  then have w: "be_WriteRange B now (s_bucket s) (object_key s) off ?v (Some (length data)) b = (Inr m, b1)"
    using PutChunk_effect(2) [of B a now s off len ex b m ex1 b1] p pos Cons.prems(4) by (simp add: session_total_def)
  note step = chunk_written [OF Cons.prems(1-3) delivers_chunk(1) [OF d] w]
  have "room b1 (length data)" using step(2) Cons.prems(2) by simp
  from Cons.IH [OF step(1) this step(4) Cons.prems(4) _ rest] Cons.prems(5)
  have IH: "binv b' \<and> agrees data (K \<union> {off..<off + length ?v} \<union> covered cs) (content (object b' ?k)) \<and>
    (cs \<noteq> [] \<longrightarrow> object b' ?k \<noteq> None) \<and> (\<forall>j. j \<noteq> ?k \<longrightarrow> object b' j = object b1 j)" by simp
  have cov: "K \<union> {off..<off + length ?v} \<union> covered cs = K \<union> covered (c # cs)"
    using c delivers_chunk(2) [OF d] by (auto simp: covered_def)
  show ?case
  proof (cases "cs = []")
    case True
    then have "b' = b1" using rest by simp
    then show ?thesis using IH cov step(5,6) by simp
  next
    case False
    then show ?thesis using IH cov step(5) by simp
  qed
qed

lemma GetChunk_effect:
  assumes "object b (MakeKey (s_bucket s) (object_key s)) = Some data" "off < length data" "0 < len"
    and "GetChunk B a s tok off len b ex = (Inr out, ex')"
  shows "gc_crc32c out = Crc32c (take len (drop off data)) \<and>
    ca_transferred a = int (length (take len (drop off data))) \<and>
    rdma_writes ex' = rdma_writes ex @ [(BuildObjectId s, ParseRemoteBufferAddress tok, take len (drop off data))]"
proof -
  obtain l ex1 where l: "take_lease a len ex = (l, ex1)" by fastforce
  have w1: "rdma_writes ex1 = rdma_writes ex" using l by (auto simp: take_lease_def split: option.splits prod.splits)
  let ?st = "resize len (ca_staging a)"
  obtain z dst where rd: "be_Read B (s_bucket s) (object_key s) off ?st b = Inr (z, dst)"
    using read_ok [of b "s_bucket s" "object_key s" data off ?st] assms(1,2) by auto
  note ch = chunk_read [OF assms(1) less_imp_le [OF assms(2)] rd]
  have z: "z \<noteq> 0" "z = length (take len (drop off data))" using ch(2) assms(2,3) by simp_all
  obtain ex2 where g: "get_with_lease B a s tok off len b ex1 = (Inr out, ex2)" "ex' = drop_lease l ex2"
    using assms(3,4) l by (auto simp: GetChunk_def Let_def split: sum.splits if_splits prod.splits)
  then show ?thesis
    using rd ch(1) z w1
    by (auto simp: get_with_lease_def allocateChannelId_def ChannelGuard_release_def Let_def
        split: option.splits if_splits)
qed

lemma GetChunk_granted:
  assumes "object b (MakeKey (s_bucket s) (object_key s)) = Some data" "off < length data" "grants a len ex"
    and "ca_transferred a = int (length (take len (drop off data)))"
  shows "\<exists>out ex'. GetChunk B a s tok off len b ex = (Inr out, ex')"
proof -
  obtain l ex1 where l: "take_lease a len ex = (l, ex1)" by fastforce
  let ?st = "resize len (ca_staging a)"
  obtain z dst where rd: "be_Read B (s_bucket s) (object_key s) off ?st b = Inr (z, dst)"
    using read_ok [of b "s_bucket s" "object_key s" data off ?st] assms(1,2) by auto
  have z: "z = length (take len (drop off data))" using chunk_read(2) [OF assms(1) less_imp_le [OF assms(2)] rd] by simp
  have "\<exists>out ex2. get_with_lease B a s tok off len b ex1 = (Inr out, ex2)"
    using rd z assms(3,4) by (auto simp: get_with_lease_def allocateChannelId_def grants_def Let_def)
  then show ?thesis
    using grants_lease(1) [OF assms(3) l] l assms(3) by (auto simp: GetChunk_def GetServer_def grants_def Let_def)
qed

end


text \<open>A chunk fetched over GDS carries the object's bytes and their checksum. If a stored object is
  read from an offset inside it and the request succeeds, then exactly one RDMA write was ordered,
  to the address of the client's token, with the bytes of the object from that offset on, as many as asked
  for and present, and the reported CRC-32C is the checksum of exactly these bytes; a transfer of fewer
  bytes is reported as an error.\<close>

theorem gds_get_delivers:
  assumes "bodies (cb_data c) (MakeKey (s_bucket s) (object_key s)) = Some data" "off < length data" "0 < len"
    and "GetChunk memory_backend a s tok off len c ex = (r, ex')"
  shows "let sent = take len (drop off data) in
    (\<forall>out. r = Inr out \<longrightarrow> gc_crc32c out = Crc32c sent \<and> ca_transferred a = int (length sent) \<and>
       rdma_writes ex' = rdma_writes ex @ [(BuildObjectId s, ParseRemoteBufferAddress tok, sent)])"
  using memory_objects.GetChunk_effect [OF assms(1-3)] assms(4) unfolding Let_def by blast

text \<open>A part that arrives as consecutive chunks from offset 0 on, as the client library cuts it.\<close>

fun put_part_chunks ::
  "'s IBackend \<Rightarrow> (bytes \<Rightarrow> bytes) \<Rightarrow> nat \<Rightarrow> string \<Rightarrow> nat \<Rightarrow> string \<Rightarrow> nat \<Rightarrow> (CuAnswers \<times> nat) list \<Rightarrow> string
   \<Rightarrow> GdsExecutor \<times> 's \<times> MultipartUpload option \<Rightarrow> string result \<times> GdsExecutor \<times> 's \<times> MultipartUpload option" where
  "put_part_chunks B md5 now uid pn policy off [] e eb = (Inr e, eb)"
| "put_part_chunks B md5 now uid pn policy off ((a, len) # cs) e eb =
     (case PutPart B md5 a now uid pn off len policy eb of
        (Inl x, eb) \<Rightarrow> (Inl x, eb)
      | (Inr x, eb) \<Rightarrow> put_part_chunks B md5 now uid pn policy (off + len) cs x eb)"

definition received :: "CuAnswers \<times> nat \<Rightarrow> bytes" where
  "received c = take (snd c) (ca_received (fst c))"

definition complete_read :: "CuAnswers \<times> nat \<Rightarrow> bool" where
  "complete_read c \<longleftrightarrow> 0 < snd c \<and> ca_transferred (fst c) = int (snd c) \<and> snd c \<le> length (ca_received (fst c))"

lemma append_part: "write_at (length old) src (resize (length old + length src) old) = old @ src"
  by (simp add: write_at_def resize_def)

lemma PutPart_md5:
  assumes "PutPart B md5 a now uid pn off len ''md5'' (ex, b, Some u) = (Inr e, ex', b', u')" "complete_read (a, len)"
  shows "\<exists>w. be_WritePart B now uid pn off (received (a, len)) b = (Inr w, b') \<and>
    e = digest_etag (md5 (content (part_md5_ctxs u pn) @ received (a, len))) \<and>
    u' = Some (u\<lparr>part_md5_ctxs := (part_md5_ctxs u)(pn \<mapsto> content (part_md5_ctxs u pn) @ received (a, len))\<rparr>)"
proof -
  have "put_through a len (persist_part B md5 now uid pn off ''md5'') (ex, b, Some u) = (Inr e, ex', b', u')"
    using assms by (auto simp: PutPart_def complete_read_def split: if_splits)
  from put_through_effect [OF this]
  have "persist_part B md5 now uid pn off ''md5'' (received (a, len)) (b, Some u) = (Inr e, b', u')"
    using assms(2) by (simp add: received_def complete_read_def)
  then show ?thesis
    by (auto simp: persist_part_def md5_accumulate_def Let_def split: prod.splits sum.splits option.splits)
qed

lemma put_part_chunks_md5:
  assumes "memory_backend_inv c" "fits (cb_data c) (length pre + length (concat (map received cs)))"
    and "\<forall>ch \<in> set cs. complete_read ch"
    and "content (part_md5_ctxs u pn) = pre" "content (staged_parts (cb_data c) uid pn) = pre"
    and "cs = [] \<longrightarrow> e0 = digest_etag (md5 pre)"
    and "put_part_chunks memory_backend md5 now uid pn ''md5'' (length pre) cs e0 (ex, c, Some u) = (Inr e, ex', c', u')"
  shows "e = digest_etag (md5 (pre @ concat (map received cs))) \<and>
    content (staged_parts (cb_data c') uid pn) = pre @ concat (map received cs)"
  using assms
proof (induction cs arbitrary: pre e0 ex c u)
  case Nil
  then show ?case by simp
next
  case (Cons ch cs)
  obtain a len where ch: "ch = (a, len)" by (cases ch)
  let ?d = "received (a, len)"
  have cr: "complete_read (a, len)" and dl: "length ?d = len"
    using Cons.prems(3) ch by (auto simp: complete_read_def received_def)
  obtain x ex1 c1 u1 where p: "PutPart memory_backend md5 a now uid pn (length pre) len ''md5'' (ex, c, Some u) = (Inr x, ex1, c1, u1)"
    and rest: "put_part_chunks memory_backend md5 now uid pn ''md5'' (length pre + len) cs x (ex1, c1, u1) = (Inr e, ex', c', u')"
    using Cons.prems(7) ch by (auto split: prod.splits sum.splits)
  from PutPart_md5 [OF p cr] Cons.prems(4) obtain w where
    w: "be_WritePart memory_backend now uid pn (length pre) ?d c = (Inr w, c1)"
    and x: "x = digest_etag (md5 (pre @ ?d))"
    and u1: "u1 = Some (u\<lparr>part_md5_ctxs := (part_md5_ctxs u)(pn \<mapsto> pre @ ?d)\<rparr>)" by auto
  have room: "fits (cb_data c) (length pre + length ?d)" using Cons.prems(2) ch by (auto simp: fits_def)
  note run = mem.write_part_run [OF Cons.prems(1) room w [unfolded memory_backend_ops]]
  have staged: "content (staged_parts (cb_data c1) uid pn) = pre @ ?d"
    using run(5) [OF refl] Cons.prems(5) by (simp add: append_part)
  have "capacity_bytes (cb_data c1) = capacity_bytes (cb_data c)"
    using capacity_backend(4) [of now uid pn "length pre" ?d c] w by simp
  then have "fits (cb_data c1) (length (pre @ ?d) + length (concat (map received cs)))"
    using Cons.prems(2) ch by (simp add: fits_def add.assoc)
  then show ?case
    using Cons.IH [OF run(1), of "pre @ ?d" "u\<lparr>part_md5_ctxs := (part_md5_ctxs u)(pn \<mapsto> pre @ ?d)\<rparr>" x ex1]
      staged rest u1 x dl ch Cons.prems(3) by simp
qed


section \<open>Examples\<close>

definition example_executor :: GdsExecutor where
  "example_executor = snd (GdsExecutor_Start False True (GdsExecutor_init ''gw'' ''0.0.0.0''
     \<lparr>rdma_port = 18515, buffer_size_classes = [8], buffer_max_per_class = 2, max_chunk_bytes = 1024\<rparr>))"

definition example_answers :: "bytes \<Rightarrow> CuAnswers" where
  "example_answers data =
     \<lparr>ca_connected = True, ca_alloc = Some 100, ca_reg = Some 7, ca_staging = [], ca_channel = Some 3,
      ca_transferred = int (length data), ca_received = data, ca_status = []\<rparr>"

definition example_session :: "nat \<Rightarrow> Session" where
  "example_session n = (new_session (example_env 100) example_params (SessionStore_init ''gw'' 60))\<lparr>expected_size := n\<rparr>"

lemma example_session_fields [simp]:
  "s_bucket (example_session n) = ''b''" "object_key (example_session n) = ''k''" "expected_size (example_session n) = n"
  by (simp_all add: example_session_def example_params_def)

lemmas gds_evals = example_executor_def example_answers_def GdsExecutor_Start_def GdsExecutor_init_def
  PutChunk_def put_through_def GetServer_def take_lease_def drop_lease_def allocateChannelId_def
  ChannelGuard_release_def lease_ok_def pool_evals Lease_Release_def Pool_Release_def Dispose_def session_total_def



theorem gds_get_delivers_witness:
  "\<exists>c ex' out. bodies (cb_data c) (MakeKey ''b'' ''k'') = Some [1, 2, 3] \<and>
     GetChunk memory_backend (example_answers [2, 3]) (example_session 3) ''ff:0'' 1 8 c example_executor = (Inr out, ex') \<and>
     gc_crc32c out = Crc32c [2, 3] \<and> rdma_writes ex' = [(''b/k'', 255, [2, 3])]"
proof -
  let ?c = "snd (be_WriteRange memory_backend 7 ''b'' ''k'' 0 [1, 2, 3] (Some 3) (MemoryBackend_init 10))"
  have body: "bodies (cb_data ?c) (MakeKey ''b'' ''k'') = Some [1, 2, 3]" by (simp add: backend_evals)
  obtain r ex' where g: "GetChunk memory_backend (example_answers [2, 3]) (example_session 3) ''ff:0'' 1 8 ?c
      example_executor = (r, ex')" by fastforce
  have rd: "be_Read memory_backend ''b'' ''k'' 1 (replicate 8 0) ?c = Inr (2, [2, 3] @ replicate 6 0)"
    using memory_objects.read_ok [OF body, of 1 "replicate 8 0"] by (simp add: read_at_def)
  obtain out where out: "r = Inr out"
    using g rd by (auto simp: GetChunk_def get_with_lease_def gds_evals resize_def)
  have "rdma_writes example_executor = []" by (simp add: example_executor_def GdsExecutor_Start_def GdsExecutor_init_def)
  moreover have "ParseRemoteBufferAddress ''ff:0'' = 255"
    by (simp add: ParseRemoteBufferAddress_def strtoull16_def c_str_def hex_prefix_def hex_val_def is_space_def
        u64_mod_def)
  moreover have "BuildObjectId (example_session 3) = ''b/k''" by (simp add: BuildObjectId_def)
  moreover note gds_get_delivers [of ?c "example_session 3" "[1, 2, 3]" 1 8 "example_answers [2, 3]" "''ff:0''" example_executor r ex']
  ultimately show ?thesis using body g out by (auto simp: Let_def)
qed

definition example_upload :: MultipartUpload where
  "example_upload = \<lparr>upload_id = ''u'', u_bucket = ''b'', u_object_key = ''k'', u_data_flow = ''gpu-direct'',
     expected_total_size = None, backend_upload_id = ''m'', u_parts = Map.empty, u_state = kUpActive,
     created_at = 0, last_activity_at = 0, part_md5_ctxs = Map.empty\<rparr>"


end
