(* ===== verification/Ucx_Executor.thy ===== *)
theory Ucx_Executor
  imports Session_Opener Multipart Crc32c Object_Backend "HOL-Library.Multiset"
begin

text \<open>
  \<^verbatim>\<open>gateway/src/data_path/ucx\<close>: the executor of the RDMA-write data path. A client gets the address of a
  registered buffer (\<^verbatim>\<open>PrepareTransfer\<close>), writes it remotely, announces the end by an active message
  (\<^verbatim>\<open>OnAmWriteDone\<close>) and asks for the commit by an RPC; the last two race. Buffers and session entries are shared objects
  and live in lists that stand for the heap. The answers of UCX and of the operating system
  are arguments. A callback that the source keeps as a \<^verbatim>\<open>std::function\<close> is a datatype of the two kinds
  of commit; \<^verbatim>\<open>ux_done\<close> records the completions in the order in which \<^verbatim>\<open>on_done\<close> is called,
  under the number of the RPC that supplied it. \<^verbatim>\<open>ux_fault\<close> is set where the source would
  read through a null or dangling pointer or outside a buffer.
\<close>

section \<open>State\<close>

record RegisteredBuffer =
  rb_capacity :: nat
  rb_raddr :: nat
  rb_rkey :: bytes
  rb_data :: bytes

type_synonym bref = nat
type_synonym eref = nat

text \<open>What a commit will do: store the object, or store a part and register it with the upload. Both
  hold the session id, the number of transferred bytes, the checksum text and the number of the RPC; a part
  also holds the backend's upload id, the upload and the part number.\<close>

datatype Commit =
    CommitObj (c_sid: string) (c_bytes: nat) (c_crc: string) (c_rpc: nat)
  | CommitPart (c_sid: string) (c_backend_uid: string) (c_upload: uref) (c_part: nat) (c_bytes: nat)
      (c_crc: string) (c_rpc: nat)

record UcxSessionEntry =
  ue_session_id :: string
  ue_bucket :: string
  ue_object_key :: string
  ue_expected_bytes :: nat
  ue_slot :: "bref option"
  ue_transfer_bytes :: nat
  ue_write_done :: bool
  ue_pending :: "Commit option"

record UcxOptions =
  listen_port :: nat
  max_msg_bytes :: nat
  buffer_pool_max_idle :: nat

record UcxCommitInfo =
  uc_etag :: string
  uc_version :: string

datatype UcxDone = DoneObject "UcxCommitInfo result" | DonePart "string result"

record 's UcxExecutor =
  ux_public_host :: string
  ux_bind_host :: string
  ux_opts :: UcxOptions
  ux_co :: "'s MultipartCoordinator"
  ux_ctx :: bool
  ux_started :: bool
  ux_slots :: "RegisteredBuffer list"
  ux_live :: "bref multiset"
  ux_pool :: "bref list option"
  ux_entries :: "UcxSessionEntry list"
  ux_registry :: "(string \<rightharpoonup> eref) option"
  ux_done :: "(nat \<times> UcxDone) list"
  ux_fault :: bool

definition UcxExecutor_init ::
  "string \<Rightarrow> string \<Rightarrow> UcxOptions \<Rightarrow> 's MultipartCoordinator \<Rightarrow> 's UcxExecutor" where
  "UcxExecutor_init host bind opts co =
     \<lparr>ux_public_host = host, ux_bind_host = bind, ux_opts = opts, ux_co = co, ux_ctx = False, ux_started = False,
      ux_slots = [], ux_live = {#}, ux_pool = None, ux_entries = [], ux_registry = Some Map.empty,
      ux_done = [], ux_fault = False\<rparr>"

definition MakeUcxError :: "string \<Rightarrow> Error" where
  "MakeUcxError m =
     \<lparr>err_code = kRdmaUnavailable, err_message = m, err_retryable = False, err_request_id = []\<rparr>"

definition kPageSize :: nat where
  "kPageSize = 4096"

definition RoundUpPage :: "nat \<Rightarrow> nat" where
  "RoundUpPage n = u64_sub (u64_add n kPageSize) 1 div kPageSize * kPageSize"

text \<open>Present in the source, and no longer called.\<close>

definition VerifyCrc32c :: "bytes \<Rightarrow> string \<Rightarrow> bool result" where
  "VerifyCrc32c v b64 =
     (if b64 = [] then Success True
      else case ParseBase64Crc32c b64 of
        None \<Rightarrow> Failure (MakeError kBadRequest ''invalid client_checksum format'' False)
      | Some c \<Rightarrow>
          if c \<noteq> Crc32c v then
            Failure (MakeError kInvalidArgument (''UCX CRC32C mismatch: client='' @ dec (unat c) @
              '' server='' @ dec (unat (Crc32c v))) False)
          else Success True)"

section \<open>The pool of registered buffers\<close>

text \<open>Unmapping and freeing a buffer needs the UCX context.\<close>

definition free_slot :: "bref \<Rightarrow> 's UcxExecutor \<Rightarrow> 's UcxExecutor" where
  "free_slot r ux = ux\<lparr>ux_live := ux_live ux - {#r#}, ux_fault := ux_fault ux \<or> \<not> ux_ctx ux\<rparr>"

fun pool_take :: "(bref \<Rightarrow> nat) \<Rightarrow> nat \<Rightarrow> bref list \<Rightarrow> bref option \<times> bref list" where
  "pool_take cap n [] = (None, [])"
| "pool_take cap n (r # rs) =
     (if n \<le> cap r then (Some r, rs) else let (x, rs) = pool_take cap n rs in (x, r # rs))"

definition UcxBufferPool_Acquire :: "nat \<Rightarrow> 's UcxExecutor \<Rightarrow> bref option \<times> 's UcxExecutor" where
  "UcxBufferPool_Acquire n ux =
     (case ux_pool ux of
        None \<Rightarrow> (None, ux)
      | Some pool \<Rightarrow>
          let (x, pool) = pool_take (\<lambda>r. rb_capacity (ux_slots ux ! r)) n pool in
          (x, ux\<lparr>ux_pool := Some pool\<rparr>))"

definition UcxBufferPool_Return :: "bref \<Rightarrow> bref list \<Rightarrow> 's UcxExecutor \<Rightarrow> 's UcxExecutor" where
  "UcxBufferPool_Return r pool ux =
     (if length pool < buffer_pool_max_idle (ux_opts ux) then ux\<lparr>ux_pool := Some (pool @ [r])\<rparr>
      else free_slot r ux)"

definition UcxBufferPool_Drain :: "bref list \<Rightarrow> 's UcxExecutor \<Rightarrow> 's UcxExecutor" where
  "UcxBufferPool_Drain pool ux = (fold free_slot pool ux)\<lparr>ux_pool := Some []\<rparr>"

section \<open>The session registry\<close>

text \<open>Reading through the registry pointer, which \<^verbatim>\<open>Stop\<close> resets.\<close>

definition use_registry :: "'s UcxExecutor \<Rightarrow> 's UcxExecutor" where
  "use_registry ux = (if ux_registry ux = None then ux\<lparr>ux_fault := True\<rparr> else ux)"

definition UcxSessionRegistry_Find :: "string \<Rightarrow> 's UcxExecutor \<Rightarrow> eref option" where
  "UcxSessionRegistry_Find sid ux = Option.bind (ux_registry ux) (\<lambda>m. m sid)"

definition UcxSessionRegistry_Create ::
  "string \<Rightarrow> string \<Rightarrow> string \<Rightarrow> nat \<Rightarrow> 's UcxExecutor \<Rightarrow> 's UcxExecutor" where
  "UcxSessionRegistry_Create sid bucket key expected_bytes ux =
     (let e = \<lparr>ue_session_id = sid, ue_bucket = bucket, ue_object_key = key, ue_expected_bytes = expected_bytes,
               ue_slot = None, ue_transfer_bytes = 0, ue_write_done = False, ue_pending = None\<rparr> in
      ux\<lparr>ux_entries := ux_entries ux @ [e],
         ux_registry := map_option (\<lambda>m. m(sid \<mapsto> length (ux_entries ux))) (ux_registry ux)\<rparr>)"

definition UcxSessionRegistry_Erase :: "string \<Rightarrow> 's UcxExecutor \<Rightarrow> eref option \<times> 's UcxExecutor" where
  "UcxSessionRegistry_Erase sid ux =
     (UcxSessionRegistry_Find sid ux, ux\<lparr>ux_registry := map_option (\<lambda>m. m(sid := None)) (ux_registry ux)\<rparr>)"

definition update_entry :: "eref \<Rightarrow> (UcxSessionEntry \<Rightarrow> UcxSessionEntry) \<Rightarrow> 's UcxExecutor \<Rightarrow> 's UcxExecutor" where
  "update_entry e f ux = ux\<lparr>ux_entries := (ux_entries ux)[e := f (ux_entries ux ! e)]\<rparr>"

section \<open>Lifecycle\<close>

text \<open>The answers during \<^verbatim>\<open>Start\<close>: the error text of each UCX call that fails, whether the worker is
  multi-threaded, and whether the address parses.\<close>

record StartAnswers =
  sa_init :: "string option"
  sa_worker :: "string option"
  sa_multi :: bool
  sa_am :: "string option"
  sa_inet :: bool
  sa_listener :: "string option"

definition UcxExecutor_Start :: "StartAnswers \<Rightarrow> 's UcxExecutor \<Rightarrow> bool result \<times> 's UcxExecutor" where
  "UcxExecutor_Start a ux =
     (if ux_started ux then (Success True, ux)
      else case sa_init a of
        Some m \<Rightarrow> (Failure (MakeUcxError (''ucp_init failed: '' @ m)), ux)
      | None \<Rightarrow>
      case sa_worker a of
        Some m \<Rightarrow> (Failure (MakeUcxError (''ucp_worker_create failed: '' @ m)), ux\<lparr>ux_ctx := False\<rparr>)
      | None \<Rightarrow>
      if \<not> sa_multi a then
        (Failure (MakeUcxError ''UCX worker MULTI thread mode not available; rebuild UCX with --enable-mt''),
         ux\<lparr>ux_ctx := False\<rparr>)
      else case sa_am a of
        Some m \<Rightarrow> (Failure (MakeUcxError (''ucp_worker_set_am_recv_handler failed: '' @ m)), ux\<lparr>ux_ctx := False\<rparr>)
      | None \<Rightarrow>
      let bind_h = (if ux_bind_host ux = [] \<or> ux_bind_host ux = ''0.0.0.0'' then ux_public_host ux else ux_bind_host ux) in
      if \<not> sa_inet a then (Failure (MakeUcxError (''invalid bind_host: '' @ bind_h)), ux\<lparr>ux_ctx := False\<rparr>)
      else case sa_listener a of
        Some m \<Rightarrow> (Failure (MakeUcxError (''ucp_listener_create failed: '' @ m)), ux\<lparr>ux_ctx := False\<rparr>)
      | None \<Rightarrow>
          (Success True,
           ux\<lparr>ux_ctx := True, ux_registry := Some Map.empty, ux_pool := Some [], ux_started := True\<rparr>))"

definition UcxExecutor_Stop :: "'s UcxExecutor \<Rightarrow> 's UcxExecutor" where
  "UcxExecutor_Stop ux =
     (if \<not> ux_started ux then ux
      else
        let ux = ux\<lparr>ux_started := False, ux_ctx := False\<rparr>;
            ux = (case ux_pool ux of None \<Rightarrow> ux | Some pool \<Rightarrow> UcxBufferPool_Drain pool ux) in
        ux\<lparr>ux_registry := None, ux_pool := None\<rparr>)"

definition UcxExecutor_OnSessionOpened :: "Session \<Rightarrow> 's UcxExecutor \<Rightarrow> bool result \<times> 's UcxExecutor" where
  "UcxExecutor_OnSessionOpened s ux =
     (Success True, UcxSessionRegistry_Create (session_id s) (s_bucket s) (object_key s) (expected_size s) (use_registry ux))"

definition ReleaseEntry :: "eref \<Rightarrow> 's UcxExecutor \<Rightarrow> 's UcxExecutor" where
  "ReleaseEntry e ux =
     (case ue_slot (ux_entries ux ! e) of
        None \<Rightarrow> ux
      | Some r \<Rightarrow>
          update_entry e (\<lambda>x. x\<lparr>ue_slot := None\<rparr>)
            (case ux_pool ux of Some pool \<Rightarrow> UcxBufferPool_Return r pool ux | None \<Rightarrow> free_slot r ux))"

section \<open>Preparing a transfer\<close>

record UcxDiscoverInfo =
  di_host :: string
  di_ucx_port :: nat
  di_max_msg_bytes :: nat
  di_raddr :: nat
  di_rkey :: bytes

text \<open>The answers while a new buffer is set up.\<close>

record AllocAnswers =
  aa_alloc :: bool
  aa_mlock :: bool
  aa_map :: "string option"
  aa_raddr :: nat
  aa_pack :: "string option"
  aa_rkey :: bytes

definition discover_info :: "bref \<Rightarrow> 's UcxExecutor \<Rightarrow> UcxDiscoverInfo" where
  "discover_info r ux =
     \<lparr>di_host = ux_public_host ux, di_ucx_port = listen_port (ux_opts ux), di_max_msg_bytes = max_msg_bytes (ux_opts ux),
      di_raddr = rb_raddr (ux_slots ux ! r), di_rkey = rb_rkey (ux_slots ux ! r)\<rparr>"

definition new_slot :: "AllocAnswers \<Rightarrow> nat \<Rightarrow> 's UcxExecutor \<Rightarrow> bref result \<times> 's UcxExecutor" where
  "new_slot a alloc ux =
     (if \<not> aa_alloc a then (Failure (MakeUcxError ''buffer alloc failed''), ux)
      else if \<not> aa_mlock a then (Failure (MakeUcxError ''mlock failed''), ux)
      else case aa_map a of
        Some m \<Rightarrow> (Failure (MakeUcxError (''ucp_mem_map failed: '' @ m)), ux)
      | None \<Rightarrow>
      case aa_pack a of
        Some m \<Rightarrow> (Failure (MakeUcxError (''ucp_rkey_pack failed: '' @ m)), ux)
      | None \<Rightarrow>
          let r = length (ux_slots ux) in
          (Success r,
           ux\<lparr>ux_slots := ux_slots ux @ [\<lparr>rb_capacity = alloc, rb_raddr = aa_raddr a, rb_rkey = aa_rkey a,
                                        rb_data = replicate alloc 0\<rparr>],
              ux_live := add_mset r (ux_live ux)\<rparr>))"

definition PrepareTransfer ::
  "AllocAnswers \<Rightarrow> string \<Rightarrow> nat \<Rightarrow> 's UcxExecutor \<Rightarrow> UcxDiscoverInfo result \<times> 's UcxExecutor" where
  "PrepareTransfer a sid transfer_bytes ux =
     (if \<not> ux_started ux then (Failure (MakeUcxError ''UCX executor not started''), ux)
      else let ux = use_registry ux in
      case UcxSessionRegistry_Find sid ux of
        None \<Rightarrow> (Failure (MakeError kSessionNotFound (''UCX session not found: '' @ sid) False), ux)
      | Some e \<Rightarrow>
      if transfer_bytes = 0 then
        (Failure (MakeError kBadRequest ''PrepareTransfer: transfer_bytes must be > 0'' False), ux)
      else if max_msg_bytes (ux_opts ux) < transfer_bytes then
        (Failure (MakeError kPayloadTooLarge ''object exceeds UCX max_msg_bytes'' False), ux)
      else case ue_slot (ux_entries ux ! e) of
        Some r \<Rightarrow>
          if ue_transfer_bytes (ux_entries ux ! e) \<noteq> transfer_bytes then
            (Failure (MakeError kBadRequest (''PrepareTransfer: transfer_bytes mismatch on retry: expected '' @
               dec (ue_transfer_bytes (ux_entries ux ! e)) @ '' got '' @ dec transfer_bytes) False), ux)
          else (Success (discover_info r ux), ux)
      | None \<Rightarrow>
          let alloc = RoundUpPage (max transfer_bytes kPageSize);
              (slot, ux) = UcxBufferPool_Acquire alloc ux;
              (res, ux) = (case slot of Some r \<Rightarrow> (Success r, ux) | None \<Rightarrow> new_slot a alloc ux) in
          (case res of
             Inl err \<Rightarrow> (Failure err, ux)
           | Inr r \<Rightarrow>
               let ux = update_entry e (\<lambda>x. x\<lparr>ue_slot := Some r, ue_transfer_bytes := transfer_bytes\<rparr>) ux in
               (Success (discover_info r ux), ux)))"

text \<open>The remote write of the client: the adapter puts bytes into a registered buffer.\<close>

definition rma_put :: "bref \<Rightarrow> bytes \<Rightarrow> 's UcxExecutor \<Rightarrow> 's UcxExecutor" where
  "rma_put r data ux =
     (let b = ux_slots ux ! r in
      if length data \<le> rb_capacity b
      then ux\<lparr>ux_slots := (ux_slots ux)[r := b\<lparr>rb_data := write_at 0 data (rb_data b)\<rparr>]\<rparr> else ux)"

section \<open>Commits\<close>

text \<open>The first bytes of the buffer of an entry.\<close>

definition slot_view :: "eref \<Rightarrow> nat \<Rightarrow> 's UcxExecutor \<Rightarrow> bytes \<times> 's UcxExecutor" where
  "slot_view e n ux =
     (case ue_slot (ux_entries ux ! e) of
        None \<Rightarrow> ([], ux\<lparr>ux_fault := True\<rparr>)
      | Some r \<Rightarrow> (take n (rb_data (ux_slots ux ! r)), ux\<lparr>ux_fault := ux_fault ux \<or> rb_capacity (ux_slots ux ! r) < n\<rparr>))"

definition DoCommitObject ::
  "'s IBackend \<Rightarrow> nat \<Rightarrow> eref \<Rightarrow> nat \<Rightarrow> 's UcxExecutor \<Rightarrow> UcxCommitInfo result \<times> 's UcxExecutor" where
  "DoCommitObject B now e bytes_transferred ux =
     (let (view, ux) = slot_view e bytes_transferred ux;
          x = ux_entries ux ! e;
          (wr, b) = be_WriteRange B now (ue_bucket x) (ue_object_key x) 0 view (Some bytes_transferred) (co_backend (ux_co ux));
          ux = ux\<lparr>ux_co := (ux_co ux)\<lparr>co_backend := b\<rparr>\<rparr> in
      (case wr of
         Inl err \<Rightarrow> (Failure err, ux)
       | Inr m \<Rightarrow> (Success \<lparr>uc_etag = etag m, uc_version = version m\<rparr>, ux)))"

definition DoWritePartData ::
  "'s IBackend \<Rightarrow> nat \<Rightarrow> eref \<Rightarrow> string \<Rightarrow> nat \<Rightarrow> nat \<Rightarrow> 's UcxExecutor \<Rightarrow> string result \<times> 's UcxExecutor" where
  "DoWritePartData B now e backend_uid part_number bytes_transferred ux =
     (let (view, ux) = slot_view e bytes_transferred ux;
          (part, b) = be_WritePart B now backend_uid part_number 0 view (co_backend (ux_co ux)) in
      (part, ux\<lparr>ux_co := (ux_co ux)\<lparr>co_backend := b\<rparr>\<rparr>))"

definition release_and_erase :: "string \<Rightarrow> eref \<Rightarrow> 's UcxExecutor \<Rightarrow> 's UcxExecutor" where
  "release_and_erase sid e ux = ReleaseEntry e (snd (UcxSessionRegistry_Erase sid (use_registry ux)))"

definition on_done :: "nat \<Rightarrow> UcxDone \<Rightarrow> 's UcxExecutor \<Rightarrow> 's UcxExecutor" where
  "on_done rpc d ux = ux\<lparr>ux_done := ux_done ux @ [(rpc, d)]\<rparr>"

definition FinishCommitPart ::
  "nat \<Rightarrow> uref \<Rightarrow> nat \<Rightarrow> nat \<Rightarrow> nat \<Rightarrow> string result \<Rightarrow> 's UcxExecutor \<Rightarrow> 's UcxExecutor" where
  "FinishCommitPart now u part_number bytes_transferred rpc write_result ux =
     (case write_result of
        Inl err \<Rightarrow> on_done rpc (DonePart (Failure err)) ux
      | Inr e \<Rightarrow>
          on_done rpc (DonePart (Success e))
            (ux\<lparr>ux_co := RegisterPart now u part_number 0 bytes_transferred e (ux_co ux)\<rparr>))"

text \<open>The body that the fast path, the locked path and the stored callback share.\<close>

definition run_commit :: "'s IBackend \<Rightarrow> nat \<Rightarrow> eref \<Rightarrow> Commit \<Rightarrow> 's UcxExecutor \<Rightarrow> 's UcxExecutor" where
  "run_commit B now e c ux =
     (case c of
        CommitObj sid n crc rpc \<Rightarrow>
          let (r, ux) = DoCommitObject B now e n ux in
          on_done rpc (DoneObject r) (release_and_erase sid e ux)
      | CommitPart sid uid u pn n crc rpc \<Rightarrow>
          let (r, ux) = DoWritePartData B now e uid pn n ux in
          FinishCommitPart now u pn n rpc r (release_and_erase sid e ux))"

definition fail_commit :: "Commit \<Rightarrow> Error \<Rightarrow> 's UcxExecutor \<Rightarrow> 's UcxExecutor" where
  "fail_commit c err ux =
     (case c of CommitObj sid n crc rpc \<Rightarrow> on_done rpc (DoneObject (Failure err)) ux
              | CommitPart sid uid u pn n crc rpc \<Rightarrow> on_done rpc (DonePart (Failure err)) ux)"

definition commit_name :: "Commit \<Rightarrow> string" where
  "commit_name c = (case c of CommitObj _ _ _ _ \<Rightarrow> ''CommitObject'' | CommitPart _ _ _ _ _ _ _ \<Rightarrow> ''CommitPartData'')"

text \<open>The checks before the lock, with the fast path; \<^term>\<open>Some e\<close> means that the locked section follows.\<close>

definition commit_fast :: "'s IBackend \<Rightarrow> nat \<Rightarrow> Commit \<Rightarrow> 's UcxExecutor \<Rightarrow> eref option \<times> 's UcxExecutor" where
  "commit_fast B now c ux =
     (let ux = use_registry ux in
      case UcxSessionRegistry_Find (c_sid c) ux of
        None \<Rightarrow> (None, fail_commit c (MakeError kSessionNotFound
            (''UCX '' @ commit_name c @ '': session not found: '' @ c_sid c) False) ux)
      | Some e \<Rightarrow>
          if ue_slot (ux_entries ux ! e) = None then
            (None, fail_commit c (MakeError kInternal ''UCX session buffer not allocated'' False) ux)
          else if ue_write_done (ux_entries ux ! e) then (None, run_commit B now e c ux)
          else (Some e, ux))"

text \<open>The section under \<^verbatim>\<open>commit_mu\<close>: the second check, then the commit is stored.\<close>

definition commit_locked :: "'s IBackend \<Rightarrow> nat \<Rightarrow> eref \<Rightarrow> Commit \<Rightarrow> 's UcxExecutor \<Rightarrow> bool \<times> 's UcxExecutor" where
  "commit_locked B now e c ux =
     (if ue_write_done (ux_entries ux ! e) then (True, run_commit B now e c ux)
      else (False, update_entry e (\<lambda>x. x\<lparr>ue_pending := Some c\<rparr>) ux))"

definition commit_async :: "'s IBackend \<Rightarrow> nat \<Rightarrow> Commit \<Rightarrow> 's UcxExecutor \<Rightarrow> bool \<times> 's UcxExecutor" where
  "commit_async B now c ux =
     (case commit_fast B now c ux of
        (None, ux) \<Rightarrow> (True, ux)
      | (Some e, ux) \<Rightarrow> commit_locked B now e c ux)"

definition CommitObjectAsync ::
  "'s IBackend \<Rightarrow> nat \<Rightarrow> string \<Rightarrow> nat \<Rightarrow> string \<Rightarrow> nat \<Rightarrow> 's UcxExecutor \<Rightarrow> bool \<times> 's UcxExecutor" where
  "CommitObjectAsync B now sid bytes_transferred crc rpc ux =
     commit_async B now (CommitObj sid bytes_transferred crc rpc) ux"

definition CommitPartDataAsync ::
  "'s IBackend \<Rightarrow> nat \<Rightarrow> string \<Rightarrow> string \<Rightarrow> uref \<Rightarrow> nat \<Rightarrow> nat \<Rightarrow> string \<Rightarrow> nat \<Rightarrow> 's UcxExecutor
   \<Rightarrow> bool \<times> 's UcxExecutor" where
  "CommitPartDataAsync B now sid backend_uid u part_number bytes_transferred crc rpc ux =
     commit_async B now (CommitPart sid backend_uid u part_number bytes_transferred crc rpc) ux"

definition UcxMultipart_CommitPartAsync ::
  "'s IBackend \<Rightarrow> nat \<Rightarrow> string \<Rightarrow> string \<Rightarrow> nat \<Rightarrow> nat \<Rightarrow> string \<Rightarrow> nat \<Rightarrow> 's UcxExecutor
   \<Rightarrow> bool \<times> 's UcxExecutor" where
  "UcxMultipart_CommitPartAsync B now sid uid part_number bytes_transferred crc rpc ux =
     (case Lookup uid (ux_co ux) of
        Inl err \<Rightarrow> (True, on_done rpc (DonePart (Failure err)) ux)
      | Inr u \<Rightarrow>
          CommitPartDataAsync B now sid (backend_upload_id (uploads (co_store (ux_co ux)) ! u)) u part_number
            bytes_transferred crc rpc ux)"

definition OnAmWriteDone :: "'s IBackend \<Rightarrow> nat \<Rightarrow> string \<Rightarrow> 's UcxExecutor \<Rightarrow> 's UcxExecutor" where
  "OnAmWriteDone B now header ux =
     (if header = [] then ux
      else let ux = use_registry ux in
      case UcxSessionRegistry_Find header ux of
        None \<Rightarrow> ux
      | Some e \<Rightarrow>
          let cb = ue_pending (ux_entries ux ! e);
              ux = update_entry e (\<lambda>x. x\<lparr>ue_write_done := True, ue_pending := None\<rparr>) ux in
          (case cb of None \<Rightarrow> ux | Some c \<Rightarrow> run_commit B now e c ux))"

definition AbortSession :: "string \<Rightarrow> 's UcxExecutor \<Rightarrow> bool result \<times> 's UcxExecutor" where
  "AbortSession sid ux =
     (let (entry, ux) = UcxSessionRegistry_Erase sid (use_registry ux) in
      (Success (entry \<noteq> None), case entry of None \<Rightarrow> ux | Some e \<Rightarrow> ReleaseEntry e ux))"

section \<open>Ownership of the buffers\<close>

definition held :: "UcxSessionEntry list \<Rightarrow> bref multiset" where
  "held es = mset (List.map_filter ue_slot es)"

definition opt_mset :: "'a option \<Rightarrow> 'a multiset" where
  "opt_mset x = (case x of None \<Rightarrow> {#} | Some r \<Rightarrow> {#r#})"

lemma opt_mset_simps [simp]: "opt_mset None = {#}" "opt_mset (Some r) = {#r#}"
  by (simp_all add: opt_mset_def)

lemma held_simps [simp]:
  "held [] = {#}" "held (x # xs) = opt_mset (ue_slot x) + held xs" "held (xs @ ys) = held xs + held ys"
  by (auto simp: held_def opt_mset_def List.map_filter_def split: option.splits)

lemma held_update:
  "e < length es \<Longrightarrow> held (es[e := x]) + opt_mset (ue_slot (es ! e)) = held es + opt_mset (ue_slot x)"
proof (induction es arbitrary: e)
  case (Cons y es)
  then show ?case by (cases e) (auto simp: ac_simps)
qed simp

lemma held_same_slot: "ue_slot x = ue_slot (es ! e) \<Longrightarrow> held (es[e := x]) = held es"
proof (cases "e < length es")
  case True
  assume "ue_slot x = ue_slot (es ! e)"
  then show ?thesis using held_update [OF True, of x] by simp
qed (simp add: list_update_beyond)

text \<open>Every live buffer is idle in the pool or held by exactly one entry; an entry that holds a buffer
  is registered, and the buffer is at least as large as the announced transfer; a stored commit belongs to
  its session and asks for no more bytes than were announced.\<close>

definition entry_ok :: "'s UcxExecutor \<Rightarrow> (string \<rightharpoonup> eref) \<Rightarrow> eref \<Rightarrow> bool" where
  "entry_ok ux m e \<longleftrightarrow>
     (let x = ux_entries ux ! e in
      (\<forall>r. ue_slot x = Some r \<longrightarrow> m (ue_session_id x) = Some e \<and> r < length (ux_slots ux) \<and>
         ue_transfer_bytes x \<le> rb_capacity (ux_slots ux ! r)) \<and>
      (\<forall>c. ue_pending x = Some c \<longrightarrow> m (ue_session_id x) = Some e \<longrightarrow>
         c_sid c = ue_session_id x \<and> c_bytes c \<le> ue_transfer_bytes x \<and> ue_slot x \<noteq> None))"

definition ucx_core :: "(string \<rightharpoonup> eref) \<Rightarrow> bref list \<Rightarrow> 's UcxExecutor \<Rightarrow> bool" where
  "ucx_core m pool ux \<longleftrightarrow>
     ux_registry ux = Some m \<and> ux_pool ux = Some pool \<and> ux_ctx ux \<and>
     ux_live ux = mset pool + held (ux_entries ux) \<and> (\<forall>r. count (ux_live ux) r \<le> 1) \<and>
     (\<forall>r \<in># ux_live ux. r < length (ux_slots ux)) \<and>
     (\<forall>b \<in> set (ux_slots ux). length (rb_data b) = rb_capacity b) \<and>
     length pool \<le> buffer_pool_max_idle (ux_opts ux) \<and>
     (\<forall>sid e. m sid = Some e \<longrightarrow> e < length (ux_entries ux) \<and> ue_session_id (ux_entries ux ! e) = sid) \<and>
     (\<forall>e < length (ux_entries ux). entry_ok ux m e) \<and>
     max_msg_bytes (ux_opts ux) + kPageSize < u64_mod"

definition ucx_wf :: "'s UcxExecutor \<Rightarrow> bool" where
  "ucx_wf ux \<longleftrightarrow> (\<exists>m pool. ucx_core m pool ux)"

lemma ucx_coreD:
  assumes "ucx_core m pool ux"
  shows "ux_registry ux = Some m" "ux_pool ux = Some pool" "ux_ctx ux"
    "ux_live ux = mset pool + held (ux_entries ux)" "\<forall>r. count (ux_live ux) r \<le> 1"
    "\<forall>r \<in># ux_live ux. r < length (ux_slots ux)" "\<forall>b \<in> set (ux_slots ux). length (rb_data b) = rb_capacity b"
    "length pool \<le> buffer_pool_max_idle (ux_opts ux)"
    "\<forall>sid e. m sid = Some e \<longrightarrow> e < length (ux_entries ux) \<and> ue_session_id (ux_entries ux ! e) = sid"
    "\<forall>e < length (ux_entries ux). entry_ok ux m e" "max_msg_bytes (ux_opts ux) + kPageSize < u64_mod"
  using assms unfolding ucx_core_def by blast+

lemma ucx_wf_frame [simp]:
  "ucx_wf (ux\<lparr>ux_co := co\<rparr>) = ucx_wf ux" "ucx_wf (ux\<lparr>ux_done := d\<rparr>) = ucx_wf ux"
  "ucx_wf (ux\<lparr>ux_fault := f\<rparr>) = ucx_wf ux" "ucx_wf (on_done rpc x ux) = ucx_wf ux"
  by (simp_all add: ucx_wf_def ucx_core_def entry_ok_def on_done_def)

lemma use_registry_wf [simp]: "ucx_wf ux \<Longrightarrow> use_registry ux = ux"
  by (auto simp: use_registry_def ucx_wf_def ucx_core_def)

lemma RoundUpPage_ge:
  assumes "n + kPageSize < u64_mod"
  shows "n \<le> RoundUpPage n"
proof -
  have "RoundUpPage n = (n + kPageSize - 1) div kPageSize * kPageSize"
    using assms by (simp add: RoundUpPage_def u64_add_exact u64_sub_def kPageSize_def mod_if)
  also have "n \<le> \<dots>" by (simp add: kPageSize_def)
  finally show ?thesis .
qed

lemma entry_ok_cong:
  assumes "entry_ok ux m e" "ue_slot y = ue_slot (ux_entries ux ! e)"
    "ue_session_id y = ue_session_id (ux_entries ux ! e)" "ue_transfer_bytes y = ue_transfer_bytes (ux_entries ux ! e)"
    "\<forall>c. ue_pending y = Some c \<longrightarrow> m (ue_session_id y) = Some e \<longrightarrow>
       c_sid c = ue_session_id y \<and> c_bytes c \<le> ue_transfer_bytes y \<and> ue_slot y \<noteq> None"
    and "ux_entries ux' ! e = y" "ux_slots ux' = ux_slots ux"
  shows "entry_ok ux' m e"
  using assms by (simp add: entry_ok_def Let_def)

lemma ucx_wf_update:
  assumes "ucx_wf ux" "e < length (ux_entries ux)"
    and "ue_slot (f (ux_entries ux ! e)) = ue_slot (ux_entries ux ! e)"
    and "ue_session_id (f (ux_entries ux ! e)) = ue_session_id (ux_entries ux ! e)"
    and "ue_transfer_bytes (f (ux_entries ux ! e)) = ue_transfer_bytes (ux_entries ux ! e)"
    and "\<forall>c. ue_pending (f (ux_entries ux ! e)) = Some c \<longrightarrow>
       c_sid c = ue_session_id (ux_entries ux ! e) \<and> c_bytes c \<le> ue_transfer_bytes (ux_entries ux ! e) \<and>
       ue_slot (ux_entries ux ! e) \<noteq> None"
  shows "ucx_wf (update_entry e f ux)"
proof -
  obtain m pool where c: "ucx_core m pool ux" using assms(1) by (auto simp: ucx_wf_def)
  note w = ucx_coreD [OF c]
  have ok: "entry_ok (update_entry e f ux) m j" if "j < length (ux_entries ux)" for j
    using w(10) that assms(2-6)
    by (cases "j = e") (auto intro: entry_ok_cong simp: update_entry_def entry_ok_def Let_def)
  have "ucx_core m pool (update_entry e f ux)"
    using w ok assms(2-4) held_same_slot [of "f (ux_entries ux ! e)" "ux_entries ux" e]
    by (simp add: ucx_core_def update_entry_def nth_list_update)
  then show ?thesis by (auto simp: ucx_wf_def)
qed

text \<open>Dropping a registered session with its buffer.\<close>

lemma free_slot_fields [simp]:
  "ux_registry (free_slot r ux) = ux_registry ux" "ux_pool (free_slot r ux) = ux_pool ux"
  "ux_ctx (free_slot r ux) = ux_ctx ux" "ux_entries (free_slot r ux) = ux_entries ux"
  "ux_slots (free_slot r ux) = ux_slots ux" "ux_opts (free_slot r ux) = ux_opts ux"
  "ux_live (free_slot r ux) = ux_live ux - {#r#}" "ux_done (free_slot r ux) = ux_done ux" "ux_co (free_slot r ux) = ux_co ux"
  "ux_fault (free_slot r ux) = (ux_fault ux \<or> \<not> ux_ctx ux)"
  by (simp_all add: free_slot_def)

text \<open>The entry gives its buffer back: to the pool while it has room, else to the context.\<close>

lemma release_slot_wf:
  assumes "ucx_core m pool ux" "m sid = Some e" "ue_slot (ux_entries ux ! e) = Some r"
    and "ux' = ReleaseEntry e (ux\<lparr>ux_registry := Some (m(sid := None))\<rparr>)"
  shows "ucx_wf ux' \<and> ux_fault ux' = ux_fault ux \<and> ux_registry ux' = Some (m(sid := None)) \<and> ue_slot (ux_entries ux' ! e) = None"
proof -
  note w = ucx_coreD [OF assms(1)]
  have e: "e < length (ux_entries ux)" "ue_session_id (ux_entries ux ! e) = sid" using w(9) assms(2) by auto
  have others: "ue_slot (ux_entries ux ! j) = None \<or> ue_session_id (ux_entries ux ! j) \<noteq> sid"
    if "j < length (ux_entries ux)" "j \<noteq> e" for j
    using w(10) that assms(2) by (fastforce simp: entry_ok_def Let_def)
  let ?ux = "ux\<lparr>ux_registry := Some (m(sid := None))\<rparr>" and ?y = "(ux_entries ux ! e)\<lparr>ue_slot := None\<rparr>"
  have h: "held ((ux_entries ux)[e := ?y]) + {#r#} = held (ux_entries ux)"
    using held_update [OF e(1), of ?y] assms(3) by simp
  have ok: "entry_ok z (m(sid := None)) j"
    if "j < length (ux_entries ux)" "ux_entries z = (ux_entries ux)[e := ?y]" "ux_slots z = ux_slots ux" for j and z :: "'a UcxExecutor"
    using w(10) that e others [OF that(1)] by (cases "j = e") (auto simp: entry_ok_def Let_def)
  have ids: "\<forall>s j. (m(sid := None)) s = Some j \<longrightarrow> j < length ((ux_entries ux)[e := ?y]) \<and> ue_session_id ((ux_entries ux)[e := ?y] ! j) = s"
    using w(9) e by (auto simp: nth_list_update)
  show ?thesis
  proof (cases "length pool < buffer_pool_max_idle (ux_opts ux)")
    case True
    let ?z = "?ux\<lparr>ux_pool := Some (pool @ [r]), ux_entries := (ux_entries ux)[e := ?y]\<rparr>"
    have "ux' = ?z" using assms(3,4) w(2) True by (simp add: ReleaseEntry_def UcxBufferPool_Return_def update_entry_def)
    moreover have "ux_live ux = mset (pool @ [r]) + held ((ux_entries ux)[e := ?y])" using w(4) h by simp
    moreover have "ucx_core (m(sid := None)) (pool @ [r]) ?z"
      using calculation w ok [where z = ?z] ids True by (simp add: ucx_core_def)
    ultimately show ?thesis using e(1) by (auto simp: ucx_wf_def)
  next
    case False
    let ?z = "(free_slot r ?ux)\<lparr>ux_entries := (ux_entries ux)[e := ?y]\<rparr>"
    have "ux' = ?z" using assms(3,4) w(2) False by (simp add: ReleaseEntry_def UcxBufferPool_Return_def update_entry_def)
    moreover have "ux_live ux - {#r#} = mset pool + held ((ux_entries ux)[e := ?y])"
      using w(4) h by (metis add_diff_cancel_right' union_assoc)
    moreover have "\<forall>x. count (ux_live ux - {#r#}) x \<le> 1" "\<forall>x \<in># ux_live ux - {#r#}. x < length (ux_slots ux)"
      using w(5,6) by (auto dest: in_diffD intro: le_trans [OF diff_le_self])
    moreover have "ucx_core (m(sid := None)) pool ?z" using calculation w ok [where z = ?z] ids by (simp add: ucx_core_def)
    ultimately show ?thesis using e(1) w(3) by (auto simp: ucx_wf_def)
  qed
qed

lemma release_and_erase_wf:
  assumes "ucx_wf ux" "UcxSessionRegistry_Find sid ux = Some e"
  shows "ucx_wf (release_and_erase sid e ux)" "ux_fault (release_and_erase sid e ux) = ux_fault ux"
    "UcxSessionRegistry_Find sid (release_and_erase sid e ux) = None"
    "ue_slot (ux_entries (release_and_erase sid e ux) ! e) = None"
proof -
  obtain m pool where c: "ucx_core m pool ux" using assms(1) by (auto simp: ucx_wf_def)
  note w = ucx_coreD [OF c]
  have m: "m sid = Some e" using assms(2) w(1) by (simp add: UcxSessionRegistry_Find_def)
  let ?ux = "ux\<lparr>ux_registry := Some (m(sid := None))\<rparr>"
  have eq: "release_and_erase sid e ux = ReleaseEntry e ?ux"
    using w(1) assms(1) by (simp add: release_and_erase_def UcxSessionRegistry_Erase_def)
  have "ucx_wf (ReleaseEntry e ?ux) \<and> ux_fault (ReleaseEntry e ?ux) = ux_fault ux \<and>
      ux_registry (ReleaseEntry e ?ux) = Some (m(sid := None)) \<and> ue_slot (ux_entries (ReleaseEntry e ?ux) ! e) = None"
  proof (cases "ue_slot (ux_entries ux ! e)")
    case None
    have "entry_ok ?ux (m(sid := None)) j" if "j < length (ux_entries ux)" for j
      using w(10) that m None by (cases "j = e") (fastforce simp: entry_ok_def Let_def)+
    then have "ucx_core (m(sid := None)) pool ?ux" using w by (simp add: ucx_core_def)
    then show ?thesis using None by (auto simp: ReleaseEntry_def ucx_wf_def)
  qed (rule release_slot_wf [OF c m _ refl])
  then show "ucx_wf (release_and_erase sid e ux)" "ux_fault (release_and_erase sid e ux) = ux_fault ux"
    "UcxSessionRegistry_Find sid (release_and_erase sid e ux) = None"
    "ue_slot (ux_entries (release_and_erase sid e ux) ! e) = None"
    by (simp_all add: eq UcxSessionRegistry_Find_def)
qed

lemma find_ok:
  assumes "ucx_wf ux" "UcxSessionRegistry_Find sid ux = Some e"
  shows "e < length (ux_entries ux)" "ue_session_id (ux_entries ux ! e) = sid"
    "ue_slot (ux_entries ux ! e) = Some r \<Longrightarrow> r < length (ux_slots ux) \<and>
       ue_transfer_bytes (ux_entries ux ! e) \<le> rb_capacity (ux_slots ux ! r) \<and>
       length (rb_data (ux_slots ux ! r)) = rb_capacity (ux_slots ux ! r)"
    "ue_pending (ux_entries ux ! e) = Some c \<Longrightarrow> c_sid c = sid \<and>
       c_bytes c \<le> ue_transfer_bytes (ux_entries ux ! e) \<and> ue_slot (ux_entries ux ! e) \<noteq> None"
proof -
  obtain m pool where c: "ucx_core m pool ux" using assms(1) by (auto simp: ucx_wf_def)
  note w = ucx_coreD [OF c]
  have m: "m sid = Some e" using assms(2) w(1) by (simp add: UcxSessionRegistry_Find_def)
  show e: "e < length (ux_entries ux)" and sid: "ue_session_id (ux_entries ux ! e) = sid" using m w(9) by auto
  have ok: "entry_ok ux m e" using w(10) e by blast
  show "ue_slot (ux_entries ux ! e) = Some r \<Longrightarrow> r < length (ux_slots ux) \<and>
       ue_transfer_bytes (ux_entries ux ! e) \<le> rb_capacity (ux_slots ux ! r) \<and>
       length (rb_data (ux_slots ux ! r)) = rb_capacity (ux_slots ux ! r)"
    using ok w(7) by (simp add: entry_ok_def Let_def)
  show "ue_pending (ux_entries ux ! e) = Some c \<Longrightarrow> c_sid c = sid \<and>
       c_bytes c \<le> ue_transfer_bytes (ux_entries ux ! e) \<and> ue_slot (ux_entries ux ! e) \<noteq> None"
    for c using ok m sid by (simp add: entry_ok_def Let_def)
qed

lemma Create_wf:
  assumes "ucx_wf ux" "UcxSessionRegistry_Find sid ux = None"
  shows "ucx_wf (UcxSessionRegistry_Create sid b k n ux)"
proof -
  obtain m pool where c: "ucx_core m pool ux" using assms(1) by (auto simp: ucx_wf_def)
  note w = ucx_coreD [OF c]
  let ?ux = "UcxSessionRegistry_Create sid b k n ux" and ?m = "m(sid \<mapsto> length (ux_entries ux))"
  have none: "m sid = None" using assms(2) w(1) by (simp add: UcxSessionRegistry_Find_def)
  have "entry_ok ?ux ?m j" if "j < length (ux_entries ?ux)" for j
  proof (cases "j < length (ux_entries ux)")
    case True
    then have "entry_ok ux m j" using w(10) by blast
    then show ?thesis using True none
      by (auto simp: entry_ok_def Let_def UcxSessionRegistry_Create_def nth_append)
  next
    case False
    then have "j = length (ux_entries ux)" using that by (simp add: UcxSessionRegistry_Create_def Let_def)
    then show ?thesis by (simp add: entry_ok_def Let_def UcxSessionRegistry_Create_def nth_append)
  qed
  moreover have "\<forall>s j. ?m s = Some j \<longrightarrow> j < length (ux_entries ?ux) \<and> ue_session_id (ux_entries ?ux ! j) = s"
    using w(9) by (auto simp: UcxSessionRegistry_Create_def Let_def nth_append intro: less_SucI)
  ultimately have "ucx_core ?m pool ?ux" using w by (simp add: ucx_core_def UcxSessionRegistry_Create_def Let_def)
  then show ?thesis by (auto simp: ucx_wf_def)
qed

lemma rma_put_wf:
  assumes "ucx_wf ux"
  shows "ucx_wf (rma_put r data ux)"
proof (cases "r < length (ux_slots ux) \<and> length data \<le> rb_capacity (ux_slots ux ! r)")
  case True
  obtain m pool where c: "ucx_core m pool ux" using assms(1) by (auto simp: ucx_wf_def)
  note w = ucx_coreD [OF c]
  let ?b = "ux_slots ux ! r"
  let ?b' = "?b\<lparr>rb_data := write_at 0 data (rb_data ?b)\<rparr>"
  have put: "rma_put r data ux = ux\<lparr>ux_slots := (ux_slots ux)[r := ?b']\<rparr>"
    using True by (simp add: rma_put_def Let_def)
  have cap: "rb_capacity ((ux_slots ux)[r := ?b'] ! j) = rb_capacity (ux_slots ux ! j)" for j
    using True by (cases "j = r") simp_all
  have "length (write_at 0 data (rb_data ?b)) = rb_capacity ?b" using True w(7) by simp
  then have "\<forall>b \<in> set ((ux_slots ux)[r := ?b']). length (rb_data b) = rb_capacity b"
    using w(7) by (auto dest!: set_update_subset_insert [THEN subsetD])
  moreover have "\<forall>e < length (ux_entries ux). entry_ok (rma_put r data ux) m e"
    using w(10) cap by (simp add: put entry_ok_def Let_def)
  ultimately have "ucx_core m pool (rma_put r data ux)" using w by (simp add: ucx_core_def put)
  then show ?thesis by (auto simp: ucx_wf_def)
next
  case False
  then have "rma_put r data ux = ux" by (auto simp: rma_put_def Let_def list_update_beyond not_less)
  then show ?thesis using assms by simp
qed

text \<open>Taking a buffer from the pool.\<close>

lemma pool_take_spec:
  "pool_take cap n rs = (x, rs') \<Longrightarrow> mset rs = opt_mset x + mset rs' \<and> length rs' \<le> length rs \<and>
     (\<forall>r. x = Some r \<longrightarrow> n \<le> cap r)"
  by (induction rs arbitrary: x rs') (fastforce split: if_splits prod.splits simp: Let_def)+

lemma assign_slot_wf:
  assumes "ux_registry ux = Some m" "ux_pool ux = Some pool" "ux_ctx ux"
    and "ux_live ux = mset pool + held (ux_entries ux) + {#r#}" "\<forall>r. count (ux_live ux) r \<le> 1"
    and "\<forall>r \<in># ux_live ux. r < length (ux_slots ux)" "\<forall>b \<in> set (ux_slots ux). length (rb_data b) = rb_capacity b"
    and "length pool \<le> buffer_pool_max_idle (ux_opts ux)"
    and "\<forall>sid e. m sid = Some e \<longrightarrow> e < length (ux_entries ux) \<and> ue_session_id (ux_entries ux ! e) = sid"
    and "\<forall>e < length (ux_entries ux). entry_ok ux m e" "max_msg_bytes (ux_opts ux) + kPageSize < u64_mod"
    and "m sid = Some e" "ue_slot (ux_entries ux ! e) = None" "n \<le> rb_capacity (ux_slots ux ! r)"
  shows "ucx_wf (update_entry e (\<lambda>x. x\<lparr>ue_slot := Some r, ue_transfer_bytes := n\<rparr>) ux)"
proof -
  let ?y = "(ux_entries ux ! e)\<lparr>ue_slot := Some r, ue_transfer_bytes := n\<rparr>"
  let ?z = "update_entry e (\<lambda>x. x\<lparr>ue_slot := Some r, ue_transfer_bytes := n\<rparr>) ux"
  have e: "e < length (ux_entries ux)" "ue_session_id (ux_entries ux ! e) = sid" using assms(9,12) by auto
  have h: "held ((ux_entries ux)[e := ?y]) = held (ux_entries ux) + {#r#}"
    using held_update [OF e(1), of ?y] assms(13) by simp
  have nopend: "ue_pending (ux_entries ux ! e) = None"
    using assms(10,12,13) e by (fastforce simp: entry_ok_def Let_def)
  have r: "r < length (ux_slots ux)" using assms(4,6) by auto
  have "entry_ok ?z m j" if "j < length (ux_entries ux)" for j
  proof (cases "j = e")
    case True
    then show ?thesis using e r nopend assms(12,14) by (simp add: entry_ok_def Let_def update_entry_def)
  next
    case False
    then show ?thesis using assms(10) that by (auto simp: entry_ok_def Let_def update_entry_def)
  qed
  moreover have "\<forall>s j. m s = Some j \<longrightarrow> j < length (ux_entries ?z) \<and> ue_session_id (ux_entries ?z ! j) = s"
    using assms(9) e by (auto simp: update_entry_def nth_list_update)
  ultimately have "ucx_core m pool ?z"
    using assms h by (simp add: ucx_core_def update_entry_def ac_simps)
  then show ?thesis by (auto simp: ucx_wf_def)
qed

lemma new_slot_cases:
  "new_slot a n ux = (res, ux') \<Longrightarrow>
    (isl res \<and> ux' = ux) \<or>
    (res = Inr (length (ux_slots ux)) \<and>
     ux' = ux\<lparr>ux_slots := ux_slots ux @ [\<lparr>rb_capacity = n, rb_raddr = aa_raddr a, rb_rkey = aa_rkey a, rb_data = replicate n 0\<rparr>],
               ux_live := add_mset (length (ux_slots ux)) (ux_live ux)\<rparr>)"
  by (auto simp: new_slot_def Let_def split: if_splits option.splits)

lemma entry_ok_more_slots:
  "entry_ok ux m e \<Longrightarrow> ux_entries ux' = ux_entries ux \<Longrightarrow> ux_slots ux' = ux_slots ux @ bs \<Longrightarrow> entry_ok ux' m e"
  by (auto simp: entry_ok_def Let_def nth_append)

lemma slot_from_pool_wf:
  assumes "ucx_core m pool ux" "m sid = Some e" "ue_slot (ux_entries ux ! e) = None"
    and "pool_take (\<lambda>r. rb_capacity (ux_slots ux ! r)) n pool = (Some r, pool')" "k \<le> n"
  shows "ucx_wf (update_entry e (\<lambda>x. x\<lparr>ue_slot := Some r, ue_transfer_bytes := k\<rparr>) (ux\<lparr>ux_pool := Some pool'\<rparr>))"
proof -
  note w = ucx_coreD [OF assms(1)]
  have t: "mset pool = {#r#} + mset pool'" "length pool' \<le> length pool" "n \<le> rb_capacity (ux_slots ux ! r)"
    using pool_take_spec [OF assms(4)] by auto
  let ?ux = "ux\<lparr>ux_pool := Some pool'\<rparr>"
  have "ux_live ?ux = mset pool' + held (ux_entries ?ux) + {#r#}" using w(4) t(1) by simp
  moreover have "\<forall>e < length (ux_entries ?ux). entry_ok ?ux m e" using w(10) by (simp add: entry_ok_def)
  ultimately show ?thesis
    using w assms(2,3,5) t by (intro assign_slot_wf [where m = m and pool = pool' and sid = sid]) auto
qed

lemma fresh_slot_wf:
  assumes "ucx_core m pool ux" "m sid = Some e" "ue_slot (ux_entries ux ! e) = None"
    and "ux' = ux\<lparr>ux_slots := ux_slots ux @ [b], ux_live := add_mset (length (ux_slots ux)) (ux_live ux)\<rparr>"
    and "k \<le> rb_capacity b" "length (rb_data b) = rb_capacity b"
  shows "ucx_wf (update_entry e (\<lambda>x. x\<lparr>ue_slot := Some (length (ux_slots ux)), ue_transfer_bytes := k\<rparr>) ux')"
proof -
  note w = ucx_coreD [OF assms(1)]
  let ?r = "length (ux_slots ux)"
  have new: "?r \<notin># ux_live ux" using w(6) by blast
  have "\<forall>x. count (ux_live ux') x \<le> 1" using w(5) new by (auto simp: assms(4) not_in_iff)
  moreover have "\<forall>x \<in># ux_live ux'. x < length (ux_slots ux')" using w(6) by (auto simp: assms(4))
  moreover have "\<forall>e < length (ux_entries ux'). entry_ok ux' m e"
    using w(10) entry_ok_more_slots [of ux m _ ux' "[b]"] assms(4) by simp
  moreover have "ux_live ux' = mset pool + held (ux_entries ux') + {#?r#}" using w(4) by (simp add: assms(4))
  ultimately show ?thesis
    using w assms(2,3,5,6)
    by (intro assign_slot_wf [where m = m and pool = pool and sid = sid]) (auto simp: assms(4))
qed

lemma pool_take_none: "pool_take cap n rs = (None, rs') \<Longrightarrow> rs' = rs"
  by (induction rs arbitrary: rs') (auto split: if_splits prod.splits)

lemma PrepareTransfer_wf:
  assumes "ucx_wf ux" "PrepareTransfer a sid k ux = (res, ux')"
  shows "ucx_wf ux' \<and> ux_fault ux' = ux_fault ux \<and> ux_done ux' = ux_done ux \<and> ux_co ux' = ux_co ux"
proof (cases "isl res \<or> ux' = ux")
  case True
  obtain m pool where c: "ucx_core m pool ux" using assms(1) by (auto simp: ucx_wf_def)
  have "ux' = ux"
    using True assms ucx_coreD(2) [OF c]
    by (auto simp: PrepareTransfer_def Let_def UcxBufferPool_Acquire_def new_slot_def
        split: if_splits option.splits prod.splits sum.splits dest!: pool_take_none)
  then show ?thesis using assms(1) by simp
next
  case False
  obtain m pool where c: "ucx_core m pool ux" using assms(1) by (auto simp: ucx_wf_def)
  note w = ucx_coreD [OF c]
  let ?n = "RoundUpPage (max k kPageSize)"
  obtain x pool' where t: "pool_take (\<lambda>r. rb_capacity (ux_slots ux ! r)) ?n pool = (x, pool')" by fastforce
  obtain e where e: "m sid = Some e" "ue_slot (ux_entries ux ! e) = None" "k \<le> max_msg_bytes (ux_opts ux)"
    using False assms w(1)
    by (auto simp: PrepareTransfer_def Let_def UcxSessionRegistry_Find_def split: if_splits option.splits)
  have page: "k \<le> ?n"
  proof -
    have "max k kPageSize + kPageSize < u64_mod"
      using e(3) w(11) by (simp add: kPageSize_def u64_mod_def)
    from RoundUpPage_ge [OF this] show ?thesis by simp
  qed
  show ?thesis
  proof (cases x)
    case (Some r)
    have "ux' = update_entry e (\<lambda>x. x\<lparr>ue_slot := Some r, ue_transfer_bytes := k\<rparr>) (ux\<lparr>ux_pool := Some pool'\<rparr>)"
      using assms False e w(1,2) t Some
      by (auto simp: PrepareTransfer_def Let_def UcxSessionRegistry_Find_def UcxBufferPool_Acquire_def split: if_splits)
    then show ?thesis using slot_from_pool_wf [OF c e(1,2) t [unfolded Some] page] by (simp add: update_entry_def)
  next
    case None
    then have "pool' = pool" using t pool_take_none by blast
    then have same: "ux\<lparr>ux_pool := Some pool'\<rparr> = ux" using w(2) by simp
    obtain q ux1 where q: "new_slot a ?n ux = (q, ux1)" by fastforce
    let ?b = "\<lparr>rb_capacity = ?n, rb_raddr = aa_raddr a, rb_rkey = aa_rkey a, rb_data = replicate ?n 0\<rparr>"
    have run: "\<not> isl q \<and> ux' = update_entry e (\<lambda>x. x\<lparr>ue_slot := Some (projr q), ue_transfer_bytes := k\<rparr>) ux1"
      using assms False e w(1,2) t None q same
      by (auto simp: PrepareTransfer_def Let_def UcxSessionRegistry_Find_def UcxBufferPool_Acquire_def
          split: if_splits sum.splits)
    have "q = Inr (length (ux_slots ux))"
      "ux1 = ux\<lparr>ux_slots := ux_slots ux @ [?b], ux_live := add_mset (length (ux_slots ux)) (ux_live ux)\<rparr>"
      using new_slot_cases [OF q] run by auto
    then show ?thesis
      using run fresh_slot_wf [OF c e(1,2), of ux1 ?b k] page by (simp add: update_entry_def)
  qed
qed

section \<open>Commits keep the invariant\<close>

lemma slot_view_ok:
  assumes "ucx_wf ux" "UcxSessionRegistry_Find sid ux = Some e" "ue_slot (ux_entries ux ! e) = Some r"
    and "n \<le> ue_transfer_bytes (ux_entries ux ! e)"
  shows "slot_view e n ux = (take n (rb_data (ux_slots ux ! r)), ux)"
  using assms(3,4) find_ok(3) [OF assms(1-3)] by (auto simp: slot_view_def)

lemma run_commit_wf:
  assumes "ucx_wf ux" "UcxSessionRegistry_Find sid ux = Some e" "ue_slot (ux_entries ux ! e) \<noteq> None"
    and "c_sid c = sid" "c_bytes c \<le> ue_transfer_bytes (ux_entries ux ! e)"
  shows "ucx_wf (run_commit B now e c ux) \<and> ux_fault (run_commit B now e c ux) = ux_fault ux \<and>
    UcxSessionRegistry_Find sid (run_commit B now e c ux) = None \<and>
    (\<exists>d. ux_done (run_commit B now e c ux) = ux_done ux @ [(c_rpc c, d)])"
proof -
  obtain r where r: "ue_slot (ux_entries ux ! e) = Some r" using assms(3) by auto
  note view = slot_view_ok [OF assms(1,2) r assms(5)]
  have find: "UcxSessionRegistry_Find sid (ux\<lparr>ux_co := co\<rparr>) = Some e" for co
    using assms(2) by (simp add: UcxSessionRegistry_Find_def)
  have rel: "ucx_wf (release_and_erase sid e (ux\<lparr>ux_co := co\<rparr>)) \<and>
      ux_fault (release_and_erase sid e (ux\<lparr>ux_co := co\<rparr>)) = ux_fault ux \<and>
      UcxSessionRegistry_Find sid (release_and_erase sid e (ux\<lparr>ux_co := co\<rparr>)) = None" for co
    using release_and_erase_wf(1-3) [OF _ find, of co] assms(1) by simp
  have done_rel: "ux_done (release_and_erase sid e (ux\<lparr>ux_co := co\<rparr>)) = ux_done ux" for co
    by (simp add: release_and_erase_def UcxSessionRegistry_Erase_def ReleaseEntry_def use_registry_def
        UcxBufferPool_Return_def update_entry_def split: option.splits)
  show ?thesis
  proof (cases c)
    case (CommitObj sid' n crc rpc)
    then show ?thesis
      using view rel done_rel assms(4,5)
      by (auto simp: run_commit_def DoCommitObject_def Let_def on_done_def UcxSessionRegistry_Find_def
          split: prod.splits sum.splits)
  next
    case (CommitPart sid' uid u pn n crc rpc)
    then show ?thesis
      using view rel done_rel assms(4,5)
      by (auto simp: run_commit_def DoWritePartData_def FinishCommitPart_def Let_def on_done_def
          UcxSessionRegistry_Find_def split: prod.splits sum.splits)
  qed
qed

text \<open>What the client promises with a commit: it names no more bytes than it announced.\<close>

definition commit_allowed :: "Commit \<Rightarrow> 's UcxExecutor \<Rightarrow> bool" where
  "commit_allowed c ux \<longleftrightarrow>
     (\<forall>e. UcxSessionRegistry_Find (c_sid c) ux = Some e \<longrightarrow> ue_slot (ux_entries ux ! e) \<noteq> None \<longrightarrow>
        c_bytes c \<le> ue_transfer_bytes (ux_entries ux ! e))"

lemma fail_commit_fields [simp]:
  "ucx_wf (fail_commit c err ux) = ucx_wf ux" "ux_fault (fail_commit c err ux) = ux_fault ux"
  by (simp_all add: fail_commit_def on_done_def split: Commit.splits)

lemma commit_async_wf:
  assumes "ucx_wf ux" "commit_allowed c ux"
  shows "ucx_wf (snd (commit_async B now c ux)) \<and> ux_fault (snd (commit_async B now c ux)) = ux_fault ux"
proof (cases "UcxSessionRegistry_Find (c_sid c) ux")
  case None
  then show ?thesis using assms(1) by (simp add: commit_async_def commit_fast_def Let_def)
next
  case (Some e)
  note f = find_ok [OF assms(1) Some]
  show ?thesis
  proof (cases "ue_slot (ux_entries ux ! e)")
    case None
    then show ?thesis using assms(1) Some by (simp add: commit_async_def commit_fast_def Let_def)
  next
    case (Some r)
    then have n: "c_bytes c \<le> ue_transfer_bytes (ux_entries ux ! e)"
      using assms(2) \<open>UcxSessionRegistry_Find (c_sid c) ux = Some e\<close> by (simp add: commit_allowed_def)
    show ?thesis
    proof (cases "ue_write_done (ux_entries ux ! e)")
      case True
      then show ?thesis
        using run_commit_wf [OF assms(1) \<open>UcxSessionRegistry_Find (c_sid c) ux = Some e\<close> _ refl n, of B now]
          assms(1) Some \<open>UcxSessionRegistry_Find (c_sid c) ux = Some e\<close>
        by (simp add: commit_async_def commit_fast_def Let_def)
    next
      case False
      have "ucx_wf (update_entry e (\<lambda>x. x\<lparr>ue_pending := Some c\<rparr>) ux)"
        using f(1,2) n Some by (intro ucx_wf_update [OF assms(1)]) auto
      then show ?thesis
        using False assms(1) Some \<open>UcxSessionRegistry_Find (c_sid c) ux = Some e\<close>
        by (simp add: commit_async_def commit_fast_def commit_locked_def update_entry_def Let_def)
    qed
  qed
qed

lemma OnAmWriteDone_wf:
  assumes "ucx_wf ux"
  shows "ucx_wf (OnAmWriteDone B now sid ux) \<and> ux_fault (OnAmWriteDone B now sid ux) = ux_fault ux"
proof (cases "UcxSessionRegistry_Find sid ux")
  case None
  then show ?thesis using assms by (simp add: OnAmWriteDone_def Let_def)
next
  case (Some e)
  let ?u = "update_entry e (\<lambda>x. x\<lparr>ue_write_done := True, ue_pending := None\<rparr>) ux"
  note f = find_ok [OF assms Some]
  have wf: "ucx_wf ?u" using f(1) by (intro ucx_wf_update [OF assms]) auto
  have fl: "ux_fault ?u = ux_fault ux" by (simp add: update_entry_def)
  have find: "UcxSessionRegistry_Find sid ?u = Some e" "ue_slot (ux_entries ?u ! e) = ue_slot (ux_entries ux ! e)"
    "ue_transfer_bytes (ux_entries ?u ! e) = ue_transfer_bytes (ux_entries ux ! e)"
    using Some f(1) by (simp_all add: UcxSessionRegistry_Find_def update_entry_def)
  show ?thesis
  proof (cases "ue_pending (ux_entries ux ! e)")
    case None
    then show ?thesis using assms Some wf fl by (simp add: OnAmWriteDone_def Let_def)
  next
    case (Some c)
    then show ?thesis
      using run_commit_wf [OF wf find(1), of c B now] f(4) [OF Some] find fl assms \<open>UcxSessionRegistry_Find sid ux = Some e\<close>
      by (simp add: OnAmWriteDone_def Let_def)
  qed
qed

lemma AbortSession_wf:
  assumes "ucx_wf ux"
  shows "ucx_wf (snd (AbortSession sid ux)) \<and> ux_fault (snd (AbortSession sid ux)) = ux_fault ux"
proof (cases "UcxSessionRegistry_Find sid ux")
  case None
  then have "ux_registry ux = Some m \<Longrightarrow> m(sid := None) = m" for m by (auto simp: UcxSessionRegistry_Find_def)
  then have "ux\<lparr>ux_registry := map_option (\<lambda>m. m(sid := None)) (ux_registry ux)\<rparr> = ux"
    by (cases "ux_registry ux") simp_all
  then show ?thesis using None assms by (simp add: AbortSession_def UcxSessionRegistry_Erase_def Let_def)
next
  case (Some e)
  then have "snd (AbortSession sid ux) = release_and_erase sid e ux"
    using assms by (simp add: AbortSession_def release_and_erase_def UcxSessionRegistry_Erase_def Let_def)
  then show ?thesis using release_and_erase_wf [OF assms Some] by simp
qed

section \<open>Histories\<close>

text \<open>A started executor with sessions opened under fresh identifiers, transfers prepared, remote
  writes, active messages, commits and aborts in any order; other components may use the coordinator and the
  backend in between.\<close>

inductive ucx_reach :: "'s IBackend \<Rightarrow> 's UcxExecutor \<Rightarrow> bool" for B where
  started: "UcxExecutor_Start a (UcxExecutor_init host bind opts co) = (Inr True, ux) \<Longrightarrow>
    max_msg_bytes opts + kPageSize < u64_mod \<Longrightarrow> ucx_reach B ux"
| opened: "ucx_reach B ux \<Longrightarrow> UcxSessionRegistry_Find (session_id s) ux = None \<Longrightarrow>
    ucx_reach B (snd (UcxExecutor_OnSessionOpened s ux))"
| prepare: "ucx_reach B ux \<Longrightarrow> ucx_reach B (snd (PrepareTransfer aa sid k ux))"
| remote_write: "ucx_reach B ux \<Longrightarrow> ucx_reach B (rma_put r data ux)"
| write_done: "ucx_reach B ux \<Longrightarrow> ucx_reach B (OnAmWriteDone B now sid ux)"
| commit: "ucx_reach B ux \<Longrightarrow> commit_allowed (CommitObj sid n crc rpc) ux \<Longrightarrow>
    ucx_reach B (snd (CommitObjectAsync B now sid n crc rpc ux))"
| commit_part: "ucx_reach B ux \<Longrightarrow> (\<forall>uid u. commit_allowed (CommitPart sid uid u pn n crc rpc) ux) \<Longrightarrow>
    ucx_reach B (snd (UcxMultipart_CommitPartAsync B now sid up pn n crc rpc ux))"
| abort: "ucx_reach B ux \<Longrightarrow> ucx_reach B (snd (AbortSession sid ux))"
| others: "ucx_reach B ux \<Longrightarrow> ucx_reach B (ux\<lparr>ux_co := co'\<rparr>)"

lemma rma_put_fault [simp]: "ux_fault (rma_put r data ux) = ux_fault ux"
  by (simp add: rma_put_def Let_def)

lemma started_wf:
  assumes "UcxExecutor_Start a (UcxExecutor_init host bind opts co) = (Inr True, ux)"
    and "max_msg_bytes opts + kPageSize < u64_mod"
  shows "ucx_wf ux \<and> \<not> ux_fault ux"
proof -
  have ux: "ux = (UcxExecutor_init host bind opts co)
      \<lparr>ux_ctx := True, ux_registry := Some Map.empty, ux_pool := Some [], ux_started := True\<rparr>"
    using assms(1) by (auto simp: UcxExecutor_Start_def UcxExecutor_init_def Let_def split: if_splits option.splits)
  then have "ucx_core Map.empty [] ux" using assms(2) by (simp add: ucx_core_def UcxExecutor_init_def)
  then show ?thesis using ux by (auto simp: ucx_wf_def UcxExecutor_init_def)
qed

lemma ucx_reach_wf: "ucx_reach B ux \<Longrightarrow> ucx_wf ux \<and> \<not> ux_fault ux"
proof (induction rule: ucx_reach.induct)
  case (started a host bind opts co ux)
  then show ?case by (rule started_wf)
next
  case (opened ux s)
  then show ?case
    using Create_wf [of ux "session_id s" "s_bucket s" "object_key s" "expected_size s"]
    by (simp add: UcxExecutor_OnSessionOpened_def) (simp add: UcxSessionRegistry_Create_def Let_def)
next
  case (prepare ux aa sid k)
  then show ?case using PrepareTransfer_wf [of ux aa sid k, OF _ surjective_pairing] by simp
next
  case (remote_write ux r data)
  then show ?case using rma_put_wf [of ux r data] by simp
next
  case (write_done ux now sid)
  then show ?case using OnAmWriteDone_wf [of ux B now sid] by simp
next
  case (commit ux sid n crc rpc now)
  then show ?case
    using commit_async_wf [of ux "CommitObj sid n crc rpc" B now] by (simp add: CommitObjectAsync_def)
next
  case (commit_part ux sid pn n crc rpc now up)
  have "ucx_wf (snd (CommitPartDataAsync B now sid x u pn n crc rpc ux)) \<and>
      ux_fault (snd (CommitPartDataAsync B now sid x u pn n crc rpc ux)) = ux_fault ux" for x u
    using commit_async_wf [of ux "CommitPart sid x u pn n crc rpc" B now] commit_part by (simp add: CommitPartDataAsync_def)
  then show ?case
    using commit_part.IH by (simp add: UcxMultipart_CommitPartAsync_def split: sum.splits) (simp add: on_done_def)
next
  case (abort ux sid)
  then show ?case using AbortSession_wf [of ux sid] by simp
qed simp

lemma in_held:
  assumes "e < length es" "ue_slot (es ! e) = Some r"
  shows "held es = held (es[e := (es ! e)\<lparr>ue_slot := None\<rparr>]) + {#r#}"
  using held_update [OF assms(1), of "(es ! e)\<lparr>ue_slot := None\<rparr>"] assms(2) by simp

lemma held_twice:
  assumes "i < length es" "j < length es" "i \<noteq> j" "ue_slot (es ! i) = Some r" "ue_slot (es ! j) = Some r"
  shows "2 \<le> count (held es) r"
proof -
  let ?es = "es[i := (es ! i)\<lparr>ue_slot := None\<rparr>]"
  have "held ?es = held (?es[j := (?es ! j)\<lparr>ue_slot := None\<rparr>]) + {#r#}"
    using assms by (intro in_held) auto
  then show ?thesis using in_held [OF assms(1,4)] by simp
qed

lemma no_pending: "ue_pending x = None \<Longrightarrow> x\<lparr>ue_write_done := b, ue_pending := None\<rparr> = x\<lparr>ue_write_done := b\<rparr>"
  by (cases x) simp

section \<open>Properties\<close>


text \<open>C23: the end of a remote write and the commit RPC may race. For a prepared session without an earlier
  message or commit, the active message before the commit, the commit before the message, and the message
  between the unlocked check and the locked section of the commit all lead to the same state: the one in which the commit
  ran exactly once after the message. The RPC is answered synchronously unless it came first.\<close>

theorem ucx_commit_race:
  fixes B :: "'s IBackend" and now :: nat
  assumes "ucx_wf ux" "UcxSessionRegistry_Find sid ux = Some e" "ue_slot (ux_entries ux ! e) \<noteq> None"
    and "\<not> ue_write_done (ux_entries ux ! e)" "ue_pending (ux_entries ux ! e) = None" "sid \<noteq> []" "c_sid c = sid"
  defines "final \<equiv> run_commit B now e c (update_entry e (\<lambda>x. x\<lparr>ue_write_done := True\<rparr>) ux)"
  shows "commit_async B now c (OnAmWriteDone B now' sid ux) = (True, final) \<and>
    fst (commit_async B now' c ux) = False \<and> OnAmWriteDone B now sid (snd (commit_async B now' c ux)) = final \<and>
    commit_fast B now' c ux = (Some e, ux) \<and>
    commit_locked B now e c (OnAmWriteDone B now' sid ux) = (True, final) \<and>
    (\<exists>d. c_bytes c \<le> ue_transfer_bytes (ux_entries ux ! e) \<longrightarrow> ux_done final = ux_done ux @ [(c_rpc c, d)])"
proof -
  note f = find_ok [OF assms(1,2)]
  let ?x = "ux_entries ux ! e"
  let ?u = "update_entry e (\<lambda>x. x\<lparr>ue_write_done := True\<rparr>) ux"
  have up: "update_entry e (\<lambda>x. x\<lparr>ue_write_done := True, ue_pending := None\<rparr>) ux = ?u"
    using assms(5) by (simp add: update_entry_def no_pending)
  have am: "OnAmWriteDone B t sid ux = ?u" for t
    using assms(1,2,5,6) up by (simp add: OnAmWriteDone_def Let_def)
  have wf: "ucx_wf ?u" using f(1) assms(5) by (intro ucx_wf_update [OF assms(1)]) auto
  have u: "UcxSessionRegistry_Find sid ?u = Some e" "ux_entries ?u ! e = ?x\<lparr>ue_write_done := True\<rparr>" "ux_done ?u = ux_done ux"
    using assms(2) f(1) by (simp_all add: UcxSessionRegistry_Find_def update_entry_def)
  have fast: "commit_fast B now' c ux = (Some e, ux)"
    using assms by (simp add: commit_fast_def Let_def)
  let ?p = "update_entry e (\<lambda>x. x\<lparr>ue_pending := Some c\<rparr>) ux"
  have pend: "commit_async B now' c ux = (False, ?p)"
    using fast assms(4) by (simp add: commit_async_def commit_locked_def)
  have "use_registry ?p = ?p"
    using use_registry_wf [OF assms(1)] assms(2) by (auto simp: use_registry_def update_entry_def UcxSessionRegistry_Find_def)
  moreover have "UcxSessionRegistry_Find sid ?p = Some e" "ue_pending (ux_entries ?p ! e) = Some c"
    using assms(2) f(1) by (simp_all add: UcxSessionRegistry_Find_def update_entry_def)
  moreover have "?x\<lparr>ue_pending := Some c, ue_write_done := True, ue_pending := None\<rparr> = ?x\<lparr>ue_write_done := True\<rparr>"
    using no_pending [OF assms(5), of True] by simp
  then have "update_entry e (\<lambda>x. x\<lparr>ue_write_done := True, ue_pending := None\<rparr>) ?p = ?u"
    using f(1) by (simp add: update_entry_def)
  ultimately have late: "OnAmWriteDone B now sid ?p = final"
    using assms(6) by (simp add: OnAmWriteDone_def Let_def final_def)
  have "commit_async B now c ?u = (True, final)"
    using wf u assms(3,7) by (auto simp: commit_async_def commit_fast_def Let_def final_def)
  moreover have "commit_locked B now e c ?u = (True, final)" using u by (simp add: commit_locked_def final_def)
  moreover have "\<exists>d. c_bytes c \<le> ue_transfer_bytes ?x \<longrightarrow> ux_done final = ux_done ux @ [(c_rpc c, d)]"
    using run_commit_wf [OF wf u(1), of c B now] u assms(3,7) by (auto simp: final_def)
  ultimately show ?thesis using am fast pend late by simp
qed

text \<open>What one commit of an object does.\<close>

lemma commit_object_effect:
  assumes "ucx_wf ux" "UcxSessionRegistry_Find sid ux = Some e" "ue_slot (ux_entries ux ! e) = Some r"
    and "n \<le> ue_transfer_bytes (ux_entries ux ! e)"
    and "be_WriteRange B now (ue_bucket (ux_entries ux ! e)) (ue_object_key (ux_entries ux ! e)) 0
       (take n (rb_data (ux_slots ux ! r))) (Some n) (co_backend (ux_co ux)) = (Inr m, b)"
  shows "ux_done (run_commit B now e (CommitObj sid n crc rpc) ux) =
      ux_done ux @ [(rpc, DoneObject (Inr \<lparr>uc_etag = etag m, uc_version = version m\<rparr>))] \<and>
    co_backend (ux_co (run_commit B now e (CommitObj sid n crc rpc) ux)) = b"
  using slot_view_ok [OF assms(1-4)] assms(5)
  by (simp add: run_commit_def DoCommitObject_def Let_def on_done_def release_and_erase_def UcxSessionRegistry_Erase_def
      ReleaseEntry_def use_registry_def UcxBufferPool_Return_def update_entry_def split: option.splits)

text \<open>C25: an object committed over the RDMA path is what the client wrote. When a prepared session's
  buffer was written remotely with all announced bytes and the end of the write was announced, a commit of
  that many bytes that the backend accepts stores exactly these bytes under the bucket and key of the
  session, leaves every other object unchanged, reports the etag and version of the stored object once to the
  RPC, and the session is gone.\<close>

theorem ucx_put_roundtrip:
  assumes "ucx_wf ux" "UcxSessionRegistry_Find sid ux = Some e" "ue_slot (ux_entries ux ! e) = Some r"
    and "length data = ue_transfer_bytes (ux_entries ux ! e)" "data \<noteq> []" "sid \<noteq> []"
    and "ue_pending (ux_entries ux ! e) = None"
    and "memory_backend_reach cap (co_backend (ux_co ux))" "cap + length data < u64_mod"
    and "commit_async memory_backend now (CommitObj sid (length data) crc rpc)
           (OnAmWriteDone memory_backend now' sid (rma_put r data ux)) = (sync, ux')"
    and "ux_done ux' = ux_done ux @ [(rpc, DoneObject (Inr info))]"
  shows "sync \<and> bodies (cb_data (co_backend (ux_co ux')))
      (MakeKey (ue_bucket (ux_entries ux ! e)) (ue_object_key (ux_entries ux ! e))) = Some data \<and>
    (\<forall>j. j \<noteq> MakeKey (ue_bucket (ux_entries ux ! e)) (ue_object_key (ux_entries ux ! e)) \<longrightarrow>
       bodies (cb_data (co_backend (ux_co ux'))) j = bodies (cb_data (co_backend (ux_co ux))) j) \<and>
    UcxSessionRegistry_Find sid ux' = None"
proof -
  let ?x = "ux_entries ux ! e" and ?n = "length data" and ?c = "CommitObj sid (length data) crc rpc"
  let ?b = "co_backend (ux_co ux)"
  note f = find_ok [OF assms(1,2)]
  have cap: "r < length (ux_slots ux)" "length data \<le> rb_capacity (ux_slots ux ! r)"
      "length (rb_data (ux_slots ux ! r)) = rb_capacity (ux_slots ux ! r)"
    using f(3) [OF assms(3)] assms(4) by auto
  let ?p = "rma_put r data ux"
  let ?u = "update_entry e (\<lambda>x. x\<lparr>ue_write_done := True, ue_pending := None\<rparr>) ?p"
  have p: "ux_entries ?p = ux_entries ux" "ux_registry ?p = ux_registry ux" "ux_co ?p = ux_co ux" "ux_done ?p = ux_done ux"
    by (simp_all add: rma_put_def Let_def)
  have put: "take ?n (rb_data (ux_slots ?p ! r)) = data"
    using cap by (simp add: rma_put_def Let_def write_at_def)
  have wf: "ucx_wf ?p" using rma_put_wf [OF assms(1)] .
  have find: "UcxSessionRegistry_Find sid ?p = Some e" using assms(2) p(2) by (simp add: UcxSessionRegistry_Find_def)
  have am: "OnAmWriteDone memory_backend now' sid ?p = ?u"
    using wf find assms(6,7) p(1) by (simp add: OnAmWriteDone_def Let_def)
  have wfu: "ucx_wf ?u" using f(1) p(1) by (intro ucx_wf_update [OF wf]) auto
  have u: "UcxSessionRegistry_Find sid ?u = Some e" "ux_entries ?u ! e = ?x\<lparr>ue_write_done := True, ue_pending := None\<rparr>"
    "ux_slots ?u = ux_slots ?p" "ux_co ?u = ux_co ux" "ux_done ?u = ux_done ux"
    using find f(1) p by (simp_all add: UcxSessionRegistry_Find_def update_entry_def)
  have run: "sync" "ux' = run_commit memory_backend now e ?c ?u"
    using assms(10) am wfu u assms(3) by (auto simp: commit_async_def commit_fast_def Let_def)
  have gone: "UcxSessionRegistry_Find sid ux' = None"
    using run_commit_wf [OF wfu u(1), of ?c memory_backend now] u(2) assms(3,4) run(2) by simp
  have inv: "memory_backend_inv ?b" "fits (cb_data ?b) ?n"
    using memory_backend_reach_inv [OF assms(8)] assms(9) by (auto simp: fits_def)
  obtain w b where wr: "be_WriteRange memory_backend now (ue_bucket ?x) (ue_object_key ?x) 0 data (Some ?n) ?b = (w, b)"
    by fastforce
  have view: "slot_view e ?n ?u = (data, ?u)"
    using slot_view_ok [OF wfu u(1), of r ?n] u put assms(3,4) by simp
  have "w = Inl x \<Longrightarrow> snd (last (ux_done ux')) = DoneObject (Inl x)" for x
    using wr view u by (simp add: run(2) run_commit_def DoCommitObject_def Let_def on_done_def)
  then obtain m where m: "w = Inr m" using assms(11) by (cases w) auto
  have "co_backend (ux_co ux') = b"
    using commit_object_effect [OF wfu u(1), of r ?n memory_backend now m b crc rpc] u put assms(3,4) wr m run(2) by simp
  moreover have "is_chunk data 0 data" by (simp add: is_chunk_def)
  note memory_objects.chunk_written [OF inv _ this wr [unfolded m], of "{}"]
  ultimately show ?thesis
    using run(1) gone agrees_all [of data] assms(5)
    by (auto simp: agrees_def lessThan_atLeast0)
qed

section \<open>Where the executor loses or misuses a buffer\<close>

text \<open>Opening a session again under the identifier of a registered one, as the idempotent \<^verbatim>\<open>OpenSession\<close>
  does, replaces the entry: its buffer stays allocated and no lookup or release reaches it any more.\<close>

lemma reopen_loses_buffer:
  assumes "ucx_wf ux" "UcxSessionRegistry_Find (session_id s) ux = Some e" "ue_slot (ux_entries ux ! e) = Some r"
  defines "ux' \<equiv> snd (UcxExecutor_OnSessionOpened s ux)"
  shows "r \<in># ux_live ux' \<and> r \<notin> set (the (ux_pool ux')) \<and>
    (\<forall>sid e'. UcxSessionRegistry_Find sid ux' = Some e' \<longrightarrow> ue_slot (ux_entries ux' ! e') \<noteq> Some r)"
proof -
  obtain m pool where c: "ucx_core m pool ux" using assms(1) by (auto simp: ucx_wf_def)
  note w = ucx_coreD [OF c] and f = find_ok [OF assms(1,2)]
  have held: "held (ux_entries ux) = held ((ux_entries ux)[e := (ux_entries ux ! e)\<lparr>ue_slot := None\<rparr>]) + {#r#}"
    by (rule in_held [OF f(1) assms(3)])
  have one: "count (mset pool) r + count (held (ux_entries ux)) r \<le> 1" using w(5) by (simp add: w(4))
  have ux': "ux_live ux' = ux_live ux" "ux_pool ux' = Some pool"
      "ux_registry ux' = Some (m(session_id s \<mapsto> length (ux_entries ux)))"
    using w(1,2) assms(1) by (simp_all add: ux'_def UcxExecutor_OnSessionOpened_def UcxSessionRegistry_Create_def Let_def)
  have "ue_slot (ux_entries ux' ! e') \<noteq> Some r" if "UcxSessionRegistry_Find sid ux' = Some e'" for sid e'
  proof (cases "sid = session_id s")
    case True
    then show ?thesis using that assms(1)
      by (auto simp: ux'_def UcxExecutor_OnSessionOpened_def UcxSessionRegistry_Create_def UcxSessionRegistry_Find_def
          Let_def nth_append split: bind_splits)
  next
    case False
    then have old: "UcxSessionRegistry_Find sid ux = Some e'" using that ux'(3) w(1) by (simp add: UcxSessionRegistry_Find_def)
    have e': "e' < length (ux_entries ux)" "e' \<noteq> e" using find_ok(1,2) [OF assms(1) old] f(2) False by auto
    then have "ue_slot (ux_entries ux ! e') \<noteq> Some r"
      using held_twice [OF e'(1) f(1) e'(2) _ assms(3)] one by force
    then show ?thesis using e' assms(1)
      by (simp add: ux'_def UcxExecutor_OnSessionOpened_def UcxSessionRegistry_Create_def Let_def nth_append)
  qed
  moreover have "count (mset pool) r = 0" using one held by simp
  then have "r \<notin> set pool" by (simp add: count_eq_zero_iff)
  ultimately show ?thesis using ux'(1,2) w(4) held by auto
qed

text \<open>\<^verbatim>\<open>Stop\<close> destroys the UCX context before it drains the pool, so unmapping an idle buffer uses a
  context that is gone.\<close>

lemma stop_drains_after_cleanup:
  assumes "ux_started ux" "ux_pool ux = Some (r # pool)"
  shows "ux_fault (UcxExecutor_Stop ux)"
proof -
  have "ux_fault (fold free_slot rs u)" if "ux_fault u" for rs and u :: "'a UcxExecutor"
    using that by (induction rs arbitrary: u) (simp_all add: free_slot_def)
  then show ?thesis using assms by (simp add: UcxExecutor_Stop_def UcxBufferPool_Drain_def Let_def free_slot_def)
qed

text \<open>A second commit of a session that still waits for the end of the write replaces the first: its
  callback is gone, and the message completes only the second RPC.\<close>

lemma second_commit_replaces_first:
  assumes "ucx_wf ux" "UcxSessionRegistry_Find sid ux = Some e" "ue_slot (ux_entries ux ! e) \<noteq> None"
    and "\<not> ue_write_done (ux_entries ux ! e)" "c_sid c1 = sid" "c_sid c2 = sid"
  shows "ue_pending (ux_entries (snd (commit_async B now2 c2 (snd (commit_async B now1 c1 ux)))) ! e) = Some c2"
proof -
  note f = find_ok(1) [OF assms(1,2)]
  have step: "commit_async B t c u = (False, update_entry e (\<lambda>x. x\<lparr>ue_pending := Some c\<rparr>) u)"
    if "UcxSessionRegistry_Find sid u = Some e" "ue_slot (ux_entries u ! e) \<noteq> None" "\<not> ue_write_done (ux_entries u ! e)"
      "c_sid c = sid" for t c u
  proof -
    have "use_registry u = u" using that(1) by (auto simp: use_registry_def UcxSessionRegistry_Find_def)
    then show ?thesis using that by (auto simp: commit_async_def commit_fast_def commit_locked_def Let_def)
  qed
  show ?thesis
    using assms step [OF assms(2-5)] f
      step [where u = "update_entry e (\<lambda>x. x\<lparr>ue_pending := Some c1\<rparr>) ux" and c = c2]
    by (simp add: update_entry_def UcxSessionRegistry_Find_def)
qed

section \<open>Examples\<close>

definition example_ucx :: "MemoryBackend UcxExecutor" where
  "example_ucx = snd (UcxExecutor_Start
     \<lparr>sa_init = None, sa_worker = None, sa_multi = True, sa_am = None, sa_inet = True, sa_listener = None\<rparr>
     (UcxExecutor_init ''10.0.0.1'' [] \<lparr>listen_port = 18520, max_msg_bytes = 8192, buffer_pool_max_idle = 1\<rparr>
        (MemoryCoordinator_init 10 60 8 0)))"

definition example_alloc :: AllocAnswers where
  "example_alloc = \<lparr>aa_alloc = True, aa_mlock = True, aa_map = None, aa_raddr = 4096, aa_pack = None, aa_rkey = [7]\<rparr>"

definition example_prepared :: "MemoryBackend UcxExecutor" where
  "example_prepared = snd (PrepareTransfer example_alloc ''s1'' 2
     (snd (UcxExecutor_OnSessionOpened
        (new_session (example_env 100) example_params (SessionStore_init ''gw'' 60)) example_ucx)))"

lemma example_prepared_reach: "ucx_reach memory_backend example_prepared"
proof -
  let ?a = "\<lparr>sa_init = None, sa_worker = None, sa_multi = True, sa_am = None, sa_inet = True, sa_listener = None\<rparr>"
  let ?o = "\<lparr>listen_port = 18520, max_msg_bytes = 8192, buffer_pool_max_idle = 1\<rparr>"
  have "UcxExecutor_Start ?a (UcxExecutor_init ''10.0.0.1'' [] ?o (MemoryCoordinator_init 10 60 8 0)) = (Inr True, example_ucx)"
    by (simp add: example_ucx_def UcxExecutor_Start_def UcxExecutor_init_def Let_def)
  from ucx_reach.started [OF this] have "ucx_reach memory_backend example_ucx"
    by (simp add: kPageSize_def u64_mod_def)
  then show ?thesis
    unfolding example_prepared_def
    by (intro ucx_reach.prepare ucx_reach.opened)
      (simp_all add: example_ucx_def UcxExecutor_Start_def UcxExecutor_init_def Let_def UcxSessionRegistry_Find_def)
qed

lemmas ucx_evals = example_prepared_def example_ucx_def example_alloc_def UcxExecutor_Start_def UcxExecutor_init_def
  PrepareTransfer_def UcxExecutor_OnSessionOpened_def UcxSessionRegistry_Create_def UcxSessionRegistry_Find_def
  use_registry_def UcxBufferPool_Acquire_def new_slot_def update_entry_def RoundUpPage_def kPageSize_def
  u64_add_def u64_sub_def u64_mod_def new_session_def example_params_def Let_def

lemma example_prepared_facts:
  "UcxSessionRegistry_Find ''s1'' example_prepared = Some 0" "ue_slot (ux_entries example_prepared ! 0) = Some 0"
  "ue_transfer_bytes (ux_entries example_prepared ! 0) = 2" "\<not> ue_write_done (ux_entries example_prepared ! 0)"
  "ue_pending (ux_entries example_prepared ! 0) = None" "ux_done example_prepared = []"
  "ue_bucket (ux_entries example_prepared ! 0) = ''b''" "ue_object_key (ux_entries example_prepared ! 0) = ''k''"
  "co_backend (ux_co example_prepared) = MemoryBackend_init 10"
  by (simp_all add: ucx_evals MemoryCoordinator_init_def)

lemma example_prepared_wf: "ucx_wf example_prepared"
  using ucx_reach_wf [OF example_prepared_reach] by simp


theorem ucx_commit_race_witness:
  "let c = CommitObj ''s1'' 2 [] 9; ux = example_prepared in
   ucx_wf ux \<and> snd (commit_async memory_backend 5 c (OnAmWriteDone memory_backend 4 ''s1'' ux)) =
     OnAmWriteDone memory_backend 5 ''s1'' (snd (commit_async memory_backend 4 c ux))"
  using ucx_commit_race [OF example_prepared_wf, of "''s1''" 0 "CommitObj ''s1'' 2 [] 9" memory_backend 5 4]
    example_prepared_facts example_prepared_wf by (simp add: Let_def)

theorem ucx_put_roundtrip_witness:
  "\<exists>ux' info. commit_async memory_backend 5 (CommitObj ''s1'' 2 [] 9)
      (OnAmWriteDone memory_backend 4 ''s1'' (rma_put 0 [1, 2] example_prepared)) = (True, ux') \<and>
    ux_done ux' = [(9, DoneObject (Inr info))] \<and>
    bodies (cb_data (co_backend (ux_co ux'))) (MakeKey ''b'' ''k'') = Some [1, 2]"
proof -
  let ?u = "OnAmWriteDone memory_backend 4 ''s1'' (rma_put 0 [1, 2] example_prepared)"
  obtain sync ux' where c: "commit_async memory_backend 5 (CommitObj ''s1'' (length [1, 2 :: byte]) [] 9) ?u = (sync, ux')"
    by fastforce
  have reach: "memory_backend_reach 10 (co_backend (ux_co example_prepared))" "10 + length [1, 2 :: byte] < u64_mod"
    using example_prepared_facts(9) by (simp_all add: u64_mod_def memory_backend_reach.init)
  obtain info where d: "ux_done ux' = ux_done example_prepared @ [(9, DoneObject (Inr info))]"
    using c example_prepared_facts
    by (auto simp: ucx_evals OnAmWriteDone_def rma_put_def commit_async_def commit_fast_def run_commit_def
        DoCommitObject_def slot_view_def on_done_def release_and_erase_def UcxSessionRegistry_Erase_def ReleaseEntry_def
        UcxBufferPool_Return_def backend_evals MemoryCoordinator_init_def)
  have "sync \<and> bodies (cb_data (co_backend (ux_co ux'))) (MakeKey ''b'' ''k'') = Some [1, 2]"
    using ucx_put_roundtrip [OF example_prepared_wf example_prepared_facts(1,2) _ _ _ example_prepared_facts(5) reach c d]
      example_prepared_facts by simp
  then show ?thesis using c d example_prepared_facts(6) by (auto simp: numeral_2_eq_2)
qed

end
