(* ===== verification/Control_Plane.thy ===== *)
theory Control_Plane
  imports Rpc_Messages Gds_Executor Ucx_Executor
begin

text \<open>
  The RPC services of the gateway (\<^verbatim>\<open>gateway/src/api\<close>), the application services they call
  (\<^verbatim>\<open>core/multipart/multipart_app_service.cpp\<close>) and one round of \<^verbatim>\<open>core/session/session_sweeper.cpp\<close>, over the
  state of a whole gateway: the session store, the two executors, and the multipart coordinator with the
  storage backend behind it. A handler returns the error text given to \<^verbatim>\<open>SetFailed\<close> or the response message;
  a protobuf message is a record with its fields. Metrics are not modelled.
\<close>

section \<open>State\<close>

text \<open>The coordinator and the backend are those of \<^verbatim>\<open>ux_co (gw_ucx gw)\<close>: every component
  of the gateway refers to the same objects.\<close>

record 's Gateway =
  gw_sessions :: SessionStore
  gw_gds_enabled :: bool
  gw_gds :: GdsExecutor
  gw_ucx_enabled :: bool
  gw_ucx :: "'s UcxExecutor"

abbreviation gw_co :: "'s Gateway \<Rightarrow> 's MultipartCoordinator" where
  "gw_co gw \<equiv> ux_co (gw_ucx gw)"

definition set_co :: "'s MultipartCoordinator \<Rightarrow> 's Gateway \<Rightarrow> 's Gateway" where
  "set_co co gw = gw\<lparr>gw_ucx := (gw_ucx gw)\<lparr>ux_co := co\<rparr>\<rparr>"

definition set_backend :: "'s \<Rightarrow> 's Gateway \<Rightarrow> 's Gateway" where
  "set_backend b gw = set_co ((gw_co gw)\<lparr>co_backend := b\<rparr>) gw"

section \<open>Conversions\<close>

definition ToOpenSessionParams :: "OpenSessionRequest \<Rightarrow> OpenSessionParams" where
  "ToOpenSessionParams q =
     \<lparr>req_session_id = osr_session_id q, req_request_id = osr_request_id q, req_bucket = osr_bucket q,
      req_object_key = osr_object_key q, req_op = ParseOperationType (osr_op_type q),
      req_data_flow = ParseDataFlow (osr_data_flow q), req_buffer_type = osr_buffer_type q,
      req_offset = osr_offset q, req_expected_size = osr_expected_size q,
      req_idempotency_key = osr_idempotency_key q, req_is_multipart_part = osr_is_multipart_part q\<rparr>"

definition FillOpenSessionResponse :: "Session \<Rightarrow> OpenSessionResponse" where
  "FillOpenSessionResponse s =
     \<lparr>osp_request_id = request_id s, osp_session_id = session_id s, osp_ticket = ticket s,
      osp_gateway_id = gateway_id s, osp_data_endpoint = [], osp_expire_at = expire_at s\<rparr>"

definition FillGdsResponse ::
  "string \<Rightarrow> string \<Rightarrow> string \<Rightarrow> string \<Rightarrow> string \<Rightarrow> 32 word \<Rightarrow> GdsChunkResponse" where
  "FillGdsResponse gid status reply e v crc =
     \<lparr>gcp_selected_gateway = gid, gcp_gateway_id = gid, gcp_transfer_status = status, gcp_rdma_reply = reply, gcp_etag = e, gcp_version = v,
      gcp_crc32c = crc, gcp_bytes_received = 0\<rparr>"

definition ToStartUploadParams :: "StartUploadRequest \<Rightarrow> StartUploadParams" where
  "ToStartUploadParams q =
     \<lparr>sup_bucket = su_bucket q, sup_object_key = su_object_key q,
      sup_expected_total_size = (if su_expected_total_size q \<noteq> 0 then Some (su_expected_total_size q) else None),
      sup_data_flow = su_data_flow q, sup_idempotency_key = su_idempotency_key q\<rparr>"

definition ToPartRecords :: "(nat \<times> string) list \<Rightarrow> PartRecord list" where
  "ToPartRecords ps = map (\<lambda>(n, e). \<lparr>pr_part_number = n, pr_etag = e\<rparr>) ps"

section \<open>Application services\<close>

definition MultipartApp_StartUpload ::
  "'s IBackend \<Rightarrow> nat \<Rightarrow> StartUploadParams \<Rightarrow> 's MultipartCoordinator
   \<Rightarrow> StartUploadResult result \<times> 's MultipartCoordinator" where
  "MultipartApp_StartUpload B now params co = CreateUpload B now params co"

definition MultipartApp_CompleteUpload ::
  "'s IBackend \<Rightarrow> nat \<Rightarrow> string \<Rightarrow> PartRecord list \<Rightarrow> string \<Rightarrow> 's MultipartCoordinator
   \<Rightarrow> ObjectMetadata result \<times> 's MultipartCoordinator" where
  "MultipartApp_CompleteUpload B now uid ps expected_data_path co = CompleteUpload B now uid ps expected_data_path co"

definition MultipartApp_AbortUpload ::
  "'s IBackend \<Rightarrow> string \<Rightarrow> string \<Rightarrow> 's MultipartCoordinator \<Rightarrow> bool result \<times> 's MultipartCoordinator" where
  "MultipartApp_AbortUpload B uid expected_data_path co = AbortUpload B uid expected_data_path co"

section \<open>The control plane\<close>

text \<open>The executors as the session opener sees them; both work on the whole gateway.\<close>

definition gds_data_path :: "'s IBackend \<Rightarrow> bool \<Rightarrow> nat \<Rightarrow> 's Gateway IDataPathExecutor" where
  "gds_data_path B connected now =
     \<lparr>dp_kind = GPUDirect,
      dp_available = (\<lambda>gw. GdsExecutor_available connected (gw_gds gw)),
      dp_endpoint = (\<lambda>gw. GdsExecutor_endpoint (gw_gds gw)),
      dp_Start = (\<lambda>gw. let (r, ex) = GdsExecutor_Start connected connected (gw_gds gw) in (r, gw\<lparr>gw_gds := ex\<rparr>)),
      dp_Stop = (\<lambda>gw. gw\<lparr>gw_gds := snd (GdsExecutor_Stop (gw_gds gw))\<rparr>),
      dp_OnSessionOpened = (\<lambda>s gw.
        let (r, ex, b) = GdsExecutor_OnSessionOpened B connected now s (gw_gds gw, co_backend (gw_co gw)) in
        (r, set_backend b (gw\<lparr>gw_gds := ex\<rparr>)))\<rparr>"

definition UcxExecutor_endpoint :: "'s UcxExecutor \<Rightarrow> string" where
  "UcxExecutor_endpoint ux = ux_public_host ux @ '':'' @ dec (listen_port (ux_opts ux))"

definition ucx_data_path :: "StartAnswers \<Rightarrow> 's Gateway IDataPathExecutor" where
  "ucx_data_path a =
     \<lparr>dp_kind = CPUDirect,
      dp_available = (\<lambda>gw. ux_started (gw_ucx gw)),
      dp_endpoint = (\<lambda>gw. UcxExecutor_endpoint (gw_ucx gw)),
      dp_Start = (\<lambda>gw. let (r, ux) = UcxExecutor_Start a (gw_ucx gw) in (r, gw\<lparr>gw_ucx := ux\<rparr>)),
      dp_Stop = (\<lambda>gw. gw\<lparr>gw_ucx := UcxExecutor_Stop (gw_ucx gw)\<rparr>),
      dp_OnSessionOpened = (\<lambda>s gw.
        let (r, ux) = UcxExecutor_OnSessionOpened s (gw_ucx gw) in (r, gw\<lparr>gw_ucx := ux\<rparr>))\<rparr>"

definition session_opener :: "'s IBackend \<Rightarrow> bool \<Rightarrow> nat \<Rightarrow> StartAnswers \<Rightarrow> 's Gateway \<Rightarrow> 's Gateway SessionOpener" where
  "session_opener B connected now a gw =
     \<lparr>so_gds_executor = (if gw_gds_enabled gw then Some (gds_data_path B connected now) else None),
      so_rdma_executor = (if gw_ucx_enabled gw then Some (ucx_data_path a) else None)\<rparr>"

definition HandleOpenSession ::
  "'s IBackend \<Rightarrow> bool \<Rightarrow> nat \<Rightarrow> StartAnswers \<Rightarrow> CreateEnv \<Rightarrow> OpenSessionRequest \<Rightarrow> 's Gateway
   \<Rightarrow> OpenSessionResponse rpc \<times> 's Gateway" where
  "HandleOpenSession B connected now a env q gw =
     (let (res, st, gw) = SessionOpener_Open (session_opener B connected now a gw) env (ToOpenSessionParams q)
                            (gw_sessions gw) gw;
          gw = gw\<lparr>gw_sessions := st\<rparr> in
      (case res of
         Inl e \<Rightarrow> (Inl (err_message e), gw)
       | Inr r \<Rightarrow> (Inr (FillOpenSessionResponse (sessions st ! r)), gw)))"

definition HeadObject :: "'s IBackend \<Rightarrow> string \<Rightarrow> string \<Rightarrow> 's Gateway \<Rightarrow> HeadObjectResponse rpc" where
  "HeadObject B bucket key gw =
     (case MetadataService_Head B bucket key (co_backend (gw_co gw)) of
        Inl e \<Rightarrow> Inl (err_message e)
      | Inr m \<Rightarrow> Inr \<lparr>hor_content_length = content_length m, hor_etag = etag m, hor_version = version m,
          hor_headers = [(''Content-Length'', dec (content_length m)), (''ETag'', etag m), (''x-fa-version'', version m)]\<rparr>)"

definition PrepareGdsChunk :: "bool \<Rightarrow> GdsChunkRequest \<Rightarrow> 's Gateway \<Rightarrow> sref rpc \<times> 's Gateway" where
  "PrepareGdsChunk connected q gw =
     (if \<not> gw_gds_enabled gw \<or> \<not> GdsExecutor_available connected (gw_gds gw)
      then (Inl ''gds-cuobject service is not available on gateway'', gw)
      else case ResolveForGdsChunk (gcr_session_id q) (gcr_transfer_ticket q) (gw_sessions gw) of
        None \<Rightarrow> (Inl ''gds-cuobject session not found'', gw)
      | Some r \<Rightarrow>
          if gcr_rdma_token q = [] then (Inl ''missing rdma token for gds-cuobject request'', gw)
          else (Inr r, gw\<lparr>gw_sessions := SessionApp_BumpActive (session_id (sessions (gw_sessions gw) ! r)) (gw_sessions gw)\<rparr>))"

definition mark_session_failed :: "sref \<Rightarrow> 's Gateway \<Rightarrow> 's Gateway" where
  "mark_session_failed r gw =
     gw\<lparr>gw_sessions := SessionApp_MarkFailed (sessions (gw_sessions gw) ! r) (gw_sessions gw)\<rparr>"

definition HandleGdsGet ::
  "'s IBackend \<Rightarrow> CuAnswers \<Rightarrow> GdsChunkRequest \<Rightarrow> 's Gateway \<Rightarrow> GdsChunkResponse rpc \<times> 's Gateway" where
  "HandleGdsGet B a q gw =
     (case PrepareGdsChunk (ca_connected a) q gw of
        (Inl e, gw) \<Rightarrow> (Inl e, gw)
      | (Inr r, gw) \<Rightarrow>
          let s = sessions (gw_sessions gw) ! r in
          (case MetadataService_Head B (gcr_bucket q) (gcr_object_key q) (co_backend (gw_co gw)) of
             Inl e \<Rightarrow> (Inl (err_message e), mark_session_failed r gw)
           | Inr head \<Rightarrow>
               let (chunk, ex) = GetChunk B a s (gcr_rdma_token q) (gcr_chunk_offset q) (gcr_chunk_size q)
                                   (co_backend (gw_co gw)) (gw_gds gw);
                   gw = gw\<lparr>gw_gds := ex\<rparr> in
               (case chunk of
                  Inl e \<Rightarrow> (Inl (err_message e), mark_session_failed r gw)
                | Inr out \<Rightarrow>
                    (Inr (FillGdsResponse (gateway_id s) ''completed'' (rdma_reply out) (etag head) (version head)
                       (gc_crc32c out)), gw))))"

definition HandleGdsPut ::
  "'s IBackend \<Rightarrow> (bytes \<Rightarrow> bytes) \<Rightarrow> CuAnswers \<Rightarrow> nat \<Rightarrow> GdsChunkRequest \<Rightarrow> 's Gateway
   \<Rightarrow> GdsChunkResponse rpc \<times> 's Gateway" where
  "HandleGdsPut B md5 a now q gw =
     (case PrepareGdsChunk (ca_connected a) q gw of
        (Inl e, gw) \<Rightarrow> (Inl e, gw)
      | (Inr r, gw) \<Rightarrow>
          let s = sessions (gw_sessions gw) ! r in
          if gcr_upload_id q \<noteq> [] then
            let (res, ex, co) = GdsMultipart_UploadPart B md5 a now (gcr_upload_id q) (gcr_part_number q)
                   (gcr_chunk_offset q) (gcr_chunk_size q) (gcr_checksum_policy q) (gw_gds gw, gw_co gw);
                gw = set_co co (gw\<lparr>gw_gds := ex\<rparr>) in
            (case res of
               Inl e \<Rightarrow> (Inl (err_message e), mark_session_failed r gw)
             | Inr p \<Rightarrow> (Inr (FillGdsResponse (gateway_id s) ''completed'' (gp_rdma_reply p) (gp_part_etag p) []
                         (gp_crc32c p)), gw))
          else
            let (res, ex, b) = PutChunk B a now s (gcr_chunk_offset q) (gcr_chunk_size q) (gw_gds gw, co_backend (gw_co gw));
                gw = set_backend b (gw\<lparr>gw_gds := ex\<rparr>) in
            (case res of
               Inl e \<Rightarrow> (Inl (err_message e), mark_session_failed r gw)
             | Inr m \<Rightarrow> (Inr (FillGdsResponse (gateway_id s) ''completed'' ''gds-cuobject-rdma-read'' (etag m) (version m) 0), gw)))"

definition Rpc_StartUpload ::
  "'s IBackend \<Rightarrow> nat \<Rightarrow> StartUploadRequest \<Rightarrow> 's Gateway \<Rightarrow> StartUploadResult rpc \<times> 's Gateway" where
  "Rpc_StartUpload B now q gw =
     (let (out, co) = MultipartApp_StartUpload B now (ToStartUploadParams q) (gw_co gw);
          gw = set_co co gw in
      (case out of Inl e \<Rightarrow> (Inl (err_message e), gw) | Inr r \<Rightarrow> (Inr r, gw)))"

definition Rpc_CompleteUpload ::
  "'s IBackend \<Rightarrow> nat \<Rightarrow> CompleteUploadRequest \<Rightarrow> 's Gateway \<Rightarrow> ObjectMetadata rpc \<times> 's Gateway" where
  "Rpc_CompleteUpload B now q gw =
     (let (meta, co) = MultipartApp_CompleteUpload B now (cur_upload_id q) (ToPartRecords (cur_parts q))
                         (cur_data_flow q) (gw_co gw);
          gw = set_co co gw in
      (case meta of Inl e \<Rightarrow> (Inl (err_message e), gw) | Inr m \<Rightarrow> (Inr m, gw)))"

definition Rpc_AbortUpload ::
  "'s IBackend \<Rightarrow> string \<Rightarrow> string \<Rightarrow> 's Gateway \<Rightarrow> unit rpc \<times> 's Gateway" where
  "Rpc_AbortUpload B uid data_flow gw =
     (let (res, co) = MultipartApp_AbortUpload B uid data_flow (gw_co gw);
          gw = set_co co gw in
      (case res of Inl e \<Rightarrow> (Inl (err_message e), gw) | Inr _ \<Rightarrow> (Inr (), gw)))"

definition Rpc_AbortSession :: "string \<Rightarrow> 's Gateway \<Rightarrow> bool rpc \<times> 's Gateway" where
  "Rpc_AbortSession sid gw =
     (let (erased, st) = SessionApp_MarkFailedById sid (gw_sessions gw) in (Inr erased, gw\<lparr>gw_sessions := st\<rparr>))"

section \<open>The RDMA data plane\<close>

definition DiscoverRdmaEndpoint ::
  "AllocAnswers \<Rightarrow> string \<Rightarrow> nat \<Rightarrow> 's Gateway \<Rightarrow> UcxDiscoverInfo rpc \<times> 's Gateway" where
  "DiscoverRdmaEndpoint a sid transfer_bytes gw =
     (let (info, ux) = PrepareTransfer a sid transfer_bytes (gw_ucx gw); gw = gw\<lparr>gw_ucx := ux\<rparr> in
      (case info of Inl e \<Rightarrow> (Inl (err_message e), gw) | Inr i \<Rightarrow> (Inr i, gw)))"

definition BindSessionToConnection :: "unit rpc" where
  "BindSessionToConnection = Inl ''BindSessionToConnection not used in UCX RMA path''"

text \<open>The commit RPCs answer through \<^verbatim>\<open>ux_done\<close>: the closure runs when the completion is recorded
  under the number of the RPC.\<close>

definition Rpc_CommitObject ::
  "'s IBackend \<Rightarrow> nat \<Rightarrow> string \<Rightarrow> nat \<Rightarrow> string \<Rightarrow> nat \<Rightarrow> 's Gateway \<Rightarrow> 's Gateway" where
  "Rpc_CommitObject B now sid bytes_transferred crc rpc gw =
     gw\<lparr>gw_ucx := snd (CommitObjectAsync B now sid bytes_transferred crc rpc (gw_ucx gw))\<rparr>"

definition Rpc_CommitPart ::
  "'s IBackend \<Rightarrow> nat \<Rightarrow> string \<Rightarrow> string \<Rightarrow> nat \<Rightarrow> nat \<Rightarrow> string \<Rightarrow> nat \<Rightarrow> 's Gateway \<Rightarrow> 's Gateway" where
  "Rpc_CommitPart B now sid uid part_number bytes_transferred crc rpc gw =
     gw\<lparr>gw_ucx := snd (UcxMultipart_CommitPartAsync B now sid uid part_number bytes_transferred crc rpc (gw_ucx gw))\<rparr>"

definition Rdma_AbortSession :: "string \<Rightarrow> 's Gateway \<Rightarrow> bool rpc \<times> 's Gateway" where
  "Rdma_AbortSession sid gw =
     (let (info, ux) = AbortSession sid (gw_ucx gw); gw = gw\<lparr>gw_ucx := ux\<rparr> in
      (case info of Inl e \<Rightarrow> (Inl (err_message e), gw) | Inr b \<Rightarrow> (Inr b, gw)))"

section \<open>The sweeper\<close>

text \<open>One round of \<^verbatim>\<open>Run\<close> after the wait, when the sweeper is still running.\<close>

definition sweep_round :: "'s IBackend \<Rightarrow> nat \<Rightarrow> nat \<Rightarrow> 's Gateway \<Rightarrow> (nat \<times> nat) \<times> 's Gateway" where
  "sweep_round B now now' gw =
     (let (n, st) = SessionStore_SweepExpired now (gw_sessions gw);
          (removed, co) = sweep_uploads B now' (gw_co gw) in
      ((n, removed), set_co co (gw\<lparr>gw_sessions := st\<rparr>)))"

section \<open>Resolving the session of a chunk\<close>

lemma bump_find:
  "SessionStore_Find i (SessionApp_BumpActive j st) = SessionStore_Find i st"
  "r < length (sessions st) \<Longrightarrow> ident (sessions (SessionApp_BumpActive j st) ! r) = ident (sessions st ! r)"
  "length (sessions (SessionApp_BumpActive j st)) = length (sessions st)"
  by (simp_all add: SessionApp_BumpActive_def SessionStore_BumpActive_def SessionStore_Find_def cas_state_def
      ident_nth_set_state split: option.splits sum.splits)

lemma bump_wf: "store_wf st \<Longrightarrow> store_wf (SessionApp_BumpActive j st)"
  using wf_transitions(3) [of st j] by (simp add: SessionApp_BumpActive_def)

text \<open>A request that names its session by id and carries a token, on a gateway whose GDS service is up.\<close>

definition chunk_ready :: "CuAnswers \<Rightarrow> GdsChunkRequest \<Rightarrow> 's Gateway \<Rightarrow> sref \<Rightarrow> bool" where
  "chunk_ready a q gw r \<longleftrightarrow> gw_gds_enabled gw \<and> GdsExecutor_available (ca_connected a) (gw_gds gw) \<and>
     gcr_session_id q \<noteq> [] \<and> SessionStore_Find (gcr_session_id q) (gw_sessions gw) = Inr r \<and> gcr_rdma_token q \<noteq> []"

definition bumped :: "sref \<Rightarrow> 's Gateway \<Rightarrow> 's Gateway" where
  "bumped r gw = gw\<lparr>gw_sessions := SessionApp_BumpActive (session_id (sessions (gw_sessions gw) ! r)) (gw_sessions gw)\<rparr>"

lemma Prepare_ready:
  "chunk_ready a q gw r \<Longrightarrow> PrepareGdsChunk (ca_connected a) q gw = (Inr r, bumped r gw)"
  by (simp add: chunk_ready_def PrepareGdsChunk_def ResolveForGdsChunk_def bumped_def)

lemma set_co_fields [simp]:
  "gw_sessions (set_co co gw) = gw_sessions gw" "gw_gds (set_co co gw) = gw_gds gw"
  "gw_co (set_co co gw) = co" "gw_gds_enabled (set_co co gw) = gw_gds_enabled gw"
  "gw_sessions (set_backend b gw) = gw_sessions gw" "gw_gds (set_backend b gw) = gw_gds gw"
  "co_backend (gw_co (set_backend b gw)) = b" "gw_gds_enabled (set_backend b gw) = gw_gds_enabled gw"
  by (simp_all add: set_co_def set_backend_def)

lemma bumped_fields [simp]:
  "gw_gds (bumped r gw) = gw_gds gw" "gw_ucx (bumped r gw) = gw_ucx gw" "gw_gds_enabled (bumped r gw) = gw_gds_enabled gw"
  by (simp_all add: bumped_def)

lemma bumped_session:
  assumes "q < length (sessions (gw_sessions gw))"
  shows "s_bucket (sessions (gw_sessions (bumped r gw)) ! q) = s_bucket (sessions (gw_sessions gw) ! q)"
  "object_key (sessions (gw_sessions (bumped r gw)) ! q) = object_key (sessions (gw_sessions gw) ! q)"
  "expected_size (sessions (gw_sessions (bumped r gw)) ! q) = expected_size (sessions (gw_sessions gw) ! q)"
  "session_id (sessions (gw_sessions (bumped r gw)) ! q) = session_id (sessions (gw_sessions gw) ! q)"
proof -
  have "ident (sessions (gw_sessions (bumped r gw)) ! q) = ident (sessions (gw_sessions gw) ! q)"
    using assms by (simp add: bumped_def bump_find)
  from ident_fields [OF this] show
    "s_bucket (sessions (gw_sessions (bumped r gw)) ! q) = s_bucket (sessions (gw_sessions gw) ! q)"
    "object_key (sessions (gw_sessions (bumped r gw)) ! q) = object_key (sessions (gw_sessions gw) ! q)"
    "expected_size (sessions (gw_sessions (bumped r gw)) ! q) = expected_size (sessions (gw_sessions gw) ! q)"
    "session_id (sessions (gw_sessions (bumped r gw)) ! q) = session_id (sessions (gw_sessions gw) ! q)"
    by blast+
qed

text \<open>Failing a resolved session.\<close>

lemma mark_failed_swept:
  assumes "store_wf (gw_sessions gw)" "SessionStore_Find i (gw_sessions gw) = Inr r"
    and "gw_sessions gw' = gw_sessions gw" "session_id (sessions (gw_sessions gw) ! r) = i"
  shows "state_of (gw_sessions (mark_session_failed r gw')) r = kFailed"
    "r \<notin> indexed (snd (SessionStore_SweepExpired now (gw_sessions (mark_session_failed r gw'))))"
proof -
  let ?st = "gw_sessions gw"
  have eq: "gw_sessions (mark_session_failed r gw') = set_state r kFailed ?st"
    using assms(2-4) by (simp add: mark_session_failed_def SessionApp_MarkFailed_def SessionStore_MarkFailed_def)
  have r: "r < length (sessions ?st)" using wf_lookups(1) [OF assms(1,2)] by simp
  then have f: "state_of (set_state r kFailed ?st) r = kFailed" by (simp add: state_of_set_state)
  then show "state_of (gw_sessions (mark_session_failed r gw')) r = kFailed" by (simp add: eq)
  have "SessionStore_Find i (set_state r kFailed ?st) = Inr r" using assms(2) by (simp add: SessionStore_Find_def)
  from failed_is_swept [OF wf_set_state [OF assms(1)] this f]
  show "r \<notin> indexed (snd (SessionStore_SweepExpired now (gw_sessions (mark_session_failed r gw'))))" by (simp add: eq)
qed

lemma ex_marked:
  "gw_sessions g = st \<Longrightarrow> \<exists>x. gw_sessions x = st \<and> mark_session_failed r g = mark_session_failed r x"
  by blast

section \<open>Properties\<close>

text \<open>C29: a chunk request that fails closes its session. When a PUT or GET chunk of a session named by its id
  reaches the data path and fails there, for whatever reason (the size limit, the RDMA server, the
  pinned buffers, the backend, an unknown upload or a missing object), the session is marked failed, so
  that the next sweep evicts it from every table regardless of its deadline.\<close>

theorem failed_chunk_closes_session:
  assumes "store_wf (gw_sessions gw)" "chunk_ready a q gw r"
    and "HandleGdsPut B md5 a now q gw = (Inl e, gw') \<or> HandleGdsGet B a q gw = (Inl e, gw')"
  shows "state_of (gw_sessions gw') r = kFailed \<and>
    (\<forall>t. r \<notin> indexed (snd (SessionStore_SweepExpired t (gw_sessions gw'))))"
proof -
  let ?g = "bumped r gw"
  note prep = Prepare_ready [OF assms(2)]
  have wf: "store_wf (gw_sessions ?g)" using bump_wf [OF assms(1)] by (simp add: bumped_def)
  have find: "SessionStore_Find (gcr_session_id q) (gw_sessions ?g) = Inr r"
    using assms(2) by (simp add: bumped_def bump_find chunk_ready_def)
  have sid: "session_id (sessions (gw_sessions ?g) ! r) = gcr_session_id q" using wf_lookups(1) [OF wf find] by simp
  have "\<exists>g. gw_sessions g = gw_sessions ?g \<and> gw' = mark_session_failed r g"
    using assms(3)
  proof
    assume "HandleGdsPut B md5 a now q gw = (Inl e, gw')"
    then show ?thesis
      by (auto simp: HandleGdsPut_def prep Let_def split: if_splits prod.splits sum.splits intro!: ex_marked)
  next
    assume "HandleGdsGet B a q gw = (Inl e, gw')"
    then show ?thesis
      by (auto simp: HandleGdsGet_def prep Let_def split: prod.splits sum.splits intro!: ex_marked)
  qed
  then obtain g where g: "gw_sessions g = gw_sessions ?g" "gw' = mark_session_failed r g" by blast
  show ?thesis using mark_failed_swept [OF wf find g(1) sid] g(2) by blast
qed

lemma put_single_run:
  assumes "chunk_ready a q gw r" "gcr_upload_id q = []" "HandleGdsPut B md5 a now q gw = (Inr resp, gw')"
  shows "\<exists>m ex b. PutChunk B a now (sessions (gw_sessions (bumped r gw)) ! r) (gcr_chunk_offset q) (gcr_chunk_size q)
      (gw_gds gw, co_backend (gw_co gw)) = (Inr m, ex, b) \<and> gw' = set_backend b ((bumped r gw)\<lparr>gw_gds := ex\<rparr>) \<and>
      gcp_etag resp = etag m \<and> gcp_version resp = version m"
  using assms(2,3) Prepare_ready [OF assms(1)]
  by (auto simp: HandleGdsPut_def Let_def FillGdsResponse_def split: prod.splits sum.splits)

lemma get_run:
  assumes "chunk_ready a q gw r" "HandleGdsGet B a q gw = (Inr resp, gw')"
  shows "\<exists>head out ex. be_Head B (gcr_bucket q) (gcr_object_key q) (co_backend (gw_co gw)) = Inr head \<and>
     GetChunk B a (sessions (gw_sessions (bumped r gw)) ! r) (gcr_rdma_token q) (gcr_chunk_offset q) (gcr_chunk_size q)
       (co_backend (gw_co gw)) (gw_gds gw) = (Inr out, ex) \<and> gw_gds gw' = ex \<and>
     gcp_etag resp = etag head \<and> gcp_version resp = version head \<and> gcp_crc32c resp = gc_crc32c out"
  using assms(2) Prepare_ready [OF assms(1)]
  by (auto simp: HandleGdsGet_def MetadataService_Head_def Let_def FillGdsResponse_def split: prod.splits sum.splits)

text \<open>A GET returns what a PUT stored, through the RPC handlers. When a session that announced
  the size of an object is written by one accepted chunk RPC that delivers all its bytes, and a later GET chunk RPC
  of any session for the same object succeeds, then the client receives the stored bytes of the requested range, the
  response carries their CRC-32C, and its etag and version are those returned by the PUT.\<close>

theorem gds_rpc_roundtrip:
  assumes "memory_backend_reach cap (co_backend (gw_co gw))" "cap + length data < u64_mod" "data \<noteq> []"
    and "store_wf (gw_sessions gw)" "chunk_ready a q gw r" "gcr_upload_id q = []"
    and "s_bucket (sessions (gw_sessions gw) ! r) = b" "object_key (sessions (gw_sessions gw) ! r) = k"
    and "expected_size (sessions (gw_sessions gw) ! r) = length data"
    and "delivers data (a, gcr_chunk_offset q, gcr_chunk_size q)" "gcr_chunk_size q = length data"
    and "HandleGdsPut memory_backend md5 a now q gw = (Inr put, gw1)"
    and "chunk_ready a2 q2 gw1 r2" "gcr_bucket q2 = b" "gcr_object_key q2 = k"
    and "s_bucket (sessions (gw_sessions gw1) ! r2) = b" "object_key (sessions (gw_sessions gw1) ! r2) = k"
    and "gcr_chunk_offset q2 < length data" "0 < gcr_chunk_size q2"
    and "HandleGdsGet memory_backend a2 q2 gw1 = (Inr get, gw2)"
  shows "let sent = take (gcr_chunk_size q2) (drop (gcr_chunk_offset q2) data) in
    rdma_writes (gw_gds gw2) = rdma_writes (gw_gds gw1) @
      [(b @ ''/'' @ k, ParseRemoteBufferAddress (gcr_rdma_token q2), sent)] \<and>
    gcp_crc32c get = Crc32c sent \<and> gcp_etag get = gcp_etag put \<and> gcp_version get = gcp_version put"
proof -
  let ?s = "sessions (gw_sessions (bumped r gw)) ! r" and ?s2 = "sessions (gw_sessions (bumped r2 gw1)) ! r2"
  have r: "r < length (sessions (gw_sessions gw))"
    using assms(4,5) wf_lookups(1) by (auto simp: chunk_ready_def)
  note s = bumped_session [OF r, of r, unfolded assms(7-9)]
  obtain m ex c where put: "PutChunk memory_backend a now ?s (gcr_chunk_offset q) (gcr_chunk_size q)
      (gw_gds gw, co_backend (gw_co gw)) = (Inr m, ex, c)" "gw1 = set_backend c ((bumped r gw)\<lparr>gw_gds := ex\<rparr>)"
      "gcp_etag put = etag m" "gcp_version put = version m"
    using put_single_run [OF assms(5,6,12)] by blast
  have off: "gcr_chunk_offset q = 0" using assms(10,11) by (simp add: delivers_def)
  have chunk: "take (nat (ca_transferred a)) (ca_received a) = data"
    using assms(10,11) off by (simp add: delivers_def)
  have w: "be_WriteRange memory_backend now b k 0 data (Some (length data)) (co_backend (gw_co gw)) = (Inr m, c)"
    using PutChunk_effect(2) [OF put(1)] s chunk assms(3,11) off by (simp add: session_total_def)
  have inv: "memory_backend_inv (co_backend (gw_co gw))" "fits (cb_data (co_backend (gw_co gw))) (length data)"
    using memory_backend_reach_inv [OF assms(1)] assms(2) by (auto simp: fits_def)
  have stored: "bodies (cb_data c) (MakeKey b k) = Some data" "be_Head memory_backend b k c = Inr m"
    using mem.write_range_run(5) [OF inv(1) _ _ w [unfolded memory_backend_ops] refl] inv(2) written_whole [of _ data]
    by (simp_all add: write_target_def CompositeBackend_Head_def MemoryIndexStore_Head_def)
  have c: "co_backend (gw_co gw1) = c" using put(2) by simp
  have wf1: "store_wf (gw_sessions gw1)" using put(2) bump_wf [OF assms(4)] by (simp add: bumped_def)
  have r2: "r2 < length (sessions (gw_sessions gw1))" using assms(13) wf_lookups(1) [OF wf1] by (auto simp: chunk_ready_def)
  note s2 = bumped_session [OF r2, of r2, unfolded assms(16,17)]
  obtain head out where g: "be_Head memory_backend b k c = Inr head"
      "GetChunk memory_backend a2 ?s2 (gcr_rdma_token q2) (gcr_chunk_offset q2) (gcr_chunk_size q2) c (gw_gds gw1) = (Inr out, gw_gds gw2)"
      "gcp_etag get = etag head" "gcp_version get = version head" "gcp_crc32c get = gc_crc32c out"
    using get_run [OF assms(13,20)] assms(14,15) c by auto
  have "bodies (cb_data c) (MakeKey (s_bucket ?s2) (object_key ?s2)) = Some data" using stored(1) s2 by simp
  from memory_objects.GetChunk_effect [OF this assms(18,19) g(2)]
  show ?thesis using g stored(2) put(3,4) s2 by (simp add: Let_def BuildObjectId_def)
qed

section \<open>Examples\<close>

definition example_gateway :: "MemoryBackend Gateway" where
  "example_gateway =
     \<lparr>gw_sessions = snd (SessionStore_Create (example_env 100) (example_params\<lparr>req_expected_size := 2\<rparr>) (SessionStore_init ''gw'' 60)),
      gw_gds_enabled = True, gw_gds = example_executor, gw_ucx_enabled = False,
      gw_ucx = UcxExecutor_init ''gw'' [] \<lparr>listen_port = 18520, max_msg_bytes = 8, buffer_pool_max_idle = 1\<rparr>
        (MemoryCoordinator_init 10 60 8 0)\<rparr>"

definition example_request :: "nat \<Rightarrow> nat \<Rightarrow> GdsChunkRequest" where
  "example_request off n =
     \<lparr>gcr_request_id = [], gcr_session_id = ''s1'', gcr_transfer_ticket = [], gcr_bucket = ''b'', gcr_object_key = ''k'',
      gcr_data_flow = ''gpu-direct'', gcr_buffer_type = ''cuda-device'', gcr_checksum_policy = [], gcr_chunk_offset = off, gcr_chunk_size = n, gcr_rdma_token = ''10:x'',
      gcr_extra_headers = Map.empty, gcr_upload_id = [], gcr_part_number = 0\<rparr>"

lemma example_gateway_facts:
  "store_wf (gw_sessions example_gateway)" "chunk_ready (example_answers d) (example_request off n) example_gateway 0"
  "chunk_ready ((example_answers d)\<lparr>ca_transferred := z\<rparr>) (example_request off n) example_gateway 0"
  "s_bucket (sessions (gw_sessions example_gateway) ! 0) = ''b''" "object_key (sessions (gw_sessions example_gateway) ! 0) = ''k''"
  "expected_size (sessions (gw_sessions example_gateway) ! 0) = 2"
  "co_backend (gw_co example_gateway) = MemoryBackend_init 10" "gw_gds example_gateway = example_executor"
  using wf_Create [OF wf_init, of "example_env 100" "example_params\<lparr>req_expected_size := 2\<rparr>" "''gw''" 60]
  by (simp_all add: example_gateway_def chunk_ready_def example_request_def example_answers_def example_executor_def
      GdsExecutor_Start_def GdsExecutor_available_def GdsExecutor_init_def SessionStore_Create_def SessionStore_init_def insert_session_def
      new_session_def example_params_def Let_def SessionStore_Find_def UcxExecutor_init_def MemoryCoordinator_init_def)

theorem failed_chunk_closes_session_witness:
  "\<exists>gw' e. HandleGdsPut memory_backend id ((example_answers [1, 2])\<lparr>ca_transferred := - 1\<rparr>) 7 (example_request 0 2)
      example_gateway = (Inl e, gw') \<and> state_of (gw_sessions gw') 0 = kFailed \<and>
      0 \<notin> indexed (snd (SessionStore_SweepExpired 0 (gw_sessions gw')))"
proof -
  let ?a = "(example_answers [1, 2])\<lparr>ca_transferred := - 1\<rparr>" and ?q = "example_request 0 2"
  obtain r gw' where h: "HandleGdsPut memory_backend id ?a 7 ?q example_gateway = (r, gw')" by fastforce
  have ready: "chunk_ready ?a ?q example_gateway 0" by (rule example_gateway_facts)
  have "isl r"
    using h Prepare_ready [OF ready] example_gateway_facts(7,8)
    by (auto simp: HandleGdsPut_def example_request_def gds_evals split: sum.splits)
  then obtain e where e: "HandleGdsPut memory_backend id ?a 7 ?q example_gateway = (Inl e, gw')"
    using h by (cases r) auto
  from failed_chunk_closes_session [OF example_gateway_facts(1) ready, of memory_backend id 7 e gw'] e
  show ?thesis by blast
qed

lemma example_grants: "n \<in> {1..8} \<Longrightarrow> grants (example_answers d) n example_executor"
  using gds_reach_wf [OF gds_reach.start [OF gds_reach.init], of False True "''gw''" "''0.0.0.0''"
      "\<lparr>rdma_port = 18515, buffer_size_classes = [8], buffer_max_per_class = 2, max_chunk_bytes = 1024\<rparr>"]
  by (simp add: grants_def example_executor_def example_answers_def) (simp add: GdsExecutor_Start_def GdsExecutor_init_def)

theorem gds_rpc_roundtrip_witness:
  "\<exists>put gw1 get gw2. HandleGdsPut memory_backend id (example_answers [1, 2]) 7 (example_request 0 2) example_gateway = (Inr put, gw1) \<and>
     HandleGdsGet memory_backend (example_answers [2]) (example_request 1 8) gw1 = (Inr get, gw2) \<and>
     gcp_crc32c get = Crc32c [2] \<and> gcp_etag get = gcp_etag put"
proof -
  let ?a = "example_answers [1, 2]" and ?q = "example_request 0 2" and ?a2 = "example_answers [2]" and ?q2 = "example_request 1 8"
  let ?s = "sessions (gw_sessions (bumped 0 example_gateway)) ! 0"
  have ready: "chunk_ready ?a ?q example_gateway 0" by (rule example_gateway_facts)
  have len: "0 < length (sessions (gw_sessions example_gateway))"
    using wf_lookups(1) [OF example_gateway_facts(1)] ready by (auto simp: chunk_ready_def)
  note s = bumped_session [OF len, of 0] example_gateway_facts(4-8)
  let ?c = "snd (be_WriteRange memory_backend 7 ''b'' ''k'' 0 [1, 2] (Some 2) (MemoryBackend_init 10))"
  let ?p = "\<lambda>view. be_WriteRange memory_backend 7 ''b'' ''k'' 0 view (Some 2)"
  obtain ex where ex: "put_through ?a 2 ?p (example_executor, MemoryBackend_init 10) = (Inr (MakeMeta 7 2), ex, ?c)"
      "g_server ex" "g_pool ex \<noteq> None"
    using put_through_granted [OF example_grants, of 2 "[1, 2]" ?p "MemoryBackend_init 10"]
    by (auto simp: example_answers_def backend_evals)
  have opts: "g_opts ex = g_opts example_executor" "gds_wf ex"
    using put_through_released [OF _ ex(1)] example_grants [of 2] by (auto simp: grants_def)
  have put: "PutChunk memory_backend ?a 7 ?s 0 2 (example_executor, MemoryBackend_init 10) = (Inr (MakeMeta 7 2), ex, ?c)"
    using s ex(1) by (simp add: PutChunk_def session_total_def) (simp add: example_executor_def GdsExecutor_Start_def GdsExecutor_init_def)
  let ?gw1 = "set_backend ?c ((bumped 0 example_gateway)\<lparr>gw_gds := ex\<rparr>)"
  obtain put where p: "HandleGdsPut memory_backend id ?a 7 ?q example_gateway = (Inr put, ?gw1)"
    using Prepare_ready [OF ready] s put by (simp add: HandleGdsPut_def example_request_def)
  have ready2: "chunk_ready ?a2 ?q2 ?gw1 0"
    using example_gateway_facts(2) [of "[2]" 1 8] ex(2)
    by (simp add: chunk_ready_def bumped_def bump_find GdsExecutor_available_def)
  have s1: "s_bucket (sessions (gw_sessions ?gw1) ! 0) = ''b''" "object_key (sessions (gw_sessions ?gw1) ! 0) = ''k''"
    using s by simp_all
  have len1: "0 < length (sessions (gw_sessions ?gw1))" using len by (simp add: bumped_def bump_find)
  note s2 = bumped_session [OF len1, of 0, unfolded s1]
  have stored: "bodies (cb_data ?c) (MakeKey ''b'' ''k'') = Some [1, 2]" "be_Head memory_backend ''b'' ''k'' ?c = Inr (MakeMeta 7 2)"
    by (simp_all add: backend_evals)
  have gr: "grants ?a2 8 ex"
    using ex opts example_grants [of 8 "[2]"] by (simp add: grants_def)
  have body: "bodies (cb_data ?c) (MakeKey (s_bucket (sessions (gw_sessions (bumped 0 ?gw1)) ! 0))
      (object_key (sessions (gw_sessions (bumped 0 ?gw1)) ! 0))) = Some [1, 2]"
    using stored(1) s2 by simp
  have "ca_transferred ?a2 = int (length (take 8 (drop 1 [1, 2 :: byte])))" by (simp add: example_answers_def)
  from memory_objects.GetChunk_granted [OF body _ gr this, of "''10:x''"] obtain out ex2 where
    "GetChunk memory_backend ?a2 (sessions (gw_sessions (bumped 0 ?gw1)) ! 0) ''10:x'' 1 8 ?c ex = (Inr out, ex2)"
    by (metis One_nat_def length_Cons lessI list.size(3) numeral_2_eq_2)
  then obtain get gw2 where g: "HandleGdsGet memory_backend ?a2 ?q2 ?gw1 = (Inr get, gw2)"
    using Prepare_ready [OF ready2] stored(2) by (simp add: HandleGdsGet_def example_request_def MetadataService_Head_def)
  have reach: "memory_backend_reach 10 (co_backend (gw_co example_gateway))" "10 + length [1, 2 :: byte] < u64_mod"
    using s by (simp_all add: u64_mod_def memory_backend_reach.init)
  have d: "delivers [1, 2] (?a, gcr_chunk_offset ?q, gcr_chunk_size ?q)"
    by (simp add: delivers_def example_answers_def example_request_def)
  show ?thesis
    using gds_rpc_roundtrip [OF reach _ example_gateway_facts(1) ready _ s(5,6) _ d _ p ready2 _ _ s1 _ _ g] s p g
    by (simp add: example_request_def Let_def)
qed

end
