(* ===== verification/Deployment.thy ===== *)
theory Deployment
  imports Client_Core Control_Plane
begin

text \<open>
  A client process and a gateway in one world: the \<^verbatim>\<open>Platform\<close> whose RPCs are the handlers of \<^verbatim>\<open>gateway/src/api\<close> on
  a gateway with the memory backend, and whose RDMA reads and writes move bytes between the memory of the client and
  the buffers of the gateway. The interfaces the client relies on (descriptors, tokens, endpoints, parts) are interpreted on it,
  and the properties of an upload through both programs are proved. What the libraries outside the repository
  answer is fixed here: cuObject hands out a token that starts with the address in hexadecimal, UCX connects, and MD5 is an argument.
\<close>

section \<open>The world\<close>

record World =
  wd_gw :: "MemoryBackend Gateway"
  wd_clock :: int
  wd_fresh :: nat
  wd_memory :: "nat \<Rightarrow> byte"
  wd_held :: "nat set"
  wd_live :: "string multiset"
  wd_eps :: "nat multiset"
  wd_keys :: "nat multiset"
  wd_pending :: "string multiset"

definition read_mem :: "World \<Rightarrow> nat \<Rightarrow> nat \<Rightarrow> bytes" where
  "read_mem w ptr n = map (wd_memory w) [ptr..<ptr + n]"

fun write_mem :: "nat \<Rightarrow> bytes \<Rightarrow> (nat \<Rightarrow> byte) \<Rightarrow> nat \<Rightarrow> byte" where
  "write_mem ptr [] m = m"
| "write_mem ptr (x # xs) m = write_mem (ptr + 1) xs (m(ptr := x))"

abbreviation now_of :: "World \<Rightarrow> nat" where
  "now_of w \<equiv> nat (wd_clock w)"

definition reply :: "'r rpc \<Rightarrow> RpcFailure + 'r" where
  "reply r = (case r of Inl m \<Rightarrow> Inl \<lparr>rf_code = OtherErrno 2001, rf_text = m\<rparr> | Inr x \<Rightarrow> Inr x)"

definition map_reply :: "('a \<Rightarrow> 'b) \<Rightarrow> 'a rpc \<Rightarrow> 'b rpc" where
  "map_reply f r = (case r of Inl m \<Rightarrow> Inl m | Inr x \<Rightarrow> Inr (f x))"

definition draw :: "(World, nat) call" where
  "draw w = (wd_fresh w, w\<lparr>wd_fresh := wd_fresh w + 1\<rparr>)"

definition create_env :: "World \<Rightarrow> CreateEnv" where
  "create_env w =
     \<lparr>draw_session = (wd_fresh w, 0), draw_request = (wd_fresh w, 1), draw_ticket = (wd_fresh w, 2), env_wall_expiry = 0,
      env_now = now_of w\<rparr>"

text \<open>The RDMA server of the gateway: an allocation, a registration and a channel per call; a read delivers the bytes at the address of the token.\<close>

definition put_answers :: "World \<Rightarrow> string \<Rightarrow> nat \<Rightarrow> CuAnswers" where
  "put_answers w tok n =
     \<lparr>ca_connected = True, ca_alloc = Some (wd_fresh w), ca_reg = Some (wd_fresh w), ca_staging = [],
      ca_channel = Some (wd_fresh w), ca_transferred = int n, ca_received = read_mem w (ParseRemoteBufferAddress tok) n,
      ca_status = ''success''\<rparr>"

text \<open>For a GET the server writes what the gateway read from the store.\<close>

definition get_answers :: "World \<Rightarrow> GdsChunkRequest \<Rightarrow> CuAnswers" where
  "get_answers w q =
     (put_answers w (gcr_rdma_token q) (gcr_chunk_size q))\<lparr>ca_transferred :=
        (case bodies (cb_data (co_backend (gw_co (wd_gw w)))) (MakeKey (gcr_bucket q) (gcr_object_key q)) of
           None \<Rightarrow> 0 | Some d \<Rightarrow> int (length (take (gcr_chunk_size q) (drop (gcr_chunk_offset q) d))))\<rparr>"

definition land_writes :: "(string \<times> nat \<times> bytes) list \<Rightarrow> (nat \<Rightarrow> byte) \<Rightarrow> nat \<Rightarrow> byte" where
  "land_writes ws m = fold (\<lambda>(obj, ptr, data). write_mem ptr data) ws m"

definition dep_OpenSession :: "OpenSessionRequest \<Rightarrow> (World, RpcFailure + OpenSessionResponse) call" where
  "dep_OpenSession q w =
     (case HandleOpenSession memory_backend True (now_of w)
             \<lparr>sa_init = None, sa_worker = None, sa_multi = True, sa_am = None, sa_inet = True, sa_listener = None\<rparr>
             (create_env w) q (wd_gw w) of
        (r, gw) \<Rightarrow> (reply r, w\<lparr>wd_gw := gw, wd_fresh := wd_fresh w + 1,
            wd_pending := wd_pending w + (case r of Inl _ \<Rightarrow> {#} | Inr v \<Rightarrow> {#osp_session_id v#})\<rparr>))"

definition dep_GdsPut :: "(bytes \<Rightarrow> bytes) \<Rightarrow> GdsChunkRequest \<Rightarrow> (World, RpcFailure + GdsChunkResponse) call" where
  "dep_GdsPut md5 q w =
     (case HandleGdsPut memory_backend md5 (put_answers w (gcr_rdma_token q) (gcr_chunk_size q)) (now_of w) q (wd_gw w) of
        (r, gw) \<Rightarrow> (reply r, w\<lparr>wd_gw := gw, wd_fresh := wd_fresh w + 1\<rparr>))"

definition dep_GdsGet :: "GdsChunkRequest \<Rightarrow> (World, RpcFailure + GdsChunkResponse) call" where
  "dep_GdsGet q w =
     (case HandleGdsGet memory_backend (get_answers w q) q (wd_gw w) of
        (r, gw) \<Rightarrow> (reply r, w\<lparr>wd_gw := gw, wd_fresh := wd_fresh w + 1,
            wd_memory := land_writes (drop (length (rdma_writes (gw_gds (wd_gw w)))) (rdma_writes (gw_gds gw))) (wd_memory w)\<rparr>))"

definition at_gateway :: "(World \<Rightarrow> MemoryBackend Gateway \<Rightarrow> 'r rpc \<times> MemoryBackend Gateway) \<Rightarrow> (World, RpcFailure + 'r) call" where
  "at_gateway f w = (case f w (wd_gw w) of (r, gw) \<Rightarrow> (reply r, w\<lparr>wd_gw := gw\<rparr>))"

definition dep_Discover :: "string \<Rightarrow> nat \<Rightarrow> (World, RpcFailure + RdmaDiscoverResponse) call" where
  "dep_Discover sid n w =
     (case DiscoverRdmaEndpoint \<lparr>aa_alloc = True, aa_mlock = True, aa_map = None, aa_raddr = wd_fresh w, aa_pack = None, aa_rkey = [1]\<rparr>
             sid n (wd_gw w) of
        (r, gw) \<Rightarrow>
          (reply (map_reply (\<lambda>i. \<lparr>rdr_host = UcxDiscoverInfo.di_host i, rdr_max_msg_bytes = UcxDiscoverInfo.di_max_msg_bytes i,
              rdr_ucx_port = UcxDiscoverInfo.di_ucx_port i, rdr_gw_raddr = di_raddr i, rdr_gw_packed_rkey = di_rkey i\<rparr>) r),
           w\<lparr>wd_gw := gw, wd_fresh := wd_fresh w + 1\<rparr>))"

text \<open>A remote write lands in the buffer registered at the address.\<close>

definition dep_put_nbx :: "nat \<Rightarrow> nat \<Rightarrow> nat \<Rightarrow> (World, string option option) call" where
  "dep_put_nbx src n raddr w =
     (let ux = gw_ucx (wd_gw w) in
      case find (\<lambda>r. rb_raddr (ux_slots ux ! r) = raddr) [0..<length (ux_slots ux)] of
        None \<Rightarrow> (Some (Some ''Input/output error''), w)
      | Some r \<Rightarrow> (Some None, w\<lparr>wd_gw := (wd_gw w)\<lparr>gw_ucx := rma_put r (read_mem w src n) ux\<rparr>\<rparr>))"

definition dep_am :: "string \<Rightarrow> (World, string option option) call" where
  "dep_am sid w =
     (Some None, w\<lparr>wd_gw := (wd_gw w)\<lparr>gw_ucx := OnAmWriteDone memory_backend (now_of w) sid (gw_ucx (wd_gw w))\<rparr>\<rparr>)"

text \<open>A commit is answered when its closure has run; one that is only stored runs into the timeout of the client.\<close>

definition answer_of :: "nat \<Rightarrow> 's UcxExecutor \<Rightarrow> UcxDone option" where
  "answer_of rpc ux = map_of (rev (ux_done ux)) rpc"

definition timed_out :: RpcFailure where
  "timed_out = \<lparr>rf_code = ERPCTIMEDOUT, rf_text = ''reached timeout''\<rparr>"

definition dep_CommitObject :: "RdmaCommitRequest \<Rightarrow> (World, RpcFailure + RdmaCommitResponse) call" where
  "dep_CommitObject q w =
     (let gw = Rpc_CommitObject memory_backend (now_of w) (rcr_session_id q) (rcr_bytes_transferred q) (rcr_client_checksum q)
                 (wd_fresh w) (wd_gw w);
          w = w\<lparr>wd_gw := gw, wd_fresh := wd_fresh w + 1\<rparr> in
      case answer_of (wd_fresh w - 1) (gw_ucx gw) of
        Some (DoneObject (Inr i)) \<Rightarrow>
          (Inr \<lparr>rcp_etag = uc_etag i, rcp_version = uc_version i\<rparr>, w\<lparr>wd_pending := wd_pending w - {#rcr_session_id q#}\<rparr>)
      | Some (DoneObject (Inl e)) \<Rightarrow> (reply (Inl (err_message e)), w)
      | _ \<Rightarrow> (Inl timed_out, w))"

definition dep_CommitPart :: "RdmaCommitPartRequest \<Rightarrow> (World, RpcFailure + string) call" where
  "dep_CommitPart q w =
     (let gw = Rpc_CommitPart memory_backend (now_of w) (rpr_session_id q) (rpr_upload_id q) (rpr_part_number q)
                 (rpr_bytes_transferred q) (rpr_client_checksum q) (wd_fresh w) (wd_gw w);
          w = w\<lparr>wd_gw := gw, wd_fresh := wd_fresh w + 1\<rparr> in
      case answer_of (wd_fresh w - 1) (gw_ucx gw) of
        Some (DonePart (Inr e)) \<Rightarrow> (Inr e, w\<lparr>wd_pending := wd_pending w - {#rpr_session_id q#}\<rparr>)
      | Some (DonePart (Inl e)) \<Rightarrow> (reply (Inl (err_message e)), w)
      | _ \<Rightarrow> (Inl timed_out, w))"

definition dep_RdmaAbort :: "string \<Rightarrow> (World, RpcFailure + bool) call" where
  "dep_RdmaAbort sid w =
     (case Rdma_AbortSession sid (wd_gw w) of
        (r, gw) \<Rightarrow> (reply r, w\<lparr>wd_gw := gw, wd_pending := wd_pending w - {#sid#}\<rparr>))"

definition rdma_token :: "nat \<Rightarrow> string" where
  "rdma_token ptr = hex ptr @ '':0''"

definition deployment :: "(bytes \<Rightarrow> bytes) \<Rightarrow> World Platform" where
  "deployment md5 =
     \<lparr>p_now = (\<lambda>w. (wd_clock w, w)), p_random = draw, p_jitter = (\<lambda>w. (1, w)),
      p_sleep_ms = (\<lambda>ms w. ((), w\<lparr>wd_clock := wd_clock w + ms\<rparr>)), p_ChannelInit = (\<lambda>e w. (True, w)),
      p_OpenSession = (\<lambda>ch c q. dep_OpenSession q),
      p_HeadObject = (\<lambda>ch c b k w. (reply (HeadObject memory_backend b k (wd_gw w)), w)),
      p_GdsGet = (\<lambda>ch c q. dep_GdsGet q), p_GdsPut = (\<lambda>ch c q. dep_GdsPut md5 q),
      p_AbortSession = (\<lambda>ch c sid. at_gateway (\<lambda>w. Rpc_AbortSession sid)),
      p_StartUpload = (\<lambda>ch c q. at_gateway (\<lambda>w gw. case Rpc_StartUpload memory_backend (now_of w) q gw of (r, gw) \<Rightarrow>
        (map_reply (\<lambda>v. \<lparr>StartUploadResponse.sur_upload_id = StartUploadResult.sur_upload_id v,
           sur_max_part_size = StartUploadResult.sur_max_part_size v\<rparr>) r, gw))),
      p_CompleteUpload = (\<lambda>ch c q. at_gateway (\<lambda>w gw. case Rpc_CompleteUpload memory_backend (now_of w) q gw of (r, gw) \<Rightarrow>
        (map_reply (\<lambda>m. \<lparr>cup_etag = etag m, cup_version = version m, cup_content_length = content_length m\<rparr>) r, gw))),
      p_AbortUpload = (\<lambda>ch c uid flow. at_gateway (\<lambda>w. Rpc_AbortUpload memory_backend uid flow)),
      p_DiscoverRdmaEndpoint = (\<lambda>ch c sid n. dep_Discover sid n),
      p_CommitObject = (\<lambda>ch c q. dep_CommitObject q), p_CommitPart = (\<lambda>ch c q. dep_CommitPart q),
      p_RdmaAbortSession = (\<lambda>ch c sid. dep_RdmaAbort sid),
      p_dlopen = (\<lambda>name w. (Some 1, w)), p_dlsym = (\<lambda>h name w. (True, w)), p_dlclose = (\<lambda>h w. ((), w)),
      p_constructor = (\<lambda>w. ((), w)), p_destructor = (\<lambda>w. ((), w)), p_is_connected = (\<lambda>w. (True, w)),
      p_get_descriptor = (\<lambda>ptr n w. (True, w\<lparr>wd_held := insert ptr (wd_held w)\<rparr>)),
      p_put_descriptor = (\<lambda>ptr w. (True, w\<lparr>wd_held := wd_held w - {ptr}\<rparr>)),
      p_get_rdma_token = (\<lambda>ptr n off for_get w. (Some (rdma_token (ptr + off)), w\<lparr>wd_live := add_mset (rdma_token (ptr + off)) (wd_live w)\<rparr>)),
      p_put_rdma_token = (\<lambda>tok w. ((), w\<lparr>wd_live := wd_live w - {#tok#}\<rparr>)),
      p_inet_pton = (\<lambda>host. True),
      p_ep_create = (\<lambda>host port w. (Inr (wd_fresh w), w\<lparr>wd_fresh := wd_fresh w + 1, wd_eps := add_mset (wd_fresh w) (wd_eps w)\<rparr>)),
      p_rkey_unpack = (\<lambda>e pk w. (Inr (wd_fresh w), w\<lparr>wd_fresh := wd_fresh w + 1, wd_keys := add_mset (wd_fresh w) (wd_keys w)\<rparr>)),
      p_rkey_destroy = (\<lambda>k w. ((), w\<lparr>wd_keys := wd_keys w - {#k#}\<rparr>)),
      p_ep_close = (\<lambda>e w. ((), w\<lparr>wd_eps := wd_eps w - {#e#}\<rparr>)),
      p_put_nbx = (\<lambda>e src n raddr rk deadline. dep_put_nbx src n raddr), p_am_send_nbx = (\<lambda>e sid deadline. dep_am sid),
      p_crc32c = (\<lambda>ptr n w. (Crc32c (read_mem w ptr n), w)), p_base64 = rfc4648_encode_quad\<rparr>"

lemmas dep_defs = deployment_def dep_OpenSession_def dep_GdsPut_def dep_GdsGet_def at_gateway_def dep_Discover_def dep_put_nbx_def
  dep_am_def dep_CommitObject_def dep_CommitPart_def dep_RdmaAbort_def draw_def reply_def map_reply_def

section \<open>The interfaces of the client\<close>

interpretation dep_cuobj: cuobj_api "deployment md5" wd_held wd_live for md5
  by unfold_locales (auto simp: dep_defs quiet_def split: prod.splits)

interpretation dep_ucp: ucp_api "deployment md5" wd_eps wd_keys wd_pending for md5
  by unfold_locales
    (auto simp: dep_defs quiet_def Let_def split: prod.splits sum.splits option.splits UcxDone.splits)

section \<open>Tokens\<close>

lemma hex_val_digit: "d < 16 \<Longrightarrow> hex_val (digit_char d) = Some d"
  by (auto simp: hex_val_def digit_char_def Let_def)

lemma hex_chars: "c \<in> set (hex n) \<Longrightarrow> \<exists>d < 16. c = digit_char d"
proof (induction "16 :: nat" n rule: print_base.induct)
  case (1 n)
  show ?case
  proof (cases "n < 16")
    case False
    then consider "c \<in> set (hex (n div 16))" | "c = digit_char (n mod 16)" using 1(2) by (auto simp: print_base.simps [of 16 n])
    then show ?thesis using 1(1) False by cases (auto intro: exI [of _ "n mod 16"])
  qed (use 1(2) in \<open>auto simp: print_base.simps [of 16 n]\<close>)
qed

lemma hex_run_append:
  "\<forall>c \<in> set xs. hex_val c \<noteq> None \<Longrightarrow> hex_run acc (xs @ ys) = hex_run (hex_run acc xs) ys"
  by (induction xs arbitrary: acc) (auto split: option.splits)

lemma hex_run_hex: "hex_run 0 (hex n) = n"
proof (induction "16 :: nat" n rule: print_base.induct)
  case (1 n)
  show ?case
  proof (cases "n < 16")
    case True
    then show ?thesis by (simp add: print_base.simps [of 16 n] hex_val_digit)
  next
    case False
    have "\<forall>c \<in> set (hex (n div 16)). hex_val c \<noteq> None" using hex_chars hex_val_digit by fastforce
    then show ?thesis
      using 1 False by (simp add: print_base.simps [of 16 n] hex_run_append hex_val_digit)
  qed
qed

lemma hex_nonempty: "hex n \<noteq> []"
  by (subst print_base.simps) simp

lemma hex_char_facts:
  assumes "c \<in> set (hex n)"
  shows "c \<noteq> CHR '':''" "c \<noteq> CHR 0x00" "\<not> is_space c" "c \<noteq> CHR ''-''" "c \<noteq> CHR ''+''" "c \<notin> {CHR ''x'', CHR ''X''}"
proof -
  have "hex_val c \<noteq> None" using hex_chars [OF assms] hex_val_digit by auto
  moreover have "hex_val (CHR '':'') = None" "hex_val (CHR 0x00) = None" "hex_val (CHR ''-'') = None" "hex_val (CHR ''+'') = None"
    "hex_val (CHR ''x'') = None" "hex_val (CHR ''X'') = None" "is_space c \<Longrightarrow> hex_val c = None"
    by (auto simp: hex_val_def is_space_def Let_def)
  ultimately show "c \<noteq> CHR '':''" "c \<noteq> CHR 0x00" "\<not> is_space c" "c \<noteq> CHR ''-''" "c \<noteq> CHR ''+''" "c \<notin> {CHR ''x'', CHR ''X''}"
    by auto
qed

lemma strtoull16_hex: "n < u64_mod \<Longrightarrow> strtoull16 (hex n) = n"
proof -
  assume n: "n < u64_mod"
  obtain c cs where h: "hex n = c # cs" using hex_nonempty [of n] by (cases "hex n") auto
  have first: "\<not> is_space c" "c \<noteq> CHR ''-''" "c \<noteq> CHR ''+''" using hex_char_facts [of c n] h by auto
  have prefix: "hex_prefix (hex n) = hex n"
    using hex_char_facts(6) [of "hd cs" n] h by (auto simp: hex_prefix_def split: list.splits)
  show ?thesis using first prefix n hex_run_hex [of n] by (simp add: strtoull16_def h Let_def)
qed

lemma token_address: "ptr < u64_mod \<Longrightarrow> ParseRemoteBufferAddress (rdma_token ptr) = ptr"
proof -
  assume n: "ptr < u64_mod"
  have t: "takeWhile (\<lambda>c. c \<noteq> CHR '':'') (rdma_token ptr) = hex ptr"
    using hex_char_facts(1) by (auto simp: rdma_token_def takeWhile_append)
  have "c_str (hex ptr) = hex ptr" using hex_char_facts(2) by (auto simp: c_str_def)
  then show ?thesis using t n hex_nonempty by (simp add: ParseRemoteBufferAddress_def Let_def strtoull16_hex)
qed

section \<open>The gateway under client calls\<close>

text \<open>What every call of the client keeps: the memory of the client, a reachable storage backend and well-formed session indices.\<close>

abbreviation backend_of :: "MemoryBackend Gateway \<Rightarrow> MemoryBackend" where
  "backend_of gw \<equiv> co_backend (gw_co gw)"

definition serving :: "nat \<Rightarrow> MemoryBackend Gateway \<Rightarrow> bool" where
  "serving cap gw \<longleftrightarrow> memory_backend_reach cap (backend_of gw) \<and> store_wf (gw_sessions gw)"

definition session_for :: "string \<Rightarrow> string \<Rightarrow> nat option \<Rightarrow> string \<Rightarrow> MemoryBackend Gateway \<Rightarrow> bool" where
  "session_for b k t sid gw \<longleftrightarrow> sid \<noteq> [] \<and>
     (\<exists>r. SessionStore_Find sid (gw_sessions gw) = Inr r \<and> s_bucket (sessions (gw_sessions gw) ! r) = b \<and>
        object_key (sessions (gw_sessions gw) ! r) = k \<and> session_total (sessions (gw_sessions gw) ! r) = t)"

definition stored :: "string \<Rightarrow> string \<Rightarrow> bytes \<Rightarrow> string \<Rightarrow> string \<Rightarrow> MemoryBackend Gateway \<Rightarrow> bool" where
  "stored b k data e v gw \<longleftrightarrow> bodies (cb_data (backend_of gw)) (MakeKey b k) = Some data \<and>
     (\<exists>m. be_Head memory_backend b k (backend_of gw) = Inr m \<and> etag m = e \<and> version m = v \<and> content_length m = length data)"

lemma hook_quiet:
  assumes "SelectExecutor (session_opener B con now a gw) f = Some x" "dp_OnSessionOpened x s gw' = (r, gw2)"
    "session_total s = None \<or> s_op s \<noteq> kPut"
  shows "gw_co gw2 = gw_co gw' \<and> gw_sessions gw2 = gw_sessions gw'"
  using assms
  by (cases f) (auto simp: session_opener_def gds_data_path_def ucx_data_path_def GdsExecutor_OnSessionOpened_def
      UcxExecutor_OnSessionOpened_def UcxSessionRegistry_Create_def use_registry_def session_total_def Let_def set_co_def set_backend_def
      split: if_splits prod.splits)

lemma open_session_served:
  assumes "HandleOpenSession memory_backend con now a env q gw = (r, gw')" "serving cap gw"
    and "osr_idempotency_key q = []" "osr_session_id q \<noteq> []" "osr_expected_size q = 0 \<or> ParseOperationType (osr_op_type q) \<noteq> kPut"
  shows "serving cap gw' \<and> gw_co gw' = gw_co gw \<and>
    (\<forall>v. r = Inr v \<longrightarrow> osp_session_id v = osr_session_id q \<and>
      session_for (osr_bucket q) (osr_object_key q) (if osr_expected_size q = 0 then None else Some (osr_expected_size q)) (osr_session_id q) gw')"
proof -
  let ?p = "ToOpenSessionParams q" and ?st = "gw_sessions gw"
  let ?s = "new_session env ?p ?st"
  let ?r = "length (sessions ?st)"
  have fresh: "fresh_request ?p ?st" using assms(3) by (simp add: fresh_request_def ToOpenSessionParams_def)
  note c = Create_fresh [OF fresh, of env]
  note ins = inserted [OF refl, of ?s ?st]
  have wf: "store_wf (insert_session ?s ?st)" using wf_Create [of ?st env ?p] assms(2) c by (simp add: serving_def)
  have sid: "session_id ?s = osr_session_id q" using assms(4) by (simp add: new_session_def ToOpenSessionParams_def)
  have tot: "session_total ?s = None \<or> s_op ?s \<noteq> kPut" using assms(5) by (auto simp: session_total_def ToOpenSessionParams_def)
  show ?thesis
  proof (cases "SelectExecutor (session_opener memory_backend con now a gw) (s_data_flow ?s)")
    case None
    then show ?thesis
      using assms(1,2) c ins(1) wf by (auto simp: HandleOpenSession_def SessionOpener_Open_def serving_def Let_def)
  next
    case (Some x)
    obtain h gw2 where h: "dp_OnSessionOpened x ?s gw = (h, gw2)" by fastforce
    note quiet = hook_quiet [OF Some h tot]
    show ?thesis
    proof (cases h)
      case (Inl e)
      then show ?thesis
        using assms(1,2) c ins(1) wf Some h quiet wf_transitions(5) [OF wf, of "session_id ?s"]
        by (auto simp: HandleOpenSession_def SessionOpener_Open_def serving_def Let_def)
    next
      case (Inr u)
      then have gw': "gw' = gw2\<lparr>gw_sessions := insert_session ?s ?st\<rparr>" "r = Inr (FillOpenSessionResponse ?s)"
        using assms(1) c ins(1) Some h by (auto simp: HandleOpenSession_def SessionOpener_Open_def Let_def)
      have "session_for (osr_bucket q) (osr_object_key q) (if osr_expected_size q = 0 then None else Some (osr_expected_size q)) (osr_session_id q) gw'"
        using gw' ins(1,3) sid assms(4) by (auto simp: session_for_def session_total_def ToOpenSessionParams_def)
      then show ?thesis using gw' assms(2) wf quiet sid by (simp add: serving_def FillOpenSessionResponse_def)
    qed
  qed
qed

lemma mark_failed_keeps:
  "gw_co (mark_session_failed r gw) = gw_co gw" "store_wf (gw_sessions gw) \<Longrightarrow> store_wf (gw_sessions (mark_session_failed r gw))"
  using wf_transitions(5) by (auto simp: mark_session_failed_def SessionApp_MarkFailed_def)

lemma put_chunk_served:
  assumes "HandleGdsPut memory_backend md5 a now q gw = (r, gw')" "serving cap gw" "session_for b k None (gcr_session_id q) gw"
    and "gcr_upload_id q = []" "gcr_chunk_offset q = 0" "gcr_chunk_size q = n" "0 < n" "cap + n < u64_mod"
    and "ca_transferred a = int n" "length (ca_received a) = n"
  shows "serving cap gw' \<and> (\<forall>v. r = Inr v \<longrightarrow> stored b k (ca_received a) (gcp_etag v) (gcp_version v) gw')"
proof (cases "gw_gds_enabled gw \<and> GdsExecutor_available (ca_connected a) (gw_gds gw) \<and> gcr_rdma_token q \<noteq> []")
  case False
  then have "gw' = gw \<and> isl r" using assms(1)
    by (auto simp: HandleGdsPut_def PrepareGdsChunk_def split: option.splits if_splits)
  then show ?thesis using assms(2) by auto
next
  case True
  obtain x where x: "SessionStore_Find (gcr_session_id q) (gw_sessions gw) = Inr x" "s_bucket (sessions (gw_sessions gw) ! x) = b"
      "object_key (sessions (gw_sessions gw) ! x) = k" "expected_size (sessions (gw_sessions gw) ! x) = 0" "gcr_session_id q \<noteq> []"
    using assms(3) by (auto simp: session_for_def session_total_def split: if_splits)
  have ready: "chunk_ready a q gw x" using True x by (simp add: chunk_ready_def)
  have wf: "store_wf (gw_sessions gw)" using assms(2) by (simp add: serving_def)
  have len: "x < length (sessions (gw_sessions gw))" using wf_lookups(1) [OF wf x(1)] by simp
  let ?s = "sessions (gw_sessions (bumped x gw)) ! x"
  have s: "s_bucket ?s = b" "object_key ?s = k" "session_total ?s = None"
    using bumped_session [OF len, of x] x(2-4) by (simp_all add: session_total_def)
  obtain p ex c where p: "PutChunk memory_backend a now ?s 0 n (gw_gds gw, backend_of gw) = (p, ex, c)" by (rule prod_cases3)
  have gw': "gw' = (if isl p then mark_session_failed x (set_backend c ((bumped x gw)\<lparr>gw_gds := ex\<rparr>))
      else set_backend c ((bumped x gw)\<lparr>gw_gds := ex\<rparr>))"
    "r = (case p of Inl e \<Rightarrow> Inl (err_message e)
      | Inr m \<Rightarrow> Inr (FillGdsResponse (gateway_id ?s) ''completed'' ''gds-cuobject-rdma-read'' (etag m) (version m) 0))"
    using assms(1,4,5,6) Prepare_ready [OF ready] p by (auto simp: HandleGdsPut_def Let_def split: sum.splits)
  have c: "c = backend_of gw \<and> isl p \<or>
      be_WriteRange memory_backend now b k 0 (ca_received a) None (backend_of gw) = (p, c)"
    using p assms(7,9,10) s put_through_effect [of a n "\<lambda>view. be_WriteRange memory_backend now b k 0 view None" "gw_gds gw" "backend_of gw" p ex c]
    by (auto simp: PutChunk_def Let_def split: if_splits)
  have t: "write_target 0 (ca_received a) None = n" using assms(10) by (simp add: write_target_def)
  have reach: "memory_backend_reach cap c"
    using c assms(2,8) t memory_backend_reach.write_range [of cap "backend_of gw" 0 "ca_received a" None now b k]
    by (auto simp: serving_def)
  have serve: "serving cap gw'"
    unfolding gw' using reach bump_wf [OF wf] by (simp add: serving_def bumped_def mark_failed_keeps)
  have "stored b k (ca_received a) (etag m) (version m) gw'" if m: "p = Inr m" for m
  proof -
    have w: "CompositeBackend_WriteRange memory_index_store memory_data_store now b k 0 (ca_received a) None (backend_of gw) = (Inr m, c)"
      using c m by (auto simp: memory_backend_ops)
    have inv: "memory_backend_inv (backend_of gw)" "fits (cb_data (backend_of gw)) n"
      using memory_backend_reach_inv [of cap "backend_of gw"] assms(2,8) by (auto simp: serving_def fits_def)
    have "m = MakeMeta now n" "bodies (cb_data c) (MakeKey b k) = Some (written (content (bodies (cb_data (backend_of gw)) (MakeKey b k))) 0 (ca_received a) None)"
      "ix_entries (cb_index c) (MakeKey b k) = Some m"
      using mem.write_range_run(5) [OF inv(1) _ _ w refl] inv(2) t by simp_all
    moreover have "written old 0 (ca_received a) None = ca_received a" for old
      by (simp add: written_def write_target_def write_at_def)
    moreover have "backend_of gw' = c" using gw'(1) m by simp
    ultimately show ?thesis
      using assms(10) by (simp add: stored_def memory_backend_ops CompositeBackend_Head_def MemoryIndexStore_Head_def MakeMeta_def)
  qed
  then show ?thesis using serve gw'(2) by (cases p) (auto simp: FillGdsResponse_def)
qed

lemma abort_served:
  "serving cap gw \<Longrightarrow> serving cap (snd (Rpc_AbortSession sid gw)) \<and> gw_co (snd (Rpc_AbortSession sid gw)) = gw_co gw"
  using wf_transitions(5) by (auto simp: serving_def Rpc_AbortSession_def SessionApp_MarkFailedById_def Let_def split_beta)

section \<open>A PUT over GDS, end to end\<close>

definition sees :: "(MemoryBackend Gateway \<Rightarrow> (nat \<Rightarrow> byte) \<Rightarrow> bool) \<Rightarrow> World ClientState \<Rightarrow> bool" where
  "sees K s \<longleftrightarrow> K (wd_gw (cw s)) (wd_memory (cw s))"

lemma sees_calls:
  "preserves (sees K) (ext (p_now (deployment md5)))" "preserves (sees K) (ext (p_random (deployment md5)))"
  "preserves (sees K) (ext (p_jitter (deployment md5)))" "preserves (sees K) (ext (p_sleep_ms (deployment md5) ms))"
  "preserves (sees K) (ext (p_dlopen (deployment md5) nm))" "preserves (sees K) (ext (p_dlsym (deployment md5) h nm))"
  "preserves (sees K) (ext (p_dlclose (deployment md5) h))" "preserves (sees K) (ext (p_constructor (deployment md5)))"
  "preserves (sees K) (ext (p_destructor (deployment md5)))" "preserves (sees K) (ext (p_is_connected (deployment md5)))"
  "preserves (sees K) (ext (p_get_descriptor (deployment md5) ptr n))" "preserves (sees K) (ext (p_put_rdma_token (deployment md5) t))"
  by (simp_all add: preserves_def sees_def dep_defs)

lemma sees_cuobj: "preserves (sees K) (CuObjState_Get (deployment md5))"
proof -
  have res: "preserves (sees K) (ResolveApi (deployment md5) lib names)" for lib names
    by (induction names) (simp_all add: ResolveSymbol_def mon_intros, intro mon_intros sees_calls)
  have load: "preserves (sees K) (CuObjLibrary_Load (deployment md5) cs)" for cs
    by (induction cs) (simp_all add: mon_intros, intro mon_intros sees_calls res)
  show ?thesis
    unfolding CuObjState_Get_def CuObjState_construct_def CuObjLibrary_Get_def
    by (intro mon_intros sees_calls load preserves_modify) (simp_all add: sees_def)
qed

lemma sees_register: "preserves (sees K) (RegisterUnderLock (deployment md5) ptr n)"
  unfolding RegisterUnderLock_def by (intro mon_intros sees_calls preserves_modify) (simp add: sees_def)

lemma AcquireToken_sees:
  "valid (sees K) (AcquireToken (deployment md5) ptr n 0 op) (\<lambda>r s. sees K s \<and> (\<forall>t. r = Inr t \<longrightarrow> t = rdma_token ptr))"
proof -
  have tok: "valid (sees K) (do { tok \<leftarrow> ext (p_get_rdma_token (deployment md5) ptr n 0 g);
      ret (case tok of None \<Rightarrow> Inl e | Some t \<Rightarrow> Inr t) }) (\<lambda>r s. sees K s \<and> (\<forall>t. r = Inr t \<longrightarrow> t = rdma_token ptr))" for g e
    by (simp add: valid_def sees_def deployment_def)
  show ?thesis
    unfolding AcquireToken_def
    by (intro valid_intros sees_cuobj preserves_cases preserves_ret sees_register tok) simp_all
qed

lemma with_token_sees:
  assumes "valid (sees K) (body (rdma_token ptr)) (\<lambda>r. sees (L r))" "\<And>e gw m. K gw m \<Longrightarrow> L (Inl e) gw m"
  shows "valid (sees K) (with_token (deployment md5) ptr n op body) (\<lambda>r. sees (L r))"
  unfolding with_token_def
proof (rule valid_seq [OF AcquireToken_sees])
  fix tok
  show "valid (\<lambda>s. sees K s \<and> (\<forall>t. tok = Inr t \<longrightarrow> t = rdma_token ptr))
    (or_fail tok (\<lambda>t. do { r \<leftarrow> body t; _ \<leftarrow> GdsRdmaToken_Reset (deployment md5) t; ret r })) (\<lambda>r. sees (L r))"
  proof (cases tok)
    case (Inl e)
    then show ?thesis using assms(2) by (auto simp: valid_def sees_def)
  next
    case (Inr t)
    have "valid (sees K) (do { r \<leftarrow> body (rdma_token ptr); _ \<leftarrow> GdsRdmaToken_Reset (deployment md5) t; ret r }) (\<lambda>r. sees (L r))"
      unfolding GdsRdmaToken_Reset_def by (rule valid_seq [OF assms(1)], rule valid_bind [OF sees_calls(12)], rule valid_ret)
    then show ?thesis using Inr by (auto simp: valid_def)
  qed
qed

lemma valid_pure: "(C \<Longrightarrow> valid I m Q) \<Longrightarrow> valid (\<lambda>s. C \<and> I s) m Q"
  by (auto simp: valid_def)

lemma valid_retry:
  assumes "valid I fn (\<lambda>r s. I s \<and> Q r s)" "preserves I (ext (p_jitter P))" "\<And>n. preserves I (ext (p_sleep_ms P n))"
  shows "valid I (RetryIfRetryable P policy fn) (\<lambda>r s. I s \<and> Q r s)"
proof -
  have loop: "valid (\<lambda>s. I s \<and> Q r s) (retry_loop P policy fn n r) (\<lambda>r s. I s \<and> Q r s)" for n r
  proof (induction "nat (max_attempts policy - n)" arbitrary: n r)
    case 0
    then show ?case by (subst retry_loop.simps) (simp add: valid_ret)
  next
    case (Suc k)
    have "k = nat (max_attempts policy - (n + 1))" using Suc(2) by simp
    note next_round = Suc(1) [OF this]
    have again: "valid I (do { j \<leftarrow> ext (p_jitter P); _ \<leftarrow> ext (p_sleep_ms P (retry_delay policy n j)); latest \<leftarrow> fn;
        retry_loop P policy fn (n + 1) latest }) (\<lambda>r s. I s \<and> Q r s)"
      by (rule valid_bind [OF assms(2)], rule valid_bind [OF assms(3)], rule valid_seq [OF assms(1) next_round])
    show ?case
    proof (cases "n < max_attempts policy \<and> (\<exists>e. r = Inl e \<and> ce_retryable e)")
      case True
      then show ?thesis using again by (subst retry_loop.simps) (auto simp: valid_def)
    next
      case False
      then show ?thesis by (subst retry_loop.simps) (auto simp: valid_def split: sum.split)
    qed
  qed
  show ?thesis unfolding RetryIfRetryable_def by (rule valid_seq [OF assms(1) loop])
qed

text \<open>A PUT of the bytes the client has at an address.\<close>

definition put_done :: "nat \<Rightarrow> (nat \<Rightarrow> byte) \<Rightarrow> PutObjectRequest \<Rightarrow> BufferView \<Rightarrow> TransferOutcome cresult \<Rightarrow>
    MemoryBackend Gateway \<Rightarrow> (nat \<Rightarrow> byte) \<Rightarrow> bool" where
  "put_done cap mem q b r gw m \<longleftrightarrow> serving cap gw \<and> m = mem \<and>
     (\<forall>out. r = Inr out \<longrightarrow> to_bytes_transferred out = bv_size b \<and>
        stored (put_bucket q) (put_key q) (map mem [bv_data b..<bv_data b + bv_size b]) (to_etag out) (to_version out) gw)"

lemma dispatch_put:
  assumes "0 < bv_size b" "cap + bv_size b < u64_mod" "bv_data b < u64_mod"
  shows "valid (sees (\<lambda>gw m. serving cap gw \<and> m = mem \<and> session_for (put_bucket q) (put_key q) None (ts_session_id ses) gw))
    (Dispatch (deployment md5) opts (ChunkDispatcher_put ses q kPut) (rdma_token (bv_data b)) 0 (bv_size b))
    (\<lambda>r. sees (\<lambda>gw m. serving cap gw \<and> m = mem \<and>
      (\<forall>v. r = Inr v \<longrightarrow> stored (put_bucket q) (put_key q) (map mem [bv_data b..<bv_data b + bv_size b]) (do_etag v) (do_version v) gw)))"
proof -
  let ?op = "MakeChunkOp opts (chunk_plan_of (ChunkDispatcher_put ses q kPut) (rdma_token (bv_data b)) 0 (bv_size b))"
  let ?q = "BuildGdsChunkRequest ?op"
  have q: "gcr_session_id ?q = ts_session_id ses" "gcr_upload_id ?q = []" "gcr_chunk_offset ?q = 0" "gcr_chunk_size ?q = bv_size b"
    "gcr_rdma_token ?q = rdma_token (bv_data b)" "ck_operation ?op \<noteq> kGet"
    by (simp_all add: BuildGdsChunkRequest_def MakeChunkOp_def chunk_plan_of_def ChunkDispatcher_put_def)
  have tok: "rdma_token (bv_data b) \<noteq> []" by (simp add: rdma_token_def)
  have put: "serving cap gw' \<and> (\<forall>v. r = Inr v \<longrightarrow> stored (put_bucket q) (put_key q)
      (map (wd_memory w) [bv_data b..<bv_data b + bv_size b]) (gcp_etag v) (gcp_version v) gw')"
    if "HandleGdsPut memory_backend md5 (put_answers w (rdma_token (bv_data b)) (bv_size b)) t ?q (wd_gw w) = (r, gw')"
      "serving cap (wd_gw w)" "session_for (put_bucket q) (put_key q) None (ts_session_id ses) (wd_gw w)" for w t r gw'
    using put_chunk_served [OF that(1,2), of "put_bucket q" "put_key q" "bv_size b"] that(3) q assms token_address [OF assms(3)]
    by (simp add: put_answers_def read_mem_def)
  show ?thesis
    unfolding Dispatch_def GdsChunk_def
    using tok q put
    by (auto simp: valid_def sees_def deployment_def dep_GdsPut_def reply_def split: option.split sum.split prod.split)
qed

lemma execute_transfer:
  assumes "\<lbrakk>bv_data b \<noteq> 0; bv_size b \<noteq> 0\<rbrakk> \<Longrightarrow> valid (sees K)
      (Dispatch (deployment md5) opts (if uid \<noteq> [] then SetMultipart uid pn (ChunkDispatcher_put ses q kPut) else ChunkDispatcher_put ses q kPut)
        (rdma_token (bv_data b)) 0 (bv_size b)) (\<lambda>r. sees (L r))"
    and "\<And>e gw m. K gw m \<Longrightarrow> D (Inl e) gw m" "\<And>e gw m. L (Inl e) gw m \<Longrightarrow> D (Inl e) gw m"
    and "\<And>v gw m. L (Inr v) gw m \<Longrightarrow> D (Inr (transfer_outcome ses v (bv_size b))) gw m"
  shows "valid (sees K) (ExecuteTransferPut (deployment md5) opts ses q (bv_data b) (bv_size b) uid pn) (\<lambda>r. sees (D r))"
proof (cases "bv_data b = 0 \<or> bv_size b = 0")
  case True
  then show ?thesis using assms(2) by (auto simp: ExecuteTransferPut_def valid_def sees_def)
next
  case False
  then have disp: "valid (sees K)
      (Dispatch (deployment md5) opts (if uid \<noteq> [] then SetMultipart uid pn (ChunkDispatcher_put ses q kPut) else ChunkDispatcher_put ses q kPut)
        (rdma_token (bv_data b)) 0 (bv_size b)) (\<lambda>r. sees (L r))"
    using assms(1) by simp
  have out: "valid (sees (L r)) (or_fail r (\<lambda>v. do { _ \<leftarrow> report_progress (put_progress_callback q) (bv_size b) (bv_size b) GPUDirect;
      ret (Inr (transfer_outcome ses v (bv_size b))) })) (\<lambda>r. sees (D r))" for r
    using assms(3,4) by (cases r) (auto simp: valid_def sees_def report_progress_def)
  have "ExecuteTransferPut (deployment md5) opts ses q (bv_data b) (bv_size b) uid pn =
      with_token (deployment md5) (bv_data b) (bv_size b) kPut (\<lambda>tok. do {
        disp \<leftarrow> Dispatch (deployment md5) opts
          (if uid \<noteq> [] then SetMultipart uid pn (ChunkDispatcher_put ses q kPut) else ChunkDispatcher_put ses q kPut) tok 0 (bv_size b);
        or_fail disp (\<lambda>v. do { _ \<leftarrow> report_progress (put_progress_callback q) (bv_size b) (bv_size b) GPUDirect;
          ret (Inr (transfer_outcome ses v (bv_size b))) }) })"
    using False by (auto simp: ExecuteTransferPut_def Let_def)
  then show ?thesis by (simp only:) (rule with_token_sees, rule valid_seq [OF disp out], rule assms(2))
qed

lemma execute_put:
  assumes "cap + bv_size b < u64_mod" "bv_data b < u64_mod"
  shows "valid (sees (\<lambda>gw m. serving cap gw \<and> m = mem \<and> session_for (put_bucket q) (put_key q) None (ts_session_id ses) gw))
    (ExecutePut (deployment md5) opts ses q b) (\<lambda>r. sees (put_done cap mem q b r))"
  unfolding ExecutePut_def
  by (rule execute_transfer, simp, rule dispatch_put) (use assms in \<open>auto simp: put_done_def transfer_outcome_def\<close>)

lemma put_request:
  fixes opts r1 r2 q b f part
  defines "req \<equiv> BuildOpenSessionRequest (MakeSessionHandshake opts r1 r2 (put_plan q b f part))"
  shows "osr_session_id req \<noteq> []" "osr_idempotency_key req = put_idempotency_key q" "osr_expected_size req = 0"
    "osr_bucket req = put_bucket q" "osr_object_key req = put_key q" "osr_data_flow req = ClientDataFlow_ToString f"
  by (simp_all add: req_def BuildOpenSessionRequest_def MakeSessionHandshake_def put_plan_def MakeId_def)

lemma open_put:
  assumes "put_idempotency_key q = []"
  shows "valid (sees (\<lambda>gw m. serving cap gw \<and> K (gw_co gw) \<and> m = mem)) (open_session (deployment md5) opts (put_plan q b f part))
    (\<lambda>r. sees (\<lambda>gw m. serving cap gw \<and> K (gw_co gw) \<and> m = mem \<and>
       (\<forall>v. r = Inr v \<longrightarrow> session_for (put_bucket q) (put_key q) None (osp_session_id v) gw)))"
proof -
  let ?o = "\<lambda>r1 r2. BuildOpenSessionRequest (MakeSessionHandshake opts r1 r2 (put_plan q b f part))"
  have op: "serving cap gw' \<and> gw_co gw' = gw_co gw \<and> (\<forall>v. r = Inr v \<longrightarrow> session_for (put_bucket q) (put_key q) None (osp_session_id v) gw')"
    if "HandleOpenSession memory_backend con now a env (?o r1 r2) gw = (r, gw')" "serving cap gw" for con now a env r1 r2 gw r gw'
    using open_session_served [OF that] put_request [of opts r1 r2 q b f part] assms by auto
  show ?thesis
    unfolding open_session_def
    by (intro valid_bind sees_calls)
      (auto simp: RpcOpenTransferSession_def valid_def sees_def deployment_def dep_OpenSession_def reply_def
        split: option.split sum.split prod.split dest!: op)
qed

lemma open_put_session:
  assumes "put_idempotency_key q = []"
  shows "valid (sees (\<lambda>gw m. serving cap gw \<and> K (gw_co gw) \<and> m = mem)) (OpenSessionForPut (deployment md5) opts q b)
    (\<lambda>r. sees (\<lambda>gw m. serving cap gw \<and> K (gw_co gw) \<and> m = mem \<and>
       (\<forall>ses. r = Inr ses \<longrightarrow> session_for (put_bucket q) (put_key q) None (ts_session_id ses) gw)))"
  unfolding OpenSessionForPut_def
proof (rule valid_or_fail)
  show "valid (sees (\<lambda>gw m. serving cap gw \<and> K (gw_co gw) \<and> m = mem))
     (do { open_response \<leftarrow> open_session (deployment md5) opts (put_plan q b GPUDirect False);
           or_fail open_response (\<lambda>r. ret (Inr (ImportSession r))) })
     (\<lambda>r. sees (\<lambda>gw m. serving cap gw \<and> K (gw_co gw) \<and> m = mem \<and>
       (\<forall>ses. r = Inr ses \<longrightarrow> session_for (put_bucket q) (put_key q) None (ts_session_id ses) gw)))" for x
    by (rule valid_seq [OF open_put [OF assms]]) (auto simp: valid_def sees_def or_fail_def ImportSession_def split: sum.split)
qed (simp add: sees_def)

lemma abort_sees:
  "preserves (sees (\<lambda>gw m. serving cap gw \<and> K (gw_co gw) \<and> m = mem)) (MetadataClient_AbortSession (deployment md5) opts sid)"
  unfolding MetadataClient_AbortSession_def
  by (intro mon_intros preserves_ext)
    (use abort_served in \<open>auto simp: sees_def deployment_def at_gateway_def split_beta\<close>)

text \<open>An attempt, for any transfer that keeps a fact about the coordinator of the gateway when it fails.\<close>

lemma put_attempt_valid:
  fixes cap mem and K :: "MemoryBackend MultipartCoordinator \<Rightarrow> bool"
  defines "J \<equiv> \<lambda>gw m. serving cap gw \<and> K (gw_co gw) \<and> m = mem"
  assumes "put_idempotency_key q = []"
    and exec: "\<And>ses. valid (sees (\<lambda>gw m. J gw m \<and> session_for (put_bucket q) (put_key q) None (ts_session_id ses) gw)) (exec ses) (\<lambda>r. sees (D r))"
    and keep: "\<And>r gw m. D r gw m \<Longrightarrow> J gw m" and fail: "\<And>e gw m. J gw m \<Longrightarrow> D (Inl e) gw m"
  shows "valid (sees J) (put_attempt (deployment md5) opts deadline what q b exec) (\<lambda>r s. sees J s \<and> sees (D r) s)"
proof -
  note abort = abort_sees [of cap K mem md5 opts, folded J_def]
  have opened: "valid (sees J) (OpenSessionForPut (deployment md5) opts q b)
      (\<lambda>r. sees (\<lambda>gw m. J gw m \<and> (\<forall>ses. r = Inr ses \<longrightarrow> session_for (put_bucket q) (put_key q) None (ts_session_id ses) gw)))"
    using open_put_session [OF assms(2), of cap K mem md5 opts b] by (simp add: J_def)
  have finish: "valid (sees (D r))
      (case r of Inr x \<Rightarrow> ret r | Inl e \<Rightarrow> do { _ \<leftarrow> MetadataClient_AbortSession (deployment md5) opts sid; ret r })
      (\<lambda>r s. sees J s \<and> sees (D r) s)" for r sid
  proof (cases r)
    case (Inl e)
    have "valid (sees J) (do { _ \<leftarrow> MetadataClient_AbortSession (deployment md5) opts sid; ret r }) (\<lambda>r s. sees J s \<and> sees (D r) s)"
      by (rule valid_bind [OF abort valid_ret]) (use fail Inl in \<open>auto simp: sees_def\<close>)
    then show ?thesis using Inl keep by (auto simp: valid_def sees_def)
  qed (use keep in \<open>auto simp: valid_def sees_def\<close>)
  have body: "valid (sees (\<lambda>gw m. J gw m \<and> (\<forall>ses. r = Inr ses \<longrightarrow> session_for (put_bucket q) (put_key q) None (ts_session_id ses) gw)))
    (or_fail r (\<lambda>ses. do { outcome \<leftarrow> exec ses;
       (case outcome of Inr x \<Rightarrow> ret outcome
        | Inl e \<Rightarrow> do { _ \<leftarrow> MetadataClient_AbortSession (deployment md5) opts (ts_session_id ses); ret outcome }) }))
    (\<lambda>r s. sees J s \<and> sees (D r) s)" for r
  proof (cases r)
    case (Inl e)
    then show ?thesis using fail by (auto simp: valid_def sees_def)
  next
    case (Inr ses)
    show ?thesis using valid_seq [OF exec [of ses] finish [where sid = "ts_session_id ses"]] Inr by simp
  qed
  show ?thesis
    unfolding put_attempt_def
    by (rule valid_bind [OF sees_calls(1)], rule valid_if, rule valid_ret, simp add: fail sees_def, rule valid_seq [OF opened body])
qed

lemma put_attempt_done:
  assumes "put_idempotency_key q = []" "cap + bv_size b < u64_mod" "bv_data b < u64_mod"
  shows "valid (sees (\<lambda>gw m. serving cap gw \<and> m = mem))
    (put_attempt (deployment md5) opts deadline what q b (\<lambda>ses. ExecutePut (deployment md5) opts ses q b))
    (\<lambda>r s. sees (\<lambda>gw m. serving cap gw \<and> m = mem) s \<and> sees (put_done cap mem q b r) s)"
proof -
  have exec: "valid (sees (\<lambda>gw m. (serving cap gw \<and> True \<and> m = mem) \<and> session_for (put_bucket q) (put_key q) None (ts_session_id ses) gw))
      (ExecutePut (deployment md5) opts ses q b) (\<lambda>r. sees (put_done cap mem q b r))" for ses
    using execute_put [OF assms(2,3), of mem q ses md5 opts] by simp
  show ?thesis
    using put_attempt_valid [where K = "\<lambda>_. True" and D = "put_done cap mem q b", OF assms(1) exec] by (simp add: put_done_def)
qed

lemma gds_put_done:
  assumes "put_idempotency_key q = []" "cap + bv_size b < u64_mod" "bv_data b < u64_mod"
  shows "valid (sees (\<lambda>gw m. serving cap gw \<and> m = mem)) (GdsTransferPath_PutObject (deployment md5) opts caps q b)
    (\<lambda>r s. sees (\<lambda>gw m. serving cap gw \<and> m = mem) s \<and> sees (put_done cap mem q b r) s)"
  unfolding GdsTransferPath_PutObject_def
  by (intro valid_or_fail valid_bind sees_calls valid_retry put_attempt_done assms) (simp_all add: sees_def put_done_def)

section \<open>A GET over GDS, end to end\<close>

lemma write_mem_apply:
  "write_mem ptr xs m a = (if ptr \<le> a \<and> a < ptr + length xs then xs ! (a - ptr) else m a)"
  by (induction xs arbitrary: ptr m) (auto simp: nth_Cons')

lemma written_back: "map (write_mem ptr xs m) [ptr..<ptr + length xs] = xs"
  by (rule nth_equalityI) (simp_all add: write_mem_apply)

lemma get_chunk_served:
  assumes "HandleGdsGet memory_backend a q gw = (r, gw')" "serving cap gw" "session_for (gcr_bucket q) (gcr_object_key q) t (gcr_session_id q) gw"
    and "stored (gcr_bucket q) (gcr_object_key q) data e v gw" "gcr_chunk_offset q < length data" "0 < gcr_chunk_size q" "r = Inr resp"
  shows "serving cap gw' \<and> backend_of gw' = backend_of gw \<and> gcp_etag resp = e \<and> gcp_version resp = v \<and>
    (let sent = take (gcr_chunk_size q) (drop (gcr_chunk_offset q) data) in gcp_crc32c resp = Crc32c sent \<and>
     (\<exists>obj. rdma_writes (gw_gds gw') = rdma_writes (gw_gds gw) @ [(obj, ParseRemoteBufferAddress (gcr_rdma_token q), sent)]))"
proof -
  obtain x where x: "SessionStore_Find (gcr_session_id q) (gw_sessions gw) = Inr x" "gcr_session_id q \<noteq> []"
      "s_bucket (sessions (gw_sessions gw) ! x) = gcr_bucket q" "object_key (sessions (gw_sessions gw) ! x) = gcr_object_key q"
    using assms(3) by (auto simp: session_for_def)
  have wf: "store_wf (gw_sessions gw)" using assms(2) by (simp add: serving_def)
  have len: "x < length (sessions (gw_sessions gw))" using wf_lookups(1) [OF wf x(1)] by simp
  have "gw_gds_enabled gw \<and> GdsExecutor_available (ca_connected a) (gw_gds gw) \<and> gcr_rdma_token q \<noteq> []"
    using assms(1,7) by (auto simp: HandleGdsGet_def PrepareGdsChunk_def split: option.splits if_splits)
  then have ready: "chunk_ready a q gw x" using x by (simp add: chunk_ready_def)
  let ?s = "sessions (gw_sessions (bumped x gw)) ! x"
  have s: "s_bucket ?s = gcr_bucket q" "object_key ?s = gcr_object_key q" using bumped_session [OF len, of x] x(3,4) by simp_all
  from get_run [OF ready, of memory_backend resp gw'] obtain head out where
    g: "be_Head memory_backend (gcr_bucket q) (gcr_object_key q) (backend_of gw) = Inr head"
      "GetChunk memory_backend a ?s (gcr_rdma_token q) (gcr_chunk_offset q) (gcr_chunk_size q) (backend_of gw) (gw_gds gw) = (Inr out, gw_gds gw')"
      "gcp_etag resp = etag head" "gcp_version resp = version head" "gcp_crc32c resp = gc_crc32c out"
    using assms(1,7) by auto
  have body: "bodies (cb_data (backend_of gw)) (MakeKey (s_bucket ?s) (object_key ?s)) = Some data" using assms(4) s by (simp add: stored_def)
  note eff = memory_objects.GetChunk_effect [OF body assms(5,6) g(2)]
  have gw': "backend_of gw' = backend_of gw" "gw_sessions gw' = gw_sessions (bumped x gw)"
    using assms(1,7) Prepare_ready [OF ready] by (auto simp: HandleGdsGet_def Let_def split: sum.splits prod.splits)
  have "serving cap gw'" using gw' assms(2) bump_wf [OF wf] by (simp add: serving_def bumped_def)
  then show ?thesis using gw' eff g assms(4) by (auto simp: stored_def Let_def)
qed

definition asked :: "GetObjectRequest \<Rightarrow> BufferView \<Rightarrow> nat" where
  "asked q d = min (case get_length q of None \<Rightarrow> bv_size d | Some n \<Rightarrow> n) (bv_size d)"

definition get_done :: "nat \<Rightarrow> bytes \<Rightarrow> string \<Rightarrow> string \<Rightarrow> (nat \<Rightarrow> byte) \<Rightarrow> GetObjectRequest \<Rightarrow> BufferView \<Rightarrow> TransferOutcome cresult \<Rightarrow>
    MemoryBackend Gateway \<Rightarrow> (nat \<Rightarrow> byte) \<Rightarrow> bool" where
  "get_done cap data e v mem q d r gw m \<longleftrightarrow>
     (\<forall>out. r = Inr out \<longrightarrow> serving cap gw \<and> stored (get_bucket q) (get_key q) data e v gw \<and> to_etag out = e \<and> to_version out = v \<and>
        to_bytes_transferred out = asked q d \<and>
        m = write_mem (bv_data d) (take (asked q d) (drop (get_offset q) data)) mem)"

lemma dispatch_get:
  assumes "bv_data d < u64_mod" "get_offset q < length data" "0 < n"
  shows "valid (sees (\<lambda>gw m. serving cap gw \<and> m = mem \<and> stored (get_bucket q) (get_key q) data e v gw \<and>
       session_for (get_bucket q) (get_key q) t (ts_session_id ses) gw))
    (Dispatch (deployment md5) opts (ChunkDispatcher_get ses q kGet) (rdma_token (bv_data d)) (get_offset q) n)
    (\<lambda>r. sees (\<lambda>gw m. \<forall>x. r = Inr x \<longrightarrow> serving cap gw \<and> stored (get_bucket q) (get_key q) data e v gw \<and>
       do_etag x = e \<and> do_version x = v \<and> m = write_mem (bv_data d) (take n (drop (get_offset q) data)) mem))"
proof -
  let ?op = "MakeChunkOp opts (chunk_plan_of (ChunkDispatcher_get ses q kGet) (rdma_token (bv_data d)) (get_offset q) n)"
  let ?q = "BuildGdsChunkRequest ?op"
  have q: "gcr_session_id ?q = ts_session_id ses" "gcr_bucket ?q = get_bucket q" "gcr_object_key ?q = get_key q"
    "gcr_chunk_offset ?q = get_offset q" "gcr_chunk_size ?q = n" "gcr_rdma_token ?q = rdma_token (bv_data d)" "ck_operation ?op = kGet"
    by (simp_all add: BuildGdsChunkRequest_def MakeChunkOp_def chunk_plan_of_def ChunkDispatcher_get_def)
  have tok: "rdma_token (bv_data d) \<noteq> []" by (simp add: rdma_token_def)
  have get: "serving cap gw' \<and> stored (get_bucket q) (get_key q) data e v gw' \<and> gcp_etag x = e \<and> gcp_version x = v \<and>
      land_writes (drop (length (rdma_writes (gw_gds gw))) (rdma_writes (gw_gds gw'))) mem =
        write_mem (bv_data d) (take n (drop (get_offset q) data)) mem"
    if "HandleGdsGet memory_backend a ?q gw = (Inr x, gw')" "serving cap gw" "stored (get_bucket q) (get_key q) data e v gw"
      "session_for (get_bucket q) (get_key q) t (ts_session_id ses) gw" for a x gw gw'
  proof -
    note g = get_chunk_served [OF that(1,2), of t data e v x, unfolded q, OF that(4,3) assms(2,3) refl, unfolded token_address [OF assms(1)]]
    then obtain obj where "rdma_writes (gw_gds gw') = rdma_writes (gw_gds gw) @ [(obj, bv_data d, take n (drop (get_offset q) data))]"
      by (auto simp: Let_def)
    then show ?thesis using g that(3) by (simp add: stored_def land_writes_def)
  qed
  show ?thesis
    unfolding Dispatch_def GdsChunk_def
    using tok q by (auto simp: valid_def sees_def deployment_def dep_GdsGet_def reply_def split: option.split sum.split prod.split dest!: get)
qed

lemma get_request:
  fixes opts r1 r2 q d
  defines "req \<equiv> BuildOpenSessionRequest (MakeSessionHandshake opts r1 r2
      \<lparr>sp_operation = kGet, sp_bucket = get_bucket q, sp_key = get_key q, sp_offset = get_offset q, sp_length = get_length q,
       sp_timeout = get_timeout_ms q, sp_idempotency_key = [], sp_buffer_type = bv_type d, sp_path = GPUDirect, sp_is_multipart_part = False\<rparr>)"
  shows "osr_session_id req \<noteq> []" "osr_idempotency_key req = []" "ParseOperationType (osr_op_type req) \<noteq> kPut"
    "osr_bucket req = get_bucket q" "osr_object_key req = get_key q"
  by (simp_all add: req_def BuildOpenSessionRequest_def MakeSessionHandshake_def MakeId_def ParseOperationType_def)

lemma open_get:
  "valid (sees (\<lambda>gw m. serving cap gw \<and> m = mem \<and> stored b k data e v gw)) (OpenSessionForGet (deployment md5) opts q d)
    (\<lambda>r. sees (\<lambda>gw m. serving cap gw \<and> m = mem \<and> stored b k data e v gw \<and>
       (\<forall>ses. r = Inr ses \<longrightarrow> (\<exists>t. session_for (get_bucket q) (get_key q) t (ts_session_id ses) gw))))"
proof -
  let ?o = "\<lambda>r1 r2. BuildOpenSessionRequest (MakeSessionHandshake opts r1 r2
      \<lparr>sp_operation = kGet, sp_bucket = get_bucket q, sp_key = get_key q, sp_offset = get_offset q, sp_length = get_length q,
       sp_timeout = get_timeout_ms q, sp_idempotency_key = [], sp_buffer_type = bv_type d, sp_path = GPUDirect, sp_is_multipart_part = False\<rparr>)"
  have op: "serving cap gw' \<and> (stored b k data e v gw \<longrightarrow> stored b k data e v gw') \<and>
      (\<forall>x. r = Inr x \<longrightarrow> (\<exists>t. session_for (get_bucket q) (get_key q) t (osp_session_id x) gw'))"
    if "HandleOpenSession memory_backend con now a env (?o r1 r2) gw = (r, gw')" "serving cap gw" for con now a env r1 r2 gw r gw'
    using open_session_served [OF that] get_request [of opts r1 r2 q d] by (auto simp: stored_def)
  have rpc: "valid (sees (\<lambda>gw m. serving cap gw \<and> m = mem \<and> stored b k data e v gw)) (open_session (deployment md5) opts
      \<lparr>sp_operation = kGet, sp_bucket = get_bucket q, sp_key = get_key q, sp_offset = get_offset q, sp_length = get_length q,
       sp_timeout = get_timeout_ms q, sp_idempotency_key = [], sp_buffer_type = bv_type d, sp_path = GPUDirect, sp_is_multipart_part = False\<rparr>)
    (\<lambda>r. sees (\<lambda>gw m. serving cap gw \<and> m = mem \<and> stored b k data e v gw \<and>
       (\<forall>x. r = Inr x \<longrightarrow> (\<exists>t. session_for (get_bucket q) (get_key q) t (osp_session_id x) gw))))"
    unfolding open_session_def
    by (intro valid_bind sees_calls)
      (auto simp: RpcOpenTransferSession_def valid_def sees_def deployment_def dep_OpenSession_def reply_def
        split: option.split sum.split prod.split dest!: op)
  show ?thesis
    unfolding OpenSessionForGet_def
    by (rule valid_or_fail, simp add: sees_def, rule valid_seq [OF rpc])
      (auto simp: valid_def sees_def or_fail_def ImportSession_def split: sum.split)
qed

lemma get_single_done:
  assumes "bv_data d < u64_mod" "get_offset q < length data"
  shows "valid (sees (\<lambda>gw m. serving cap gw \<and> m = mem \<and> stored (get_bucket q) (get_key q) data e v gw))
    (GetObjectSingle (deployment md5) opts q d) (\<lambda>r. sees (get_done cap data e v mem q d r))"
proof -
  have exec: "valid (sees (\<lambda>gw m. serving cap gw \<and> m = mem \<and> stored (get_bucket q) (get_key q) data e v gw \<and>
       session_for (get_bucket q) (get_key q) t (ts_session_id ses) gw))
    (ExecuteGet (deployment md5) opts ses q d) (\<lambda>r. sees (get_done cap data e v mem q d r))" for ses t
  proof (cases "bv_data d = 0 \<or> bv_size d = 0 \<or> asked q d = 0")
    case True
    then show ?thesis by (auto simp: ExecuteGet_def ExecuteTransferGet_def asked_def valid_def sees_def get_done_def Let_def)
  next
    case False
    have "valid (sees (\<lambda>gw m. serving cap gw \<and> m = mem \<and> stored (get_bucket q) (get_key q) data e v gw \<and>
         session_for (get_bucket q) (get_key q) t (ts_session_id ses) gw))
      (with_token (deployment md5) (bv_data d) (asked q d) kGet (\<lambda>tok. do {
        disp \<leftarrow> Dispatch (deployment md5) opts (ChunkDispatcher_get ses q kGet) tok (get_offset q) (asked q d);
        or_fail disp (\<lambda>v. do {
          _ \<leftarrow> report_progress (get_progress_callback q) (asked q d) (asked q d) GPUDirect;
          ret (Inr (transfer_outcome ses v (asked q d))) }) })) (\<lambda>r. sees (get_done cap data e v mem q d r))"
    proof (rule with_token_sees, rule valid_seq [OF dispatch_get])
      fix r
      show "valid (sees (\<lambda>gw m. \<forall>x. r = Inr x \<longrightarrow> serving cap gw \<and> stored (get_bucket q) (get_key q) data e v gw \<and>
           do_etag x = e \<and> do_version x = v \<and> m = write_mem (bv_data d) (take (asked q d) (drop (get_offset q) data)) mem))
        (or_fail r (\<lambda>v. do {
          _ \<leftarrow> report_progress (get_progress_callback q) (asked q d) (asked q d) GPUDirect;
          ret (Inr (transfer_outcome ses v (asked q d))) })) (\<lambda>r. sees (get_done cap data e v mem q d r))"
        by (cases r) (auto simp: valid_def sees_def get_done_def report_progress_def transfer_outcome_def)
    qed (use assms False in \<open>auto simp: get_done_def\<close>)
    then show ?thesis using False by (simp add: ExecuteGet_def ExecuteTransferGet_def Let_def flip: asked_def)
  qed
  have body: "valid (sees (\<lambda>gw m. serving cap gw \<and> m = mem \<and> stored (get_bucket q) (get_key q) data e v gw \<and>
       (\<forall>ses. r = Inr ses \<longrightarrow> (\<exists>t. session_for (get_bucket q) (get_key q) t (ts_session_id ses) gw))))
    (or_fail r (\<lambda>ses. ExecuteGet (deployment md5) opts ses q d)) (\<lambda>r. sees (get_done cap data e v mem q d r))" for r
    using exec by (cases r) (fastforce simp: valid_def sees_def get_done_def)+
  show ?thesis unfolding GetObjectSingle_def by (rule valid_seq [OF open_get body])
qed

subsection \<open>Parallel GET\<close>

abbreviation land_sub :: "bytes \<Rightarrow> GetObjectRequest \<times> BufferView \<Rightarrow> (nat \<Rightarrow> byte) \<Rightarrow> nat \<Rightarrow> byte" where
  "land_sub data s \<equiv> write_mem (bv_data (snd s)) (take (bv_size (snd s)) (drop (get_offset (fst s)) data))"

lemma write_mem_append: "write_mem (ptr + length xs) ys (write_mem ptr xs m) = write_mem ptr (xs @ ys) m"
  by (rule ext) (auto simp: write_mem_apply nth_append)

lemma range_head:
  assumes "[a..<a + k] @ xs = [lo..<lo + n]" "0 < k"
  shows "a = lo \<and> k \<le> n \<and> xs = [lo + k..<lo + k + (n - k)]"
proof -
  have n: "0 < n" using assms by (cases n) auto
  have "hd ([a..<a + k] @ xs) = a" "hd [lo..<lo + n] = lo" using assms(2) n by (simp_all add: upt_rec)
  then have a: "a = lo" using assms(1) by metis
  have "length ([a..<a + k] @ xs) = n" using assms(1) by simp
  then have kn: "k \<le> n" "length xs = n - k" by simp_all
  have "xs = drop k ([a..<a + k] @ xs)" by simp
  also have "\<dots> = drop k [lo..<lo + n]" using assms(1) by simp
  finally show ?thesis using a kn by simp
qed

lemma land_consecutive:
  assumes "concat (map sub_range subs) = [lo..<lo + n]" "concat (map sub_addresses subs) = [a..<a + n]"
    and "\<forall>s \<in> set subs. 0 < bv_size (snd s)" "lo + n \<le> length data"
  shows "fold (land_sub data) subs m = write_mem a (take n (drop lo data)) m"
  using assms
proof (induction subs arbitrary: lo a n m)
  case Nil
  have "length [lo..<lo + n] = 0" using Nil(1) by (simp flip: Nil(1))
  then show ?case by simp
next
  case (Cons s subs)
  let ?k = "bv_size (snd s)"
  have k: "0 < ?k" using Cons(4) by simp
  have "sub_range s @ concat (map sub_range subs) = [lo..<lo + n]" using Cons(2) by simp
  from range_head [OF this k] have r: "get_offset (fst s) = lo" "?k \<le> n" "concat (map sub_range subs) = [lo + ?k..<lo + ?k + (n - ?k)]"
    by blast+
  have "sub_addresses s @ concat (map sub_addresses subs) = [a..<a + n]" using Cons(3) by simp
  from range_head [OF this k] have b: "bv_data (snd s) = a" "concat (map sub_addresses subs) = [a + ?k..<a + ?k + (n - ?k)]" by blast+
  let ?xs = "take ?k (drop lo data)" and ?ys = "take (n - ?k) (drop (lo + ?k) data)"
  have len: "length ?xs = ?k" using Cons(5) r(2) by simp
  have "fold (land_sub data) subs (write_mem a ?xs m) = write_mem (a + ?k) ?ys (write_mem a ?xs m)"
    by (rule Cons(1) [OF r(3) b(2)]) (use Cons(4,5) r(2) in auto)
  also have "\<dots> = write_mem a (?xs @ ?ys) m" using write_mem_append [of a ?xs ?ys m] len by simp
  also have "?xs @ ?ys = take n (drop lo data)" using r(2) take_add [of ?k "n - ?k" "drop lo data"] by (simp add: add.commute)
  finally show ?case using r(1) b(1) by simp
qed

lemma run_subs_done:
  assumes "\<forall>s \<in> set subs. bv_data (snd s) < u64_mod \<and> get_offset (fst s) < length data \<and> get_length (fst s) = Some (bv_size (snd s)) \<and>
      get_bucket (fst s) = b \<and> get_key (fst s) = k"
  shows "valid (sees (\<lambda>gw m. serving cap gw \<and> m = mem \<and> stored b k data e v gw)) (run_subs (deployment md5) opts subs)
    (\<lambda>rs. sees (\<lambda>gw m. \<forall>outs. rs = map Inr outs \<longrightarrow> serving cap gw \<and> stored b k data e v gw \<and>
       m = fold (land_sub data) subs mem \<and> map to_bytes_transferred outs = map (\<lambda>s. bv_size (snd s)) subs \<and>
       (\<forall>out \<in> set outs. to_etag out = e \<and> to_version out = v)))"
  using assms
proof (induction subs arbitrary: mem)
  case (Cons s subs)
  obtain q d where s: "s = (q, d)" by fastforce
  have q: "bv_data d < u64_mod" "get_offset q < length data" "get_length q = Some (bv_size d)" "get_bucket q = b" "get_key q = k"
    using Cons(2) s by simp_all
  then have ask: "asked q d = bv_size d" by (simp add: asked_def)
  note single = get_single_done [OF q(1,2), of cap mem e v md5 opts, unfolded q(4,5)]
  let ?post = "\<lambda>mem subs rs gw m. \<forall>outs. rs = map Inr outs \<longrightarrow> serving cap gw \<and> stored b k data e v gw \<and>
       m = fold (land_sub data) subs mem \<and> map to_bytes_transferred outs = map (\<lambda>s. bv_size (snd s)) subs \<and>
       (\<forall>out \<in> set outs. to_etag out = e \<and> to_version out = v)"
  have rest: "valid (sees (get_done cap data e v mem q d r)) (do { rs \<leftarrow> run_subs (deployment md5) opts subs; ret (r # rs) })
      (\<lambda>rs. sees (?post mem (s # subs) rs))" for r
  proof (cases r)
    case (Inl err)
    then show ?thesis by (auto simp: valid_def sees_def split: prod.split)
  next
    case (Inr out)
    let ?m = "land_sub data s mem"
    have "valid (sees (\<lambda>gw m. serving cap gw \<and> m = ?m \<and> stored b k data e v gw)) (run_subs (deployment md5) opts subs) (\<lambda>rs. sees (?post ?m subs rs))"
      by (rule Cons(1)) (use Cons(2) in simp)
    note step = valid_seq [OF this valid_ret]
    have post: "sees (?post mem (s # subs) (r # rs)) st"
      if "to_etag out = e \<and> to_version out = v \<and> to_bytes_transferred out = asked q d" "sees (?post ?m subs rs) st" for rs st
      using that ask Inr by (auto simp: sees_def s Cons_eq_map_conv)
    have pre: "sees (get_done cap data e v mem q d r) = (\<lambda>st. (to_etag out = e \<and> to_version out = v \<and> to_bytes_transferred out = asked q d) \<and>
        sees (\<lambda>gw m. serving cap gw \<and> m = ?m \<and> stored b k data e v gw) st)"
      using Inr ask q(4,5) by (auto simp: sees_def get_done_def s fun_eq_iff)
    show ?thesis unfolding pre by (rule valid_pure, rule step, rule post)
  qed
  show ?case unfolding s run_subs.simps by (rule valid_seq [OF single rest [unfolded s]])
qed (simp add: valid_def sees_def)

lemma gather_done:
  assumes "run_state (gather cb n rs acc) s = (Inr out, s')"
  shows "cw s' = cw s \<and> (\<exists>outs. rs = map Inr outs \<and>
    to_bytes_transferred out = to_bytes_transferred acc + sum_list (map to_bytes_transferred outs) \<and>
    ((\<forall>x \<in> set outs. to_etag x = e \<and> to_version x = v) \<and> to_etag acc \<in> {[], e} \<and> to_version acc \<in> {[], v} \<longrightarrow>
      to_etag out = (if outs = [] then to_etag acc else e) \<and> to_version out = (if outs = [] then to_version acc else v)))"
  using assms
proof (induction cb n rs acc arbitrary: s rule: gather.induct)
  case (2 cb n r rs acc)
  then obtain x where x: "r = Inr x" by (cases r) auto
  let ?acc = "acc\<lparr>to_bytes_transferred := to_bytes_transferred acc + to_bytes_transferred x,
         to_etag := first_of (to_etag acc) (to_etag x), to_version := first_of (to_version acc) (to_version x),
         to_request_id := first_of (to_request_id acc) (to_request_id x), to_session_id := first_of (to_session_id acc) (to_session_id x),
         to_gateway_id := first_of (to_gateway_id acc) (to_gateway_id x)\<rparr>"
  obtain s1 where s1: "run_state (gather cb n rs ?acc) s1 = (Inr out, s')" "cw s1 = cw s"
    using 2(2) x by (cases "run_state (report_progress cb (to_bytes_transferred acc + to_bytes_transferred x) n GPUDirect) s")
      (auto simp: report_progress_def split: if_splits)
  from 2(1) [OF refl s1(1)] x s1(2) obtain outs where "cw s' = cw s" "rs = map Inr outs"
      "to_bytes_transferred out = to_bytes_transferred ?acc + sum_list (map to_bytes_transferred outs)"
      "(\<forall>x \<in> set outs. to_etag x = e \<and> to_version x = v) \<and> to_etag ?acc \<in> {[], e} \<and> to_version ?acc \<in> {[], v} \<longrightarrow>
      to_etag out = (if outs = [] then to_etag ?acc else e) \<and> to_version out = (if outs = [] then to_version ?acc else v)"
    by auto
  then show ?case using x by (intro conjI exI [of _ "x # outs"]) (auto simp: first_of_def split: if_splits)
qed simp

text \<open>What the pieces of a parallel GET leave, and what gathering them returns.\<close>

abbreviation pieces_done ::
  "nat \<Rightarrow> GetObjectRequest \<Rightarrow> bytes \<Rightarrow> string \<Rightarrow> string \<Rightarrow> (nat \<Rightarrow> byte) \<Rightarrow> (GetObjectRequest \<times> BufferView) list \<Rightarrow>
   TransferOutcome cresult list \<Rightarrow> MemoryBackend Gateway \<Rightarrow> (nat \<Rightarrow> byte) \<Rightarrow> bool" where
  "pieces_done cap q data e v mem subs rs gw m \<equiv>
     \<forall>outs. rs = map Inr outs \<longrightarrow> serving cap gw \<and> stored (get_bucket q) (get_key q) data e v gw \<and>
       m = fold (land_sub data) subs mem \<and> map to_bytes_transferred outs = map (\<lambda>s. bv_size (snd s)) subs \<and>
       (\<forall>out \<in> set outs. to_etag out = e \<and> to_version out = v)"

lemma gather_pieces:
  assumes "fold (land_sub data) subs mem = write_mem (bv_data d) (take n (drop (get_offset q) data)) mem"
    and "sum_list (map (\<lambda>s. bv_size (snd s)) subs) = n" "subs \<noteq> []" "asked q d = n"
  shows "valid (sees (pieces_done cap q data e v mem subs rs))
    (gather (get_progress_callback q) n rs (TransferOutcome_default\<lparr>to_selected_flow := GPUDirect, to_transfer_status := ''completed''\<rparr>))
    (\<lambda>r. sees (get_done cap data e v mem q d r))"
  unfolding valid_def
proof (intro allI impI, clarify)
  fix st r st'
  assume pre: "sees (pieces_done cap q data e v mem subs rs) st"
    and run: "run_state (gather (get_progress_callback q) n rs
      (TransferOutcome_default\<lparr>to_selected_flow := GPUDirect, to_transfer_status := ''completed''\<rparr>)) st = (r, st')"
  show "sees (get_done cap data e v mem q d r) st'"
  proof (cases r)
    case (Inr out)
    from gather_done [OF run [unfolded Inr], of e v] obtain outs where g: "cw st' = cw st" "rs = map Inr outs"
        "to_bytes_transferred out = sum_list (map to_bytes_transferred outs)"
        "(\<forall>x \<in> set outs. to_etag x = e \<and> to_version x = v) \<longrightarrow> outs \<noteq> [] \<longrightarrow> to_etag out = e \<and> to_version out = v"
      by (auto simp: TransferOutcome_default_def)
    have p: "serving cap (wd_gw (cw st))" "stored (get_bucket q) (get_key q) data e v (wd_gw (cw st))"
        "wd_memory (cw st) = fold (land_sub data) subs mem" "map to_bytes_transferred outs = map (\<lambda>s. bv_size (snd s)) subs"
        "\<forall>out \<in> set outs. to_etag out = e \<and> to_version out = v"
      using pre g(2) by (auto simp: sees_def)
    have "outs \<noteq> []" using p(4) assms(3) by auto
    then show ?thesis using Inr g p assms(1,2,4) by (simp add: sees_def get_done_def)
  qed (simp add: sees_def get_done_def)
qed

lemma get_parallel_done:
  assumes "get_length q = Some n" "n \<le> bv_size d" "get_offset q + n \<le> length data" "length data < u64_mod" "bv_data d + n \<le> u64_mod"
    and "get_offset q < length data" "bv_data d < u64_mod"
  shows "valid (sees (\<lambda>gw m. serving cap gw \<and> m = mem \<and> stored (get_bucket q) (get_key q) data e v gw))
    (GetObjectParallel (deployment md5) opts n q d) (\<lambda>r. sees (get_done cap data e v mem q d r))"
proof (cases "min (parallel_get_chunks (o_gds opts)) n \<le> 1")
  case True
  then show ?thesis using get_single_done [OF assms(7,6)] by (simp add: GetObjectParallel_def Let_def)
next
  case False
  let ?k = "min (parallel_get_chunks (o_gds opts)) n"
  let ?subs = "parallel_plan ?k n q d"
  have k: "0 < ?k" "get_offset q + n < u64_mod" using False assms(3,4) by auto
  note cover = plan_cover [OF k, of d]
  have ask: "asked q d = n" using assms(1,2) by (simp add: asked_def)
  have inside: "bv_data (snd s) < u64_mod \<and> get_offset (fst s) < length data" if s: "s \<in> set ?subs" for s
  proof -
    have pos: "0 < bv_size (snd s)" using plan_shape [OF s] by simp
    have "get_offset (fst s) \<in> set (concat (map sub_range ?subs))" "bv_data (snd s) \<in> set (concat (map sub_addresses ?subs))"
      using s pos by (auto intro!: bexI [of _ s])
    then show ?thesis unfolding cover using assms(3,5) by auto
  qed
  have ok: "\<forall>s \<in> set ?subs. bv_data (snd s) < u64_mod \<and> get_offset (fst s) < length data \<and> get_length (fst s) = Some (bv_size (snd s)) \<and>
      get_bucket (fst s) = get_bucket q \<and> get_key (fst s) = get_key q"
    using inside plan_shape by blast
  have land: "fold (land_sub data) ?subs mem = write_mem (bv_data d) (take n (drop (get_offset q) data)) mem"
    by (rule land_consecutive [OF cover]) (use plan_shape assms(3) in auto)
  have "sum_list (map length (map sub_range ?subs)) = n" using arg_cong [OF cover(1), of length] by (simp add: length_concat)
  then have total: "sum_list (map (\<lambda>s. bv_size (snd s)) ?subs) = n" by (simp add: comp_def)
  then have ne: "?subs \<noteq> []" using False by auto
  show ?thesis
    unfolding GetObjectParallel_def Let_def using False
    by (simp, intro valid_seq [OF run_subs_done [OF ok]] gather_pieces [OF land total ne ask])
qed

lemma gds_get_done:
  assumes "get_offset q + asked q d \<le> length data" "\<forall>n. get_length q = Some n \<longrightarrow> n \<le> bv_size d" "length data < u64_mod"
    and "bv_data d + bv_size d \<le> u64_mod" "0 < asked q d"
  shows "valid (sees (\<lambda>gw m. serving cap gw \<and> m = mem \<and> stored (get_bucket q) (get_key q) data e v gw))
    (GdsTransferPath_GetObject (deployment md5) opts caps executor q d) (\<lambda>r. sees (get_done cap data e v mem q d r))"
proof -
  have off: "get_offset q < length data" "bv_data d < u64_mod" using assms by (auto simp: asked_def)
  note single = get_single_done [OF off(2,1)]
  have par: "valid (sees (\<lambda>gw m. serving cap gw \<and> m = mem \<and> stored (get_bucket q) (get_key q) data e v gw))
    (GetObjectParallel (deployment md5) opts n q d) (\<lambda>r. sees (get_done cap data e v mem q d r))" if "get_length q = Some n" for n
    using that assms off by (intro get_parallel_done) (auto simp: asked_def)
  show ?thesis
    unfolding GdsTransferPath_GetObject_def using single par
    by (intro valid_or_fail) (auto simp: sees_def get_done_def split: option.split)
qed

text \<open>A GET that succeeds reads what is stored, in whichever way the object came there.\<close>

lemma client_get_reads:
  assumes "serving cap (wd_gw (cw s))" "stored (get_bucket g) (get_key g) data e v (wd_gw (cw s))" "o_data_flow (cc_options core) = GPUDirect"
    and "length data < u64_mod" "get_offset g + asked g d \<le> length data" "0 < asked g d"
    and "\<forall>n. get_length g = Some n \<longrightarrow> n \<le> bv_size d" "bv_data d + bv_size d \<le> u64_mod"
    and "run_state (Client_GetObject (deployment md5) core g d) s = (Inr got, s')"
  shows "read_mem (cw s') (bv_data d) (asked g d) = take (asked g d) (drop (get_offset g) data)"
    "\<And>a. a < bv_data d \<or> bv_data d + asked g d \<le> a \<Longrightarrow> wd_memory (cw s') a = wd_memory (cw s) a"
    "to_bytes_transferred got = asked g d" "to_etag got = e" "to_version got = v"
    "serving cap (wd_gw (cw s'))" "stored (get_bucket g) (get_key g) data e v (wd_gw (cw s'))"
proof -
  let ?mem = "wd_memory (cw s)"
  have get: "run_state (GdsTransferPath_GetObject (deployment md5) (cc_options core) (cc_caps core) (cc_executor core \<noteq> None) g d) s = (Inr got, s')"
    using assms(3,9) by (auto simp: Client_GetObject_def when_initialized_def TransferRouter_GetObject_def split: if_splits)
  have pre: "sees (\<lambda>gw m. serving cap gw \<and> m = ?mem \<and> stored (get_bucket g) (get_key g) data e v gw) s"
    using assms(1,2) by (simp add: sees_def)
  from validD [OF gds_get_done [OF assms(5,7,4,8,6)] get pre]
  have s': "to_etag got = e" "to_version got = v" "to_bytes_transferred got = asked g d"
      "wd_memory (cw s') = write_mem (bv_data d) (take (asked g d) (drop (get_offset g) data)) ?mem"
    and "serving cap (wd_gw (cw s'))" "stored (get_bucket g) (get_key g) data e v (wd_gw (cw s'))"
    by (auto simp: sees_def get_done_def)
  then show "serving cap (wd_gw (cw s'))" "stored (get_bucket g) (get_key g) data e v (wd_gw (cw s'))" by simp_all
  have n: "length (take (asked g d) (drop (get_offset g) data)) = asked g d" using assms(5) by simp
  show "read_mem (cw s') (bv_data d) (asked g d) = take (asked g d) (drop (get_offset g) data)"
    using written_back [of "bv_data d" "take (asked g d) (drop (get_offset g) data)" ?mem] n s'(4) by (simp add: read_mem_def)
  show "wd_memory (cw s') a = ?mem a" if "a < bv_data d \<or> bv_data d + asked g d \<le> a" for a
    using that n s'(4) by (auto simp: write_mem_apply)
  show "to_bytes_transferred got = asked g d" "to_etag got = e" "to_version got = v" by (fact s'(3), fact s'(1), fact s'(2))
qed

section \<open>Properties\<close>

text \<open>C1: what a client stores through GDS it reads back. On a deployment of the client against a gateway with the memory backend, when
  \<^verbatim>\<open>PutObject\<close> returns success, after however many retries, the bytes of the caller's buffer are the object: \<^verbatim>\<open>HeadObject\<close>
  gives their number and the etag and version of the upload; and a following successful \<^verbatim>\<open>GetObject\<close> of any range inside the object, by one
  session or split over parallel ones, puts exactly those bytes at the destination, changes no other memory, and
  reports the same etag and version and the number of bytes.\<close>

theorem client_put_get_roundtrip:
  assumes "serving cap (wd_gw (cw s))" "o_data_flow (cc_options core) = GPUDirect" "put_idempotency_key q = []"
    and "cap + bv_size b < u64_mod" "bv_data b < u64_mod"
    and "run_state (Client_PutObject (deployment md5) core q b) s = (Inr out, s1)"
    and "get_bucket g = put_bucket q" "get_key g = put_key q" "get_offset g + asked g d \<le> bv_size b" "0 < asked g d"
    and "\<forall>n. get_length g = Some n \<longrightarrow> n \<le> bv_size d" "bv_data d + bv_size d \<le> u64_mod"
    and "run_state (Client_GetObject (deployment md5) core g d) s1 = (Inr got, s2)"
  shows "read_mem (cw s2) (bv_data d) (asked g d) =
      take (asked g d) (drop (get_offset g) (read_mem (cw s) (bv_data b) (bv_size b))) \<and>
    (\<forall>a. a < bv_data d \<or> bv_data d + asked g d \<le> a \<longrightarrow> wd_memory (cw s2) a = wd_memory (cw s) a) \<and>
    to_bytes_transferred out = bv_size b \<and> to_bytes_transferred got = asked g d \<and>
    to_etag got = to_etag out \<and> to_version got = to_version out \<and>
    (\<forall>m s3. run_state (Client_HeadObject (deployment md5) core (put_bucket q) (put_key q)) s1 = (Inr m, s3) \<longrightarrow>
      cm_content_length m = bv_size b \<and> cm_etag m = to_etag out \<and> cm_version m = to_version out)"
proof -
  let ?data = "read_mem (cw s) (bv_data b) (bv_size b)" and ?mem = "wd_memory (cw s)"
  have init: "cc_initialized core" using assms(6) by (auto simp: Client_PutObject_def when_initialized_def split: if_splits)
  have put: "run_state (GdsTransferPath_PutObject (deployment md5) (cc_options core) (cc_caps core) q b) s = (Inr out, s1)"
    using assms(2,6) init by (auto simp: Client_PutObject_def when_initialized_def TransferRouter_PutObject_def split: if_splits)
  have "sees (\<lambda>gw m. serving cap gw \<and> m = ?mem) s" using assms(1) by (simp add: sees_def)
  from validD [OF gds_put_done [OF assms(3-5)] put this]
  have s1: "serving cap (wd_gw (cw s1))" "wd_memory (cw s1) = ?mem" "to_bytes_transferred out = bv_size b"
      "stored (put_bucket q) (put_key q) ?data (to_etag out) (to_version out) (wd_gw (cw s1))"
    by (auto simp: sees_def put_done_def read_mem_def)
  have len: "length ?data = bv_size b" by (simp add: read_mem_def)
  have src: "stored (get_bucket g) (get_key g) ?data (to_etag out) (to_version out) (wd_gw (cw s1))" "length ?data < u64_mod"
      "get_offset g + asked g d \<le> length ?data" using s1(4) assms(4,7-9) len by simp_all
  note got = client_get_reads [OF s1(1) src(1) assms(2) src(2,3) assms(10-13)]
  have head: "cm_content_length m = bv_size b \<and> cm_etag m = to_etag out \<and> cm_version m = to_version out"
    if "run_state (Client_HeadObject (deployment md5) core (put_bucket q) (put_key q)) s1 = (Inr m, s3)" for m s3
    using that init s1(4) len
    by (auto simp: Client_HeadObject_def when_initialized_def MetadataClient_HeadObject_def deployment_def HeadObject_def reply_def
        MetadataService_Head_def stored_def split: option.splits)
  show ?thesis using got s1(2,3) head by simp
qed

end
