(* ===== verification/Thread_Stop.thy ===== *)
theory Thread_Stop
  imports Main "HOL-Library.Multiset"
begin

text \<open>
  What the background threads of the programs have in common, and the life of the UCX objects they work on. A thread that is
  asked to stop by a flag (the sweeper of the gateway, the progress loops of the client and of the gateway) is an instance of the
  locale \<^verbatim>\<open>stoppable_thread\<close>. UCX itself is outside the repository: \<^verbatim>\<open>UcxLib\<close> only records which of its objects have been created and not
  released, and whether a call was ever made on an object that does not exist at that moment.
\<close>

section \<open>Threads that stop\<close>

text \<open>Once the stop flag is seen every step of the thread brings it closer to its end, and until then it can move.\<close>

locale stoppable_thread =
  fixes step :: "'s \<Rightarrow> 's \<Rightarrow> bool" and stop ended :: "'s \<Rightarrow> bool" and left :: "'s \<Rightarrow> nat"
  assumes closer: "step s s' \<Longrightarrow> stop s \<Longrightarrow> stop s' \<and> left s' < left s"
    and enabled: "stop s \<Longrightarrow> \<not> ended s \<Longrightarrow> \<exists>s'. step s s'"
begin

lemma bounded: "(step ^^ n) s s' \<Longrightarrow> stop s \<Longrightarrow> stop s' \<and> n + left s' \<le> left s"
proof (induction n arbitrary: s')
  case (Suc n)
  then obtain t where t: "(step ^^ n) s t" "step t s'" by (auto elim: relpowp_Suc_E)
  with Suc(1) [of t] Suc(3) closer [of t s'] show ?case by fastforce
qed simp

lemma finishes: "stop s \<Longrightarrow> \<exists>s' n. n \<le> left s \<and> (step ^^ n) s s' \<and> stop s' \<and> ended s'"
proof (induction "left s" arbitrary: s rule: less_induct)
  case less
  show ?case
  proof (cases "ended s")
    case True
    with less(2) show ?thesis by (intro exI [of _ s] exI [of _ 0]) simp
  next
    case False
    with enabled less(2) obtain t where t: "step s t" by blast
    note c = closer [OF t less(2)]
    with less(1) [of t] obtain s' n where "n \<le> left t" "(step ^^ n) t s'" "stop s'" "ended s'" by blast
    with t c show ?thesis
      by (intro exI [of _ s'] exI [of _ "Suc n"]) (auto intro: relpowp_Suc_I2 simp del: relpowp.simps)
  qed
qed

lemma stuck_ended: "stop s \<Longrightarrow> (\<And>s'. \<not> step s s') \<Longrightarrow> ended s"
  using enabled by blast

end

section \<open>The objects of UCX\<close>

record UcxLib =
  ul_config :: bool
  ul_ctx :: bool
  ul_worker :: bool
  ul_listener :: bool
  ul_eps :: "nat multiset"
  ul_rkeys :: "nat multiset"
  ul_misuse :: bool

definition UcxLib_fresh :: UcxLib where
  "UcxLib_fresh = \<lparr>ul_config = False, ul_ctx = False, ul_worker = False, ul_listener = False, ul_eps = {#}, ul_rkeys = {#}, ul_misuse = False\<rparr>"

definition misused :: "bool \<Rightarrow> UcxLib \<Rightarrow> UcxLib" where
  "misused b l = l\<lparr>ul_misuse := ul_misuse l \<or> b\<rparr>"

text \<open>Calls that can fail take their answer; the others need the object they are made on.\<close>

definition ucp_config_read :: "bool \<Rightarrow> UcxLib \<Rightarrow> UcxLib" where
  "ucp_config_read ok l = l\<lparr>ul_config := ok\<rparr>"

definition ucp_config_modify :: "UcxLib \<Rightarrow> UcxLib" where
  "ucp_config_modify l = misused (\<not> ul_config l) l"

definition ucp_config_release :: "UcxLib \<Rightarrow> UcxLib" where
  "ucp_config_release l = (misused (\<not> ul_config l) l)\<lparr>ul_config := False\<rparr>"

definition ucp_init :: "bool \<Rightarrow> UcxLib \<Rightarrow> UcxLib" where
  "ucp_init ok l = (if ok then l\<lparr>ul_ctx := True\<rparr> else l)"

definition ucp_cleanup :: "UcxLib \<Rightarrow> UcxLib" where
  "ucp_cleanup l = (misused (\<not> ul_ctx l \<or> ul_worker l) l)\<lparr>ul_ctx := False\<rparr>"

definition ucp_worker_create :: "bool \<Rightarrow> UcxLib \<Rightarrow> UcxLib" where
  "ucp_worker_create ok l = (let l = misused (\<not> ul_ctx l) l in if ok then l\<lparr>ul_worker := True\<rparr> else l)"

definition on_worker :: "UcxLib \<Rightarrow> UcxLib" where
  "on_worker l = misused (\<not> ul_worker l) l"

definition ucp_worker_destroy :: "UcxLib \<Rightarrow> UcxLib" where
  "ucp_worker_destroy l = (misused (\<not> ul_worker l \<or> ul_listener l) l)\<lparr>ul_worker := False\<rparr>"

definition ucp_listener_destroy :: "UcxLib \<Rightarrow> UcxLib" where
  "ucp_listener_destroy l = (misused (\<not> ul_listener l \<or> \<not> ul_worker l) l)\<lparr>ul_listener := False\<rparr>"

definition ucp_ep_close :: "nat \<Rightarrow> UcxLib \<Rightarrow> UcxLib" where
  "ucp_ep_close e l = (misused (e \<notin># ul_eps l) (on_worker l))\<lparr>ul_eps := ul_eps l - {#e#}\<rparr>"

definition ucp_rkey_destroy :: "nat \<Rightarrow> UcxLib \<Rightarrow> UcxLib" where
  "ucp_rkey_destroy k l = (misused (k \<notin># ul_rkeys l) l)\<lparr>ul_rkeys := ul_rkeys l - {#k#}\<rparr>"

lemmas ucx_lib_defs = misused_def ucp_config_read_def ucp_config_modify_def ucp_config_release_def ucp_init_def ucp_cleanup_def
  ucp_worker_create_def on_worker_def ucp_worker_destroy_def ucp_listener_destroy_def ucp_ep_close_def ucp_rkey_destroy_def

text \<open>Progress on a live worker changes nothing the record holds.\<close>

lemma on_worker_alive [simp]: "ul_worker l \<Longrightarrow> on_worker l = l"
  by (simp add: on_worker_def misused_def)

lemma polls_alive [simp]: "ul_worker l \<Longrightarrow> (on_worker ^^ n) l = l"
  by (induction n) simp_all

end
