(* ===== verification/Session_Sweeper.thy ===== *)
theory Session_Sweeper
  imports Deployment Thread_Stop
begin

text \<open>
  \<^verbatim>\<open>gateway/src/core/session/session_sweeper.cpp\<close>: the background thread that evicts expired sessions and uploads, as a step
  relation over the accesses that other threads can see: the load of \<^verbatim>\<open>running_\<close>, the entry into the timed wait, its end, the second
  load, and the two sweeps. \<^verbatim>\<open>Stop\<close> is three steps, the exchange of the flag, the notification and the join. The requests that
  the gateway serves meanwhile are an arbitrary relation on its state.
\<close>

section \<open>State and steps\<close>

datatype SweeperThread = NoThread | AtTest | Locked | Waiting | Woken | SweepSessions | SweepUploads | Ended

record 's SessionSweeper =
  sw_running :: bool
  sw_thread :: SweeperThread
  sw_notify :: bool
  sw_joining :: bool
  sw_sweeps :: nat
  sw_gw :: "'s Gateway"

definition SessionSweeper_init :: "'s Gateway \<Rightarrow> 's SessionSweeper" where
  "SessionSweeper_init gw =
     \<lparr>sw_running = False, sw_thread = NoThread, sw_notify = False, sw_joining = False, sw_sweeps = 0, sw_gw = gw\<rparr>"

definition SessionSweeper_Start :: "'s SessionSweeper \<Rightarrow> 's SessionSweeper" where
  "SessionSweeper_Start s = (if sw_running s then s else s\<lparr>sw_running := True, sw_thread := AtTest\<rparr>)"

definition Stop_exchange :: "'s SessionSweeper \<Rightarrow> 's SessionSweeper" where
  "Stop_exchange s = (if \<not> sw_running s then s else s\<lparr>sw_running := False, sw_notify := True\<rparr>)"

definition Stop_notify_all :: "'s SessionSweeper \<Rightarrow> 's SessionSweeper" where
  "Stop_notify_all s =
     s\<lparr>sw_notify := False, sw_joining := True, sw_thread := (if sw_thread s = Waiting then Woken else sw_thread s)\<rparr>"

text \<open>The thread: the loop condition, the wait, the check after it, and the two halves of a round. A round reads the clock
  twice.\<close>

definition Run_test :: "'s SessionSweeper \<Rightarrow> 's SessionSweeper" where
  "Run_test s = s\<lparr>sw_thread := (if sw_running s then Locked else Ended)\<rparr>"

definition Run_check :: "'s SessionSweeper \<Rightarrow> 's SessionSweeper" where
  "Run_check s = (if \<not> sw_running s then s\<lparr>sw_thread := Ended\<rparr>
     else s\<lparr>sw_thread := SweepSessions, sw_sweeps := sw_sweeps s + 1\<rparr>)"

definition Run_sessions :: "nat \<Rightarrow> 's SessionSweeper \<Rightarrow> 's SessionSweeper" where
  "Run_sessions now s =
     s\<lparr>sw_thread := SweepUploads,
       sw_gw := (sw_gw s)\<lparr>gw_sessions := snd (SessionStore_SweepExpired now (gw_sessions (sw_gw s)))\<rparr>\<rparr>"

definition Run_uploads :: "'s IBackend \<Rightarrow> nat \<Rightarrow> 's SessionSweeper \<Rightarrow> 's SessionSweeper" where
  "Run_uploads B now s =
     s\<lparr>sw_thread := AtTest, sw_gw := set_co (snd (sweep_uploads B now (gw_co (sw_gw s)))) (sw_gw s)\<rparr>"

inductive run_step :: "'s IBackend \<Rightarrow> 's SessionSweeper \<Rightarrow> 's SessionSweeper \<Rightarrow> bool" for B where
  test: "sw_thread s = AtTest \<Longrightarrow> run_step B s (Run_test s)"
| wait: "sw_thread s = Locked \<Longrightarrow> run_step B s (s\<lparr>sw_thread := Waiting\<rparr>)"
| timeout: "sw_thread s = Waiting \<Longrightarrow> run_step B s (s\<lparr>sw_thread := Woken\<rparr>)"
| check: "sw_thread s = Woken \<Longrightarrow> run_step B s (Run_check s)"
| sessions: "sw_thread s = SweepSessions \<Longrightarrow> run_step B s (Run_sessions now s)"
| uploads: "sw_thread s = SweepUploads \<Longrightarrow> run_step B s (Run_uploads B now s)"

inductive_cases run_stepE: "run_step B s s'"

text \<open>All threads together. \<^verbatim>\<open>Start\<close> and \<^verbatim>\<open>Stop\<close> are called by the owner of the sweeper, one after the other.\<close>

inductive sweeper_step :: "'s IBackend \<Rightarrow> ('s Gateway \<Rightarrow> 's Gateway \<Rightarrow> bool) \<Rightarrow> 's SessionSweeper \<Rightarrow> 's SessionSweeper \<Rightarrow> bool" for B R where
  start: "\<not> sw_notify s \<Longrightarrow> \<not> sw_joining s \<Longrightarrow> sweeper_step B R s (SessionSweeper_Start s)"
| stop: "\<not> sw_notify s \<Longrightarrow> \<not> sw_joining s \<Longrightarrow> sweeper_step B R s (Stop_exchange s)"
| notify: "sw_notify s \<Longrightarrow> sweeper_step B R s (Stop_notify_all s)"
| join: "sw_joining s \<Longrightarrow> sw_thread s = Ended \<Longrightarrow> sweeper_step B R s (s\<lparr>sw_joining := False, sw_thread := NoThread\<rparr>)"
| thread: "run_step B s s' \<Longrightarrow> sweeper_step B R s s'"
| request: "R (sw_gw s) gw \<Longrightarrow> sweeper_step B R s (s\<lparr>sw_gw := gw\<rparr>)"

lemmas sweeper_defs = SessionSweeper_Start_def Stop_exchange_def Stop_notify_all_def Run_test_def Run_check_def Run_sessions_def Run_uploads_def

section \<open>The thread and its flag\<close>

text \<open>A thread exists exactly while the flag is set or a \<^verbatim>\<open>Stop\<close> is under way, and it ends only after the flag was cleared.\<close>

definition sweeper_ok :: "'s SessionSweeper \<Rightarrow> bool" where
  "sweeper_ok s \<longleftrightarrow> (sw_thread s = NoThread \<longleftrightarrow> \<not> sw_running s \<and> \<not> sw_notify s \<and> \<not> sw_joining s) \<and>
     (sw_thread s = Ended \<longrightarrow> \<not> sw_running s) \<and> (sw_running s \<longrightarrow> \<not> sw_notify s \<and> \<not> sw_joining s) \<and> \<not> (sw_notify s \<and> sw_joining s)"

lemma sweeper_into: "sweeper_step B R s s1 \<Longrightarrow> (sweeper_step B R)\<^sup>*\<^sup>* s1 s2 \<Longrightarrow> (sweeper_step B R)\<^sup>*\<^sup>* s s2"
  by (rule converse_rtranclp_into_rtranclp)

lemma sweeper_ok_run:
  assumes "run_step B s s'" "sweeper_ok s"
  shows "sweeper_ok s'"
  using assms by (cases rule: run_step.cases) (simp_all add: sweeper_ok_def sweeper_defs, auto)

lemma sweeper_ok_step:
  assumes "sweeper_step B R s s'" "sweeper_ok s"
  shows "sweeper_ok s'"
  using assms
proof (cases rule: sweeper_step.cases)
  case thread
  then show ?thesis using sweeper_ok_run assms(2) by blast
qed (simp_all add: sweeper_ok_def sweeper_defs, auto)

lemma sweeper_ok_reach: "(sweeper_step B R)\<^sup>*\<^sup>* (SessionSweeper_init gw) s \<Longrightarrow> sweeper_ok s"
proof (induction rule: rtranclp_induct)
  case base
  show ?case by (simp add: sweeper_ok_def SessionSweeper_init_def)
qed (rule sweeper_ok_step)

section \<open>Stopping\<close>

fun steps_left :: "SweeperThread \<Rightarrow> nat" where
  "steps_left SweepSessions = 6"
| "steps_left SweepUploads = 5"
| "steps_left Locked = 4"
| "steps_left Waiting = 3"
| "steps_left Woken = 2"
| "steps_left AtTest = 1"
| "steps_left NoThread = 0"
| "steps_left Ended = 0"

definition stopping :: "'s SessionSweeper \<Rightarrow> bool" where
  "stopping s \<longleftrightarrow> \<not> sw_running s \<and> (sw_notify s \<or> sw_joining s)"

lemma run_step_stopping:
  assumes "run_step B s s'" "\<not> sw_running s"
  shows "steps_left (sw_thread s') < steps_left (sw_thread s)" "sw_sweeps s' = sw_sweeps s" "\<not> sw_running s'"
    "sw_notify s' = sw_notify s" "sw_joining s' = sw_joining s"
  using assms by (auto simp: sweeper_defs elim!: run_stepE)

lemma run_step_enabled: "sw_thread s \<notin> {NoThread, Ended} \<Longrightarrow> \<exists>s'. run_step B s s'"
  by (cases "sw_thread s") (auto intro: run_step.intros)

text \<open>While a \<^verbatim>\<open>Stop\<close> is under way no other step lengthens what the thread has left.\<close>

lemma stopping_step:
  assumes "sweeper_step B R s s'" "stopping s"
  shows "sw_sweeps s' = sw_sweeps s \<and> steps_left (sw_thread s') \<le> steps_left (sw_thread s) \<and> (stopping s' \<or> sw_thread s' = NoThread \<and> \<not> sw_running s')"
  using assms
proof (induction rule: sweeper_step.induct)
  case (thread s s')
  then show ?case using run_step_stopping [OF thread(1)] by (auto simp: stopping_def)
qed (auto simp: stopping_def sweeper_defs)

interpretation sweeper_thread: stoppable_thread "run_step B" "\<lambda>s. \<not> sw_running s \<and> sw_thread s \<noteq> NoThread" "\<lambda>s. sw_thread s = Ended"
  "\<lambda>s. steps_left (sw_thread s)" for B :: "'s IBackend"
proof
  fix s s' :: "'s SessionSweeper"
  assume "run_step B s s'" "\<not> sw_running s \<and> sw_thread s \<noteq> NoThread"
  moreover from this have "sw_thread s' \<noteq> NoThread" by (auto simp: sweeper_defs elim!: run_stepE split: if_splits)
  ultimately show "(\<not> sw_running s' \<and> sw_thread s' \<noteq> NoThread) \<and> steps_left (sw_thread s') < steps_left (sw_thread s)"
    using run_step_stopping by blast
qed (use run_step_enabled in blast)

text \<open>C17: stopping the sweeper. Once \<^verbatim>\<open>Stop\<close> has exchanged the flag, whatever the requests and the notification do in between: no new
  round begins, every step of the thread brings it closer to its end, of which it is at most six steps away, and until it has ended it
  always has a step to take. So the join returns; afterwards there is no thread.\<close>

theorem sweeper_stop_joins:
  assumes "(sweeper_step B R)\<^sup>*\<^sup>* (SessionSweeper_init gw) s" "stopping s" "sweeper_step B R s s'"
  shows "sw_sweeps s' = sw_sweeps s \<and> steps_left (sw_thread s) \<le> 6 \<and> steps_left (sw_thread s') \<le> steps_left (sw_thread s) \<and>
    (run_step B s s' \<longrightarrow> steps_left (sw_thread s') < steps_left (sw_thread s)) \<and>
    (\<exists>t n. n \<le> 6 \<and> (run_step B ^^ n) s t \<and> sw_thread t = Ended) \<and>
    (stopping s' \<or> sw_thread s' = NoThread \<and> \<not> sw_running s')"
proof -
  have ok: "sweeper_ok s" by (rule sweeper_ok_reach [OF assms(1)])
  have six: "steps_left (sw_thread s) \<le> 6" by (cases "sw_thread s") auto
  have "\<not> sw_running s \<and> sw_thread s \<noteq> NoThread" using ok assms(2) by (auto simp: sweeper_ok_def stopping_def)
  note run = this sweeper_thread.finishes [OF this, of B]
  then obtain t n where "n \<le> steps_left (sw_thread s)" "(run_step B ^^ n) s t" "sw_thread t = Ended" by blast
  then show ?thesis
    using stopping_step [OF assms(3,2)] run_step_stopping(1) [of B s s'] run(1) six by (meson order_trans)
qed

section \<open>What a sweep leaves alone\<close>

lemma rounds_keep_wf:
  assumes "run_step memory_backend s s'" "serving cap (sw_gw s)" "coordinator_reach (gw_co (sw_gw s))"
  shows "store_wf (gw_sessions (sw_gw s'))" "coordinator_reach (gw_co (sw_gw s'))"
    "bodies (cb_data (backend_of (sw_gw s'))) = bodies (cb_data (backend_of (sw_gw s)))"
proof -
  note wf = assms(2) [unfolded serving_def, THEN conjunct2]
  show "store_wf (gw_sessions (sw_gw s'))"
    using assms(1) wf wf_Sweep by (auto simp: sweeper_defs elim!: run_stepE)
  show "coordinator_reach (gw_co (sw_gw s'))"
    using assms(1,3) coordinator_reach.sweep by (auto simp: sweeper_defs set_co_def elim!: run_stepE)
  show "bodies (cb_data (backend_of (sw_gw s'))) = bodies (cb_data (backend_of (sw_gw s)))"
    using assms(1) memory_mp.sweep_ok(2) [OF coordinator_reach_inv [OF assms(3), unfolded memory_coordinator_inv_def]]
    by (auto simp: sweeper_defs elim!: run_stepE)
qed

section \<open>The wake-up that can be missed\<close>

text \<open>The notification of \<^verbatim>\<open>Stop\<close> is not made under the mutex: between the loop condition and the wait it reaches nobody, and the
  thread sleeps through the whole interval with the flag already cleared. Only the timeout wakes it.\<close>

theorem stop_notification_missed:
  "let s0 = SessionSweeper_Start (SessionSweeper_init gw); s1 = Run_test s0; s2 = Stop_notify_all (Stop_exchange s1); s3 = s2\<lparr>sw_thread := Waiting\<rparr> in
   (sweeper_step B R)\<^sup>*\<^sup>* (SessionSweeper_init gw) s3 \<and> stopping s3 \<and> sw_joining s3 \<and> sw_thread s3 = Waiting \<and>
   (\<forall>s4. run_step B s3 s4 \<longrightarrow> s4 = s3\<lparr>sw_thread := Woken\<rparr>)"
proof -
  let ?s0 = "SessionSweeper_Start (SessionSweeper_init gw)"
  let ?s2 = "Stop_notify_all (Stop_exchange (Run_test ?s0))"
  note defs = sweeper_defs SessionSweeper_init_def
  have a: "sweeper_step B R (SessionSweeper_init gw) ?s0" by (rule sweeper_step.start) (simp_all add: defs)
  have b: "sweeper_step B R ?s0 (Run_test ?s0)" by (rule sweeper_step.thread, rule run_step.test) (simp add: defs)
  have c: "sweeper_step B R (Run_test ?s0) (Stop_exchange (Run_test ?s0))" by (rule sweeper_step.stop) (simp_all add: defs)
  have d: "sweeper_step B R (Stop_exchange (Run_test ?s0)) ?s2" by (rule sweeper_step.notify) (simp add: defs)
  have e: "sweeper_step B R ?s2 (?s2\<lparr>sw_thread := Waiting\<rparr>)" by (rule sweeper_step.thread, rule run_step.wait) (simp add: defs)
  have "(sweeper_step B R)\<^sup>*\<^sup>* (SessionSweeper_init gw) (?s2\<lparr>sw_thread := Waiting\<rparr>)"
    by (rule sweeper_into [OF a sweeper_into [OF b sweeper_into [OF c sweeper_into [OF d sweeper_into [OF e rtranclp.rtrancl_refl]]]]])
  then show ?thesis by (auto simp: Let_def stopping_def defs elim!: run_stepE)
qed


theorem sweeper_stop_joins_witness:
  "\<exists>s t n. (sweeper_step memory_backend (=))\<^sup>*\<^sup>* (SessionSweeper_init example_gateway) s \<and> stopping s \<and>
     n \<le> 6 \<and> (run_step memory_backend ^^ n) s t \<and> sw_thread t = Ended"
proof -
  let ?begun = "SessionSweeper_Start (SessionSweeper_init example_gateway)"
  let ?stopped = "Stop_exchange ?begun"
  note defs = sweeper_defs SessionSweeper_init_def
  have "sweeper_step memory_backend (=) (SessionSweeper_init example_gateway) ?begun" by (rule sweeper_step.start) (simp_all add: defs)
  then have r: "(sweeper_step memory_backend (=))\<^sup>*\<^sup>* (SessionSweeper_init example_gateway) ?stopped"
  proof (rule sweeper_into)
    have "sweeper_step memory_backend (=) ?begun ?stopped" by (rule sweeper_step.stop) (simp_all add: defs)
    then show "(sweeper_step memory_backend (=))\<^sup>*\<^sup>* ?begun ?stopped" by (rule sweeper_into) simp
  qed
  have st: "stopping ?stopped" by (simp add: stopping_def defs)
  have "sweeper_step memory_backend (=) ?stopped (Stop_notify_all ?stopped)" by (rule sweeper_step.notify) (simp add: defs)
  from sweeper_stop_joins [OF r st this] r st show ?thesis by blast
qed

end
