(* ===== verification/Availability.thy ===== *)
theory Availability
  imports Deployment
begin

text \<open>
  Progress of the client against a healthy gateway: when the RDMA server is up, the object fits into the store and the
  sizes stay below the configured limits, a PUT and a GET over GDS are accepted. The examples of the end-to-end properties
  are runs of this kind.
\<close>

section \<open>A healthy gateway\<close>

text \<open>The GDS executor is started, its pool is well-formed and its chunk limit is known.\<close>

definition gds_up :: "nat \<Rightarrow> MemoryBackend Gateway \<Rightarrow> bool" where
  "gds_up lmt gw \<longleftrightarrow> gw_gds_enabled gw \<and> gds_wf (gw_gds gw) \<and> g_server (gw_gds gw) \<and> g_pool (gw_gds gw) \<noteq> None \<and>
     max_chunk_bytes (g_opts (gw_gds gw)) = lmt"

lemma gds_up_fields:
  assumes "gds_up lmt gw"
  shows "gds_up lmt (gw\<lparr>gw_sessions := st\<rparr>)" "gds_up lmt (set_backend b gw)" "gds_up lmt (bumped r gw)"
    "gds_wf ex \<Longrightarrow> g_server ex \<Longrightarrow> g_pool ex \<noteq> None \<Longrightarrow> g_opts ex = g_opts (gw_gds gw) \<Longrightarrow> gds_up lmt (gw\<lparr>gw_gds := ex\<rparr>)"
  using assms by (auto simp: gds_up_def)

lemma up_grants:
  assumes "gds_up lmt gw" "0 < n" "n \<le> lmt"
  shows "grants (put_answers w tok n) n (gw_gds gw)" "grants ((put_answers w tok n)\<lparr>ca_transferred := z\<rparr>) n (gw_gds gw)"
  using assms by (simp_all add: grants_def gds_up_def put_answers_def)

lemma open_succeeds:
  assumes "gds_up lmt gw" "osr_idempotency_key q = []" "ParseDataFlow (osr_data_flow q) = GPUDirect"
    and "osr_expected_size q = 0 \<or> ParseOperationType (osr_op_type q) \<noteq> kPut"
  shows "\<exists>v gw'. HandleOpenSession memory_backend True now a env q gw = (Inr v, gw') \<and> gds_up lmt gw'"
proof -
  let ?p = "ToOpenSessionParams q" and ?st = "gw_sessions gw"
  let ?s = "new_session env ?p ?st"
  have fresh: "fresh_request ?p ?st" using assms(2) by (simp add: fresh_request_def ToOpenSessionParams_def)
  note c = Create_fresh [OF fresh, of env]
  note ins = inserted [OF refl, of ?s ?st]
  have s: "s_data_flow ?s = GPUDirect" "\<not> (s_op ?s = kPut \<and> expected_size ?s \<noteq> 0)"
    using assms(3,4) by (auto simp: ToOpenSessionParams_def)
  have sel: "SelectExecutor (session_opener memory_backend True now a gw) GPUDirect = Some (gds_data_path memory_backend True now)"
    using assms(1) by (simp add: session_opener_def gds_up_def)
  have hook: "dp_OnSessionOpened (gds_data_path memory_backend True now) ?s gw = (Inr True, set_backend (backend_of gw) gw)"
    using assms(1) s(2) by (auto simp: gds_data_path_def GdsExecutor_OnSessionOpened_def GdsExecutor_available_def gds_up_def)
  show ?thesis
    using c ins(1) s(1) sel hook gds_up_fields(1) [OF gds_up_fields(2) [OF assms(1)]]
    by (simp add: HandleOpenSession_def SessionOpener_Open_def Let_def)
qed

text \<open>The store has room for an object of \<^verbatim>\<open>n\<close> bytes.\<close>

definition has_room :: "string \<Rightarrow> string \<Rightarrow> nat \<Rightarrow> MemoryBackend \<Rightarrow> bool" where
  "has_room b k n c \<longleftrightarrow> \<not> would_exceed (cb_data c) (length (body_at (cb_data c) (MakeKey b k))) n"

lemma write_succeeds:
  assumes "memory_backend_reach cap c" "cap + length data < u64_mod" "has_room b k (length data) c"
  shows "\<exists>m. fst (be_WriteRange memory_backend now b k 0 data None c) = Inr m"
proof -
  have inv: "data_store_inv (cb_data c)" "fits (cb_data c) (write_target 0 data None)"
    using memory_backend_reach_inv [OF assms(1)] assms(2) by (auto simp: fits_def composite_inv_def write_target_def)
  show ?thesis
    using WriteRange_eval [OF inv, of b k] assms(3)
    by (simp add: CompositeBackend_WriteRange_def register_index_def has_room_def write_target_def MemoryIndexStore_PutObjectIndex_def Let_def)
qed

lemma put_chunk_succeeds:
  fixes w n q
  defines "a \<equiv> put_answers w (gcr_rdma_token q) n"
  assumes "serving cap gw" "session_for b k None (gcr_session_id q) gw" "gds_up lmt gw" "has_room b k n (backend_of gw)"
    and "gcr_upload_id q = []" "gcr_chunk_offset q = 0" "gcr_chunk_size q = n" "0 < n" "n \<le> lmt" "cap + n < u64_mod" "gcr_rdma_token q \<noteq> []"
  shows "\<exists>v gw'. HandleGdsPut memory_backend md5 a now q gw = (Inr v, gw') \<and> gds_up lmt gw'"
proof -
  obtain x where x: "SessionStore_Find (gcr_session_id q) (gw_sessions gw) = Inr x" "s_bucket (sessions (gw_sessions gw) ! x) = b"
      "object_key (sessions (gw_sessions gw) ! x) = k" "expected_size (sessions (gw_sessions gw) ! x) = 0" "gcr_session_id q \<noteq> []"
    using assms(3) by (auto simp: session_for_def session_total_def split: if_splits)
  have wf: "store_wf (gw_sessions gw)" using assms(2) by (simp add: serving_def)
  have len: "x < length (sessions (gw_sessions gw))" using wf_lookups(1) [OF wf x(1)] by simp
  let ?s = "sessions (gw_sessions (bumped x gw)) ! x"
  have s: "s_bucket ?s = b" "object_key ?s = k" "session_total ?s = None"
    using bumped_session [OF len, of x] x(2-4) by (simp_all add: session_total_def)
  have ready: "chunk_ready a q gw x"
    using x assms(4,12) by (simp add: chunk_ready_def a_def put_answers_def GdsExecutor_available_def gds_up_def)
  let ?data = "read_mem w (ParseRemoteBufferAddress (gcr_rdma_token q)) n"
  let ?persist = "\<lambda>view. be_WriteRange memory_backend now b k 0 view None"
  have view: "take (nat (ca_transferred a)) (ca_received a) = ?data" "0 \<le> ca_transferred a" by (simp_all add: a_def put_answers_def read_mem_def)
  have gr: "grants a n (gw_gds gw)" unfolding a_def by (rule up_grants) (use assms in auto)
  obtain m where m: "fst (?persist ?data (backend_of gw)) = Inr m"
    using write_succeeds [of cap "backend_of gw" ?data b k now] assms(2,5,11) by (auto simp: serving_def read_mem_def)
  obtain ex c where p: "put_through a n ?persist (gw_gds gw, backend_of gw) = (Inr m, ex, c)" "g_server ex" "g_pool ex \<noteq> None"
    using put_through_granted [OF gr view(2), of ?persist "backend_of gw"] view(1) m by auto
  note kept = put_through_released [OF _ p(1)]
  have up: "gds_up lmt (set_backend c ((bumped x gw)\<lparr>gw_gds := ex\<rparr>))"
    using gds_up_fields [OF assms(4)] p(2,3) kept gr by (auto simp: gds_up_def grants_def)
  have "PutChunk memory_backend a now ?s 0 n (gw_gds gw, backend_of gw) = (Inr m, ex, c)"
    using p(1) s assms(4,9,10) by (simp add: PutChunk_def gds_up_def)
  then show ?thesis
    using Prepare_ready [OF ready] assms(6-8) up by (auto simp: HandleGdsPut_def)
qed

lemma GetChunk_keeps:
  "GetChunk B a s tok off len b ex = (r, ex') \<Longrightarrow> g_server ex' = g_server ex \<and> (g_pool ex' = None \<longleftrightarrow> g_pool ex = None)"
  by (auto simp: GetChunk_def get_with_lease_def take_lease_def drop_lease_def GetServer_def allocateChannelId_def ChannelGuard_release_def Let_def
      split: if_splits option.splits prod.splits sum.splits)

lemma get_chunk_succeeds:
  assumes "serving cap gw" "session_for (gcr_bucket q) (gcr_object_key q) t (gcr_session_id q) gw" "gds_up lmt gw" "wd_gw w = gw"
    and "stored (gcr_bucket q) (gcr_object_key q) data e v gw" "gcr_chunk_offset q < length data" "0 < gcr_chunk_size q" "gcr_chunk_size q \<le> lmt"
    and "gcr_rdma_token q \<noteq> []"
  shows "\<exists>resp gw'. HandleGdsGet memory_backend (get_answers w q) q gw = (Inr resp, gw') \<and> gds_up lmt gw'"
proof -
  obtain x where x: "SessionStore_Find (gcr_session_id q) (gw_sessions gw) = Inr x" "gcr_session_id q \<noteq> []"
      "s_bucket (sessions (gw_sessions gw) ! x) = gcr_bucket q" "object_key (sessions (gw_sessions gw) ! x) = gcr_object_key q"
    using assms(2) by (auto simp: session_for_def)
  have wf: "store_wf (gw_sessions gw)" using assms(1) by (simp add: serving_def)
  have len: "x < length (sessions (gw_sessions gw))" using wf_lookups(1) [OF wf x(1)] by simp
  let ?s = "sessions (gw_sessions (bumped x gw)) ! x" and ?a = "get_answers w q"
  have s: "s_bucket ?s = gcr_bucket q" "object_key ?s = gcr_object_key q" using bumped_session [OF len, of x] x(3,4) by simp_all
  have ready: "chunk_ready ?a q gw x"
    using x assms(3,9) by (simp add: chunk_ready_def get_answers_def put_answers_def GdsExecutor_available_def gds_up_def)
  have body: "bodies (cb_data (backend_of gw)) (MakeKey (s_bucket ?s) (object_key ?s)) = Some data"
    using assms(5) s by (simp add: stored_def)
  have gr: "grants ?a (gcr_chunk_size q) (gw_gds gw)" unfolding get_answers_def by (rule up_grants(2)) (use assms in auto)
  have "ca_transferred ?a = int (length (take (gcr_chunk_size q) (drop (gcr_chunk_offset q) data)))"
    using body s assms(4) by (simp add: get_answers_def)
  from memory_objects.GetChunk_granted [OF body assms(6) gr this] obtain out ex where
    g: "GetChunk memory_backend ?a ?s (gcr_rdma_token q) (gcr_chunk_offset q) (gcr_chunk_size q) (backend_of gw) (gw_gds gw) = (Inr out, ex)"
    by blast
  have "gds_up lmt ((bumped x gw)\<lparr>gw_gds := ex\<rparr>)"
    using gds_up_fields(3,4) [OF assms(3)] GetChunk_keeps [OF g] GetChunk_released [OF _ g] assms(3) by (simp add: gds_up_def)
  then show ?thesis
    using Prepare_ready [OF ready] g assms(5) by (auto simp: HandleGdsGet_def MetadataService_Head_def stored_def)
qed

section \<open>A connected client\<close>

text \<open>The stubs exist and the cuObject client is connected; the clock of the process shows \<^verbatim>\<open>t\<close>.\<close>

definition live :: "int \<Rightarrow> nat \<Rightarrow> (MemoryBackend Gateway \<Rightarrow> (nat \<Rightarrow> byte) \<Rightarrow> bool) \<Rightarrow> World ClientState \<Rightarrow> bool" where
  "live t lmt K s \<longleftrightarrow> metadata_stub s \<noteq> None \<and> gds_stub s \<noteq> None \<and> cuobj_holder s = Some (Inr ()) \<and>
     wd_clock (cw s) = t \<and> gds_up lmt (wd_gw (cw s)) \<and> sees K s"

lemma live_calls:
  "preserves (live t lmt K) (ext (p_now (deployment md5)))" "preserves (live t lmt K) (ext (p_random (deployment md5)))"
  "preserves (live t lmt K) (ext (p_get_descriptor (deployment md5) ptr n))" "preserves (live t lmt K) (ext (p_put_rdma_token (deployment md5) tok))"
  by (simp_all add: preserves_def live_def sees_def dep_defs)

lemma now_live: "valid (live t lmt K) (ext (p_now (deployment md5))) (\<lambda>now s. now = t \<and> live t lmt K s)"
  by (simp add: valid_def live_def sees_def deployment_def)

lemma AcquireToken_live:
  assumes "ptr \<noteq> 0" "n \<noteq> 0"
  shows "valid (live t lmt K) (AcquireToken (deployment md5) ptr n 0 op) (\<lambda>r s. r = Inr (rdma_token ptr) \<and> live t lmt K s)"
  using assms
  by (auto simp: AcquireToken_def CuObjState_Get_def RegisterUnderLock_def valid_def live_def sees_def deployment_def split: option.split)

lemma with_token_live:
  assumes "ptr \<noteq> 0" "n \<noteq> 0" "valid (live t lmt K) (body (rdma_token ptr)) (\<lambda>r s. \<exists>x. r = Inr x \<and> live t lmt (L x) s)"
  shows "valid (live t lmt K) (with_token (deployment md5) ptr n op body) (\<lambda>r s. \<exists>x. r = Inr x \<and> live t lmt (L x) s)"
  unfolding with_token_def
  using assms(3) live_calls(4) [of t lmt _ md5]
  by (intro valid_seq [OF AcquireToken_live [OF assms(1,2)]])
    (fastforce simp: valid_def GdsRdmaToken_Reset_def preserves_def split: prod.splits)

lemma valid_retry_first:
  assumes "valid I fn (\<lambda>r s. \<exists>x. r = Inr x \<and> Q x s)"
  shows "valid I (RetryIfRetryable P policy fn) (\<lambda>r s. \<exists>x. r = Inr x \<and> Q x s)"
proof -
  have "valid (\<lambda>s. \<exists>x. r = Inr x \<and> Q x s) (retry_loop P policy fn 1 r) (\<lambda>r s. \<exists>x. r = Inr x \<and> Q x s)" for r
    by (subst retry_loop.simps) (auto simp: valid_def)
  then show ?thesis unfolding RetryIfRetryable_def by (rule valid_seq [OF assms])
qed

lemma RpcOpen_live:
  assumes "\<And>now a env gw. gds_up lmt gw \<Longrightarrow> K gw \<Longrightarrow>
      \<exists>v gw'. HandleOpenSession memory_backend True now a env (BuildOpenSessionRequest q) gw = (Inr v, gw') \<and> gds_up lmt gw' \<and> L v gw'"
  shows "valid (live t lmt (\<lambda>gw m. K gw)) (RpcOpenTransferSession (deployment md5) q)
    (\<lambda>r s. \<exists>v. r = Inr v \<and> live t lmt (\<lambda>gw m. L v gw) s)"
  unfolding valid_def
proof (intro allI impI)
  fix s assume s: "live t lmt (\<lambda>gw m. K gw) s"
  have "gds_up lmt (wd_gw (cw s))" "K (wd_gw (cw s))" using s by (simp_all add: live_def sees_def)
  from assms [OF this] obtain v gw' where
    h: "HandleOpenSession memory_backend True (nat t)
        \<lparr>sa_init = None, sa_worker = None, sa_multi = True, sa_am = None, sa_inet = True, sa_listener = None\<rparr>
        (create_env (cw s)) (BuildOpenSessionRequest q) (wd_gw (cw s)) = (Inr v, gw')"
      "gds_up lmt gw'" "L v gw'" by blast
  obtain ch where ch: "metadata_stub s = Some ch" using s by (auto simp: live_def)
  show "case run_state (RpcOpenTransferSession (deployment md5) q) s of (r, s) \<Rightarrow> \<exists>v. r = Inr v \<and> live t lmt (\<lambda>gw m. L v gw) s"
    using s h(2,3)
    by (simp add: RpcOpenTransferSession_def ch live_def sees_def deployment_def dep_OpenSession_def h(1) reply_def CheckRpcFailure_def)
qed

section \<open>PUT\<close>

lemma open_put_live:
  assumes "put_idempotency_key q = []" "bv_data b \<noteq> 0" "bv_size b \<noteq> 0" "bv_type b = kCudaDevice"
  shows "valid (live t lmt (\<lambda>gw m. serving cap gw \<and> K (gw_co gw))) (OpenSessionForPut (deployment md5) opts q b)
    (\<lambda>r s. \<exists>ses. r = Inr ses \<and>
       live t lmt (\<lambda>gw m. serving cap gw \<and> K (gw_co gw) \<and> session_for (put_bucket q) (put_key q) None (ts_session_id ses) gw) s)"
proof -
  let ?so = "\<lambda>r1 r2. MakeSessionHandshake opts r1 r2 (put_plan q b GPUDirect False)"
  have op: "\<exists>v gw'. HandleOpenSession memory_backend True now a env (BuildOpenSessionRequest (?so r1 r2)) gw = (Inr v, gw') \<and> gds_up lmt gw' \<and>
      serving cap gw' \<and> K (gw_co gw') \<and> session_for (put_bucket q) (put_key q) None (osp_session_id v) gw'"
    if "gds_up lmt gw" "serving cap gw \<and> K (gw_co gw)" for now a env r1 r2 gw
  proof -
    note rq = put_request [of opts r1 r2 q b GPUDirect False]
    have "ParseDataFlow (osr_data_flow (BuildOpenSessionRequest (?so r1 r2))) = GPUDirect" using rq(6) by (simp add: ParseDataFlow_def)
    from open_succeeds [OF that(1) _ this, of now a env] rq assms(1) obtain v gw' where
      h: "HandleOpenSession memory_backend True now a env (BuildOpenSessionRequest (?so r1 r2)) gw = (Inr v, gw')" "gds_up lmt gw'" by auto
    show ?thesis using h open_session_served [OF h(1)] that(2) rq assms(1) by auto
  qed
  have reg: "GdsMemoryRegistry_Register kPut b = Inr ()" using assms by (simp add: GdsMemoryRegistry_Register_def ValidateBuffer_def)
  show ?thesis
    unfolding OpenSessionForPut_def reg open_session_def
    by (simp, rule valid_bind [OF live_calls(2)], rule valid_bind [OF live_calls(2)], rule valid_seq [OF RpcOpen_live [OF op]])
      (auto simp: valid_def ImportSession_def)
qed

text \<open>One attempt before its deadline, for any transfer that succeeds on the opened session.\<close>

lemma put_attempt_live:
  assumes "put_idempotency_key q = []" "bv_data b \<noteq> 0" "bv_size b \<noteq> 0" "bv_type b = kCudaDevice" "t < deadline"
    and exec: "\<And>ses. valid (live t lmt (\<lambda>gw m. serving cap gw \<and> K (gw_co gw) \<and> session_for (put_bucket q) (put_key q) None (ts_session_id ses) gw))
      (exec ses) (\<lambda>r s. \<exists>x. r = Inr x \<and> S x s)"
  shows "valid (live t lmt (\<lambda>gw m. serving cap gw \<and> K (gw_co gw))) (put_attempt (deployment md5) opts deadline what q b exec)
    (\<lambda>r s. \<exists>x. r = Inr x \<and> S x s)"
proof -
  have body: "valid (\<lambda>s. \<exists>ses. r = Inr ses \<and> live t lmt (\<lambda>gw m. serving cap gw \<and> K (gw_co gw) \<and>
        session_for (put_bucket q) (put_key q) None (ts_session_id ses) gw) s)
      (or_fail r (\<lambda>ses. do { outcome \<leftarrow> exec ses;
         (case outcome of Inr x \<Rightarrow> ret outcome
          | Inl e \<Rightarrow> do { _ \<leftarrow> MetadataClient_AbortSession (deployment md5) opts (ts_session_id ses); ret outcome }) }))
      (\<lambda>r s. \<exists>x. r = Inr x \<and> S x s)" for r
  proof (cases r)
    case (Inr ses)
    then show ?thesis using exec [of ses] by (fastforce simp: valid_def split: prod.splits)
  qed (simp add: valid_def)
  show ?thesis
    unfolding put_attempt_def
    by (rule valid_seq [OF now_live], rule valid_pure, rule valid_if, use assms(5) in simp, rule valid_seq [OF open_put_live [OF assms(1-4)] body])
qed

lemma execute_put_live:
  assumes "bv_data b \<noteq> 0" "bv_size b \<noteq> 0" "bv_size b \<le> lmt" "cap + bv_size b < u64_mod" "has_room (put_bucket q) (put_key q) (bv_size b) c"
  shows "valid (live t lmt (\<lambda>gw m. serving cap gw \<and> backend_of gw = c \<and> session_for (put_bucket q) (put_key q) None (ts_session_id ses) gw))
    (ExecutePut (deployment md5) opts ses q b) (\<lambda>r s. \<exists>x. r = Inr x \<and> live t lmt (\<lambda>gw m. True) s)"
proof -
  let ?K = "\<lambda>gw m. serving cap gw \<and> backend_of gw = c \<and> session_for (put_bucket q) (put_key q) None (ts_session_id ses) gw"
  let ?op = "MakeChunkOp opts (chunk_plan_of (ChunkDispatcher_put ses q kPut) (rdma_token (bv_data b)) 0 (bv_size b))"
  let ?q = "BuildGdsChunkRequest ?op"
  have rq: "gcr_session_id ?q = ts_session_id ses" "gcr_upload_id ?q = []" "gcr_chunk_offset ?q = 0" "gcr_chunk_size ?q = bv_size b"
    "gcr_rdma_token ?q = rdma_token (bv_data b)" "ck_operation ?op \<noteq> kGet" "rdma_token (bv_data b) \<noteq> []"
    by (simp_all add: BuildGdsChunkRequest_def MakeChunkOp_def chunk_plan_of_def ChunkDispatcher_put_def rdma_token_def)
  have disp: "valid (live t lmt ?K) (Dispatch (deployment md5) opts (ChunkDispatcher_put ses q kPut) (rdma_token (bv_data b)) 0 (bv_size b))
      (\<lambda>r s. \<exists>x. r = Inr x \<and> live t lmt (\<lambda>gw m. True) s)"
    unfolding valid_def
  proof (intro allI impI)
    fix s assume s: "live t lmt ?K s"
    obtain ch where ch: "gds_stub s = Some ch" using s by (auto simp: live_def)
    obtain v gw' where h: "HandleGdsPut memory_backend md5 (put_answers (cw s) (rdma_token (bv_data b)) (bv_size b)) (nat t) ?q (wd_gw (cw s)) = (Inr v, gw')"
        "gds_up lmt gw'"
      using put_chunk_succeeds [of cap "wd_gw (cw s)" "put_bucket q" "put_key q" ?q lmt "bv_size b" md5 "cw s" "nat t"] s assms rq
      by (auto simp: live_def sees_def)
    show "case run_state (Dispatch (deployment md5) opts (ChunkDispatcher_put ses q kPut) (rdma_token (bv_data b)) 0 (bv_size b)) s of
        (r, s) \<Rightarrow> \<exists>x. r = Inr x \<and> live t lmt (\<lambda>gw m. True) s"
      using s h(2) rq
      by (simp add: Dispatch_def GdsChunk_def ch live_def sees_def deployment_def dep_GdsPut_def h(1) reply_def CheckRpcFailure_def)
  qed
  have "valid (live t lmt ?K) (with_token (deployment md5) (bv_data b) (bv_size b) kPut (\<lambda>tok. do {
        disp \<leftarrow> Dispatch (deployment md5) opts (ChunkDispatcher_put ses q kPut) tok 0 (bv_size b);
        or_fail disp (\<lambda>v. do {
          _ \<leftarrow> report_progress (put_progress_callback q) (bv_size b) (bv_size b) GPUDirect;
          ret (Inr (transfer_outcome ses v (bv_size b))) }) })) (\<lambda>r s. \<exists>x. r = Inr x \<and> live t lmt (\<lambda>gw m. True) s)"
    by (rule with_token_live [OF assms(1,2)], rule valid_seq [OF disp])
      (auto simp: valid_def report_progress_def live_def sees_def)
  then show ?thesis using assms(1,2) by (simp add: ExecutePut_def ExecuteTransferPut_def Let_def)
qed

lemma gds_put_live:
  assumes "put_idempotency_key q = []" "bv_data b \<noteq> 0" "bv_size b \<noteq> 0" "bv_type b = kCudaDevice"
    and "bv_size b \<le> lmt" "cap + bv_size b < u64_mod" "has_room (put_bucket q) (put_key q) (bv_size b) c"
    and "cuobject_available caps" "0 < o_request_timeout opts" "put_single_max_bytes (o_gds opts) = 0 \<or> bv_size b \<le> put_single_max_bytes (o_gds opts)"
  shows "valid (live t lmt (\<lambda>gw m. serving cap gw \<and> backend_of gw = c)) (GdsTransferPath_PutObject (deployment md5) opts caps q b)
    (\<lambda>r s. \<exists>x. r = Inr x \<and> live t lmt (\<lambda>gw m. True) s)"
proof -
  have attempt: "valid (live t lmt (\<lambda>gw m. serving cap gw \<and> backend_of gw = c))
      (put_attempt (deployment md5) opts deadline what q b (\<lambda>ses. ExecutePut (deployment md5) opts ses q b))
      (\<lambda>r s. \<exists>x. r = Inr x \<and> live t lmt (\<lambda>gw m. True) s)" if "t < deadline" for deadline what
    by (rule put_attempt_live [OF assms(1-4) that execute_put_live [OF assms(2,3,5,6,7)]])
  have gates: "PreflightGds (GdsTransferPath_available caps) (bv_type b) = Inr True" "too_large opts w1 w2 b = Inr True" for w1 w2
    using assms(4,8,10) by (auto simp: PreflightGds_def CommonPreflight_def GdsTransferPath_available_def too_large_def Let_def)
  show ?thesis
    unfolding GdsTransferPath_PutObject_def gates or_fail_def sum.case
    by (rule valid_seq [OF now_live], rule valid_pure, rule valid_retry_first, rule attempt) (use assms(9) in simp)
qed

section \<open>GET\<close>

abbreviation readable :: "nat \<Rightarrow> GetObjectRequest \<Rightarrow> bytes \<Rightarrow> string \<Rightarrow> string \<Rightarrow> MemoryBackend Gateway \<Rightarrow> bool" where
  "readable cap q data e v gw \<equiv> serving cap gw \<and> stored (get_bucket q) (get_key q) data e v gw"

lemma open_get_live:
  assumes "bv_data d \<noteq> 0" "bv_size d \<noteq> 0" "bv_type d = kCudaDevice"
  shows "valid (live t lmt (\<lambda>gw m. readable cap q data e v gw)) (OpenSessionForGet (deployment md5) opts q d)
    (\<lambda>r s. \<exists>ses. r = Inr ses \<and> live t lmt (\<lambda>gw m. readable cap q data e v gw \<and>
       (\<exists>z. session_for (get_bucket q) (get_key q) z (ts_session_id ses) gw)) s)"
proof -
  let ?so = "\<lambda>r1 r2. MakeSessionHandshake opts r1 r2
      \<lparr>sp_operation = kGet, sp_bucket = get_bucket q, sp_key = get_key q, sp_offset = get_offset q, sp_length = get_length q,
       sp_timeout = get_timeout_ms q, sp_idempotency_key = [], sp_buffer_type = bv_type d, sp_path = GPUDirect, sp_is_multipart_part = False\<rparr>"
  have op: "\<exists>x gw'. HandleOpenSession memory_backend True now a env (BuildOpenSessionRequest (?so r1 r2)) gw = (Inr x, gw') \<and> gds_up lmt gw' \<and>
      readable cap q data e v gw' \<and> (\<exists>z. session_for (get_bucket q) (get_key q) z (osp_session_id x) gw')"
    if "gds_up lmt gw" "readable cap q data e v gw" for now a env r1 r2 gw
  proof -
    note rq = get_request [of opts r1 r2 q d]
    have "ParseDataFlow (osr_data_flow (BuildOpenSessionRequest (?so r1 r2))) = GPUDirect"
      by (simp add: BuildOpenSessionRequest_def MakeSessionHandshake_def ParseDataFlow_def)
    from open_succeeds [OF that(1) rq(2) this, of now a env] rq obtain x gw' where
      h: "HandleOpenSession memory_backend True now a env (BuildOpenSessionRequest (?so r1 r2)) gw = (Inr x, gw')" "gds_up lmt gw'" by blast
    have "serving cap gw" using that(2) by simp
    note served = open_session_served [OF h(1) this rq(2,1) disjI2 [OF rq(3)], unfolded rq(4,5)]
    have "stored (get_bucket q) (get_key q) data e v gw'" using served that(2) by (simp add: stored_def)
    moreover have "\<exists>z. session_for (get_bucket q) (get_key q) z (osp_session_id x) gw'" using served by (simp only: sum.inject) metis
    ultimately show ?thesis using h served by (intro exI [of _ x] exI [of _ gw']) simp
  qed
  have reg: "GdsMemoryRegistry_Register kGet d = Inr ()" using assms by (simp add: GdsMemoryRegistry_Register_def ValidateBuffer_def)
  show ?thesis
    unfolding OpenSessionForGet_def reg open_session_def
    by (simp, rule valid_bind [OF live_calls(2)], rule valid_bind [OF live_calls(2)], rule valid_seq [OF RpcOpen_live [OF op]])
      (auto simp: valid_def ImportSession_def)
qed

lemma dispatch_get_live:
  assumes "bv_data d < u64_mod" "get_offset q < length data" "0 < n" "n \<le> lmt"
  shows "valid (live t lmt (\<lambda>gw m. readable cap q data e v gw \<and> (\<exists>z. session_for (get_bucket q) (get_key q) z (ts_session_id ses) gw)))
    (Dispatch (deployment md5) opts (ChunkDispatcher_get ses q kGet) (rdma_token (bv_data d)) (get_offset q) n)
    (\<lambda>r s. \<exists>x. r = Inr x \<and> live t lmt (\<lambda>gw m. readable cap q data e v gw) s)"
  unfolding valid_def
proof (intro allI impI)
  let ?op = "MakeChunkOp opts (chunk_plan_of (ChunkDispatcher_get ses q kGet) (rdma_token (bv_data d)) (get_offset q) n)"
  let ?q = "BuildGdsChunkRequest ?op"
  have rq: "gcr_session_id ?q = ts_session_id ses" "gcr_bucket ?q = get_bucket q" "gcr_object_key ?q = get_key q"
    "gcr_chunk_offset ?q = get_offset q" "gcr_chunk_size ?q = n" "gcr_rdma_token ?q = rdma_token (bv_data d)" "ck_operation ?op = kGet"
    "rdma_token (bv_data d) \<noteq> []"
    by (simp_all add: BuildGdsChunkRequest_def MakeChunkOp_def chunk_plan_of_def ChunkDispatcher_get_def rdma_token_def)
  fix s assume s: "live t lmt (\<lambda>gw m. readable cap q data e v gw \<and> (\<exists>z. session_for (get_bucket q) (get_key q) z (ts_session_id ses) gw)) s"
  obtain ch where ch: "gds_stub s = Some ch" using s by (auto simp: live_def)
  obtain z where z: "serving cap (wd_gw (cw s))" "gds_up lmt (wd_gw (cw s))" "stored (get_bucket q) (get_key q) data e v (wd_gw (cw s))"
      "session_for (get_bucket q) (get_key q) z (ts_session_id ses) (wd_gw (cw s))"
    using s by (auto simp: live_def sees_def)
  obtain x gw' where h: "HandleGdsGet memory_backend (get_answers (cw s) ?q) ?q (wd_gw (cw s)) = (Inr x, gw')" "gds_up lmt gw'"
    using get_chunk_succeeds [OF z(1) _ z(2) refl, of ?q z data e v] z(3,4) assms rq by auto
  have "serving cap gw' \<and> stored (get_bucket q) (get_key q) data e v gw'"
    using get_chunk_served [OF h(1) z(1), of z data e v x] z(3,4) assms rq by (auto simp: stored_def)
  then show "case run_state (Dispatch (deployment md5) opts (ChunkDispatcher_get ses q kGet) (rdma_token (bv_data d)) (get_offset q) n) s of
      (r, s) \<Rightarrow> \<exists>x. r = Inr x \<and> live t lmt (\<lambda>gw m. readable cap q data e v gw) s"
    using s h(2) rq
    by (simp add: Dispatch_def GdsChunk_def ch live_def sees_def deployment_def dep_GdsGet_def h(1) reply_def CheckRpcFailure_def)
qed

lemma get_single_live:
  assumes "bv_data d \<noteq> 0" "bv_type d = kCudaDevice" "bv_data d < u64_mod" "get_offset q < length data" "0 < asked q d" "asked q d \<le> lmt"
  shows "valid (live t lmt (\<lambda>gw m. readable cap q data e v gw)) (GetObjectSingle (deployment md5) opts q d)
    (\<lambda>r s. \<exists>x. r = Inr x \<and> live t lmt (\<lambda>gw m. readable cap q data e v gw) s)"
proof -
  have size: "bv_size d \<noteq> 0" using assms(5) by (auto simp: asked_def)
  let ?K = "\<lambda>ses gw m. readable cap q data e v gw \<and> (\<exists>z. session_for (get_bucket q) (get_key q) z (ts_session_id ses) gw)"
  have "valid (live t lmt (?K ses)) (with_token (deployment md5) (bv_data d) (asked q d) kGet (\<lambda>tok. do {
        disp \<leftarrow> Dispatch (deployment md5) opts (ChunkDispatcher_get ses q kGet) tok (get_offset q) (asked q d);
        or_fail disp (\<lambda>v. do {
          _ \<leftarrow> report_progress (get_progress_callback q) (asked q d) (asked q d) GPUDirect;
          ret (Inr (transfer_outcome ses v (asked q d))) }) })) (\<lambda>r s. \<exists>x. r = Inr x \<and> live t lmt (\<lambda>gw m. readable cap q data e v gw) s)" for ses
  proof (rule with_token_live)
    show "valid (live t lmt (?K ses)) (do {
        disp \<leftarrow> Dispatch (deployment md5) opts (ChunkDispatcher_get ses q kGet) (rdma_token (bv_data d)) (get_offset q) (asked q d);
        or_fail disp (\<lambda>v. do {
          _ \<leftarrow> report_progress (get_progress_callback q) (asked q d) (asked q d) GPUDirect;
          ret (Inr (transfer_outcome ses v (asked q d))) }) }) (\<lambda>r s. \<exists>x. r = Inr x \<and> live t lmt (\<lambda>gw m. readable cap q data e v gw) s)"
      by (rule valid_seq [OF dispatch_get_live [OF assms(3-6)]]) (auto simp: valid_def report_progress_def live_def sees_def)
  qed (use assms in auto)
  then have exec: "valid (live t lmt (?K ses)) (ExecuteGet (deployment md5) opts ses q d)
      (\<lambda>r s. \<exists>x. r = Inr x \<and> live t lmt (\<lambda>gw m. readable cap q data e v gw) s)" for ses
    using assms(1,5) size by (simp add: ExecuteGet_def ExecuteTransferGet_def Let_def flip: asked_def)
  have "valid (\<lambda>s. \<exists>ses. r = Inr ses \<and> live t lmt (?K ses) s) (or_fail r (\<lambda>ses. ExecuteGet (deployment md5) opts ses q d))
      (\<lambda>r s. \<exists>x. r = Inr x \<and> live t lmt (\<lambda>gw m. readable cap q data e v gw) s)" for r
    using exec by (cases r) (auto simp: valid_def)
  then show ?thesis unfolding GetObjectSingle_def by (rule valid_seq [OF open_get_live [OF assms(1) size assms(2)]])
qed

lemma run_subs_live:
  assumes "\<forall>(q, d) \<in> set subs. bv_data d \<noteq> 0 \<and> bv_type d = kCudaDevice \<and> bv_data d < u64_mod \<and> get_offset q < length data \<and>
      0 < asked q d \<and> asked q d \<le> lmt \<and> get_bucket q = b \<and> get_key q = k"
  shows "valid (live t lmt (\<lambda>gw m. serving cap gw \<and> stored b k data e v gw)) (run_subs (deployment md5) opts subs)
    (\<lambda>rs s. \<exists>outs. rs = map Inr outs \<and> live t lmt (\<lambda>gw m. serving cap gw \<and> stored b k data e v gw) s)"
  using assms
proof (induction subs)
  case (Cons s subs)
  obtain q d where s: "s = (q, d)" by fastforce
  have q: "bv_data d \<noteq> 0" "bv_type d = kCudaDevice" "bv_data d < u64_mod" "get_offset q < length data" "0 < asked q d" "asked q d \<le> lmt"
      "get_bucket q = b" "get_key q = k"
    using Cons(2) s by auto
  note single = get_single_live [OF q(1-6), of t cap e v md5 opts, unfolded q(7,8)]
  have "\<forall>(q, d) \<in> set subs. bv_data d \<noteq> 0 \<and> bv_type d = kCudaDevice \<and> bv_data d < u64_mod \<and> get_offset q < length data \<and>
      0 < asked q d \<and> asked q d \<le> lmt \<and> get_bucket q = b \<and> get_key q = k" using Cons(2) by simp
  from Cons(1) [OF this] have "valid (\<lambda>s. \<exists>x. r = Inr x \<and> live t lmt (\<lambda>gw m. serving cap gw \<and> stored b k data e v gw) s)
      (do { rs \<leftarrow> run_subs (deployment md5) opts subs; ret (r # rs) })
      (\<lambda>rs s. \<exists>outs. rs = map Inr outs \<and> live t lmt (\<lambda>gw m. serving cap gw \<and> stored b k data e v gw) s)" for r
    by (fastforce simp: valid_def Cons_eq_map_conv split: prod.splits)
  then show ?case unfolding s run_subs.simps by (rule valid_seq [OF single])
qed (simp add: valid_def)

lemma gather_live: "valid (live t lmt K) (gather cb n (map Inr outs) acc) (\<lambda>r s. \<exists>x. r = Inr x \<and> live t lmt K s)"
proof (induction outs arbitrary: acc)
  case (Cons x outs)
  have "preserves (live t lmt K) (report_progress cb m n GPUDirect)" for m
    by (simp add: report_progress_def preserves_def live_def sees_def)
  then show ?case using Cons by (simp add: valid_bind Let_def)
qed (simp add: valid_def)

lemma gds_get_live:
  assumes "bv_data d \<noteq> 0" "bv_type d = kCudaDevice" "bv_data d + bv_size d \<le> u64_mod" "cuobject_available caps"
    and "get_offset q + asked q d \<le> length data" "length data < u64_mod" "0 < asked q d" "asked q d \<le> lmt"
    and "\<forall>n. get_length q = Some n \<longrightarrow> n \<le> bv_size d"
  shows "valid (live t lmt (\<lambda>gw m. readable cap q data e v gw)) (GdsTransferPath_GetObject (deployment md5) opts caps executor q d)
    (\<lambda>r s. \<exists>x. r = Inr x \<and> live t lmt (\<lambda>gw m. readable cap q data e v gw) s)"
proof -
  have low: "bv_data d < u64_mod" "get_offset q < length data" using assms(3,5,7) by (auto simp: asked_def)
  note single = get_single_live [OF assms(1,2) low assms(7,8), of t cap e v md5 opts]
  have par: "valid (live t lmt (\<lambda>gw m. readable cap q data e v gw)) (GetObjectParallel (deployment md5) opts n q d)
      (\<lambda>r s. \<exists>x. r = Inr x \<and> live t lmt (\<lambda>gw m. readable cap q data e v gw) s)" if n: "get_length q = Some n" for n
  proof (cases "min (parallel_get_chunks (o_gds opts)) n \<le> 1")
    case False
    let ?k = "min (parallel_get_chunks (o_gds opts)) n"
    let ?subs = "parallel_plan ?k n q d"
    have a: "asked q d = n" using n assms(9) by (simp add: asked_def)
    have "0 < ?k" "get_offset q + n < u64_mod" using False assms(5,6) a by auto
    note cover = plan_cover [OF this, of d]
    have ok: "bv_data (snd s) \<noteq> 0 \<and> bv_type (snd s) = kCudaDevice \<and> bv_data (snd s) < u64_mod \<and> get_offset (fst s) < length data \<and>
        0 < asked (fst s) (snd s) \<and> asked (fst s) (snd s) \<le> lmt \<and> get_bucket (fst s) = get_bucket q \<and> get_key (fst s) = get_key q"
      if s: "s \<in> set ?subs" for s
    proof -
      note shape = plan_shape [OF s]
      have "get_offset (fst s) \<in> set (concat (map sub_range ?subs))" "bv_data (snd s) \<in> set (concat (map sub_addresses ?subs))"
        using s shape by (auto intro!: bexI [of _ s])
      then have "get_offset (fst s) < length data" "bv_data (snd s) < u64_mod" "bv_data (snd s) \<noteq> 0"
        unfolding cover using assms(1,3,5,9) a n by auto
      moreover have "bv_size (snd s) \<le> n"
      proof -
        have "length (sub_range s) \<le> sum_list (map length (map sub_range ?subs))" using s by (intro member_le_sum_list) auto
        then show ?thesis using arg_cong [OF cover(1), of length] by (simp add: length_concat)
      qed
      moreover have "asked (fst s) (snd s) = bv_size (snd s)" using shape by (simp add: asked_def)
      ultimately show ?thesis using shape assms(2,8) a by simp
    qed
    have "valid (\<lambda>s. \<exists>outs. rs = map Inr outs \<and> live t lmt (\<lambda>gw m. readable cap q data e v gw) s)
        (gather (get_progress_callback q) n rs (TransferOutcome_default\<lparr>to_selected_flow := GPUDirect, to_transfer_status := ''completed''\<rparr>))
        (\<lambda>r s. \<exists>x. r = Inr x \<and> live t lmt (\<lambda>gw m. readable cap q data e v gw) s)" for rs
      using gather_live [of t lmt "\<lambda>gw m. readable cap q data e v gw"]
      by (cases "\<exists>outs. rs = map Inr outs") (force, simp add: valid_def)
    then show ?thesis
      unfolding GetObjectParallel_def Let_def using False ok
      by (simp only: if_False) (rule valid_seq [OF run_subs_live]; fastforce)
  qed (use single in \<open>simp add: GetObjectParallel_def Let_def\<close>)
  have gate: "PreflightGds (GdsTransferPath_available caps) (bv_type d) = Inr True"
    using assms(2,4) by (simp add: PreflightGds_def CommonPreflight_def GdsTransferPath_available_def)
  show ?thesis unfolding GdsTransferPath_GetObject_def gate or_fail_def sum.case using single par by (simp split: option.split)
qed

section \<open>The public operations\<close>

definition put_accepted :: "int \<Rightarrow> nat \<Rightarrow> nat \<Rightarrow> ClientCore \<Rightarrow> PutObjectRequest \<Rightarrow> BufferView \<Rightarrow> World ClientState \<Rightarrow> bool" where
  "put_accepted t lmt cap core q b s \<longleftrightarrow>
     live t lmt (\<lambda>gw m. serving cap gw) s \<and> cc_initialized core \<and> o_data_flow (cc_options core) = GPUDirect \<and> cuobject_available (cc_caps core) \<and>
     0 < o_request_timeout (cc_options core) \<and> put_idempotency_key q = [] \<and>
     bv_data b \<noteq> 0 \<and> bv_size b \<noteq> 0 \<and> bv_type b = kCudaDevice \<and> bv_data b < u64_mod \<and> bv_size b \<le> lmt \<and> cap + bv_size b < u64_mod \<and>
     (put_single_max_bytes (o_gds (cc_options core)) = 0 \<or> bv_size b \<le> put_single_max_bytes (o_gds (cc_options core))) \<and>
     has_room (put_bucket q) (put_key q) (bv_size b) (backend_of (wd_gw (cw s)))"

definition get_accepted :: "PutObjectRequest \<Rightarrow> BufferView \<Rightarrow> GetObjectRequest \<Rightarrow> BufferView \<Rightarrow> bool" where
  "get_accepted q b g d \<longleftrightarrow>
     get_bucket g = put_bucket q \<and> get_key g = put_key q \<and> get_offset g + asked g d \<le> bv_size b \<and> 0 < asked g d \<and>
     bv_data d \<noteq> 0 \<and> bv_type d = kCudaDevice \<and> bv_data d + bv_size d \<le> u64_mod \<and> (\<forall>n. get_length g = Some n \<longrightarrow> n \<le> bv_size d)"

lemma put_progress:
  assumes "put_accepted t lmt cap core q b s"
  shows "\<exists>out s1. run_state (Client_PutObject (deployment md5) core q b) s = (Inr out, s1) \<and>
    live t lmt (\<lambda>gw m. serving cap gw \<and>
      stored (put_bucket q) (put_key q) (read_mem (cw s) (bv_data b) (bv_size b)) (to_etag out) (to_version out) gw) s1"
proof -
  note a = assms [unfolded put_accepted_def]
  let ?put = "GdsTransferPath_PutObject (deployment md5) (cc_options core) (cc_caps core) q b"
  let ?c = "backend_of (wd_gw (cw s))" and ?mem = "wd_memory (cw s)"
  obtain r s1 where run: "run_state ?put s = (r, s1)" by fastforce
  have "live t lmt (\<lambda>gw m. serving cap gw \<and> backend_of gw = ?c) s" using a by (simp add: live_def sees_def)
  with validD [OF gds_put_live [where lmt = lmt and cap = cap and c = ?c and t = t] run] a
  obtain out where out: "r = Inr out" "live t lmt (\<lambda>gw m. True) s1" by auto
  have "sees (\<lambda>gw m. serving cap gw \<and> m = ?mem) s" using a by (simp add: live_def sees_def)
  with validD [OF gds_put_done run] a out(1)
  have "serving cap (wd_gw (cw s1))"
      "stored (put_bucket q) (put_key q) (map ?mem [bv_data b..<bv_data b + bv_size b]) (to_etag out) (to_version out) (wd_gw (cw s1))"
    by (auto simp: sees_def put_done_def)
  then show ?thesis
    using run out a
    by (simp add: Client_PutObject_def when_initialized_def TransferRouter_PutObject_def GdsTransferPath_available_def live_def sees_def read_mem_def)
qed

lemma get_progress:
  assumes "put_accepted t lmt cap core q b s" "get_accepted q b g d"
    and "live t lmt (\<lambda>gw m. serving cap gw \<and> stored (put_bucket q) (put_key q) data e v gw) s1" "length data = bv_size b"
  shows "\<exists>got s2. run_state (Client_GetObject (deployment md5) core g d) s1 = (Inr got, s2)"
proof -
  note a = assms(1) [unfolded put_accepted_def] assms(2) [unfolded get_accepted_def]
  let ?get = "GdsTransferPath_GetObject (deployment md5) (cc_options core) (cc_caps core) (cc_executor core \<noteq> None) g d"
  obtain r s2 where run: "run_state ?get s1 = (r, s2)" by fastforce
  have "live t lmt (\<lambda>gw m. readable cap g data e v gw) s1" using assms(3) a by simp
  moreover have "valid (live t lmt (\<lambda>gw m. readable cap g data e v gw)) ?get
      (\<lambda>r s. \<exists>x. r = Inr x \<and> live t lmt (\<lambda>gw m. readable cap g data e v gw) s)"
    by (rule gds_get_live) (use a assms(4) in auto)
  ultimately obtain got where "r = Inr got" using validD [OF _ run] by blast
  then show ?thesis
    using run a by (simp add: Client_GetObject_def when_initialized_def TransferRouter_GetObject_def GdsTransferPath_available_def)
qed

section \<open>Properties\<close>

text \<open>C2: against a healthy gateway the client makes progress. If the client is initialised and connected, the RDMA server of the gateway is
  up, the object fits into the store and no configured limit is exceeded, then \<^verbatim>\<open>PutObject\<close> of a device buffer returns
  success, and every following \<^verbatim>\<open>GetObject\<close> of a non-empty range inside the object, split over parallel
  sessions or not, returns success as well.\<close>

theorem client_gds_progress:
  assumes "put_accepted t lmt cap core q b s"
  shows "\<exists>out s1. run_state (Client_PutObject (deployment md5) core q b) s = (Inr out, s1) \<and>
    (\<forall>g d. get_accepted q b g d \<longrightarrow> (\<exists>got s2. run_state (Client_GetObject (deployment md5) core g d) s1 = (Inr got, s2)))"
proof -
  obtain out s1 where put: "run_state (Client_PutObject (deployment md5) core q b) s = (Inr out, s1)"
      "live t lmt (\<lambda>gw m. serving cap gw \<and>
        stored (put_bucket q) (put_key q) (read_mem (cw s) (bv_data b) (bv_size b)) (to_etag out) (to_version out) gw) s1"
    using put_progress [OF assms] by blast
  have "length (read_mem (cw s) (bv_data b) (bv_size b)) = bv_size b" by (simp add: read_mem_def)
  then show ?thesis using put(1) get_progress [OF assms _ put(2)] by blast
qed

section \<open>Examples\<close>

definition example_world :: World where
  "example_world =
     \<lparr>wd_gw = example_gateway\<lparr>gw_sessions := SessionStore_init ''gw'' 60\<rparr>, wd_clock = 7, wd_fresh = 1, wd_memory = of_nat, wd_held = {},
      wd_live = {#}, wd_eps = {#}, wd_keys = {#}, wd_pending = {#}\<rparr>"

definition example_process :: "World ClientState" where
  "example_process =
     \<lparr>cw = example_world, channels = \<lparr>ch_endpoint = ''gw'', ch_baidu = Some ''gw'', ch_gds_data = None, ch_last_init_error = None\<rparr>,
      metadata_stub = Some ''gw'', gds_stub = Some ''gw'', rdma_stub = Some ''gw'', cuobj_library = Some (Inr 1), cuobj_holder = Some (Inr ()),
      registered = Map.empty, idle = (\<lambda>_. []), progress_log = []\<rparr>"

definition example_core :: ClientCore where
  "example_core =
     \<lparr>cc_options = ClientOptions_default\<lparr>o_endpoint := ''gw'', o_data_flow := GPUDirect\<rparr>,
      cc_caps = \<lparr>cuda_runtime_available = True, gpu_available = True, cuobject_available = True\<rparr>, cc_ucx_created = True,
      cc_rdma_available = True, cc_executor = Some (ClientExecutor_init 1), cc_coordinator = True, cc_initialized = True\<rparr>"

definition example_put :: PutObjectRequest where
  "example_put = PutObjectRequest_default\<lparr>put_bucket := ''b'', put_key := ''k''\<rparr>"

definition example_get :: GetObjectRequest where
  "example_get = GetObjectRequest_default\<lparr>get_bucket := ''b'', get_key := ''k'', get_offset := 1\<rparr>"

definition example_source :: BufferView where
  "example_source = \<lparr>bv_data = 64, bv_size = 3, bv_type = kCudaDevice\<rparr>"

definition example_target :: BufferView where
  "example_target = \<lparr>bv_data = 256, bv_size = 2, bv_type = kCudaDevice\<rparr>"

lemma example_serving: "serving 10 (wd_gw example_world)"
  using wf_init memory_backend_reach.init [of 10] example_gateway_facts(7)
  by (simp add: serving_def example_world_def u64_mod_def)

lemma example_up: "gds_up 1024 (wd_gw example_world)"
  using example_grants [of 1 "[]"]
  by (simp add: grants_def gds_up_def example_world_def example_gateway_facts)
    (simp add: example_gateway_def example_executor_def GdsExecutor_Start_def GdsExecutor_init_def)

lemma example_put_accepted: "put_accepted 7 1024 10 example_core example_put example_source example_process"
  using example_serving example_up
  by (simp add: put_accepted_def live_def sees_def example_process_def)
    (simp add: example_world_def example_gateway_facts has_room_def would_exceed_def example_core_def example_put_def example_source_def
      ClientOptions_default_def GdsClientOptions_default_def PutObjectRequest_default_def u64_mod_def MemoryBackend_init_def MemoryDataStore_init_def body_at_def)

lemma example_get_accepted: "get_accepted example_put example_source example_get example_target"
  by (simp add: get_accepted_def example_put_def example_source_def example_get_def example_target_def asked_def
      PutObjectRequest_default_def GetObjectRequest_default_def u64_mod_def)

theorem client_gds_progress_witness:
  "\<exists>out s1. run_state (Client_PutObject (deployment id) example_core example_put example_source) example_process = (Inr out, s1) \<and>
    (\<exists>got s2. run_state (Client_GetObject (deployment id) example_core example_get example_target) s1 = (Inr got, s2))"
  using client_gds_progress [OF example_put_accepted, of id] example_get_accepted by blast

lemma example_run:
  "\<exists>out s1 got s2. run_state (Client_PutObject (deployment id) example_core example_put example_source) example_process = (Inr out, s1) \<and>
    run_state (Client_GetObject (deployment id) example_core example_get example_target) s1 = (Inr got, s2)"
proof -
  have len: "length (read_mem (cw example_process) (bv_data example_source) (bv_size example_source)) = bv_size example_source"
    by (simp add: read_mem_def)
  show ?thesis using put_progress [OF example_put_accepted] get_progress [OF example_put_accepted example_get_accepted _ len] by meson
qed

theorem client_put_get_roundtrip_witness:
  "\<exists>out s1 got s2. run_state (Client_PutObject (deployment id) example_core example_put example_source) example_process = (Inr out, s1) \<and>
    run_state (Client_GetObject (deployment id) example_core example_get example_target) s1 = (Inr got, s2) \<and>
    read_mem (cw s2) 256 2 = [65, 66] \<and> to_bytes_transferred out = 3 \<and> to_etag got = to_etag out"
proof -
  obtain out s1 got s2 where run: "run_state (Client_PutObject (deployment id) example_core example_put example_source) example_process = (Inr out, s1)"
      "run_state (Client_GetObject (deployment id) example_core example_get example_target) s1 = (Inr got, s2)"
    using example_run by blast
  have "serving 10 (wd_gw (cw example_process))" using example_serving by (simp add: example_process_def)
  note rt = client_put_get_roundtrip [OF this _ _ _ _ run(1) _ _ _ _ _ _ run(2)]
  have "read_mem (cw s2) 256 2 = [65, 66] \<and> to_bytes_transferred out = 3 \<and> to_etag got = to_etag out"
    using rt
    by (simp add: example_core_def example_put_def example_source_def example_get_def example_target_def asked_def
        PutObjectRequest_default_def GetObjectRequest_default_def u64_mod_def)
      (simp add: example_process_def example_world_def read_mem_def upt_rec)
  then show ?thesis using run by blast
qed




end
