(* ===== verification/Gateway_Runtime.thy ===== *)
theory Gateway_Runtime
  imports Session_Sweeper Availability Null_Backend Io_Worker_Pool "HOL-Library.Sublist"
begin

text \<open>
  \<^verbatim>\<open>gateway/src/runtime/gateway_runtime.cpp\<close> with \<^verbatim>\<open>app/server.cpp\<close> and \<^verbatim>\<open>app/main.cpp\<close>: the options, the assembly of the gateway
  in the order of its dependencies, its release, and the program around them. Every \<^verbatim>\<open>unique_ptr\<close> of the runtime is a part that is alive or
  not; the log records each construction, stop and destruction. What brpc and the RDMA libraries answer while the gateway starts is an argument.
\<close>

section \<open>Options\<close>

datatype BackendKind = kMemory | kNull | kComposite

record GatewayOptions =
  go_gateway_id :: string
  go_bind_host :: string
  go_public_host :: string
  go_brpc_port :: int
  go_idle_timeout_sec :: int
  go_num_threads :: int
  go_max_concurrency :: int
  go_io_worker_threads :: int
  go_gds_enable :: bool
  go_gds :: GdsOptions
  go_ucx_enable :: bool
  go_ucx :: UcxOptions
  go_session_ttl :: nat
  go_session_sweep_interval :: nat
  go_backend_kind :: BackendKind
  go_backend_capacity :: nat
  go_multipart_max_part_size :: nat
  go_multipart_min_part_size :: nat
  go_multipart_ttl :: nat
  go_http_max_put_bytes :: nat

definition GdsOptions_default :: GdsOptions where
  "GdsOptions_default =
     \<lparr>rdma_port = 18516, buffer_size_classes = [2 ^ 20, 16 * 2 ^ 20, 256 * 2 ^ 20, 2 ^ 30], buffer_max_per_class = 4,
      max_chunk_bytes = 2 ^ 30\<rparr>"

definition UcxOptions_default :: UcxOptions where
  "UcxOptions_default = \<lparr>listen_port = 18520, max_msg_bytes = 4 * 2 ^ 30, buffer_pool_max_idle = 128\<rparr>"

definition GatewayOptions_default :: GatewayOptions where
  "GatewayOptions_default =
     \<lparr>go_gateway_id = ''us3-turbo-access-gateway'', go_bind_host = ''0.0.0.0'', go_public_host = ''127.0.0.1'', go_brpc_port = 8080,
      go_idle_timeout_sec = - 1, go_num_threads = 4, go_max_concurrency = 0, go_io_worker_threads = 32,
      go_gds_enable = True, go_gds = GdsOptions_default, go_ucx_enable = False, go_ucx = UcxOptions_default,
      go_session_ttl = 600, go_session_sweep_interval = 30, go_backend_kind = kMemory, go_backend_capacity = 4 * 2 ^ 30,
      go_multipart_max_part_size = 2 ^ 30, go_multipart_min_part_size = 5 * 2 ^ 20, go_multipart_ttl = 1800,
      go_http_max_put_bytes = 2 ^ 30\<rparr>"

section \<open>The backend\<close>

text \<open>The three classes behind \<^verbatim>\<open>unique_ptr<IBackend>\<close>; the conversions to the interface are arguments, so that a gateway over one of
  them is a gateway over its state.\<close>

record 's upcast =
  up_memory :: "MemoryBackend \<Rightarrow> 's"
  up_null :: 's
  up_composite :: "(nat, unit) CompositeBackend \<Rightarrow> 's"

definition MakeBackend :: "'s upcast \<Rightarrow> GatewayOptions \<Rightarrow> 's" where
  "MakeBackend u opts =
     (case go_backend_kind opts of
        kMemory \<Rightarrow> up_memory u (MemoryBackend_init (go_backend_capacity opts))
      | kNull \<Rightarrow> up_null u
      | kComposite \<Rightarrow> up_composite u \<lparr>cb_index = 0, cb_data = (), mpu_targets = Map.empty\<rparr>)"

section \<open>The runtime\<close>

datatype part = Backend | Sessions | SessionApp | Metadata | MpStore | MpCoordinator | MpApp | IoPool | GdsExec | GdsHandler
  | UcxExec | UcxHandler | Opener | ControlPlane | RdmaPlane | Sweeper

datatype event = Made part | Halted part | Freed part | ServerHalted

record 's GatewayRuntime =
  rt_options :: GatewayOptions
  rt_alive :: "part set"
  rt_gw :: "'s Gateway option"
  rt_io_pool :: "nat IoWorkerPool option"
  rt_services :: "string list"
  rt_serving :: bool
  rt_sweeping :: bool
  rt_started :: bool
  rt_log :: "event list"

definition GatewayRuntime_init :: "GatewayOptions \<Rightarrow> 's GatewayRuntime" where
  "GatewayRuntime_init opts =
     \<lparr>rt_options = opts, rt_alive = {}, rt_gw = None, rt_io_pool = None, rt_services = [], rt_serving = False, rt_sweeping = False,
      rt_started = False, rt_log = []\<rparr>"

text \<open>The answers of the libraries: the cuObject server, UCX, the two registrations of a service, the start of the server.\<close>

record InitAnswers =
  ia_connected :: bool
  ia_ucx :: StartAnswers
  ia_add_control :: bool
  ia_add_rdma :: bool
  ia_server :: bool

definition note_event :: "event \<Rightarrow> 's GatewayRuntime \<Rightarrow> 's GatewayRuntime" where
  "note_event e rt = rt\<lparr>rt_log := rt_log rt @ [e]\<rparr>"

text \<open>Assignment of a new object: the new one is constructed, then the old one, if any, destroyed. \<^verbatim>\<open>reset\<close> destroys.\<close>

definition make_part :: "part \<Rightarrow> 's GatewayRuntime \<Rightarrow> 's GatewayRuntime" where
  "make_part p rt = rt\<lparr>rt_alive := insert p (rt_alive rt),
     rt_log := rt_log rt @ Made p # (if p \<in> rt_alive rt then [Freed p] else [])\<rparr>"

definition reset_part :: "part \<Rightarrow> 's GatewayRuntime \<Rightarrow> 's GatewayRuntime" where
  "reset_part p rt = (if p \<in> rt_alive rt then note_event (Freed p) (rt\<lparr>rt_alive := rt_alive rt - {p}\<rparr>) else rt)"

definition data_bind_host :: "GatewayOptions \<Rightarrow> string" where
  "data_bind_host opts = (if go_bind_host opts = ''0.0.0.0'' then go_public_host opts else go_bind_host opts)"

definition on_gateway :: "('s Gateway \<Rightarrow> 's Gateway) \<Rightarrow> 's GatewayRuntime \<Rightarrow> 's GatewayRuntime" where
  "on_gateway f rt = rt\<lparr>rt_gw := map_option f (rt_gw rt)\<rparr>"

section \<open>Initialize\<close>

definition new_coordinator :: "'s upcast \<Rightarrow> GatewayOptions \<Rightarrow> 's MultipartCoordinator" where
  "new_coordinator u opts =
     \<lparr>co_backend = MakeBackend u opts, co_store = MultipartStore_init (go_multipart_ttl opts),
      max_part_size = go_multipart_max_part_size opts, min_part_size = go_multipart_min_part_size opts\<rparr>"

definition new_gateway :: "'s upcast \<Rightarrow> GatewayOptions \<Rightarrow> 's Gateway" where
  "new_gateway u opts =
     \<lparr>gw_sessions = SessionStore_init (go_gateway_id opts) (go_session_ttl opts), gw_gds_enabled = False,
      gw_gds = GdsExecutor_init (go_public_host opts) (data_bind_host opts) (go_gds opts), gw_ucx_enabled = False,
      gw_ucx = UcxExecutor_init (go_public_host opts) (data_bind_host opts) (go_ucx opts) (new_coordinator u opts)\<rparr>"

definition build_stores :: "'s upcast \<Rightarrow> 's GatewayRuntime \<Rightarrow> 's GatewayRuntime" where
  "build_stores u rt =
     (fold make_part [Backend, Sessions, SessionApp, Metadata, MpStore, MpCoordinator, MpApp, IoPool] rt)
       \<lparr>rt_gw := Some (new_gateway u (rt_options rt)),
        rt_io_pool := Some (IoWorkerPool_init (nat (max 1 (go_io_worker_threads (rt_options rt)))))\<rparr>"

definition start_gds :: "InitAnswers \<Rightarrow> 's GatewayRuntime \<Rightarrow> bool result \<times> 's GatewayRuntime" where
  "start_gds a rt =
     (let opts = rt_options rt in
      if \<not> go_gds_enable opts then (Success True, rt)
      else
        let rt = make_part GdsExec rt;
            (started, ex) = GdsExecutor_Start False (ia_connected a)
               (GdsExecutor_init (go_public_host opts) (data_bind_host opts) (go_gds opts));
            rt = on_gateway (\<lambda>gw. gw\<lparr>gw_gds_enabled := True, gw_gds := ex\<rparr>) rt in
        case started of Inl e \<Rightarrow> (Failure e, rt) | Inr _ \<Rightarrow> (Success True, make_part GdsHandler rt))"

definition start_ucx :: "InitAnswers \<Rightarrow> 's GatewayRuntime \<Rightarrow> bool result \<times> 's GatewayRuntime" where
  "start_ucx a rt =
     (if \<not> go_ucx_enable (rt_options rt) then (Success True, rt)
      else
        let rt = make_part UcxExec rt in
        case rt_gw rt of
          None \<Rightarrow> (Success True, rt)
        | Some gw \<Rightarrow>
            let (started, ux) = UcxExecutor_Start (ia_ucx a) (UcxExecutor_init (go_public_host (rt_options rt))
                   (data_bind_host (rt_options rt)) (go_ucx (rt_options rt)) (gw_co gw));
                rt = rt\<lparr>rt_gw := Some (gw\<lparr>gw_ucx_enabled := True, gw_ucx := ux\<rparr>)\<rparr> in
            case started of Inl e \<Rightarrow> (Failure e, rt) | Inr _ \<Rightarrow> (Success True, make_part UcxHandler rt))"

definition start_error :: "string \<Rightarrow> bool result" where
  "start_error m = Failure (MakeError kInternal m False)"

definition add_control_plane :: "InitAnswers \<Rightarrow> 's GatewayRuntime \<Rightarrow> bool result \<times> 's GatewayRuntime" where
  "add_control_plane a rt =
     (let rt = make_part ControlPlane (make_part Opener rt) in
      if \<not> ia_add_control a then (start_error ''failed to register control-plane service'', rt)
      else (Success True, rt\<lparr>rt_services := rt_services rt @ [''ControlPlane'']\<rparr>))"

definition add_rdma_plane :: "InitAnswers \<Rightarrow> 's GatewayRuntime \<Rightarrow> bool result \<times> 's GatewayRuntime" where
  "add_rdma_plane a rt =
     (if UcxExec \<notin> rt_alive rt then (Success True, rt)
      else
        let rt = make_part RdmaPlane rt in
        if \<not> ia_add_rdma a then (start_error ''failed to register rdma-data-plane service'', rt)
        else (Success True, rt\<lparr>rt_services := rt_services rt @ [''RdmaDataPlane'']\<rparr>))"

definition dec_int :: "int \<Rightarrow> string" where
  "dec_int i = (if i < 0 then CHR ''-'' # dec (nat (- i)) else dec (nat i))"

definition bind_endpoint :: "GatewayOptions \<Rightarrow> string" where
  "bind_endpoint opts = go_bind_host opts @ CHR '':'' # dec_int (go_brpc_port opts)"

definition start_server :: "InitAnswers \<Rightarrow> 's GatewayRuntime \<Rightarrow> bool result \<times> 's GatewayRuntime" where
  "start_server a rt =
     (if \<not> ia_server a then (start_error (''failed to start brpc server on '' @ bind_endpoint (rt_options rt)), rt)
      else (Success True, rt\<lparr>rt_serving := True\<rparr>))"

definition start_sweeper :: "'s GatewayRuntime \<Rightarrow> 's GatewayRuntime" where
  "start_sweeper rt = (make_part Sweeper rt)\<lparr>rt_sweeping := True\<rparr>"

text \<open>A step that fails ends \<^verbatim>\<open>Initialize\<close> and leaves what was built.\<close>

definition and_then :: "bool result \<times> 'r \<Rightarrow> ('r \<Rightarrow> bool result \<times> 'r) \<Rightarrow> bool result \<times> 'r" where
  "and_then x f = (case x of (Inl e, rt) \<Rightarrow> (Inl e, rt) | (Inr _, rt) \<Rightarrow> f rt)"

definition GatewayRuntime_Initialize :: "'s upcast \<Rightarrow> InitAnswers \<Rightarrow> 's GatewayRuntime \<Rightarrow> bool result \<times> 's GatewayRuntime" where
  "GatewayRuntime_Initialize u a rt =
     (if rt_started rt then (Success True, rt)
      else
        and_then (and_then (and_then (and_then (and_then
          (start_gds a (build_stores u rt)) (start_ucx a)) (add_control_plane a)) (add_rdma_plane a)) (start_server a))
          (\<lambda>rt. (Success True, (start_sweeper rt)\<lparr>rt_started := True\<rparr>)))"

section \<open>Run and Shutdown\<close>

text \<open>While the server runs the handlers and the sweeper change the state of the gateway: an arbitrary function here.\<close>

definition GatewayRuntime_Run :: "('s Gateway \<Rightarrow> 's Gateway) \<Rightarrow> 's GatewayRuntime \<Rightarrow> 's GatewayRuntime" where
  "GatewayRuntime_Run serve rt = (if \<not> rt_started rt then rt else on_gateway serve rt)"

definition halt_part :: "part \<Rightarrow> ('s GatewayRuntime \<Rightarrow> 's GatewayRuntime) \<Rightarrow> 's GatewayRuntime \<Rightarrow> 's GatewayRuntime" where
  "halt_part p stop rt = (if p \<in> rt_alive rt then note_event (Halted p) (stop rt) else rt)"

definition stop_serving :: "'s GatewayRuntime \<Rightarrow> 's GatewayRuntime" where
  "stop_serving rt =
     (if rt_started rt then
        let rt = halt_part Sweeper (\<lambda>rt. rt\<lparr>rt_sweeping := False\<rparr>) rt;
            rt = note_event ServerHalted (rt\<lparr>rt_serving := False\<rparr>);
            rt = halt_part IoPool (\<lambda>rt. rt\<lparr>rt_io_pool := map_option Stop_set (rt_io_pool rt)\<rparr>) rt in
        rt\<lparr>rt_started := False\<rparr>
      else rt)"

definition stop_gds :: "'s GatewayRuntime \<Rightarrow> 's GatewayRuntime" where
  "stop_gds = halt_part GdsExec (on_gateway (\<lambda>gw. gw\<lparr>gw_gds := snd (GdsExecutor_Stop (gw_gds gw))\<rparr>))"

definition stop_ucx :: "'s GatewayRuntime \<Rightarrow> 's GatewayRuntime" where
  "stop_ucx = halt_part UcxExec (on_gateway (\<lambda>gw. gw\<lparr>gw_ucx := UcxExecutor_Stop (gw_ucx gw)\<rparr>))"

definition GatewayRuntime_Shutdown :: "'s GatewayRuntime \<Rightarrow> 's GatewayRuntime" where
  "GatewayRuntime_Shutdown rt =
     (let rt = stop_serving rt;
          rt = fold reset_part [Sweeper, ControlPlane, RdmaPlane, Opener, GdsHandler] rt;
          rt = reset_part GdsExec (stop_gds rt);
          rt = fold reset_part [UcxHandler, UcxExec] (stop_ucx rt);
          rt = fold reset_part [IoPool, MpApp, MpCoordinator, MpStore, Metadata, SessionApp, Sessions, Backend] rt in
      rt\<lparr>rt_gw := None, rt_io_pool := None\<rparr>)"

section \<open>The program\<close>

definition ParseBackend :: "string \<Rightarrow> BackendKind" where
  "ParseBackend name = (if name = ''null'' then kNull else if name = ''composite'' then kComposite else kMemory)"

record GatewayFlags =
  fl_brpc_port :: int
  fl_idle_timeout_sec :: int
  fl_num_threads :: int
  fl_max_concurrency :: int
  fl_io_worker_threads :: int
  fl_bind_host :: string
  fl_public_host :: string
  fl_gateway_id :: string
  fl_backend :: string
  fl_backend_capacity :: nat
  fl_session_ttl_sec :: nat
  fl_session_sweep_interval_sec :: nat
  fl_multipart_max_part_size :: nat
  fl_multipart_min_part_size :: nat
  fl_http_max_put_bytes :: nat
  fl_gds_enable :: bool
  fl_gds_rdma_port :: nat
  fl_ucx_enable :: bool
  fl_ucx_port :: nat

definition GatewayFlags_default :: GatewayFlags where
  "GatewayFlags_default =
     \<lparr>fl_brpc_port = 8080, fl_idle_timeout_sec = - 1, fl_num_threads = 4, fl_max_concurrency = 0, fl_io_worker_threads = 32,
      fl_bind_host = ''0.0.0.0'', fl_public_host = ''127.0.0.1'', fl_gateway_id = ''us3-turbo-access-gateway'', fl_backend = ''memory'',
      fl_backend_capacity = 4 * 2 ^ 30, fl_session_ttl_sec = 600, fl_session_sweep_interval_sec = 30,
      fl_multipart_max_part_size = 2 ^ 30, fl_multipart_min_part_size = 5 * 2 ^ 20, fl_http_max_put_bytes = 2 ^ 30,
      fl_gds_enable = True, fl_gds_rdma_port = 18516, fl_ucx_enable = False, fl_ucx_port = 18520\<rparr>"

definition options_of_flags :: "GatewayFlags \<Rightarrow> GatewayOptions" where
  "options_of_flags fl =
     GatewayOptions_default
       \<lparr>go_bind_host := fl_bind_host fl, go_public_host := fl_public_host fl, go_brpc_port := fl_brpc_port fl,
        go_idle_timeout_sec := fl_idle_timeout_sec fl, go_num_threads := fl_num_threads fl,
        go_max_concurrency := fl_max_concurrency fl, go_io_worker_threads := fl_io_worker_threads fl,
        go_gateway_id := fl_gateway_id fl, go_backend_kind := ParseBackend (fl_backend fl),
        go_backend_capacity := fl_backend_capacity fl, go_session_ttl := fl_session_ttl_sec fl,
        go_session_sweep_interval := fl_session_sweep_interval_sec fl,
        go_multipart_max_part_size := fl_multipart_max_part_size fl, go_multipart_min_part_size := fl_multipart_min_part_size fl,
        go_http_max_put_bytes := fl_http_max_put_bytes fl, go_gds_enable := fl_gds_enable fl,
        go_gds := GdsOptions_default\<lparr>rdma_port := fl_gds_rdma_port fl\<rparr>, go_ucx_enable := fl_ucx_enable fl,
        go_ucx := UcxOptions_default\<lparr>listen_port := fl_ucx_port fl\<rparr>\<rparr>"

text \<open>The three methods of \<^verbatim>\<open>GatewayServer\<close> forward to the runtime; leaving \<^verbatim>\<open>main\<close> destroys the server, and the destructor of
  the runtime shuts down.\<close>

definition gateway_main :: "'s upcast \<Rightarrow> InitAnswers \<Rightarrow> ('s Gateway \<Rightarrow> 's Gateway) \<Rightarrow> GatewayFlags \<Rightarrow> nat \<times> 's GatewayRuntime" where
  "gateway_main u a serve fl =
     (case GatewayRuntime_Initialize u a (GatewayRuntime_init (options_of_flags fl)) of
        (Inl e, rt) \<Rightarrow> (1, GatewayRuntime_Shutdown rt)
      | (Inr _, rt) \<Rightarrow> (0, GatewayRuntime_Shutdown (GatewayRuntime_Shutdown (GatewayRuntime_Run serve rt))))"

section \<open>Release in the order of the dependencies\<close>

text \<open>The references each part is constructed with.\<close>

fun uses :: "part \<Rightarrow> part set" where
  "uses SessionApp = {Sessions}"
| "uses Metadata = {Backend}"
| "uses MpCoordinator = {Backend, MpStore}"
| "uses MpApp = {MpCoordinator}"
| "uses GdsExec = {Backend, Metadata}"
| "uses GdsHandler = {GdsExec, MpCoordinator}"
| "uses UcxExec = {Backend, Metadata}"
| "uses UcxHandler = {UcxExec, MpCoordinator}"
| "uses Opener = {Sessions, GdsExec, UcxExec}"
| "uses ControlPlane = {SessionApp, Metadata, Opener, GdsExec, GdsHandler, MpApp, IoPool}"
| "uses RdmaPlane = {UcxExec, UcxHandler}"
| "uses Sweeper = {Sessions, MpStore, MpCoordinator}"
| "uses _ = {}"

definition shutdown_order :: "event list" where
  "shutdown_order =
     [Halted Sweeper, ServerHalted, Halted IoPool] @ map Freed [Sweeper, ControlPlane, RdmaPlane, Opener, GdsHandler] @
     [Halted GdsExec] @ map Freed [GdsExec] @ [Halted UcxExec] @ map Freed [UcxHandler, UcxExec] @
     map Freed [IoPool, MpApp, MpCoordinator, MpStore, Metadata, SessionApp, Sessions, Backend]"

fun due :: "bool \<Rightarrow> part set \<Rightarrow> event \<Rightarrow> bool" where
  "due started A ServerHalted = started"
| "due started A (Halted p) = (p \<in> A \<and> (p \<in> {Sweeper, IoPool} \<longrightarrow> started))"
| "due started A (Freed p) = (p \<in> A)"
| "due started A (Made p) = False"

lemma due_freed: "filter (due st A) (map Freed ps) = map Freed (filter (\<lambda>p. p \<in> A) ps)"
  by (simp add: filter_map comp_def)

lemma reset_fields [simp]:
  "rt_alive (reset_part p rt) = rt_alive rt - {p}" "rt_started (reset_part p rt) = rt_started rt"
  "rt_serving (reset_part p rt) = rt_serving rt" "rt_sweeping (reset_part p rt) = rt_sweeping rt"
  by (auto simp: reset_part_def note_event_def)

lemma reset_all:
  assumes "distinct ps"
  shows "rt_alive (fold reset_part ps rt) = rt_alive rt - set ps"
    "rt_log (fold reset_part ps rt) = rt_log rt @ filter (due st (rt_alive rt)) (map Freed ps)"
    "rt_started (fold reset_part ps rt) = rt_started rt" "rt_serving (fold reset_part ps rt) = rt_serving rt"
    "rt_sweeping (fold reset_part ps rt) = rt_sweeping rt"
  using assms
proof (induction ps arbitrary: rt)
  case (Cons p ps)
  { case 1 then show ?case using Cons(1) by auto }
  { case 2
    then have "filter (\<lambda>q. q \<in> rt_alive rt - {p}) ps = filter (\<lambda>q. q \<in> rt_alive rt) ps" by (intro filter_cong) auto
    then show ?case using 2 Cons(2) [of "reset_part p rt"] by (auto simp: due_freed reset_part_def note_event_def) }
  { case 3 then show ?case using Cons(3) by simp }
  { case 4 then show ?case using Cons(4) by simp }
  { case 5 then show ?case using Cons(5) by simp }
qed simp_all

lemma stop_fields:
  "rt_alive (stop_serving rt) = rt_alive rt" "rt_started (stop_serving rt) \<longleftrightarrow> False"
  "rt_log (stop_serving rt) = rt_log rt @ filter (due (rt_started rt) (rt_alive rt)) [Halted Sweeper, ServerHalted, Halted IoPool]"
  "rt_alive (stop_gds rt) = rt_alive rt" "rt_log (stop_gds rt) = rt_log rt @ filter (due st (rt_alive rt)) [Halted GdsExec]"
  "rt_alive (stop_ucx rt) = rt_alive rt" "rt_log (stop_ucx rt) = rt_log rt @ filter (due st (rt_alive rt)) [Halted UcxExec]"
  "rt_started (stop_gds rt) = rt_started rt" "rt_started (stop_ucx rt) = rt_started rt"
  "rt_serving (stop_gds rt) = rt_serving rt" "rt_serving (stop_ucx rt) = rt_serving rt"
  "rt_sweeping (stop_gds rt) = rt_sweeping rt" "rt_sweeping (stop_ucx rt) = rt_sweeping rt"
  by (simp_all add: stop_serving_def stop_gds_def stop_ucx_def halt_part_def note_event_def on_gateway_def Let_def)

lemma every_part:
  "p \<in> {Sweeper, ControlPlane, RdmaPlane, Opener, GdsHandler} \<union> {GdsExec} \<union> {UcxHandler, UcxExec} \<union>
     {IoPool, MpApp, MpCoordinator, MpStore, Metadata, SessionApp, Sessions, Backend}"
  by (cases p) simp_all

lemma due_restrict:
  assumes "D \<inter> {p. Freed p \<in> set es \<or> Halted p \<in> set es} = {}"
  shows "filter (due st (A - D)) es = filter (due st A) es"
proof (intro filter_cong refl)
  fix e
  assume "e \<in> set es"
  then have "e = Freed p \<or> e = Halted p \<Longrightarrow> p \<notin> D" for p using assms by blast
  then show "due st (A - D) e = due st A e" by (cases e) simp_all
qed

lemma shutdown_log:
  "rt_log (GatewayRuntime_Shutdown rt) = rt_log rt @ filter (due (rt_started rt) (rt_alive rt)) shutdown_order"
  "rt_alive (GatewayRuntime_Shutdown rt) = {}" "\<not> rt_started (GatewayRuntime_Shutdown rt)"
  "rt_gw (GatewayRuntime_Shutdown rt) = None" "rt_io_pool (GatewayRuntime_Shutdown rt) = None"
  "rt_serving (GatewayRuntime_Shutdown rt) = rt_serving (stop_serving rt)" "rt_sweeping (GatewayRuntime_Shutdown rt) = rt_sweeping (stop_serving rt)"
proof -
  let ?A = "rt_alive rt" and ?st = "rt_started rt"
  let ?front = "[Sweeper, ControlPlane, RdmaPlane, Opener, GdsHandler]" and ?stores = "[IoPool, MpApp, MpCoordinator, MpStore, Metadata, SessionApp, Sessions, Backend]"
  define r1 where "r1 = fold reset_part ?front (stop_serving rt)"
  define r2 where "r2 = fold reset_part [GdsExec] (stop_gds r1)"
  define r3 where "r3 = fold reset_part [UcxHandler, UcxExec] (stop_ucx r2)"
  define r4 where "r4 = fold reset_part ?stores r3"
  have shut: "GatewayRuntime_Shutdown rt = r4\<lparr>rt_gw := None, rt_io_pool := None\<rparr>"
    by (simp add: GatewayRuntime_Shutdown_def r1_def r2_def r3_def r4_def Let_def)
  note resets = reset_all(1,3-5) reset_all(2) [where st = ?st] stop_fields(1-4,6,8-) stop_fields(5,7) [where st = ?st]
  have dist: "distinct ?front" "distinct [GdsExec]" "distinct [UcxHandler, UcxExec]" "distinct ?stores" by simp_all
  have alive: "rt_alive r1 = ?A - set ?front" "rt_alive r2 = ?A - (set ?front \<union> {GdsExec})"
    "rt_alive r3 = ?A - (set ?front \<union> {GdsExec} \<union> {UcxHandler, UcxExec})"
    "rt_alive r4 = ?A - (set ?front \<union> {GdsExec} \<union> {UcxHandler, UcxExec} \<union> set ?stores)"
    unfolding r1_def r2_def r3_def r4_def resets(1) [OF dist(1)] resets(1) [OF dist(2)] resets(1) [OF dist(3)] resets(1) [OF dist(4)] stop_fields
    by auto
  have "rt_log r1 = rt_log rt @ filter (due ?st ?A) ([Halted Sweeper, ServerHalted, Halted IoPool] @ map Freed ?front)"
    unfolding r1_def reset_all(2) [OF dist(1), where st = ?st] stop_fields filter_append by simp
  moreover have "rt_log r2 = rt_log r1 @ filter (due ?st ?A) ([Halted GdsExec] @ map Freed [GdsExec])"
    unfolding r2_def reset_all(2) [OF dist(2), where st = ?st] stop_fields(4) stop_fields(5) [where st = ?st] alive append_assoc filter_append [symmetric]
    by (subst due_restrict) simp_all
  moreover have "rt_log r3 = rt_log r2 @ filter (due ?st ?A) ([Halted UcxExec] @ map Freed [UcxHandler, UcxExec])"
    unfolding r3_def reset_all(2) [OF dist(3), where st = ?st] stop_fields(6) stop_fields(7) [where st = ?st] alive append_assoc filter_append [symmetric]
    by (subst due_restrict) simp_all
  moreover have "rt_log r4 = rt_log r3 @ filter (due ?st ?A) (map Freed ?stores)"
    unfolding r4_def reset_all(2) [OF dist(4), where st = ?st] alive by (subst due_restrict) simp_all
  moreover have "rt_log (GatewayRuntime_Shutdown rt) = rt_log r4" by (simp add: shut)
  ultimately show "rt_log (GatewayRuntime_Shutdown rt) = rt_log rt @ filter (due ?st ?A) shutdown_order"
    by (simp only: shutdown_order_def filter_append append_assoc)
  show "rt_alive (GatewayRuntime_Shutdown rt) = {}" using every_part alive(4) by (auto simp: shut)
  show "\<not> rt_started (GatewayRuntime_Shutdown rt)" "rt_serving (GatewayRuntime_Shutdown rt) = rt_serving (stop_serving rt)"
    "rt_sweeping (GatewayRuntime_Shutdown rt) = rt_sweeping (stop_serving rt)"
    by (simp_all add: shut r1_def r2_def r3_def r4_def stop_fields)
qed (simp_all add: GatewayRuntime_Shutdown_def Let_def)

lemma freed_before_used: "q \<in> uses p \<Longrightarrow> subseq [Freed p, Freed q] shutdown_order"
  by (cases p) (auto simp: shutdown_order_def)

lemma halted_before:
  "subseq [ServerHalted, Freed ControlPlane] shutdown_order" "subseq [Halted Sweeper, Freed Sweeper] shutdown_order"
  "subseq [Halted GdsExec, Freed GdsExec] shutdown_order" "subseq [Halted UcxExec, Freed UcxHandler] shutdown_order"
  by (simp_all add: shutdown_order_def)

lemma due_subseq:
  assumes "subseq [e, f] es" "due st A e" "due st A f"
  shows "subseq [e, f] (filter (due st A) es)"
  using subseq_filter [OF assms(1), of "due st A"] assms(2,3) by simp

section \<open>Histories of a runtime\<close>

inductive runtime_reach :: "'s GatewayRuntime \<Rightarrow> bool" where
  init: "runtime_reach (GatewayRuntime_init opts)"
| initialize: "runtime_reach rt \<Longrightarrow> runtime_reach (snd (GatewayRuntime_Initialize u a rt))"
| run: "runtime_reach rt \<Longrightarrow> runtime_reach (GatewayRuntime_Run serve rt)"
| shutdown: "runtime_reach rt \<Longrightarrow> runtime_reach (GatewayRuntime_Shutdown rt)"

definition runtime_ok :: "'s GatewayRuntime \<Rightarrow> bool" where
  "runtime_ok rt \<longleftrightarrow> rt_serving rt = rt_started rt \<and> rt_sweeping rt = rt_started rt \<and>
     (rt_started rt \<longrightarrow> {Backend, Sessions, IoPool, ControlPlane, Sweeper} \<subseteq> rt_alive rt)"

lemma make_fields [simp]:
  "rt_alive (make_part p rt) = insert p (rt_alive rt)" "rt_started (make_part p rt) = rt_started rt"
  "rt_serving (make_part p rt) = rt_serving rt" "rt_sweeping (make_part p rt) = rt_sweeping rt" "rt_gw (make_part p rt) = rt_gw rt"
  "rt_options (make_part p rt) = rt_options rt" "rt_services (make_part p rt) = rt_services rt"
  by (simp_all add: make_part_def)

lemma on_gateway_fields [simp]:
  "rt_alive (on_gateway f rt) = rt_alive rt" "rt_started (on_gateway f rt) = rt_started rt" "rt_serving (on_gateway f rt) = rt_serving rt"
  "rt_sweeping (on_gateway f rt) = rt_sweeping rt" "rt_gw (on_gateway f rt) = map_option f (rt_gw rt)"
  "rt_options (on_gateway f rt) = rt_options rt" "rt_services (on_gateway f rt) = rt_services rt" "rt_log (on_gateway f rt) = rt_log rt"
  by (simp_all add: on_gateway_def)

text \<open>A rule for the steps of \<^verbatim>\<open>Initialize\<close>: what holds after a failure and what after a success.\<close>

definition outcome :: "('r \<Rightarrow> bool) \<Rightarrow> ('r \<Rightarrow> bool) \<Rightarrow> bool result \<times> 'r \<Rightarrow> bool" where
  "outcome F Q x \<longleftrightarrow> (case fst x of Inl e \<Rightarrow> F (snd x) | Inr v \<Rightarrow> Q (snd x))"

lemma and_then_outcome: "outcome F Q x \<Longrightarrow> (\<And>rt. Q rt \<Longrightarrow> outcome F R (f rt)) \<Longrightarrow> outcome F R (and_then x f)"
  by (cases x; cases "fst x") (auto simp: and_then_def outcome_def)

definition waiting :: "part set \<Rightarrow> 's GatewayRuntime \<Rightarrow> bool" where
  "waiting S rt \<longleftrightarrow> \<not> rt_serving rt \<and> \<not> rt_sweeping rt \<and> \<not> rt_started rt \<and> S \<subseteq> rt_alive rt"

lemma start_steps:
  assumes "waiting S rt"
  shows "waiting ({Backend, Sessions, IoPool} \<union> S) (build_stores u rt)" "outcome (waiting {}) (waiting S) (start_gds a rt)"
    "outcome (waiting {}) (waiting S) (start_ucx a rt)" "outcome (waiting {}) (waiting ({ControlPlane} \<union> S)) (add_control_plane a rt)"
    "outcome (waiting {}) (waiting S) (add_rdma_plane a rt)"
    "outcome (waiting {}) (\<lambda>rt. waiting S (rt\<lparr>rt_serving := False\<rparr>) \<and> rt_serving rt) (start_server a rt)"
  using assms
  by (auto simp: outcome_def waiting_def build_stores_def start_gds_def start_ucx_def add_control_plane_def add_rdma_plane_def
      start_server_def start_error_def Let_def split: sum.splits option.splits prod.splits)

lemma initialize_outcome:
  assumes "runtime_ok rt" "\<not> rt_started rt"
  shows "outcome (waiting {}) runtime_ok (GatewayRuntime_Initialize u a rt)"
proof -
  let ?S = "{Backend, Sessions, IoPool}" and ?T = "{ControlPlane} \<union> {Backend, Sessions, IoPool}"
  have "waiting {} rt" using assms by (simp add: waiting_def runtime_ok_def)
  then have "waiting ?S (build_stores u rt)" using start_steps(1) [of "{}"] by simp
  then have "outcome (waiting {}) runtime_ok (and_then (and_then (and_then (and_then (and_then
      (start_gds a (build_stores u rt)) (start_ucx a)) (add_control_plane a)) (add_rdma_plane a)) (start_server a))
      (\<lambda>rt. (Success True, (start_sweeper rt)\<lparr>rt_started := True\<rparr>)))"
    by (intro and_then_outcome [where Q = "\<lambda>rt. waiting ?T (rt\<lparr>rt_serving := False\<rparr>) \<and> rt_serving rt"] and_then_outcome [where Q = "waiting ?T"]
        and_then_outcome [where Q = "waiting ?S"] start_steps)
      (auto simp: outcome_def runtime_ok_def waiting_def start_sweeper_def)
  then show ?thesis using assms(2) by (simp add: GatewayRuntime_Initialize_def)
qed

lemma runtime_ok_initialize:
  assumes "runtime_ok rt"
  shows "runtime_ok (snd (GatewayRuntime_Initialize u a rt))"
proof (cases "rt_started rt")
  case False
  then show ?thesis
    using initialize_outcome [OF assms, of u a] by (auto simp: outcome_def waiting_def runtime_ok_def split: sum.splits)
next
  case True
  then show ?thesis using assms by (simp add: GatewayRuntime_Initialize_def)
qed

lemma runtime_reach_ok: "runtime_reach rt \<Longrightarrow> runtime_ok rt"
proof (induction rule: runtime_reach.induct)
  case (shutdown rt)
  then show ?case
    using shutdown_log(2,3,6,7) [of rt]
    by (auto simp: runtime_ok_def stop_serving_def halt_part_def note_event_def Let_def)
next
  case (run rt serve)
  then show ?case by (simp add: GatewayRuntime_Run_def runtime_ok_def)
qed (simp_all add: runtime_ok_initialize, simp add: runtime_ok_def GatewayRuntime_init_def)

text \<open>C15: the release of a gateway. From every state a runtime can reach, whether \<^verbatim>\<open>Initialize\<close> succeeded, failed half way or never ran, \<^verbatim>\<open>Shutdown\<close>
  ends with no part alive, no server and no sweeper; it destroys each living part exactly once, every part before the parts it was constructed on, the
  control plane after the server has stopped, and the handler of UCX uploads after the executor that may still call it has.\<close>

theorem shutdown_in_order:
  assumes "runtime_reach rt" "rt_log (GatewayRuntime_Shutdown rt) = rt_log rt @ tr"
  shows "rt_alive (GatewayRuntime_Shutdown rt) = {} \<and> \<not> rt_serving (GatewayRuntime_Shutdown rt) \<and> \<not> rt_sweeping (GatewayRuntime_Shutdown rt) \<and>
    distinct tr \<and> (\<forall>p. Freed p \<in> set tr \<longleftrightarrow> p \<in> rt_alive rt) \<and>
    (\<forall>p q. p \<in> rt_alive rt \<and> q \<in> rt_alive rt \<and> q \<in> uses p \<longrightarrow> subseq [Freed p, Freed q] tr) \<and>
    (rt_started rt \<longrightarrow> subseq [ServerHalted, Freed ControlPlane] tr \<and> subseq [Halted Sweeper, Freed Sweeper] tr) \<and>
    (GdsExec \<in> rt_alive rt \<longrightarrow> subseq [Halted GdsExec, Freed GdsExec] tr) \<and>
    ({UcxExec, UcxHandler} \<subseteq> rt_alive rt \<longrightarrow> subseq [Halted UcxExec, Freed UcxHandler] tr)"
proof -
  have tr: "tr = filter (due (rt_started rt) (rt_alive rt)) shutdown_order" using assms(2) shutdown_log(1) [of rt] by simp
  note ok = runtime_reach_ok [OF assms(1)] runtime_reach_ok [OF runtime_reach.shutdown [OF assms(1)]]
  have "distinct tr" unfolding tr by (intro distinct_filter) (simp add: shutdown_order_def)
  moreover have "Freed p \<in> set shutdown_order" for p using every_part [of p] by (auto simp: shutdown_order_def)
  then have "Freed p \<in> set tr \<longleftrightarrow> p \<in> rt_alive rt" for p unfolding tr by simp
  moreover have "subseq [Freed p, Freed q] tr" if "p \<in> rt_alive rt" "q \<in> rt_alive rt" "q \<in> uses p" for p q
    unfolding tr by (rule due_subseq) (use that freed_before_used in auto)
  moreover note halted_before [THEN due_subseq, of "rt_started rt" "rt_alive rt", folded tr]
  ultimately show ?thesis using ok shutdown_log(2,3) [of rt] by (auto simp: runtime_ok_def)
qed

section \<open>A started gateway\<close>

definition ucx_accepts :: "StartAnswers \<Rightarrow> bool" where
  "ucx_accepts a \<longleftrightarrow> sa_init a = None \<and> sa_worker a = None \<and> sa_multi a \<and> sa_am a = None \<and> sa_inet a \<and> sa_listener a = None"

definition accepts :: "GatewayOptions \<Rightarrow> InitAnswers \<Rightarrow> bool" where
  "accepts opts a \<longleftrightarrow> (go_gds_enable opts \<longrightarrow> ia_connected a) \<and> (go_ucx_enable opts \<longrightarrow> ucx_accepts (ia_ucx a) \<and> ia_add_rdma a) \<and>
     ia_add_control a \<and> ia_server a"

lemma UcxExecutor_Start_outcome:
  "\<not> ux_started ux \<Longrightarrow> isl (fst (UcxExecutor_Start a ux)) \<longleftrightarrow> \<not> ucx_accepts a"
  "\<not> ux_started ux \<Longrightarrow> fst (UcxExecutor_Start a ux) = Inl e \<Longrightarrow> err_code e = kRdmaUnavailable"
  "ux_co (snd (UcxExecutor_Start a ux)) = ux_co ux"
  by (auto simp: UcxExecutor_Start_def ucx_accepts_def MakeUcxError_def Let_def split: option.splits if_splits)

lemma GdsExecutor_Start_outcome:
  "\<not> g_server ex \<Longrightarrow> isl (fst (GdsExecutor_Start w c ex)) \<longleftrightarrow> \<not> c"
  "fst (GdsExecutor_Start w c ex) = Inl e \<Longrightarrow> err_code e = kRdmaUnavailable"
  by (auto simp: GdsExecutor_Start_def MakeError_def split: if_splits)

text \<open>The parts built so far, in order, and the gateway they make up.\<close>

definition stage :: "GatewayOptions \<Rightarrow> part list \<Rightarrow> 's Gateway \<Rightarrow> 's GatewayRuntime \<Rightarrow> bool" where
  "stage opts ps gw rt \<longleftrightarrow> rt_options rt = opts \<and> rt_log rt = map Made ps \<and> rt_alive rt = set ps \<and> rt_gw rt = Some gw"

lemma stage_make: "stage opts ps gw rt \<Longrightarrow> p \<notin> set ps \<Longrightarrow> stage opts (ps @ [p]) gw (make_part p rt)"
  by (auto simp: stage_def make_part_def)

definition gds_started :: "GatewayOptions \<Rightarrow> 's Gateway \<Rightarrow> 's Gateway" where
  "gds_started opts gw =
     (if go_gds_enable opts then gw\<lparr>gw_gds_enabled := True,
        gw_gds := snd (GdsExecutor_Start False True (GdsExecutor_init (go_public_host opts) (data_bind_host opts) (go_gds opts)))\<rparr>
      else gw)"

definition ucx_started :: "GatewayOptions \<Rightarrow> InitAnswers \<Rightarrow> 's Gateway \<Rightarrow> 's Gateway" where
  "ucx_started opts a gw =
     (if go_ucx_enable opts then gw\<lparr>gw_ucx_enabled := True,
        gw_ucx := snd (UcxExecutor_Start (ia_ucx a) (UcxExecutor_init (go_public_host opts) (data_bind_host opts) (go_ucx opts) (gw_co gw)))\<rparr>
      else gw)"

text \<open>Each step either fails with the code of its cause or reaches the next stage.\<close>

definition step_to :: "bool \<Rightarrow> ErrorCode \<Rightarrow> ('r \<Rightarrow> bool) \<Rightarrow> bool result \<times> 'r \<Rightarrow> bool" where
  "step_to ok c Q x \<longleftrightarrow> (if ok then \<exists>rt. x = (Inr True, rt) \<and> Q rt else \<exists>e rt. x = (Inl e, rt) \<and> err_code e = c)"

lemma gds_stage:
  assumes "stage opts ps gw rt" "GdsExec \<notin> set ps" "GdsHandler \<notin> set ps"
  shows "step_to (go_gds_enable opts \<longrightarrow> ia_connected a) kRdmaUnavailable
    (stage opts (ps @ (if go_gds_enable opts then [GdsExec, GdsHandler] else [])) (gds_started opts gw)) (start_gds a rt)"
proof (cases "go_gds_enable opts")
  case True
  show ?thesis
    using assms True
    by (simp add: step_to_def start_gds_def GdsExecutor_Start_def GdsExecutor_init_def Let_def stage_def gds_started_def)
      (auto simp: make_part_def on_gateway_def MakeError_def)
next
  case False
  then show ?thesis using assms by (simp add: step_to_def start_gds_def stage_def gds_started_def)
qed

lemma ucx_stage:
  assumes "stage opts ps gw rt" "UcxExec \<notin> set ps" "UcxHandler \<notin> set ps"
  shows "step_to (go_ucx_enable opts \<longrightarrow> ucx_accepts (ia_ucx a)) kRdmaUnavailable
    (stage opts (ps @ (if go_ucx_enable opts then [UcxExec, UcxHandler] else [])) (ucx_started opts a gw)) (start_ucx a rt)"
proof (cases "go_ucx_enable opts")
  case True
  let ?ux = "UcxExecutor_init (go_public_host opts) (data_bind_host opts) (go_ucx opts) (gw_co gw)"
  obtain r ux where st: "UcxExecutor_Start (ia_ucx a) ?ux = (r, ux)" by fastforce
  have "\<not> ux_started ?ux" by (simp add: UcxExecutor_init_def)
  note out = UcxExecutor_Start_outcome(1,2) [OF this, of "ia_ucx a", unfolded st, simplified]
  show ?thesis
    using assms True st out
    by (cases r) (auto simp: step_to_def start_ucx_def Let_def stage_def ucx_started_def make_part_def)
next
  case False
  then show ?thesis using assms by (simp add: step_to_def start_ucx_def stage_def ucx_started_def)
qed

lemma step_to_then:
  assumes "step_to ok c Q x" "\<And>rt. Q rt \<Longrightarrow> step_to ok' c' R (f rt)"
  shows "step_to (ok \<and> ok') (if ok then c' else c) R (and_then x f)"
  using assms by (auto simp: step_to_def and_then_def)

lemmas step_to_same = step_to_then [where c = c and c' = c for c, simplified]

lemma and_then_assoc: "and_then (and_then x f) g = and_then x (\<lambda>rt. and_then (f rt) g)"
  by (cases x; cases "fst x") (auto simp: and_then_def)

lemma serving_stage:
  assumes "stage opts ps gw rt" "{Opener, ControlPlane, RdmaPlane, Sweeper} \<inter> set ps = {}" "UcxExec \<in> set ps \<longleftrightarrow> go_ucx_enable opts"
  shows "step_to ((ia_add_control a \<and> (go_ucx_enable opts \<longrightarrow> ia_add_rdma a)) \<and> ia_server a) kInternal
    (\<lambda>rt'. stage opts (ps @ [Opener, ControlPlane] @ (if go_ucx_enable opts then [RdmaPlane] else []) @ [Sweeper]) gw rt' \<and>
       rt_services rt' = rt_services rt @ ''ControlPlane'' # (if go_ucx_enable opts then [''RdmaDataPlane''] else []) \<and> rt_started rt')
    (and_then (and_then (and_then (add_control_plane a rt) (add_rdma_plane a)) (start_server a))
      (\<lambda>rt. (Success True, (start_sweeper rt)\<lparr>rt_started := True\<rparr>)))"
proof -
  let ?p1 = "ps @ [Opener, ControlPlane]" and ?p2 = "ps @ [Opener, ControlPlane] @ (if go_ucx_enable opts then [RdmaPlane] else [])"
  let ?at = "\<lambda>ps svs rt'. stage opts ps gw rt' \<and> rt_services rt' = rt_services rt @ svs"
  let ?svs = "''ControlPlane'' # (if go_ucx_enable opts then [''RdmaDataPlane''] else [])"
  have "step_to (ia_add_control a) kInternal (?at ?p1 [''ControlPlane'']) (add_control_plane a rt)"
    using assms by (auto simp: step_to_def add_control_plane_def start_error_def MakeError_def stage_def make_part_def Let_def)
  moreover have "step_to (go_ucx_enable opts \<longrightarrow> ia_add_rdma a) kInternal (?at ?p2 ?svs) (add_rdma_plane a rt')" if "?at ?p1 [''ControlPlane''] rt'" for rt'
    using assms that by (auto simp: step_to_def add_rdma_plane_def start_error_def MakeError_def stage_def make_part_def Let_def)
  ultimately have "step_to (ia_add_control a \<and> (go_ucx_enable opts \<longrightarrow> ia_add_rdma a)) kInternal (?at ?p2 ?svs)
      (and_then (add_control_plane a rt) (add_rdma_plane a))"
    by (rule step_to_same)
  moreover have "step_to (ia_server a) kInternal (?at ?p2 ?svs) (start_server a rt')" if "?at ?p2 ?svs rt'" for rt'
    using that by (auto simp: step_to_def start_server_def start_error_def MakeError_def stage_def)
  ultimately have "step_to ((ia_add_control a \<and> (go_ucx_enable opts \<longrightarrow> ia_add_rdma a)) \<and> ia_server a) kInternal (?at ?p2 ?svs)
      (and_then (and_then (add_control_plane a rt) (add_rdma_plane a)) (start_server a))"
    by (rule step_to_same)
  then show ?thesis using assms(2) by (auto simp: step_to_def and_then_def start_sweeper_def stage_def make_part_def)
qed

definition started_parts :: "GatewayOptions \<Rightarrow> part list" where
  "started_parts opts =
     [Backend, Sessions, SessionApp, Metadata, MpStore, MpCoordinator, MpApp, IoPool] @
       (if go_gds_enable opts then [GdsExec, GdsHandler] else []) @ (if go_ucx_enable opts then [UcxExec, UcxHandler] else []) @
       [Opener, ControlPlane] @ (if go_ucx_enable opts then [RdmaPlane] else []) @ [Sweeper]"

definition started_gateway :: "'s upcast \<Rightarrow> GatewayOptions \<Rightarrow> InitAnswers \<Rightarrow> 's Gateway" where
  "started_gateway u opts a = ucx_started opts a (gds_started opts (new_gateway u opts))"

lemma initialize_steps:
  "step_to (accepts opts a)
     (if (go_gds_enable opts \<longrightarrow> ia_connected a) \<and> (go_ucx_enable opts \<longrightarrow> ucx_accepts (ia_ucx a)) then kInternal else kRdmaUnavailable)
     (\<lambda>rt. stage opts (started_parts opts) (started_gateway u opts a) rt \<and>
       rt_services rt = ''ControlPlane'' # (if go_ucx_enable opts then [''RdmaDataPlane''] else []) \<and> rt_started rt)
     (GatewayRuntime_Initialize u a (GatewayRuntime_init opts))"
proof -
  let ?rt = "build_stores u (GatewayRuntime_init opts)"
  let ?ps = "[Backend, Sessions, SessionApp, Metadata, MpStore, MpCoordinator, MpApp, IoPool]"
  let ?p1 = "?ps @ (if go_gds_enable opts then [GdsExec, GdsHandler] else [])"
  let ?p2 = "?p1 @ (if go_ucx_enable opts then [UcxExec, UcxHandler] else [])"
  let ?g1 = "gds_started opts (new_gateway u opts)"
  let ?at = "\<lambda>ps gw rt. stage opts ps gw rt \<and> rt_services rt = []"
  have svs: "rt_services (snd (start_gds a rt)) = rt_services rt" "rt_services (snd (start_ucx a rt)) = rt_services rt" for rt :: "'a GatewayRuntime"
    by (auto simp: start_gds_def start_ucx_def Let_def split: sum.splits prod.splits option.splits)
  have b: "stage opts ?ps (new_gateway u opts) ?rt" "rt_services ?rt = []"
    by (auto simp: stage_def build_stores_def make_part_def GatewayRuntime_init_def)
  have "step_to (go_gds_enable opts \<longrightarrow> ia_connected a) kRdmaUnavailable (?at ?p1 ?g1) (start_gds a ?rt)"
    using gds_stage [OF b(1), of a] svs(1) [of ?rt] b(2) by (auto simp: step_to_def split: if_splits)
  moreover have "step_to (go_ucx_enable opts \<longrightarrow> ucx_accepts (ia_ucx a)) kRdmaUnavailable (?at ?p2 (ucx_started opts a ?g1)) (start_ucx a rt)"
    if "?at ?p1 ?g1 rt" for rt
    using ucx_stage [of opts ?p1 ?g1 rt a] svs(2) [of rt] that by (auto simp: step_to_def split: if_splits)
  ultimately have "step_to ((go_gds_enable opts \<longrightarrow> ia_connected a) \<and> (go_ucx_enable opts \<longrightarrow> ucx_accepts (ia_ucx a))) kRdmaUnavailable
      (?at ?p2 (started_gateway u opts a)) (and_then (start_gds a ?rt) (start_ucx a))"
    unfolding started_gateway_def by (rule step_to_same)
  moreover have "step_to ((ia_add_control a \<and> (go_ucx_enable opts \<longrightarrow> ia_add_rdma a)) \<and> ia_server a) kInternal
      (\<lambda>rt'. stage opts (started_parts opts) (started_gateway u opts a) rt' \<and>
         rt_services rt' = ''ControlPlane'' # (if go_ucx_enable opts then [''RdmaDataPlane''] else []) \<and> rt_started rt')
      (and_then (and_then (and_then (add_control_plane a rt) (add_rdma_plane a)) (start_server a))
        (\<lambda>rt. (Success True, (start_sweeper rt)\<lparr>rt_started := True\<rparr>)))" if "?at ?p2 (started_gateway u opts a) rt" for rt
    using serving_stage [of opts ?p2 "started_gateway u opts a" rt a] that by (simp add: started_parts_def)
  ultimately have "step_to (((go_gds_enable opts \<longrightarrow> ia_connected a) \<and> (go_ucx_enable opts \<longrightarrow> ucx_accepts (ia_ucx a))) \<and>
      ((ia_add_control a \<and> (go_ucx_enable opts \<longrightarrow> ia_add_rdma a)) \<and> ia_server a))
     (if (go_gds_enable opts \<longrightarrow> ia_connected a) \<and> (go_ucx_enable opts \<longrightarrow> ucx_accepts (ia_ucx a)) then kInternal else kRdmaUnavailable)
     (\<lambda>rt. stage opts (started_parts opts) (started_gateway u opts a) rt \<and>
       rt_services rt = ''ControlPlane'' # (if go_ucx_enable opts then [''RdmaDataPlane''] else []) \<and> rt_started rt)
     (and_then (and_then (start_gds a ?rt) (start_ucx a)) (\<lambda>rt. and_then (and_then (and_then (add_control_plane a rt) (add_rdma_plane a)) (start_server a))
        (\<lambda>rt. (Success True, (start_sweeper rt)\<lparr>rt_started := True\<rparr>))))"
    by (rule step_to_then)
  moreover have "accepts opts a \<longleftrightarrow> ((go_gds_enable opts \<longrightarrow> ia_connected a) \<and> (go_ucx_enable opts \<longrightarrow> ucx_accepts (ia_ucx a))) \<and>
      ((ia_add_control a \<and> (go_ucx_enable opts \<longrightarrow> ia_add_rdma a)) \<and> ia_server a)"
    by (auto simp: accepts_def)
  ultimately show ?thesis by (simp add: GatewayRuntime_Initialize_def and_then_assoc GatewayRuntime_init_def)
qed

lemma made_after_used:
  "p \<in> set (started_parts opts) \<Longrightarrow> q \<in> uses p \<Longrightarrow> q \<in> set (started_parts opts) \<Longrightarrow> subseq [Made q, Made p] (map Made (started_parts opts))"
  by (cases p) (auto simp: started_parts_def)

text \<open>C16: the start of a gateway. \<^verbatim>\<open>Initialize\<close> on a new runtime succeeds exactly when the enabled data planes start, the services register and the server
  starts. It then has built exactly the parts the options ask for, each after the parts it refers to, over fresh stores, and the
  server and the sweeper run. Otherwise nothing serves, and the code tells a data plane that did not start (RDMA unavailable) from the server (internal).\<close>

theorem initialize_outcomes:
  "(accepts opts a \<longrightarrow> (\<exists>rt. GatewayRuntime_Initialize u a (GatewayRuntime_init opts) = (Inr True, rt) \<and>
      rt_started rt \<and> rt_serving rt \<and> rt_sweeping rt \<and> rt_alive rt = set (started_parts opts) \<and>
      (\<forall>p q. p \<in> rt_alive rt \<and> q \<in> uses p \<and> q \<in> rt_alive rt \<longrightarrow> subseq [Made q, Made p] (rt_log rt)) \<and>
      rt_gw rt = Some (started_gateway u opts a) \<and>
      rt_services rt = ''ControlPlane'' # (if go_ucx_enable opts then [''RdmaDataPlane''] else []))) \<and>
   (\<not> accepts opts a \<longrightarrow> (\<exists>e rt. GatewayRuntime_Initialize u a (GatewayRuntime_init opts) = (Inl e, rt) \<and>
      \<not> rt_started rt \<and> \<not> rt_serving rt \<and> \<not> rt_sweeping rt \<and>
      err_code e = (if (go_gds_enable opts \<longrightarrow> ia_connected a) \<and> (go_ucx_enable opts \<longrightarrow> ucx_accepts (ia_ucx a)) then kInternal else kRdmaUnavailable)))"
proof -
  note steps = initialize_steps [of opts a u]
  let ?x = "GatewayRuntime_Initialize u a (GatewayRuntime_init opts)"
  have ok: "runtime_ok (snd ?x)" by (rule runtime_reach_ok [OF runtime_reach.initialize [OF runtime_reach.init]])
  have fail: "fst ?x = Inl e \<Longrightarrow> \<not> rt_started (snd ?x)" for e
    using initialize_outcome [OF runtime_reach_ok [OF runtime_reach.init], of opts u a] by (auto simp: outcome_def waiting_def GatewayRuntime_init_def)
  show ?thesis
  proof (intro conjI impI)
    assume "accepts opts a"
    with steps obtain rt where rt: "?x = (Inr True, rt)" "stage opts (started_parts opts) (started_gateway u opts a) rt" "rt_started rt"
        "rt_services rt = ''ControlPlane'' # (if go_ucx_enable opts then [''RdmaDataPlane''] else [])"
      by (auto simp: step_to_def)
    then show "\<exists>rt. ?x = (Inr True, rt) \<and> rt_started rt \<and> rt_serving rt \<and> rt_sweeping rt \<and> rt_alive rt = set (started_parts opts) \<and>
        (\<forall>p q. p \<in> rt_alive rt \<and> q \<in> uses p \<and> q \<in> rt_alive rt \<longrightarrow> subseq [Made q, Made p] (rt_log rt)) \<and>
        rt_gw rt = Some (started_gateway u opts a) \<and>
        rt_services rt = ''ControlPlane'' # (if go_ucx_enable opts then [''RdmaDataPlane''] else [])"
      using ok made_after_used [of _ opts] by (intro exI [of _ rt]) (simp add: runtime_ok_def stage_def)
  next
    assume "\<not> accepts opts a"
    then show "\<exists>e rt. ?x = (Inl e, rt) \<and> \<not> rt_started rt \<and> \<not> rt_serving rt \<and> \<not> rt_sweeping rt \<and>
        err_code e = (if (go_gds_enable opts \<longrightarrow> ia_connected a) \<and> (go_ucx_enable opts \<longrightarrow> ucx_accepts (ia_ucx a)) then kInternal else kRdmaUnavailable)"
      using steps ok fail by (auto simp: step_to_def runtime_ok_def)
  qed
qed

section \<open>From the command line to the first object\<close>

text \<open>The gateway that \<^verbatim>\<open>Initialize\<close> leaves over the memory backend is one the end-to-end lemmas speak of.\<close>

lemma started_fields:
  "gw_sessions (started_gateway u opts a) = SessionStore_init (go_gateway_id opts) (go_session_ttl opts)"
  "co_backend (gw_co (started_gateway u opts a)) = MakeBackend u opts"
  "gw_gds_enabled (started_gateway u opts a) = go_gds_enable opts"
  "go_gds_enable opts \<Longrightarrow> gw_gds (started_gateway u opts a) =
     snd (GdsExecutor_Start False True (GdsExecutor_init (go_public_host opts) (data_bind_host opts) (go_gds opts)))"
  by (simp_all add: started_gateway_def ucx_started_def gds_started_def new_gateway_def UcxExecutor_Start_outcome(3) UcxExecutor_init_def
      new_coordinator_def)

lemma started_ready:
  assumes "go_backend_kind opts = kMemory" "up_memory u = id" "go_backend_capacity opts < u64_mod"
  shows "serving (go_backend_capacity opts) (started_gateway u opts a)"
    "go_gds_enable opts \<Longrightarrow> gds_up (max_chunk_bytes (go_gds opts)) (started_gateway u opts a)"
    "n \<le> go_backend_capacity opts \<Longrightarrow> has_room b k n (backend_of (started_gateway u opts a))"
proof -
  have backend: "backend_of (started_gateway u opts a) = MemoryBackend_init (go_backend_capacity opts)"
    using assms by (simp add: started_fields MakeBackend_def)
  show "serving (go_backend_capacity opts) (started_gateway u opts a)"
    using assms memory_backend_reach.init wf_init by (simp add: serving_def started_fields MakeBackend_def)
  show "has_room b k n (backend_of (started_gateway u opts a))" if "n \<le> go_backend_capacity opts"
    using that by (simp add: backend has_room_def would_exceed_def MemoryBackend_init_def MemoryDataStore_init_def body_at_def)
  show "gds_up (max_chunk_bytes (go_gds opts)) (started_gateway u opts a)" if "go_gds_enable opts"
    using gds_reach_wf [OF gds_reach.start [OF gds_reach.init], of False True "go_public_host opts" "data_bind_host opts" "go_gds opts"] that
    by (simp add: gds_up_def started_fields) (simp add: GdsExecutor_Start_def GdsExecutor_init_def)
qed

text \<open>A client that is initialised and connected to the gateway, with a device buffer inside the limits.\<close>

definition client_ready :: "GatewayOptions \<Rightarrow> ClientCore \<Rightarrow> PutObjectRequest \<Rightarrow> BufferView \<Rightarrow> World ClientState \<Rightarrow> bool" where
  "client_ready opts core q b s \<longleftrightarrow>
     metadata_stub s \<noteq> None \<and> gds_stub s \<noteq> None \<and> cuobj_holder s = Some (Inr ()) \<and> cc_initialized core \<and>
     o_data_flow (cc_options core) = GPUDirect \<and> cuobject_available (cc_caps core) \<and> 0 < o_request_timeout (cc_options core) \<and>
     put_idempotency_key q = [] \<and> bv_data b \<noteq> 0 \<and> bv_size b \<noteq> 0 \<and> bv_type b = kCudaDevice \<and> bv_data b < u64_mod \<and>
     bv_size b \<le> max_chunk_bytes (go_gds opts) \<and> bv_size b \<le> go_backend_capacity opts \<and> go_backend_capacity opts + bv_size b < u64_mod \<and>
     (put_single_max_bytes (o_gds (cc_options core)) = 0 \<or> bv_size b \<le> put_single_max_bytes (o_gds (cc_options core)))"

text \<open>C14: from start-up to the first object. If \<^verbatim>\<open>Initialize\<close> succeeds with the memory backend and the GDS data plane enabled, then on the gateway it leaves the
  first \<^verbatim>\<open>PutObject\<close> of a connected client, of any device buffer within the configured limits, succeeds, and the gateway then stores
  exactly the bytes of the buffer under the bucket and key, with the etag and version the client was told.\<close>

theorem started_gateway_serves:
  assumes "GatewayRuntime_Initialize u a (GatewayRuntime_init opts) = (Inr v, rt)" "rt_gw rt = Some (wd_gw (cw s))"
    and "go_backend_kind opts = kMemory" "up_memory u = id" "go_gds_enable opts" "client_ready opts core q b s"
  shows "\<exists>out s1. run_state (Client_PutObject (deployment md5) core q b) s = (Inr out, s1) \<and> to_bytes_transferred out = bv_size b \<and>
    stored (put_bucket q) (put_key q) (read_mem (cw s) (bv_data b) (bv_size b)) (to_etag out) (to_version out) (wd_gw (cw s1))"
proof -
  have "accepts opts a" using initialize_steps [of opts a u] assms(1) by (auto simp: step_to_def split: if_splits)
  then have gw: "wd_gw (cw s) = started_gateway u opts a"
    using initialize_steps [of opts a u] assms(1,2) by (auto simp: step_to_def stage_def)
  note c = assms(6) [unfolded client_ready_def]
  have cap: "go_backend_capacity opts < u64_mod" using c by linarith
  note ready = started_ready [OF assms(3,4) cap, where a = a, folded gw]
  have "put_accepted (wd_clock (cw s)) (max_chunk_bytes (go_gds opts)) (go_backend_capacity opts) core q b s"
    using ready(1) ready(2) [OF assms(5)] ready(3) [of "bv_size b"] c by (simp add: put_accepted_def live_def sees_def)
  from put_progress [OF this, of md5] obtain out s1 where run: "run_state (Client_PutObject (deployment md5) core q b) s = (Inr out, s1)"
      "stored (put_bucket q) (put_key q) (read_mem (cw s) (bv_data b) (bv_size b)) (to_etag out) (to_version out) (wd_gw (cw s1))"
    by (auto simp: live_def sees_def)
  have "run_state (GdsTransferPath_PutObject (deployment md5) (cc_options core) (cc_caps core) q b) s = (Inr out, s1)"
    using run(1) c by (auto simp: Client_PutObject_def when_initialized_def TransferRouter_PutObject_def split: if_splits)
  moreover have "sees (\<lambda>gw m. serving (go_backend_capacity opts) gw \<and> m = wd_memory (cw s)) s" using ready(1) by (simp add: sees_def)
  ultimately have "to_bytes_transferred out = bv_size b"
    using validD [OF gds_put_done] c by (fastforce simp: put_done_def sees_def)
  then show ?thesis using run by blast
qed

text \<open>A first start only builds: whether it succeeds or not, the log holds the constructions of the living parts and nothing else.\<close>

definition built :: "part set \<Rightarrow> 's GatewayRuntime \<Rightarrow> bool" where
  "built A rt \<longleftrightarrow> rt_alive rt \<subseteq> A \<and> set (rt_log rt) = Made ` rt_alive rt"

lemma built_make: "built A rt \<Longrightarrow> p \<notin> A \<Longrightarrow> built (insert p A) (make_part p rt)"
  by (auto simp: built_def make_part_def)

lemma built_mono: "built A rt \<Longrightarrow> A \<subseteq> A' \<Longrightarrow> built A' rt"
  by (auto simp: built_def)

lemma built_fields [simp]:
  "built A (on_gateway f rt) = built A rt" "built A (rt\<lparr>rt_gw := g\<rparr>) = built A rt" "built A (rt\<lparr>rt_services := svs\<rparr>) = built A rt"
  "built A (rt\<lparr>rt_serving := b\<rparr>) = built A rt" "built A (rt\<lparr>rt_sweeping := b\<rparr>) = built A rt" "built A (rt\<lparr>rt_started := b\<rparr>) = built A rt"
  "built A (rt\<lparr>rt_io_pool := pool\<rparr>) = built A rt"
  by (simp_all add: built_def)

lemma built_steps:
  assumes "built A rt"
  shows "{GdsExec, GdsHandler} \<inter> A = {} \<Longrightarrow> built ({GdsHandler, GdsExec} \<union> A) (snd (start_gds a rt))"
    "{UcxExec, UcxHandler} \<inter> A = {} \<Longrightarrow> built ({UcxHandler, UcxExec} \<union> A) (snd (start_ucx a rt))"
    "{Opener, ControlPlane} \<inter> A = {} \<Longrightarrow> built ({ControlPlane, Opener} \<union> A) (snd (add_control_plane a rt))"
    "RdmaPlane \<notin> A \<Longrightarrow> built (insert RdmaPlane A) (snd (add_rdma_plane a rt))" "built A (snd (start_server a rt))"
    "Sweeper \<notin> A \<Longrightarrow> built (insert Sweeper A) (start_sweeper rt)"
  using assms
  by (auto simp: start_gds_def start_ucx_def add_control_plane_def add_rdma_plane_def start_server_def start_sweeper_def Let_def
      split: sum.splits option.splits prod.splits intro!: built_make intro: built_mono [OF built_make] built_mono)

lemma and_then_keeps: "P (snd x) \<Longrightarrow> (\<And>rt. P rt \<Longrightarrow> Q (snd (f rt))) \<Longrightarrow> (\<And>rt. P rt \<Longrightarrow> Q rt) \<Longrightarrow> Q (snd (and_then x f))"
  by (cases x; cases "fst x") (auto simp: and_then_def)

lemma first_start_builds: "built UNIV (snd (GatewayRuntime_Initialize u a (GatewayRuntime_init opts)))"
proof -
  let ?rt = "build_stores u (GatewayRuntime_init opts)"
  define A where "A = {Backend, Sessions, SessionApp, Metadata, MpStore, MpCoordinator, MpApp, IoPool}"
  define B where "B = {GdsHandler, GdsExec} \<union> A"
  define C where "C = {UcxHandler, UcxExec} \<union> B"
  define D where "D = {ControlPlane, Opener} \<union> C"
  note sets = A_def B_def C_def D_def
  let ?x1 = "start_gds a ?rt" let ?x2 = "and_then ?x1 (start_ucx a)" let ?x3 = "and_then ?x2 (add_control_plane a)"
  let ?x4 = "and_then ?x3 (add_rdma_plane a)" let ?x5 = "and_then ?x4 (start_server a)"
  have "built A ?rt" by (auto simp: built_def build_stores_def make_part_def GatewayRuntime_init_def A_def)
  then have "built B (snd ?x1)" unfolding B_def by (rule built_steps) (simp add: sets)
  then have "built C (snd ?x2)" unfolding C_def by (rule and_then_keeps) (rule built_steps built_mono, assumption, force simp: sets)+
  then have "built D (snd ?x3)" unfolding D_def by (rule and_then_keeps) (rule built_steps built_mono, assumption, force simp: sets)+
  then have "built (insert RdmaPlane D) (snd ?x4)" by (rule and_then_keeps) (rule built_steps built_mono, assumption, force simp: sets)+
  then have "built (insert RdmaPlane D) (snd ?x5)" by (rule and_then_keeps) (rule built_steps, assumption)
  then have "built (insert Sweeper (insert RdmaPlane D)) (snd (and_then ?x5 (\<lambda>rt. (Success True, (start_sweeper rt)\<lparr>rt_started := True\<rparr>))))"
    by (rule and_then_keeps) (simp, (rule built_steps built_mono, assumption, force simp: sets)+)
  then have "built UNIV (snd (and_then ?x5 (\<lambda>rt. (Success True, (start_sweeper rt)\<lparr>rt_started := True\<rparr>))))" by (rule built_mono) simp
  then show ?thesis unfolding GatewayRuntime_Initialize_def by (simp add: GatewayRuntime_init_def)
qed

lemma shutdown_twice: "rt_log (GatewayRuntime_Shutdown (GatewayRuntime_Shutdown rt)) = rt_log (GatewayRuntime_Shutdown rt)"
proof -
  have "\<not> due False {} e" for e by (cases e) simp_all
  then show ?thesis using shutdown_log [of rt] by (simp add: shutdown_log(1) [of "GatewayRuntime_Shutdown rt"])
qed

lemma built_released:
  assumes "built UNIV rt" "rt_log rt' = rt_log (GatewayRuntime_Shutdown rt)"
  shows "Made p \<in> set (rt_log rt') \<Longrightarrow> Freed p \<in> set (rt_log rt')"
    "Made p \<in> set (rt_log rt') \<Longrightarrow> Made q \<in> set (rt_log rt') \<Longrightarrow> q \<in> uses p \<Longrightarrow> subseq [Freed p, Freed q] (rt_log rt')"
proof -
  let ?tr = "filter (due (rt_started rt) (rt_alive rt)) shutdown_order"
  have log: "rt_log rt' = rt_log rt @ ?tr" using assms(2) shutdown_log(1) by metis
  have made: "Made p \<in> set (rt_log rt') \<longleftrightarrow> p \<in> rt_alive rt" for p using assms(1) by (auto simp: log built_def)
  have "Freed p \<in> set shutdown_order" for p using every_part [of p] by (auto simp: shutdown_order_def)
  then show "Made p \<in> set (rt_log rt') \<Longrightarrow> Freed p \<in> set (rt_log rt')" using made by (auto simp: log)
  show "Made p \<in> set (rt_log rt') \<Longrightarrow> Made q \<in> set (rt_log rt') \<Longrightarrow> q \<in> uses p \<Longrightarrow> subseq [Freed p, Freed q] (rt_log rt')"
    unfolding made unfolding log by (intro list_emb_append2 due_subseq freed_before_used) simp_all
qed

text \<open>The program. \<^verbatim>\<open>main\<close> returns success exactly when the gateway started, and whatever happened while it ran, it leaves nothing behind: every part it built is
  destroyed, each before the parts it was constructed on.\<close>

theorem gateway_main_releases:
  assumes "gateway_main u a serve fl = (code, rt)"
  shows "(code = 0 \<longleftrightarrow> accepts (options_of_flags fl) a) \<and> rt_alive rt = {} \<and> \<not> rt_serving rt \<and> \<not> rt_sweeping rt \<and> rt_gw rt = None \<and>
    (\<forall>p. Made p \<in> set (rt_log rt) \<longrightarrow> Freed p \<in> set (rt_log rt)) \<and>
    (\<forall>p q. {Made p, Made q} \<subseteq> set (rt_log rt) \<and> q \<in> uses p \<longrightarrow> subseq [Freed p, Freed q] (rt_log rt))"
proof -
  obtain r rt1 where x: "GatewayRuntime_Initialize u a (GatewayRuntime_init (options_of_flags fl)) = (r, rt1)" by fastforce
  have reach: "runtime_reach rt1" using runtime_reach.initialize [OF runtime_reach.init] x by (metis snd_conv)
  have b: "built UNIV rt1" using first_start_builds x by (metis snd_conv)
  have code: "(code = 0) \<longleftrightarrow> accepts (options_of_flags fl) a"
    using assms x initialize_steps [of "options_of_flags fl" a u] by (auto simp: gateway_main_def step_to_def split: sum.splits if_splits)
  obtain rt2 where rt2: "runtime_reach rt2" "built UNIV rt2" "rt = GatewayRuntime_Shutdown rt2 \<or> rt = GatewayRuntime_Shutdown (GatewayRuntime_Shutdown rt2)"
  proof (cases r)
    case Inl
    then show ?thesis using that [of rt1] reach b assms x by (simp add: gateway_main_def)
  next
    case Inr
    have "built UNIV (GatewayRuntime_Run serve rt1)" using b by (simp add: GatewayRuntime_Run_def)
    then show ?thesis using that [of "GatewayRuntime_Run serve rt1"] runtime_reach.run [OF reach] Inr assms x by (simp add: gateway_main_def)
  qed
  then have log: "rt_log rt = rt_log (GatewayRuntime_Shutdown rt2)" using shutdown_twice by auto
  have "runtime_reach rt" using rt2 runtime_reach.shutdown by metis
  then have "rt_alive rt = {}" "\<not> rt_serving rt" "\<not> rt_sweeping rt" "rt_gw rt = None"
    using rt2(3) runtime_reach_ok shutdown_log(2-4) by (auto simp: runtime_ok_def)
  then show ?thesis using code built_released [OF rt2(2) log] by blast
qed

section \<open>Starting again after a failure\<close>

text \<open>A second \<^verbatim>\<open>Initialize\<close> after one that failed at the server replaces the backend first: it is destroyed while the GDS executor of the first attempt,
  which was constructed on it and is still listening, lives on until its own replacement.\<close>

theorem retried_start_frees_backend_in_use:
  assumes "go_gds_enable opts" "ia_connected a" "\<not> ia_add_control a"
  shows "subseq [Freed Backend, Freed GdsExec]
    (rt_log (snd (GatewayRuntime_Initialize u a (snd (GatewayRuntime_Initialize u a (GatewayRuntime_init (opts\<lparr>go_ucx_enable := False\<rparr>)))))))"
  using assms
  by (simp add: GatewayRuntime_Initialize_def GatewayRuntime_init_def build_stores_def start_gds_def start_ucx_def add_control_plane_def
      GdsExecutor_Start_def GdsExecutor_init_def and_then_def make_part_def on_gateway_def start_error_def Let_def)

section \<open>Examples\<close>

definition example_upcast :: "MemoryBackend upcast" where
  "example_upcast = \<lparr>up_memory = id, up_null = MemoryBackend_init 0, up_composite = (\<lambda>_. MemoryBackend_init 0)\<rparr>"

definition example_start :: InitAnswers where
  "example_start =
     \<lparr>ia_connected = True, ia_ucx = \<lparr>sa_init = None, sa_worker = None, sa_multi = True, sa_am = None, sa_inet = True, sa_listener = None\<rparr>,
      ia_add_control = True, ia_add_rdma = True, ia_server = True\<rparr>"

definition example_options :: GatewayOptions where
  "example_options = GatewayOptions_default\<lparr>go_ucx_enable := True\<rparr>"

lemma example_accepts: "accepts example_options example_start" "\<not> accepts example_options (example_start\<lparr>ia_server := False\<rparr>)"
  by (simp_all add: accepts_def ucx_accepts_def example_options_def example_start_def GatewayOptions_default_def)

theorem initialize_outcomes_witness:
  "(\<exists>rt. GatewayRuntime_Initialize example_upcast example_start (GatewayRuntime_init example_options) = (Inr True, rt) \<and>
      rt_serving rt \<and> rt_services rt = [''ControlPlane'', ''RdmaDataPlane''] \<and> subseq [Made MpCoordinator, Made UcxHandler] (rt_log rt)) \<and>
   (\<exists>e rt. GatewayRuntime_Initialize example_upcast (example_start\<lparr>ia_server := False\<rparr>) (GatewayRuntime_init example_options) = (Inl e, rt) \<and>
      err_code e = kInternal \<and> \<not> rt_serving rt)"
proof (intro conjI)
  have on: "go_ucx_enable example_options" by (simp add: example_options_def)
  then have parts: "MpCoordinator \<in> set (started_parts example_options)" "UcxHandler \<in> set (started_parts example_options)"
    by (simp_all add: started_parts_def)
  from initialize_outcomes [of example_options example_start example_upcast] example_accepts(1)
  obtain rt where rt: "GatewayRuntime_Initialize example_upcast example_start (GatewayRuntime_init example_options) = (Inr True, rt)"
      "rt_serving rt" "rt_alive rt = set (started_parts example_options)"
      "\<forall>p q. p \<in> rt_alive rt \<and> q \<in> uses p \<and> q \<in> rt_alive rt \<longrightarrow> subseq [Made q, Made p] (rt_log rt)"
      "rt_services rt = ''ControlPlane'' # (if go_ucx_enable example_options then [''RdmaDataPlane''] else [])" by blast
  have "subseq [Made MpCoordinator, Made UcxHandler] (rt_log rt)" using rt(3,4) parts by simp
  then show "\<exists>rt. GatewayRuntime_Initialize example_upcast example_start (GatewayRuntime_init example_options) = (Inr True, rt) \<and>
      rt_serving rt \<and> rt_services rt = [''ControlPlane'', ''RdmaDataPlane''] \<and> subseq [Made MpCoordinator, Made UcxHandler] (rt_log rt)"
    using rt on by auto
  have "(go_gds_enable example_options \<longrightarrow> ia_connected (example_start\<lparr>ia_server := False\<rparr>)) \<and>
      (go_ucx_enable example_options \<longrightarrow> ucx_accepts (ia_ucx (example_start\<lparr>ia_server := False\<rparr>)))"
    by (simp add: ucx_accepts_def example_start_def)
  then show "\<exists>e rt. GatewayRuntime_Initialize example_upcast (example_start\<lparr>ia_server := False\<rparr>) (GatewayRuntime_init example_options) = (Inl e, rt) \<and>
      err_code e = kInternal \<and> \<not> rt_serving rt"
    using initialize_outcomes [of example_options "example_start\<lparr>ia_server := False\<rparr>" example_upcast] example_accepts(2) by auto
qed

lemma example_started:
  "GatewayRuntime_Initialize example_upcast example_start (GatewayRuntime_init example_options) = (Inr True, rt) \<Longrightarrow>
   rt_alive rt = set (started_parts example_options) \<and> rt_gw rt = Some (started_gateway example_upcast example_options example_start)"
  using initialize_steps [of example_options example_start example_upcast] example_accepts(1) by (auto simp: step_to_def stage_def)

lemma example_starts: "\<exists>rt. GatewayRuntime_Initialize example_upcast example_start (GatewayRuntime_init example_options) = (Inr True, rt)"
  using initialize_steps [of example_options example_start example_upcast] example_accepts(1) by (auto simp: step_to_def)

theorem shutdown_in_order_witness:
  "\<exists>rt tr. GatewayRuntime_Initialize example_upcast example_start (GatewayRuntime_init example_options) = (Inr True, rt) \<and>
     rt_log (GatewayRuntime_Shutdown rt) = rt_log rt @ tr \<and> rt_alive (GatewayRuntime_Shutdown rt) = {} \<and>
     subseq [Halted UcxExec, Freed UcxHandler] tr \<and> subseq [Freed ControlPlane, Freed GdsExec] tr"
proof -
  obtain rt where rt: "GatewayRuntime_Initialize example_upcast example_start (GatewayRuntime_init example_options) = (Inr True, rt)"
    using example_starts by blast
  then have reach: "runtime_reach rt" using runtime_reach.initialize [OF runtime_reach.init] by (metis snd_conv)
  have on: "{UcxExec, UcxHandler, ControlPlane, GdsExec} \<subseteq> rt_alive rt"
    using example_started [OF rt] by (simp add: started_parts_def example_options_def GatewayOptions_default_def)
  from shutdown_in_order [OF reach shutdown_log(1)] rt shutdown_log(1) [of rt] on
  show ?thesis by (intro exI [of _ rt] exI [of _ "filter (due (rt_started rt) (rt_alive rt)) shutdown_order"]) auto
qed

theorem started_gateway_serves_witness:
  "\<exists>rt out s1. GatewayRuntime_Initialize example_upcast example_start (GatewayRuntime_init example_options) = (Inr True, rt) \<and>
     run_state (Client_PutObject (deployment id) example_core example_put example_source)
       (example_process\<lparr>cw := example_world\<lparr>wd_gw := started_gateway example_upcast example_options example_start\<rparr>\<rparr>) = (Inr out, s1) \<and>
     stored ''b'' ''k'' [64, 65, 66] (to_etag out) (to_version out) (wd_gw (cw s1))"
proof -
  let ?s = "example_process\<lparr>cw := example_world\<lparr>wd_gw := started_gateway example_upcast example_options example_start\<rparr>\<rparr>"
  obtain rt where rt: "GatewayRuntime_Initialize example_upcast example_start (GatewayRuntime_init example_options) = (Inr True, rt)"
    using example_starts by blast
  have gw: "rt_gw rt = Some (wd_gw (cw ?s))" using example_started [OF rt] by simp
  have "client_ready example_options example_core example_put example_source ?s"
    by (simp add: client_ready_def example_core_def example_put_def example_source_def example_process_def ClientOptions_default_def
        GdsClientOptions_default_def PutObjectRequest_default_def u64_mod_def example_options_def GatewayOptions_default_def GdsOptions_default_def)
  from started_gateway_serves [OF rt gw _ _ _ this, of id] rt
  show ?thesis
    by (simp add: example_options_def GatewayOptions_default_def example_upcast_def example_put_def PutObjectRequest_default_def)
      (fastforce simp add: example_source_def example_world_def read_mem_def upt_rec)
qed

theorem gateway_main_releases_witness:
  "\<exists>rt. gateway_main example_upcast example_start id GatewayFlags_default = (0, rt) \<and> rt_alive rt = {}"
proof -
  obtain code rt where m: "gateway_main example_upcast example_start id GatewayFlags_default = (code, rt)" by fastforce
  have "accepts (options_of_flags GatewayFlags_default) example_start"
    by (simp add: accepts_def options_of_flags_def GatewayFlags_default_def GatewayOptions_default_def example_start_def)
  then show ?thesis using gateway_main_releases [OF m] m by blast
qed

end
