(* ===== verification/Proxy.thy ===== *)
theory Proxy
  imports Rpc_Messages "HOL-Library.AList"
begin

text \<open>
  The proxy (\<^verbatim>\<open>proxy/src\<close>): a control plane that hands out sessions for GDS uploads to a separate data backend and
  answers, once the backend has reported, with the etag of the upload. \<^verbatim>\<open>session/session_manager.cpp\<close> keeps the sessions,
  \<^verbatim>\<open>service/proxy_control_plane_service.cpp\<close> holds the RPC handlers. A handler returns the code and the text given to
  \<^verbatim>\<open>SetFailed\<close>, or the response. The unordered map of sessions is an association list, in the order of a scan over it;
  the lemmas show that no result depends on that order.
\<close>

section \<open>Error codes\<close>

definition PROXY_ERR_INVALID_PARAM :: int where "PROXY_ERR_INVALID_PARAM = 10001"
definition PROXY_ERR_SESSION_EXPIRED :: int where "PROXY_ERR_SESSION_EXPIRED = 11001"
definition PROXY_ERR_SESSION_NOT_FOUND :: int where "PROXY_ERR_SESSION_NOT_FOUND = 11002"
definition PROXY_ERR_BACKEND_UNAVAILABLE :: int where "PROXY_ERR_BACKEND_UNAVAILABLE = 12001"
definition PROXY_ERR_BACKEND_RPC :: int where "PROXY_ERR_BACKEND_RPC = 12002"
definition PROXY_ERR_UNSUPPORTED_PATH :: int where "PROXY_ERR_UNSUPPORTED_PATH = 13001"
definition PROXY_ERR_NOT_IMPLEMENTED :: int where "PROXY_ERR_NOT_IMPLEMENTED = 90001"

definition ErrorMessage :: "int \<Rightarrow> string" where
  "ErrorMessage code =
     (if code = PROXY_ERR_INVALID_PARAM then ''invalid parameter''
      else if code = PROXY_ERR_SESSION_EXPIRED then ''session expired''
      else if code = PROXY_ERR_SESSION_NOT_FOUND then ''session not found''
      else if code = PROXY_ERR_BACKEND_UNAVAILABLE then ''no backend available''
      else if code = PROXY_ERR_BACKEND_RPC then ''backend rpc failed''
      else if code = PROXY_ERR_UNSUPPORTED_PATH then ''unsupported data_flow''
      else if code = PROXY_ERR_NOT_IMPLEMENTED then ''not implemented in proxy v1''
      else ''unknown error'')"

type_synonym 'r prpc = "(int \<times> string) + 'r"

section \<open>Session manager\<close>

datatype PStatus = kPending | kCompleted | kFailed

record PSession =
  px_session_id :: string
  px_ticket :: string
  px_expire_at :: string
  px_bucket :: string
  px_object_key :: string
  px_expected_size :: nat
  px_status :: PStatus
  px_etag :: string
  px_crc32c :: "32 word"
  px_bytes_transferred :: nat

record SessionManager =
  sm_ttl_sec :: int
  sm_seq :: nat
  sm_sessions :: "(string \<times> PSession) list"

definition SessionManager_init :: "int \<Rightarrow> SessionManager" where
  "SessionManager_init ttl_sec = \<lparr>sm_ttl_sec = ttl_sec, sm_seq = 0, sm_sessions = []\<rparr>"

definition CreateSession :: "int \<Rightarrow> string \<Rightarrow> string \<Rightarrow> string \<Rightarrow> nat \<Rightarrow> SessionManager \<Rightarrow> PSession \<times> SessionManager" where
  "CreateSession now session_id_hint bucket object_key expected_size sm =
     (let (sid, sm) = (if session_id_hint \<noteq> [] then (session_id_hint, sm)
                       else (''pxs-'' @ dec (sm_seq sm), sm\<lparr>sm_seq := u64_add (sm_seq sm) 1\<rparr>));
          s = \<lparr>px_session_id = sid, px_ticket = ''tkt-'' @ sid, px_expire_at = format_utc (now + sm_ttl_sec sm),
               px_bucket = bucket, px_object_key = object_key, px_expected_size = expected_size, px_status = kPending,
               px_etag = [], px_crc32c = 0, px_bytes_transferred = 0\<rparr> in
      (s, sm\<lparr>sm_sessions := AList.update sid s (sm_sessions sm)\<rparr>))"

definition CompleteSession :: "string \<Rightarrow> string \<Rightarrow> 32 word \<Rightarrow> nat \<Rightarrow> SessionManager \<Rightarrow> bool \<times> SessionManager" where
  "CompleteSession sid tag crc nbytes sm =
     (case map_of (sm_sessions sm) sid of
        None \<Rightarrow> (False, sm)
      | Some s \<Rightarrow> (True, sm\<lparr>sm_sessions := AList.update sid
            (s\<lparr>px_status := kCompleted, px_etag := tag, px_crc32c := crc, px_bytes_transferred := nbytes\<rparr>) (sm_sessions sm)\<rparr>))"

definition GetSession :: "string \<Rightarrow> SessionManager \<Rightarrow> PSession option" where
  "GetSession sid sm = map_of (sm_sessions sm) sid"

definition GetCompletedSession :: "string \<Rightarrow> SessionManager \<Rightarrow> PSession option" where
  "GetCompletedSession t sm = find (\<lambda>s. px_ticket s = t \<and> px_status s = kCompleted) (map snd (sm_sessions sm))"

section \<open>Control plane\<close>

record Proxy =
  px_gateway_id :: string
  px_backend_endpoint :: string
  px_mgr :: SessionManager

definition kGdsDataPath :: string where "kGdsDataPath = ''gds-cuobject''"
definition kOpTypePut :: string where "kOpTypePut = ''PUT''"

definition Proxy_OpenSession :: "int \<Rightarrow> OpenSessionRequest \<Rightarrow> Proxy \<Rightarrow> OpenSessionResponse prpc \<times> Proxy" where
  "Proxy_OpenSession now q px =
     (if osr_data_flow q \<noteq> kGdsDataPath then
        (Inl (PROXY_ERR_UNSUPPORTED_PATH, ''proxy v1 only accepts data_flow=gds-cuobject, got: '' @ osr_data_flow q), px)
      else if osr_op_type q \<noteq> kOpTypePut then
        (Inl (PROXY_ERR_UNSUPPORTED_PATH, ''proxy v1 only accepts op_type=PUT, got: '' @ osr_op_type q), px)
      else if osr_is_multipart_part q then
        (Inl (PROXY_ERR_INVALID_PARAM, ''proxy v1 does not support multipart part sessions''), px)
      else if osr_bucket q = [] \<or> osr_object_key q = [] then
        (Inl (PROXY_ERR_INVALID_PARAM, ''missing bucket or object_key''), px)
      else if osr_expected_size q = 0 then
        (Inl (PROXY_ERR_INVALID_PARAM, ''expected_size must be > 0 for GDS PUT''), px)
      else
        let (s, sm) = CreateSession now (osr_session_id q) (osr_bucket q) (osr_object_key q) (osr_expected_size q) (px_mgr px) in
        (Inr \<lparr>osp_request_id = osr_request_id q, osp_session_id = px_session_id s, osp_ticket = px_ticket s,
              osp_gateway_id = px_gateway_id px, osp_data_endpoint = px_backend_endpoint px, osp_expire_at = px_expire_at s\<rparr>,
         px\<lparr>px_mgr := sm\<rparr>))"

definition ReportGdsPut :: "ReportGdsPutRequest \<Rightarrow> Proxy \<Rightarrow> bool \<times> Proxy" where
  "ReportGdsPut q px =
     (let (accepted, sm) = CompleteSession (rgr_session_id q) (rgr_etag q) (rgr_crc32c q) (rgr_bytes_transferred q) (px_mgr px) in
      (accepted, px\<lparr>px_mgr := sm\<rparr>))"

text \<open>The upload id of the request carries the ticket; of the response only the etag is set.\<close>

definition Proxy_CompleteUpload :: "CompleteUploadRequest \<Rightarrow> Proxy \<Rightarrow> CompleteUploadResponse prpc" where
  "Proxy_CompleteUpload q px =
     (case GetCompletedSession (cur_upload_id q) (px_mgr px) of
        None \<Rightarrow> Inl (PROXY_ERR_SESSION_NOT_FOUND, ''session not found or not yet completed'')
      | Some s \<Rightarrow> Inr \<lparr>cup_etag = px_etag s, cup_version = [], cup_content_length = 0\<rparr>)"

definition not_implemented :: "'r prpc" where
  "not_implemented = Inl (PROXY_ERR_NOT_IMPLEMENTED, ErrorMessage PROXY_ERR_NOT_IMPLEMENTED)"

definition Proxy_HeadObject :: "string \<Rightarrow> string \<Rightarrow> HeadObjectResponse prpc" where
  "Proxy_HeadObject bucket key = not_implemented"

definition Proxy_GdsGet :: "GdsChunkRequest \<Rightarrow> GdsChunkResponse prpc" where
  "Proxy_GdsGet q = not_implemented"

definition Proxy_GdsPut :: "GdsChunkRequest \<Rightarrow> GdsChunkResponse prpc" where
  "Proxy_GdsPut q = not_implemented"

definition Proxy_AbortSession :: "string \<Rightarrow> bool prpc" where
  "Proxy_AbortSession sid = not_implemented"

definition Proxy_StartUpload :: "StartUploadRequest \<Rightarrow> StartUploadResponse prpc" where
  "Proxy_StartUpload q = not_implemented"

definition Proxy_AbortUpload :: "string \<Rightarrow> string \<Rightarrow> unit prpc" where
  "Proxy_AbortUpload upload_id data_flow = not_implemented"

section \<open>The ledger of uploads\<close>

text \<open>What the proxy promises, without sessions, tickets and tables: a ledger with the uploads that were opened and,
  for those reported, the etag.\<close>

type_synonym ledger = "string \<rightharpoonup> string option"

datatype px_event = Opened OpenSessionRequest int | Reported ReportGdsPutRequest

fun ledger_step :: "px_event \<Rightarrow> string \<Rightarrow> ledger \<Rightarrow> ledger" where
  "ledger_step (Opened q now) sid l = l(sid \<mapsto> None)"
| "ledger_step (Reported q) sid l = (if rgr_session_id q \<in> dom l then l(rgr_session_id q \<mapsto> Some (rgr_etag q)) else l)"

definition ledger_etag :: "string \<Rightarrow> ledger \<Rightarrow> string option" where
  "ledger_etag t l = (if take 4 t = ''tkt-'' then (case l (drop 4 t) of Some (Some e) \<Rightarrow> Some e | _ \<Rightarrow> None) else None)"

fun proxy_step :: "px_event \<Rightarrow> Proxy \<Rightarrow> Proxy" where
  "proxy_step (Opened q now) px = snd (Proxy_OpenSession now q px)"
| "proxy_step (Reported q) px = snd (ReportGdsPut q px)"

definition sessions_wf :: "(string \<times> PSession) list \<Rightarrow> bool" where
  "sessions_wf xs \<longleftrightarrow> distinct (map fst xs) \<and>
     (\<forall>(k, s) \<in> set xs. px_session_id s = k \<and> px_ticket s = ''tkt-'' @ k \<and> px_status s \<noteq> kFailed)"

definition ledger_of :: "Proxy \<Rightarrow> ledger" where
  "ledger_of px = map_option (\<lambda>s. if px_status s = kCompleted then Some (px_etag s) else None) \<circ> map_of (sm_sessions (px_mgr px))"

inductive proxy_reach :: "Proxy \<Rightarrow> bool" where
  start: "proxy_reach \<lparr>px_gateway_id = g, px_backend_endpoint = e, px_mgr = SessionManager_init ttl\<rparr>"
| step: "proxy_reach px \<Longrightarrow> proxy_reach (proxy_step ev px)"

lemma sessions_wf_update:
  assumes "sessions_wf xs" "px_session_id s = k" "px_ticket s = ''tkt-'' @ k" "px_status s \<noteq> kFailed"
  shows "sessions_wf (AList.update k s xs)"
proof -
  have "(k', s') \<in> set (AList.update k s xs) \<Longrightarrow> (k', s') = (k, s) \<or> (k', s') \<in> set xs" for k' s'
    by (induction xs) (auto split: if_splits)
  then show ?thesis using assms by (fastforce simp: sessions_wf_def distinct_update)
qed

lemma sessions_wf_lookup:
  "sessions_wf xs \<Longrightarrow> map_of xs k = Some s \<Longrightarrow> px_session_id s = k \<and> px_ticket s = ''tkt-'' @ k \<and> px_status s \<noteq> kFailed"
  using map_of_SomeD by (fastforce simp: sessions_wf_def)

lemma proxy_step_wf:
  assumes "sessions_wf (sm_sessions (px_mgr px))"
  shows "sessions_wf (sm_sessions (px_mgr (proxy_step ev px)))"
proof (cases ev)
  case (Opened q now)
  then show ?thesis
    using assms by (auto simp: Proxy_OpenSession_def CreateSession_def Let_def intro!: sessions_wf_update)
next
  case (Reported q)
  then show ?thesis
    using assms sessions_wf_lookup [OF assms]
    by (auto simp: ReportGdsPut_def CompleteSession_def Let_def split: option.split intro!: sessions_wf_update)
qed

lemma proxy_reach_wf: "proxy_reach px \<Longrightarrow> sessions_wf (sm_sessions (px_mgr px))"
proof (induction rule: proxy_reach.induct)
  case (start g e ttl)
  then show ?case by (simp add: SessionManager_init_def sessions_wf_def)
qed (rule proxy_step_wf)

text \<open>The scan over the tickets finds the session of the ticket, in whatever order the map is traversed.\<close>

lemma completed_lookup:
  assumes "sessions_wf xs"
  shows "find (\<lambda>s. px_ticket s = t \<and> px_status s = kCompleted) (map snd xs) =
    (if take 4 t = ''tkt-'' then (case map_of xs (drop 4 t) of Some s \<Rightarrow> if px_status s = kCompleted then Some s else None | None \<Rightarrow> None)
     else None)"
  using assms
proof (induction xs)
  case (Cons p xs)
  obtain k s where p: "p = (k, s)" by (cases p)
  have wf: "sessions_wf xs" and s: "px_ticket s = ''tkt-'' @ k" and k: "k \<notin> fst ` set xs"
    using Cons(2) by (auto simp: p sessions_wf_def)
  have "map_of xs k = None" using k by (simp add: map_of_eq_None_iff)
  moreover have "''tkt-'' @ k = t \<longleftrightarrow> take 4 t = ''tkt-'' \<and> drop 4 t = k" by (metis append_eq_conv_conj append_take_drop_id length_Cons list.size(3) numeral_eq_Suc pred_numeral_simps(1,2,3) BitM.simps(1,2))
  ultimately show ?case using Cons(1) [OF wf] s by (auto simp: p)
qed (simp split: option.split)

lemma GetCompletedSession_lookup:
  assumes "sessions_wf (sm_sessions (px_mgr px))"
  shows "map_option px_etag (GetCompletedSession t (px_mgr px)) = ledger_etag t (ledger_of px)"
  unfolding GetCompletedSession_def completed_lookup [OF assms]
  by (auto simp: ledger_etag_def ledger_of_def split: option.splits)

lemma open_ledger:
  assumes "Proxy_OpenSession now q px = (Inr r, px')"
  shows "ledger_of px' = (ledger_of px)(osp_session_id r \<mapsto> None)" "osp_ticket r = ''tkt-'' @ osp_session_id r"
    "osp_session_id r = (if osr_session_id q \<noteq> [] then osr_session_id q else ''pxs-'' @ dec (sm_seq (px_mgr px)))"
  using assms by (auto simp: Proxy_OpenSession_def CreateSession_def Let_def ledger_of_def update_conv fun_eq_iff
      simp del: map_option_eq_Some split: if_splits)

lemma report_ledger:
  assumes "ReportGdsPut p px = (accepted, px')"
  shows "accepted = (rgr_session_id p \<in> dom (ledger_of px))"
    "ledger_of px' = (if accepted then (ledger_of px)(rgr_session_id p \<mapsto> Some (rgr_etag p)) else ledger_of px)"
  using assms
  by (auto simp: ReportGdsPut_def CompleteSession_def Let_def ledger_of_def update_conv fun_eq_iff dom_def split: option.splits)

lemma complete_ledger:
  assumes "proxy_reach px"
  shows "Proxy_CompleteUpload c px =
     (case ledger_etag (cur_upload_id c) (ledger_of px) of
        None \<Rightarrow> Inl (PROXY_ERR_SESSION_NOT_FOUND, ''session not found or not yet completed'')
      | Some e \<Rightarrow> Inr \<lparr>cup_etag = e, cup_version = [], cup_content_length = 0\<rparr>)"
  using GetCompletedSession_lookup [OF proxy_reach_wf [OF assms], of "cur_upload_id c"]
  by (cases "GetCompletedSession (cur_upload_id c) (px_mgr px)") (auto simp: Proxy_CompleteUpload_def dest: sym)



text \<open>An identifier the proxy generates can be one a client chose: nothing reserves the prefix \<^verbatim>\<open>pxs-\<close>. The later session
  then takes the place of the earlier one, and a completed upload is forgotten.\<close>

theorem generated_id_overwrites:
  assumes "sm_seq (px_mgr px) = n" "sid = ''pxs-'' @ dec n" "ledger_of px sid = Some (Some e)"
    and "osr_session_id q = []" "Proxy_OpenSession now q px = (Inr r, px')"
  shows "osp_session_id r = sid \<and> ledger_of px' sid = Some None"
  using open_ledger [OF assms(5)] assms(1,2,4) by simp

end
