(* ===== verification/Backend_Sink.thy ===== *)
theory Backend_Sink
  imports Proxy Gds_Executor
begin

text \<open>
  The data backend (\<^verbatim>\<open>backend/src\<close>): \<^verbatim>\<open>backend_gds_sink.cpp\<close> pulls the bytes of an upload into a pinned buffer, computes
  their CRC-32C and discards them; \<^verbatim>\<open>backend_data_plane_service.cpp\<close> is the RPC in front of it, which reports a finished
  upload to the proxy. The pinned buffer pool, the CRC and the answers of the RDMA server are those of the gateway's GDS executor.
\<close>

section \<open>The sink\<close>

definition kMaxChunkBytes :: nat where "kMaxChunkBytes = 1024 * 1024 * 1024"

definition BufferSizeClasses :: "nat list" where
  "BufferSizeClasses = [1024 * 1024, 16 * 1024 * 1024, 256 * 1024 * 1024, 1024 * 1024 * 1024]"

definition kBufferMaxPerClass :: nat where "kBufferMaxPerClass = 4"

record DiscardOutcome =
  dc_ok :: bool
  dc_error :: string
  dc_bytes_transferred :: nat
  dc_crc32c :: "32 word"

record BackendGdsSink =
  bs_bind_host :: string
  bs_rdma_port :: int
  bs_server :: bool
  bs_pool :: "PinnedBufferPool option"
  bs_channels :: "nat multiset"

definition BackendGdsSink_init :: "string \<Rightarrow> int \<Rightarrow> BackendGdsSink" where
  "BackendGdsSink_init host port =
     \<lparr>bs_bind_host = host, bs_rdma_port = port, bs_server = False, bs_pool = None, bs_channels = {#}\<rparr>"

definition Sink_Start :: "bool \<Rightarrow> BackendGdsSink \<Rightarrow> bool \<times> BackendGdsSink" where
  "Sink_Start connected k =
     (if \<not> connected then (False, k)
      else (True, k\<lparr>bs_server := True, bs_pool := Some (PinnedBufferPool_init BufferSizeClasses kBufferMaxPerClass)\<rparr>))"

text \<open>The pool is shut down while the server is alive; its final state is returned beside the sink.\<close>

definition Sink_Stop :: "BackendGdsSink \<Rightarrow> PinnedBufferPool option \<times> BackendGdsSink" where
  "Sink_Stop k = (map_option Pool_Shutdown (bs_pool k), k\<lparr>bs_pool := None, bs_server := False\<rparr>)"

definition Sink_available :: "bool \<Rightarrow> BackendGdsSink \<Rightarrow> bool" where
  "Sink_available connected k \<longleftrightarrow> bs_server k \<and> connected"

definition discard_error :: "string \<Rightarrow> DiscardOutcome" where
  "discard_error e = \<lparr>dc_ok = False, dc_error = e, dc_bytes_transferred = 0, dc_crc32c = 0\<rparr>"

definition sink_take :: "CuAnswers \<Rightarrow> nat \<Rightarrow> BackendGdsSink \<Rightarrow> PinnedBufferLease \<times> BackendGdsSink" where
  "sink_take a len k =
     (case bs_pool k of
        None \<Rightarrow> (empty_lease, k)
      | Some p \<Rightarrow> let (l, p) = Acquire (ca_alloc a) (ca_reg a) len p in (l, k\<lparr>bs_pool := Some p\<rparr>))"

definition sink_drop :: "PinnedBufferLease \<Rightarrow> BackendGdsSink \<Rightarrow> BackendGdsSink" where
  "sink_drop l k = k\<lparr>bs_pool := map_option (\<lambda>p. snd (Lease_Release l p)) (bs_pool k)\<rparr>"

text \<open>The guard of the channel and the lease are destroyed in this order on every return after they were obtained.\<close>

definition ReceiveAndDiscard ::
  "CuAnswers \<Rightarrow> string \<Rightarrow> string \<Rightarrow> nat \<Rightarrow> BackendGdsSink \<Rightarrow> DiscardOutcome \<times> BackendGdsSink" where
  "ReceiveAndDiscard a object_id rdma_token len k =
     (if len > kMaxChunkBytes then (discard_error ''GDS PUT chunk exceeds 1 GiB cuObjServer limit'', k)
      else if len = 0 then (\<lparr>dc_ok = True, dc_error = [], dc_bytes_transferred = 0, dc_crc32c = 0\<rparr>, k)
      else
        let (lease, k) = sink_take a len k in
        if \<not> lease_ok lease then (discard_error ''cuObjServer pinned buffer alloc failed'', sink_drop lease k)
        else
          (case ca_channel a of
             None \<Rightarrow> (discard_error ''cuObjServer allocateChannelId failed'', sink_drop lease k)
           | Some channel \<Rightarrow>
               let k = k\<lparr>bs_channels := add_mset channel (bs_channels k)\<rparr>;
                   released = sink_drop lease (k\<lparr>bs_channels := bs_channels k - {#channel#}\<rparr>) in
               if ca_transferred a < 0
               then (discard_error (''cuObjServer handlePutObject failed: '' @ ca_status a), released)
               else
                 let nbytes = nat (ca_transferred a) in
                 (\<lparr>dc_ok = True, dc_error = [], dc_bytes_transferred = nbytes,
                   dc_crc32c = Crc32c (take nbytes (ca_received a))\<rparr>, released)))"

section \<open>The data plane service\<close>

definition BuildEtag :: "32 word \<Rightarrow> string" where
  "BuildEtag crc = zero_pad 8 (hex (unat crc))"

definition kNotImplemented :: string where "kNotImplemented = ''backend v1: only single-object GdsPut''"

record BackendDataPlaneService =
  bk_sink :: BackendGdsSink
  bk_gateway_id :: string
  bk_proxy_stub :: bool

text \<open>The constructor; \<^verbatim>\<open>init_ok\<close> tells whether the channel to a configured proxy could be initialised.\<close>

definition BackendDataPlaneService_init :: "bool \<Rightarrow> BackendGdsSink \<Rightarrow> string \<Rightarrow> string \<Rightarrow> BackendDataPlaneService" where
  "BackendDataPlaneService_init init_ok k gateway proxy_endpoint =
     \<lparr>bk_sink = k, bk_gateway_id = gateway, bk_proxy_stub = (proxy_endpoint \<noteq> [] \<and> init_ok)\<rparr>"

definition object_id_of :: "GdsChunkRequest \<Rightarrow> string" where
  "object_id_of q = gcr_bucket q @ ''/'' @ gcr_object_key q"

text \<open>\<^verbatim>\<open>reached\<close> tells whether the notification arrives at the proxy; its outcome is only logged.\<close>

definition Backend_GdsPut ::
  "CuAnswers \<Rightarrow> bool \<Rightarrow> GdsChunkRequest \<Rightarrow> BackendDataPlaneService \<times> Proxy
   \<Rightarrow> GdsChunkResponse rpc \<times> BackendDataPlaneService \<times> Proxy" where
  "Backend_GdsPut a reached q sys =
     (let (bk, px) = sys in
      if gcr_upload_id q \<noteq> [] then (Inl kNotImplemented, bk, px)
      else if gcr_rdma_token q = [] then (Inl ''backend v1: missing rdma_token for GdsPut'', bk, px)
      else if \<not> Sink_available (ca_connected a) (bk_sink bk) then (Inl ''backend v1: cuObjServer not available'', bk, px)
      else
        let (out, k) = ReceiveAndDiscard a (object_id_of q) (gcr_rdma_token q) (gcr_chunk_size q) (bk_sink bk);
            bk = bk\<lparr>bk_sink := k\<rparr> in
        if \<not> dc_ok out then (Inl (''backend v1: '' @ dc_error out), bk, px)
        else
          let tag = BuildEtag (dc_crc32c out);
              px = (if bk_proxy_stub bk \<and> reached
                    then snd (ReportGdsPut \<lparr>rgr_session_id = gcr_session_id q, rgr_etag = tag, rgr_crc32c = dc_crc32c out,
                                rgr_bytes_transferred = dc_bytes_transferred out\<rparr> px)
                    else px) in
          (Inr \<lparr>gcp_selected_gateway = [], gcp_gateway_id = [], gcp_transfer_status = [], gcp_rdma_reply = [], gcp_etag = tag,
                gcp_version = [], gcp_crc32c = 0, gcp_bytes_received = dc_bytes_transferred out\<rparr>, bk, px))"

definition backend_stub :: "'r rpc" where "backend_stub = Inl kNotImplemented"

definition Backend_OpenSession :: "OpenSessionRequest \<Rightarrow> OpenSessionResponse rpc" where "Backend_OpenSession q = backend_stub"
definition Backend_HeadObject :: "string \<Rightarrow> string \<Rightarrow> HeadObjectResponse rpc" where "Backend_HeadObject b k = backend_stub"
definition Backend_GdsGet :: "GdsChunkRequest \<Rightarrow> GdsChunkResponse rpc" where "Backend_GdsGet q = backend_stub"
definition Backend_AbortSession :: "string \<Rightarrow> bool rpc" where "Backend_AbortSession sid = backend_stub"
definition Backend_StartUpload :: "StartUploadRequest \<Rightarrow> StartUploadResponse rpc" where "Backend_StartUpload q = backend_stub"
definition Backend_CompleteUpload :: "CompleteUploadRequest \<Rightarrow> CompleteUploadResponse rpc" where "Backend_CompleteUpload q = backend_stub"
definition Backend_AbortUpload :: "string \<Rightarrow> string \<Rightarrow> unit rpc" where "Backend_AbortUpload uid f = backend_stub"

section \<open>Nothing is kept\<close>

definition sink_wf :: "BackendGdsSink \<Rightarrow> bool" where
  "sink_wf k \<longleftrightarrow> (\<forall>p. bs_pool k = Some p \<longrightarrow> (pool_reach p [])) \<and> bs_channels k = {#}"

lemma Acquire_lease:
  assumes "pool_wf p" "Acquire alloc reg len p = (l, p')"
  shows "lease_data l = None \<or> lease_ok l"
proof -
  let ?i = "PickClass len p"
  have "cb_mr (last (buckets p ! ?i)) \<noteq> None" if "?i \<noteq> length (size_classes p)" "buckets p ! ?i \<noteq> []"
  proof -
    have "?i < length (buckets p)" using assms(1) that(1) PickClass_spec(1) [of len p] by (simp add: pool_wf_def)
    then show ?thesis using assms(1) last_in_set [OF that(2)] by (auto simp: pool_wf_def)
  qed
  then show ?thesis using assms(2)
    by (auto simp: Acquire_def Let_def alloc_registered_def empty_lease_def lease_ok_def split: if_splits option.splits)
qed

lemma take_drop_reach:
  assumes "pool_reach p []" "Acquire alloc reg len p = (l, p')"
  shows "pool_reach (snd (Lease_Release l p')) []"
proof (cases "lease_ok l")
  case True
  then show ?thesis using pool_reach.acquire [OF assms] pool_reach.release [of p' "[]" l "[]"] by simp
next
  case False
  have "pool_wf p" using pool_reach_ok [OF assms(1)] by simp
  from Acquire_lease [OF this assms(2)] False pool_reach.acquire [OF assms] show ?thesis by (simp add: Lease_Release_def)
qed

lemma ReceiveAndDiscard_wf:
  assumes "sink_wf k" "ReceiveAndDiscard a obj tok len k = (out, k')"
  shows "sink_wf k' \<and> bs_server k' = bs_server k"
  using assms take_drop_reach
  by (fastforce simp: sink_wf_def ReceiveAndDiscard_def sink_take_def sink_drop_def Let_def empty_lease_def Lease_Release_def
      split: if_splits option.splits prod.splits)

lemma ReceiveAndDiscard_ok:
  assumes "ReceiveAndDiscard a obj tok len k = (out, k')" "dc_ok out" "0 < len"
  shows "0 \<le> ca_transferred a" "dc_bytes_transferred out = nat (ca_transferred a)"
    "dc_crc32c out = Crc32c (take (nat (ca_transferred a)) (ca_received a))"
  using assms by (auto simp: ReceiveAndDiscard_def discard_error_def Let_def split: if_splits option.splits prod.splits)

section \<open>An upload through proxy and backend\<close>

text \<open>Events at the proxy that concern other sessions.\<close>

fun foreign :: "string \<Rightarrow> px_event \<Rightarrow> Proxy \<Rightarrow> bool" where
  "foreign sid (Opened q now) px \<longleftrightarrow>
     (if osr_session_id q \<noteq> [] then osr_session_id q \<noteq> sid else ''pxs-'' @ dec (sm_seq (px_mgr px)) \<noteq> sid)"
| "foreign sid (Reported p) px \<longleftrightarrow> rgr_session_id p \<noteq> sid"

inductive meanwhile :: "string \<Rightarrow> Proxy \<Rightarrow> Proxy \<Rightarrow> bool" for sid where
  idle: "meanwhile sid px px"
| event: "meanwhile sid px px1 \<Longrightarrow> foreign sid ev px1 \<Longrightarrow> meanwhile sid px (proxy_step ev px1)"

lemma meanwhile_ledger:
  assumes "meanwhile sid px px'" "proxy_reach px"
  shows "ledger_of px' sid = ledger_of px sid \<and> proxy_reach px'"
  using assms
proof (induction rule: meanwhile.induct)
  case (event px px1 ev)
  have "ledger_of (proxy_step ev px1) sid = ledger_of px1 sid"
  proof (cases ev)
    case (Opened q now)
    obtain r px2 where o: "Proxy_OpenSession now q px1 = (r, px2)" by fastforce
    show ?thesis
    proof (cases r)
      case (Inl e)
      then show ?thesis using o Opened by (auto simp: Proxy_OpenSession_def Let_def split: if_splits prod.splits)
    next
      case (Inr v)
      then show ?thesis using o Opened event(2) open_ledger(1,3) [OF o [unfolded Inr]] by (simp split: if_splits)
    qed
  next
    case (Reported p)
    obtain b px2 where o: "ReportGdsPut p px1 = (b, px2)" by fastforce
    then show ?thesis using Reported event(2) report_ledger(2) [OF o] by simp
  qed
  then show ?case using event by (simp add: proxy_reach.step)
qed simp

lemma Backend_GdsPut_ok:
  assumes "Backend_GdsPut a reached q (bk, px) = (Inr resp, bk', px')" "0 < gcr_chunk_size q"
  shows "gcp_etag resp = BuildEtag (Crc32c (take (nat (ca_transferred a)) (ca_received a)))"
    "gcp_bytes_received resp = nat (ca_transferred a)"
    "px' = (if bk_proxy_stub bk \<and> reached then snd (ReportGdsPut \<lparr>rgr_session_id = gcr_session_id q, rgr_etag = gcp_etag resp,
       rgr_crc32c = Crc32c (take (nat (ca_transferred a)) (ca_received a)), rgr_bytes_transferred = nat (ca_transferred a)\<rparr> px) else px)"
  using assms ReceiveAndDiscard_ok
  by (auto simp: Backend_GdsPut_def Let_def split: if_splits prod.splits)

text \<open>C38: an upload through the proxy ends with the CRC of its bytes. After the proxy has opened a session, the backend has
  accepted the chunk with that session's identifier after reading all its bytes, and the notification has arrived, then, whatever other
  sessions do in between, \<^verbatim>\<open>CompleteUpload\<close> with the ticket of the session returns the etag the backend answered, the
  eight-digit hexadecimal CRC-32C of the bytes; before the notification it is refused as not completed. The backend keeps no channel and no lease.\<close>

theorem proxied_upload_etag:
  assumes "proxy_reach px" "Proxy_OpenSession now q px = (Inr r, px1)" "meanwhile (osp_session_id r) px1 px2"
    and "gcr_session_id g = osp_session_id r" "gcr_chunk_size g = length data" "data \<noteq> []"
    and "ca_transferred a = int (length data)" "take (length data) (ca_received a) = data"
    and "sink_wf (bk_sink bk)" "bk_proxy_stub bk" "Backend_GdsPut a True g (bk, px2) = (Inr resp, bk', px3)"
    and "meanwhile (osp_session_id r) px3 px4" "cur_upload_id c = osp_ticket r"
  shows "Proxy_CompleteUpload c px4 = Inr \<lparr>cup_etag = BuildEtag (Crc32c data), cup_version = [], cup_content_length = 0\<rparr> \<and>
    gcp_etag resp = BuildEtag (Crc32c data) \<and> gcp_bytes_received resp = length data \<and>
    (\<exists>e. Proxy_CompleteUpload c px2 = Inl e) \<and> sink_wf (bk_sink bk')"
proof -
  let ?sid = "osp_session_id r"
  note op = open_ledger [OF assms(2)]
  have r1: "proxy_reach px1" using proxy_reach.step [OF assms(1), of "Opened q now"] assms(2) by simp
  have l2: "ledger_of px2 ?sid = Some None" "proxy_reach px2" using meanwhile_ledger [OF assms(3) r1] op(1) by simp_all
  have pos: "0 < gcr_chunk_size g" using assms(5,6) by simp
  note put = Backend_GdsPut_ok [OF assms(11) pos]
  let ?p = "\<lparr>rgr_session_id = ?sid, rgr_etag = gcp_etag resp, rgr_crc32c = Crc32c data, rgr_bytes_transferred = length data\<rparr>"
  have tag: "gcp_etag resp = BuildEtag (Crc32c data)" "gcp_bytes_received resp = length data" using put(1,2) assms(7,8) by simp_all
  have px3: "px3 = snd (ReportGdsPut ?p px2)" using put(3) assms(4,7,8,10) by simp
  have r3: "proxy_reach px3" using proxy_reach.step [OF l2(2), of "Reported ?p"] px3 by simp
  obtain acc px' where rep: "ReportGdsPut ?p px2 = (acc, px')" by fastforce
  have "ledger_of px3 ?sid = Some (Some (gcp_etag resp))"
    using report_ledger [OF rep] rep px3 l2(1) by (auto simp: dom_def)
  with meanwhile_ledger [OF assms(12) r3] have l4: "ledger_of px4 ?sid = Some (Some (gcp_etag resp))" "proxy_reach px4" by simp_all
  have sid: "take 4 (cur_upload_id c) = ''tkt-''" "drop 4 (cur_upload_id c) = ?sid" using op(2) assms(13) by simp_all
  have "sink_wf (bk_sink bk')"
    using assms(9,11) ReceiveAndDiscard_wf by (fastforce simp: Backend_GdsPut_def Let_def split: if_splits prod.splits)
  then show ?thesis
    using complete_ledger [OF l4(2), of c] complete_ledger [OF l2(2), of c] sid l4(1) l2(1) tag by (simp add: ledger_etag_def)
qed

section \<open>Examples\<close>

definition example_proxy :: Proxy where
  "example_proxy = \<lparr>px_gateway_id = ''proxy-0'', px_backend_endpoint = ''10.0.0.1:9200'', px_mgr = SessionManager_init 300\<rparr>"

definition example_open :: OpenSessionRequest where
  "example_open =
     \<lparr>osr_request_id = [], osr_session_id = [], osr_bucket = ''b'', osr_object_key = ''k'', osr_op_type = ''PUT'',
      osr_data_flow = ''gds-cuobject'', osr_buffer_type = [], osr_offset = 0, osr_expected_size = 3, osr_idempotency_key = [],
      osr_is_multipart_part = False\<rparr>"

definition example_backend :: BackendDataPlaneService where
  "example_backend = BackendDataPlaneService_init True (snd (Sink_Start True (BackendGdsSink_init ''0.0.0.0'' 18516))) ''backend-0'' ''proxy:9100''"

definition example_chunk :: GdsChunkRequest where
  "example_chunk =
     \<lparr>gcr_request_id = [], gcr_session_id = ''pxs-0'', gcr_transfer_ticket = [], gcr_bucket = ''b'', gcr_object_key = ''k'',
      gcr_data_flow = [], gcr_buffer_type = [], gcr_checksum_policy = [], gcr_chunk_offset = 0, gcr_chunk_size = 3,
      gcr_rdma_token = ''10:x'', gcr_extra_headers = Map.empty, gcr_upload_id = [], gcr_part_number = 0\<rparr>"

lemma example_sink_wf: "sink_wf (bk_sink example_backend)"
  by (simp add: sink_wf_def example_backend_def BackendDataPlaneService_init_def Sink_Start_def BackendGdsSink_init_def pool_reach.init)

lemma example_lease:
  "\<exists>l k. sink_take (example_answers [1, 2, 3]) 3 (bk_sink example_backend) = (l, k) \<and> lease_ok l"
  by (simp add: sink_take_def example_backend_def BackendDataPlaneService_init_def Sink_Start_def BackendGdsSink_init_def
      example_answers_def pool_evals BufferSizeClasses_def lease_ok_def)

theorem proxied_upload_etag_witness:
  "\<exists>r px1 resp bk' px3. Proxy_OpenSession 0 example_open example_proxy = (Inr r, px1) \<and>
     Backend_GdsPut (example_answers [1, 2, 3]) True example_chunk (example_backend, px1) = (Inr resp, bk', px3) \<and>
     Proxy_CompleteUpload \<lparr>cur_upload_id = osp_ticket r, cur_parts = [], cur_data_flow = []\<rparr> px3 =
       Inr \<lparr>cup_etag = BuildEtag (Crc32c [1, 2, 3]), cup_version = [], cup_content_length = 0\<rparr>"
proof -
  let ?a = "example_answers [1, 2, 3]"
  have reach: "proxy_reach example_proxy" by (simp add: example_proxy_def proxy_reach.start)
  obtain r px1 where r: "Proxy_OpenSession 0 example_open example_proxy = (Inr r, px1)"
    by (simp add: Proxy_OpenSession_def example_open_def example_proxy_def kGdsDataPath_def kOpTypePut_def CreateSession_def Let_def)
  have "dec 0 = ''0''" by code_simp
  then have sid: "osp_session_id r = ''pxs-0''"
    using open_ledger(3) [OF r] by (simp add: example_open_def example_proxy_def SessionManager_init_def)
  obtain l k where l: "sink_take ?a 3 (bk_sink example_backend) = (l, k)" "lease_ok l" using example_lease by blast
  obtain resp bk' px3 where p: "Backend_GdsPut ?a True example_chunk (example_backend, px1) = (Inr resp, bk', px3)"
  proof -
    obtain out k' where rd: "ReceiveAndDiscard ?a (object_id_of example_chunk) (gcr_rdma_token example_chunk)
        (gcr_chunk_size example_chunk) (bk_sink example_backend) = (out, k')" "dc_ok out"
      using l by (simp add: ReceiveAndDiscard_def example_chunk_def kMaxChunkBytes_def Let_def) (simp add: example_answers_def)
    have "Sink_available (ca_connected ?a) (bk_sink example_backend)"
      by (simp add: Sink_available_def example_answers_def example_backend_def BackendDataPlaneService_init_def Sink_Start_def)
    moreover have "gcr_upload_id example_chunk = []" "gcr_rdma_token example_chunk \<noteq> []" by (simp_all add: example_chunk_def)
    ultimately show ?thesis using that rd by (simp add: Backend_GdsPut_def Let_def)
  qed
  have a: "ca_transferred ?a = int (length [1, 2, 3 :: byte])" "take (length [1, 2, 3 :: byte]) (ca_received ?a) = [1, 2, 3]"
    "bk_proxy_stub example_backend" "gcr_session_id example_chunk = osp_session_id r" "gcr_chunk_size example_chunk = length [1, 2, 3 :: byte]"
    using sid by (simp_all add: example_answers_def example_backend_def BackendDataPlaneService_init_def example_chunk_def)
  from proxied_upload_etag [OF reach r meanwhile.idle a(4,5) _ a(1,2) example_sink_wf a(3) p meanwhile.idle] r p show ?thesis
    by fastforce
qed

end
