(* ===== verification/Divergences.thy ===== *)
theory Divergences
  imports Gateway_Runtime Backend_Sink Http_Range
begin

text \<open>
  Where the code and its intention part: inputs on which a handler of the gateway or a pair of programs does something its
  comments exclude. Each theorem is about the definitions the other theories verify, so it marks where their hypotheses
  (sizes below $2^{64}$, staged parts, a registered executor) are needed.
\<close>

section \<open>An offset nobody checks\<close>

text \<open>The GDS PUT handler hands the offset of the request to the store unchecked: with an open session, a request whose two bytes
  start at the last address is answered as completed after a copy outside the object.\<close>

theorem remote_put_overruns:
  "\<exists>v gw'. HandleGdsPut memory_backend id (example_answers [1, 2]) 7 (example_request (u64_mod - 1) 2) example_gateway = (Inr v, gw') \<and>
     out_of_bounds (cb_data (co_backend (gw_co gw')))"
proof -
  let ?a = "example_answers [1, 2]" and ?q = "example_request (u64_mod - 1) 2"
  let ?p = "\<lambda>view. be_WriteRange memory_backend 7 ''b'' ''k'' (u64_mod - 1) view (Some 2)"
  have ready: "chunk_ready ?a ?q example_gateway 0" by (rule example_gateway_facts)
  have len: "0 < length (sessions (gw_sessions example_gateway))"
    using wf_lookups(1) [OF example_gateway_facts(1)] ready by (auto simp: chunk_ready_def)
  note s = bumped_session [OF len, of 0] example_gateway_facts(4-8)
  have w: "?p [1, 2] (MemoryBackend_init 10) = (Inr (MakeMeta 7 2), c)" "out_of_bounds (cb_data c)" if "c = snd (?p [1, 2] (MemoryBackend_init 10))" for c
    using that
    by (simp_all add: CompositeBackend_WriteRange_def MemoryDataStore_WriteRange_def MemoryBackend_init_def MemoryDataStore_init_def
        settle_def ReserveBytes_def set_body_def body_at_def copy_fits_def u64_add_def u64_mod_def register_index_def
        MemoryIndexStore_PutObjectIndex_def Let_def)
  let ?c = "snd (?p [1, 2] (MemoryBackend_init 10))"
  obtain ex where ex: "put_through ?a 2 ?p (example_executor, MemoryBackend_init 10) = (Inr (MakeMeta 7 2), ex, ?c)"
    using put_through_granted [OF example_grants, of 2 "[1, 2]" ?p "MemoryBackend_init 10"] 
    by (fastforce simp add: example_answers_def arg_cong [OF w(1) [OF refl], of fst, simplified])
  have "PutChunk memory_backend ?a 7 (sessions (gw_sessions (bumped 0 example_gateway)) ! 0) (u64_mod - 1) 2 (example_executor, MemoryBackend_init 10) =
      (Inr (MakeMeta 7 2), ex, ?c)"
    using s ex(1) by (simp add: PutChunk_def session_total_def) (simp add: example_executor_def GdsExecutor_Start_def GdsExecutor_init_def)
  then show ?thesis
    using w(2) [OF refl] Prepare_ready [OF ready] s by (simp add: HandleGdsPut_def example_request_def set_backend_def)
qed


section \<open>Objects and uploads after a refused operation\<close>

text \<open>A reservation that finds no room erases the entry of an object whose body is empty, although it did not create it: the index
  still answers for the object, the data store no longer knows it.\<close>

theorem refused_growth_drops_empty_object:
  assumes "bodies (cb_data c) (MakeKey b k) = Some []"
    "CompositeBackend_Reserve memory_index_store memory_data_store now b k n c = (Inl e, c')"
  shows "CompositeBackend_Head memory_index_store b k c' = CompositeBackend_Head memory_index_store b k c"
    "CompositeBackend_Read memory_data_store b k off dst c' = Failure (MakeError kNotFound ''object data not found'' False)"
  using assms
  by (auto simp: CompositeBackend_Reserve_def CompositeBackend_Head_def CompositeBackend_Read_def MemoryDataStore_Reserve_def MemoryDataStore_Read_def
      register_index_def MemoryIndexStore_PutObjectIndex_def Let_def body_at_def capacity_failure_def settle_def ReserveBytes_def erase_body_def set_body_def
      split: if_splits prod.splits bool.splits)

text \<open>A ranged write without an announced total cuts the object at the end of the range; a chunk of an object written before loses
  everything behind it.\<close>

theorem range_write_truncates:
  assumes "data_store_inv s" "fits s (offset + length src)" "offset + length src < length (body_at s (MakeKey b k))"
  shows "\<exists>s'. MemoryDataStore_WriteRange b k offset src None s = (Success True, s') \<and>
    body_at s' (MakeKey b k) = take offset (body_at s (MakeKey b k)) @ src"
proof -
  have "\<not> would_exceed s (length (body_at s (MakeKey b k))) (offset + length src)" using assms(3) by (simp add: would_exceed_def)
  then show ?thesis
    using assms
    by (auto simp: WriteRange_eval write_target_def replace_body_def set_body_def body_at_def written_def write_at_def resize_def Let_def)
qed

text \<open>An assembly that fails has already taken the staged parts: the upload that \<^verbatim>\<open>CompleteUpload\<close> rolls back to active cannot be completed by
  a second attempt, whatever parts it names.\<close>

theorem failed_assembly_is_final:
  assumes "MemoryDataStore_AssembleObject u b k pns s = (Inl e, s')"
  shows "MemoryDataStore_AssembleObject u b' k' pns' s' = (Failure (MakeError kNotFound ''upload_id not found in data store'' False), s')"
proof -
  have "mpu s' u = None"
    using assms
    by (auto simp: MemoryDataStore_AssembleObject_def Let_def capacity_failure_def settle_def ReserveBytes_def ReleaseBytes_def erase_body_def set_body_def
        split: option.splits if_splits prod.splits bool.splits)
  then show ?thesis by (simp add: MemoryDataStore_AssembleObject_def)
qed

text \<open>A part is staged for whatever upload id it names: after an abort it takes capacity that no operation on the upload gives back,
  because the registry no longer knows the upload.\<close>

theorem stray_part_staged:
  assumes "mpu s u = None" "src \<noteq> []" "used_bytes s + length src \<le> capacity_bytes s" "capacity_bytes s < u64_mod"
  shows "\<exists>s'. MemoryDataStore_WritePart u pn 0 src s = (Success True, s') \<and> used_bytes s' = used_bytes s + length src \<and>
    mpu s' u = Some \<lparr>mp_parts = [pn \<mapsto> src], reserved_bytes = length src\<rparr>"
  using assms
  by (simp add: MemoryDataStore_WritePart_def Let_def mpu_at_def empty_mpu_def part_at_def ReserveBytes_def u64_add_exact set_part_def
      copied_def copy_fits_def write_at_def resize_def)

text \<open>The record of a part sent in chunks is that of the last chunk, the size that \<^verbatim>\<open>CompleteUpload\<close> compares with the minimum included.\<close>

theorem last_chunk_sizes_the_part:
  assumes "r < length (uploads (co_store co))"
  shows "map_option pp_size (u_parts (uploads (co_store (RegisterPart now2 r pn off2 sz2 e2 (RegisterPart now1 r pn off1 sz1 e1 co))) ! r) pn) = Some sz2"
  using assms by (simp add: RegisterPart_def update_upload_def)

text \<open>A session whose data flow has no executor is refused to the client but stays in the store, neither failed nor closed.\<close>

theorem refused_session_left_behind:
  assumes "fresh_request req st" "SelectExecutor so (s_data_flow (new_session env req st)) = None"
  shows "\<exists>e. SessionOpener_Open so env req st x = (Inl e, insert_session (new_session env req st) st, x)"
  using assms by (simp add: SessionOpener_Open_def Create_fresh Let_def) (simp add: insert_session_def Let_def)

section \<open>Suffix ranges\<close>

text \<open>The suffix form of a range header, the last five bytes here, selects the first six.\<close>

theorem suffix_range_misread:
  "ParseHttpRange (Some ''bytes=-5'') 100 = \<lparr>r_offset = 0, r_length = 6, partial = True, unsatisfiable = False\<rparr>"
  by (simp add: ParseHttpRange_def strip_prefix_def kBytesPrefix_def not_dash_def from_chars_def is_digit_def read_base_def digit_val_def Let_def u64_add_def u64_mod_def)

section \<open>The proxy and the SDK\<close>

text \<open>The proxy accepts one data flow name, and it is not a name the SDK sends: every session an SDK client asks it for is refused.\<close>

theorem proxy_refuses_sdk_sessions:
  "\<exists>msg. Proxy_OpenSession now (BuildOpenSessionRequest (MakeSessionHandshake opts r1 r2 plan)) px = (Inl (PROXY_ERR_UNSUPPORTED_PATH, msg), px)"
  by (cases "sp_path plan") (simp_all add: Proxy_OpenSession_def BuildOpenSessionRequest_def MakeSessionHandshake_def kGdsDataPath_def)

end
