(* ===== verification/Multipart_Deployment.thy ===== *)
theory Multipart_Deployment
  imports Availability
begin

text \<open>
  A multipart upload over GDS through client and gateway, on the deployment of \<^verbatim>\<open>Deployment\<close>: the upload is opened by
  \<^verbatim>\<open>CreateSession\<close> of \<^verbatim>\<open>client/src/core/gds/gds_multipart_flow.cpp\<close>, its parts are sent by the concurrent workers of \<^verbatim>\<open>UploadParts\<close>, each through
  its own session, retries included, and \<^verbatim>\<open>Complete\<close> makes the gateway assemble them. The interface of a link session that \<^verbatim>\<open>UploadParts\<close>
  relies on (\<^verbatim>\<open>part_sink\<close>) is interpreted on the GDS session against this gateway.
\<close>

section \<open>A part at the gateway\<close>

text \<open>The state of an upload: registered under its id and its backend id, its object not yet touched, and for every part number a fact about
  the bytes staged so far.\<close>

definition staging ::
  "nat \<Rightarrow> string \<Rightarrow> string \<Rightarrow> string \<times> string \<Rightarrow> (string \<rightharpoonup> bytes) \<Rightarrow> (nat \<Rightarrow> bytes \<Rightarrow> bool) \<Rightarrow> MemoryCoordinator \<Rightarrow> bool" where
  "staging cap uid bid dest objs K co \<longleftrightarrow> memory_backend_reach cap (co_backend co) \<and> memory_coordinator_inv co \<and> uid \<noteq> [] \<and>
     (\<exists>r. MultipartStore_Find uid (co_store co) = Some r \<and> backend_upload_id (uploads (co_store co) ! r) = bid \<and>
        (u_bucket (uploads (co_store co) ! r), u_object_key (uploads (co_store co) ! r)) = dest) \<and>
     bodies (cb_data (co_backend co)) = objs \<and> (\<forall>pn. K pn (content (staged_parts (cb_data (co_backend co)) bid pn)))"

lemma refused_part:
  "MemoryDataStore_WritePart u pn off src s = (Inl e, s') \<Longrightarrow> content (staged_parts s' v n) = content (staged_parts s v n)"
  by (auto simp: MemoryDataStore_WritePart_def ReserveBytes_def staged_parts_def mpu_at_def set_part_def part_at_def content_def Let_def
      split: if_splits option.splits)

lemma PutPart_effect:
  assumes "PutPart B md5 a now bid pn off len pol (ex, b, Some u) = (res, ex', b', u')" "0 < len"
  shows "\<exists>u1. u' = Some u1 \<and> fixed u1 = fixed u \<and> (isl res \<and> b' = b \<or>
    (\<exists>w. be_WritePart B now bid pn off (take (nat (ca_transferred a)) (ca_received a)) b = (w, b') \<and> isl w = isl res))"
  using assms put_through_effect [of a len "persist_part B md5 now bid pn off pol" ex "(b, Some u)" res ex' "(b', u')"]
  by (auto simp: PutPart_def persist_part_def md5_accumulate_def fixed_def Let_def split: if_splits sum.splits prod.splits)

lemma staging_update:
  assumes "staging cap uid bid dest objs K co" "\<And>u. fixed (f u) = fixed u"
  shows "staging cap uid bid dest objs K (co\<lparr>co_store := update_upload r f (co_store co)\<rparr>)"
proof -
  have inv: "coordinator_inv memory_backend_inv mpu_targets co" using assms(1) by (simp add: staging_def memory_coordinator_inv_def)
  obtain q where q: "MultipartStore_Find uid (co_store co) = Some q" using assms(1) by (auto simp: staging_def)
  then have "q < length (uploads (co_store co))"
    using wf_entry find_registered [OF q] inv by (fastforce simp: coordinator_inv_def)
  then show ?thesis
    using assms(1) q inv_update [OF inv assms(2), of r] update_upload_fixed [of f q "co_store co" r, OF assms(2)]
    by (simp add: staging_def memory_coordinator_inv_def MultipartStore_Find_def)
qed

lemma staging_stored:
  assumes "staging cap uid bid dest objs K co" "fixed u1 = fixed (uploads (co_store co) ! r)"
    and "memory_backend_reach cap b" "mpu_targets b = mpu_targets (co_backend co)" "bodies (cb_data b) = objs"
    and "\<forall>pn. L pn (content (staged_parts (cb_data b) bid pn))"
  shows "staging cap uid bid dest objs L (co\<lparr>co_backend := b, co_store := update_upload r (\<lambda>_. u1) (co_store co)\<rparr>)"
proof -
  let ?f = "\<lambda>u. if fixed u = fixed u1 then u1 else u"
  have same: "update_upload r (\<lambda>_. u1) (co_store co) = update_upload r ?f (co_store co)" using assms(2) by (simp add: update_upload_def)
  have "staging cap uid bid dest objs L (co\<lparr>co_backend := b\<rparr>)"
    using assms(1,3-6) memory_backend_reach_inv [OF assms(3)] by (simp add: staging_def memory_coordinator_inv_def coordinator_inv_def)
  from staging_update [OF this, of ?f r] show ?thesis by (simp add: same)
qed

lemma staging_register: "staging cap uid bid dest objs K co \<Longrightarrow> staging cap uid bid dest objs K (RegisterPart now r pn off sz e co)"
  unfolding RegisterPart_def by (erule staging_update) (simp add: fixed_def)

lemma upload_part_staged:
  assumes "staging cap uid bid dest objs K co" "GdsMultipart_UploadPart memory_backend md5 a now uid pn 0 n pol (ex, co) = (res, ex', co')"
    and "ca_transferred a = int n" "length (ca_received a) = n" "0 < n" "cap + n < u64_mod"
    and "\<forall>x. K pn x \<longrightarrow> x = [] \<or> x = ca_received a" "K pn (ca_received a)"
  shows "staging cap uid bid dest objs (if isl res then K else K(pn := (=) (ca_received a))) co'"
proof -
  obtain r where r: "MultipartStore_Find uid (co_store co) = Some r" "backend_upload_id (uploads (co_store co) ! r) = bid"
    using assms(1) by (auto simp: staging_def)
  let ?u = "uploads (co_store co) ! r" and ?d = "ca_received a"
  obtain w ex1 b u' where p: "PutPart memory_backend md5 a now bid pn 0 n pol (ex, co_backend co, Some ?u) = (w, ex1, b, u')" by (rule prod_cases4)
  from PutPart_effect [OF p assms(5)] obtain u1 where u1: "u' = Some u1" "fixed u1 = fixed ?u"
      "isl w \<and> b = co_backend co \<or> (\<exists>x. be_WritePart memory_backend now bid pn 0 ?d (co_backend co) = (x, b) \<and> isl x = isl w)"
    using assms(3,4) by auto
  let ?co = "co\<lparr>co_backend := b, co_store := update_upload r (\<lambda>_. u1) (co_store co)\<rparr>"
  have co': "isl res = isl w" "co' = (if isl w then ?co else RegisterPart now r pn 0 n (projr w) ?co)"
    using assms(2) r p u1(1) by (auto simp: GdsMultipart_UploadPart_def Lookup_def Let_def split: sum.splits)
  have reach: "memory_backend_reach cap (co_backend co)" "bodies (cb_data (co_backend co)) = objs"
      "\<forall>pn. K pn (content (staged_parts (cb_data (co_backend co)) bid pn))"
    using assms(1) by (simp_all add: staging_def)
  have room: "fits (cb_data (co_backend co)) (0 + length ?d)"
    using memory_backend_reach_inv [OF reach(1)] assms(4,6) by (simp add: fits_def)
  have "memory_backend_reach cap b \<and> mpu_targets b = mpu_targets (co_backend co) \<and> bodies (cb_data b) = objs \<and>
      (\<forall>n. (if isl w then K else K(pn := (=) ?d)) n (content (staged_parts (cb_data b) bid n)))"
    using u1(3)
  proof (elim disjE conjE exE)
    assume "isl w" "b = co_backend co"
    then show ?thesis using reach by simp
  next
    fix x assume x: "be_WritePart memory_backend now bid pn 0 ?d (co_backend co) = (x, b)" "isl x = isl w"
    have inv: "memory_backend_inv (co_backend co)" using memory_backend_reach_inv [OF reach(1)] by simp
    note run = mem.write_part_run [OF inv room x(1) [unfolded memory_backend_ops]]
    have rb: "memory_backend_reach cap b"
      using memory_backend_reach.write_part [OF reach(1), of 0 ?d now bid pn] x(1) assms(4,6) by simp
    have "(if isl w then K else K(pn := (=) ?d)) m (content (staged_parts (cb_data b) bid m))" for m
    proof (cases x)
      case (Inl e)
      then obtain e' where "MemoryDataStore_WritePart bid pn 0 ?d (cb_data (co_backend co)) = (Inl e', cb_data b)"
        using x(1) by (auto simp: CompositeBackend_WritePart_def memory_data_store_def split: sum.splits prod.splits)
      from refused_part [OF this] show ?thesis using Inl x(2) reach(3) by simp
    next
      case (Inr e)
      have "content (staged_parts (cb_data (co_backend co)) bid pn) \<in> {[], ?d}" using reach(3) assms(7) by blast
      then show ?thesis using run(5) [OF Inr] Inr x(2) reach(3) by (auto simp: write_at_def)
    qed
    then show ?thesis using rb run(2,3) reach(2) by simp
  qed
  then have st: "staging cap uid bid dest objs (if isl w then K else K(pn := (=) ?d)) ?co"
    using staging_stored [OF assms(1) u1(2)] by blast
  show ?thesis
  proof (cases "isl w")
    case False
    then show ?thesis using st co' by (simp add: staging_register)
  qed (use st co' in simp)
qed

lemma put_part_served:
  assumes "HandleGdsPut memory_backend md5 a now q gw = (r, gw')" "serving cap gw" "staging cap (gcr_upload_id q) bid dest objs K (gw_co gw)"
    and "gcr_part_number q = pn" "gcr_chunk_offset q = 0" "gcr_chunk_size q = n"
    and "ca_transferred a = int n" "length (ca_received a) = n" "0 < n" "cap + n < u64_mod"
    and "\<forall>x. K pn x \<longrightarrow> x = [] \<or> x = ca_received a" "K pn (ca_received a)"
  shows "serving cap gw' \<and> staging cap (gcr_upload_id q) bid dest objs (if isl r then K else K(pn := (=) (ca_received a))) (gw_co gw')"
proof -
  have wf: "store_wf (gw_sessions gw)" and uid: "gcr_upload_id q \<noteq> []" using assms(2,3) by (auto simp: serving_def staging_def)
  obtain p gw1 where p: "PrepareGdsChunk (ca_connected a) q gw = (p, gw1)" by fastforce
  have gw1: "gw_co gw1 = gw_co gw" "gw_gds gw1 = gw_gds gw" "store_wf (gw_sessions gw1)"
    using p wf by (auto simp: PrepareGdsChunk_def bump_wf split: if_splits option.splits)
  show ?thesis
  proof (cases p)
    case (Inl e)
    then show ?thesis using assms(1-3) p gw1 by (auto simp: HandleGdsPut_def serving_def)
  next
    case (Inr x)
    obtain res ex co where u: "GdsMultipart_UploadPart memory_backend md5 a now (gcr_upload_id q) pn 0 n (gcr_checksum_policy q)
        (gw_gds gw, gw_co gw) = (res, ex, co)" by (rule prod_cases3)
    let ?g = "set_co co (gw1\<lparr>gw_gds := ex\<rparr>)"
    have gw': "gw' = (if isl res then mark_session_failed x ?g else ?g)" "isl r = isl res"
      using assms(1,4-6) p Inr gw1(1,2) uid u by (auto simp: HandleGdsPut_def Let_def split: sum.splits)
    have st: "staging cap (gcr_upload_id q) bid dest objs (if isl res then K else K(pn := (=) (ca_received a))) co"
      by (rule upload_part_staged [OF assms(3) u assms(7-12)])
    have co: "gw_co gw' = co" unfolding gw' by (simp add: mark_failed_keeps)
    have "store_wf (gw_sessions gw')" unfolding gw' using gw1(3) by (simp add: mark_failed_keeps)
    then show ?thesis using st co gw'(2) by (simp add: serving_def staging_def)
  qed
qed

section \<open>A part from the client\<close>

lemma dispatch_part:
  assumes "bv_size b \<noteq> 0" "cap + bv_size b < u64_mod" "bv_data b < u64_mod" "uid \<noteq> []"
    and "data = map mem [bv_data b..<bv_data b + bv_size b]" "\<forall>x. K pn x \<longrightarrow> x = [] \<or> x = data" "K pn data"
  shows "valid (sees (\<lambda>gw m. serving cap gw \<and> staging cap uid bid dest objs K (gw_co gw) \<and> m = mem))
    (Dispatch (deployment md5) opts (SetMultipart uid pn (ChunkDispatcher_put ses q kPut)) (rdma_token (bv_data b)) 0 (bv_size b))
    (\<lambda>r. sees (\<lambda>gw m. serving cap gw \<and> staging cap uid bid dest objs (if isl r then K else K(pn := (=) data)) (gw_co gw) \<and> m = mem))"
proof -
  let ?op = "MakeChunkOp opts (chunk_plan_of (SetMultipart uid pn (ChunkDispatcher_put ses q kPut)) (rdma_token (bv_data b)) 0 (bv_size b))"
  let ?q = "BuildGdsChunkRequest ?op"
  have q: "gcr_upload_id ?q = uid" "gcr_part_number ?q = pn" "gcr_chunk_offset ?q = 0" "gcr_chunk_size ?q = bv_size b"
    "gcr_rdma_token ?q = rdma_token (bv_data b)" "ck_operation ?op \<noteq> kGet"
    using assms(4) by (simp_all add: BuildGdsChunkRequest_def MakeChunkOp_def chunk_plan_of_def ChunkDispatcher_put_def SetMultipart_def
        u64_sub_def u64_mod_def)
  have tok: "rdma_token (bv_data b) \<noteq> []" by (simp add: rdma_token_def)
  have put: "serving cap gw' \<and> staging cap uid bid dest objs (if isl r then K else K(pn := (=) data)) (gw_co gw')"
    if "HandleGdsPut memory_backend md5 (put_answers w (rdma_token (bv_data b)) (bv_size b)) t ?q (wd_gw w) = (r, gw')"
      "serving cap (wd_gw w)" "staging cap uid bid dest objs K (gw_co (wd_gw w))" "wd_memory w = mem" for w t r gw'
  proof -
    have rcv: "ca_received (put_answers w (rdma_token (bv_data b)) (bv_size b)) = data"
      using token_address [OF assms(3)] that(4) assms(5) by (simp add: put_answers_def read_mem_def)
    have "ca_transferred (put_answers w (rdma_token (bv_data b)) (bv_size b)) = int (bv_size b)" by (simp add: put_answers_def)
    then show ?thesis
      using put_part_served [OF that(1,2), of bid dest objs K pn "bv_size b", unfolded rcv q] that(3) assms by simp
  qed
  show ?thesis
    unfolding Dispatch_def GdsChunk_def
    using tok q put [where r = "Inl e" for e, simplified] put [where r = "Inr v" for v, simplified]
    by (auto simp: valid_def sees_def deployment_def dep_GdsPut_def reply_def split: option.split sum.split prod.split)
qed

definition part_done ::
  "nat \<Rightarrow> string \<Rightarrow> string \<Rightarrow> string \<times> string \<Rightarrow> (string \<rightharpoonup> bytes) \<Rightarrow> (nat \<Rightarrow> bytes \<Rightarrow> bool) \<Rightarrow> (nat \<Rightarrow> byte) \<Rightarrow> nat \<Rightarrow> BufferView \<Rightarrow>
   TransferOutcome cresult \<Rightarrow> MemoryBackend Gateway \<Rightarrow> (nat \<Rightarrow> byte) \<Rightarrow> bool" where
  "part_done cap uid bid dest objs K mem pn b r gw m \<longleftrightarrow> serving cap gw \<and> m = mem \<and> staging cap uid bid dest objs K (gw_co gw) \<and>
     (\<forall>out. r = Inr out \<longrightarrow> to_bytes_transferred out = bv_size b \<and>
        staging cap uid bid dest objs (K(pn := (=) (map mem [bv_data b..<bv_data b + bv_size b]))) (gw_co gw))"

lemma staging_weaken: "staging cap uid bid dest objs L co \<Longrightarrow> (\<And>pn x. L pn x \<Longrightarrow> K pn x) \<Longrightarrow> staging cap uid bid dest objs K co"
  by (auto simp: staging_def)

lemma gds_part_done:
  assumes "put_idempotency_key q = []" "cap + bv_size b < u64_mod" "bv_data b < u64_mod" "uid \<noteq> []"
    and "data = map mem [bv_data b..<bv_data b + bv_size b]" "\<forall>x. K pn x \<longrightarrow> x = [] \<or> x = data" "K pn data"
  shows "valid (sees (\<lambda>gw m. serving cap gw \<and> staging cap uid bid dest objs K (gw_co gw) \<and> m = mem))
    (GdsTransferPath_PutObjectPart (deployment md5) opts caps q b uid pn) (\<lambda>r. sees (part_done cap uid bid dest objs K mem pn b r))"
proof -
  let ?J = "\<lambda>gw m. serving cap gw \<and> staging cap uid bid dest objs K (gw_co gw) \<and> m = mem"
  let ?D = "part_done cap uid bid dest objs K mem pn b"
  have weaker: "staging cap uid bid dest objs (K(pn := (=) data)) co \<Longrightarrow> staging cap uid bid dest objs K co" for co
    by (erule staging_weaken) (use assms(7) in \<open>auto split: if_splits\<close>)
  have exec: "valid (sees (\<lambda>gw m. ?J gw m \<and> session_for (put_bucket q) (put_key q) None (ts_session_id ses) gw))
      (ExecutePutPart (deployment md5) opts ses q b uid pn) (\<lambda>r. sees (?D r))" for ses
    unfolding ExecutePutPart_def
  proof (rule execute_transfer)
    show "valid (sees (\<lambda>gw m. ?J gw m \<and> session_for (put_bucket q) (put_key q) None (ts_session_id ses) gw))
      (Dispatch (deployment md5) opts (if uid \<noteq> [] then SetMultipart uid pn (ChunkDispatcher_put ses q kPut) else ChunkDispatcher_put ses q kPut)
        (rdma_token (bv_data b)) 0 (bv_size b))
      (\<lambda>r. sees (\<lambda>gw m. serving cap gw \<and> staging cap uid bid dest objs (if isl r then K else K(pn := (=) data)) (gw_co gw) \<and> m = mem))"
      if "bv_size b \<noteq> 0"
      using dispatch_part [where K = K and pn = pn, OF that assms(2-7), of bid dest objs md5 opts ses q] assms(4) by (auto simp: valid_def sees_def)
  qed (use weaker assms(5) in \<open>auto simp: part_done_def transfer_outcome_def\<close>)
  have att: "valid (sees ?J) (put_attempt (deployment md5) opts deadline what q b (\<lambda>ses. ExecutePutPart (deployment md5) opts ses q b uid pn))
      (\<lambda>r s. sees ?J s \<and> sees (?D r) s)" for deadline what
    by (rule put_attempt_valid [OF assms(1) exec]) (auto simp: part_done_def)
  have fail: "sees ?J s \<Longrightarrow> sees (?D (Inl e)) s" for s e by (simp add: sees_def part_done_def)
  show ?thesis
    unfolding GdsTransferPath_PutObjectPart_def
    by (intro valid_or_fail valid_bind sees_calls valid_weaken [OF valid_retry [OF att]] fail) simp_all
qed

section \<open>The session as a sink of parts\<close>

definition part_bytes :: "(nat \<Rightarrow> byte) \<Rightarrow> PartSpec \<Rightarrow> bytes" where
  "part_bytes mem p = map mem [bv_data (ps_buffer p)..<bv_data (ps_buffer p) + bv_size (ps_buffer p)]"

text \<open>Parts the gateway can tell apart and whose sizes stay within 64 bits together with its capacity.\<close>

definition sendable :: "nat \<Rightarrow> PartSpec list \<Rightarrow> bool" where
  "sendable cap parts \<longleftrightarrow> distinct (map ps_part_number parts) \<and>
     (\<forall>p \<in> set parts. cap + bv_size (ps_buffer p) < u64_mod \<and> bv_data (ps_buffer p) < u64_mod)"

text \<open>The parts in a set have arrived; of the others nothing, or all of it when only the answer was an error.\<close>

definition arrived :: "(nat \<Rightarrow> byte) \<Rightarrow> PartSpec list \<Rightarrow> nat set \<Rightarrow> nat \<Rightarrow> bytes \<Rightarrow> bool" where
  "arrived mem parts A pn x \<longleftrightarrow>
     (\<forall>i < length parts. ps_part_number (parts ! i) = pn \<longrightarrow> x = part_bytes mem (parts ! i) \<or> i \<notin> A \<and> x = [])"

lemma same_number:
  "sendable cap parts \<Longrightarrow> i < length parts \<Longrightarrow> j < length parts \<Longrightarrow> ps_part_number (parts ! i) = ps_part_number (parts ! j) \<longleftrightarrow> i = j"
  by (auto simp: sendable_def distinct_conv_nth)

definition received_parts ::
  "nat \<Rightarrow> string \<Rightarrow> string \<Rightarrow> string \<times> string \<Rightarrow> (string \<rightharpoonup> bytes) \<Rightarrow> (nat \<Rightarrow> byte) \<Rightarrow> PartSpec list \<Rightarrow> (nat \<times> TransferOutcome) set \<Rightarrow>
   World ClientState \<Rightarrow> bool" where
  "received_parts cap uid bid dest objs mem parts M c \<longleftrightarrow> (sendable cap parts \<longrightarrow>
     sees (\<lambda>gw m. serving cap gw \<and> staging cap uid bid dest objs (arrived mem parts (fst ` M)) (gw_co gw) \<and> m = mem) c \<and>
     (\<forall>(i, v) \<in> M. to_bytes_transferred v = bv_size (ps_buffer (parts ! i))))"

lemma gds_sink_step:
  assumes "received_parts cap uid bid dest objs mem parts M c" "i < length parts"
    and "run_state (ms_UploadPart (GdsMultipartSession (deployment md5) opts caps bucket key uid mx) (ps_part_number (parts ! i)) off policy
      (ps_buffer (parts ! i))) c = (r, c')"
  shows "received_parts cap uid bid dest objs mem parts (case r of Inl e \<Rightarrow> M | Inr v \<Rightarrow> insert (i, v) M) c'"
proof (cases "sendable cap parts")
  case True
  let ?p = "parts ! i" and ?K = "arrived mem parts (fst ` M)"
  let ?b = "ps_buffer ?p" and ?pn = "ps_part_number ?p"
  have b: "cap + bv_size ?b < u64_mod" "bv_data ?b < u64_mod" "uid \<noteq> []"
    using True assms(1,2) by (auto simp: sendable_def received_parts_def sees_def staging_def)
  have K: "\<forall>x. ?K ?pn x \<longrightarrow> x = [] \<or> x = part_bytes mem ?p" "?K ?pn (part_bytes mem ?p)"
    using assms(2) same_number [OF True _ assms(2)] by (auto simp: arrived_def)
  have "put_idempotency_key (part_request bucket key policy) = []" by (simp add: part_request_def PutObjectRequest_default_def)
  note fin = gds_part_done [where K = ?K and pn = ?pn, OF this b part_bytes_def K]
  have run: "run_state (GdsTransferPath_PutObjectPart (deployment md5) opts caps (part_request bucket key policy) ?b uid ?pn) c = (r, c')"
    using assms(3) by (simp add: GdsMultipartSession_def)
  have d: "sees (part_done cap uid bid dest objs ?K mem ?pn ?b r) c'"
    by (rule validD [OF fin run]) (use assms(1) True in \<open>simp add: received_parts_def\<close>)
  have grow: "arrived mem parts (insert i (fst ` M)) n x" if "(?K(?pn := (=) (part_bytes mem ?p))) n x" for n x
    using that same_number [OF True _ assms(2)] assms(2) by (auto simp: arrived_def split: if_splits)
  show ?thesis
    using d grow assms(1) True
    by (cases r) (auto simp: received_parts_def sees_def part_done_def part_bytes_def [symmetric] elim: staging_weaken)
qed (simp add: received_parts_def)

interpretation gds_parts: part_sink "GdsMultipartSession (deployment md5) opts caps bucket key uid mx" parts
  "received_parts cap uid bid dest objs mem parts"
  for md5 opts caps bucket key uid mx parts cap bid dest objs mem
  by unfold_locales (auto dest: gds_sink_step)

section \<open>Opening and completing\<close>

text \<open>A gateway that can open an upload: its counters are not exhausted and no part is staged under a backend id it has not given out.\<close>

definition opens_uploads :: "nat \<Rightarrow> MemoryBackend Gateway \<Rightarrow> bool" where
  "opens_uploads cap gw \<longleftrightarrow> serving cap gw \<and> memory_coordinator_inv (gw_co gw) \<and> seq_left (cb_index (backend_of gw)) \<and>
     mp_seq (co_store (gw_co gw)) + 1 < u64_mod \<and>
     (\<forall>bid pn. mpu_targets (backend_of gw) bid = None \<longrightarrow> content (staged_parts (cb_data (backend_of gw)) bid pn) = [])"

lemma create_staging:
  assumes "opens_uploads cap gw" "CreateUpload memory_backend now params (gw_co gw) = (Inr v, co)"
  shows "\<exists>bid. staging cap (StartUploadResult.sur_upload_id v) bid (sup_bucket params, sup_object_key params)
    (bodies (cb_data (backend_of gw))) (\<lambda>pn x. x = []) co"
proof -
  note o = assms(1) [unfolded opens_uploads_def memory_coordinator_inv_def]
  let ?uid = "new_upload_id now (co_store (gw_co gw))"
  from memory_mp.create_ok [of "gw_co gw" now params] o assms(2) obtain r where
    r: "StartUploadResult.sur_upload_id v = ?uid" "coordinator_inv memory_backend_inv mpu_targets co"
      "MultipartStore_Find ?uid (co_store co) = Some r"
      "mpu_targets (co_backend co) (backend_upload_id (uploads (co_store co) ! r)) = Some (sup_bucket params, sup_object_key params)"
      "mpu_targets (backend_of gw) (backend_upload_id (uploads (co_store co) ! r)) = None"
      "staged_parts (cb_data (co_backend co)) = staged_parts (cb_data (backend_of gw))"
      "bodies (cb_data (co_backend co)) = bodies (cb_data (backend_of gw))"
    by auto
  have "co_backend co = snd (be_StartMultipart memory_backend now (sup_bucket params) (sup_object_key params) (sup_expected_total_size params) (backend_of gw))"
    using assms(2) by (auto simp: CreateUpload_def Let_def split: prod.splits sum.splits)
  then have "memory_backend_reach cap (co_backend co)"
    using memory_backend_reach.start o by (simp add: serving_def seq_left_def del: memory_backend_ops)
  moreover have "(u_bucket (uploads (co_store co) ! r), u_object_key (uploads (co_store co) ! r)) = (sup_bucket params, sup_object_key params)"
    using r(2,4) find_registered [OF r(3)] by (simp add: coordinator_inv_def)
  ultimately show ?thesis
    using r o by (auto simp: staging_def memory_coordinator_inv_def new_upload_id_def upload_id_of_def)
qed

lemma create_session_staging:
  assumes "run_state (GdsMultipartFlow_CreateSession (deployment md5) opts caps d) s = ((st, Some ses), s1)" "opens_uploads cap (wd_gw (cw s))"
  shows "\<exists>uid mx bid. ses = GdsMultipartSession (deployment md5) opts caps (od_bucket d) (od_key d) uid mx \<and>
    sees (\<lambda>gw m. serving cap gw \<and> staging cap uid bid (od_bucket d, od_key d) (bodies (cb_data (backend_of (wd_gw (cw s))))) (\<lambda>pn x. x = []) (gw_co gw) \<and>
      m = wd_memory (cw s)) s1"
proof -
  let ?p = "ToStartUploadParams (BuildStartUploadRequest d)" and ?gw = "wd_gw (cw s)"
  obtain x co where c: "CreateUpload memory_backend (now_of (cw s)) ?p (gw_co ?gw) = (x, co)" by fastforce
  obtain v where v: "x = Inr v"
      "ses = GdsMultipartSession (deployment md5) opts caps (od_bucket d) (od_key d) (StartUploadResult.sur_upload_id v) (StartUploadResult.sur_max_part_size v)"
      "wd_gw (cw s1) = set_co co ?gw" "wd_memory (cw s1) = wd_memory (cw s)"
    using assms(1) c
    by (auto simp: GdsMultipartFlow_CreateSession_def create_session_def RpcCreateMultipartUpload_def CheckRpcFailure_def or_fail_def
        deployment_def at_gateway_def reply_def map_reply_def Rpc_StartUpload_def MultipartApp_StartUpload_def Let_def
        split: option.splits sum.splits prod.splits if_splits)
  have "sup_bucket ?p = od_bucket d" "sup_object_key ?p = od_key d" by (simp_all add: ToStartUploadParams_def BuildStartUploadRequest_def)
  with create_staging [OF assms(2) c [unfolded v(1)]] obtain bid where
    "staging cap (StartUploadResult.sur_upload_id v) bid (od_bucket d, od_key d) (bodies (cb_data (backend_of ?gw))) (\<lambda>pn x. x = []) co" by auto
  then have "sees (\<lambda>gw m. serving cap gw \<and> staging cap (StartUploadResult.sur_upload_id v) bid (od_bucket d, od_key d)
      (bodies (cb_data (backend_of ?gw))) (\<lambda>pn x. x = []) (gw_co gw) \<and> m = wd_memory (cw s)) s1"
    using v assms(2) by (auto simp: sees_def serving_def staging_def opens_uploads_def)
  then show ?thesis using v(2) by blast
qed

lemma complete_call:
  assumes "run_state (complete_session (deployment md5) opts uid flow refs) s = (Inr res, s')"
  shows "\<exists>m co. CompleteUpload memory_backend (now_of (cw s)) uid (ToPartRecords refs) (ClientDataFlow_ToString flow) (gw_co (wd_gw (cw s))) = (Inr m, co) \<and>
    wd_gw (cw s') = set_co co (wd_gw (cw s)) \<and> wd_memory (cw s') = wd_memory (cw s) \<and>
    res = \<lparr>cr_etag = etag m, cr_version = version m, cr_content_length = content_length m\<rparr>"
proof -
  obtain x co where c: "CompleteUpload memory_backend (now_of (cw s)) uid (ToPartRecords refs) (ClientDataFlow_ToString flow) (gw_co (wd_gw (cw s))) = (x, co)"
    by fastforce
  then show ?thesis
    using assms
    by (auto simp: complete_session_def RpcCompleteMultipartUpload_def CheckRpcFailure_def or_fail_def split_beta
        deployment_def at_gateway_def reply_def map_reply_def Rpc_CompleteUpload_def MultipartApp_CompleteUpload_def Let_def
        split: option.splits sum.splits prod.splits if_splits)
qed

lemma ToPartRecords_numbers [simp]: "map pr_part_number (ToPartRecords refs) = map fst refs" "length (ToPartRecords refs) = length refs"
  by (simp_all add: ToPartRecords_def case_prod_beta comp_def)

lemma sum_by_number:
  fixes h :: "'c \<Rightarrow> nat"
  assumes "mset (map f xs) = mset (map g ys)"
  shows "(\<Sum>x\<leftarrow>xs. h (f x)) = (\<Sum>y\<leftarrow>ys. h (g y))"
proof -
  have "sum_list (map h (map f xs)) = sum_list (map h (map g ys))"
    using arg_cong [OF assms, of "\<lambda>A. sum_mset (image_mset h A)"] by (simp only: mset_map [symmetric] sum_mset_sum_list)
  then show ?thesis by (simp add: comp_def)
qed

text \<open>The references a successful \<^verbatim>\<open>UploadParts\<close> leaves carry the numbers of its parts.\<close>

lemma refs_numbers:
  assumes "mset refs = mset (map (\<lambda>i. (ps_part_number (parts ! i), g i)) [0..<length parts])"
  shows "mset (map fst refs) = mset (map ps_part_number parts)" "length refs = length parts"
proof -
  have "mset (map fst refs) = mset (map (\<lambda>i. ps_part_number (parts ! i)) [0..<length parts])"
    using arg_cong [OF assms, of "image_mset fst"] by (simp add: multiset.map_comp comp_def)
  moreover have "map (\<lambda>i. ps_part_number (parts ! i)) [0..<length parts] = map ps_part_number parts" by (rule nth_equalityI) simp_all
  ultimately show nums: "mset (map fst refs) = mset (map ps_part_number parts)" by simp
  show "length refs = length parts" using arg_cong [OF nums, of size] by simp
qed

text \<open>Completing an upload all of whose listed parts are staged.\<close>

lemma complete_assembles:
  assumes "serving cap gw" "staging cap uid bid (b, k) objs K (gw_co gw)" "CompleteUpload memory_backend now uid ps dp (gw_co gw) = (Inr m, co)"
    and "mset (map pr_part_number ps) = mset (map ps_part_number parts)" "sort (map ps_part_number parts) = [1..<length parts + 1]"
    and "\<forall>p \<in> set parts. \<forall>x. K (ps_part_number p) x \<longrightarrow> x = f p" "cap + (\<Sum>p\<leftarrow>parts. length (f p)) < u64_mod" "length ps < 2 ^ 32"
  shows "serving cap (set_co co gw) \<and> stored b k (concat (map f (sort_key ps_part_number parts))) (etag m) (version m) (set_co co gw) \<and>
    bodies (cb_data (co_backend co)) = objs(MakeKey b k \<mapsto> concat (map f (sort_key ps_part_number parts))) \<and>
    content_length m = (\<Sum>p\<leftarrow>parts. length (f p))"
proof -
  let ?c = "backend_of gw"
  note st = assms(2) [unfolded staging_def]
  obtain r where r: "MultipartStore_Find uid (co_store (gw_co gw)) = Some r" "backend_upload_id (uploads (co_store (gw_co gw)) ! r) = bid"
      "u_bucket (uploads (co_store (gw_co gw)) ! r) = b" "u_object_key (uploads (co_store (gw_co gw)) ! r) = k"
    using st by auto
  have run: "be_CompleteMultipart memory_backend now bid ps ?c = (Inr m, co_backend co)"
    using complete_checked [OF assms(3,8)] r(1,2) by auto
  have target: "mpu_targets ?c bid = Some (b, k)"
    using st r find_registered [OF r(1)] by (auto simp: memory_coordinator_inv_def coordinator_inv_def)
  have held: "content (staged_parts (cb_data ?c) bid (ps_part_number p)) = f p" if "p \<in> set parts" for p using st assms(6) that by blast
  have order: "sort (map pr_part_number ps) = map ps_part_number (sort_key ps_part_number parts)"
    using assms(4) by (metis map_sort_key sorted_list_of_multiset_mset)
  have len: "(\<Sum>p\<leftarrow>ps. length (content (staged_parts (cb_data ?c) bid (pr_part_number p)))) = (\<Sum>p\<leftarrow>parts. length (f p))"
    using sum_by_number [OF assms(4), of "\<lambda>pn. length (content (staged_parts (cb_data ?c) bid pn))"] held by (simp cong: map_cong)
  have inv: "memory_backend_inv ?c" "fits (cb_data ?c) (\<Sum>p\<leftarrow>parts. length (f p))"
    using memory_backend_reach_inv [of cap ?c] st assms(7) by (auto simp: fits_def)
  have room: "fits (cb_data ?c) (\<Sum>pn\<leftarrow>sort (map pr_part_number ps). length (content (staged_parts (cb_data ?c) bid pn)))"
    using inv(2) len by (simp add: sum_list_sort)
  have "map (\<lambda>pn. content (staged_parts (cb_data ?c) bid pn)) (sort (map pr_part_number ps)) = map f (sort_key ps_part_number parts)"
    unfolding order using held by simp
  then have eff: "bodies (cb_data (co_backend co)) = objs(MakeKey b k \<mapsto> concat (map f (sort_key ps_part_number parts)))"
      "m = MakeMeta now (\<Sum>p\<leftarrow>parts. length (f p))" "ix_entries (cb_index (co_backend co)) (MakeKey b k) = Some m"
    using mem.complete_run(3) [OF inv(1) refl room run [unfolded memory_backend_ops] refl] target st len by (auto simp: sum_list_sort)
  have total: "length (concat (map f (sort_key ps_part_number parts))) = (\<Sum>p\<leftarrow>parts. length (f p))"
  proof -
    have "mset (map (length \<circ> f) (sort_key ps_part_number parts)) = mset (map (length \<circ> f) parts)" by simp
    then have "sum_list (map (length \<circ> f) (sort_key ps_part_number parts)) = sum_list (map (length \<circ> f) parts)" by (metis sum_mset_sum_list)
    then show ?thesis by (simp add: length_concat comp_def)
  qed
  have "memory_backend_reach cap (co_backend co)"
    using memory_backend_reach.complete [of cap ?c bid ps now] st run assms(7) len by (simp del: memory_backend_ops)
  then show ?thesis
    using eff assms(1) total by (simp add: serving_def stored_def CompositeBackend_Head_def MemoryIndexStore_Head_def memory_index_store_def MakeMeta_def)
qed

lemma gds_multipart_stores_object:
  assumes "opens_uploads cap (wd_gw (cw s))" "length parts < 2 ^ 32" "\<forall>p \<in> set parts. bv_data (ps_buffer p) < u64_mod"
    and "cap + (\<Sum>p\<leftarrow>parts. bv_size (ps_buffer p)) < u64_mod"
    and "run_state (GdsMultipartFlow_CreateSession (deployment md5) opts caps d) s = ((st, Some ses), s1)"
    and "UploadParts parts n (set_checksum_policy policy (UploadImpl_init ses GPUDirect)) s1 (Inr outs) u s2"
    and "run_state (MultipartUpload_Complete u) s2 = ((Inr res, u'), s3)"
  shows "sort (map ps_part_number parts) = [1..<length parts + 1] \<and>
    stored (od_bucket d) (od_key d) (concat (map (part_bytes (wd_memory (cw s))) (sort_key ps_part_number parts)))
      (cr_etag res) (cr_version res) (wd_gw (cw s3)) \<and>
    cr_content_length res = (\<Sum>p\<leftarrow>parts. bv_size (ps_buffer p)) \<and>
    map to_bytes_transferred outs = map (\<lambda>p. bv_size (ps_buffer p)) parts \<and>
    (\<forall>oid. oid \<noteq> MakeKey (od_bucket d) (od_key d) \<longrightarrow>
      bodies (cb_data (backend_of (wd_gw (cw s3)))) oid = bodies (cb_data (backend_of (wd_gw (cw s)))) oid) \<and>
    wd_memory (cw s3) = wd_memory (cw s) \<and> serving cap (wd_gw (cw s3))"
proof -
  let ?mem = "wd_memory (cw s)" and ?objs = "bodies (cb_data (backend_of (wd_gw (cw s))))" and ?dest = "(od_bucket d, od_key d)"
  from create_session_staging [OF assms(5,1)] obtain uid mx bid where
    ses: "ses = GdsMultipartSession (deployment md5) opts caps (od_bucket d) (od_key d) uid mx" and
    s1: "sees (\<lambda>gw m. serving cap gw \<and> staging cap uid bid ?dest ?objs (\<lambda>pn x. x = []) (gw_co gw) \<and> m = ?mem) s1" by auto
  have "received_parts cap uid bid ?dest ?objs ?mem parts {} s1"
    using s1 by (auto simp: received_parts_def sees_def arrived_def elim: staging_weaken)
  note all = gds_parts.all_delivered [OF assms(6) _ this, of md5 opts caps "od_bucket d" "od_key d" mx]
  note refs = upload_parts_every_part_once [OF assms(6)]
  have u: "up_session u = ses" "\<not> up_finished u" using refs by (simp_all add: set_checksum_policy_def UploadImpl_init_def)
  have "mset (up_parts u) = mset (map (\<lambda>i. (ps_part_number (parts ! i), to_etag (outs ! i))) [0..<length parts])"
    using refs by (simp add: set_checksum_policy_def UploadImpl_init_def)
  note nums = refs_numbers(1) [OF this] and len = refs_numbers(2) [OF this]
  have call: "run_state (complete_session (deployment md5) opts uid GPUDirect (up_parts u)) s2 = (Inr res, s3)"
    using assms(7) u ses by (auto simp: MultipartUpload_Complete_def SnapshotPartsForComplete_def GdsMultipartSession_def split: prod.splits if_splits)
  from complete_call [OF this] obtain m co where
    c: "CompleteUpload memory_backend (now_of (cw s2)) uid (ToPartRecords (up_parts u)) (ClientDataFlow_ToString GPUDirect) (gw_co (wd_gw (cw s2))) = (Inr m, co)"
      "wd_gw (cw s3) = set_co co (wd_gw (cw s2))" "wd_memory (cw s3) = wd_memory (cw s2)"
      "res = \<lparr>cr_etag = etag m, cr_version = version m, cr_content_length = content_length m\<rparr>" by blast
  have order: "sort (map ps_part_number parts) = [1..<length parts + 1]"
  proof -
    have "sort (map fst (up_parts u)) = [1..<length parts + 1]"
      using complete_checked [OF c(1)] assms(2) len by (auto simp: parts_accepted_def)
    then show ?thesis using nums by (metis sorted_list_of_multiset_mset)
  qed
  have "distinct (map ps_part_number parts)" using order by (metis distinct_sort distinct_upt)
  moreover have "bv_size (ps_buffer p) \<le> (\<Sum>p\<leftarrow>parts. bv_size (ps_buffer p))" if "p \<in> set parts" for p
    using that by (simp add: member_le_sum_list)
  ultimately have ok: "sendable cap parts" using assms(3,4) by (fastforce simp: sendable_def)
  have del: "sees (\<lambda>gw m. serving cap gw \<and> staging cap uid bid ?dest ?objs (arrived ?mem parts {0..<length parts}) (gw_co gw) \<and> m = ?mem) s2"
      "\<forall>i < length parts. to_bytes_transferred (outs ! i) = bv_size (ps_buffer (parts ! i))"
    using all ok ses by (simp_all add: received_parts_def set_checksum_policy_def UploadImpl_init_def image_image)
  have here: "\<forall>p \<in> set parts. \<forall>x. arrived ?mem parts {0..<length parts} (ps_part_number p) x \<longrightarrow> x = part_bytes ?mem p"
    by (fastforce simp: arrived_def in_set_conv_nth)
  have size: "length (part_bytes ?mem p) = bv_size (ps_buffer p)" for p by (simp add: part_bytes_def)
  have "map to_bytes_transferred outs = map (\<lambda>p. bv_size (ps_buffer p)) parts" using del(2) refs by (intro nth_equalityI) auto
  then show ?thesis
    using complete_assembles [of cap "wd_gw (cw s2)" uid bid "od_bucket d" "od_key d" ?objs _ _ _ _ _ _ parts "part_bytes ?mem", OF _ _ c(1) _ order here]
      del(1) nums size assms(2,4) len c order by (simp add: sees_def)
qed

text \<open>The descriptor \<^verbatim>\<open>StartUpload\<close> fills in.\<close>

definition upload_descriptor :: "string \<Rightarrow> string \<Rightarrow> nat \<Rightarrow> string \<Rightarrow> ObjectDescriptor" where
  "upload_descriptor bucket key total_size ikey =
     \<lparr>od_bucket = bucket, od_key = key, od_data_flow = GPUDirect, od_checksum_policy = ''none'', od_offset = None, od_length = None,
      od_expected_total_size = Some total_size, od_idempotency_key = ikey\<rparr>"

lemma StartUpload_gds:
  assumes "o_data_flow (cc_options core) = GPUDirect"
  shows "run_state (Client_StartUpload P core bucket key False total_size ikey) s = ((st, Some u), s1) \<Longrightarrow>
      \<exists>st ses. run_state (GdsMultipartFlow_CreateSession P (cc_options core) (cc_caps core) (upload_descriptor bucket key total_size ikey)) s =
        ((st, Some ses), s1) \<and> u = UploadImpl_init ses GPUDirect"
    "cc_initialized core \<Longrightarrow>
      run_state (GdsMultipartFlow_CreateSession P (cc_options core) (cc_caps core) (upload_descriptor bucket key total_size ikey)) s =
        ((Status_Ok, Some ses), s1) \<Longrightarrow>
      run_state (Client_StartUpload P core bucket key False total_size ikey) s = ((Status_Ok, Some (UploadImpl_init ses GPUDirect)), s1)"
  using assms
  by (auto simp: Client_StartUpload_def SelectFlow_def upload_descriptor_def Status_Ok_def split: if_splits prod.splits)

text \<open>C3: a multipart upload through client and gateway. When \<^verbatim>\<open>StartUpload\<close> over GDS opened an upload on a gateway with the memory backend, \<^verbatim>\<open>UploadParts\<close>
  succeeded, with any number of workers in any interleaving and whatever retries, and \<^verbatim>\<open>Complete\<close> succeeded, then the parts were numbered from 1 without gap, the
  object is the bytes of the callers' buffers in the order of the part numbers, under the etag and version that \<^verbatim>\<open>Complete\<close> returned and with the
  length it returned, every outcome reports the size of its part, and no other object and no memory of the client has changed. A later \<^verbatim>\<open>GetObject\<close> of any range inside the object
  that succeeds, by one session or parallel ones, puts exactly those bytes into the buffer it was given.\<close>

theorem client_multipart_stores_object:
  assumes "opens_uploads cap (wd_gw (cw s))" "o_data_flow (cc_options core) = GPUDirect" "length parts < 2 ^ 32"
    and "\<forall>p \<in> set parts. bv_data (ps_buffer p) < u64_mod" "cap + (\<Sum>p\<leftarrow>parts. bv_size (ps_buffer p)) < u64_mod"
    and "run_state (Client_StartUpload (deployment md5) core bucket key False total_size ikey) s = ((st, Some u), s1)"
    and "UploadParts parts n (set_checksum_policy policy u) s1 (Inr outs) u1 s2"
    and "run_state (MultipartUpload_Complete u1) s2 = ((Inr res, u2), s3)"
  shows "sort (map ps_part_number parts) = [1..<length parts + 1] \<and>
    stored bucket key (concat (map (part_bytes (wd_memory (cw s))) (sort_key ps_part_number parts))) (cr_etag res) (cr_version res) (wd_gw (cw s3)) \<and>
    cr_content_length res = (\<Sum>p\<leftarrow>parts. bv_size (ps_buffer p)) \<and>
    map to_bytes_transferred outs = map (\<lambda>p. bv_size (ps_buffer p)) parts \<and>
    (\<forall>oid. oid \<noteq> MakeKey bucket key \<longrightarrow>
      bodies (cb_data (backend_of (wd_gw (cw s3)))) oid = bodies (cb_data (backend_of (wd_gw (cw s)))) oid) \<and>
    wd_memory (cw s3) = wd_memory (cw s) \<and> serving cap (wd_gw (cw s3)) \<and>
    (\<forall>g d got s4. get_bucket g = bucket \<and> get_key g = key \<and> 0 < asked g d \<and> get_offset g + asked g d \<le> cr_content_length res \<and>
       (\<forall>n. get_length g = Some n \<longrightarrow> n \<le> bv_size d) \<and> bv_data d + bv_size d \<le> u64_mod \<and>
       run_state (Client_GetObject (deployment md5) core g d) s3 = (Inr got, s4) \<longrightarrow>
       read_mem (cw s4) (bv_data d) (asked g d) = take (asked g d) (drop (get_offset g)
         (concat (map (part_bytes (wd_memory (cw s))) (sort_key ps_part_number parts)))) \<and>
       to_bytes_transferred got = asked g d \<and> to_etag got = cr_etag res \<and> to_version got = cr_version res)"
proof -
  from StartUpload_gds(1) [OF assms(2,6)] obtain st' ses where
    c: "run_state (GdsMultipartFlow_CreateSession (deployment md5) (cc_options core) (cc_caps core) (upload_descriptor bucket key total_size ikey)) s =
        ((st', Some ses), s1)" "u = UploadImpl_init ses GPUDirect" by blast
  let ?data = "concat (map (part_bytes (wd_memory (cw s))) (sort_key ps_part_number parts))"
  note st = gds_multipart_stores_object [OF assms(1,3,4,5) c(1) assms(7) [unfolded c(2)] assms(8), unfolded upload_descriptor_def ObjectDescriptor.select_convs]
  have "length ?data = (\<Sum>p\<leftarrow>sort_key ps_part_number parts. bv_size (ps_buffer p))" by (simp add: length_concat part_bytes_def comp_def)
  also have "\<dots> = (\<Sum>p\<leftarrow>parts. bv_size (ps_buffer p))"
    by (simp only: sum_mset_sum_list [symmetric] mset_map mset_sort)
  finally have len: "length ?data = (\<Sum>p\<leftarrow>parts. bv_size (ps_buffer p))" .
  have stored: "stored bucket key ?data (cr_etag res) (cr_version res) (wd_gw (cw s3))" "serving cap (wd_gw (cw s3))"
      "cr_content_length res = length ?data" "length ?data < u64_mod"
    using st assms(5) len by simp_all
  have "read_mem (cw s4) (bv_data d) (asked g d) = take (asked g d) (drop (get_offset g) ?data) \<and>
       to_bytes_transferred got = asked g d \<and> to_etag got = cr_etag res \<and> to_version got = cr_version res"
    if "get_bucket g = bucket" "get_key g = key" "0 < asked g d" "get_offset g + asked g d \<le> cr_content_length res"
      "\<forall>n. get_length g = Some n \<longrightarrow> n \<le> bv_size d" "bv_data d + bv_size d \<le> u64_mod"
      "run_state (Client_GetObject (deployment md5) core g d) s3 = (Inr got, s4)" for g d got s4
    using client_get_reads [OF stored(2) _ assms(2) stored(4) _ that(3,5-7)] that(1,2,4) stored(1,3) by simp
  then show ?thesis using st by blast
qed

end
