(* ===== verification/Multipart_Availability.thy ===== *)
theory Multipart_Availability
  imports Multipart_Deployment
begin

text \<open>
  Progress of a multipart upload over GDS: against a healthy gateway with room for the parts, every part the workers of \<^verbatim>\<open>UploadParts\<close> send is
  accepted, so that the upload fails only where a worker cannot bind its CUDA device, and \<^verbatim>\<open>Complete\<close> succeeds.
\<close>

section \<open>The gateway accepts a part\<close>

definition used_of :: "MemoryCoordinator \<Rightarrow> nat" where
  "used_of co = used_bytes (cb_data (co_backend co))"

lemma write_part_succeeds:
  assumes "memory_backend_reach cap c" "cap + length src < u64_mod" "content (staged_parts (cb_data c) u pn) = []"
    and "used_bytes (cb_data c) + length src \<le> cap"
  shows "\<exists>c'. be_WritePart memory_backend now u pn 0 src c = (Inr (MakePartEtag now pn (length src)), c') \<and>
    used_bytes (cb_data c') = used_bytes (cb_data c) + length src"
proof -
  have inv: "data_store_inv (cb_data c)" "capacity_bytes (cb_data c) = cap" "fits (cb_data c) (0 + length src)"
    using memory_backend_reach_inv [OF assms(1)] assms(2) by (auto simp: fits_def composite_inv_def)
  have "part_at (mpu_at (cb_data c) u) pn = []" using assms(3) by (simp add: part_at_content)
  then show ?thesis
    using WritePart_eval [OF inv(1,3), of u pn] assms(4) inv(2)
    by (simp add: CompositeBackend_WritePart_def part_exceeds_def grow_part_def new_part_def Let_def write_at_def)
qed

lemma upload_part_succeeds:
  assumes "staging cap uid bid dest objs K co" "MultipartStore_Find uid (co_store co) = Some r" "grants a n ex"
    and "ca_transferred a = int n" "length (ca_received a) = n" "cap + n < u64_mod" "\<forall>x. K pn x \<longrightarrow> x = []" "used_of co + n \<le> cap"
  shows "\<exists>p ex' co'. GdsMultipart_UploadPart memory_backend md5 a now uid pn 0 n pol (ex, co) = (Inr p, ex', co') \<and> gp_part_etag p \<noteq> [] \<and>
    g_server ex' \<and> g_pool ex' \<noteq> None \<and> gds_wf ex' \<and> g_opts ex' = g_opts ex \<and> used_of co' = used_of co + n \<and> min_part_size co' = min_part_size co \<and>
    MultipartStore_Find uid (co_store co') = Some r \<and>
    u_state (uploads (co_store co') ! r) = u_state (uploads (co_store co) ! r) \<and>
    u_data_flow (uploads (co_store co') ! r) = u_data_flow (uploads (co_store co) ! r) \<and>
    u_parts (uploads (co_store co') ! r) = (u_parts (uploads (co_store co) ! r))
      (pn \<mapsto> \<lparr>pp_part_number = pn, pp_offset = 0, pp_size = n, pp_etag = gp_part_etag p\<rparr>)"
proof -
  let ?u = "uploads (co_store co) ! r" and ?c = "co_backend co" and ?d = "ca_received a"
  have st: "memory_backend_reach cap ?c" "backend_upload_id ?u = bid" "\<And>n. K n (content (staged_parts (cb_data ?c) bid n))"
    using assms(1,2) by (auto simp: staging_def)
  have r: "r < length (uploads (co_store co))"
    using wf_entry find_registered [OF assms(2)] assms(1) by (fastforce simp: staging_def memory_coordinator_inv_def coordinator_inv_def)
  obtain c' where c': "be_WritePart memory_backend now bid pn 0 ?d ?c = (Inr (MakePartEtag now pn n), c')" "used_bytes (cb_data c') = used_of co + n"
    using write_part_succeeds [OF st(1), of ?d bid pn now] st(3) [of pn] assms(5-8) by (auto simp: used_of_def)
  let ?persist = "persist_part memory_backend md5 now bid pn 0 pol"
  obtain e u1 where p: "?persist ?d (?c, Some ?u) = (Inr e, c', Some u1)" "e \<noteq> []" "u_state u1 = u_state ?u" "u_data_flow u1 = u_data_flow ?u" "u_parts u1 = u_parts ?u"
    using c'(1) by (cases "pol = ''md5''") (auto simp: persist_part_def md5_accumulate_def MakePartEtag_def quoted_def digest_etag_def Let_def simp del: memory_backend_ops)
  have view: "take (nat (ca_transferred a)) ?d = ?d" "0 \<le> ca_transferred a" using assms(4,5) by simp_all
  obtain ex' where t: "put_through a n ?persist (ex, ?c, Some ?u) = (Inr e, ex', c', Some u1)" "g_server ex'" "g_pool ex' \<noteq> None"
    using put_through_granted [OF assms(3) view(2), of ?persist "(?c, Some ?u)"] view(1) p(1) by auto
  have wf: "gds_wf ex'" "g_opts ex' = g_opts ex"
    using put_through_released [OF _ t(1)] assms(3) by (auto simp: grants_def)
  have "PutPart memory_backend md5 a now bid pn 0 n pol (ex, ?c, Some ?u) = (Inr e, ex', c', Some u1)"
    using t(1) assms(3) by (simp add: PutPart_def grants_def)
  then show ?thesis
    using assms(2) st(2) r p t(2,3) wf c'(2)
    by (simp add: GdsMultipart_UploadPart_def Lookup_def RegisterPart_def MultipartStore_Find_def used_of_def update_upload_def Let_def)
qed

lemma put_part_succeeds:
  fixes w n q
  defines "a \<equiv> put_answers w (gcr_rdma_token q) n"
  assumes "serving cap gw" "session_for b k None (gcr_session_id q) gw" "gds_up lmt gw" "gcr_rdma_token q \<noteq> []"
    and "staging cap (gcr_upload_id q) bid dest objs K (gw_co gw)" "MultipartStore_Find (gcr_upload_id q) (co_store (gw_co gw)) = Some r"
    and "gcr_part_number q = pn" "gcr_chunk_offset q = 0" "gcr_chunk_size q = n" "0 < n" "n \<le> lmt" "cap + n < u64_mod"
    and "\<forall>x. K pn x \<longrightarrow> x = []" "used_of (gw_co gw) + n \<le> cap"
  shows "\<exists>v gw'. HandleGdsPut memory_backend md5 a now q gw = (Inr v, gw') \<and> gds_up lmt gw' \<and> gcp_etag v \<noteq> [] \<and>
    used_of (gw_co gw') = used_of (gw_co gw) + n \<and> min_part_size (gw_co gw') = min_part_size (gw_co gw) \<and>
    MultipartStore_Find (gcr_upload_id q) (co_store (gw_co gw')) = Some r \<and>
    u_state (uploads (co_store (gw_co gw')) ! r) = u_state (uploads (co_store (gw_co gw)) ! r) \<and>
    u_data_flow (uploads (co_store (gw_co gw')) ! r) = u_data_flow (uploads (co_store (gw_co gw)) ! r) \<and>
    u_parts (uploads (co_store (gw_co gw')) ! r) = (u_parts (uploads (co_store (gw_co gw)) ! r))
      (pn \<mapsto> \<lparr>pp_part_number = pn, pp_offset = 0, pp_size = n, pp_etag = gcp_etag v\<rparr>)"
proof -
  obtain x where x: "SessionStore_Find (gcr_session_id q) (gw_sessions gw) = Inr x" "gcr_session_id q \<noteq> []"
    using assms(3) by (auto simp: session_for_def)
  have ready: "chunk_ready a q gw x"
    using x assms(4,5) by (simp add: chunk_ready_def a_def put_answers_def GdsExecutor_available_def gds_up_def)
  have gr: "grants a n (gw_gds gw)" unfolding a_def by (rule up_grants) (use assms in auto)
  have view: "ca_transferred a = int n" "length (ca_received a) = n" by (simp_all add: a_def put_answers_def read_mem_def)
  have uid: "gcr_upload_id q \<noteq> []" using assms(6) by (simp add: staging_def)
  from upload_part_succeeds [OF assms(6,7) gr view assms(13-15), of md5 now "gcr_checksum_policy q"] obtain p ex co where
    p: "GdsMultipart_UploadPart memory_backend md5 a now (gcr_upload_id q) pn 0 n (gcr_checksum_policy q) (gw_gds gw, gw_co gw) = (Inr p, ex, co)"
      "gp_part_etag p \<noteq> []" "g_server ex" "g_pool ex \<noteq> None" "gds_wf ex" "g_opts ex = g_opts (gw_gds gw)"
      "used_of co = used_of (gw_co gw) + n" "min_part_size co = min_part_size (gw_co gw)" "MultipartStore_Find (gcr_upload_id q) (co_store co) = Some r"
      "u_state (uploads (co_store co) ! r) = u_state (uploads (co_store (gw_co gw)) ! r)"
      "u_data_flow (uploads (co_store co) ! r) = u_data_flow (uploads (co_store (gw_co gw)) ! r)"
      "u_parts (uploads (co_store co) ! r) = (u_parts (uploads (co_store (gw_co gw)) ! r))
        (pn \<mapsto> \<lparr>pp_part_number = pn, pp_offset = 0, pp_size = n, pp_etag = gp_part_etag p\<rparr>)" by blast
  have up: "gds_up lmt (set_co co ((bumped x gw)\<lparr>gw_gds := ex\<rparr>))" using assms(4) p(3-6) by (simp add: gds_up_def)
  have "HandleGdsPut memory_backend md5 a now q gw = (Inr (FillGdsResponse (gateway_id (sessions (gw_sessions (bumped x gw)) ! x)) ''completed''
      (gp_rdma_reply p) (gp_part_etag p) [] (gp_crc32c p)), set_co co ((bumped x gw)\<lparr>gw_gds := ex\<rparr>))"
    using Prepare_ready [OF ready] assms(8-10) uid p(1) by (simp add: HandleGdsPut_def)
  then show ?thesis using up p by (simp add: FillGdsResponse_def)
qed

section \<open>The client sends a part\<close>

text \<open>A request for a part as the client builds it.\<close>

definition part_chunk :: "PutObjectRequest \<Rightarrow> BufferView \<Rightarrow> string \<Rightarrow> nat \<Rightarrow> GdsChunkRequest \<Rightarrow> MemoryBackend Gateway \<Rightarrow> bool" where
  "part_chunk q b uid pn rq gw \<longleftrightarrow> session_for (put_bucket q) (put_key q) None (gcr_session_id rq) gw \<and> gcr_upload_id rq = uid \<and>
     gcr_part_number rq = pn \<and> gcr_chunk_offset rq = 0 \<and> gcr_chunk_size rq = bv_size b \<and> gcr_rdma_token rq \<noteq> []"

lemma execute_part_live:
  assumes "bv_data b \<noteq> 0" "bv_size b \<noteq> 0" "uid \<noteq> []"
    and step: "\<And>gw w now rq. gds_up lmt gw \<Longrightarrow> serving cap gw \<Longrightarrow> K (gw_co gw) \<Longrightarrow> part_chunk q b uid pn rq gw \<Longrightarrow>
      \<exists>v gw'. HandleGdsPut memory_backend md5 (put_answers w (gcr_rdma_token rq) (bv_size b)) now rq gw = (Inr v, gw') \<and>
        gds_up lmt gw' \<and> Q (gcp_etag v) (gw_co gw')"
  shows "valid (live t lmt (\<lambda>gw m. serving cap gw \<and> K (gw_co gw) \<and> session_for (put_bucket q) (put_key q) None (ts_session_id ses) gw))
    (ExecutePutPart (deployment md5) opts ses q b uid pn) (\<lambda>r s. \<exists>x. r = Inr x \<and> live t lmt (\<lambda>gw m. Q (to_etag x) (gw_co gw)) s)"
proof -
  let ?K = "\<lambda>gw m. serving cap gw \<and> K (gw_co gw) \<and> session_for (put_bucket q) (put_key q) None (ts_session_id ses) gw"
  let ?d = "SetMultipart uid pn (ChunkDispatcher_put ses q kPut)"
  let ?op = "MakeChunkOp opts (chunk_plan_of ?d (rdma_token (bv_data b)) 0 (bv_size b))"
  let ?q = "BuildGdsChunkRequest ?op"
  have rq: "session_for (put_bucket q) (put_key q) None (ts_session_id ses) gw \<Longrightarrow> part_chunk q b uid pn ?q gw"
      "gcr_rdma_token ?q = rdma_token (bv_data b)" "gcr_chunk_size ?q = bv_size b" "ck_operation ?op \<noteq> kGet" "rdma_token (bv_data b) \<noteq> []" for gw
    using assms(3) by (simp_all add: part_chunk_def BuildGdsChunkRequest_def MakeChunkOp_def chunk_plan_of_def ChunkDispatcher_put_def SetMultipart_def
        rdma_token_def u64_sub_def u64_mod_def)
  have disp: "valid (live t lmt ?K) (Dispatch (deployment md5) opts ?d (rdma_token (bv_data b)) 0 (bv_size b))
      (\<lambda>r s. \<exists>x. r = Inr x \<and> live t lmt (\<lambda>gw m. Q (do_etag x) (gw_co gw)) s)"
    unfolding valid_def
  proof (intro allI impI)
    fix s assume s: "live t lmt ?K s"
    obtain ch where ch: "gds_stub s = Some ch" using s by (auto simp: live_def)
    have "gds_up lmt (wd_gw (cw s))" "serving cap (wd_gw (cw s))" "K (gw_co (wd_gw (cw s)))" "part_chunk q b uid pn ?q (wd_gw (cw s))"
      using s rq(1) by (auto simp: live_def sees_def)
    from step [OF this, of "cw s" "nat t"] obtain v gw' where
      h: "HandleGdsPut memory_backend md5 (put_answers (cw s) (rdma_token (bv_data b)) (bv_size b)) (nat t) ?q (wd_gw (cw s)) = (Inr v, gw')"
        "gds_up lmt gw'" "Q (gcp_etag v) (gw_co gw')" using rq(2) by auto
    show "case run_state (Dispatch (deployment md5) opts ?d (rdma_token (bv_data b)) 0 (bv_size b)) s of
        (r, s) \<Rightarrow> \<exists>x. r = Inr x \<and> live t lmt (\<lambda>gw m. Q (do_etag x) (gw_co gw)) s"
      using s h(2,3) rq
      by (simp add: Dispatch_def GdsChunk_def ch live_def sees_def deployment_def dep_GdsPut_def h(1) reply_def CheckRpcFailure_def)
  qed
  have "valid (live t lmt ?K) (with_token (deployment md5) (bv_data b) (bv_size b) kPut (\<lambda>tok. do {
        disp \<leftarrow> Dispatch (deployment md5) opts ?d tok 0 (bv_size b);
        or_fail disp (\<lambda>v. do {
          _ \<leftarrow> report_progress (put_progress_callback q) (bv_size b) (bv_size b) GPUDirect;
          ret (Inr (transfer_outcome ses v (bv_size b))) }) })) (\<lambda>r s. \<exists>x. r = Inr x \<and> live t lmt (\<lambda>gw m. Q (to_etag x) (gw_co gw)) s)"
    by (rule with_token_live [OF assms(1,2)], rule valid_seq [OF disp])
      (auto simp: valid_def report_progress_def live_def sees_def transfer_outcome_def)
  then show ?thesis using assms(1-3) by (simp add: ExecutePutPart_def ExecuteTransferPut_def Let_def)
qed

lemma gds_part_live:
  assumes "put_idempotency_key q = []" "bv_data b \<noteq> 0" "bv_size b \<noteq> 0" "bv_type b = kCudaDevice" "uid \<noteq> []"
    and "cuobject_available caps" "0 < o_request_timeout opts" "put_single_max_bytes (o_gds opts) = 0 \<or> bv_size b \<le> put_single_max_bytes (o_gds opts)"
    and step: "\<And>gw w now rq. gds_up lmt gw \<Longrightarrow> serving cap gw \<Longrightarrow> K (gw_co gw) \<Longrightarrow> part_chunk q b uid pn rq gw \<Longrightarrow>
      \<exists>v gw'. HandleGdsPut memory_backend md5 (put_answers w (gcr_rdma_token rq) (bv_size b)) now rq gw = (Inr v, gw') \<and>
        gds_up lmt gw' \<and> Q (gcp_etag v) (gw_co gw')"
  shows "valid (live t lmt (\<lambda>gw m. serving cap gw \<and> K (gw_co gw))) (GdsTransferPath_PutObjectPart (deployment md5) opts caps q b uid pn)
    (\<lambda>r s. \<exists>x. r = Inr x \<and> live t lmt (\<lambda>gw m. Q (to_etag x) (gw_co gw)) s)"
proof -
  note exec = execute_part_live [OF assms(2,3,5) step]
  have gates: "PreflightGds (GdsTransferPath_available caps) (bv_type b) = Inr True" "too_large opts w1 w2 b = Inr True" for w1 w2
    using assms(4,6,8) by (auto simp: PreflightGds_def CommonPreflight_def GdsTransferPath_available_def too_large_def Let_def)
  show ?thesis
    unfolding GdsTransferPath_PutObjectPart_def gates or_fail_def sum.case
    by (rule valid_seq [OF now_live], rule valid_pure, rule valid_retry_first, rule put_attempt_live [OF assms(1-4)])
      (use assms(7) exec in simp_all)
qed

section \<open>The session accepts every part\<close>

definition active_upload :: "string \<Rightarrow> PartSpec list \<Rightarrow> (nat \<times> TransferOutcome) set \<Rightarrow> MemoryCoordinator \<Rightarrow> bool" where
  "active_upload uid parts M co \<longleftrightarrow> (\<exists>r. MultipartStore_Find uid (co_store co) = Some r \<and> u_state (uploads (co_store co) ! r) = kUpActive \<and>
     u_data_flow (uploads (co_store co) ! r) = ClientDataFlow_ToString GPUDirect \<and>
     (\<forall>(i, v) \<in> M. to_etag v \<noteq> [] \<and> (\<exists>pp. u_parts (uploads (co_store co) ! r) (ps_part_number (parts ! i)) = Some pp \<and>
        pp_etag pp = to_etag v \<and> pp_size pp = bv_size (ps_buffer (parts ! i)))))"

definition expected :: "(nat \<Rightarrow> byte) \<Rightarrow> PartSpec list \<Rightarrow> nat set \<Rightarrow> nat \<Rightarrow> bytes \<Rightarrow> bool" where
  "expected mem parts A pn x \<longleftrightarrow>
     (\<forall>i < length parts. ps_part_number (parts ! i) = pn \<longrightarrow> x = (if i \<in> A then part_bytes mem (parts ! i) else []))"

definition still_to_send :: "PartSpec list \<Rightarrow> nat set \<Rightarrow> nat" where
  "still_to_send parts A = (\<Sum>i\<in>{..<length parts} - A. bv_size (ps_buffer (parts ! i)))"

lemma still_to_send_insert:
  "i < length parts \<Longrightarrow> i \<notin> A \<Longrightarrow> still_to_send parts A = bv_size (ps_buffer (parts ! i)) + still_to_send parts (insert i A)"
  unfolding still_to_send_def by (subst sum.remove [of _ i]) (auto intro: sum.cong)

definition awaiting :: "nat \<Rightarrow> nat \<Rightarrow> string \<Rightarrow> PartSpec list \<Rightarrow> (nat \<times> TransferOutcome) set \<Rightarrow> MemoryCoordinator \<Rightarrow> bool" where
  "awaiting mn cap uid parts M co \<longleftrightarrow> used_of co + still_to_send parts (fst ` M) \<le> cap \<and> min_part_size co = mn \<and>
     fst ` M \<subseteq> {..<length parts} \<and> active_upload uid parts M co"

lemma awaiting_part:
  assumes "serving cap gw" "gds_up lmt gw" "part_chunk q (ps_buffer (parts ! i)) uid (ps_part_number (parts ! i)) rq gw"
    and "sendable cap parts" "i < length parts" "i \<notin> fst ` M" "0 < bv_size (ps_buffer (parts ! i))" "bv_size (ps_buffer (parts ! i)) \<le> lmt"
    and "staging cap uid bid dest objs (expected mem parts (fst ` M)) (gw_co gw)" "awaiting mn cap uid parts M (gw_co gw)"
  shows "\<exists>v gw'. HandleGdsPut memory_backend md5 (put_answers w (gcr_rdma_token rq) (bv_size (ps_buffer (parts ! i)))) now rq gw = (Inr v, gw') \<and>
    gds_up lmt gw' \<and> (\<forall>out. to_etag out = gcp_etag v \<longrightarrow> awaiting mn cap uid parts (insert (i, out) M) (gw_co gw'))"
proof -
  let ?p = "parts ! i" and ?co = "gw_co gw"
  let ?n = "bv_size (ps_buffer ?p)" and ?pn = "ps_part_number (parts ! i)"
  note aw = assms(10) [unfolded awaiting_def]
  obtain r where r: "MultipartStore_Find uid (co_store ?co) = Some r" "u_state (uploads (co_store ?co) ! r) = kUpActive"
      "u_data_flow (uploads (co_store ?co) ! r) = ClientDataFlow_ToString GPUDirect"
      "\<forall>(j, v) \<in> M. to_etag v \<noteq> [] \<and> (\<exists>pp. u_parts (uploads (co_store ?co) ! r) (ps_part_number (parts ! j)) = Some pp \<and>
        pp_etag pp = to_etag v \<and> pp_size pp = bv_size (ps_buffer (parts ! j)))"
    using aw by (auto simp: active_upload_def)
  have room: "used_of ?co + ?n + still_to_send parts (insert i (fst ` M)) \<le> cap" using aw still_to_send_insert [OF assms(5,6)] by simp
  have blank: "\<forall>x. expected mem parts (fst ` M) ?pn x \<longrightarrow> x = []" using assms(5,6) by (auto simp: expected_def)
  have other: "ps_part_number (parts ! j) \<noteq> ?pn" if "(j, v) \<in> M" for j v
    using that aw assms(6) same_number [OF assms(4) _ assms(5)] by force
  have "cap + ?n < u64_mod" using assms(4,5) by (auto simp: sendable_def)
  then have "\<exists>v gw'. HandleGdsPut memory_backend md5 (put_answers w (gcr_rdma_token rq) ?n) now rq gw = (Inr v, gw') \<and> gds_up lmt gw' \<and> gcp_etag v \<noteq> [] \<and>
      used_of (gw_co gw') = used_of ?co + ?n \<and> min_part_size (gw_co gw') = min_part_size ?co \<and>
      MultipartStore_Find uid (co_store (gw_co gw')) = Some r \<and>
      u_state (uploads (co_store (gw_co gw')) ! r) = u_state (uploads (co_store ?co) ! r) \<and>
      u_data_flow (uploads (co_store (gw_co gw')) ! r) = u_data_flow (uploads (co_store ?co) ! r) \<and>
      u_parts (uploads (co_store (gw_co gw')) ! r) = (u_parts (uploads (co_store ?co) ! r))
        (?pn \<mapsto> \<lparr>pp_part_number = ?pn, pp_offset = 0, pp_size = ?n, pp_etag = gcp_etag v\<rparr>)"
    using put_part_succeeds [of cap gw "put_bucket q" "put_key q" rq lmt bid dest objs "expected mem parts (fst ` M)" r ?pn ?n md5 w now]
      assms(1-3,7-9) r(1) blank room by (auto simp: part_chunk_def)
  then obtain v gw' where h: "HandleGdsPut memory_backend md5 (put_answers w (gcr_rdma_token rq) ?n) now rq gw = (Inr v, gw')" "gds_up lmt gw'"
      "gcp_etag v \<noteq> []" "used_of (gw_co gw') = used_of ?co + ?n" "min_part_size (gw_co gw') = min_part_size ?co"
      "MultipartStore_Find uid (co_store (gw_co gw')) = Some r" "u_state (uploads (co_store (gw_co gw')) ! r) = kUpActive"
      "u_data_flow (uploads (co_store (gw_co gw')) ! r) = ClientDataFlow_ToString GPUDirect"
      "u_parts (uploads (co_store (gw_co gw')) ! r) = (u_parts (uploads (co_store ?co) ! r))
        (?pn \<mapsto> \<lparr>pp_part_number = ?pn, pp_offset = 0, pp_size = ?n, pp_etag = gcp_etag v\<rparr>)"
    using r(2,3) by (elim exE conjE) (rule that, auto)
  have "awaiting mn cap uid parts (insert (i, out) M) (gw_co gw')" if "to_etag out = gcp_etag v" for out
    unfolding awaiting_def active_upload_def
    using h aw room r(4) other that assms(5) by (fastforce split: prod.splits)
  then show ?thesis using h(1,2) by blast
qed

text \<open>Device buffers within the limits of client and gateway.\<close>

definition acceptable :: "nat \<Rightarrow> nat \<Rightarrow> ClientOptions \<Rightarrow> PlatformCapabilities \<Rightarrow> PartSpec list \<Rightarrow> bool" where
  "acceptable lmt cap opts caps parts \<longleftrightarrow> sendable cap parts \<and> cuobject_available caps \<and> 0 < o_request_timeout opts \<and>
     (\<forall>p \<in> set parts. let b = ps_buffer p in bv_data b \<noteq> 0 \<and> bv_size b \<noteq> 0 \<and> bv_type b = kCudaDevice \<and> bv_size b \<le> lmt \<and>
        (put_single_max_bytes (o_gds opts) = 0 \<or> bv_size b \<le> put_single_max_bytes (o_gds opts)))"

definition progressing ::
  "int \<Rightarrow> nat \<Rightarrow> nat \<Rightarrow> nat \<Rightarrow> string \<Rightarrow> string \<Rightarrow> string \<times> string \<Rightarrow> (string \<rightharpoonup> bytes) \<Rightarrow> (nat \<Rightarrow> byte) \<Rightarrow> ClientOptions \<Rightarrow> PlatformCapabilities \<Rightarrow>
   PartSpec list \<Rightarrow> (nat \<times> TransferOutcome) set \<Rightarrow> World ClientState \<Rightarrow> bool" where
  "progressing t lmt mn cap uid bid dest objs mem opts caps parts M c \<longleftrightarrow> acceptable lmt cap opts caps parts \<and>
     live t lmt (\<lambda>gw m. serving cap gw \<and> staging cap uid bid dest objs (expected mem parts (fst ` M)) (gw_co gw) \<and>
       awaiting mn cap uid parts M (gw_co gw) \<and> m = mem) c"

lemma prompt_part:
  assumes "progressing t lmt mn cap uid bid dest objs mem opts caps parts M c" "i < length parts" "i \<notin> fst ` M"
  shows "\<exists>v c'. run_state (ms_UploadPart (GdsMultipartSession (deployment md5) opts caps bucket key uid mx) (ps_part_number (parts ! i)) off policy
      (ps_buffer (parts ! i))) c = (Inr v, c') \<and> progressing t lmt mn cap uid bid dest objs mem opts caps parts (insert (i, v) M) c'"
proof -
  let ?p = "parts ! i" and ?q = "part_request bucket key policy" and ?E = "expected mem parts (fst ` M)"
  let ?b = "ps_buffer ?p" and ?pn = "ps_part_number (parts ! i)"
  let ?K = "\<lambda>co. staging cap uid bid dest objs ?E co \<and> awaiting mn cap uid parts M co"
  let ?Q = "\<lambda>e co. \<forall>out. to_etag out = e \<longrightarrow> awaiting mn cap uid parts (insert (i, out) M) co"
  note st = assms(1) [unfolded progressing_def]
  have ok: "sendable cap parts" "cuobject_available caps" "0 < o_request_timeout opts" "bv_data ?b \<noteq> 0" "bv_size ?b \<noteq> 0"
      "bv_type ?b = kCudaDevice" "bv_size ?b \<le> lmt" "put_single_max_bytes (o_gds opts) = 0 \<or> bv_size ?b \<le> put_single_max_bytes (o_gds opts)"
    using st nth_mem [OF assms(2)] by (auto simp: acceptable_def Let_def)
  have lim: "uid \<noteq> []" "cap + bv_size ?b < u64_mod" "bv_data ?b < u64_mod"
    using ok(1) st nth_mem [OF assms(2)] by (auto simp: sendable_def live_def sees_def staging_def)
  have idem: "put_idempotency_key ?q = []" by (simp add: part_request_def PutObjectRequest_default_def)
  obtain r c' where run: "run_state (GdsTransferPath_PutObjectPart (deployment md5) opts caps ?q ?b uid ?pn) c = (r, c')" by fastforce
  have pos: "0 < bv_size ?b" using ok(5) by simp
  have step: "\<exists>v gw'. HandleGdsPut memory_backend md5 (put_answers w (gcr_rdma_token rq) (bv_size ?b)) now rq gw = (Inr v, gw') \<and>
      gds_up lmt gw' \<and> ?Q (gcp_etag v) (gw_co gw')"
    if "gds_up lmt gw" "serving cap gw" "?K (gw_co gw)" "part_chunk ?q ?b uid ?pn rq gw" for gw w now rq
    using that(3) by (elim conjE) (rule awaiting_part [OF that(2,1,4) ok(1) assms(2,3) pos ok(7)])
  have "live t lmt (\<lambda>gw m. serving cap gw \<and> ?K (gw_co gw)) c" using st by (auto simp: live_def sees_def)
  with validD [OF gds_part_live [where Q = ?Q and K = ?K and cap = cap and t = t, OF idem ok(4-6) lim(1) ok(2,3,8) step] run]
  obtain v where v: "r = Inr v" "live t lmt (\<lambda>gw m. awaiting mn cap uid parts (insert (i, v) M) (gw_co gw)) c'" by (auto simp: live_def sees_def)
  let ?L = "?E(?pn := \<lambda>x. x = [] \<or> x = part_bytes mem ?p)"
  have L: "\<forall>x. ?L ?pn x \<longrightarrow> x = [] \<or> x = part_bytes mem ?p" "?L ?pn (part_bytes mem ?p)" by simp_all
  have "?L n x" if "?E n x" for n x using that assms(2,3) by (auto simp: expected_def)
  then have "sees (\<lambda>gw m. serving cap gw \<and> staging cap uid bid dest objs ?L (gw_co gw) \<and> m = mem) c"
    using st by (auto simp: live_def sees_def elim: staging_weaken)
  from validD [OF gds_part_done [where K = ?L and pn = ?pn, OF idem lim(2,3,1) part_bytes_def L] run this]
  have fin: "serving cap (wd_gw (cw c'))" "wd_memory (cw c') = mem"
      "staging cap uid bid dest objs (?L(?pn := (=) (part_bytes mem ?p))) (gw_co (wd_gw (cw c')))"
    using v(1) by (auto simp: sees_def part_done_def part_bytes_def)
  have "expected mem parts (insert i (fst ` M)) n x" if "(?L(?pn := (=) (part_bytes mem ?p))) n x" for n x
    using that assms(2) same_number [OF ok(1) _ assms(2)] by (auto simp: expected_def split: if_splits)
  then have "staging cap uid bid dest objs (expected mem parts (insert i (fst ` M))) (gw_co (wd_gw (cw c')))"
    using fin(3) by (rule staging_weaken [rotated])
  then have "progressing t lmt mn cap uid bid dest objs mem opts caps parts (insert (i, v) M) c'"
    using st v(2) fin by (simp add: progressing_def live_def sees_def)
  then show ?thesis using run v(1) by (auto simp: GdsMultipartSession_def)
qed

interpretation prompt_parts: prompt_sink "GdsMultipartSession (deployment md5) opts caps bucket key uid mx" parts
  "progressing t lmt mn cap uid bid dest objs mem opts caps parts"
  for md5 opts caps bucket key uid mx parts t lmt mn cap bid dest objs mem
proof (unfold_locales, goal_cases)
  case (1 M c i policy v c')
  then show ?case using prompt_part [OF 1(1-3), of md5 bucket key mx "ps_object_offset (parts ! i)" policy] by auto
next
  case (2 M c i policy e c')
  then show ?case using prompt_part [OF 2(1-3), of md5 bucket key mx "ps_object_offset (parts ! i)" policy] by auto
next
  case (3 M c i policy)
  then show ?case using prompt_part [OF 3] by blast
qed

section \<open>The completion succeeds\<close>

lemma listed_le_reserved:
  assumes "mpu_wf mp" "distinct pns"
  shows "parts_size mp pns \<le> reserved_bytes mp"
proof -
  have fin: "finite (dom (mp_parts mp))" "reserved_bytes mp = (\<Sum>k\<in>dom (mp_parts mp). length (the (mp_parts mp k)))"
    using assms(1) by (simp_all add: mpu_wf_def map_sum_def)
  have "parts_size mp pns = (\<Sum>k\<in>set pns. length (part_at mp k))"
    using assms(2) by (simp add: parts_size_def sum_list_distinct_conv_sum_set)
  also have "\<dots> = (\<Sum>k\<in>set pns \<inter> dom (mp_parts mp). length (part_at mp k))"
    by (rule sum.mono_neutral_right) (auto simp: part_at_def split: option.splits)
  also have "\<dots> = (\<Sum>k\<in>set pns \<inter> dom (mp_parts mp). length (the (mp_parts mp k)))" by (rule sum.cong) (auto simp: part_at_def)
  also have "\<dots> \<le> reserved_bytes mp" unfolding fin(2) by (rule sum_mono2) (use fin(1) in auto)
  finally show ?thesis .
qed

text \<open>The assembled object takes no more room than the staging it replaces.\<close>

lemma assemble_succeeds:
  assumes "memory_backend_inv c" "mpu_targets c u = Some (b, k)" "distinct (map pr_part_number ps)" "ps \<noteq> []"
    and "fits (cb_data c) (\<Sum>p\<leftarrow>ps. length (content (staged_parts (cb_data c) u (pr_part_number p))))"
    and "\<forall>p \<in> set ps. staged_parts (cb_data c) u (pr_part_number p) \<noteq> None"
  shows "\<exists>m c'. be_CompleteMultipart memory_backend now u ps c = (Inr m, c')"
proof -
  let ?s = "cb_data c" and ?pns = "sort (map pr_part_number ps)"
  have inv: "data_store_inv ?s" "ix_mpu (cb_index c) u \<noteq> None" using assms(1,2) by (auto simp: composite_inv_def)
  obtain mp where mp: "mpu ?s u = Some mp" "mpu_at ?s u = mp"
    using assms(4,6) by (cases "mpu ?s u") (auto simp: staged_parts_def mpu_at_def empty_mpu_def neq_Nil_conv)
  have dom: "set ?pns \<subseteq> dom (mp_parts mp)" using assms(6) mp(2) by (auto simp: staged_parts_def)
  have room: "fits ?s (parts_size (mpu_at ?s u) ?pns)" using assms(5) by (simp add: parts_size_staged sum_list_sort)
  have "mpu_wf mp" using inv(1) mp(1) by (auto simp: data_store_inv_def)
  from listed_le_reserved [OF this, of ?pns] have "parts_size mp ?pns \<le> reserved_bytes mp" using assms(3) by simp
  then have "\<not> would_exceed (drop_staging u ?s) (length (body_at ?s (MakeKey b k))) (parts_size mp ?pns)"
    using reserved_used [OF inv(1), of u] inv(1) mp(2) by (auto simp: would_exceed_def drop_staging_def data_store_inv_def)
  then show ?thesis
    using AssembleObject_eval [OF inv(1) room, of b k] mp dom assms(2) inv(2)
    by (simp add: CompositeBackend_CompleteMultipart_def MemoryIndexStore_CommitMultipart_def Let_def MakeMeta_def)
qed

lemma complete_succeeds:
  assumes "staging cap uid bid dest objs K co" "MultipartStore_Find uid (co_store co) = Some r" "u_state (uploads (co_store co) ! r) = kUpActive"
    and "u_data_flow (uploads (co_store co) ! r) = dp" "parts_accepted (min_part_size co) (u_parts (uploads (co_store co) ! r)) ps" "ps \<noteq> []"
    and "length ps < 2 ^ 32" "\<forall>p \<in> set ps. \<not> K (pr_part_number p) []"
    and "cap + (\<Sum>p\<leftarrow>ps. length (content (staged_parts (cb_data (co_backend co)) bid (pr_part_number p)))) < u64_mod"
  shows "\<exists>m co'. CompleteUpload memory_backend now uid ps dp co = (Inr m, co')"
proof -
  let ?u = "uploads (co_store co) ! r"
  let ?st = "update_upload r (\<lambda>u. u\<lparr>u_state := kUpCompleting\<rparr>) (co_store co)"
  note st = assms(1) [unfolded staging_def memory_coordinator_inv_def]
  have bid: "backend_upload_id ?u = bid" "r < length (uploads (co_store co))"
    using st assms(2) wf_entry find_registered [OF assms(2)] by (auto simp: coordinator_inv_def)
  have b: "backend_upload_id (uploads ?st ! r) = bid" using bid by (simp add: nth_update_upload)
  have inv: "memory_backend_inv (co_backend co)" "capacity_bytes (cb_data (co_backend co)) = cap"
    using memory_backend_reach_inv [of cap "co_backend co"] st by auto
  have target: "mpu_targets (co_backend co) bid = Some dest"
    using st assms(2) find_registered [OF assms(2)] bid by (auto simp: coordinator_inv_def)
  have staged: "\<forall>p \<in> set ps. staged_parts (cb_data (co_backend co)) bid (pr_part_number p) \<noteq> None"
  proof (intro ballI notI)
    fix p assume p: "p \<in> set ps" "staged_parts (cb_data (co_backend co)) bid (pr_part_number p) = None"
    have "K (pr_part_number p) (content (staged_parts (cb_data (co_backend co)) bid (pr_part_number p)))" using st by blast
    then show False using p assms(8) by simp
  qed
  have "sort (map pr_part_number ps) = [1..<length ps + 1]" using assms(5) by (simp add: parts_accepted_def)
  then have dist: "distinct (map pr_part_number ps)" by (metis distinct_sort distinct_upt)
  obtain bk k where d: "dest = (bk, k)" by (cases dest)
  obtain m c' where run: "be_CompleteMultipart memory_backend now bid ps (co_backend co) = (Inr m, c')"
    using assemble_succeeds [OF inv(1) target [unfolded d] dist assms(6) _ staged, of now] assms(9) inv(2) by (auto simp: fits_def)
  have "validate_parts (min_part_size co) (u_parts ?u) (length ps) 0 (sort_key pr_part_number ps) = None"
    using validate_sorted [OF assms(7)] assms(5) by simp
  then show ?thesis
    using assms(2-4,6) b run
    by (simp add: CompleteUpload_def complete_claim_def complete_finish_def Let_def del: memory_backend_ops)
qed

section \<open>From the first call to the last\<close>

lemma create_progress:
  assumes "opens_uploads cap gw"
  shows "\<exists>v co. CreateUpload memory_backend now params (gw_co gw) = (Inr v, co) \<and> StartUploadResult.sur_max_part_size v = max_part_size (gw_co gw) \<and>
    used_of co = used_of (gw_co gw) \<and> min_part_size co = min_part_size (gw_co gw) \<and>
    (\<exists>r. MultipartStore_Find (StartUploadResult.sur_upload_id v) (co_store co) = Some r \<and> u_state (uploads (co_store co) ! r) = kUpActive \<and>
      u_data_flow (uploads (co_store co) ! r) = sup_data_flow params)"
proof -
  note o = assms [unfolded opens_uploads_def memory_coordinator_inv_def]
  from memory_mp.create_ok [of "gw_co gw" now params] o obtain co r where
    c: "CreateUpload memory_backend now params (gw_co gw) =
        (Inr \<lparr>sur_upload_id = new_upload_id now (co_store (gw_co gw)), sur_max_part_size = max_part_size (gw_co gw)\<rparr>, co)"
      "MultipartStore_Find (new_upload_id now (co_store (gw_co gw))) (co_store co) = Some r" "u_state (uploads (co_store co) ! r) = kUpActive"
      "u_data_flow (uploads (co_store co) ! r) = sup_data_flow params" by blast
  have "memory_backend_inv (backend_of gw)" "seq_left (cb_index (backend_of gw))" using o by (simp_all add: coordinator_inv_def)
  from mem.start_run [OF this, of now "sup_bucket params" "sup_object_key params" "sup_expected_total_size params"]
  have "cb_data (co_backend co) = cb_data (backend_of gw) \<and> min_part_size co = min_part_size (gw_co gw)"
    using c(1) by (auto simp: CreateUpload_def Let_def split: prod.splits)
  then show ?thesis using c by (simp add: used_of_def)
qed

definition upload_accepted ::
  "int \<Rightarrow> nat \<Rightarrow> nat \<Rightarrow> ClientOptions \<Rightarrow> PlatformCapabilities \<Rightarrow> ObjectDescriptor \<Rightarrow> PartSpec list \<Rightarrow> World ClientState \<Rightarrow> bool" where
  "upload_accepted t lmt cap opts caps d parts s \<longleftrightarrow>
     live t lmt (\<lambda>gw m. opens_uploads cap gw) s \<and> acceptable lmt cap opts caps parts \<and> od_data_flow d = GPUDirect \<and> parts \<noteq> [] \<and>
     length parts < 2 ^ 32 \<and> sort (map ps_part_number parts) = [1..<length parts + 1] \<and>
     (let co = gw_co (wd_gw (cw s)); total = (\<Sum>p\<leftarrow>parts. bv_size (ps_buffer p)) in
      used_of co + total \<le> cap \<and> cap + total < u64_mod \<and>
      (\<forall>p \<in> set parts. (max_part_size co = 0 \<or> bv_size (ps_buffer p) \<le> max_part_size co) \<and>
         (ps_part_number p \<noteq> length parts \<longrightarrow> min_part_size co \<le> bv_size (ps_buffer p))))"

lemma still_to_send_all: "still_to_send parts {} = (\<Sum>p\<leftarrow>parts. bv_size (ps_buffer p))"
  by (simp add: still_to_send_def sum_list_sum_nth atLeast0LessThan)

lemma create_session_progress:
  assumes "upload_accepted t lmt cap opts caps d parts s"
  shows "\<exists>uid bid s1. run_state (GdsMultipartFlow_CreateSession (deployment md5) opts caps d) s =
      ((Status_Ok, Some (GdsMultipartSession (deployment md5) opts caps (od_bucket d) (od_key d) uid (max_part_size (gw_co (wd_gw (cw s)))))), s1) \<and>
    progressing t lmt (min_part_size (gw_co (wd_gw (cw s)))) cap uid bid (od_bucket d, od_key d) (bodies (cb_data (backend_of (wd_gw (cw s)))))
      (wd_memory (cw s)) opts caps parts {} s1"
proof -
  let ?gw = "wd_gw (cw s)" and ?p = "ToStartUploadParams (BuildStartUploadRequest d)" and ?mem = "wd_memory (cw s)"
  let ?objs = "bodies (cb_data (backend_of ?gw))"
  note a = assms [unfolded upload_accepted_def Let_def]
  have opens: "opens_uploads cap ?gw" using a by (simp add: live_def sees_def)
  obtain v co r where c: "CreateUpload memory_backend (now_of (cw s)) ?p (gw_co ?gw) = (Inr v, co)" "StartUploadResult.sur_max_part_size v = max_part_size (gw_co ?gw)"
      "used_of co = used_of (gw_co ?gw)" "min_part_size co = min_part_size (gw_co ?gw)"
      "MultipartStore_Find (StartUploadResult.sur_upload_id v) (co_store co) = Some r" "u_state (uploads (co_store co) ! r) = kUpActive"
      "u_data_flow (uploads (co_store co) ! r) = sup_data_flow ?p"
    using create_progress [OF opens, of "now_of (cw s)" ?p] by blast
  have p: "sup_bucket ?p = od_bucket d" "sup_object_key ?p = od_key d" "sup_data_flow ?p = ClientDataFlow_ToString GPUDirect"
    using a by (simp_all add: ToStartUploadParams_def BuildStartUploadRequest_def)
  from create_staging [OF opens c(1)] p obtain bid where
    st: "staging cap (StartUploadResult.sur_upload_id v) bid (od_bucket d, od_key d) ?objs (\<lambda>pn x. x = []) co" by auto
  obtain ch where ch: "metadata_stub s = Some ch" using a by (auto simp: live_def)
  let ?s1 = "s\<lparr>cw := (cw s)\<lparr>wd_gw := set_co co ?gw\<rparr>\<rparr>"
  have run: "run_state (GdsMultipartFlow_CreateSession (deployment md5) opts caps d) s =
      ((Status_Ok, Some (GdsMultipartSession (deployment md5) opts caps (od_bucket d) (od_key d) (StartUploadResult.sur_upload_id v) (max_part_size (gw_co ?gw)))), ?s1)"
    using c(1,2)
    by (simp add: GdsMultipartFlow_CreateSession_def create_session_def RpcCreateMultipartUpload_def ch CheckRpcFailure_def deployment_def at_gateway_def
        reply_def map_reply_def Rpc_StartUpload_def MultipartApp_StartUpload_def)
  have "staging cap (StartUploadResult.sur_upload_id v) bid (od_bucket d, od_key d) ?objs (expected ?mem parts {}) co"
    using st by (rule staging_weaken) (simp add: expected_def)
  moreover have "awaiting (min_part_size (gw_co ?gw)) cap (StartUploadResult.sur_upload_id v) parts {} co"
    using a c p(3) by (auto simp: awaiting_def active_upload_def still_to_send_all)
  moreover have "live t lmt (\<lambda>gw m. True) ?s1" using a by (simp add: live_def sees_def gds_up_def)
  moreover have "serving cap (set_co co ?gw)" using opens st by (simp add: serving_def staging_def opens_uploads_def)
  ultimately show ?thesis using run a by (auto simp: progressing_def live_def sees_def)
qed

lemma expected_all:
  assumes "staging cap uid bid dest objs (expected mem parts {0..<length parts}) co" "p \<in> set parts"
  shows "content (staged_parts (cb_data (co_backend co)) bid (ps_part_number p)) = part_bytes mem p"
    "bv_size (ps_buffer p) \<noteq> 0 \<Longrightarrow> \<not> expected mem parts {0..<length parts} (ps_part_number p) []"
proof -
  obtain i where i: "i < length parts" "p = parts ! i" using assms(2) by (auto simp: in_set_conv_nth)
  have "expected mem parts {0..<length parts} (ps_part_number p) (content (staged_parts (cb_data (co_backend co)) bid (ps_part_number p)))"
    using assms(1) by (simp add: staging_def)
  then show "content (staged_parts (cb_data (co_backend co)) bid (ps_part_number p)) = part_bytes mem p" using i by (auto simp: expected_def)
  show "bv_size (ps_buffer p) \<noteq> 0 \<Longrightarrow> \<not> expected mem parts {0..<length parts} (ps_part_number p) []"
    using i by (auto simp: expected_def part_bytes_def)
qed

lemma complete_progress:
  assumes "progressing t lmt mn cap uid bid dest objs mem opts caps parts ((\<lambda>i. (i, outs ! i)) ` {0..<length parts}) s"
    and "mset refs = mset (map (\<lambda>i. (ps_part_number (parts ! i), to_etag (outs ! i))) [0..<length parts])" "parts \<noteq> []" "length parts < 2 ^ 32"
    and "sort (map ps_part_number parts) = [1..<length parts + 1]" "cap + (\<Sum>p\<leftarrow>parts. bv_size (ps_buffer p)) < u64_mod"
    and "\<forall>p \<in> set parts. ps_part_number p \<noteq> length parts \<longrightarrow> mn \<le> bv_size (ps_buffer p)"
  shows "\<exists>res s'. run_state (complete_session (deployment md5) opts uid GPUDirect refs) s = (Inr res, s')"
proof -
  let ?co = "gw_co (wd_gw (cw s))" and ?K = "expected mem parts {0..<length parts}" and ?ps = "ToPartRecords refs"
  let ?M = "(\<lambda>i. (i, outs ! i)) ` {0..<length parts}"
  have M: "fst ` ?M = {0..<length parts}" by (simp add: image_image)
  note st = assms(1) [unfolded progressing_def M live_def sees_def]
  obtain r where r: "MultipartStore_Find uid (co_store ?co) = Some r" "u_state (uploads (co_store ?co) ! r) = kUpActive"
      "u_data_flow (uploads (co_store ?co) ! r) = ClientDataFlow_ToString GPUDirect" "min_part_size ?co = mn"
      "\<And>i. i < length parts \<Longrightarrow> to_etag (outs ! i) \<noteq> [] \<and> (\<exists>pp. u_parts (uploads (co_store ?co) ! r) (ps_part_number (parts ! i)) = Some pp \<and>
        pp_etag pp = to_etag (outs ! i) \<and> pp_size pp = bv_size (ps_buffer (parts ! i)))"
    using st by (fastforce simp: awaiting_def active_upload_def)
  have refs: "set refs = (\<lambda>i. (ps_part_number (parts ! i), to_etag (outs ! i))) ` {0..<length parts}"
    using assms(2) by (metis mset_eq_setD set_map set_upt)
  note nums = refs_numbers(1) [OF assms(2)] and len = refs_numbers(2) [OF assms(2)]
  have stg: "staging cap uid bid dest objs ?K ?co" using st by simp
  have "sort (map fst refs) = [1..<length parts + 1]" using nums assms(5) by (metis sorted_list_of_multiset_mset)
  moreover have "part_accepted mn (u_parts (uploads (co_store ?co) ! r)) (length parts) p" if "p \<in> set ?ps" for p
    using that refs r(5) assms(7) by (fastforce simp: ToPartRecords_def part_accepted_def)
  ultimately have acc: "parts_accepted (min_part_size ?co) (u_parts (uploads (co_store ?co) ! r)) ?ps"
    using len r(4) by (simp add: parts_accepted_def)
  have listed: "pr_part_number p \<in> ps_part_number ` set parts" if "p \<in> set ?ps" for p
    using that refs by (force simp: ToPartRecords_def)
  have "mset (map pr_part_number ?ps) = mset (map ps_part_number parts)" using nums by simp
  from sum_by_number [OF this, of "\<lambda>pn. length (content (staged_parts (cb_data (co_backend ?co)) bid pn))"]
  have sum: "cap + (\<Sum>p\<leftarrow>?ps. length (content (staged_parts (cb_data (co_backend ?co)) bid (pr_part_number p)))) < u64_mod"
    using assms(6) expected_all(1) [OF stg] by (simp add: part_bytes_def cong: map_cong)
  have ne: "?ps \<noteq> []" "length ?ps < 2 ^ 32" using assms(3,4) len by (auto simp: ToPartRecords_def)
  have "\<forall>p \<in> set parts. bv_size (ps_buffer p) \<noteq> 0" using st by (auto simp: acceptable_def Let_def)
  then have full: "\<forall>p \<in> set ?ps. \<not> ?K (pr_part_number p) []" using listed expected_all(2) [OF stg] by fastforce
  obtain m co where c: "CompleteUpload memory_backend (now_of (cw s)) uid ?ps (ClientDataFlow_ToString GPUDirect) ?co = (Inr m, co)"
    using complete_succeeds [OF stg r(1-3) acc ne full sum] by blast
  obtain ch where ch: "metadata_stub s = Some ch" using st by auto
  show ?thesis
    using c by (simp add: complete_session_def RpcCompleteMultipartUpload_def ch CheckRpcFailure_def deployment_def at_gateway_def
        reply_def map_reply_def Rpc_CompleteUpload_def MultipartApp_CompleteUpload_def case_prod_beta)
qed

text \<open>The handle of an accepted upload, from the opened session to its completion.\<close>

definition gds_handle :: "(bytes \<Rightarrow> bytes) \<Rightarrow> ClientOptions \<Rightarrow> PlatformCapabilities \<Rightarrow> ObjectDescriptor \<Rightarrow> string \<Rightarrow> nat \<Rightarrow> string \<Rightarrow> World UploadImpl" where
  "gds_handle md5 opts caps d uid mx policy =
     set_checksum_policy policy (UploadImpl_init (GdsMultipartSession (deployment md5) opts caps (od_bucket d) (od_key d) uid mx) GPUDirect)"

lemma gds_handle_fields:
  "up_session (gds_handle md5 opts caps d uid mx policy) = GdsMultipartSession (deployment md5) opts caps (od_bucket d) (od_key d) uid mx"
  "up_parts (gds_handle md5 opts caps d uid mx policy) = []" "\<not> up_finished (gds_handle md5 opts caps d uid mx policy)"
  by (simp_all add: gds_handle_def set_checksum_policy_def UploadImpl_init_def)

lemma accepted_guards:
  assumes "upload_accepted t lmt cap opts caps d parts s"
  shows "\<forall>p \<in> set parts. \<exists>x. part_guard (gds_handle md5 opts caps d uid (max_part_size (gw_co (wd_gw (cw s)))) policy) (ps_buffer p) = Inr x"
  using assms gds_handle_fields by (auto simp: upload_accepted_def part_guard_def Let_def GdsMultipartSession_def acceptable_def)

lemma accepted_completes:
  assumes "upload_accepted t lmt cap opts caps d parts s"
    and "progressing t lmt (min_part_size (gw_co (wd_gw (cw s)))) cap uid bid dest objs mem opts caps parts {} s1"
    and "UploadParts parts n (gds_handle md5 opts caps d uid mx policy) s1 (Inr outs) u1 s2"
  shows "\<exists>res u2 s3. run_state (MultipartUpload_Complete u1) s2 = ((Inr res, u2), s3)"
proof -
  note a = assms(1) [unfolded upload_accepted_def Let_def] and u = gds_handle_fields [of md5 opts caps d uid mx policy]
  have refs: "mset (up_parts u1) = mset (map (\<lambda>i. (ps_part_number (parts ! i), to_etag (outs ! i))) [0..<length parts])"
      "up_session u1 = GdsMultipartSession (deployment md5) opts caps (od_bucket d) (od_key d) uid mx" "\<not> up_finished u1"
    using upload_parts_every_part_once [OF assms(3)] u by simp_all
  have min: "\<forall>p \<in> set parts. ps_part_number p \<noteq> length parts \<longrightarrow> min_part_size (gw_co (wd_gw (cw s))) \<le> bv_size (ps_buffer p)" using a by blast
  obtain res s3 where "run_state (complete_session (deployment md5) opts uid GPUDirect (up_parts u1)) s2 = (Inr res, s3)"
    using complete_progress [OF prompt_parts.all_delivered [OF assms(3) u(1) assms(2)] refs(1) _ _ _ _ min, of md5] a by blast
  then show ?thesis
    using refs(2,3) by (simp add: MultipartUpload_Complete_def SnapshotPartsForComplete_def GdsMultipartSession_def)
qed

lemma gds_multipart_progress:
  assumes "upload_accepted t lmt cap opts caps d parts s"
  shows "\<exists>ses s1. run_state (GdsMultipartFlow_CreateSession (deployment md5) opts caps d) s = ((Status_Ok, Some ses), s1) \<and>
    (let u = set_checksum_policy policy (UploadImpl_init ses GPUDirect) in
     (\<exists>outs u1 s2. UploadParts parts 1 u s1 (Inr outs) u1 s2) \<and>
     (\<forall>n e u1 s2. UploadParts parts n u s1 (Inl e) u1 s2 \<longrightarrow> e = cuda_error) \<and>
     (\<forall>n outs u1 s2. UploadParts parts n u s1 (Inr outs) u1 s2 \<longrightarrow>
        (\<exists>res u2 s3. run_state (MultipartUpload_Complete u1) s2 = ((Inr res, u2), s3))))"
proof -
  let ?mx = "max_part_size (gw_co (wd_gw (cw s)))"
  from create_session_progress [OF assms, of md5] obtain uid bid s1 where
    c: "run_state (GdsMultipartFlow_CreateSession (deployment md5) opts caps d) s =
        ((Status_Ok, Some (GdsMultipartSession (deployment md5) opts caps (od_bucket d) (od_key d) uid ?mx)), s1)"
      "progressing t lmt (min_part_size (gw_co (wd_gw (cw s)))) cap uid bid (od_bucket d, od_key d) (bodies (cb_data (backend_of (wd_gw (cw s)))))
        (wd_memory (cw s)) opts caps parts {} s1"
    by blast
  let ?u = "gds_handle md5 opts caps d uid ?mx policy"
  note guard = accepted_guards [OF assms, of md5 uid policy]
  have "\<exists>outs u1 s2. UploadParts parts 1 ?u s1 (Inr outs) u1 s2"
    using prompt_parts.schedule_succeeds [OF _ gds_handle_fields(1) c(2) guard] assms by (simp add: upload_accepted_def)
  moreover have "e = cuda_error" if "UploadParts parts n ?u s1 (Inl e) u1 s2" for n e u1 s2
    by (rule prompt_parts.only_device_fails [OF that gds_handle_fields(1) c(2) guard])
  ultimately show ?thesis
    using c(1) accepted_completes [OF assms c(2)] unfolding Let_def gds_handle_def by blast
qed

text \<open>C4: a multipart upload over GDS makes progress. When the client is connected, the gateway is up and has room, and the parts are device buffers within the
  limits, numbered from 1 without gap, then the upload is opened; \<^verbatim>\<open>UploadParts\<close> has a run that succeeds; under any number of workers and
  any interleaving it fails only with the error of a worker that could not bind its CUDA device; and after every successful
  run \<^verbatim>\<open>Complete\<close> succeeds.\<close>

theorem client_multipart_progress:
  assumes "upload_accepted t lmt cap (cc_options core) (cc_caps core) (upload_descriptor bucket key total_size ikey) parts s"
    and "cc_initialized core" "o_data_flow (cc_options core) = GPUDirect"
  shows "\<exists>u s1. run_state (Client_StartUpload (deployment md5) core bucket key False total_size ikey) s = ((Status_Ok, Some u), s1) \<and>
    (\<exists>outs u1 s2. UploadParts parts 1 (set_checksum_policy policy u) s1 (Inr outs) u1 s2) \<and>
    (\<forall>n e u1 s2. UploadParts parts n (set_checksum_policy policy u) s1 (Inl e) u1 s2 \<longrightarrow> e = cuda_error) \<and>
    (\<forall>n outs u1 s2. UploadParts parts n (set_checksum_policy policy u) s1 (Inr outs) u1 s2 \<longrightarrow>
       (\<exists>res u2 s3. run_state (MultipartUpload_Complete u1) s2 = ((Inr res, u2), s3)))"
proof -
  from gds_multipart_progress [OF assms(1), of md5 policy] obtain ses s1 where
    g: "run_state (GdsMultipartFlow_CreateSession (deployment md5) (cc_options core) (cc_caps core) (upload_descriptor bucket key total_size ikey)) s =
        ((Status_Ok, Some ses), s1)"
      "\<exists>outs u1 s2. UploadParts parts 1 (set_checksum_policy policy (UploadImpl_init ses GPUDirect)) s1 (Inr outs) u1 s2"
      "\<forall>n e u1 s2. UploadParts parts n (set_checksum_policy policy (UploadImpl_init ses GPUDirect)) s1 (Inl e) u1 s2 \<longrightarrow> e = cuda_error"
      "\<forall>n outs u1 s2. UploadParts parts n (set_checksum_policy policy (UploadImpl_init ses GPUDirect)) s1 (Inr outs) u1 s2 \<longrightarrow>
        (\<exists>res u2 s3. run_state (MultipartUpload_Complete u1) s2 = ((Inr res, u2), s3))"
    unfolding Let_def by blast
  show ?thesis using StartUpload_gds(2) [OF assms(3,2) g(1)] g(2-4) by blast
qed

section \<open>An upload of two parts\<close>

definition device_part :: "nat \<Rightarrow> nat \<Rightarrow> nat \<Rightarrow> PartSpec" where
  "device_part pn ptr n = \<lparr>ps_part_number = pn, ps_object_offset = 0, ps_buffer = \<lparr>bv_data = ptr, bv_size = n, bv_type = kCudaDevice\<rparr>\<rparr>"

definition example_parts :: "PartSpec list" where
  "example_parts = [device_part 2 64 3, device_part 1 128 2]"

lemma example_coordinator: "gw_co (wd_gw example_world) = MemoryCoordinator_init 10 60 8 0"
  by (simp add: example_world_def example_gateway_def UcxExecutor_init_def)

lemma example_opens: "opens_uploads 10 (wd_gw example_world)"
proof -
  have "memory_coordinator_inv (MemoryCoordinator_init 10 60 8 0)"
    by (rule coordinator_reach_inv [OF coordinator_reach.init]) (simp add: u64_mod_def)
  then show ?thesis
    using example_serving
    by (simp add: opens_uploads_def example_coordinator)
      (simp add: MemoryCoordinator_init_def MultipartStore_init_def MemoryBackend_init_def MemoryDataStore_init_def MemoryIndexStore_init_def
        staged_parts_def mpu_at_def empty_mpu_def seq_left_def u64_mod_def)
qed

lemma example_upload_accepted:
  "upload_accepted 7 1024 10 (cc_options example_core) (cc_caps example_core) (upload_descriptor ''b'' ''k'' 0 []) example_parts example_process"
proof -
  have "live 7 1024 (\<lambda>gw m. opens_uploads 10 gw) example_process"
    using example_up example_opens by (simp add: live_def sees_def example_process_def) (simp add: example_world_def)
  moreover have "acceptable 1024 10 (cc_options example_core) (cc_caps example_core) example_parts"
    by (simp add: acceptable_def sendable_def example_parts_def device_part_def example_core_def ClientOptions_default_def GdsClientOptions_default_def
        u64_mod_def)
  moreover have "gw_co (wd_gw (cw example_process)) = MemoryCoordinator_init 10 60 8 0" by (simp add: example_process_def example_coordinator)
  ultimately show ?thesis
    by (simp add: upload_accepted_def example_parts_def device_part_def upload_descriptor_def upt_rec used_of_def MemoryCoordinator_init_def
        MemoryBackend_init_def MemoryDataStore_init_def u64_mod_def)
qed

lemma example_core_facts: "cc_initialized example_core" "o_data_flow (cc_options example_core) = GPUDirect"
  by (simp_all add: example_core_def)

theorem client_multipart_progress_witness:
  "\<exists>u s1 outs u1 s2. run_state (Client_StartUpload (deployment id) example_core ''b'' ''k'' False 0 []) example_process = ((Status_Ok, Some u), s1) \<and>
    UploadParts example_parts 1 (set_checksum_policy ''md5'' u) s1 (Inr outs) u1 s2 \<and>
    (\<exists>res u2 s3. run_state (MultipartUpload_Complete u1) s2 = ((Inr res, u2), s3))"
  using client_multipart_progress [OF example_upload_accepted example_core_facts, of id "''md5''"] by blast

lemma example_upload_run:
  "\<exists>u s1 outs u1 s2 res u2 s3.
    run_state (Client_StartUpload (deployment id) example_core ''b'' ''k'' False 0 []) example_process = ((Status_Ok, Some u), s1) \<and>
    UploadParts example_parts 1 (set_checksum_policy ''none'' u) s1 (Inr outs) u1 s2 \<and>
    run_state (MultipartUpload_Complete u1) s2 = ((Inr res, u2), s3)"
proof -
  from gds_multipart_progress [OF example_upload_accepted, of id "''none''"] obtain ses s1 outs u1 s2 where
    g: "run_state (GdsMultipartFlow_CreateSession (deployment id) (cc_options example_core) (cc_caps example_core) (upload_descriptor ''b'' ''k'' 0 []))
        example_process = ((Status_Ok, Some ses), s1)"
      "UploadParts example_parts 1 (set_checksum_policy ''none'' (UploadImpl_init ses GPUDirect)) s1 (Inr outs) u1 s2"
      "\<exists>res u2 s3. run_state (MultipartUpload_Complete u1) s2 = ((Inr res, u2), s3)"
    unfolding Let_def by blast
  from StartUpload_gds(2) [OF example_core_facts(2,1) g(1)] g(2,3) show ?thesis by blast
qed

theorem client_multipart_stores_object_witness:
  "\<exists>u s1 outs u1 s2 res u2 s3.
    run_state (Client_StartUpload (deployment id) example_core ''b'' ''k'' False 0 []) example_process = ((Status_Ok, Some u), s1) \<and>
    UploadParts example_parts 1 (set_checksum_policy ''none'' u) s1 (Inr outs) u1 s2 \<and>
    run_state (MultipartUpload_Complete u1) s2 = ((Inr res, u2), s3) \<and>
    stored ''b'' ''k'' [128, 129, 64, 65, 66] (cr_etag res) (cr_version res) (wd_gw (cw s3)) \<and> cr_content_length res = 5"
proof -
  from example_upload_run obtain u s1 outs u1 s2 res u2 s3 where
    run: "run_state (Client_StartUpload (deployment id) example_core ''b'' ''k'' False 0 []) example_process = ((Status_Ok, Some u), s1)"
      "UploadParts example_parts 1 (set_checksum_policy ''none'' u) s1 (Inr outs) u1 s2"
      "run_state (MultipartUpload_Complete u1) s2 = ((Inr res, u2), s3)" by blast
  have "opens_uploads 10 (wd_gw (cw example_process))" using example_opens by (simp add: example_process_def)
  note rt = client_multipart_stores_object [OF this example_core_facts(2) _ _ _ run]
  have "stored ''b'' ''k'' [128, 129, 64, 65, 66] (cr_etag res) (cr_version res) (wd_gw (cw s3)) \<and> cr_content_length res = 5"
    using rt by (simp add: example_parts_def device_part_def u64_mod_def) (simp add: example_process_def example_world_def part_bytes_def upt_rec)
  then show ?thesis using run by blast
qed

end
