(* ===== verification/Client_Ucx.thy ===== *)
theory Client_Ucx
  imports Client_Rdma Thread_Stop
begin

text \<open>
  The UCX objects of the client's RDMA path: \<^verbatim>\<open>transports/ucx/ucx_context.cpp\<close>, \<^verbatim>\<open>transports/ucx/ucx_worker.cpp\<close> with its progress
  thread, the destructor of \<^verbatim>\<open>transports/ucx/ucx_endpoint_pool.cpp\<close>, and their construction and release by
  \<^verbatim>\<open>core/rdma/rdma_transfer_path.cpp\<close>. The progress thread and the destructors run as a step relation. Between two operations
  of the path the pool may change in every way that \<^verbatim>\<open>Client_Rdma\<close> shows an operation can change it.
\<close>

section \<open>Construction\<close>

definition UcxContext_Create :: "bool \<Rightarrow> string option \<Rightarrow> UcxLib \<Rightarrow> unit cresult \<times> UcxLib" where
  "UcxContext_Create config_read status l =
     (let l = ucp_config_read config_read l;
          l = (if config_read then ucp_config_modify l else l);
          l = ucp_init (status = None) l;
          l = (if config_read then ucp_config_release l else l) in
      case status of
        Some m \<Rightarrow> (Inl (MakeRegistrationFailure m), l)
      | None \<Rightarrow> (Inr (), l))"

definition UcxContext_destruct :: "bool \<Rightarrow> UcxLib \<Rightarrow> UcxLib" where
  "UcxContext_destruct ctx l = (if ctx then ucp_cleanup l else l)"

text \<open>Where the progress thread stands: before the load of the flag, before a progress call of the loop, in the last calls, returned.
  The number is the count of idle rounds, or of the last calls made.\<close>

datatype ProgressThread = AtLoad nat | AtProgress nat | Draining nat | Returned

definition kSpinCountBeforeYield :: nat where "kSpinCountBeforeYield = 64"

datatype Teardown = InUse | ClosePool | StopWorker | SignalWorker | JoinWorker | DestroyWorker | DropContext | Gone

record RdmaUcx =
  ru_ctx :: bool
  ru_worker :: bool
  ru_pool :: "(string \<Rightarrow> EpSlot list) option"
  ru_stop :: bool
  ru_thread :: "ProgressThread option"
  ru_closing :: "EpSlot list"
  ru_phase :: Teardown
  ru_lib :: UcxLib

definition UcxWorker_Create :: "string option \<Rightarrow> UcxLib \<Rightarrow> ProgressThread cresult \<times> UcxLib" where
  "UcxWorker_Create status l =
     (let l = ucp_worker_create (status = None) l in
      case status of
        Some m \<Rightarrow> (Inl (MakeRegistrationFailure m), l)
      | None \<Rightarrow> (Inr (AtLoad 0), l))"

text \<open>On an early return the local context is destroyed with its result.\<close>

definition RdmaTransferPath_construct :: "bool \<Rightarrow> string option \<Rightarrow> string option \<Rightarrow> UcxLib \<Rightarrow> RdmaUcx" where
  "RdmaTransferPath_construct config_read init_status worker_status l =
     (let none = (\<lambda>l. \<lparr>ru_ctx = False, ru_worker = False, ru_pool = None, ru_stop = False, ru_thread = None, ru_closing = [],
                       ru_phase = InUse, ru_lib = l\<rparr>) in
      case UcxContext_Create config_read init_status l of
        (Inl e, l) \<Rightarrow> none l
      | (Inr _, l) \<Rightarrow>
          (case UcxWorker_Create worker_status l of
             (Inl e, l) \<Rightarrow> none (UcxContext_destruct True l)
           | (Inr t, l) \<Rightarrow>
               (none l)\<lparr>ru_ctx := True, ru_worker := True, ru_pool := Some (\<lambda>_. []), ru_thread := Some t\<rparr>))"

text \<open>The part of \<^verbatim>\<open>available\<close> that the assembly of the client takes as one flag.\<close>

definition ucx_created :: "RdmaUcx \<Rightarrow> bool" where
  "ucx_created p \<longleftrightarrow> ru_ctx p \<and> ru_worker p \<and> ru_pool p \<noteq> None"

section \<open>The progress thread\<close>

definition next_idle :: "bool \<Rightarrow> nat \<Rightarrow> nat" where
  "next_idle worked idle_count = (if worked then 0 else if idle_count + 1 > kSpinCountBeforeYield then 0 else idle_count + 1)"

inductive ProgressLoop_step :: "RdmaUcx \<Rightarrow> RdmaUcx \<Rightarrow> bool" where
  load: "ru_thread p = Some (AtLoad i) \<Longrightarrow>
    ProgressLoop_step p (p\<lparr>ru_thread := Some (if ru_stop p then Draining 0 else AtProgress i)\<rparr>)"
| progress: "ru_thread p = Some (AtProgress i) \<Longrightarrow>
    ProgressLoop_step p (p\<lparr>ru_thread := Some (AtLoad (next_idle worked i)), ru_lib := on_worker (ru_lib p)\<rparr>)"
| drain: "ru_thread p = Some (Draining n) \<Longrightarrow> n < 16 \<Longrightarrow>
    ProgressLoop_step p (p\<lparr>ru_thread := Some (Draining (n + 1)), ru_lib := on_worker (ru_lib p)\<rparr>)"
| leave: "ru_thread p = Some (Draining n) \<Longrightarrow> \<not> n < 16 \<Longrightarrow> ProgressLoop_step p (p\<lparr>ru_thread := Some Returned\<rparr>)"

inductive_cases ProgressLoop_stepE: "ProgressLoop_step p p'"

section \<open>Release\<close>

text \<open>One slot of the pool: at most 100 rounds of progress while the close request is pending.\<close>

definition close_slot :: "nat \<Rightarrow> EpSlot \<Rightarrow> UcxLib \<Rightarrow> UcxLib" where
  "close_slot polls slot l =
     (let l = (case rkey slot of None \<Rightarrow> l | Some k \<Rightarrow> ucp_rkey_destroy k l);
          l = (case ep slot of None \<Rightarrow> misused True l | Some e \<Rightarrow> ucp_ep_close e l) in
      (on_worker ^^ min polls 100) l)"

text \<open>The destructor of the path: the pool, the worker in four steps, the context. The order in which the table of the pool is traversed is
  arbitrary. A destructor of an empty pointer does nothing.\<close>

inductive destruct_step :: "RdmaUcx \<Rightarrow> RdmaUcx \<Rightarrow> bool" where
  start: "ru_phase p = InUse \<Longrightarrow> ru_pool p = Some pool \<Longrightarrow> distinct ks \<Longrightarrow> set ks = {k. pool k \<noteq> []} \<Longrightarrow>
    destruct_step p (p\<lparr>ru_phase := ClosePool, ru_closing := concat (map pool ks)\<rparr>)"
| start_empty: "ru_phase p = InUse \<Longrightarrow> ru_pool p = None \<Longrightarrow> destruct_step p (p\<lparr>ru_phase := ClosePool\<rparr>)"
| close: "ru_phase p = ClosePool \<Longrightarrow> ru_closing p = slot # rest \<Longrightarrow>
    destruct_step p (p\<lparr>ru_closing := rest, ru_lib := close_slot polls slot (ru_lib p)\<rparr>)"
| closed: "ru_phase p = ClosePool \<Longrightarrow> ru_closing p = [] \<Longrightarrow> destruct_step p (p\<lparr>ru_pool := None, ru_phase := StopWorker\<rparr>)"
| no_worker: "ru_phase p = StopWorker \<Longrightarrow> \<not> ru_worker p \<Longrightarrow> destruct_step p (p\<lparr>ru_phase := DropContext\<rparr>)"
| stop: "ru_phase p = StopWorker \<Longrightarrow> ru_worker p \<Longrightarrow> destruct_step p (p\<lparr>ru_stop := True, ru_phase := SignalWorker\<rparr>)"
| signal: "ru_phase p = SignalWorker \<Longrightarrow> destruct_step p (p\<lparr>ru_lib := on_worker (ru_lib p), ru_phase := JoinWorker\<rparr>)"
| join: "ru_phase p = JoinWorker \<Longrightarrow> ru_thread p = Some Returned \<Longrightarrow>
    destruct_step p (p\<lparr>ru_thread := None, ru_phase := DestroyWorker\<rparr>)"
| destroy: "ru_phase p = DestroyWorker \<Longrightarrow>
    destruct_step p (p\<lparr>ru_lib := ucp_worker_destroy (ru_lib p), ru_worker := False, ru_phase := DropContext\<rparr>)"
| drop: "ru_phase p = DropContext \<Longrightarrow>
    destruct_step p (p\<lparr>ru_lib := UcxContext_destruct (ru_ctx p) (ru_lib p), ru_ctx := False, ru_phase := Gone\<rparr>)"

text \<open>An operation of the path between its first and last access to the pool, as \<^verbatim>\<open>rdma_put_no_leak\<close> describes it.\<close>

inductive use_step :: "nat \<Rightarrow> RdmaUcx \<Rightarrow> RdmaUcx \<Rightarrow> bool" for m where
  "ru_phase p = InUse \<Longrightarrow> ru_pool p \<noteq> None \<Longrightarrow> ep_pool_wf m pool \<Longrightarrow>
     use_step m p (p\<lparr>ru_pool := Some pool, ru_lib := (ru_lib p)\<lparr>ul_eps := pooled pool\<rparr>\<rparr>)"

definition path_step :: "nat \<Rightarrow> RdmaUcx \<Rightarrow> RdmaUcx \<Rightarrow> bool" where
  "path_step m p p' \<longleftrightarrow> ProgressLoop_step p p' \<or> destruct_step p p' \<or> use_step m p p'"

inductive path_reach :: "nat \<Rightarrow> RdmaUcx \<Rightarrow> bool" for m where
  init: "path_reach m (RdmaTransferPath_construct c i w UcxLib_fresh)"
| step: "path_reach m p \<Longrightarrow> path_step m p p' \<Longrightarrow> path_reach m p'"

section \<open>The objects are used while they exist\<close>

lemma pooled_concat:
  assumes "distinct ks" "set ks = {k. pool k \<noteq> []}"
  shows "pooled pool = slots_mset (concat (map pool ks))"
proof -
  have "(\<Sum>k\<in>set ks. slots_mset (pool k)) = slots_mset (concat (map pool ks))"
    using assms(1) by (induction ks) (simp_all add: slots_mset_def)
  then show ?thesis by (simp add: pooled_def assms(2))
qed

definition slots_ok :: "EpSlot list \<Rightarrow> bool" where
  "slots_ok l \<longleftrightarrow> (\<forall>slot \<in> set l. ep slot \<noteq> None \<and> rkey slot = None)"

fun worker_phase :: "Teardown \<Rightarrow> bool" where
  "worker_phase DropContext = False"
| "worker_phase Gone = False"
| "worker_phase _ = True"

text \<open>The counters stay within their limits, and the thread leaves its loop only after the flag was set.\<close>

fun thread_ok :: "bool \<Rightarrow> ProgressThread \<Rightarrow> bool" where
  "thread_ok stop (AtLoad i) \<longleftrightarrow> i \<le> kSpinCountBeforeYield"
| "thread_ok stop (AtProgress i) \<longleftrightarrow> i \<le> kSpinCountBeforeYield"
| "thread_ok stop (Draining n) \<longleftrightarrow> stop \<and> n \<le> 16"
| "thread_ok stop Returned \<longleftrightarrow> stop"

lemma next_idle_bound: "next_idle worked i \<le> kSpinCountBeforeYield"
  by (simp add: next_idle_def)

lemma thread_ok_stop: "thread_ok stop t \<Longrightarrow> thread_ok True t"
  by (cases t) simp_all

text \<open>The members, the library and the thread agree in every phase.\<close>

definition path_ok :: "nat \<Rightarrow> RdmaUcx \<Rightarrow> bool" where
  "path_ok m p \<longleftrightarrow> \<not> ul_misuse (ru_lib p) \<and> \<not> ul_config (ru_lib p) \<and> \<not> ul_listener (ru_lib p) \<and> ul_rkeys (ru_lib p) = {#} \<and>
     ru_ctx p = ul_ctx (ru_lib p) \<and> ru_worker p = ul_worker (ru_lib p) \<and>
     (ru_worker p \<longrightarrow> ru_ctx p) \<and> (ru_worker p \<longrightarrow> worker_phase (ru_phase p)) \<and>
     (ru_phase p \<in> {InUse, ClosePool, StopWorker} \<longrightarrow> ru_ctx p = ru_worker p \<and> (ru_thread p = None \<longleftrightarrow> \<not> ru_worker p) \<and> \<not> ru_stop p) \<and>
     (ru_phase p \<in> {SignalWorker, JoinWorker} \<longrightarrow> ru_worker p \<and> ru_thread p \<noteq> None \<and> ru_stop p) \<and>
     (ru_phase p = DestroyWorker \<longrightarrow> ru_worker p) \<and>
     (ru_phase p \<in> {DestroyWorker, DropContext, Gone} \<longrightarrow> ru_thread p = None) \<and>
     (ru_phase p = Gone \<longrightarrow> \<not> ru_ctx p) \<and> (\<forall>t. ru_thread p = Some t \<longrightarrow> thread_ok (ru_stop p) t) \<and>
     (case ru_phase p of
        InUse \<Rightarrow> ru_closing p = [] \<and> (ru_pool p \<noteq> None \<longleftrightarrow> ru_worker p) \<and>
          (case ru_pool p of None \<Rightarrow> ul_eps (ru_lib p) = {#} | Some pool \<Rightarrow> ep_pool_wf m pool \<and> ul_eps (ru_lib p) = pooled pool)
      | ClosePool \<Rightarrow> slots_ok (ru_closing p) \<and> ul_eps (ru_lib p) = slots_mset (ru_closing p) \<and> (ru_closing p \<noteq> [] \<longrightarrow> ru_worker p)
      | _ \<Rightarrow> ul_eps (ru_lib p) = {#} \<and> ru_pool p = None)"

lemma construct_ok: "path_ok m (RdmaTransferPath_construct c i w UcxLib_fresh)"
  by (cases i; cases w; cases c)
    (simp_all add: path_ok_def RdmaTransferPath_construct_def UcxContext_Create_def UcxWorker_Create_def UcxContext_destruct_def
      UcxLib_fresh_def ucx_lib_defs Let_def ep_pool_wf_def pooled_def)

lemma progress_ok:
  assumes "ProgressLoop_step p p'" "path_ok m p"
  shows "path_ok m p'"
proof -
  have w: "ru_thread p \<noteq> None \<Longrightarrow> ul_worker (ru_lib p)" using assms(2) by (cases "ru_phase p") (auto simp: path_ok_def)
  show ?thesis using assms
    by (cases rule: ProgressLoop_step.cases; cases "ru_phase p") (use w next_idle_bound in \<open>auto simp: path_ok_def\<close>)
qed

lemma close_slot_ok:
  assumes "ul_worker l" "ep slot = Some e" "rkey slot = None" "e \<in># ul_eps l" "\<not> ul_misuse l"
  shows "close_slot n slot l = l\<lparr>ul_eps := ul_eps l - {#e#}\<rparr>"
  using assms by (simp add: close_slot_def ucp_ep_close_def misused_def)

lemma destruct_ok:
  assumes "destruct_step p p'" "path_ok m p"
  shows "path_ok m p'"
  using assms
proof (cases rule: destruct_step.cases)
  case (start pool ks)
  have wf: "ep_pool_wf m pool" "ul_eps (ru_lib p) = pooled pool" using start assms(2) by (auto simp: path_ok_def)
  then have "slots_ok (concat (map pool ks))" by (auto simp: ep_pool_wf_def slots_ok_def)
  then show ?thesis using start assms(2) wf pooled_concat [OF start(4,5)] by (auto simp: path_ok_def)
next
  case (close slot rest polls)
  have slots: "slots_ok (slot # rest)" "ul_eps (ru_lib p) = slots_mset (slot # rest)" "ul_worker (ru_lib p)" "\<not> ul_misuse (ru_lib p)"
    using close assms(2) by (auto simp: path_ok_def)
  then obtain e where e: "ep slot = Some e" "rkey slot = None" by (auto simp: slots_ok_def)
  have l: "close_slot polls slot (ru_lib p) = (ru_lib p)\<lparr>ul_eps := slots_mset rest\<rparr>"
    using close_slot_ok [OF slots(3) e _ slots(4)] slots(2) e by (simp add: slots_mset_def)
  then show ?thesis using close assms(2) slots by (auto simp: path_ok_def slots_ok_def)
qed (auto simp: path_ok_def slots_mset_def slots_ok_def ucx_lib_defs UcxContext_destruct_def intro: thread_ok_stop)

lemma path_ok_step: "path_ok m p \<Longrightarrow> path_step m p p' \<Longrightarrow> path_ok m p'"
  using progress_ok destruct_ok by (auto simp: path_step_def elim!: use_step.cases) (auto simp: path_ok_def)

lemma path_reach_ok: "path_reach m p \<Longrightarrow> path_ok m p"
  by (induction rule: path_reach.induct) (blast intro: construct_ok path_ok_step)+

section \<open>The release ends\<close>

fun thread_left :: "ProgressThread \<Rightarrow> nat" where
  "thread_left (AtProgress i) = 19"
| "thread_left (AtLoad i) = 18"
| "thread_left (Draining n) = Suc (16 - n)"
| "thread_left Returned = 0"

definition loop_left :: "RdmaUcx \<Rightarrow> nat" where
  "loop_left p = (case ru_thread p of None \<Rightarrow> 0 | Some t \<Rightarrow> thread_left t)"

lemma loop_closer:
  assumes "ProgressLoop_step p p'" "ru_stop p"
  shows "loop_left p' < loop_left p" "ru_stop p'" "ru_thread p' \<noteq> None" "ru_phase p' = ru_phase p" "ru_closing p' = ru_closing p"
  using assms by (auto simp: loop_left_def elim!: ProgressLoop_stepE)

interpretation client_loop: stoppable_thread ProgressLoop_step "\<lambda>p. ru_stop p \<and> ru_thread p \<noteq> None"
  "\<lambda>p. ru_thread p = Some Returned" loop_left
proof
  fix p :: RdmaUcx
  assume "ru_stop p \<and> ru_thread p \<noteq> None" "ru_thread p \<noteq> Some Returned"
  then obtain t where "ru_thread p = Some t" "t \<noteq> Returned" by auto
  then show "\<exists>p'. ProgressLoop_step p p'"
  proof (cases t)
    case (Draining n)
    with \<open>ru_thread p = Some t\<close> show ?thesis by (cases "n < 16") (auto intro: ProgressLoop_step.drain ProgressLoop_step.leave)
  qed (auto intro: ProgressLoop_step.intros)
qed (use loop_closer in auto)

fun phase_left :: "Teardown \<Rightarrow> nat" where
  "phase_left InUse = 7"
| "phase_left ClosePool = 6"
| "phase_left StopWorker = 5"
| "phase_left SignalWorker = 4"
| "phase_left JoinWorker = 3"
| "phase_left DestroyWorker = 2"
| "phase_left DropContext = 1"
| "phase_left Gone = 0"

definition release_left :: "RdmaUcx \<Rightarrow> nat" where
  "release_left p = phase_left (ru_phase p) + loop_left p"

text \<open>With the flag set only the thread and the destructor move, and both only forwards.\<close>

lemma release_closer:
  assumes "path_step m p p'" "path_ok m p" "ru_stop p"
  shows "release_left p' < release_left p \<and> ru_stop p'"
proof -
  have phase: "ru_phase p \<notin> {InUse, ClosePool, StopWorker}" using assms(2,3) by (auto simp: path_ok_def)
  consider "ProgressLoop_step p p'" | "destruct_step p p'" using assms(1) phase by (auto simp: path_step_def elim: use_step.cases)
  then show ?thesis
  proof cases
    case 1
    with loop_closer [OF 1 assms(3)] show ?thesis by (simp add: release_left_def)
  next
    case 2
    then show ?thesis using assms(3) phase
      by (cases rule: destruct_step.cases) (simp_all add: release_left_def loop_left_def)
  qed
qed

lemma release_enabled:
  assumes "path_ok m p" "ru_phase p \<noteq> Gone"
  shows "\<exists>p'. path_step m p p' \<and> (ru_phase p = InUse \<longrightarrow> ru_phase p' = ClosePool)"
proof -
  have "\<exists>p'. destruct_step p p' \<and> (ru_phase p = InUse \<longrightarrow> ru_phase p' = ClosePool)" if "ru_phase p \<noteq> JoinWorker"
  proof (cases "ru_phase p")
    case InUse
    show ?thesis
    proof (cases "ru_pool p")
      case (Some pool)
      have "finite {k. pool k \<noteq> []}" using assms(1) InUse Some by (auto simp: path_ok_def ep_pool_wf_def)
      then obtain ks where "set ks = {k. pool k \<noteq> []}" "distinct ks" using finite_distinct_list by blast
      with destruct_step.start [OF InUse Some] show ?thesis by fastforce
    qed (use destruct_step.start_empty [OF InUse] in fastforce)
  next
    case StopWorker
    then show ?thesis by (cases "ru_worker p") (auto intro: destruct_step.stop destruct_step.no_worker)
  next
    case ClosePool
    then show ?thesis by (cases "ru_closing p") (auto intro: destruct_step.close destruct_step.closed)
  qed (use assms(2) that in \<open>auto intro: destruct_step.intros\<close>)
  moreover have "\<exists>p'. path_step m p p'" if "ru_phase p = JoinWorker"
  proof (cases "ru_thread p = Some Returned")
    case False
    then show ?thesis using client_loop.enabled [of p] assms(1) that by (auto simp: path_ok_def path_step_def)
  qed (use destruct_step.join [OF that] in \<open>auto simp: path_step_def\<close>)
  ultimately show ?thesis by (cases "ru_phase p = JoinWorker") (auto simp: path_step_def)
qed

text \<open>From every state there is a way to the end of the destructor.\<close>

lemma release_reaches_end:
  assumes "path_ok m p" "ru_stop p"
  shows "\<exists>p'. (path_step m)\<^sup>*\<^sup>* p p' \<and> ru_phase p' = Gone"
  using assms
proof (induction "release_left p" arbitrary: p rule: less_induct)
  case less
  show ?case
  proof (cases "ru_phase p = Gone")
    case False
    then obtain q where q: "path_step m p q" using release_enabled less(2) by blast
    with less(1) release_closer [OF q less(2,3)] path_ok_step [OF less(2) q] show ?thesis
      by (meson converse_rtranclp_into_rtranclp)
  qed blast
qed

text \<open>A PUT of the path is such a use: with the pool of the path as the idle endpoints of the client and the open endpoints as the library
  counts them, what it leaves behind is the next state.\<close>

theorem rdma_put_is_use:
  assumes "ucp_api P opens keys pending" "m = pool_max_idle_per_endpoint (o_rdma opts)" "path_ok m p" "ru_phase p = InUse"
    and "rdma_stub s \<noteq> None" "ru_pool p = Some (idle s)" "opens (cw s) = ul_eps (ru_lib p)"
    and "run_state (RdmaTransferPath_PutObject P opts (ucx_created p) q b) s = (r, s')"
  shows "use_step m p (p\<lparr>ru_pool := Some (idle s'), ru_lib := (ru_lib p)\<lparr>ul_eps := opens (cw s')\<rparr>\<rparr>)"
proof -
  note books = ucp_api.books_def [OF assms(1)]
  have "ucp_api.books opens keys pending m {#} (keys (cw s)) (pending (cw s)) s" using assms(3-7) by (simp add: books path_ok_def)
  from preservesD [OF ucp_api.put_books(1) [OF assms(1) assms(2) [symmetric]] assms(8) this]
  have "ep_pool_wf m (idle s')" "opens (cw s') = pooled (idle s')" by (simp_all add: books)
  with use_step.intros [OF assms(4), of m "idle s'"] assms(6) show ?thesis by simp
qed


text \<open>A path that opened one endpoint, in the middle of its release.\<close>

definition example_idle :: "string \<Rightarrow> EpSlot list" where
  "example_idle = (\<lambda>_. [])(''10.0.0.1:18600'' := [\<lparr>ep = Some 7, rkey = None\<rparr>])"

definition example_path :: "EpSlot list \<Rightarrow> bool \<Rightarrow> Teardown \<Rightarrow> RdmaUcx" where
  "example_path closing stop phase =
     \<lparr>ru_ctx = True, ru_worker = True, ru_pool = (if phase \<in> {InUse, ClosePool} then Some example_idle else None), ru_stop = stop,
      ru_thread = Some (AtLoad 0), ru_closing = closing, ru_phase = phase,
      ru_lib = UcxLib_fresh\<lparr>ul_ctx := True, ul_worker := True, ul_eps := (if phase = InUse \<or> closing \<noteq> [] then {#7#} else {#})\<rparr>\<rparr>"

lemma example_idle_dom: "{k. example_idle k \<noteq> []} = {''10.0.0.1:18600''}"
  by (auto simp: example_idle_def)

lemma example_idle_pool: "ep_pool_wf 8 example_idle" "pooled example_idle = {#7#}"
  unfolding ep_pool_wf_def pooled_def example_idle_dom by (simp_all add: example_idle_def slots_mset_def)


end
