(* ===== verification/Ucx_Thread.thy ===== *)
theory Ucx_Thread
  imports Ucx_Executor Thread_Stop
begin

text \<open>
  The UCX objects and the progress thread of \<^verbatim>\<open>gateway/src/data_path/ucx/ucx_executor.cpp\<close>: the calls of \<^verbatim>\<open>Start\<close>, the loop of
  \<^verbatim>\<open>ProgressLoop\<close> with its epoll descriptor, the connections accepted by \<^verbatim>\<open>OnConnRequest\<close>, and the release by \<^verbatim>\<open>Stop\<close>, as a step relation of
  the two threads. The sessions and buffers of the executor are the subject of \<^verbatim>\<open>Ucx_Executor\<close>.
\<close>

section \<open>The calls of Start\<close>

text \<open>\<^verbatim>\<open>config_read\<close> tells whether the configuration could be read; the other answers are those of \<^verbatim>\<open>UcxExecutor_Start\<close>.\<close>

definition ucp_listener_create :: "bool \<Rightarrow> UcxLib \<Rightarrow> UcxLib" where
  "ucp_listener_create ok l = (let l = on_worker l in if ok then l\<lparr>ul_listener := True\<rparr> else l)"

definition start_calls :: "bool \<Rightarrow> StartAnswers \<Rightarrow> UcxLib \<Rightarrow> bool \<times> UcxLib" where
  "start_calls config_read a l =
     (let l = ucp_config_read config_read l;
          l = (if config_read then ucp_config_modify l else l);
          l = ucp_init (sa_init a = None) l;
          l = (if config_read then ucp_config_release l else l);
          give_up = (\<lambda>l. (False, ucp_cleanup (ucp_worker_destroy l))) in
      if sa_init a \<noteq> None then (False, l)
      else
        let l = ucp_worker_create (sa_worker a = None) l in
        if sa_worker a \<noteq> None then (False, ucp_cleanup l)
        else
          let l = on_worker l in
          if \<not> sa_multi a then give_up l
          else
            let l = on_worker l in
            if sa_am a \<noteq> None then give_up l
            else if \<not> sa_inet a then give_up l
            else
              let l = ucp_listener_create (sa_listener a = None) l in
              if sa_listener a \<noteq> None then give_up l else (True, l))"

section \<open>The progress thread\<close>

definition kSpinCountBeforeWait :: nat where "kSpinCountBeforeWait = 64"

definition kMaxProgressOnEpClose :: nat where "kMaxProgressOnEpClose = 200"

text \<open>The next thing the thread does; the number is \<^verbatim>\<open>idle_count\<close>, or the count of the last calls.\<close>

datatype LoopPc = GetEfd | EpollCreate | EpollAdd | LoadFlag nat | CallProgress nat | Recheck nat | ArmWorker | EpollWait | Nanosleep
  | CloseEpoll | LastCalls nat | LoopEnd

datatype StopPhase = Serving | SetFlag | DropListener | JoinLoop | CloseEps | DropWorker | Cleanup | Down

record UcxThread =
  ut_stop :: bool
  ut_thread :: "LoopPc option"
  ut_epfd :: bool
  ut_open_fds :: nat
  ut_accepted :: "nat list"
  ut_phase :: StopPhase
  ut_lib :: UcxLib

definition UcxThread_init :: UcxThread where
  "UcxThread_init = \<lparr>ut_stop = False, ut_thread = None, ut_epfd = False, ut_open_fds = 0, ut_accepted = [], ut_phase = Down, ut_lib = UcxLib_fresh\<rparr>"

definition goto :: "LoopPc \<Rightarrow> UcxThread \<Rightarrow> UcxThread" where
  "goto pc t = t\<lparr>ut_thread := Some pc\<rparr>"

definition call_lib :: "(UcxLib \<Rightarrow> UcxLib) \<Rightarrow> UcxThread \<Rightarrow> UcxThread" where
  "call_lib f t = t\<lparr>ut_lib := f (ut_lib t)\<rparr>"

text \<open>The callback of the listener; \<^verbatim>\<open>None\<close>: the endpoint could not be created.\<close>

definition OnConnRequest :: "nat option \<Rightarrow> UcxThread \<Rightarrow> UcxThread" where
  "OnConnRequest created t =
     (let t = call_lib on_worker t in
      case created of
        None \<Rightarrow> t
      | Some e \<Rightarrow> call_lib (\<lambda>l. l\<lparr>ul_eps := add_mset e (ul_eps l)\<rparr>) (t\<lparr>ut_accepted := ut_accepted t @ [e]\<rparr>))"

text \<open>A progress call of the worker, which runs the callbacks of the connection requests that have arrived.\<close>

definition worker_progress :: "nat option list \<Rightarrow> UcxThread \<Rightarrow> UcxThread" where
  "worker_progress requests t = fold OnConnRequest requests (call_lib on_worker t)"

definition close_epoll :: "UcxThread \<Rightarrow> UcxThread" where
  "close_epoll t = (if ut_epfd t then t\<lparr>ut_epfd := False, ut_open_fds := ut_open_fds t - 1\<rparr> else t)"

definition after_idle :: "nat \<Rightarrow> UcxThread \<Rightarrow> LoopPc" where
  "after_idle i t = (if i + 1 < kSpinCountBeforeWait then LoadFlag (i + 1) else if ut_epfd t then ArmWorker else Nanosleep)"

inductive loop_step :: "UcxThread \<Rightarrow> UcxThread \<Rightarrow> bool" where
  get_efd: "ut_thread t = Some GetEfd \<Longrightarrow> loop_step t (goto (if ok then EpollCreate else LoadFlag 0) (call_lib on_worker t))"
| create: "ut_thread t = Some EpollCreate \<Longrightarrow>
    loop_step t (if ok then goto EpollAdd (t\<lparr>ut_epfd := True, ut_open_fds := ut_open_fds t + 1\<rparr>) else goto (LoadFlag 0) t)"
| add: "ut_thread t = Some EpollAdd \<Longrightarrow> loop_step t (goto (LoadFlag 0) (if ok then t else close_epoll t))"
| load: "ut_thread t = Some (LoadFlag i) \<Longrightarrow> loop_step t (goto (if ut_stop t then CloseEpoll else CallProgress i) t)"
| progress: "ut_thread t = Some (CallProgress i) \<Longrightarrow> requests = [] \<or> ul_listener (ut_lib t) \<Longrightarrow>
    loop_step t (goto (if worked then LoadFlag 0 else Recheck i) (worker_progress requests t))"
| recheck: "ut_thread t = Some (Recheck i) \<Longrightarrow> loop_step t (goto (if ut_stop t then CloseEpoll else after_idle i t) t)"
| arm: "ut_thread t = Some ArmWorker \<Longrightarrow> loop_step t (goto (if ok then EpollWait else LoadFlag 0) (call_lib on_worker t))"
| wait: "ut_thread t = Some EpollWait \<Longrightarrow> loop_step t (goto (LoadFlag 0) t)"
| sleep: "ut_thread t = Some Nanosleep \<Longrightarrow> loop_step t (goto (LoadFlag 0) t)"
| close_fd: "ut_thread t = Some CloseEpoll \<Longrightarrow> loop_step t (goto (LastCalls 0) (close_epoll t))"
| last_call: "ut_thread t = Some (LastCalls n) \<Longrightarrow> n < 16 \<Longrightarrow> requests = [] \<or> ul_listener (ut_lib t) \<Longrightarrow>
    loop_step t (goto (LastCalls (n + 1)) (worker_progress requests t))"
| leave: "ut_thread t = Some (LastCalls n) \<Longrightarrow> \<not> n < 16 \<Longrightarrow> loop_step t (goto LoopEnd t)"

inductive_cases loop_stepE: "loop_step t t'"

section \<open>Start and Stop\<close>

definition Thread_Start :: "bool \<Rightarrow> StartAnswers \<Rightarrow> UcxThread \<Rightarrow> UcxThread" where
  "Thread_Start config_read a t =
     (case start_calls config_read a (ut_lib t) of
        (False, l) \<Rightarrow> t\<lparr>ut_lib := l\<rparr>
      | (True, l) \<Rightarrow> t\<lparr>ut_lib := l, ut_stop := False, ut_thread := Some GetEfd, ut_epfd := False, ut_phase := Serving\<rparr>)"

inductive owner_step :: "UcxThread \<Rightarrow> UcxThread \<Rightarrow> bool" where
  start: "ut_phase t = Down \<Longrightarrow> owner_step t (Thread_Start config_read a t)"
| begin_stop: "ut_phase t = Serving \<Longrightarrow> owner_step t (t\<lparr>ut_phase := SetFlag\<rparr>)"
| set_flag: "ut_phase t = SetFlag \<Longrightarrow> owner_step t (t\<lparr>ut_stop := True, ut_phase := DropListener\<rparr>)"
| listener: "ut_phase t = DropListener \<Longrightarrow> owner_step t (call_lib ucp_listener_destroy t\<lparr>ut_phase := JoinLoop\<rparr>)"
| join: "ut_phase t = JoinLoop \<Longrightarrow> ut_thread t = Some LoopEnd \<Longrightarrow> owner_step t (t\<lparr>ut_thread := None, ut_phase := CloseEps\<rparr>)"
| close_ep: "ut_phase t = CloseEps \<Longrightarrow> ut_accepted t = e # rest \<Longrightarrow>
    owner_step t (call_lib (\<lambda>l. (on_worker ^^ min polls kMaxProgressOnEpClose) (ucp_ep_close e l)) t\<lparr>ut_accepted := rest\<rparr>)"
| closed: "ut_phase t = CloseEps \<Longrightarrow> ut_accepted t = [] \<Longrightarrow> owner_step t (t\<lparr>ut_phase := DropWorker\<rparr>)"
| worker: "ut_phase t = DropWorker \<Longrightarrow> owner_step t (call_lib ucp_worker_destroy t\<lparr>ut_phase := Cleanup\<rparr>)"
| cleanup: "ut_phase t = Cleanup \<Longrightarrow> owner_step t (call_lib ucp_cleanup t\<lparr>ut_phase := Down\<rparr>)"

definition executor_step :: "UcxThread \<Rightarrow> UcxThread \<Rightarrow> bool" where
  "executor_step t t' \<longleftrightarrow> loop_step t t' \<or> owner_step t t'"

lemmas ucx_thread_defs = goto_def call_lib_def

section \<open>The objects are used while they exist\<close>

text \<open>The thread leaves its loop only after the flag was set, counts its idle rounds below the limit, and holds the descriptor exactly in
  the steps between its creation and its close.\<close>

fun pc_ok :: "bool \<Rightarrow> bool \<Rightarrow> LoopPc \<Rightarrow> bool" where
  "pc_ok stop epfd GetEfd \<longleftrightarrow> \<not> epfd"
| "pc_ok stop epfd EpollCreate \<longleftrightarrow> \<not> epfd"
| "pc_ok stop epfd EpollAdd \<longleftrightarrow> epfd"
| "pc_ok stop epfd (LoadFlag i) \<longleftrightarrow> i < kSpinCountBeforeWait"
| "pc_ok stop epfd (CallProgress i) \<longleftrightarrow> i < kSpinCountBeforeWait"
| "pc_ok stop epfd (Recheck i) \<longleftrightarrow> i < kSpinCountBeforeWait"
| "pc_ok stop epfd ArmWorker \<longleftrightarrow> epfd"
| "pc_ok stop epfd EpollWait \<longleftrightarrow> epfd"
| "pc_ok stop epfd Nanosleep \<longleftrightarrow> \<not> epfd"
| "pc_ok stop epfd CloseEpoll \<longleftrightarrow> stop"
| "pc_ok stop epfd (LastCalls n) \<longleftrightarrow> stop \<and> \<not> epfd \<and> n \<le> 16"
| "pc_ok stop epfd LoopEnd \<longleftrightarrow> stop \<and> \<not> epfd"

definition objects :: "bool \<Rightarrow> bool \<Rightarrow> bool \<Rightarrow> UcxThread \<Rightarrow> bool" where
  "objects ctx wkr lst t \<longleftrightarrow> ul_ctx (ut_lib t) = ctx \<and> ul_worker (ut_lib t) = wkr \<and> ul_listener (ut_lib t) = lst"

fun phase_ok :: "StopPhase \<Rightarrow> UcxThread \<Rightarrow> bool" where
  "phase_ok Serving t \<longleftrightarrow> objects True True True t \<and> ut_thread t \<noteq> None \<and> \<not> ut_stop t"
| "phase_ok SetFlag t \<longleftrightarrow> objects True True True t \<and> ut_thread t \<noteq> None \<and> \<not> ut_stop t"
| "phase_ok DropListener t \<longleftrightarrow> objects True True True t \<and> ut_thread t \<noteq> None \<and> ut_stop t"
| "phase_ok JoinLoop t \<longleftrightarrow> objects True True False t \<and> ut_thread t \<noteq> None \<and> ut_stop t"
| "phase_ok CloseEps t \<longleftrightarrow> objects True True False t \<and> ut_thread t = None"
| "phase_ok DropWorker t \<longleftrightarrow> objects True True False t \<and> ut_thread t = None \<and> ut_accepted t = []"
| "phase_ok Cleanup t \<longleftrightarrow> objects True False False t \<and> ut_thread t = None \<and> ut_accepted t = []"
| "phase_ok Down t \<longleftrightarrow> objects False False False t \<and> ut_thread t = None \<and> ut_accepted t = []"

definition lib_ok :: "UcxThread \<Rightarrow> bool" where
  "lib_ok t \<longleftrightarrow> \<not> ul_misuse (ut_lib t) \<and> \<not> ul_config (ut_lib t) \<and> ul_rkeys (ut_lib t) = {#} \<and> ul_eps (ut_lib t) = mset (ut_accepted t)"

definition thread_inv :: "UcxThread \<Rightarrow> bool" where
  "thread_inv t \<longleftrightarrow> lib_ok t \<and> phase_ok (ut_phase t) t \<and> ut_open_fds t = (if ut_epfd t then 1 else 0) \<and>
     (case ut_thread t of None \<Rightarrow> \<not> ut_epfd t | Some pc \<Rightarrow> pc_ok (ut_stop t) (ut_epfd t) pc)"

lemma conn_request:
  assumes "lib_ok t" "ul_worker (ut_lib t)"
  shows "lib_ok (OnConnRequest c t)" "objects x y z (OnConnRequest c t) = objects x y z t" "ut_thread (OnConnRequest c t) = ut_thread t"
    "ut_stop (OnConnRequest c t) = ut_stop t" "ut_epfd (OnConnRequest c t) = ut_epfd t" "ut_open_fds (OnConnRequest c t) = ut_open_fds t"
    "ut_phase (OnConnRequest c t) = ut_phase t" "ul_worker (ut_lib (OnConnRequest c t))"
  using assms by (cases c; simp add: OnConnRequest_def lib_ok_def objects_def call_lib_def)+

lemma progress_calls:
  assumes "lib_ok t" "ul_worker (ut_lib t)"
  shows "lib_ok (worker_progress rs t) \<and> (\<forall>x y z. objects x y z (worker_progress rs t) = objects x y z t) \<and>
    ut_thread (worker_progress rs t) = ut_thread t \<and> ut_stop (worker_progress rs t) = ut_stop t \<and>
    ut_epfd (worker_progress rs t) = ut_epfd t \<and> ut_open_fds (worker_progress rs t) = ut_open_fds t \<and>
    ut_phase (worker_progress rs t) = ut_phase t"
proof -
  have "call_lib on_worker t = t" using assms(2) by (simp add: call_lib_def)
  then show ?thesis unfolding worker_progress_def using assms
  proof (induction rs arbitrary: t)
    case (Cons r rs)
    note c = conn_request [OF Cons(3,4)]
    have "call_lib on_worker (OnConnRequest r t) = OnConnRequest r t" using c(8) by (simp add: call_lib_def)
    from Cons(1) [OF this c(1,8)] c show ?case by (simp add: Cons(2) \<open>call_lib on_worker (OnConnRequest r t) = OnConnRequest r t\<close>)
  qed simp
qed

lemma phase_worker: "phase_ok ph t \<Longrightarrow> ut_thread t \<noteq> None \<Longrightarrow> ul_worker (ut_lib t)"
  by (cases ph) (simp_all add: objects_def)

text \<open>A step of the thread that leaves the objects and the flag alone keeps the phase.\<close>

lemma phase_keep:
  assumes "phase_ok ph t" "ut_thread t \<noteq> None" "\<forall>x y z. objects x y z t' = objects x y z t" "ut_stop t' = ut_stop t" "ut_thread t' \<noteq> None"
  shows "phase_ok ph t'"
  using assms by (cases ph) simp_all

lemma thread_inv_moves:
  assumes "thread_inv t" "ut_thread t \<noteq> None" "lib_ok t'" "\<forall>x y z. objects x y z t' = objects x y z t" "ut_stop t' = ut_stop t"
    and "ut_phase t' = ut_phase t" "ut_open_fds t' = (if ut_epfd t' then 1 else 0)" "pc_ok (ut_stop t) (ut_epfd t') pc"
  shows "thread_inv (goto pc t')"
proof -
  have "phase_ok (ut_phase t) (goto pc t')"
    by (rule phase_keep [where t = t]) (use assms in \<open>simp_all add: thread_inv_def goto_def objects_def\<close>)
  then show ?thesis using assms by (simp add: thread_inv_def goto_def lib_ok_def)
qed

lemma loop_inv:
  assumes "loop_step t t'" "thread_inv t"
  shows "thread_inv t'"
proof -
  have th: "ut_thread t \<noteq> None" using assms(1) by cases auto
  have wk: "ul_worker (ut_lib t)" using assms(2) th phase_worker unfolding thread_inv_def by blast
  have lib: "lib_ok t" "ut_open_fds t = (if ut_epfd t then 1 else 0)" using assms(2) by (simp_all add: thread_inv_def)
  have same: "call_lib on_worker t = t" using wk by (simp add: call_lib_def)
  have pc: "\<And>pc. ut_thread t = Some pc \<Longrightarrow> pc_ok (ut_stop t) (ut_epfd t) pc" using assms(2) by (simp add: thread_inv_def)
  note move = thread_inv_moves [OF assms(2) th]
  have fd: "thread_inv (goto pc (close_epoll t))" if "pc_ok (ut_stop t) False pc" for pc
    by (rule move) (use lib that in \<open>simp_all add: close_epoll_def lib_ok_def objects_def\<close>)
  show ?thesis using assms(1)
  proof cases
    case (create ok)
    show ?thesis using create pc [OF create(2)]
      by (cases ok) (auto intro!: move simp: lib lib_ok_def objects_def kSpinCountBeforeWait_def, use lib in \<open>simp_all add: lib_ok_def\<close>)
  next
    case (progress i rs worked)
    with pc [OF progress(2)] progress_calls [OF lib(1) wk, of rs] lib(2) show ?thesis
      by (auto intro!: move simp: kSpinCountBeforeWait_def)
  next
    case (last_call n rs)
    with pc [OF last_call(2)] progress_calls [OF lib(1) wk, of rs] lib(2) show ?thesis by (auto intro!: move)
  qed (use pc lib fd in \<open>auto intro!: move simp: same after_idle_def kSpinCountBeforeWait_def\<close>)
qed

lemma owner_inv:
  assumes "owner_step t t'" "thread_inv t"
  shows "thread_inv t'"
  using assms
proof cases
  case (start c a)
  then show ?thesis using assms(2)
    by (auto simp: thread_inv_def lib_ok_def objects_def Thread_Start_def start_calls_def ucp_listener_create_def ucx_lib_defs Let_def
        split: prod.splits bool.splits if_splits)
next
  case set_flag
  then show ?thesis using assms(2)
    by (cases "the (ut_thread t)") (auto simp: thread_inv_def lib_ok_def objects_def)
next
  case (close_ep e rest n)
  then show ?thesis using assms(2)
    by (auto simp: thread_inv_def lib_ok_def objects_def call_lib_def ucp_ep_close_def misused_def split: if_splits)
qed (auto simp: thread_inv_def lib_ok_def objects_def call_lib_def ucx_lib_defs)

lemma executor_inv: "executor_step\<^sup>*\<^sup>* UcxThread_init t \<Longrightarrow> thread_inv t"
proof (induction rule: rtranclp_induct)
  case base
  show ?case by (simp add: UcxThread_init_def UcxLib_fresh_def thread_inv_def lib_ok_def objects_def)
qed (auto simp: executor_step_def intro: loop_inv owner_inv)

section \<open>Stop ends\<close>

text \<open>With the flag set the thread has at most 25 steps left: it may still set up its descriptor, be in a wait, or in an idle round.\<close>

fun pc_left :: "LoopPc \<Rightarrow> nat" where
  "pc_left GetEfd = 24"
| "pc_left EpollCreate = 23"
| "pc_left EpollAdd = 22"
| "pc_left ArmWorker = 23"
| "pc_left EpollWait = 22"
| "pc_left Nanosleep = 22"
| "pc_left (CallProgress i) = 22"
| "pc_left (LoadFlag i) = 21"
| "pc_left (Recheck i) = 21"
| "pc_left CloseEpoll = 20"
| "pc_left (LastCalls n) = Suc (16 - n)"
| "pc_left LoopEnd = 0"

definition ut_left :: "UcxThread \<Rightarrow> nat" where
  "ut_left t = (case ut_thread t of None \<Rightarrow> 0 | Some pc \<Rightarrow> pc_left pc)"

lemma pc_left_bound: "pc_left pc \<le> 24"
  by (cases pc) simp_all

lemma conn_stop: "ut_stop (OnConnRequest c t) = ut_stop t" "ut_phase (OnConnRequest c t) = ut_phase t"
  by (simp_all add: OnConnRequest_def call_lib_def Let_def split: option.split)

lemma requests_stop: "ut_stop (fold OnConnRequest rs t) = ut_stop t" "ut_phase (fold OnConnRequest rs t) = ut_phase t"
  by (induction rs arbitrary: t) (simp_all add: conn_stop)

lemma progress_stop: "ut_stop (worker_progress rs t) = ut_stop t" "ut_phase (worker_progress rs t) = ut_phase t"
  by (simp_all add: worker_progress_def requests_stop call_lib_def)

lemma gw_loop_closer:
  assumes "loop_step t t'" "ut_stop t"
  shows "ut_left t' < ut_left t" "ut_stop t'" "ut_thread t' \<noteq> None" "ut_phase t' = ut_phase t"
  using assms
  by (auto simp: ut_left_def goto_def call_lib_def close_epoll_def progress_stop elim!: loop_stepE)

interpretation gateway_loop: stoppable_thread loop_step "\<lambda>t. ut_stop t \<and> ut_thread t \<noteq> None" "\<lambda>t. ut_thread t = Some LoopEnd" ut_left
proof
  fix t :: UcxThread
  assume "ut_stop t \<and> ut_thread t \<noteq> None" "ut_thread t \<noteq> Some LoopEnd"
  then obtain pc where pc: "ut_thread t = Some pc" "pc \<noteq> LoopEnd" by auto
  show "\<exists>t'. loop_step t t'"
  proof (cases pc)
    case (CallProgress i)
    with pc(1) show ?thesis using loop_step.progress [of t i "[]"] by blast
  next
    case (LastCalls n)
    with pc(1) show ?thesis using loop_step.last_call [of t n "[]"] loop_step.leave [of t n] by blast
  qed (use pc in \<open>auto intro: loop_step.intros\<close>)
qed (use gw_loop_closer in auto)

fun stop_left :: "StopPhase \<Rightarrow> nat" where
  "stop_left Serving = 0"
| "stop_left SetFlag = 0"
| "stop_left DropListener = 6"
| "stop_left JoinLoop = 5"
| "stop_left CloseEps = 3"
| "stop_left DropWorker = 2"
| "stop_left Cleanup = 1"
| "stop_left Down = 0"

text \<open>From every state of a running executor \<^verbatim>\<open>Stop\<close> can go on to its end.\<close>

definition stop_order :: "(UcxThread \<times> UcxThread) set" where
  "stop_order = inv_image (less_than <*lex*> less_than <*lex*> less_than) (\<lambda>t. (stop_left (ut_phase t), ut_left t, length (ut_accepted t)))"

lemma stop_advances:
  assumes "thread_inv t" "ut_phase t \<notin> {Serving, SetFlag, Down}"
  shows "\<exists>t'. executor_step t t' \<and> (t', t) \<in> stop_order \<and> ut_phase t' \<notin> {Serving, SetFlag}"
proof (cases "ut_phase t")
  case JoinLoop
  show ?thesis
  proof (cases "ut_thread t = Some LoopEnd")
    case True
    then show ?thesis using owner_step.join [OF JoinLoop True] JoinLoop
      by (intro exI [of _ "t\<lparr>ut_thread := None, ut_phase := CloseEps\<rparr>"]) (simp add: executor_step_def stop_order_def)
  next
    case False
    have st: "ut_stop t \<and> ut_thread t \<noteq> None" using assms(1) JoinLoop by (simp add: thread_inv_def)
    then obtain t' where "loop_step t t'" using gateway_loop.enabled False by blast
    with gw_loop_closer [OF this] st JoinLoop show ?thesis by (intro exI [of _ t']) (simp add: executor_step_def stop_order_def)
  qed
next
  case CloseEps
  then show ?thesis using owner_step.close_ep [OF CloseEps, where polls = 0] owner_step.closed [OF CloseEps]
    by (cases "ut_accepted t") (fastforce simp: executor_step_def stop_order_def call_lib_def ut_left_def)+
qed (use assms(2) owner_step.listener owner_step.worker owner_step.cleanup in
    \<open>fastforce simp: executor_step_def stop_order_def call_lib_def ut_left_def\<close>)+

lemma stop_reaches_end:
  assumes "thread_inv t" "ut_phase t \<notin> {Serving, SetFlag}"
  shows "\<exists>t'. executor_step\<^sup>*\<^sup>* t t' \<and> ut_phase t' = Down"
proof -
  have "wf stop_order" by (simp add: stop_order_def wf_inv_image wf_lex_prod)
  then show ?thesis using assms
  proof (induction t rule: wf_induct_rule)
    case (less t)
    show ?case
    proof (cases "ut_phase t = Down")
      case False
      with stop_advances [OF less(2)] less(3) obtain t' where t': "executor_step t t'" "(t', t) \<in> stop_order" "ut_phase t' \<notin> {Serving, SetFlag}"
        by blast
      have "thread_inv t'" using t'(1) less(2) loop_inv owner_inv by (auto simp: executor_step_def)
      from less(1) [OF t'(2) this t'(3)] t'(1) show ?thesis by (meson converse_rtranclp_into_rtranclp)
    qed blast
  qed
qed

text \<open>The calls of \<^verbatim>\<open>Start\<close> succeed together with the executor's \<^verbatim>\<open>Start\<close>, and leave the context where it says.\<close>

lemma start_calls_agree:
  assumes "\<not> ux_started ux" "\<not> ux_ctx ux" "\<not> ul_ctx l" "UcxExecutor_Start a ux = (r, ux')" "start_calls c a l = (ok, l')"
  shows "ok \<longleftrightarrow> r = Inr True" "ul_ctx l' = ux_ctx ux'" "ok \<longleftrightarrow> ux_started ux'"
  using assms
  by (auto simp: UcxExecutor_Start_def start_calls_def ucp_listener_create_def ucx_lib_defs Let_def split: if_splits option.splits)


text \<open>An executor that accepted a connection and was asked to stop.\<close>

definition example_thread :: "LoopPc \<Rightarrow> nat list \<Rightarrow> bool \<Rightarrow> StopPhase \<Rightarrow> UcxThread" where
  "example_thread pc accepted stop phase =
     \<lparr>ut_stop = stop, ut_thread = Some pc, ut_epfd = False, ut_open_fds = 0, ut_accepted = accepted, ut_phase = phase,
      ut_lib = UcxLib_fresh\<lparr>ul_ctx := True, ul_worker := True, ul_listener := True, ul_eps := mset accepted\<rparr>\<rparr>"


end
