(* ===== verification/Client_Metrics.thy ===== *)
theory Client_Metrics
  imports Client_Core
begin

text \<open>
  The counters of the client (\<^verbatim>\<open>core/metrics/client_metrics.cpp\<close>) and the operations that keep them: the public operations of
  \<^verbatim>\<open>core/client/client.cpp\<close> and the part upload of \<^verbatim>\<open>core/client/multipart_upload.cpp\<close> with the \<^verbatim>\<open>ScopedTransferMetric\<close> each of them
  holds. A counter is an unbounded integer here, the latency recorder the list of the values it was given, and the clock an
  observation of the outside.
\<close>

section \<open>Counters\<close>

record OpCounters =
  oc_prefix :: string
  oc_total :: int
  oc_fail_total :: int
  oc_bytes :: int
  oc_latency_us :: "int list"

definition OpCounters_init :: "string \<Rightarrow> OpCounters" where
  "OpCounters_init prefix = \<lparr>oc_prefix = prefix, oc_total = 0, oc_fail_total = 0, oc_bytes = 0, oc_latency_us = []\<rparr>"

fun PathIndex :: "DataFlow \<Rightarrow> nat" where
  "PathIndex GPUDirect = 0"
| "PathIndex CPUDirect = 1"
| "PathIndex _ = 0"

fun PathSuffix :: "DataFlow \<Rightarrow> string" where
  "PathSuffix GPUDirect = ''_gds_cuobject''"
| "PathSuffix CPUDirect = ''_native_rdma''"
| "PathSuffix _ = ''_unknown''"

datatype MetricOp = kMPut | kMGet | kMHead | kMUploadPart

text \<open>The four operations have a counter set each, and an array of two, by path.\<close>

record ClientMetrics =
  cm_global :: "MetricOp \<Rightarrow> OpCounters"
  cm_by_path :: "MetricOp \<Rightarrow> OpCounters list"
  cm_retry_total :: int

fun op_prefix :: "MetricOp \<Rightarrow> string" where
  "op_prefix kMPut = ''us3_client_put''"
| "op_prefix kMGet = ''us3_client_get''"
| "op_prefix kMHead = ''us3_client_head''"
| "op_prefix kMUploadPart = ''us3_client_upload_part''"

definition ClientMetrics_init :: ClientMetrics where
  "ClientMetrics_init =
     \<lparr>cm_global = (\<lambda>k. OpCounters_init (op_prefix k)),
      cm_by_path = (\<lambda>k. map (\<lambda>f. OpCounters_init (op_prefix k @ PathSuffix f)) [GPUDirect, CPUDirect]),
      cm_retry_total = 0\<rparr>"

record ScopedTransferMetric =
  sm_op :: MetricOp
  sm_success :: bool
  sm_bytes :: int
  sm_start_us :: int
  sm_data_path :: "DataFlow option"

definition ScopedTransferMetric_construct :: "MetricOp \<Rightarrow> int \<Rightarrow> DataFlow option \<Rightarrow> int \<Rightarrow> ScopedTransferMetric" where
  "ScopedTransferMetric_construct k b flow now =
     \<lparr>sm_op = k, sm_success = False, sm_bytes = b, sm_start_us = now, sm_data_path = flow\<rparr>"

definition MarkSuccess :: "ScopedTransferMetric \<Rightarrow> ScopedTransferMetric" where
  "MarkSuccess m = m\<lparr>sm_success := True\<rparr>"

definition SetBytes :: "int \<Rightarrow> ScopedTransferMetric \<Rightarrow> ScopedTransferMetric" where
  "SetBytes b m = m\<lparr>sm_bytes := b\<rparr>"

definition SetDataPath :: "DataFlow \<Rightarrow> ScopedTransferMetric \<Rightarrow> ScopedTransferMetric" where
  "SetDataPath f m = m\<lparr>sm_data_path := Some f\<rparr>"

definition record_metric :: "int \<Rightarrow> ScopedTransferMetric \<Rightarrow> OpCounters \<Rightarrow> OpCounters" where
  "record_metric elapsed_us m c =
     (let c = c\<lparr>oc_latency_us := oc_latency_us c @ [elapsed_us]\<rparr> in
      if sm_success m then c\<lparr>oc_total := oc_total c + 1, oc_bytes := oc_bytes c + sm_bytes m\<rparr>
      else c\<lparr>oc_fail_total := oc_fail_total c + 1\<rparr>)"

definition ScopedTransferMetric_destruct :: "int \<Rightarrow> ScopedTransferMetric \<Rightarrow> ClientMetrics \<Rightarrow> ClientMetrics" where
  "ScopedTransferMetric_destruct now m cm =
     (let elapsed_us = now - sm_start_us m;
          k = sm_op m;
          cm = cm\<lparr>cm_global := (cm_global cm)(k := record_metric elapsed_us m (cm_global cm k))\<rparr> in
      case sm_data_path m of
        None \<Rightarrow> cm
      | Some f \<Rightarrow>
          cm\<lparr>cm_by_path := (cm_by_path cm)
              (k := (cm_by_path cm k)[PathIndex f := record_metric elapsed_us m (cm_by_path cm k ! PathIndex f)])\<rparr>)"

section \<open>Operations with their metric\<close>

type_synonym ('w, 'a) metered = "('w ClientState \<times> ClientMetrics, 'a) state"

definition lift_client :: "('w, 'a) client \<Rightarrow> ('w, 'a) metered" where
  "lift_client c = State (\<lambda>(s, m). case run_state c s of (x, s') \<Rightarrow> (x, s', m))"

text \<open>The scope of a metric: it is constructed, the body runs, the metric is told the outcome, and its destructor records it.\<close>

definition scoped ::
  "('w \<Rightarrow> int) \<Rightarrow> MetricOp \<Rightarrow> int \<Rightarrow> DataFlow option \<Rightarrow> ('r \<Rightarrow> ScopedTransferMetric \<Rightarrow> ScopedTransferMetric) \<Rightarrow> ('w, 'r) client
   \<Rightarrow> ('w, 'r) metered" where
  "scoped now_us k b flow mark body = do {
     start_us \<leftarrow> gets (\<lambda>(s, m). now_us (cw s));
     r \<leftarrow> lift_client body;
     _ \<leftarrow> modify (\<lambda>(s, m). (s, ScopedTransferMetric_destruct (now_us (cw s))
            (mark r (ScopedTransferMetric_construct k b flow start_us)) m));
     ret r }"

definition mark_if :: "('v \<Rightarrow> ScopedTransferMetric \<Rightarrow> ScopedTransferMetric) \<Rightarrow> 'v cresult \<Rightarrow> ScopedTransferMetric \<Rightarrow> ScopedTransferMetric" where
  "mark_if f r m = (case r of Inl e \<Rightarrow> m | Inr v \<Rightarrow> f v (MarkSuccess m))"

definition Metered_HeadObject ::
  "'w Platform \<Rightarrow> ('w \<Rightarrow> int) \<Rightarrow> ClientCore \<Rightarrow> string \<Rightarrow> string \<Rightarrow> ('w, ClientObjectMetadata cresult) metered" where
  "Metered_HeadObject P now_us core bucket key =
     (if \<not> cc_initialized core then ret (Inl (MakeNotInitialized ''Client''))
      else scoped now_us kMHead 0 None (mark_if (\<lambda>v m. m)) (MetadataClient_HeadObject P (cc_options core) bucket key))"

definition Metered_GetObject ::
  "'w Platform \<Rightarrow> ('w \<Rightarrow> int) \<Rightarrow> ClientCore \<Rightarrow> GetObjectRequest \<Rightarrow> BufferView \<Rightarrow> ('w, TransferOutcome cresult) metered" where
  "Metered_GetObject P now_us core q b =
     (if \<not> cc_initialized core then ret (Inl (MakeNotInitialized ''Client''))
      else scoped now_us kMGet 0 None
             (mark_if (\<lambda>v m. SetDataPath (to_selected_flow v) (SetBytes (i64 (to_bytes_transferred v)) m)))
             (TransferRouter_GetObject P core q b))"

definition Metered_PutObject ::
  "'w Platform \<Rightarrow> ('w \<Rightarrow> int) \<Rightarrow> ClientCore \<Rightarrow> PutObjectRequest \<Rightarrow> BufferView \<Rightarrow> ('w, TransferOutcome cresult) metered" where
  "Metered_PutObject P now_us core q b =
     (if \<not> cc_initialized core then ret (Inl (MakeNotInitialized ''Client''))
      else scoped now_us kMPut (i64 (bv_size b)) None (mark_if (\<lambda>v m. SetDataPath (to_selected_flow v) m))
             (TransferRouter_PutObject P core q b))"

text \<open>A part is counted only when the checks before the transfer have passed; its path is known from the start.\<close>

definition Metered_UploadPart ::
  "('w \<Rightarrow> int) \<Rightarrow> nat \<Rightarrow> nat \<Rightarrow> BufferView \<Rightarrow> 'w UploadImpl \<Rightarrow> ('w, TransferOutcome cresult \<times> 'w UploadImpl) metered" where
  "Metered_UploadPart now_us part_number object_offset b u =
     (case part_guard u b of
        Inl e \<Rightarrow> ret (Inl e, u)
      | Inr policy \<Rightarrow>
          scoped now_us kMUploadPart (i64 (bv_size b)) (Some (up_data_flow u)) (\<lambda>(r, u). mark_if (\<lambda>v m. m) r) (do {
            outcome \<leftarrow> ms_UploadPart (up_session u) part_number object_offset policy b;
            ret (case outcome of
                   Inl e \<Rightarrow> (outcome, u)
                 | Inr v \<Rightarrow> (outcome, RecordUploadedPart part_number (to_etag v) (bv_size b) u)) }))"

section \<open>What the counters say\<close>

lemma run_scoped:
  "run_state (scoped now_us k b flow mark body) (s, m) = (case run_state body s of (r, s') \<Rightarrow>
     (r, s', ScopedTransferMetric_destruct (now_us (cw s')) (mark r (ScopedTransferMetric_construct k b flow (now_us (cw s)))) m))"
  by (simp add: scoped_def lift_client_def split: prod.split)

text \<open>The counters have no influence: what an operation returns and does is the same without them.\<close>

lemma metered_is_plain:
  "run_state (Metered_HeadObject P now_us core bucket key) (s, m) = (hr, s', m') \<Longrightarrow> run_state (Client_HeadObject P core bucket key) s = (hr, s')"
  "run_state (Metered_GetObject P now_us core gq b) (s, m) = (tr, s', m') \<Longrightarrow> run_state (Client_GetObject P core gq b) s = (tr, s')"
  "run_state (Metered_PutObject P now_us core pq b) (s, m) = (tr, s', m') \<Longrightarrow> run_state (Client_PutObject P core pq b) s = (tr, s')"
  "run_state (Metered_UploadPart now_us n off b u) (s, m) = (ur, s', m') \<Longrightarrow> run_state (MultipartUpload_UploadPart n off b u) s = (ur, s')"
  by (auto simp: Metered_HeadObject_def Metered_GetObject_def Metered_PutObject_def Metered_UploadPart_def Client_HeadObject_def
      Client_GetObject_def Client_PutObject_def MultipartUpload_UploadPart_def when_initialized_def run_scoped
      split: if_splits sum.splits prod.splits)

text \<open>A history of calls, and what is known of each call that was counted: the operation, whether it succeeded, its bytes and its path.\<close>

datatype 'w PublicCall =
    HeadCall string string
  | GetCall GetObjectRequest BufferView
  | PutCall PutObjectRequest BufferView
  | PartCall nat nat BufferView "'w UploadImpl"

record Served =
  sv_op :: MetricOp
  sv_ok :: bool
  sv_bytes :: int
  sv_path :: "DataFlow option"

definition transfer_served :: "MetricOp \<Rightarrow> (TransferOutcome \<Rightarrow> nat) \<Rightarrow> TransferOutcome cresult \<Rightarrow> Served" where
  "transfer_served k size_of r = (case r of
     Inl e \<Rightarrow> \<lparr>sv_op = k, sv_ok = False, sv_bytes = 0, sv_path = None\<rparr>
   | Inr v \<Rightarrow> \<lparr>sv_op = k, sv_ok = True, sv_bytes = i64 (size_of v), sv_path = Some (to_selected_flow v)\<rparr>)"

fun plain_call :: "'w Platform \<Rightarrow> ClientCore \<Rightarrow> 'w PublicCall \<Rightarrow> ('w, Served list) client" where
  "plain_call P core (HeadCall bucket key) = do {
     r \<leftarrow> Client_HeadObject P core bucket key;
     ret [\<lparr>sv_op = kMHead, sv_ok = \<not> isl r, sv_bytes = 0, sv_path = None\<rparr>] }"
| "plain_call P core (GetCall q b) = do {
     r \<leftarrow> Client_GetObject P core q b;
     ret [transfer_served kMGet to_bytes_transferred r] }"
| "plain_call P core (PutCall q b) = do {
     r \<leftarrow> Client_PutObject P core q b;
     ret [transfer_served kMPut (\<lambda>_. bv_size b) r] }"
| "plain_call P core (PartCall n off b u) = do {
     r \<leftarrow> MultipartUpload_UploadPart n off b u;
     ret (if isl (part_guard u b) then []
          else [\<lparr>sv_op = kMUploadPart, sv_ok = \<not> isl (fst r), sv_bytes = i64 (bv_size b), sv_path = Some (up_data_flow u)\<rparr>]) }"

fun metered_call :: "'w Platform \<Rightarrow> ('w \<Rightarrow> int) \<Rightarrow> ClientCore \<Rightarrow> 'w PublicCall \<Rightarrow> ('w, unit) metered" where
  "metered_call P now_us core (HeadCall bucket key) = do { _ \<leftarrow> Metered_HeadObject P now_us core bucket key; ret () }"
| "metered_call P now_us core (GetCall q b) = do { _ \<leftarrow> Metered_GetObject P now_us core q b; ret () }"
| "metered_call P now_us core (PutCall q b) = do { _ \<leftarrow> Metered_PutObject P now_us core q b; ret () }"
| "metered_call P now_us core (PartCall n off b u) = do { _ \<leftarrow> Metered_UploadPart now_us n off b u; ret () }"

fun plain_calls :: "'w Platform \<Rightarrow> ClientCore \<Rightarrow> 'w PublicCall list \<Rightarrow> ('w, Served list) client" where
  "plain_calls P core [] = ret []"
| "plain_calls P core (c # cs) = do { v \<leftarrow> plain_call P core c; vs \<leftarrow> plain_calls P core cs; ret (v @ vs) }"

fun metered_calls :: "'w Platform \<Rightarrow> ('w \<Rightarrow> int) \<Rightarrow> ClientCore \<Rightarrow> 'w PublicCall list \<Rightarrow> ('w, unit) metered" where
  "metered_calls P now_us core [] = ret ()"
| "metered_calls P now_us core (c # cs) = do { _ \<leftarrow> metered_call P now_us core c; metered_calls P now_us core cs }"

text \<open>What a set of counters gains by a list of calls.\<close>

definition adds :: "Served list \<Rightarrow> OpCounters \<Rightarrow> OpCounters \<Rightarrow> bool" where
  "adds vs c c' \<longleftrightarrow> oc_prefix c' = oc_prefix c \<and> oc_total c' = oc_total c + int (length (filter sv_ok vs)) \<and>
     oc_fail_total c' = oc_fail_total c + int (length (filter (Not \<circ> sv_ok) vs)) \<and>
     oc_bytes c' = oc_bytes c + sum_list (map sv_bytes (filter sv_ok vs)) \<and>
     length (oc_latency_us c') = length (oc_latency_us c) + length vs"

definition of_op :: "MetricOp \<Rightarrow> Served list \<Rightarrow> Served list" where
  "of_op k vs = filter (\<lambda>v. sv_op v = k) vs"

definition of_path :: "MetricOp \<Rightarrow> nat \<Rightarrow> Served list \<Rightarrow> Served list" where
  "of_path k i vs = filter (\<lambda>v. sv_op v = k \<and> map_option PathIndex (sv_path v) = Some i) vs"

definition gains :: "Served list \<Rightarrow> ClientMetrics \<Rightarrow> ClientMetrics \<Rightarrow> bool" where
  "gains vs m m' \<longleftrightarrow> cm_retry_total m' = cm_retry_total m \<and>
     (\<forall>k. adds (of_op k vs) (cm_global m k) (cm_global m' k) \<and> length (cm_by_path m' k) = 2 \<and>
        (\<forall>i < 2. adds (of_path k i vs) (cm_by_path m k ! i) (cm_by_path m' k ! i)))"

lemma adds_append: "adds xs a b \<Longrightarrow> adds ys b c \<Longrightarrow> adds (xs @ ys) a c"
  by (simp add: adds_def)

lemma of_append: "of_op k (xs @ ys) = of_op k xs @ of_op k ys" "of_path k i (xs @ ys) = of_path k i xs @ of_path k i ys"
  by (simp_all add: of_op_def of_path_def)

lemma gains_append:
  assumes "gains xs a b" "gains ys b c"
  shows "gains (xs @ ys) a c"
proof -
  have "adds (of_op k (xs @ ys)) (cm_global a k) (cm_global c k)" for k
    using assms unfolding of_append gains_def by (blast intro: adds_append)
  moreover have "adds (of_path k i (xs @ ys)) (cm_by_path a k ! i) (cm_by_path c k ! i)" if "i < 2" for k i
    using assms that unfolding of_append gains_def by (blast intro: adds_append)
  ultimately show ?thesis using assms by (simp add: gains_def)
qed

lemma gains_nil: "\<forall>k. length (cm_by_path m k) = 2 \<Longrightarrow> gains [] m m"
  by (simp add: gains_def adds_def of_op_def of_path_def)

text \<open>A metric adds exactly one call, to its operation and to its path if it has one.\<close>

lemma PathIndex_bound: "PathIndex f < 2"
  by (cases f) simp_all

lemma record_adds:
  "adds [\<lparr>sv_op = k, sv_ok = sm_success sm, sv_bytes = b, sv_path = p\<rparr>] c (record_metric e sm c) \<longleftrightarrow> \<not> sm_success sm \<or> b = sm_bytes sm"
  by (auto simp: adds_def record_metric_def)

lemma destruct_gains:
  assumes "\<forall>k. length (cm_by_path m k) = 2" "sm_success sm \<Longrightarrow> b = sm_bytes sm"
  shows "gains [\<lparr>sv_op = sm_op sm, sv_ok = sm_success sm, sv_bytes = b, sv_path = sm_data_path sm\<rparr>] m (ScopedTransferMetric_destruct now sm m)"
proof -
  have nil: "adds [] c c" for c by (simp add: adds_def)
  have one: "adds [\<lparr>sv_op = sm_op sm, sv_ok = sm_success sm, sv_bytes = b, sv_path = sm_data_path sm\<rparr>] c (record_metric e sm c)" for c e
    using assms(2) by (auto simp: record_adds)
  show ?thesis
    using assms(1) nil one PathIndex_bound
    by (cases "sm_data_path sm")
      (auto simp: gains_def of_op_def of_path_def ScopedTransferMetric_destruct_def Let_def nth_list_update)
qed

lemma scoped_gains:
  assumes "run_state (scoped now_us k b flow mark body) (s, m) = (r, s', m')" "\<forall>k. length (cm_by_path m k) = 2"
    and "\<And>t. sm_op (mark r (ScopedTransferMetric_construct k b flow t)) = sv_op v \<and>
      sm_success (mark r (ScopedTransferMetric_construct k b flow t)) = sv_ok v \<and>
      (sv_ok v \<longrightarrow> sm_bytes (mark r (ScopedTransferMetric_construct k b flow t)) = sv_bytes v) \<and>
      sm_data_path (mark r (ScopedTransferMetric_construct k b flow t)) = sv_path v"
  shows "run_state body s = (r, s') \<and> gains [v] m m'"
proof -
  have run: "run_state body s = (r, s')"
    "m' = ScopedTransferMetric_destruct (now_us (cw s')) (mark r (ScopedTransferMetric_construct k b flow (now_us (cw s)))) m"
    using assms(1) by (auto simp: run_scoped split: prod.splits)
  have "v = \<lparr>sv_op = sv_op v, sv_ok = sv_ok v, sv_bytes = sv_bytes v, sv_path = sv_path v\<rparr>" by simp
  with destruct_gains [OF assms(2), of "mark r (ScopedTransferMetric_construct k b flow (now_us (cw s)))" "sv_bytes v" "now_us (cw s')"]
  show ?thesis using run assms(3) [of "now_us (cw s)"] by simp
qed

lemmas metric_evals = mark_if_def MarkSuccess_def SetBytes_def SetDataPath_def ScopedTransferMetric_construct_def transfer_served_def

lemma metered_call_gains:
  assumes "run_state (metered_call P now_us core c) (s, m) = (u, s', m')" "cc_initialized core" "\<forall>k. length (cm_by_path m k) = 2"
  shows "\<exists>vs. run_state (plain_call P core c) s = (vs, s') \<and> gains vs m m'"
proof (cases c)
  case (HeadCall bucket key)
  then obtain r where r: "run_state (Metered_HeadObject P now_us core bucket key) (s, m) = (r, s', m')" using assms(1) by (auto split: prod.splits)
  have "gains [\<lparr>sv_op = kMHead, sv_ok = \<not> isl r, sv_bytes = 0, sv_path = None\<rparr>] m m'"
    by (rule scoped_gains [THEN conjunct2, OF r [unfolded Metered_HeadObject_def, simplified assms(2) simp_thms if_False] assms(3)])
      (auto simp: metric_evals split: sum.split)
  then show ?thesis using HeadCall metered_is_plain(1) [OF r] by auto
next
  case (GetCall q b)
  then obtain r where r: "run_state (Metered_GetObject P now_us core q b) (s, m) = (r, s', m')" using assms(1) by (auto split: prod.splits)
  have "gains [transfer_served kMGet to_bytes_transferred r] m m'"
    by (rule scoped_gains [THEN conjunct2, OF r [unfolded Metered_GetObject_def, simplified assms(2) simp_thms if_False] assms(3)])
      (auto simp: metric_evals split: sum.split)
  then show ?thesis using GetCall metered_is_plain(2) [OF r] by auto
next
  case (PutCall q b)
  then obtain r where r: "run_state (Metered_PutObject P now_us core q b) (s, m) = (r, s', m')" using assms(1) by (auto split: prod.splits)
  have "gains [transfer_served kMPut (\<lambda>_. bv_size b) r] m m'"
    by (rule scoped_gains [THEN conjunct2, OF r [unfolded Metered_PutObject_def, simplified assms(2) simp_thms if_False] assms(3)])
      (auto simp: metric_evals split: sum.split)
  then show ?thesis using PutCall metered_is_plain(3) [OF r] by auto
next
  case (PartCall n off b w)
  then obtain r where r: "run_state (Metered_UploadPart now_us n off b w) (s, m) = (r, s', m')" using assms(1) by (auto split: prod.splits)
  show ?thesis
  proof (cases "part_guard w b")
    case (Inl e)
    then have "m' = m" using r by (simp add: Metered_UploadPart_def)
    then show ?thesis using PartCall metered_is_plain(4) [OF r] Inl gains_nil [OF assms(3)] by auto
  next
    case (Inr policy)
    have "gains [\<lparr>sv_op = kMUploadPart, sv_ok = \<not> isl (fst r), sv_bytes = i64 (bv_size b), sv_path = Some (up_data_flow w)\<rparr>] m m'"
      by (rule scoped_gains [THEN conjunct2, OF r [unfolded Metered_UploadPart_def Inr sum.case] assms(3)])
        (auto simp: metric_evals split: sum.split prod.split)
    then show ?thesis using PartCall metered_is_plain(4) [OF r] Inr by auto
  qed
qed

lemma metered_calls_gain:
  assumes "run_state (metered_calls P now_us core calls) (s, m) = (u, s', m')" "cc_initialized core" "\<forall>k. length (cm_by_path m k) = 2"
  shows "\<exists>vs. run_state (plain_calls P core calls) s = (vs, s') \<and> gains vs m m'"
  using assms
proof (induction calls arbitrary: s m)
  case (Cons c cs)
  obtain s1 m1 where one: "run_state (metered_call P now_us core c) (s, m) = ((), s1, m1)" by (metis old.unit.exhaust prod.exhaust)
  with Cons(2) have rest: "run_state (metered_calls P now_us core cs) (s1, m1) = (u, s', m')" by simp
  from metered_call_gains [OF one Cons(3,4)] obtain v where v: "run_state (plain_call P core c) s = (v, s1)" "gains v m m1" by blast
  then have "\<forall>k. length (cm_by_path m1 k) = 2" by (simp add: gains_def)
  from Cons(1) [OF rest Cons(3) this] obtain vs where "run_state (plain_calls P core cs) s1 = (vs, s')" "gains vs m1 m'" by blast
  with v gains_append show ?case by fastforce
qed (use gains_nil in auto)

text \<open>A failed GET, PUT or HEAD has no path; a successful operation other than HEAD has one.\<close>

definition paths_ok :: "Served list \<Rightarrow> bool" where
  "paths_ok vs \<longleftrightarrow> (\<forall>v \<in> set vs. (sv_op v \<noteq> kMUploadPart \<and> \<not> sv_ok v \<longrightarrow> sv_path v = None) \<and> (sv_op v \<noteq> kMHead \<and> sv_ok v \<longrightarrow> sv_path v \<noteq> None))"

lemma plain_calls_paths: "run_state (plain_calls P core calls) s = (vs, s') \<Longrightarrow> paths_ok vs"
proof (induction calls arbitrary: s vs)
  case (Cons c cs)
  then obtain v s1 ws where w: "run_state (plain_call P core c) s = (v, s1)" "run_state (plain_calls P core cs) s1 = (ws, s')" "vs = v @ ws"
    by (auto split: prod.splits)
  have "paths_ok v"
    using w(1) by (cases c) (auto simp: paths_ok_def transfer_served_def split: prod.splits sum.splits if_splits)
  then show ?case using Cons(1) [OF w(2)] w(3) by (auto simp: paths_ok_def)
qed (simp add: paths_ok_def)

lemma paths_partition:
  assumes "paths_ok vs" "k \<noteq> kMHead"
  shows "length (filter sv_ok (of_path k 0 vs)) + length (filter sv_ok (of_path k 1 vs)) = length (filter sv_ok (of_op k vs))"
  using assms(1)
proof (induction vs)
  case (Cons v vs)
  have vs: "paths_ok vs" using Cons(2) by (simp add: paths_ok_def)
  show ?case
  proof (cases "sv_op v = k \<and> sv_ok v")
    case True
    then obtain f where f: "sv_path v = Some f" using Cons(2) assms(2) by (auto simp: paths_ok_def)
    with True Cons(1) [OF vs] show ?thesis by (cases f) (simp_all add: of_path_def of_op_def)
  next
    case False
    then have "filter sv_ok (of_path k i (v # vs)) = filter sv_ok (of_path k i vs)" "filter sv_ok (of_op k (v # vs)) = filter sv_ok (of_op k vs)" for i
      by (auto simp: of_path_def of_op_def)
    with Cons(1) [OF vs] show ?thesis by simp
  qed
qed (simp add: of_path_def of_op_def)

lemma paths_failures: "paths_ok vs \<Longrightarrow> k \<noteq> kMUploadPart \<Longrightarrow> filter (Not \<circ> sv_ok) (of_path k i vs) = []"
  by (auto simp: paths_ok_def of_path_def filter_empty_conv)


text \<open>Over RDMA: a GET, which is not supported, and two part uploads of three bytes, the second of them refused by the session.\<close>

definition example_part :: "bool \<Rightarrow> unit PublicCall" where
  "example_part accepted = PartCall 1 0 \<lparr>bv_data = 4096, bv_size = 3, bv_type = kHostRegular\<rparr>
     (UploadImpl_init \<lparr>ms_upload_id = ''u'', ms_max_part_size = 0,
        ms_UploadPart = (\<lambda>n off policy b. ret (if accepted then Inr TransferOutcome_default else Inl (MakeInvalidArgument ''refused''))),
        ms_Complete = (\<lambda>parts. ret (Inl (MakeInvalidArgument ''unused''))), ms_Abort = ret (Inr True)\<rparr> CPUDirect)"

definition example_calls :: "unit PublicCall list" where
  "example_calls = [GetCall GetObjectRequest_default \<lparr>bv_data = 4096, bv_size = 3, bv_type = kHostRegular\<rparr>, example_part True, example_part False]"

definition example_rdma_core :: ClientCore where
  "example_rdma_core = \<lparr>cc_options = ClientOptions_default\<lparr>o_data_flow := CPUDirect\<rparr>,
     cc_caps = \<lparr>cuda_runtime_available = False, gpu_available = False, cuobject_available = False\<rparr>, cc_ucx_created = True,
     cc_rdma_available = True, cc_executor = None, cc_coordinator = True, cc_initialized = True\<rparr>"


end
