(* ===== verification/Service_Processes.thy ===== *)
theory Service_Processes
  imports Backend_Sink
begin

text \<open>
  The programs of the proxy and of the data backend, \<^verbatim>\<open>proxy/src/main.cpp\<close> and \<^verbatim>\<open>backend/src/main.cpp\<close>: flags, start-up, service and release.
  The parsing of the command line is that of gflags; whether brpc accepts the service and can listen, and whether the RDMA server comes up, are
  arguments, as are the requests that arrive until a signal ends the wait.
\<close>

section \<open>What a process does\<close>

datatype process_event = SinkUp | ServiceAdded | Listening string nat | SignalReceived | ServerStopped | ServerJoined | SinkDown

definition EXIT_SUCCESS :: nat where "EXIT_SUCCESS = 0"
definition EXIT_FAILURE :: nat where "EXIT_FAILURE = 1"

definition listen_endpoint :: "string \<Rightarrow> int \<Rightarrow> string" where
  "listen_endpoint host port = host @ '':'' @ (if port < 0 then CHR ''-'' # dec (nat (- port)) else dec (nat port))"

section \<open>The proxy\<close>

record ProxyFlags =
  pf_proxy_port :: int
  pf_bind_host :: string
  pf_num_threads :: nat
  pf_session_ttl_sec :: int
  pf_gateway_id :: string
  pf_backend_endpoint :: string

definition ProxyFlags_default :: ProxyFlags where
  "ProxyFlags_default = \<lparr>pf_proxy_port = 9100, pf_bind_host = ''0.0.0.0'', pf_num_threads = 4, pf_session_ttl_sec = 300,
     pf_gateway_id = ''proxy-0'', pf_backend_endpoint = ''192.168.1.198:9200''\<rparr>"

text \<open>\<^verbatim>\<open>adds\<close>, \<^verbatim>\<open>starts\<close>: the answers of brpc; \<^verbatim>\<open>requests\<close>: what is served before the signal.\<close>

definition proxy_main :: "bool \<Rightarrow> bool \<Rightarrow> px_event list \<Rightarrow> ProxyFlags \<Rightarrow> nat \<times> process_event list \<times> Proxy" where
  "proxy_main adds starts requests fl =
     (let px = \<lparr>px_gateway_id = pf_gateway_id fl, px_backend_endpoint = pf_backend_endpoint fl,
                px_mgr = SessionManager_init (pf_session_ttl_sec fl)\<rparr> in
      if \<not> adds then (EXIT_FAILURE, [], px)
      else
        let endpoint = listen_endpoint (pf_bind_host fl) (pf_proxy_port fl) in
        if \<not> starts then (EXIT_FAILURE, [ServiceAdded], px)
        else (EXIT_SUCCESS, [ServiceAdded, Listening endpoint (pf_num_threads fl), SignalReceived, ServerStopped, ServerJoined],
              fold proxy_step requests px))"

section \<open>The backend\<close>

record BackendFlags =
  bf_brpc_port :: int
  bf_rdma_port :: int
  bf_bind_host :: string
  bf_public_host :: string
  bf_num_threads :: nat
  bf_backend_id :: string
  bf_proxy_endpoint :: string

definition BackendFlags_default :: BackendFlags where
  "BackendFlags_default = \<lparr>bf_brpc_port = 9200, bf_rdma_port = 18516, bf_bind_host = ''0.0.0.0'', bf_public_host = ''127.0.0.1'',
     bf_num_threads = 4, bf_backend_id = ''backend-0'', bf_proxy_endpoint = ''192.168.1.198:9100''\<rparr>"

record BackendAnswers =
  ba_connected :: bool
  ba_proxy_init :: bool
  ba_add :: bool
  ba_start :: bool

text \<open>The proxy is a process of its own; its state is threaded through the requests the backend reports to it.\<close>

definition backend_serve ::
  "(CuAnswers \<times> bool \<times> GdsChunkRequest) list \<Rightarrow> BackendDataPlaneService \<times> Proxy \<Rightarrow> BackendDataPlaneService \<times> Proxy" where
  "backend_serve requests sys = fold (\<lambda>(a, reached, q) sys. snd (Backend_GdsPut a reached q sys)) requests sys"

text \<open>The sink is stopped by its destructor on an early return, and by \<^verbatim>\<open>main\<close> after the server has been joined; the destructor
  then finds nothing. What becomes of its pool is returned beside it.\<close>

definition backend_main ::
  "BackendAnswers \<Rightarrow> (CuAnswers \<times> bool \<times> GdsChunkRequest) list \<Rightarrow> BackendFlags \<Rightarrow> Proxy
   \<Rightarrow> nat \<times> process_event list \<times> PinnedBufferPool option \<times> BackendGdsSink \<times> Proxy" where
  "backend_main a requests fl px =
     (case Sink_Start (ba_connected a) (BackendGdsSink_init (bf_bind_host fl) (bf_rdma_port fl)) of
        (False, k) \<Rightarrow> (case Sink_Stop k of (pool, k) \<Rightarrow> (EXIT_FAILURE, [SinkDown], pool, k, px))
      | (True, k) \<Rightarrow>
          (let bk = BackendDataPlaneService_init (ba_proxy_init a) k (bf_backend_id fl) (bf_proxy_endpoint fl) in
           if \<not> ba_add a then (case Sink_Stop k of (pool, k) \<Rightarrow> (EXIT_FAILURE, [SinkUp, SinkDown], pool, k, px))
           else
             let endpoint = listen_endpoint (bf_bind_host fl) (bf_brpc_port fl) in
             if \<not> ba_start a then (case Sink_Stop k of (pool, k) \<Rightarrow> (EXIT_FAILURE, [SinkUp, ServiceAdded, SinkDown], pool, k, px))
             else
               (case backend_serve requests (bk, px) of
                  (bk, px) \<Rightarrow>
                    (case Sink_Stop (bk_sink bk) of
                       (pool, k) \<Rightarrow>
                         (EXIT_SUCCESS, [SinkUp, ServiceAdded, Listening endpoint (bf_num_threads fl), SignalReceived, ServerStopped, ServerJoined,
                            SinkDown], pool, snd (Sink_Stop k), px)))))"

section \<open>Nothing is left behind\<close>

lemma discard_pool: "ReceiveAndDiscard a obj tok len k = (out, k') \<Longrightarrow> (bs_pool k' = None) = (bs_pool k = None)"
  by (auto simp: ReceiveAndDiscard_def sink_take_def sink_drop_def Let_def split: if_splits option.splits prod.splits)

lemma serve_wf:
  "sink_wf (bk_sink bk) \<Longrightarrow> backend_serve requests (bk, px) = (bk', px') \<Longrightarrow>
   sink_wf (bk_sink bk') \<and> (bs_pool (bk_sink bk') = None) = (bs_pool (bk_sink bk) = None)"
proof (induction requests arbitrary: bk px)
  case (Cons x xs)
  obtain a reached q where x: "x = (a, reached, q)" by (cases x) auto
  obtain r bk1 px1 where p: "Backend_GdsPut a reached q (bk, px) = (r, bk1, px1)" by (metis prod.exhaust)
  have "bk_sink bk1 = bk_sink bk \<or> (\<exists>out obj tok len. ReceiveAndDiscard a obj tok len (bk_sink bk) = (out, bk_sink bk1))"
    using p by (auto simp: Backend_GdsPut_def Let_def split: if_splits prod.splits)
  then have "sink_wf (bk_sink bk1)" "(bs_pool (bk_sink bk1) = None) = (bs_pool (bk_sink bk) = None)"
    using Cons(2) ReceiveAndDiscard_wf discard_pool by metis+
  with Cons(1) [of bk1 px1] Cons(3) p show ?case by (simp add: backend_serve_def x)
qed (simp add: backend_serve_def)

lemma stop_frees:
  assumes "sink_wf k" "Sink_Stop k = (pool, k')"
  shows "k' = k\<lparr>bs_pool := None, bs_server := False\<rparr> \<and> bs_channels k' = {#} \<and>
    (\<forall>p. pool = Some p \<longrightarrow> live_buffers p = {#} \<and> live_mrs p = {#})"
proof -
  have "live_buffers (Pool_Shutdown p) = {#} \<and> live_mrs (Pool_Shutdown p) = {#}" if "bs_pool k = Some p" for p
  proof -
    have p: "pool_reach p []" using assms(1) that by (simp add: sink_wf_def)
    have "pool_shutdown (Pool_Shutdown p)" using Shutdown_ok pool_reach_ok [OF p] by blast
    with pool_no_leak [OF pool_reach.shutdown [OF p]] show ?thesis by blast
  qed
  then show ?thesis using assms by (auto simp: Sink_Stop_def sink_wf_def)
qed

text \<open>The backend serves exactly when the RDMA server, the service and the listener came up, and reports that by its exit code. In every case, with
  any requests and any answers of the RDMA library, the sink is stopped last, after the listener has been joined if there was one: no
  RDMA server, no channel, no pinned buffer and no memory region is left.\<close>

theorem backend_main_releases:
  assumes "backend_main a requests fl px = (code, log, pool, k, px')"
  shows "(code = EXIT_SUCCESS \<longleftrightarrow> ba_connected a \<and> ba_add a \<and> ba_start a) \<and> (ServerJoined \<in> set log \<longleftrightarrow> code = EXIT_SUCCESS) \<and>
    last log = SinkDown \<and> count_list log SinkDown = 1 \<and> \<not> bs_server k \<and> bs_pool k = None \<and> bs_channels k = {#} \<and>
    (\<forall>p. pool = Some p \<longrightarrow> live_buffers p = {#} \<and> live_mrs p = {#}) \<and> (pool = None \<longleftrightarrow> \<not> ba_connected a) \<and>
    (code \<noteq> EXIT_SUCCESS \<longrightarrow> px' = px)"
proof -
  let ?init = "BackendGdsSink_init (bf_bind_host fl) (bf_rdma_port fl)"
  let ?k = "snd (Sink_Start True ?init)"
  have wf: "sink_wf ?init" "sink_wf ?k"
    by (simp_all add: sink_wf_def Sink_Start_def BackendGdsSink_init_def pool_reach.init)
  have pool: "bs_pool ?k \<noteq> None" "bs_pool ?init = None" by (simp_all add: Sink_Start_def BackendGdsSink_init_def)
  show ?thesis
  proof (cases "ba_connected a \<and> ba_add a \<and> ba_start a")
    case False
    then show ?thesis using assms stop_frees [OF wf(1)] stop_frees [OF wf(2)]
      by (auto simp: backend_main_def Sink_Start_def Sink_Stop_def BackendGdsSink_init_def Let_def EXIT_SUCCESS_def EXIT_FAILURE_def
          split: if_splits prod.splits)
  next
    case True
    let ?bk = "BackendDataPlaneService_init (ba_proxy_init a) ?k (bf_backend_id fl) (bf_proxy_endpoint fl)"
    obtain bk px1 where s: "backend_serve requests (?bk, px) = (bk, px1)" by fastforce
    have "sink_wf (bk_sink ?bk)" using wf(2) by (simp add: BackendDataPlaneService_init_def)
    from serve_wf [OF this s] have w: "sink_wf (bk_sink bk)" "bs_pool (bk_sink bk) \<noteq> None"
      using pool(1) by (simp_all add: BackendDataPlaneService_init_def)
    obtain pl k1 where st: "Sink_Stop (bk_sink bk) = (pl, k1)" by fastforce
    show ?thesis
      using assms True s st stop_frees [OF w(1) st] w(2)
      by (auto simp: backend_main_def Sink_Start_def Sink_Stop_def Let_def EXIT_SUCCESS_def)
  qed
qed

text \<open>The proxy serves exactly when the service was added and the listener started, and then every state it reaches is one of those its handlers
  are verified on, from a table without sessions.\<close>

theorem proxy_main_serves:
  assumes "proxy_main adds starts requests fl = (code, log, px)"
  shows "(code = EXIT_SUCCESS \<longleftrightarrow> adds \<and> starts) \<and> (ServerJoined \<in> set log \<longleftrightarrow> code = EXIT_SUCCESS) \<and> proxy_reach px \<and>
    (code \<noteq> EXIT_SUCCESS \<longrightarrow> sm_sessions (px_mgr px) = [])"
proof -
  have "proxy_reach (fold proxy_step requests px0)" if "proxy_reach px0" for px0
    using that by (induction requests arbitrary: px0) (simp_all add: proxy_reach.step)
  then show ?thesis using assms proxy_reach.start
    by (auto simp: proxy_main_def EXIT_SUCCESS_def EXIT_FAILURE_def SessionManager_init_def Let_def split: if_splits)
qed

end
