(* ===== verification/Gateway_Invariant.thy ===== *)
theory Gateway_Invariant
  imports Control_Plane
begin

text \<open>
  The invariant of a whole gateway on the memory backend. Every RPC of \<^verbatim>\<open>api/control_plane_service.cpp\<close> and
  \<^verbatim>\<open>api/rdma_data_plane_service.cpp\<close>, the active message and the remote writes of the UCX data path and a round of the sweeper are
  the steps of one relation over \<^typ>\<open>MemoryBackend Gateway\<close>. The components share the coordinator and the backend, so each
  handler has to keep what the others rely on: here the contracts of the backend, the coordinator, the session store and the two
  executors are put together.
\<close>

section \<open>The memory backend of a given capacity\<close>

type_synonym MemoryGateway = "MemoryBackend Gateway"

definition capped :: "nat \<Rightarrow> MemoryBackend \<Rightarrow> bool" where
  "capped cap c \<longleftrightarrow> memory_backend_inv c \<and> capacity_bytes (cb_data c) = cap"

lemma capped_fits: "capped cap c \<Longrightarrow> fits (cb_data c) n \<longleftrightarrow> cap + n < u64_mod"
  by (simp add: capped_def fits_def)

interpretation capped_mp: multipart_backend memory_backend "capped cap"
  "\<lambda>c. seq_left (cb_index c)" "\<lambda>c n. cap + n < u64_mod" mpu_targets "\<lambda>c. staged_parts (cb_data c)" "\<lambda>c. bodies (cb_data c)" for cap
proof (unfold_locales, goal_cases)
  case (1 s now b k hint)
  then show ?case
    using memory_mp.start [of s now b k hint] capacity_backend(3) [of now b k hint s] by (auto simp: capped_def)
next
  case (2 s u ps now)
  then show ?case
    using memory_mp.complete_inv [where s = s and ps = ps and u = u and now = now] capacity_backend(5) [of now u ps s] capped_fits [of cap s]
    by (simp add: capped_def del: memory_backend_ops)
next
  case (3 s u ps now e s')
  then show ?case using memory_mp.complete_failed [where s = s and ps = ps and u = u] capped_fits [of cap s] by (simp add: capped_def del: memory_backend_ops)
next
  case (4 s u ps now m s')
  then show ?case using memory_mp.complete_ok [where s = s and ps = ps and u = u] capped_fits [of cap s] by (simp add: capped_def del: memory_backend_ops)
next
  case (5 s u)
  then show ?case using memory_mp.abort [of s u] capacity_backend(6) [of u s] by (simp add: capped_def del: memory_backend_ops)
qed

definition coordinator_ok :: "nat \<Rightarrow> MemoryCoordinator \<Rightarrow> bool" where
  "coordinator_ok cap = coordinator_inv (capped cap) mpu_targets"

text \<open>A change of the backend that keeps its invariant and the open uploads.\<close>

lemma coordinator_frame:
  "coordinator_ok cap co \<Longrightarrow> capped cap c \<Longrightarrow> mpu_targets c = mpu_targets (co_backend co) \<Longrightarrow> coordinator_ok cap (co\<lparr>co_backend := c\<rparr>)"
  by (simp add: coordinator_ok_def coordinator_inv_def)

lemma coordinator_backend: "coordinator_ok cap co \<Longrightarrow> capped cap (co_backend co)"
  by (simp add: coordinator_ok_def coordinator_inv_def)

lemma write_range_ok:
  assumes "coordinator_ok cap co" "cap + write_target off src t < u64_mod" "\<forall>n. t = Some n \<longrightarrow> off + length src \<le> n"
    and "be_WriteRange memory_backend now b k off src t (co_backend co) = (r, c)"
  shows "coordinator_ok cap (co\<lparr>co_backend := c\<rparr>)"
proof -
  note c = coordinator_backend [OF assms(1)]
  have f: "fits (cb_data (co_backend co)) (write_target off src t)" using assms(2) capped_fits [OF c] by simp
  have "memory_backend_inv c" "mpu_targets c = mpu_targets (co_backend co)"
    using mem.write_range_run(1,2) [OF _ f assms(3)] assms(4) c by (auto simp: capped_def)
  then show ?thesis
    using coordinator_frame [OF assms(1), of c] capacity_backend(1) [of now b k off src t "co_backend co"] assms(4) c
    by (simp add: capped_def del: memory_backend_ops)
qed

lemma write_part_ok:
  assumes "coordinator_ok cap co" "cap + (off + length src) < u64_mod"
    and "be_WritePart memory_backend now u pn off src (co_backend co) = (r, c)"
  shows "coordinator_ok cap (co\<lparr>co_backend := c\<rparr>)"
proof -
  note c = coordinator_backend [OF assms(1)]
  have f: "fits (cb_data (co_backend co)) (off + length src)" using assms(2) capped_fits [OF c] by simp
  have "memory_backend_inv c" "mpu_targets c = mpu_targets (co_backend co)"
    using mem.write_part_run(1,2) [OF _ f] assms(3) c by (auto simp: capped_def)
  then show ?thesis
    using coordinator_frame [OF assms(1), of c] capacity_backend(4) [of now u pn off src "co_backend co"] assms(3) c
    by (simp add: capped_def del: memory_backend_ops)
qed

lemma reserve_ok:
  assumes "coordinator_ok cap co" "cap + n < u64_mod" "be_Reserve memory_backend now b k n (co_backend co) = (r, c)"
  shows "coordinator_ok cap (co\<lparr>co_backend := c\<rparr>)"
proof -
  note c = coordinator_backend [OF assms(1)]
  have f: "fits (cb_data (co_backend co)) n" using assms(2) capped_fits [OF c] by simp
  have "memory_backend_inv c" "mpu_targets c = mpu_targets (co_backend co)"
    using mem.reserve_run(1,2) [OF _ f] assms(3) c by (auto simp: capped_def)
  then show ?thesis
    using coordinator_frame [OF assms(1), of c] capacity_backend(2) [of now b k n "co_backend co"] assms(3) c
    by (simp add: capped_def del: memory_backend_ops)
qed

text \<open>Rewriting an upload without touching what identifies it.\<close>

lemma replace_upload_ok:
  assumes "coordinator_ok cap co" "fixed v = fixed (uploads (co_store co) ! r)"
  shows "coordinator_ok cap (co\<lparr>co_store := update_upload r (\<lambda>_. v) (co_store co)\<rparr>)"
proof -
  let ?f = "\<lambda>u. if u = uploads (co_store co) ! r then v else u"
  have "update_upload r (\<lambda>_. v) (co_store co) = update_upload r ?f (co_store co)" by (simp add: update_upload_def)
  then show ?thesis using inv_update [of "capped cap" mpu_targets co ?f r] assms by (auto simp: coordinator_ok_def)
qed

lemma register_part_ok: "coordinator_ok cap co \<Longrightarrow> coordinator_ok cap (RegisterPart now r pn off sz e co)"
  unfolding coordinator_ok_def by (rule capped_mp.register_ok)

section \<open>The GDS data path\<close>

text \<open>Everything a GDS transfer writes came through the leased buffer of the chunk.\<close>

definition received_within :: "CuAnswers \<Rightarrow> nat \<Rightarrow> bool" where
  "received_within a n \<longleftrightarrow> length (ca_received a) \<le> n"

lemma PutChunk_writes:
  assumes "PutChunk B a now s off len (ex, b) = (r, ex', b')" "received_within a len"
  shows "b' = b \<or> (\<exists>src q. length src \<le> len \<and> be_WriteRange B now (s_bucket s) (object_key s) off src (session_total s) b = (q, b'))"
proof -
  let ?persist = "\<lambda>view. be_WriteRange B now (s_bucket s) (object_key s) off view (session_total s)"
  consider "b' = b" | "\<exists>q. ?persist [] b = (q, b')" | "put_through a len ?persist (ex, b) = (r, ex', b')"
    using assms(1) by (auto simp: PutChunk_def Let_def split: if_splits prod.splits)
  then show ?thesis
  proof cases
    case 2
    then show ?thesis by (metis le0 list.size(3))
  next
    case 3
    have "length (take n (ca_received a)) \<le> len" for n using assms(2) by (simp add: received_within_def)
    then show ?thesis using put_through_effect [OF 3] by blast
  qed blast
qed

lemma persist_part_writes:
  assumes "persist_part B md5 now uid pn off policy view (b, Some u) = (r, b', u')"
  shows "(\<exists>q. be_WritePart B now uid pn off view b = (q, b')) \<and> (\<exists>v. u' = Some v \<and> fixed v = fixed u)"
  using assms by (auto simp: persist_part_def md5_accumulate_def fixed_def Let_def split: prod.splits sum.splits if_splits)

lemma PutPart_writes:
  assumes "PutPart B md5 a now uid pn off len policy (ex, b, Some u) = (r, ex', b', u')" "received_within a len"
  shows "b' = b \<or> (\<exists>src q. length src \<le> len \<and> be_WritePart B now uid pn off src b = (q, b'))"
    "\<exists>v. u' = Some v \<and> fixed v = fixed u"
proof -
  let ?persist = "persist_part B md5 now uid pn off policy"
  consider "b' = b" "u' = Some u" | "\<exists>q. be_WritePart B now uid pn off [] b = (q, b')" "u' = Some u"
    | "put_through a len ?persist (ex, b, Some u) = (r, ex', b', u')"
    using assms(1) by (auto simp: PutPart_def Let_def split: if_splits prod.splits)
  then have "(b' = b \<or> (\<exists>src q. length src \<le> len \<and> be_WritePart B now uid pn off src b = (q, b'))) \<and> (\<exists>v. u' = Some v \<and> fixed v = fixed u)"
  proof cases
    case 2
    then show ?thesis by (metis le0 list.size(3))
  next
    case 3
    have "length (take n (ca_received a)) \<le> len" for n using assms(2) by (simp add: received_within_def)
    then show ?thesis using put_through_effect [OF 3] by (auto dest!: persist_part_writes)
  qed simp
  then show "b' = b \<or> (\<exists>src q. length src \<le> len \<and> be_WritePart B now uid pn off src b = (q, b'))"
    "\<exists>v. u' = Some v \<and> fixed v = fixed u" by auto
qed

lemma UploadPart_ok:
  assumes "coordinator_ok cap co" "gds_wf ex" "received_within a len" "cap + (off + len) < u64_mod"
    and "GdsMultipart_UploadPart memory_backend md5 a now uid pn off len policy (ex, co) = (r, ex', co')"
  shows "coordinator_ok cap co' \<and> gds_wf ex' \<and> live_channels ex' = live_channels ex"
proof (cases "Lookup uid co")
  case (Inl e)
  then show ?thesis using assms by (simp add: GdsMultipart_UploadPart_def)
next
  case (Inr ref)
  let ?u = "uploads (co_store co) ! ref"
  obtain q ex1 b u' where p: "PutPart memory_backend md5 a now (backend_upload_id ?u) pn off len policy (ex, co_backend co, Some ?u) = (q, ex1, b, u')"
    using prod_cases4 by blast
  note w = PutPart_writes [OF p assms(3)]
  obtain v where v: "u' = Some v" "fixed v = fixed ?u" using w(2) by blast
  have b: "coordinator_ok cap (co\<lparr>co_backend := b\<rparr>)"
  proof -
    have "coordinator_ok cap (co\<lparr>co_backend := b\<rparr>)"
      if "length src \<le> len" "be_WritePart memory_backend now (backend_upload_id ?u) pn off src (co_backend co) = (q', b)" for src q'
      using write_part_ok [OF assms(1) _ that(2)] that(1) assms(4) by simp
    then show ?thesis using w(1) assms(1) by auto
  qed
  have "coordinator_ok cap (co\<lparr>co_backend := b, co_store := update_upload ref (\<lambda>_. v) (co_store co)\<rparr>)"
    using replace_upload_ok [OF b, of v ref] v(2) by simp
  moreover have "gds_wf ex1 \<and> live_channels ex1 = live_channels ex" using PutPart_released [OF assms(2) p] by simp
  ultimately show ?thesis
    using assms(5) Inr p v(1) register_part_ok
    by (auto simp: GdsMultipart_UploadPart_def Let_def split: sum.splits)
qed

section \<open>The UCX data path\<close>

text \<open>Commits that wait for their data fit under the capacity as the checked ones do.\<close>

definition pending_fit :: "nat \<Rightarrow> MemoryBackend UcxExecutor \<Rightarrow> bool" where
  "pending_fit cap ux \<longleftrightarrow> (\<forall>x \<in> set (ux_entries ux). \<forall>c. ue_pending x = Some c \<longrightarrow> cap + c_bytes c < u64_mod)"

definition ucx_ok :: "nat \<Rightarrow> MemoryBackend UcxExecutor \<Rightarrow> bool" where
  "ucx_ok cap ux \<longleftrightarrow> ucx_wf ux \<and> \<not> ux_fault ux \<and> pending_fit cap ux"

lemma pending_fit_update:
  assumes "pending_fit cap ux" "\<And>x c. ue_pending (f x) = Some c \<Longrightarrow> ue_pending x = Some c \<or> cap + c_bytes c < u64_mod"
  shows "pending_fit cap (update_entry e f ux)"
proof (cases "e < length (ux_entries ux)")
  case True
  then have "ux_entries ux ! e \<in> set (ux_entries ux)" by simp
  then show ?thesis using assms
    by (auto simp: pending_fit_def update_entry_def dest!: set_update_subset_insert [THEN subsetD])
qed (use assms(1) in \<open>simp add: pending_fit_def update_entry_def list_update_beyond\<close>)

lemma pending_fit_cong: "ux_entries ux' = ux_entries ux \<Longrightarrow> pending_fit cap ux' = pending_fit cap ux"
  by (simp add: pending_fit_def)

lemma released_fields [simp]:
  "ux_co (ReleaseEntry e ux) = ux_co ux" "ux_co (release_and_erase sid e ux) = ux_co ux"
  "ux_opts (ReleaseEntry e ux) = ux_opts ux"
  by (simp_all add: release_and_erase_def ReleaseEntry_def UcxBufferPool_Return_def update_entry_def UcxSessionRegistry_Erase_def
      use_registry_def split: option.split)

lemma pending_fit_release:
  assumes "pending_fit cap ux"
  shows "pending_fit cap (ReleaseEntry e ux)" "pending_fit cap (release_and_erase sid e ux)"
proof -
  have r: "pending_fit cap (ReleaseEntry e v)" if "pending_fit cap v" for v
  proof (cases "ue_slot (ux_entries v ! e)")
    case (Some r)
    have "pending_fit cap (case ux_pool v of Some pool \<Rightarrow> UcxBufferPool_Return r pool v | None \<Rightarrow> free_slot r v)"
      using that by (auto simp: UcxBufferPool_Return_def pending_fit_def split: option.split)
    then show ?thesis using Some by (auto simp: ReleaseEntry_def intro: pending_fit_update)
  qed (simp add: ReleaseEntry_def that)
  then show "pending_fit cap (ReleaseEntry e ux)" using assms by blast
  have "pending_fit cap (snd (UcxSessionRegistry_Erase sid (use_registry ux)))"
    using assms by (simp add: UcxSessionRegistry_Erase_def use_registry_def pending_fit_def)
  then show "pending_fit cap (release_and_erase sid e ux)" using r by (simp add: release_and_erase_def)
qed

lemma slot_view_fields:
  "slot_view e n ux = (view, ux') \<Longrightarrow> length view \<le> n \<and> ux_co ux' = ux_co ux \<and> ux_entries ux' = ux_entries ux"
  by (auto simp: slot_view_def split: option.splits)

lemma DoCommitObject_ok:
  assumes "coordinator_ok cap (ux_co ux)" "pending_fit cap ux" "cap + n < u64_mod" "DoCommitObject memory_backend now e n ux = (r, ux')"
  shows "coordinator_ok cap (ux_co ux')" "pending_fit cap ux'"
proof -
  obtain view ux1 where v: "slot_view e n ux = (view, ux1)" by fastforce
  note f = slot_view_fields [OF v]
  let ?x = "ux_entries ux ! e"
  obtain q b where w: "be_WriteRange memory_backend now (ue_bucket ?x) (ue_object_key ?x) 0 view (Some n) (co_backend (ux_co ux)) = (q, b)"
    by fastforce
  have "coordinator_ok cap ((ux_co ux)\<lparr>co_backend := b\<rparr>)"
    using f assms(3) by (intro write_range_ok [OF assms(1) _ _ w]) (simp_all add: write_target_def)
  moreover have "ux' = ux1\<lparr>ux_co := (ux_co ux)\<lparr>co_backend := b\<rparr>\<rparr>"
    using assms(4) v f w by (auto simp: DoCommitObject_def Let_def split: sum.splits)
  ultimately show "coordinator_ok cap (ux_co ux')" "pending_fit cap ux'"
    using f assms(2) by (simp_all add: pending_fit_def)
qed

lemma DoWritePartData_ok:
  assumes "coordinator_ok cap (ux_co ux)" "pending_fit cap ux" "cap + n < u64_mod" "DoWritePartData memory_backend now e uid pn n ux = (r, ux')"
  shows "coordinator_ok cap (ux_co ux')" "pending_fit cap ux'"
proof -
  obtain view ux1 where v: "slot_view e n ux = (view, ux1)" by fastforce
  note f = slot_view_fields [OF v]
  obtain q b where w: "be_WritePart memory_backend now uid pn 0 view (co_backend (ux_co ux)) = (q, b)" by fastforce
  have "coordinator_ok cap ((ux_co ux)\<lparr>co_backend := b\<rparr>)"
    using f assms(3) by (intro write_part_ok [OF assms(1) _ w]) simp
  moreover have "ux' = ux1\<lparr>ux_co := (ux_co ux)\<lparr>co_backend := b\<rparr>\<rparr>"
    using assms(4) v f w by (auto simp: DoWritePartData_def Let_def)
  ultimately show "coordinator_ok cap (ux_co ux')" "pending_fit cap ux'"
    using f assms(2) by (simp_all add: pending_fit_def)
qed

lemma run_commit_ok:
  assumes "coordinator_ok cap (ux_co ux)" "pending_fit cap ux" "cap + c_bytes c < u64_mod"
  shows "coordinator_ok cap (ux_co (run_commit memory_backend now e c ux)) \<and> pending_fit cap (run_commit memory_backend now e c ux)"
proof (cases c)
  case (CommitObj sid n crc rpc)
  obtain r ux' where d: "DoCommitObject memory_backend now e n ux = (r, ux')" by fastforce
  note ok = DoCommitObject_ok [OF assms(1,2) _ d]
  show ?thesis using ok assms(3) CommitObj d pending_fit_release(2) [of cap ux']
    by (simp add: run_commit_def on_done_def) (simp add: pending_fit_def)
next
  case (CommitPart sid uid u pn n crc rpc)
  obtain r ux' where d: "DoWritePartData memory_backend now e uid pn n ux = (r, ux')" by fastforce
  note ok = DoWritePartData_ok [OF assms(1,2) _ d]
  show ?thesis using ok assms(3) CommitPart d pending_fit_release(2) [of cap ux'] register_part_ok
    by (simp add: run_commit_def on_done_def FinishCommitPart_def split: sum.split) (simp add: pending_fit_def)
qed

text \<open>The operations of the executor on a shared coordinator.\<close>

definition ucx_co_ok :: "nat \<Rightarrow> MemoryBackend UcxExecutor \<Rightarrow> bool" where
  "ucx_co_ok cap ux \<longleftrightarrow> ucx_ok cap ux \<and> coordinator_ok cap (ux_co ux)"

lemma ucx_co_ok_co: "ucx_ok cap ux \<Longrightarrow> coordinator_ok cap co \<Longrightarrow> ucx_co_ok cap (ux\<lparr>ux_co := co\<rparr>)"
  by (simp add: ucx_co_ok_def ucx_ok_def pending_fit_def)

lemma slot_entries [simp]:
  "ux_entries (snd (UcxBufferPool_Acquire n ux)) = ux_entries ux" "ux_entries (snd (new_slot a n ux)) = ux_entries ux"
  by (simp_all add: UcxBufferPool_Acquire_def new_slot_def Let_def split: option.split prod.split)

lemma PrepareTransfer_ok:
  assumes "ucx_co_ok cap ux"
  shows "ucx_co_ok cap (snd (PrepareTransfer a sid n ux))"
proof -
  have "pending_fit cap (snd (PrepareTransfer a sid n ux))"
  proof -
    have ok: "pending_fit cap ux" "ucx_wf ux" using assms by (simp_all add: ucx_co_ok_def ucx_ok_def)
    have upd: "pending_fit cap (update_entry e (\<lambda>x. x\<lparr>ue_slot := Some r, ue_transfer_bytes := n\<rparr>) v)"
      if "ux_entries v = ux_entries ux" for v e r
      using pending_fit_update [where f = "\<lambda>x. x\<lparr>ue_slot := Some r, ue_transfer_bytes := n\<rparr>"] pending_fit_cong [OF that] ok(1) by simp
    have same: "pending_fit cap v" if "ux_entries v = ux_entries ux" for v using pending_fit_cong [OF that] ok(1) by simp
    show ?thesis
      using ok by (auto simp: PrepareTransfer_def Let_def split_beta upd same split: option.split sum.split)
  qed
  then show ?thesis
    using assms PrepareTransfer_wf [of ux a sid n, OF _ surjective_pairing] by (simp add: ucx_co_ok_def ucx_ok_def)
qed

lemma commit_async_ok:
  assumes "ucx_co_ok cap ux" "commit_allowed c ux" "cap + c_bytes c < u64_mod"
  shows "ucx_co_ok cap (snd (commit_async memory_backend now c ux))"
proof -
  have ok: "coordinator_ok cap (ux_co ux)" "pending_fit cap ux" "ucx_wf ux" using assms(1) by (simp_all add: ucx_co_ok_def ucx_ok_def)
  have fail: "pending_fit cap (fail_commit c err ux) \<and> ux_co (fail_commit c err ux) = ux_co ux" for err
    using ok(2) by (simp add: fail_commit_def on_done_def pending_fit_def split: Commit.split)
  have store: "pending_fit cap (update_entry e (\<lambda>x. x\<lparr>ue_pending := Some c\<rparr>) ux)" for e
    using assms(3) ok(2) by (intro pending_fit_update) auto
  note run = run_commit_ok [OF ok(1,2) assms(3)]
  have "coordinator_ok cap (ux_co (snd (commit_async memory_backend now c ux))) \<and> pending_fit cap (snd (commit_async memory_backend now c ux))"
    using ok run store fail
    by (simp add: commit_async_def commit_fast_def commit_locked_def Let_def split: option.split) (simp add: update_entry_def)
  then show ?thesis
    using assms(1) commit_async_wf [OF ok(3) assms(2), of memory_backend now] by (simp add: ucx_co_ok_def ucx_ok_def)
qed

lemma OnAmWriteDone_ok:
  assumes "ucx_co_ok cap ux"
  shows "ucx_co_ok cap (OnAmWriteDone memory_backend now sid ux)"
proof -
  have ok: "coordinator_ok cap (ux_co ux)" "pending_fit cap ux" "ucx_wf ux" using assms by (simp_all add: ucx_co_ok_def ucx_ok_def)
  have "coordinator_ok cap (ux_co (OnAmWriteDone memory_backend now sid ux)) \<and> pending_fit cap (OnAmWriteDone memory_backend now sid ux)"
  proof (cases "sid = [] \<or> UcxSessionRegistry_Find sid ux = None")
    case False
    then obtain e where e: "sid \<noteq> []" "UcxSessionRegistry_Find sid ux = Some e" by auto
    let ?u = "update_entry e (\<lambda>x. x\<lparr>ue_write_done := True, ue_pending := None\<rparr>) ux"
    have u: "coordinator_ok cap (ux_co ?u)" "pending_fit cap ?u"
      using ok(1) pending_fit_update [OF ok(2), of "\<lambda>x. x\<lparr>ue_write_done := True, ue_pending := None\<rparr>" e] by (simp_all add: update_entry_def)
    have "ux_entries ux ! e \<in> set (ux_entries ux)" using find_ok(1) [OF ok(3) e(2)] by simp
    then have "cap + c_bytes c < u64_mod" if "ue_pending (ux_entries ux ! e) = Some c" for c
      using ok(2) that by (auto simp: pending_fit_def)
    then show ?thesis
      using e ok(3) u run_commit_ok [OF u] by (auto simp: OnAmWriteDone_def Let_def split: option.split)
  qed (use ok in \<open>auto simp: OnAmWriteDone_def Let_def\<close>)
  then show ?thesis
    using assms OnAmWriteDone_wf [OF ok(3), of memory_backend now sid] by (simp add: ucx_co_ok_def ucx_ok_def)
qed

lemma AbortSession_ok:
  assumes "ucx_co_ok cap ux"
  shows "ucx_co_ok cap (snd (AbortSession sid ux))"
proof -
  have ok: "coordinator_ok cap (ux_co ux)" "pending_fit cap ux" "ucx_wf ux" using assms by (simp_all add: ucx_co_ok_def ucx_ok_def)
  have "pending_fit cap (ux\<lparr>ux_registry := m\<rparr>)" for m using ok(2) by (simp add: pending_fit_def)
  then have "coordinator_ok cap (ux_co (snd (AbortSession sid ux))) \<and> pending_fit cap (snd (AbortSession sid ux))"
    using ok(1,3) by (auto simp: AbortSession_def UcxSessionRegistry_Erase_def Let_def pending_fit_release(1) split: option.split)
  then show ?thesis using assms AbortSession_wf [OF ok(3), of sid] by (simp add: ucx_co_ok_def ucx_ok_def)
qed

lemma CommitPart_ok:
  assumes "ucx_co_ok cap ux" "\<forall>uid u. commit_allowed (CommitPart sid uid u pn n crc rpc) ux" "cap + n < u64_mod"
  shows "ucx_co_ok cap (snd (UcxMultipart_CommitPartAsync memory_backend now sid up pn n crc rpc ux))"
proof (cases "Lookup up (ux_co ux)")
  case (Inl e)
  then show ?thesis using assms(1) by (simp add: UcxMultipart_CommitPartAsync_def ucx_co_ok_def ucx_ok_def on_done_def pending_fit_def)
next
  case (Inr u)
  then show ?thesis
    using commit_async_ok [OF assms(1)] assms(2,3) by (simp add: UcxMultipart_CommitPartAsync_def CommitPartDataAsync_def)
qed

lemma OpenUcx_ok:
  assumes "ucx_co_ok cap ux" "UcxSessionRegistry_Find (session_id s) ux = None"
  shows "ucx_co_ok cap (snd (UcxExecutor_OnSessionOpened s ux))"
proof -
  have "ucx_wf ux" using assms(1) by (simp add: ucx_co_ok_def ucx_ok_def)
  then have "ucx_wf (snd (UcxExecutor_OnSessionOpened s ux))"
    using Create_wf [OF _ assms(2)] by (simp add: UcxExecutor_OnSessionOpened_def)
  then show ?thesis using assms(1)
    by (auto simp: ucx_co_ok_def ucx_ok_def UcxExecutor_OnSessionOpened_def UcxSessionRegistry_Create_def pending_fit_def Let_def)
qed

lemma rma_put_ok: "ucx_co_ok cap ux \<Longrightarrow> ucx_co_ok cap (rma_put r data ux)"
  using rma_put_wf [of ux r data] by (simp add: ucx_co_ok_def ucx_ok_def) (simp add: rma_put_def pending_fit_def Let_def)

section \<open>The whole gateway\<close>

definition gateway_ok :: "nat \<Rightarrow> MemoryGateway \<Rightarrow> bool" where
  "gateway_ok cap gw \<longleftrightarrow> coordinator_ok cap (gw_co gw) \<and> store_wf (gw_sessions gw) \<and>
     gds_wf (gw_gds gw) \<and> live_channels (gw_gds gw) = {#} \<and> (gw_ucx_enabled gw \<longrightarrow> ucx_ok cap (gw_ucx gw))"

lemma gateway_okD:
  assumes "gateway_ok cap gw"
  shows "coordinator_ok cap (gw_co gw)" "store_wf (gw_sessions gw)" "gds_wf (gw_gds gw)" "live_channels (gw_gds gw) = {#}"
    "gw_ucx_enabled gw \<Longrightarrow> ucx_co_ok cap (gw_ucx gw)"
  using assms by (simp_all add: gateway_ok_def ucx_co_ok_def)

lemma gateway_ok_co: "gateway_ok cap gw \<Longrightarrow> coordinator_ok cap co \<Longrightarrow> gateway_ok cap (set_co co gw)"
  using ucx_co_ok_co [of cap "gw_ucx gw" co] by (simp add: gateway_ok_def set_co_def ucx_co_ok_def)

lemma gateway_ok_ucx:
  "gateway_ok cap gw \<Longrightarrow> gw_ucx_enabled gw \<Longrightarrow> ucx_co_ok cap ux \<Longrightarrow> gateway_ok cap (gw\<lparr>gw_ucx := ux\<rparr>)"
  by (simp add: gateway_ok_def ucx_co_ok_def)

lemma gateway_ok_sessions: "gateway_ok cap gw \<Longrightarrow> store_wf st \<Longrightarrow> gateway_ok cap (gw\<lparr>gw_sessions := st\<rparr>)"
  by (simp add: gateway_ok_def)

lemma gateway_ok_gds:
  "gateway_ok cap gw \<Longrightarrow> gds_wf ex \<and> live_channels ex = live_channels (gw_gds gw) \<Longrightarrow> gateway_ok cap (gw\<lparr>gw_gds := ex\<rparr>)"
  by (simp add: gateway_ok_def)

lemma gateway_ok_failed: "gateway_ok cap gw \<Longrightarrow> gateway_ok cap (mark_session_failed r gw)"
  using wf_transitions(5) gateway_okD(2) by (auto simp: mark_session_failed_def SessionApp_MarkFailed_def intro!: gateway_ok_sessions)

lemmas gateway_ok_intros = gateway_ok_co gateway_ok_ucx gateway_ok_sessions gateway_ok_gds gateway_ok_failed

text \<open>Sizes that stay inside 64 bits together with the capacity, and session identifiers the UCX executor has not seen: what a step needs to be
  admitted. Without them the code has the flaws recorded with the components.\<close>

definition open_admitted :: "nat \<Rightarrow> CreateEnv \<Rightarrow> OpenSessionRequest \<Rightarrow> MemoryGateway \<Rightarrow> bool" where
  "open_admitted cap env q gw \<longleftrightarrow>
     (case SessionStore_Create env (ToOpenSessionParams q) (gw_sessions gw) of
        (Inl e, st) \<Rightarrow> True
      | (Inr r, st) \<Rightarrow>
          let s = sessions st ! r in
          cap + expected_size s < u64_mod \<and>
          (s_data_flow s = CPUDirect \<longrightarrow> UcxSessionRegistry_Find (session_id s) (gw_ucx gw) = None))"

definition put_admitted :: "nat \<Rightarrow> CuAnswers \<Rightarrow> GdsChunkRequest \<Rightarrow> MemoryGateway \<Rightarrow> bool" where
  "put_admitted cap a q gw \<longleftrightarrow> received_within a (gcr_chunk_size q) \<and> cap + (gcr_chunk_offset q + gcr_chunk_size q) < u64_mod \<and>
     (case ResolveForGdsChunk (gcr_session_id q) (gcr_transfer_ticket q) (gw_sessions gw) of
        None \<Rightarrow> True
      | Some r \<Rightarrow> \<forall>n. gcr_upload_id q = [] \<longrightarrow> session_total (sessions (gw_sessions gw) ! r) = Some n \<longrightarrow>
          gcr_chunk_offset q + gcr_chunk_size q \<le> n \<and> cap + n < u64_mod)"

definition complete_admitted :: "nat \<Rightarrow> CompleteUploadRequest \<Rightarrow> MemoryGateway \<Rightarrow> bool" where
  "complete_admitted cap q gw \<longleftrightarrow> length (cur_parts q) < 2 ^ 32 \<and>
     (\<forall>bid. cap + staged_bytes (gw_co gw) bid (ToPartRecords (cur_parts q)) < u64_mod)"

inductive gateway_step :: "nat \<Rightarrow> MemoryGateway \<Rightarrow> MemoryGateway \<Rightarrow> bool" for cap where
  open_session: "open_admitted cap env q gw \<Longrightarrow> gateway_step cap gw (snd (HandleOpenSession memory_backend con now a env q gw))"
| gds_get: "gateway_step cap gw (snd (HandleGdsGet memory_backend ca g gw))"
| gds_put: "put_admitted cap ca g gw \<Longrightarrow> gateway_step cap gw (snd (HandleGdsPut memory_backend md5 ca now g gw))"
| start_upload: "seq_left (cb_index (co_backend (gw_co gw))) \<Longrightarrow> mp_seq (co_store (gw_co gw)) + 1 < u64_mod \<Longrightarrow>
    gateway_step cap gw (snd (Rpc_StartUpload memory_backend now su gw))"
| complete_upload: "complete_admitted cap cu gw \<Longrightarrow> gateway_step cap gw (snd (Rpc_CompleteUpload memory_backend now cu gw))"
| abort_upload: "gateway_step cap gw (snd (Rpc_AbortUpload memory_backend uid flow gw))"
| abort_session: "gateway_step cap gw (snd (Rpc_AbortSession sid gw))"
| discover: "gw_ucx_enabled gw \<Longrightarrow> gateway_step cap gw (snd (DiscoverRdmaEndpoint aa sid n gw))"
| remote_write: "gw_ucx_enabled gw \<Longrightarrow> gateway_step cap gw (gw\<lparr>gw_ucx := rma_put slot data (gw_ucx gw)\<rparr>)"
| write_done: "gw_ucx_enabled gw \<Longrightarrow> gateway_step cap gw (gw\<lparr>gw_ucx := OnAmWriteDone memory_backend now sid (gw_ucx gw)\<rparr>)"
| commit_object: "gw_ucx_enabled gw \<Longrightarrow> commit_allowed (CommitObj sid n crc rpc) (gw_ucx gw) \<Longrightarrow> cap + n < u64_mod \<Longrightarrow>
    gateway_step cap gw (Rpc_CommitObject memory_backend now sid n crc rpc gw)"
| commit_part: "gw_ucx_enabled gw \<Longrightarrow> \<forall>bid u. commit_allowed (CommitPart sid bid u pn n crc rpc) (gw_ucx gw) \<Longrightarrow> cap + n < u64_mod \<Longrightarrow>
    gateway_step cap gw (Rpc_CommitPart memory_backend now sid uid pn n crc rpc gw)"
| rdma_abort: "gw_ucx_enabled gw \<Longrightarrow> gateway_step cap gw (snd (Rdma_AbortSession sid gw))"
| sweep: "gateway_step cap gw (snd (sweep_round memory_backend now now' gw))"

subsection \<open>Each handler keeps it\<close>

lemma set_backend_ok:
  "gateway_ok cap gw \<Longrightarrow> coordinator_ok cap ((gw_co gw)\<lparr>co_backend := b\<rparr>) \<Longrightarrow> gateway_ok cap (set_backend b gw)"
  by (simp add: set_backend_def gateway_ok_co)

lemma gds_hook_ok:
  assumes "gateway_ok cap gw" "cap + expected_size s < u64_mod"
    and "dp_OnSessionOpened (gds_data_path memory_backend con now) s gw = (r, gw')"
  shows "gateway_ok cap gw'"
proof -
  obtain q ex b where o: "GdsExecutor_OnSessionOpened memory_backend con now s (gw_gds gw, co_backend (gw_co gw)) = (q, ex, b)"
    using prod_cases3 by blast
  have ex: "ex = gw_gds gw" using OnSessionOpened_executor [OF o] .
  have "b = co_backend (gw_co gw) \<or> (\<exists>m. be_Reserve memory_backend now (s_bucket s) (object_key s) (expected_size s) (co_backend (gw_co gw)) = (m, b))"
    using o by (auto simp: GdsExecutor_OnSessionOpened_def MetadataService_Reserve_def Let_def split: if_splits prod.splits sum.splits)
  then have "coordinator_ok cap ((gw_co gw)\<lparr>co_backend := b\<rparr>)"
    using reserve_ok [OF gateway_okD(1) [OF assms(1)] assms(2)] gateway_okD(1) [OF assms(1)] by auto
  then show ?thesis using assms(1,3) o ex set_backend_ok [OF assms(1)] by (auto simp: gds_data_path_def)
qed

lemma ucx_hook_ok:
  assumes "gateway_ok cap gw" "gw_ucx_enabled gw" "UcxSessionRegistry_Find (session_id s) (gw_ucx gw) = None"
    and "dp_OnSessionOpened (ucx_data_path a) s gw = (r, gw')"
  shows "gateway_ok cap gw'"
  using assms OpenUcx_ok [OF gateway_okD(5) [OF assms(1,2)] assms(3)]
  by (auto simp: ucx_data_path_def split: prod.splits intro!: gateway_ok_ucx)

lemma open_session_ok:
  assumes "gateway_ok cap gw" "open_admitted cap env q gw"
  shows "gateway_ok cap (snd (HandleOpenSession memory_backend con now a env q gw))"
proof -
  let ?so = "session_opener memory_backend con now a gw" and ?p = "ToOpenSessionParams q"
  obtain c st where c: "SessionStore_Create env ?p (gw_sessions gw) = (c, st)" by fastforce
  have wf: "store_wf st" using wf_Create [OF gateway_okD(2) [OF assms(1)], of env ?p] c by simp
  show ?thesis
  proof (cases c)
    case (Inl e)
    then show ?thesis
      using c assms(1) wf by (simp add: HandleOpenSession_def SessionOpener_Open_def gateway_ok_sessions)
  next
    case (Inr r)
    let ?s = "sessions st ! r"
    have adm: "cap + expected_size ?s < u64_mod" "s_data_flow ?s = CPUDirect \<Longrightarrow> UcxSessionRegistry_Find (session_id ?s) (gw_ucx gw) = None"
      using assms(2) c Inr by (simp_all add: open_admitted_def Let_def)
    show ?thesis
    proof (cases "SelectExecutor ?so (s_data_flow ?s)")
      case None
      then show ?thesis
        using c Inr assms(1) wf by (simp add: HandleOpenSession_def SessionOpener_Open_def gateway_ok_sessions Let_def)
    next
      case (Some x)
      obtain h gw2 where h: "dp_OnSessionOpened x ?s gw = (h, gw2)" by fastforce
      have "gateway_ok cap gw2"
        using Some h gds_hook_ok [OF assms(1) adm(1)] ucx_hook_ok [OF assms(1) _ adm(2)]
        by (cases "s_data_flow ?s") (auto simp: session_opener_def split: if_splits)
      then have "gateway_ok cap (gw2\<lparr>gw_sessions := st\<rparr>)" "gateway_ok cap (gw2\<lparr>gw_sessions := snd (SessionStore_MarkFailed i st)\<rparr>)" for i
        using wf wf_transitions(5) [OF wf] by (simp_all add: gateway_ok_sessions)
      then show ?thesis
        using c Inr Some h by (cases h) (simp_all add: HandleOpenSession_def SessionOpener_Open_def Let_def)
    qed
  qed
qed

lemma Prepare_ok:
  assumes "gateway_ok cap gw" "PrepareGdsChunk con q gw = (r, gw')"
  shows "gateway_ok cap gw'"
    "r = Inr ref \<Longrightarrow> ResolveForGdsChunk (gcr_session_id q) (gcr_transfer_ticket q) (gw_sessions gw) = Some ref \<and> gw' = bumped ref gw"
  using assms gateway_okD(2) [OF assms(1)]
  by (auto simp: PrepareGdsChunk_def bumped_def bump_wf gateway_ok_sessions split: if_splits option.splits)

lemma gds_get_ok:
  assumes "gateway_ok cap gw"
  shows "gateway_ok cap (snd (HandleGdsGet memory_backend a q gw))"
proof -
  obtain r gw1 where p: "PrepareGdsChunk (ca_connected a) q gw = (r, gw1)" by fastforce
  note ok = Prepare_ok(1) [OF assms p]
  show ?thesis
  proof (cases r)
    case (Inr ref)
    let ?s = "sessions (gw_sessions gw1) ! ref"
    obtain ch ex where g: "GetChunk memory_backend a ?s (gcr_rdma_token q) (gcr_chunk_offset q) (gcr_chunk_size q) (co_backend (gw_co gw1)) (gw_gds gw1) = (ch, ex)"
      by fastforce
    have "gateway_ok cap (gw1\<lparr>gw_gds := ex\<rparr>)"
      using gateway_ok_gds [OF ok] GetChunk_released [OF gateway_okD(3) [OF ok] g] by simp
    then show ?thesis
      using p Inr g ok gateway_ok_failed by (simp add: HandleGdsGet_def Let_def split: sum.split)
  qed (use p ok in \<open>simp add: HandleGdsGet_def\<close>)
qed

lemma resolved_session:
  assumes "store_wf (gw_sessions gw)" "ResolveForGdsChunk sid t (gw_sessions gw) = Some ref"
  shows "session_total (sessions (gw_sessions (bumped ref gw)) ! ref) = session_total (sessions (gw_sessions gw) ! ref)"
proof -
  have "ref < length (sessions (gw_sessions gw))"
    using assms wf_lookups [OF assms(1)] by (auto simp: ResolveForGdsChunk_def split: if_splits sum.splits)
  then show ?thesis using bumped_session(3) [of ref gw ref] by (simp add: session_total_def)
qed

lemma put_chunk_ok:
  assumes "coordinator_ok cap co" "gds_wf ex" "received_within a len" "cap + (off + len) < u64_mod"
    and "\<forall>n. session_total s = Some n \<longrightarrow> off + len \<le> n \<and> cap + n < u64_mod"
    and "PutChunk memory_backend a now s off len (ex, co_backend co) = (r, ex', b)"
  shows "coordinator_ok cap (co\<lparr>co_backend := b\<rparr>) \<and> gds_wf ex' \<and> live_channels ex' = live_channels ex"
proof -
  have "coordinator_ok cap (co\<lparr>co_backend := b\<rparr>)"
    if w: "length src \<le> len" "be_WriteRange memory_backend now (s_bucket s) (object_key s) off src (session_total s) (co_backend co) = (q, b)" for src q
  proof (rule write_range_ok [OF assms(1) _ _ w(2)])
    show "cap + write_target off src (session_total s) < u64_mod"
      using assms(4,5) w(1) by (cases "session_total s") (auto simp: write_target_def)
    show "\<forall>n. session_total s = Some n \<longrightarrow> off + length src \<le> n" using assms(5) w(1) by force
  qed
  then show ?thesis
    using PutChunk_writes [OF assms(6,3)] PutChunk_released [OF assms(2,6)] assms(1) by auto
qed

lemma gds_put_ok:
  assumes "gateway_ok cap gw" "put_admitted cap a q gw"
  shows "gateway_ok cap (snd (HandleGdsPut memory_backend md5 a now q gw))"
proof -
  obtain r gw1 where p: "PrepareGdsChunk (ca_connected a) q gw = (r, gw1)" by fastforce
  note ok = Prepare_ok(1) [OF assms(1) p]
  note d = gateway_okD [OF ok]
  show ?thesis
  proof (cases r)
    case (Inr ref)
    note pr = Prepare_ok(2) [OF assms(1) p Inr]
    let ?s = "sessions (gw_sessions gw1) ! ref"
    have adm: "received_within a (gcr_chunk_size q)" "cap + (gcr_chunk_offset q + gcr_chunk_size q) < u64_mod"
      "gcr_upload_id q = [] \<Longrightarrow> \<forall>n. session_total ?s = Some n \<longrightarrow> gcr_chunk_offset q + gcr_chunk_size q \<le> n \<and> cap + n < u64_mod"
      using assms(2) pr resolved_session [OF gateway_okD(2) [OF assms(1)], of "gcr_session_id q" "gcr_transfer_ticket q" ref]
      by (simp_all add: put_admitted_def)
    show ?thesis
    proof (cases "gcr_upload_id q = []")
      case True
      obtain res ex b where c: "PutChunk memory_backend a now ?s (gcr_chunk_offset q) (gcr_chunk_size q) (gw_gds gw1, co_backend (gw_co gw1)) = (res, ex, b)"
        using prod_cases3 by blast
      note w = put_chunk_ok [OF d(1,3) adm(1,2) adm(3) [OF True] c]
      have "gateway_ok cap (set_backend b (gw1\<lparr>gw_gds := ex\<rparr>))"
        using set_backend_ok [OF gateway_ok_gds [OF ok], of ex b] w by simp
      then show ?thesis
        using p Inr True c gateway_ok_failed by (simp add: HandleGdsPut_def Let_def split: sum.split)
    next
      case False
      obtain res ex co where c: "GdsMultipart_UploadPart memory_backend md5 a now (gcr_upload_id q) (gcr_part_number q) (gcr_chunk_offset q)
          (gcr_chunk_size q) (gcr_checksum_policy q) (gw_gds gw1, gw_co gw1) = (res, ex, co)"
        using prod_cases3 by blast
      note w = UploadPart_ok [OF d(1,3) adm(1,2) c]
      have "gateway_ok cap (set_co co (gw1\<lparr>gw_gds := ex\<rparr>))"
        using gateway_ok_co [OF gateway_ok_gds [OF ok], of ex co] w by simp
      then show ?thesis
        using p Inr False c gateway_ok_failed by (simp add: HandleGdsPut_def Let_def split: sum.split)
    qed
  qed (use p ok in \<open>simp add: HandleGdsPut_def\<close>)
qed

lemma uploads_ok:
  assumes "coordinator_ok cap co"
  shows "seq_left (cb_index (co_backend co)) \<Longrightarrow> mp_seq (co_store co) + 1 < u64_mod \<Longrightarrow>
      coordinator_ok cap (snd (CreateUpload memory_backend now params co))"
    "length ps < 2 ^ 32 \<Longrightarrow> \<forall>bid. cap + staged_bytes co bid ps < u64_mod \<Longrightarrow>
      coordinator_ok cap (snd (CompleteUpload memory_backend now uid ps dp co))"
    "coordinator_ok cap (snd (AbortUpload memory_backend uid dp co))"
    "coordinator_ok cap (snd (sweep_uploads memory_backend now co))"
proof -
  note ok = assms [unfolded coordinator_ok_def]
  show "seq_left (cb_index (co_backend co)) \<Longrightarrow> mp_seq (co_store co) + 1 < u64_mod \<Longrightarrow>
      coordinator_ok cap (snd (CreateUpload memory_backend now params co))"
    using capped_mp.create_ok [OF ok, of now params] by (auto simp: coordinator_ok_def)
  show "length ps < 2 ^ 32 \<Longrightarrow> \<forall>bid. cap + staged_bytes co bid ps < u64_mod \<Longrightarrow>
      coordinator_ok cap (snd (CompleteUpload memory_backend now uid ps dp co))"
  proof (cases "MultipartStore_Find uid (co_store co)")
    case None
    then show ?thesis using assms by (auto simp: CompleteUpload_def complete_claim_def)
  next
    case (Some r)
    show "length ps < 2 ^ 32 \<Longrightarrow> \<forall>bid. cap + staged_bytes co bid ps < u64_mod \<Longrightarrow>
        coordinator_ok cap (snd (CompleteUpload memory_backend now uid ps dp co))"
      using capped_mp.complete_run(1) [OF ok Some _ _ surjective_pairing] by (simp add: coordinator_ok_def staged_bytes_def)
  qed
  show "coordinator_ok cap (snd (AbortUpload memory_backend uid dp co))"
    using capped_mp.abort_ok(1) [OF ok surjective_pairing] by (simp add: coordinator_ok_def)
  show "coordinator_ok cap (snd (sweep_uploads memory_backend now co))"
    using capped_mp.sweep_ok(1) [OF ok] by (simp add: coordinator_ok_def)
qed

lemma upload_rpcs:
  "snd (Rpc_StartUpload B now su gw) = set_co (snd (CreateUpload B now (ToStartUploadParams su) (gw_co gw))) gw"
  "snd (Rpc_CompleteUpload B now cu gw) =
     set_co (snd (CompleteUpload B now (cur_upload_id cu) (ToPartRecords (cur_parts cu)) (cur_data_flow cu) (gw_co gw))) gw"
  "snd (Rpc_AbortUpload B uid flow gw) = set_co (snd (AbortUpload B uid flow (gw_co gw))) gw"
  "snd (sweep_round B now now' gw) =
     set_co (snd (sweep_uploads B now' (gw_co gw))) (gw\<lparr>gw_sessions := snd (SessionStore_SweepExpired now (gw_sessions gw))\<rparr>)"
  by (simp_all add: Rpc_StartUpload_def MultipartApp_StartUpload_def Rpc_CompleteUpload_def MultipartApp_CompleteUpload_def
      Rpc_AbortUpload_def MultipartApp_AbortUpload_def sweep_round_def Let_def split: prod.split sum.split)

lemma rdma_rpcs:
  "snd (DiscoverRdmaEndpoint aa sid n gw) = gw\<lparr>gw_ucx := snd (PrepareTransfer aa sid n (gw_ucx gw))\<rparr>"
  "snd (Rdma_AbortSession sid gw) = gw\<lparr>gw_ucx := snd (AbortSession sid (gw_ucx gw))\<rparr>"
  by (simp_all add: DiscoverRdmaEndpoint_def Rdma_AbortSession_def Let_def split: prod.split sum.split)

lemma gateway_step_ok:
  assumes "gateway_step cap gw gw'" "gateway_ok cap gw"
  shows "gateway_ok cap gw'"
  using assms(1)
proof cases
  case (open_session env q con now a)
  then show ?thesis using open_session_ok [OF assms(2)] by simp
next
  case (gds_put ca g md5 now)
  then show ?thesis using gds_put_ok [OF assms(2)] by simp
next
  case (start_upload now su)
  then show ?thesis using gateway_ok_co [OF assms(2)] uploads_ok(1) [OF gateway_okD(1) [OF assms(2)]] by (simp add: upload_rpcs)
next
  case (complete_upload cu now)
  then show ?thesis using gateway_ok_co [OF assms(2)] uploads_ok(2) [OF gateway_okD(1) [OF assms(2)]]
    by (simp add: upload_rpcs complete_admitted_def ToPartRecords_def)
next
  case (abort_upload uid flow)
  then show ?thesis using gateway_ok_co [OF assms(2)] uploads_ok(3) [OF gateway_okD(1) [OF assms(2)]] by (simp add: upload_rpcs)
next
  case (abort_session sid)
  then show ?thesis
    using gateway_ok_sessions [OF assms(2)] wf_transitions(5) [OF gateway_okD(2) [OF assms(2)]]
    by (simp add: Rpc_AbortSession_def SessionApp_MarkFailedById_def Let_def split_beta)
next
  case (sweep now now')
  have "gateway_ok cap (gw\<lparr>gw_sessions := snd (SessionStore_SweepExpired now (gw_sessions gw))\<rparr>)"
    using gateway_ok_sessions [OF assms(2)] wf_Sweep [OF gateway_okD(2) [OF assms(2)]] by simp
  then show ?thesis using sweep gateway_ok_co uploads_ok(4) [OF gateway_okD(1) [OF assms(2)]] by (simp add: upload_rpcs)
next
  case (commit_object sid n crc rpc now)
  then show ?thesis
    using gateway_ok_ucx [OF assms(2)] commit_async_ok [OF gateway_okD(5) [OF assms(2)]]
    by (simp add: Rpc_CommitObject_def CommitObjectAsync_def)
next
  case (commit_part sid pn n crc rpc now uid)
  then show ?thesis
    using gateway_ok_ucx [OF assms(2)] CommitPart_ok [OF gateway_okD(5) [OF assms(2)]] by (simp add: Rpc_CommitPart_def)
qed (use gds_get_ok gateway_ok_ucx gateway_okD(5) PrepareTransfer_ok rma_put_ok OnAmWriteDone_ok AbortSession_ok assms(2) in
    \<open>auto simp: rdma_rpcs\<close>)

section \<open>Reachable gateways\<close>

text \<open>A gateway as \<^verbatim>\<open>GatewayRuntime::Initialize\<close> leaves it, for its clients to use.\<close>

inductive gateway_started :: "nat \<Rightarrow> MemoryGateway \<Rightarrow> bool" where
  started: "cap < u64_mod \<Longrightarrow> gw_co gw = MemoryCoordinator_init cap ttl mx mn \<Longrightarrow> gw_sessions gw = SessionStore_init gid sttl \<Longrightarrow>
    gds_reach memory_backend (gw_gds gw) \<Longrightarrow>
    (gw_ucx_enabled gw \<Longrightarrow> UcxExecutor_Start a (UcxExecutor_init host bind opts (gw_co gw)) = (Inr True, gw_ucx gw) \<and>
       max_msg_bytes opts + kPageSize < u64_mod) \<Longrightarrow>
    gateway_started cap gw"

lemma Start_entries: "ux_entries (snd (UcxExecutor_Start a ux)) = ux_entries ux"
  by (simp add: UcxExecutor_Start_def Let_def split: option.split)

lemma started_ok:
  assumes "gateway_started cap gw"
  shows "gateway_ok cap gw"
  using assms
proof cases
  case (started ttl mx mn gid sttl a host bind opts)
  have "capped cap (MemoryBackend_init cap)"
    using memory_backend_init_inv [OF started(1)] by (simp add: capped_def MemoryBackend_init_def MemoryDataStore_init_def)
  then have co: "coordinator_ok cap (gw_co gw)"
    using started(2) by (simp add: coordinator_ok_def coordinator_inv_def MemoryCoordinator_init_def MultipartStore_init_def registry_wf_def)
  have ucx: "ucx_ok cap (gw_ucx gw)" if "gw_ucx_enabled gw"
  proof -
    note st = started(5) [OF that]
    have "ux_entries (gw_ucx gw) = []"
      using Start_entries [of a "UcxExecutor_init host bind opts (gw_co gw)"] st by (simp add: UcxExecutor_init_def)
    then show ?thesis using started_wf [of a host bind opts "gw_co gw" "gw_ucx gw"] st by (simp add: ucx_ok_def pending_fit_def)
  qed
  show ?thesis using co ucx started(3) gds_reach_wf [OF started(4)] by (simp add: gateway_ok_def)
qed

lemma gateway_steps_ok: "(gateway_step cap)\<^sup>*\<^sup>* gw gw' \<Longrightarrow> gateway_ok cap gw \<Longrightarrow> gateway_ok cap gw'"
  by (induction rule: rtranclp_induct) (auto intro: gateway_step_ok)

end
