(* ===== verification/Gateway_Lifetime.thy ===== *)
theory Gateway_Lifetime
  imports Gateway_Runtime Gateway_Invariant
begin

text \<open>
  The gateway from \<^verbatim>\<open>GatewayRuntime::Initialize\<close> on: a successful start builds a gateway from which the invariant of
  \<^verbatim>\<open>Gateway_Invariant\<close> holds, so that what the runtime starts stays consistent under every admitted history of RPCs, remote
  writes and sweeps.
\<close>

lemma initialized_started:
  assumes "GatewayRuntime_Initialize u a (GatewayRuntime_init opts) = (Inr v, rt)" "rt_gw rt = Some gw"
    and "go_backend_kind opts = kMemory" "up_memory u = id" "go_backend_capacity opts = cap" "cap < u64_mod"
    and "max_msg_bytes (go_ucx opts) + kPageSize < u64_mod"
  shows "gateway_started cap gw"
proof -
  have "accepts opts a" using initialize_steps [of opts a u] assms(1) by (auto simp: step_to_def split: if_splits)
  then have gw: "gw = started_gateway u opts a" "go_ucx_enable opts \<Longrightarrow> ucx_accepts (ia_ucx a)"
    using initialize_steps [of opts a u] assms(1,2) by (auto simp: step_to_def stage_def accepts_def)
  have co: "gw_co gw = MemoryCoordinator_init cap (go_multipart_ttl opts) (go_multipart_max_part_size opts) (go_multipart_min_part_size opts)"
    using assms(3-5) by (simp add: gw(1) started_gateway_def ucx_started_def gds_started_def new_gateway_def UcxExecutor_Start_outcome(3)
        UcxExecutor_init_def new_coordinator_def MakeBackend_def MemoryCoordinator_init_def)
  have gds: "gds_reach memory_backend (gw_gds gw)"
    by (simp add: gw(1) started_gateway_def ucx_started_def gds_started_def new_gateway_def gds_reach.init gds_reach.start)
  have ucx: "UcxExecutor_Start (ia_ucx a) (UcxExecutor_init (go_public_host opts) (data_bind_host opts) (go_ucx opts) (gw_co gw)) = (Inr True, gw_ucx gw)"
    if "gw_ucx_enabled gw"
  proof -
    have on: "go_ucx_enable opts"
      using that by (simp add: gw(1) started_gateway_def ucx_started_def gds_started_def new_gateway_def split: if_splits)
    have "gw_ucx gw = snd (UcxExecutor_Start (ia_ucx a) (UcxExecutor_init (go_public_host opts) (data_bind_host opts) (go_ucx opts) (gw_co gw)))"
      using on by (simp add: gw(1) started_gateway_def ucx_started_def gds_started_def new_gateway_def UcxExecutor_Start_outcome(3) UcxExecutor_init_def)
    then show ?thesis
      using gw(2) [OF on] by (simp add: ucx_accepts_def UcxExecutor_Start_def UcxExecutor_init_def prod_eq_iff)
  qed
  show ?thesis
    by (rule gateway_started.started [OF assms(6) co _ gds conjI [OF ucx assms(7)]]) (simp add: gw(1) started_fields)
qed

section \<open>Properties\<close>

text \<open>C5: a gateway stays consistent whatever its clients do. In every state that a gateway on the memory backend can reach after a successful \<^verbatim>\<open>Initialize\<close>, through
  any order of the RPCs of both services, remote writes, active messages and sweeps that keep their sizes inside 64 bits and
  their UCX session identifiers fresh: the byte counter of the store is exactly what is stored and within the capacity, no copy
  left its buffer, the length announced for an object is the length of its data; every upload a client can name is known to the
  backend under its own bucket and key; a session is found only under its own id and ticket; between RPCs no GDS channel is
  held and every pinned buffer and memory region is in the cache; and the UCX executor never read outside a buffer or through a dangling
  pointer, and each of its live buffers is idle in the pool or belongs to one session.\<close>

theorem gateway_consistent:
  assumes "GatewayRuntime_Initialize u a (GatewayRuntime_init opts) = (Inr v, rt)" "rt_gw rt = Some gw0"
    and "go_backend_kind opts = kMemory" "up_memory u = id" "go_backend_capacity opts = cap" "cap < u64_mod"
    and "max_msg_bytes (go_ucx opts) + kPageSize < u64_mod" "(gateway_step cap)\<^sup>*\<^sup>* gw0 gw"
  shows "let c = co_backend (gw_co gw); st = co_store (gw_co gw) in
    used_bytes (cb_data c) = stored_bytes (cb_data c) \<and> used_bytes (cb_data c) \<le> cap \<and> \<not> out_of_bounds (cb_data c) \<and>
    (\<forall>b k m. HeadObject memory_backend b k gw = Inr m \<longrightarrow> hor_content_length m = length (content (bodies (cb_data c) (MakeKey b k)))) \<and>
    (\<forall>uid r. MultipartStore_Find uid st = Some r \<longrightarrow>
       mpu_targets c (backend_upload_id (uploads st ! r)) = Some (u_bucket (uploads st ! r), u_object_key (uploads st ! r))) \<and>
    (\<forall>i r. SessionStore_Find i (gw_sessions gw) = Inr r \<longrightarrow> session_id (sessions (gw_sessions gw) ! r) = i) \<and>
    (\<forall>t r. SessionStore_FindByTicket t (gw_sessions gw) = Inr r \<longrightarrow> ticket (sessions (gw_sessions gw) ! r) = t) \<and>
    live_channels (gw_gds gw) = {#} \<and>
    (\<forall>p. g_pool (gw_gds gw) = Some p \<longrightarrow> live_buffers p = buf_of (map cb_buf (concat (buckets p))) \<and>
       live_mrs p = buf_of (map cb_mr (concat (buckets p)))) \<and>
    (gw_ucx_enabled gw \<longrightarrow> \<not> ux_fault (gw_ucx gw) \<and>
       ux_live (gw_ucx gw) = mset (the (ux_pool (gw_ucx gw))) + held (ux_entries (gw_ucx gw)) \<and> (\<forall>r. count (ux_live (gw_ucx gw)) r \<le> 1))"
proof -
  have ok: "gateway_ok cap gw" using gateway_steps_ok [OF assms(8) started_ok [OF initialized_started [OF assms(1-7)]]] .
  note d = gateway_okD [OF ok]
  let ?c = "co_backend (gw_co gw)" and ?st = "co_store (gw_co gw)"
  have c: "memory_backend_inv ?c" "capacity_bytes (cb_data ?c) = cap" using coordinator_backend [OF d(1)] by (simp_all add: capped_def)
  have 1: "used_bytes (cb_data ?c) = stored_bytes (cb_data ?c)" "used_bytes (cb_data ?c) \<le> cap" "\<not> out_of_bounds (cb_data ?c)"
    using c by (auto simp: composite_inv_def data_store_inv_def)
  have 2: "hor_content_length m = length (content (bodies (cb_data ?c) (MakeKey b k)))" if "HeadObject memory_backend b k gw = Inr m" for b k m
    using that c(1) by (auto simp: HeadObject_def MetadataService_Head_def composite_inv_def CompositeBackend_Head_def
        MemoryIndexStore_Head_def split: option.splits sum.splits)
  have 3: "mpu_targets ?c (backend_upload_id (uploads ?st ! r)) = Some (u_bucket (uploads ?st ! r), u_object_key (uploads ?st ! r))"
    if "MultipartStore_Find uid ?st = Some r" for uid r
    using d(1) find_registered [OF that] by (simp add: coordinator_ok_def coordinator_inv_def)
  have 4: "live_buffers p = buf_of (map cb_buf (concat (buckets p))) \<and> live_mrs p = buf_of (map cb_mr (concat (buckets p)))"
    if "g_pool (gw_gds gw) = Some p" for p
    using d(3) that by (simp add: gds_wf_def owned_def)
  have 5: "\<not> ux_fault (gw_ucx gw) \<and> ux_live (gw_ucx gw) = mset (the (ux_pool (gw_ucx gw))) + held (ux_entries (gw_ucx gw)) \<and>
      (\<forall>r. count (ux_live (gw_ucx gw)) r \<le> 1)" if "gw_ucx_enabled gw"
  proof -
    have "ucx_ok cap (gw_ucx gw)" using d(5) [OF that] by (simp add: ucx_co_ok_def)
    then obtain m pool where w: "\<not> ux_fault (gw_ucx gw)" "ucx_core m pool (gw_ucx gw)" by (auto simp: ucx_ok_def ucx_wf_def)
    show ?thesis using w(1) ucx_coreD(2,4,5) [OF w(2)] by simp
  qed
  have 6: "session_id (sessions (gw_sessions gw) ! r) = i" if "SessionStore_Find i (gw_sessions gw) = Inr r" for i r
    using wf_lookups(1) [OF d(2) that] by simp
  have 7: "ticket (sessions (gw_sessions gw) ! r) = t" if "SessionStore_FindByTicket t (gw_sessions gw) = Inr r" for t r
    using wf_lookups(2) [OF d(2) that] by simp
  show ?thesis using 1 2 3 4 5 6 7 d(4) unfolding Let_def by blast
qed

text \<open>The example gateway, with both data planes; a session is opened over UCX and an upload is started.\<close>

abbreviation example_gw :: MemoryGateway where
  "example_gw \<equiv> started_gateway example_upcast example_options example_start"

abbreviation example_capacity :: nat where
  "example_capacity \<equiv> go_backend_capacity example_options"

definition example_open :: OpenSessionRequest where
  "example_open =
     \<lparr>osr_request_id = [], osr_session_id = ''u1'', osr_bucket = ''b'', osr_object_key = ''k'', osr_op_type = ''put'',
      osr_data_flow = ''cpu-direct'', osr_buffer_type = [], osr_offset = 0, osr_expected_size = 4, osr_idempotency_key = [],
      osr_is_multipart_part = False\<rparr>"

definition example_upload_start :: StartUploadRequest where
  "example_upload_start = \<lparr>su_bucket = ''b'', su_object_key = ''k'', su_expected_total_size = 0, su_data_flow = ''cpu-direct'', su_idempotency_key = []\<rparr>"

lemmas example_gw_defs = started_gateway_def ucx_started_def gds_started_def new_gateway_def UcxExecutor_Start_def UcxExecutor_init_def
  new_coordinator_def MakeBackend_def example_upcast_def example_options_def GatewayOptions_default_def example_start_def UcxOptions_default_def

lemma example_gw_facts:
  "gw_sessions example_gw = SessionStore_init (go_gateway_id example_options) (go_session_ttl example_options)"
  "gw_ucx_enabled example_gw" "ux_registry (gw_ucx example_gw) = Some Map.empty" "ux_entries (gw_ucx example_gw) = []"
  "co_backend (gw_co example_gw) = MemoryBackend_init example_capacity" "co_store (gw_co example_gw) = MultipartStore_init (go_multipart_ttl example_options)"
  by (simp_all add: example_gw_defs)

lemma example_open_admitted: "open_admitted example_capacity (example_env 100) example_open example_gw"
  by (simp add: open_admitted_def example_open_def SessionStore_Create_def ToOpenSessionParams_def insert_session_def SessionStore_init_def
      example_gw_facts UcxSessionRegistry_Find_def Let_def) (simp add: example_options_def GatewayOptions_default_def u64_mod_def)

lemma example_opened_ucx:
  "gw_ucx (snd (HandleOpenSession memory_backend True 5 a (example_env 100) example_open example_gw)) =
     UcxSessionRegistry_Create ''u1'' ''b'' ''k'' 4 (gw_ucx example_gw)"
  "gw_ucx_enabled (snd (HandleOpenSession memory_backend True 5 a (example_env 100) example_open example_gw))"
  by (simp_all add: HandleOpenSession_def SessionOpener_Open_def example_open_def SessionStore_Create_def ToOpenSessionParams_def
      ParseDataFlow_def insert_session_def SessionStore_init_def new_session_def session_opener_def ucx_data_path_def
      UcxExecutor_OnSessionOpened_def use_registry_def example_gw_facts Let_def)

theorem gateway_consistent_witness:
  "\<exists>rt gw. GatewayRuntime_Initialize example_upcast example_start (GatewayRuntime_init example_options) = (Inr True, rt) \<and>
     rt_gw rt = Some example_gw \<and> (gateway_step example_capacity)\<^sup>*\<^sup>* example_gw gw \<and>
     UcxSessionRegistry_Find ''u1'' (gw_ucx gw) = Some 0 \<and> \<not> ux_fault (gw_ucx gw) \<and>
     mpu_targets (co_backend (gw_co gw)) (backend_upload_id (uploads (co_store (gw_co gw)) ! 0)) = Some (''b'', ''k'')"
proof -
  let ?gw1 = "snd (HandleOpenSession memory_backend True 5 (ia_ucx example_start) (example_env 100) example_open example_gw)"
  let ?gw2 = "snd (Rpc_StartUpload memory_backend 5 example_upload_start ?gw1)"
  obtain rt where rt: "GatewayRuntime_Initialize example_upcast example_start (GatewayRuntime_init example_options) = (Inr True, rt)"
    using example_starts by blast
  note gw = example_started [OF rt, THEN conjunct2]
  note gw1 = example_opened_ucx [of "ia_ucx example_start"]
  have co: "gw_co ?gw1 = gw_co example_gw" by (simp add: gw1 UcxSessionRegistry_Create_def Let_def)
  have "gateway_step example_capacity ?gw1 ?gw2"
    by (rule gateway_step.start_upload) (simp_all add: co example_gw_facts seq_left_def MemoryBackend_init_def
        MemoryIndexStore_init_def MultipartStore_init_def u64_mod_def)
  then have steps: "(gateway_step example_capacity)\<^sup>*\<^sup>* example_gw ?gw2"
    using gateway_step.open_session [OF example_open_admitted, of True 5 "ia_ucx example_start"]
    by (meson converse_rtranclp_into_rtranclp r_into_rtranclp)
  have find: "UcxSessionRegistry_Find ''u1'' (gw_ucx ?gw2) = Some 0" "gw_ucx_enabled ?gw2"
    using gw1 by (simp_all add: upload_rpcs set_co_def UcxSessionRegistry_Find_def UcxSessionRegistry_Create_def example_gw_facts Let_def)
  have up: "MultipartStore_Find ''mpu-1-5'' (co_store (gw_co ?gw2)) = Some 0" "u_bucket (uploads (co_store (gw_co ?gw2)) ! 0) = ''b''"
      "u_object_key (uploads (co_store (gw_co ?gw2)) ! 0) = ''k''"
    by (simp_all add: upload_rpcs co MultipartStore_Find_def example_upload_start_def ToStartUploadParams_def example_gw_facts upload_evals)
  have lims: "go_backend_kind example_options = kMemory" "up_memory example_upcast = id" "example_capacity < u64_mod"
      "max_msg_bytes (go_ucx example_options) + kPageSize < u64_mod"
    by (simp_all add: example_options_def GatewayOptions_default_def UcxOptions_default_def example_upcast_def u64_mod_def kPageSize_def)
  from gateway_consistent [OF rt gw lims(1,2) refl lims(3,4) steps] find up rt gw steps
  show ?thesis by (intro exI [of _ rt] exI [of _ ?gw2]) (simp add: Let_def)
qed

end
