(* ===== verification/Rpc_Dispatch.thy ===== *)
theory Rpc_Dispatch
  imports Control_Plane Io_Worker_Pool
begin

text \<open>
  The way of a blocking RPC through the gateway: \<^verbatim>\<open>OpenSession\<close>, \<^verbatim>\<open>GdsGet\<close> and \<^verbatim>\<open>GdsPut\<close> of \<^verbatim>\<open>api/control_plane_service.cpp\<close> hand
  their handler to the I/O worker pool, a worker runs it, and the closure guard of the handler answers the caller. A handler is one step here, taken
  when the worker finishes it; the other RPCs and the sweeper change the gateway in between by an arbitrary relation.
\<close>

section \<open>Calls and their handlers\<close>

text \<open>What the outside answers while the handler runs is part of the call.\<close>

datatype RpcBody =
    OpenBody bool nat StartAnswers CreateEnv OpenSessionRequest
  | GetBody CuAnswers GdsChunkRequest
  | PutBody CuAnswers nat GdsChunkRequest

datatype RpcReply = OpenReply "OpenSessionResponse rpc" | ChunkReply "GdsChunkResponse rpc"

type_synonym RpcCall = "nat \<times> RpcBody"

fun run_handler :: "'s IBackend \<Rightarrow> (bytes \<Rightarrow> bytes) \<Rightarrow> RpcBody \<Rightarrow> 's Gateway \<Rightarrow> RpcReply \<times> 's Gateway" where
  "run_handler B md5 (OpenBody connected now a env q) gw = (case HandleOpenSession B connected now a env q gw of (r, gw) \<Rightarrow> (OpenReply r, gw))"
| "run_handler B md5 (GetBody a q) gw = (case HandleGdsGet B a q gw of (r, gw) \<Rightarrow> (ChunkReply r, gw))"
| "run_handler B md5 (PutBody a now q) gw = (case HandleGdsPut B md5 a now q gw of (r, gw) \<Rightarrow> (ChunkReply r, gw))"

record 's RpcService =
  ds_pool :: "RpcCall IoWorkerPool"
  ds_gw :: "'s Gateway"
  ds_answers :: "(RpcCall \<times> RpcReply) list"

definition RpcService_init :: "nat \<Rightarrow> 's Gateway \<Rightarrow> 's RpcService" where
  "RpcService_init workers gw = \<lparr>ds_pool = IoWorkerPool_init workers, ds_gw = gw, ds_answers = []\<rparr>"

definition answer :: "'s IBackend \<Rightarrow> (bytes \<Rightarrow> bytes) \<Rightarrow> RpcCall \<Rightarrow> 's RpcService \<Rightarrow> 's RpcService" where
  "answer B md5 c d = (case run_handler B md5 (snd c) (ds_gw d) of
     (r, gw) \<Rightarrow> d\<lparr>ds_gw := gw, ds_answers := ds_answers d @ [(c, r)]\<rparr>)"

text \<open>\<^verbatim>\<open>io_pool_.Submit\<close>: a stopped pool runs the handler in the calling thread.\<close>

definition submit_handler :: "'s IBackend \<Rightarrow> (bytes \<Rightarrow> bytes) \<Rightarrow> RpcCall \<Rightarrow> 's RpcService \<Rightarrow> 's RpcService" where
  "submit_handler B md5 c d =
     (let d' = d\<lparr>ds_pool := Submit_test c (ds_pool d)\<rparr> in
      if io_running (ds_pool d) then d' else answer B md5 c d')"

definition ControlPlane_OpenSession ::
  "'s IBackend \<Rightarrow> (bytes \<Rightarrow> bytes) \<Rightarrow> nat \<Rightarrow> bool \<Rightarrow> nat \<Rightarrow> StartAnswers \<Rightarrow> CreateEnv \<Rightarrow> OpenSessionRequest \<Rightarrow> 's RpcService \<Rightarrow> 's RpcService" where
  "ControlPlane_OpenSession B md5 n connected now a env q = submit_handler B md5 (n, OpenBody connected now a env q)"

definition ControlPlane_GdsGet ::
  "'s IBackend \<Rightarrow> (bytes \<Rightarrow> bytes) \<Rightarrow> nat \<Rightarrow> CuAnswers \<Rightarrow> GdsChunkRequest \<Rightarrow> 's RpcService \<Rightarrow> 's RpcService" where
  "ControlPlane_GdsGet B md5 n a q = submit_handler B md5 (n, GetBody a q)"

definition ControlPlane_GdsPut ::
  "'s IBackend \<Rightarrow> (bytes \<Rightarrow> bytes) \<Rightarrow> nat \<Rightarrow> CuAnswers \<Rightarrow> nat \<Rightarrow> GdsChunkRequest \<Rightarrow> 's RpcService \<Rightarrow> 's RpcService" where
  "ControlPlane_GdsPut B md5 n a now q = submit_handler B md5 (n, PutBody a now q)"

inductive dispatch_step :: "'s IBackend \<Rightarrow> (bytes \<Rightarrow> bytes) \<Rightarrow> ('s Gateway \<Rightarrow> 's Gateway \<Rightarrow> bool) \<Rightarrow> 's RpcService \<Rightarrow> 's RpcService \<Rightarrow> bool" for B md5 R where
  open_rpc: "dispatch_step B md5 R d (ControlPlane_OpenSession B md5 n connected now a env q d)"
| get_rpc: "dispatch_step B md5 R d (ControlPlane_GdsGet B md5 n ca g d)"
| put_rpc: "dispatch_step B md5 R d (ControlPlane_GdsPut B md5 n ca now g d)"
| finish: "i < length (io_workers (ds_pool d)) \<Longrightarrow> io_workers (ds_pool d) ! i = Busy c \<Longrightarrow>
    dispatch_step B md5 R d (answer B md5 c (d\<lparr>ds_pool := WorkerLoop_done i c (ds_pool d)\<rparr>))"
| pool: "io_step_any (ds_pool d) p \<Longrightarrow> io_executed p = io_executed (ds_pool d) \<Longrightarrow> io_submitted p = io_submitted (ds_pool d) \<Longrightarrow>
    dispatch_step B md5 R d (d\<lparr>ds_pool := p\<rparr>)"
| other: "R (ds_gw d) gw \<Longrightarrow> dispatch_step B md5 R d (d\<lparr>ds_gw := gw\<rparr>)"

section \<open>Every call is answered once\<close>

lemma answer_fields [simp]:
  "ds_pool (answer B md5 c d) = ds_pool d" "map fst (ds_answers (answer B md5 c d)) = map fst (ds_answers d) @ [c]"
  "ds_gw (answer B md5 c d) = snd (run_handler B md5 (snd c) (ds_gw d))"
  by (simp_all add: answer_def split: prod.split)

lemma submit_pool [simp]: "ds_pool (submit_handler B md5 c d) = Submit_test c (ds_pool d)"
  by (simp add: submit_handler_def Let_def)

text \<open>A step of the system is a step of the pool, or leaves it alone, and what was executed is what was answered.\<close>

definition answered :: "'s RpcService \<Rightarrow> bool" where
  "answered d \<longleftrightarrow> mset (map fst (ds_answers d)) = io_executed (ds_pool d)"

lemma submit_answered: "answered d \<Longrightarrow> answered (submit_handler B md5 c d)"
  by (simp add: answered_def submit_handler_def Submit_test_def Let_def del: mset_map)

lemmas service_defs = ControlPlane_OpenSession_def ControlPlane_GdsGet_def ControlPlane_GdsPut_def

lemma dispatch_pool:
  assumes "dispatch_step B md5 R d d'"
  shows "io_step_any\<^sup>*\<^sup>* (ds_pool d) (ds_pool d')"
  using assms
proof cases
  case (finish i c)
  then show ?thesis using io_step_any.step [OF io_step.finish] by (auto intro!: r_into_rtranclp)
qed (auto simp: service_defs intro!: r_into_rtranclp intro: io_step_any.step io_step.submit)

lemma dispatch_answered:
  assumes "dispatch_step B md5 R d d'" "answered d"
  shows "answered d'"
  using assms
proof cases
  case (finish i c)
  then show ?thesis using assms(2) by (simp add: answered_def WorkerLoop_done_def del: mset_map)
next
  case (pool p)
  then show ?thesis using assms(2) by (simp add: answered_def)
next
  case (other gw)
  then show ?thesis using assms(2) by (simp add: answered_def)
qed (simp_all add: service_defs submit_answered)

lemma dispatch_run:
  assumes "(dispatch_step B md5 R)\<^sup>*\<^sup>* d d'" "answered d"
  shows "answered d' \<and> io_step_any\<^sup>*\<^sup>* (ds_pool d) (ds_pool d')"
  using assms by (induction rule: rtranclp_induct) (auto dest: dispatch_answered dispatch_pool intro: rtranclp_trans)

text \<open>Whatever holds of the gateway initially and is kept by the three handlers and by everything else is kept by the concurrent service.\<close>

lemma dispatch_keeps:
  assumes "(dispatch_step B md5 R)\<^sup>*\<^sup>* d d'" "I (ds_gw d)"
    and "\<And>body gw. I gw \<Longrightarrow> I (snd (run_handler B md5 body gw))" "\<And>gw gw'. I gw \<Longrightarrow> R gw gw' \<Longrightarrow> I gw'"
  shows "I (ds_gw d')"
  using assms(1,2)
proof (induction rule: rtranclp_induct)
  case (step d1 d2)
  have sub: "I (ds_gw (submit_handler B md5 c d1))" for c
    using step assms(3) by (simp add: submit_handler_def Let_def)
  show ?case using step(2) by cases (use step sub assms(3,4) in \<open>auto simp: service_defs\<close>)
qed


section \<open>An example\<close>

text \<open>One call runs on the worker; the pool is stopped, the worker returns, and a second call is answered in the thread that received it.\<close>

definition example_call :: "nat \<Rightarrow> RpcCall" where
  "example_call n = (n, GetBody (example_answers []) (example_request 0 0))"

abbreviation example_rpc :: "nat \<Rightarrow> MemoryBackend RpcService \<Rightarrow> MemoryBackend RpcService" where
  "example_rpc n \<equiv> ControlPlane_GdsGet memory_backend id n (example_answers []) (example_request 0 0)"

definition example_answered :: "MemoryBackend RpcService" where
  "example_answered =
     (let d = example_rpc 1 (RpcService_init 1 example_gateway);
          p = WorkerLoop_check 0 (Submit_push (example_call 1) (ds_pool d)) in
      answer memory_backend id (example_call 1) (d\<lparr>ds_pool := WorkerLoop_done 0 (example_call 1) p\<rparr>))"

definition example_stopped :: "MemoryBackend RpcService" where
  "example_stopped = example_rpc 2 (example_answered\<lparr>ds_pool := WorkerLoop_check 0 (Stop_set (ds_pool example_answered))\<rparr>)"

lemmas dispatch_evals = io_evals example_answered_def example_stopped_def example_call_def RpcService_init_def service_defs
  submit_handler_def Let_def

lemma example_dispatch:
  "(dispatch_step memory_backend id (=))\<^sup>*\<^sup>* (RpcService_init 1 example_gateway) example_answered"
  "(dispatch_step memory_backend id (=))\<^sup>*\<^sup>* (example_answered\<lparr>ds_pool := Stop_set (ds_pool example_answered)\<rparr>) example_stopped"
proof -
  let ?s = "dispatch_step memory_backend id (=)"
  let ?d1 = "example_rpc 1 (RpcService_init 1 example_gateway)"
  let ?p2 = "Submit_push (example_call 1) (ds_pool ?d1)"
  let ?p3 = "WorkerLoop_check 0 ?p2"
  have "?s (RpcService_init 1 example_gateway) ?d1" by (rule dispatch_step.get_rpc)
  moreover have "?s ?d1 (?d1\<lparr>ds_pool := ?p2\<rparr>)"
    by (rule dispatch_step.pool, rule io_step_any.step, rule io_step.push) (simp_all add: dispatch_evals)
  moreover have "?s (?d1\<lparr>ds_pool := ?p2\<rparr>) (?d1\<lparr>ds_pool := ?p2\<rparr>\<lparr>ds_pool := ?p3\<rparr>)"
    by (rule dispatch_step.pool, rule io_step_any.step, simp, rule io_step.check) (simp_all add: dispatch_evals)
  moreover have "?s (?d1\<lparr>ds_pool := ?p2\<rparr>\<lparr>ds_pool := ?p3\<rparr>) example_answered"
    using dispatch_step.finish [where i = 0 and c = "example_call 1" and d = "?d1\<lparr>ds_pool := ?p3\<rparr>" and R = "(=)" and B = memory_backend and ?md5.0 = id]
    by (simp add: dispatch_evals)
  ultimately show "?s\<^sup>*\<^sup>* (RpcService_init 1 example_gateway) example_answered" by (meson converse_rtranclp_into_rtranclp rtranclp.rtrancl_refl)
  let ?e1 = "example_answered\<lparr>ds_pool := Stop_set (ds_pool example_answered)\<rparr>"
  let ?e2 = "example_answered\<lparr>ds_pool := WorkerLoop_check 0 (Stop_set (ds_pool example_answered))\<rparr>"
  have "?s ?e1 (?e1\<lparr>ds_pool := WorkerLoop_check 0 (Stop_set (ds_pool example_answered))\<rparr>)"
    by (rule dispatch_step.pool, simp, rule io_step_any.step, rule io_step.check) (simp_all add: dispatch_evals)
  moreover have "?s ?e2 example_stopped" unfolding example_stopped_def by (rule dispatch_step.get_rpc)
  ultimately show "?s\<^sup>*\<^sup>* ?e1 example_stopped" by (simp add: converse_rtranclp_into_rtranclp)
qed


end
