(* ===== verification/Gateway_Metrics.thy ===== *)
theory Gateway_Metrics
  imports Rpc_Dispatch
begin

text \<open>
  The counters of the gateway (\<^verbatim>\<open>gateway/src/common/metrics.h\<close>, \<^verbatim>\<open>metrics.cpp\<close>) and the places that keep them: the RPC handlers, the session
  opener, the multipart coordinator, the sweeper, the memory data store and the UCX executor. A metered operation is the operation of
  its component together with the increments of its body; those of the operations it calls are modelled with them. A counter is an unbounded
  integer here and a latency recorder the list of the values it was given; the readings of the clock are arguments.
\<close>

section \<open>Counters\<close>

datatype GwCounter = open_session_total | open_session_fail_total | sessions_evicted_total
  | gds_put_total | gds_get_total | gds_put_fail_total | gds_get_fail_total | gds_put_bytes | gds_get_bytes
  | backend_write_total | backend_read_total | backend_write_bytes | backend_read_bytes
  | multipart_start_total | multipart_complete_total | multipart_abort_total | multipart_fail_total | multipart_part_bytes | multipart_swept_total
  | ucx_put_inflight | ucx_buffer_pool_hit_total | ucx_buffer_pool_miss_total | ucx_put_timeout_total | ucx_session_orphan_total

datatype GwLatency = open_session_latency_us | gds_put_latency_us | gds_get_latency_us | multipart_complete_latency_us

record Metrics =
  mt_count :: "GwCounter \<Rightarrow> int"
  mt_latency :: "GwLatency \<Rightarrow> int list"

definition Metrics_init :: Metrics where
  "Metrics_init = \<lparr>mt_count = (\<lambda>c. 0), mt_latency = (\<lambda>l. [])\<rparr>"

text \<open>The name a counter is exposed under, if the constructor gives it one.\<close>

fun counter_name :: "GwCounter \<Rightarrow> string option" where
  "counter_name open_session_total = Some ''gateway_open_session_total''"
| "counter_name open_session_fail_total = Some ''gateway_open_session_fail_total''"
| "counter_name sessions_evicted_total = Some ''gateway_sessions_evicted_total''"
| "counter_name gds_put_total = Some ''gateway_gds_put_total''"
| "counter_name gds_get_total = Some ''gateway_gds_get_total''"
| "counter_name gds_put_fail_total = Some ''gateway_gds_put_fail_total''"
| "counter_name gds_get_fail_total = Some ''gateway_gds_get_fail_total''"
| "counter_name gds_put_bytes = Some ''gateway_gds_put_bytes''"
| "counter_name gds_get_bytes = Some ''gateway_gds_get_bytes''"
| "counter_name backend_write_total = Some ''gateway_backend_write_total''"
| "counter_name backend_read_total = Some ''gateway_backend_read_total''"
| "counter_name backend_write_bytes = Some ''gateway_backend_write_bytes''"
| "counter_name backend_read_bytes = Some ''gateway_backend_read_bytes''"
| "counter_name multipart_start_total = Some ''gateway_multipart_start_total''"
| "counter_name multipart_complete_total = Some ''gateway_multipart_complete_total''"
| "counter_name multipart_abort_total = Some ''gateway_multipart_abort_total''"
| "counter_name multipart_fail_total = Some ''gateway_multipart_fail_total''"
| "counter_name multipart_part_bytes = Some ''gateway_multipart_part_bytes''"
| "counter_name multipart_swept_total = Some ''gateway_multipart_swept_total''"
| "counter_name _ = None"

definition add_count :: "GwCounter \<Rightarrow> int \<Rightarrow> Metrics \<Rightarrow> Metrics" where
  "add_count c n m = m\<lparr>mt_count := (mt_count m)(c := mt_count m c + n)\<rparr>"

text \<open>The destructor of a \<^verbatim>\<open>ScopedLatency\<close> that was constructed at \<^verbatim>\<open>start_us\<close>.\<close>

definition ScopedLatency_destruct :: "GwLatency \<Rightarrow> int \<Rightarrow> int \<Rightarrow> Metrics \<Rightarrow> Metrics" where
  "ScopedLatency_destruct l start_us now_us m = m\<lparr>mt_latency := (mt_latency m)(l := mt_latency m l @ [now_us - start_us])\<rparr>"

lemma count_simps [simp]:
  "mt_count (add_count c n m) d = mt_count m d + (if d = c then n else 0)" "mt_latency (add_count c n m) = mt_latency m"
  "mt_count (ScopedLatency_destruct l s e m) = mt_count m"
  "mt_latency (ScopedLatency_destruct l s e m) k = mt_latency m k @ (if k = l then [e - s] else [])"
  by (simp_all add: add_count_def ScopedLatency_destruct_def)

section \<open>The RPC handlers\<close>

text \<open>Whether \<^verbatim>\<open>Open\<close> ends because the hook of the data path refused the session.\<close>

definition hook_refused :: "'e SessionOpener \<Rightarrow> CreateEnv \<Rightarrow> OpenSessionParams \<Rightarrow> SessionStore \<Rightarrow> 'e \<Rightarrow> bool" where
  "hook_refused so env req st e =
     (case SessionStore_Create env req st of
        (Inl err, st) \<Rightarrow> False
      | (Inr r, st) \<Rightarrow>
          (case SelectExecutor so (s_data_flow (sessions st ! r)) of
             None \<Rightarrow> False
           | Some executor \<Rightarrow> isl (fst (dp_OnSessionOpened executor (sessions st ! r) e))))"

definition Metered_SessionOpener_Open ::
  "'e SessionOpener \<Rightarrow> CreateEnv \<Rightarrow> OpenSessionParams \<Rightarrow> SessionStore \<Rightarrow> 'e \<Rightarrow> Metrics
   \<Rightarrow> (sref result \<times> SessionStore \<times> 'e) \<times> Metrics" where
  "Metered_SessionOpener_Open so env req st e m =
     (SessionOpener_Open so env req st e, if hook_refused so env req st e then add_count ucx_session_orphan_total 1 m else m)"

text \<open>Every return of a handler is a failure, counted where it is decided, or a success, counted at the end with its bytes.\<close>

definition outcome_counts :: "GwCounter \<Rightarrow> GwCounter \<Rightarrow> (GwCounter \<times> int) list \<Rightarrow> 'v rpc \<Rightarrow> Metrics \<Rightarrow> Metrics" where
  "outcome_counts fail ok extra r m =
     (case r of Inl e \<Rightarrow> add_count fail 1 m | Inr v \<Rightarrow> fold (\<lambda>(c, n). add_count c n) extra (add_count ok 1 m))"

definition Metered_HandleOpenSession ::
  "'s IBackend \<Rightarrow> int \<times> int \<Rightarrow> bool \<Rightarrow> nat \<Rightarrow> StartAnswers \<Rightarrow> CreateEnv \<Rightarrow> OpenSessionRequest \<Rightarrow> 's Gateway \<times> Metrics
   \<Rightarrow> OpenSessionResponse rpc \<times> 's Gateway \<times> Metrics" where
  "Metered_HandleOpenSession B clock connected now a env q gm =
     (let (gw, m) = gm;
          (r, gw') = HandleOpenSession B connected now a env q gw;
          m = snd (Metered_SessionOpener_Open (session_opener B connected now a gw) env (ToOpenSessionParams q) (gw_sessions gw) gw m) in
      (r, gw', ScopedLatency_destruct open_session_latency_us (fst clock) (snd clock)
         (outcome_counts open_session_fail_total open_session_total [] r m)))"

definition Metered_HandleGdsGet ::
  "'s IBackend \<Rightarrow> int \<times> int \<Rightarrow> CuAnswers \<Rightarrow> GdsChunkRequest \<Rightarrow> 's Gateway \<times> Metrics \<Rightarrow> GdsChunkResponse rpc \<times> 's Gateway \<times> Metrics" where
  "Metered_HandleGdsGet B clock a q gm =
     (let (gw, m) = gm; (r, gw) = HandleGdsGet B a q gw in
      (r, gw, ScopedLatency_destruct gds_get_latency_us (fst clock) (snd clock)
         (outcome_counts gds_get_fail_total gds_get_total [(gds_get_bytes, i64 (gcr_chunk_size q))] r m)))"

definition Metered_HandleGdsPut ::
  "'s IBackend \<Rightarrow> (bytes \<Rightarrow> bytes) \<Rightarrow> int \<times> int \<Rightarrow> CuAnswers \<Rightarrow> nat \<Rightarrow> GdsChunkRequest \<Rightarrow> 's Gateway \<times> Metrics
   \<Rightarrow> GdsChunkResponse rpc \<times> 's Gateway \<times> Metrics" where
  "Metered_HandleGdsPut B md5 clock a now q gm =
     (let (gw, m) = gm; (r, gw) = HandleGdsPut B md5 a now q gw in
      (r, gw, ScopedLatency_destruct gds_put_latency_us (fst clock) (snd clock)
         (outcome_counts gds_put_fail_total gds_put_total [(gds_put_bytes, i64 (gcr_chunk_size q))] r m)))"

fun metered_handler ::
  "'s IBackend \<Rightarrow> (bytes \<Rightarrow> bytes) \<Rightarrow> int \<times> int \<Rightarrow> RpcBody \<Rightarrow> 's Gateway \<times> Metrics \<Rightarrow> RpcReply \<times> 's Gateway \<times> Metrics" where
  "metered_handler B md5 clock (OpenBody connected now a env q) gm =
     (case Metered_HandleOpenSession B clock connected now a env q gm of (r, gm) \<Rightarrow> (OpenReply r, gm))"
| "metered_handler B md5 clock (GetBody a q) gm = (case Metered_HandleGdsGet B clock a q gm of (r, gm) \<Rightarrow> (ChunkReply r, gm))"
| "metered_handler B md5 clock (PutBody a now q) gm = (case Metered_HandleGdsPut B md5 clock a now q gm of (r, gm) \<Rightarrow> (ChunkReply r, gm))"

section \<open>The data store, the coordinator and the sweeper\<close>

definition Metered_WriteRange ::
  "string \<Rightarrow> string \<Rightarrow> nat \<Rightarrow> bytes \<Rightarrow> nat option \<Rightarrow> MemoryDataStore \<times> Metrics \<Rightarrow> bool result \<times> MemoryDataStore \<times> Metrics" where
  "Metered_WriteRange bucket key off src t sm =
     (let (s, m) = sm; (r, s) = MemoryDataStore_WriteRange bucket key off src t s in
      (r, s, if isl r then m else add_count backend_write_bytes (i64 (length src)) (add_count backend_write_total 1 m)))"

definition Metered_Read ::
  "string \<Rightarrow> string \<Rightarrow> nat \<Rightarrow> bytes \<Rightarrow> MemoryDataStore \<times> Metrics \<Rightarrow> (nat \<times> bytes) result \<times> Metrics" where
  "Metered_Read bucket key off dst sm =
     (let (s, m) = sm; r = MemoryDataStore_Read bucket key off dst s in
      (r, case r of Inl e \<Rightarrow> m | Inr (n, _) \<Rightarrow> add_count backend_read_bytes (i64 n) (add_count backend_read_total 1 m)))"

definition Metered_CreateUpload ::
  "'s IBackend \<Rightarrow> nat \<Rightarrow> StartUploadParams \<Rightarrow> 's MultipartCoordinator \<times> Metrics \<Rightarrow> StartUploadResult result \<times> 's MultipartCoordinator \<times> Metrics" where
  "Metered_CreateUpload B now params cm =
     (let (co, m) = cm; (r, co) = CreateUpload B now params co in
      (r, co, if isl r then add_count multipart_fail_total 1 m else add_count multipart_start_total 1 m))"

definition Metered_CompleteUpload ::
  "'s IBackend \<Rightarrow> int \<times> int \<Rightarrow> nat \<Rightarrow> string \<Rightarrow> PartRecord list \<Rightarrow> string \<Rightarrow> 's MultipartCoordinator \<times> Metrics
   \<Rightarrow> ObjectMetadata result \<times> 's MultipartCoordinator \<times> Metrics" where
  "Metered_CompleteUpload B clock now uid ps dp cm =
     (let (co, m) = cm; (r, co) = CompleteUpload B now uid ps dp co in
      (r, co, ScopedLatency_destruct multipart_complete_latency_us (fst clock) (snd clock)
         (if isl r then add_count multipart_fail_total 1 m else add_count multipart_complete_total 1 m)))"

definition Metered_AbortUpload ::
  "'s IBackend \<Rightarrow> string \<Rightarrow> string \<Rightarrow> 's MultipartCoordinator \<times> Metrics \<Rightarrow> bool result \<times> 's MultipartCoordinator \<times> Metrics" where
  "Metered_AbortUpload B uid dp cm =
     (let (co, m) = cm; (r, co) = AbortUpload B uid dp co in
      (r, co, case r of Inl e \<Rightarrow> add_count multipart_fail_total 1 m
                      | Inr found \<Rightarrow> if found then add_count multipart_abort_total 1 m else m))"

definition Metered_AbortBackend :: "'s IBackend \<Rightarrow> string \<Rightarrow> 's MultipartCoordinator \<times> Metrics \<Rightarrow> 's MultipartCoordinator \<times> Metrics" where
  "Metered_AbortBackend B bid cm =
     (let (co, m) = cm in (AbortBackend B bid co, if bid = [] then m else add_count multipart_abort_total 1 m))"

definition Metered_RegisterPart ::
  "nat \<Rightarrow> uref \<Rightarrow> nat \<Rightarrow> nat \<Rightarrow> nat \<Rightarrow> string \<Rightarrow> 's MultipartCoordinator \<times> Metrics \<Rightarrow> 's MultipartCoordinator \<times> Metrics" where
  "Metered_RegisterPart now r pn off sz e cm =
     (let (co, m) = cm in (RegisterPart now r pn off sz e co, add_count multipart_part_bytes (i64 sz) m))"

definition Metered_sweep_abort :: "'s IBackend \<Rightarrow> uref \<Rightarrow> 's MultipartCoordinator \<times> Metrics \<Rightarrow> 's MultipartCoordinator \<times> Metrics" where
  "Metered_sweep_abort B r cm =
     (let (co, m) = cm; bid = backend_upload_id (uploads (co_store co) ! r) in
      Metered_AbortBackend B bid (co\<lparr>co_store := update_upload r (\<lambda>u. u\<lparr>u_state := kUpAborted\<rparr>) (co_store co)\<rparr>, m))"

definition Metered_sweep_uploads :: "'s IBackend \<Rightarrow> nat \<Rightarrow> 's MultipartCoordinator \<times> Metrics \<Rightarrow> 's MultipartCoordinator \<times> Metrics" where
  "Metered_sweep_uploads B now cm =
     (let (co, m) = cm;
          (removed, expired, st) = MultipartStore_SweepExpired now (co_store co);
          (co, m) = fold (Metered_sweep_abort B) expired (co\<lparr>co_store := st\<rparr>, m) in
      (co, if removed \<noteq> 0 then add_count multipart_swept_total (i64 removed) m else m))"

definition Metered_sweep_sessions :: "nat \<Rightarrow> SessionStore \<times> Metrics \<Rightarrow> SessionStore \<times> Metrics" where
  "Metered_sweep_sessions now sm =
     (let (st, m) = sm; (evicted, st) = SessionStore_SweepExpired now st in
      (st, if evicted \<noteq> 0 then add_count sessions_evicted_total (i64 evicted) m else m))"

section \<open>The UCX executor\<close>

text \<open>A transfer is in flight from the preparation that gave it a buffer; the commit that releases the buffer takes it off.\<close>

definition Metered_PrepareTransfer ::
  "AllocAnswers \<Rightarrow> string \<Rightarrow> nat \<Rightarrow> 's UcxExecutor \<times> Metrics \<Rightarrow> UcxDiscoverInfo result \<times> 's UcxExecutor \<times> Metrics" where
  "Metered_PrepareTransfer a sid transfer_bytes um =
     (let (ux, m) = um; (res, ux') = PrepareTransfer a sid transfer_bytes ux;
          pooled = fst (UcxBufferPool_Acquire (RoundUpPage (max transfer_bytes kPageSize)) ux) \<noteq> None in
      (res, ux',
       case UcxSessionRegistry_Find sid ux of
         None \<Rightarrow> m
       | Some e \<Rightarrow>
           if isl res \<or> ue_slot (ux_entries ux ! e) \<noteq> None then m
           else add_count ucx_put_inflight 1 (add_count (if pooled then ucx_buffer_pool_hit_total else ucx_buffer_pool_miss_total) 1 m)))"

definition Metered_run_commit :: "'s IBackend \<Rightarrow> nat \<Rightarrow> eref \<Rightarrow> Commit \<Rightarrow> 's UcxExecutor \<times> Metrics \<Rightarrow> 's UcxExecutor \<times> Metrics" where
  "Metered_run_commit B now e c um = (let (ux, m) = um in (run_commit B now e c ux, add_count ucx_put_inflight (- 1) m))"

definition Metered_commit_async :: "'s IBackend \<Rightarrow> nat \<Rightarrow> Commit \<Rightarrow> 's UcxExecutor \<times> Metrics \<Rightarrow> bool \<times> 's UcxExecutor \<times> Metrics" where
  "Metered_commit_async B now c um =
     (let (ux, m) = um; ux = use_registry ux in
      case UcxSessionRegistry_Find (c_sid c) ux of
        None \<Rightarrow> (True, fail_commit c (MakeError kSessionNotFound (''UCX '' @ commit_name c @ '': session not found: '' @ c_sid c) False) ux, m)
      | Some e \<Rightarrow>
          if ue_slot (ux_entries ux ! e) = None then
            (True, fail_commit c (MakeError kInternal ''UCX session buffer not allocated'' False) ux, m)
          else if ue_write_done (ux_entries ux ! e) then (True, Metered_run_commit B now e c (ux, m))
          else (False, update_entry e (\<lambda>x. x\<lparr>ue_pending := Some c\<rparr>) ux, m))"

definition Metered_OnAmWriteDone :: "'s IBackend \<Rightarrow> nat \<Rightarrow> string \<Rightarrow> 's UcxExecutor \<times> Metrics \<Rightarrow> 's UcxExecutor \<times> Metrics" where
  "Metered_OnAmWriteDone B now header um =
     (let (ux, m) = um in
      if header = [] then (ux, m)
      else let ux = use_registry ux in
      case UcxSessionRegistry_Find header ux of
        None \<Rightarrow> (ux, m)
      | Some e \<Rightarrow>
          let cb = ue_pending (ux_entries ux ! e);
              ux = update_entry e (\<lambda>x. x\<lparr>ue_write_done := True, ue_pending := None\<rparr>) ux in
          (case cb of None \<Rightarrow> (ux, m) | Some c \<Rightarrow> Metered_run_commit B now e c (ux, m)))"

definition Metered_CommitPartAsync ::
  "'s IBackend \<Rightarrow> nat \<Rightarrow> string \<Rightarrow> string \<Rightarrow> nat \<Rightarrow> nat \<Rightarrow> string \<Rightarrow> nat \<Rightarrow> 's UcxExecutor \<times> Metrics \<Rightarrow> bool \<times> 's UcxExecutor \<times> Metrics" where
  "Metered_CommitPartAsync B now sid uid part_number bytes_transferred crc rpc um =
     (let (ux, m) = um in
      case Lookup uid (ux_co ux) of
        Inl err \<Rightarrow> (True, on_done rpc (DonePart (Failure err)) ux, m)
      | Inr u \<Rightarrow>
          Metered_commit_async B now (CommitPart sid (backend_upload_id (uploads (co_store (ux_co ux)) ! u)) u part_number bytes_transferred crc rpc) (ux, m))"

section \<open>Every request is counted once\<close>

fun metered_calls ::
  "'s IBackend \<Rightarrow> (bytes \<Rightarrow> bytes) \<Rightarrow> ((int \<times> int) \<times> RpcBody) list \<Rightarrow> 's Gateway \<times> Metrics \<Rightarrow> (RpcBody \<times> RpcReply) list \<times> 's Gateway \<times> Metrics" where
  "metered_calls B md5 [] gm = ([], gm)"
| "metered_calls B md5 ((clock, body) # cs) gm =
     (let (r, gm) = metered_handler B md5 clock body gm; (rs, gm) = metered_calls B md5 cs gm in ((body, r) # rs, gm))"

fun plain_calls :: "'s IBackend \<Rightarrow> (bytes \<Rightarrow> bytes) \<Rightarrow> RpcBody list \<Rightarrow> 's Gateway \<Rightarrow> (RpcBody \<times> RpcReply) list \<times> 's Gateway" where
  "plain_calls B md5 [] gw = ([], gw)"
| "plain_calls B md5 (body # bs) gw =
     (let (r, gw) = run_handler B md5 body gw; (rs, gw) = plain_calls B md5 bs gw in ((body, r) # rs, gw))"

definition put_served :: "RpcBody \<times> RpcReply \<Rightarrow> bool" where
  "put_served c = (case c of (PutBody a now q, ChunkReply (Inr v)) \<Rightarrow> True | _ \<Rightarrow> False)"

definition get_served :: "RpcBody \<times> RpcReply \<Rightarrow> bool" where
  "get_served c = (case c of (GetBody a q, ChunkReply (Inr v)) \<Rightarrow> True | _ \<Rightarrow> False)"

definition open_served :: "RpcBody \<times> RpcReply \<Rightarrow> bool" where
  "open_served c = (case c of (OpenBody connected now a env q, OpenReply (Inr v)) \<Rightarrow> True | _ \<Rightarrow> False)"

fun is_put :: "RpcBody \<Rightarrow> bool" where "is_put (PutBody a now q) = True" | "is_put _ = False"
fun is_get :: "RpcBody \<Rightarrow> bool" where "is_get (GetBody a q) = True" | "is_get _ = False"
fun is_open :: "RpcBody \<Rightarrow> bool" where "is_open (OpenBody connected now a env q) = True" | "is_open _ = False"

fun chunk_bytes :: "RpcBody \<Rightarrow> int" where
  "chunk_bytes (PutBody a now q) = i64 (gcr_chunk_size q)"
| "chunk_bytes (GetBody a q) = i64 (gcr_chunk_size q)"
| "chunk_bytes _ = 0"

definition counts :: "('c \<Rightarrow> bool) \<Rightarrow> 'c list \<Rightarrow> int" where
  "counts P cs = int (length (filter P cs))"

lemma counts_simps [simp]: "counts P [] = 0" "counts P (c # cs) = counts P cs + (if P c then 1 else 0)"
  by (simp_all add: counts_def)

definition requests_counted :: "(RpcBody \<times> RpcReply) list \<Rightarrow> Metrics \<Rightarrow> Metrics \<Rightarrow> bool" where
  "requests_counted rs m m' \<longleftrightarrow>
     mt_count m' open_session_total = mt_count m open_session_total + counts open_served rs \<and>
     mt_count m' open_session_fail_total = mt_count m open_session_fail_total + counts (\<lambda>c. is_open (fst c) \<and> \<not> open_served c) rs \<and>
     mt_count m' gds_put_total = mt_count m gds_put_total + counts put_served rs \<and>
     mt_count m' gds_put_fail_total = mt_count m gds_put_fail_total + counts (\<lambda>c. is_put (fst c) \<and> \<not> put_served c) rs \<and>
     mt_count m' gds_put_bytes = mt_count m gds_put_bytes + (\<Sum>c\<leftarrow>filter put_served rs. chunk_bytes (fst c)) \<and>
     mt_count m' gds_get_total = mt_count m gds_get_total + counts get_served rs \<and>
     mt_count m' gds_get_fail_total = mt_count m gds_get_fail_total + counts (\<lambda>c. is_get (fst c) \<and> \<not> get_served c) rs \<and>
     mt_count m' gds_get_bytes = mt_count m gds_get_bytes + (\<Sum>c\<leftarrow>filter get_served rs. chunk_bytes (fst c))"

lemma requests_counted_Cons:
  "requests_counted [c] m m1 \<Longrightarrow> requests_counted cs m1 m2 \<Longrightarrow> requests_counted (c # cs) m m2"
  unfolding requests_counted_def by (auto split: if_splits)

lemmas metered_defs = Metered_HandleOpenSession_def Metered_HandleGdsGet_def Metered_HandleGdsPut_def Metered_SessionOpener_Open_def
  outcome_counts_def

lemmas served_defs = put_served_def get_served_def open_served_def

lemma handler_counted:
  assumes "metered_handler B md5 clock body (gw, m) = (r, gw', m')"
  shows "run_handler B md5 body gw = (r, gw') \<and> requests_counted [(body, r)] m m'"
proof (cases body)
  case (OpenBody connected now a env q)
  obtain r0 gw0 where h: "HandleOpenSession B connected now a env q gw = (r0, gw0)" by fastforce
  show ?thesis using assms OpenBody h
    by (cases r0) (simp_all add: metered_defs requests_counted_def served_defs, auto)
next
  case (GetBody a q)
  obtain r0 gw0 where h: "HandleGdsGet B a q gw = (r0, gw0)" by fastforce
  show ?thesis using assms GetBody h by (cases r0) (simp_all add: metered_defs requests_counted_def served_defs, auto)
next
  case (PutBody a now q)
  obtain r0 gw0 where h: "HandleGdsPut B md5 a now q gw = (r0, gw0)" by fastforce
  show ?thesis using assms PutBody h by (cases r0) (simp_all add: metered_defs requests_counted_def served_defs, auto)
qed

text \<open>The counters do not change what the handlers do, and over any history they tell successes from failures: every request is counted exactly
  once, under its kind and outcome, and the byte counters are the sum of the chunk sizes of the requests that succeeded.\<close>

theorem requests_metered:
  "metered_calls B md5 cs (gw, m) = (rs, gw', m') \<Longrightarrow>
   plain_calls B md5 (map snd cs) gw = (rs, gw') \<and> requests_counted rs m m'"
proof (induction cs arbitrary: gw m rs gw' m')
  case Nil
  then show ?case by (simp add: requests_counted_def)
next
  case (Cons c cs)
  obtain clock body where c: "c = (clock, body)" by fastforce
  obtain r gw1 m1 where h: "metered_handler B md5 clock body (gw, m) = (r, gw1, m1)" using prod_cases3 by blast
  obtain rs1 gw2 m2 where t: "metered_calls B md5 cs (gw1, m1) = (rs1, gw2, m2)" using prod_cases3 by blast
  show ?case
    using Cons.prems handler_counted [OF h] Cons.IH [OF t] requests_counted_Cons [of "(body, r)" m m1 rs1 m2] h t
    by (auto simp: c)
qed

section \<open>The counters of the coordinator and the open uploads\<close>

lemma length_delete:
  assumes "distinct (map fst xs)" "map_of xs k = Some v"
  shows "length xs = Suc (length (AList.delete k xs))"
  using assms
proof (induction xs)
  case (Cons x xs)
  have "k \<notin> fst ` set xs \<Longrightarrow> AList.delete k xs = xs" by (induction xs) (auto simp: AList.delete_eq)
  then show ?case using Cons by (cases "fst x = k") (auto simp: AList.delete_eq)
qed simp

lemma complete_registry:
  assumes "registry_wf (co_store co)" "CompleteUpload B now uid ps dp co = (r, co')"
  shows "int (length (up_by_id (co_store co'))) = int (length (up_by_id (co_store co))) - (if isl r then 0 else 1)"
proof (cases "fst (complete_claim uid ps dp (co_store co))")
  case (Inl e)
  then show ?thesis using assms(2) by (auto simp: CompleteUpload_def complete_claim_def Let_def split: if_splits option.splits)
next
  case (Inr q)
  then have c: "complete_claim uid ps dp (co_store co) = (Inr q, snd (complete_claim uid ps dp (co_store co)))" by (metis prod.collapse)
  note cl = claim_active [OF c]
  have q: "q < length (uploads (co_store co))" "upload_id (uploads (co_store co) ! q) = uid"
    using wf_entry [OF assms(1) find_registered] cl by blast+
  have "length (up_by_id (co_store co)) = Suc (length (AList.delete uid (up_by_id (co_store co))))"
    using length_delete [of "up_by_id (co_store co)" uid q] cl assms(1) by (simp add: registry_wf_def MultipartStore_Find_def)
  then show ?thesis
    using assms(2) c cl q
    by (auto simp: CompleteUpload_def complete_finish_def Let_def MultipartStore_Erase_def nth_update_upload split: option.splits sum.splits prod.splits)
qed

lemma abort_registry:
  assumes "registry_wf (co_store co)" "AbortUpload B uid dp co = (r, co')"
  shows "int (length (up_by_id (co_store co'))) = int (length (up_by_id (co_store co))) - (if r = Inr True then 1 else 0)"
proof (cases "MultipartStore_Find uid (co_store co)")
  case (Some q)
  have q: "q < length (uploads (co_store co))" "upload_id (uploads (co_store co) ! q) = uid"
    using wf_entry [OF assms(1) find_registered [OF Some]] by blast+
  have "length (up_by_id (co_store co)) = Suc (length (AList.delete uid (up_by_id (co_store co))))"
    using length_delete [of "up_by_id (co_store co)" uid q] Some assms(1) by (simp add: registry_wf_def MultipartStore_Find_def)
  then show ?thesis
    using assms(2) Some q by (auto simp: AbortUpload_def Let_def MultipartStore_Erase_def split: if_splits)
qed (use assms(2) in \<open>auto simp: AbortUpload_def\<close>)

lemma create_registry:
  assumes "coordinator_reach co" "seq_left (cb_index (co_backend co))" "mp_seq (co_store co) + 1 < u64_mod"
    and "CreateUpload memory_backend now params co = (r, co')"
  shows "\<not> isl r" "length (up_by_id (co_store co')) = Suc (length (up_by_id (co_store co)))"
proof -
  have inv: "coordinator_inv memory_backend_inv mpu_targets co"
    using coordinator_reach_inv [OF assms(1)] by (simp add: memory_coordinator_inv_def)
  note ok = memory_mp.create_ok [OF inv assms(2,3), of now params]
  show "\<not> isl r" using ok assms(4) by auto
  have "MultipartStore_Find (new_upload_id now (co_store co)) (co_store co) = None" using ok by blast
  then show "length (up_by_id (co_store co')) = Suc (length (up_by_id (co_store co)))"
    using assms(3,4) \<open>\<not> isl r\<close>
    by (auto simp: CreateUpload_def MultipartStore_Create_def MultipartStore_Find_def new_upload_id_def u64_add_exact Let_def
        split: prod.splits sum.splits)
qed

text \<open>The backend's identifiers are never empty, so that each swept upload is counted as aborted.\<close>

lemma backend_ids:
  assumes "coordinator_reach co" "(i, r) \<in> set (up_by_id (co_store co))"
  shows "backend_upload_id (uploads (co_store co) ! r) \<noteq> []"
proof -
  have inv: "coordinator_inv memory_backend_inv mpu_targets co"
    using coordinator_reach_inv [OF assms(1)] by (simp add: memory_coordinator_inv_def)
  then have "backend_upload_id (uploads (co_store co) ! r) \<in> dom (mpu_targets (co_backend co))"
    using assms(2) by (auto simp: coordinator_inv_def)
  moreover have "dom (mpu_targets (co_backend co)) = dom (ix_mpu (cb_index (co_backend co)))" "index_store_inv (cb_index (co_backend co))"
    using inv by (simp_all add: coordinator_inv_def composite_inv_def)
  ultimately obtain n t where "backend_upload_id (uploads (co_store co) ! r) = upload_id_of n t"
    unfolding index_store_inv_def by (metis domIff)
  then show ?thesis by (simp add: upload_id_of_def)
qed

lemma sweep_fold:
  assumes "\<forall>r \<in> set rs. r < length (uploads (co_store co)) \<and> backend_upload_id (uploads (co_store co) ! r) \<noteq> []"
  shows "fst (fold (Metered_sweep_abort B) rs (co, m)) = fold (sweep_abort B) rs co \<and>
    up_by_id (co_store (fold (sweep_abort B) rs co)) = up_by_id (co_store co) \<and>
    mt_count (snd (fold (Metered_sweep_abort B) rs (co, m))) =
      (mt_count m)(multipart_abort_total := mt_count m multipart_abort_total + int (length rs))"
  using assms
proof (induction rs arbitrary: co m)
  case (Cons r rs)
  let ?co = "sweep_abort B r co" and ?m = "add_count multipart_abort_total 1 m"
  have r: "r < length (uploads (co_store co))" "backend_upload_id (uploads (co_store co) ! r) \<noteq> []" using Cons.prems by auto
  have st: "co_store ?co = update_upload r (\<lambda>u. u\<lparr>u_state := kUpAborted\<rparr>) (co_store co)"
    by (simp add: sweep_abort_def AbortBackend_def Let_def)
  have step: "Metered_sweep_abort B r (co, m) = (?co, ?m)"
    using r(2) by (simp add: Metered_sweep_abort_def Metered_AbortBackend_def sweep_abort_def Let_def)
  have "\<forall>q \<in> set rs. q < length (uploads (co_store ?co)) \<and> backend_upload_id (uploads (co_store ?co) ! q) \<noteq> []"
    using Cons.prems r(1) by (auto simp: st nth_update_upload)
  from Cons.IH [OF this, of ?m] show ?case by (simp add: step st fun_eq_iff)
qed simp

lemma i64_le: "i64 k \<le> int k"
proof -
  let ?w = "word_of_nat k :: 64 word"
  have "take_bit 64 (uint ?w) \<le> uint ?w" by (simp add: take_bit_int_less_eq_self_iff)
  then have "sint ?w \<le> uint ?w" by (simp add: sint_uint signed_take_bit_eq_take_bit_minus)
  also have "\<dots> \<le> int k" by (simp add: uint_nat unat_of_nat)
  finally show ?thesis by (simp add: i64_def)
qed

lemma sweep_counts:
  assumes "coordinator_reach co" "Metered_sweep_uploads memory_backend now (co, m) = (co', m')"
  shows "co' = snd (sweep_uploads memory_backend now co)"
    "int (length (up_by_id (co_store co'))) = int (length (up_by_id (co_store co))) - (mt_count m' multipart_abort_total - mt_count m multipart_abort_total)"
    "mt_count m' multipart_start_total = mt_count m multipart_start_total" "mt_count m' multipart_complete_total = mt_count m multipart_complete_total"
    "mt_count m' multipart_swept_total - mt_count m multipart_swept_total \<le> mt_count m' multipart_abort_total - mt_count m multipart_abort_total"
proof -
  obtain n rs st where s: "MultipartStore_SweepExpired now (co_store co) = (n, rs, st)" using prod_cases3 by blast
  have wf: "registry_wf (co_store co)"
    using coordinator_reach_inv [OF assms(1)] by (simp add: memory_coordinator_inv_def coordinator_inv_def)
  have st: "uploads st = uploads (co_store co)" "n = length rs" "length (up_by_id (co_store co)) = length rs + length (up_by_id st)"
    using s sum_length_filter_compl [of "\<lambda>(i, r). idle_too_long now (mp_ttl (co_store co)) (uploads (co_store co) ! r)" "up_by_id (co_store co)"]
    by (auto simp: MultipartStore_SweepExpired_def Let_def case_prod_unfold split: if_splits)
  have "\<forall>r \<in> set rs. r < length (uploads (co_store (co\<lparr>co_store := st\<rparr>))) \<and> backend_upload_id (uploads (co_store (co\<lparr>co_store := st\<rparr>)) ! r) \<noteq> []"
    using st(1) sweep_registry(3) [OF wf s] wf_entry [OF wf] backend_ids [OF assms(1)] by fastforce
  note f = sweep_fold [OF this, of memory_backend m]
  obtain co1 m1 where g: "fold (Metered_sweep_abort memory_backend) rs (co\<lparr>co_store := st\<rparr>, m) = (co1, m1)" by fastforce
  have r: "co' = co1" "m' = (if n \<noteq> 0 then add_count multipart_swept_total (i64 n) m1 else m1)"
    using assms(2) s g by (auto simp: Metered_sweep_uploads_def)
  show "co' = snd (sweep_uploads memory_backend now co)" using f g r s by (simp add: sweep_uploads_def)
  show "int (length (up_by_id (co_store co'))) = int (length (up_by_id (co_store co))) - (mt_count m' multipart_abort_total - mt_count m multipart_abort_total)"
    "mt_count m' multipart_start_total = mt_count m multipart_start_total" "mt_count m' multipart_complete_total = mt_count m multipart_complete_total"
    "mt_count m' multipart_swept_total - mt_count m multipart_swept_total \<le> mt_count m' multipart_abort_total - mt_count m multipart_abort_total"
    using f g r st(2,3) i64_le [of n] by auto
qed

inductive upload_meter :: "MemoryCoordinator \<times> Metrics \<Rightarrow> bool" where
  init: "cap < u64_mod \<Longrightarrow> upload_meter (MemoryCoordinator_init cap ttl mx mn, Metrics_init)"
| create: "upload_meter (co, m) \<Longrightarrow> seq_left (cb_index (co_backend co)) \<Longrightarrow> mp_seq (co_store co) + 1 < u64_mod \<Longrightarrow>
    upload_meter (snd (Metered_CreateUpload memory_backend now params (co, m)))"
| stage: "upload_meter (co, m) \<Longrightarrow> fits (cb_data (co_backend co)) (off + length src) \<Longrightarrow>
    upload_meter (co\<lparr>co_backend := snd (be_WritePart memory_backend now u pn off src (co_backend co))\<rparr>, m)"
| register: "upload_meter (co, m) \<Longrightarrow> upload_meter (Metered_RegisterPart now r pn off sz e (co, m))"
| complete: "upload_meter (co, m) \<Longrightarrow> length ps < 2 ^ 32 \<Longrightarrow> (\<forall>bid. fits (cb_data (co_backend co)) (staged_bytes co bid ps)) \<Longrightarrow>
    upload_meter (snd (Metered_CompleteUpload memory_backend clock now uid ps dp (co, m)))"
| abort: "upload_meter (co, m) \<Longrightarrow> upload_meter (snd (Metered_AbortUpload memory_backend uid dp (co, m)))"
| sweep: "upload_meter (co, m) \<Longrightarrow> upload_meter (Metered_sweep_uploads memory_backend now (co, m))"

text \<open>The counters of the coordinator balance: in every history the uploads that are open are those started, less those completed and
  those aborted, and every upload the sweeper removed was counted as aborted.\<close>

theorem uploads_metered:
  assumes "upload_meter cm"
  shows "coordinator_reach (fst cm) \<and>
    int (length (up_by_id (co_store (fst cm)))) =
      mt_count (snd cm) multipart_start_total - mt_count (snd cm) multipart_complete_total - mt_count (snd cm) multipart_abort_total \<and>
    mt_count (snd cm) multipart_swept_total \<le> mt_count (snd cm) multipart_abort_total"
  using assms
proof (induction rule: upload_meter.induct)
  case (init cap ttl mx mn)
  then show ?case by (simp add: coordinator_reach.init Metrics_init_def) (simp add: MemoryCoordinator_init_def MultipartStore_init_def)
next
  case (create co m now params)
  obtain r co' where c: "CreateUpload memory_backend now params co = (r, co')" by fastforce
  then show ?case
    using create create_registry [OF _ create.hyps(2,3) c] coordinator_reach.create [of co now params]
    by (auto simp: Metered_CreateUpload_def seq_left_def)
next
  case (stage co m off src now u pn)
  then show ?case using coordinator_reach.stage [of co off src now u pn] by simp
next
  case (register co m now r pn off sz e)
  then show ?case using coordinator_reach.register [of co now r pn off sz e] by (simp add: Metered_RegisterPart_def) (simp add: RegisterPart_def)
next
  case (complete co m ps clock now uid dp)
  obtain r co' where c: "CompleteUpload memory_backend now uid ps dp co = (r, co')" by fastforce
  have "registry_wf (co_store co)"
    using coordinator_reach_inv complete.IH by (auto simp: memory_coordinator_inv_def coordinator_inv_def)
  from complete_registry [OF this c] show ?case
    using complete c coordinator_reach.complete [of co ps now uid dp] by (auto simp: Metered_CompleteUpload_def)
next
  case (abort co m uid dp)
  obtain r co' where c: "AbortUpload memory_backend uid dp co = (r, co')" by fastforce
  have "registry_wf (co_store co)"
    using coordinator_reach_inv abort.IH by (auto simp: memory_coordinator_inv_def coordinator_inv_def)
  from abort_registry [OF this c] show ?case
    using abort c coordinator_reach.abort [of co uid dp] by (auto simp: Metered_AbortUpload_def split: sum.splits)
next
  case (sweep co m now)
  obtain co' m' where s: "Metered_sweep_uploads memory_backend now (co, m) = (co', m')" by fastforce
  from sweep_counts [OF _ s] show ?case using sweep s coordinator_reach.sweep [of co now] by auto
qed

section \<open>The gauge of transfers in flight\<close>

abbreviation in_flight :: "'s UcxExecutor \<Rightarrow> int" where
  "in_flight ux \<equiv> int (size (held (ux_entries ux)))"

lemma held_release:
  assumes "e < length es" "ue_slot (es ! e) \<noteq> None"
  shows "int (size (held (es[e := (es ! e)\<lparr>ue_slot := None\<rparr>]))) = int (size (held es)) - 1"
proof -
  obtain r where "ue_slot (es ! e) = Some r" using assms(2) by auto
  then have "held (es[e := (es ! e)\<lparr>ue_slot := None\<rparr>]) + {#r#} = held es" using held_update [OF assms(1), of "(es ! e)\<lparr>ue_slot := None\<rparr>"] by simp
  then have "size (held es) = Suc (size (held (es[e := (es ! e)\<lparr>ue_slot := None\<rparr>])))"
    by (metis add_mset_add_single size_add_mset)
  then show ?thesis by simp
qed

lemma release_entries:
  "ux_entries (ReleaseEntry e ux) = (ux_entries ux)[e := (ux_entries ux ! e)\<lparr>ue_slot := None\<rparr>]"
  "ux_entries (release_and_erase sid e ux) = (ux_entries ux)[e := (ux_entries ux ! e)\<lparr>ue_slot := None\<rparr>]"
proof -
  have same: "es[e := (es ! e)\<lparr>ue_slot := None\<rparr>] = es" if "ue_slot (es ! e) = None" for es :: "UcxSessionEntry list"
    using that by (metis (mono_tags, lifting) UcxSessionEntry.surjective UcxSessionEntry.update_convs(5) list_update_id)
  have rel: "ux_entries (ReleaseEntry e v) = (ux_entries v)[e := (ux_entries v ! e)\<lparr>ue_slot := None\<rparr>]" for v :: "'a UcxExecutor"
    by (auto simp: ReleaseEntry_def update_entry_def UcxBufferPool_Return_def same split: option.split)
  then show "ux_entries (ReleaseEntry e ux) = (ux_entries ux)[e := (ux_entries ux ! e)\<lparr>ue_slot := None\<rparr>]" by blast
  show "ux_entries (release_and_erase sid e ux) = (ux_entries ux)[e := (ux_entries ux ! e)\<lparr>ue_slot := None\<rparr>]"
    by (simp add: release_and_erase_def rel UcxSessionRegistry_Erase_def use_registry_def)
qed

lemma slot_view_entries: "slot_view e n ux = (v, ux') \<Longrightarrow> ux_entries ux' = ux_entries ux"
  by (auto simp: slot_view_def split: option.splits)

lemma commit_data_entries:
  "ux_entries (snd (DoCommitObject B now e n ux)) = ux_entries ux" "ux_entries (snd (DoWritePartData B now e uid pn n ux)) = ux_entries ux"
  by (auto simp: DoCommitObject_def DoWritePartData_def Let_def slot_view_entries split: prod.splits sum.splits)

lemma run_commit_entries:
  "ux_entries (run_commit B now e c ux) = (ux_entries ux)[e := (ux_entries ux ! e)\<lparr>ue_slot := None\<rparr>]"
proof (cases c)
  case (CommitObj sid n crc rpc)
  obtain r ux' where d: "DoCommitObject B now e n ux = (r, ux')" by fastforce
  then have "ux_entries ux' = ux_entries ux" using commit_data_entries(1) [of B now e n ux] by simp
  then show ?thesis using CommitObj d by (simp add: run_commit_def on_done_def release_entries)
next
  case (CommitPart sid uid u pn n crc rpc)
  obtain r ux' where d: "DoWritePartData B now e uid pn n ux = (r, ux')" by fastforce
  then have "ux_entries ux' = ux_entries ux" using commit_data_entries(2) [of B now e uid pn n ux] by simp
  then show ?thesis using CommitPart d by (simp add: run_commit_def FinishCommitPart_def on_done_def release_entries split: sum.split)
qed

definition gauge :: "'s UcxExecutor \<times> Metrics \<Rightarrow> int" where
  "gauge um = mt_count (snd um) ucx_put_inflight - in_flight (fst um)"

lemma run_commit_gauge:
  assumes "e < length (ux_entries ux)" "ue_slot (ux_entries ux ! e) \<noteq> None"
  shows "gauge (Metered_run_commit B now e c (ux, m)) = gauge (ux, m)"
  using held_release [OF assms] by (simp add: gauge_def Metered_run_commit_def run_commit_entries)

lemma fail_commit_entries [simp]: "ux_entries (fail_commit c err ux) = ux_entries ux"
  by (simp add: fail_commit_def on_done_def split: Commit.split)

lemma update_entry_held:
  assumes "\<And>x. ue_slot (f x) = ue_slot x"
  shows "held (ux_entries (update_entry e f ux)) = held (ux_entries ux)"
  using assms by (simp add: update_entry_def held_same_slot)

lemma commit_gauge:
  assumes "ucx_wf ux"
  shows "gauge (snd (Metered_commit_async B now c (ux, m))) = gauge (ux, m) \<and>
    (fst (Metered_commit_async B now c (ux, m)), fst (snd (Metered_commit_async B now c (ux, m)))) = commit_async B now c ux"
proof (cases "UcxSessionRegistry_Find (c_sid c) ux")
  case (Some e)
  note e = find_ok(1) [OF assms Some]
  show ?thesis
    using assms Some e run_commit_gauge [OF e, of B now c m] update_entry_held [of "\<lambda>x. x\<lparr>ue_pending := Some c\<rparr>" e ux]
    by (auto simp: Metered_commit_async_def commit_async_def commit_fast_def commit_locked_def gauge_def Metered_run_commit_def Let_def)
qed (use assms in \<open>simp add: Metered_commit_async_def commit_async_def commit_fast_def gauge_def Let_def\<close>)

lemma write_done_gauge:
  assumes "ucx_wf ux"
  shows "gauge (Metered_OnAmWriteDone B now sid (ux, m)) = gauge (ux, m) \<and> fst (Metered_OnAmWriteDone B now sid (ux, m)) = OnAmWriteDone B now sid ux"
proof (cases "sid = [] \<or> UcxSessionRegistry_Find sid ux = None")
  case False
  then obtain e where e: "sid \<noteq> []" "UcxSessionRegistry_Find sid ux = Some e" by auto
  note f = find_ok(1,4) [OF assms e(2)]
  let ?g = "\<lambda>x. x\<lparr>ue_write_done := True, ue_pending := None\<rparr>"
  have u: "held (ux_entries (update_entry e ?g ux)) = held (ux_entries ux)" by (rule update_entry_held) simp
  have "e < length (ux_entries (update_entry e ?g ux))" "ue_slot (ux_entries (update_entry e ?g ux) ! e) = ue_slot (ux_entries ux ! e)"
    using f(1) by (simp_all add: update_entry_def)
  then have "gauge (Metered_run_commit B now e c (update_entry e ?g ux, m)) = gauge (ux, m)" if "ue_pending (ux_entries ux ! e) = Some c" for c
    using run_commit_gauge [of e "update_entry e ?g ux" B now c m] f(2) [OF that] u by (simp add: gauge_def)
  then show ?thesis
    using assms e u by (auto simp: Metered_OnAmWriteDone_def OnAmWriteDone_def Let_def gauge_def Metered_run_commit_def split: option.split)
qed (use assms in \<open>auto simp: Metered_OnAmWriteDone_def OnAmWriteDone_def gauge_def Let_def\<close>)

lemma prepare_entries:
  assumes "PrepareTransfer a sid n ux = (res, ux')" "UcxSessionRegistry_Find sid ux = Some e"
  shows "if isl res \<or> ue_slot (ux_entries ux ! e) \<noteq> None then ux_entries ux' = ux_entries ux
    else \<exists>r. ux_entries ux' = (ux_entries ux)[e := (ux_entries ux ! e)\<lparr>ue_slot := Some r, ue_transfer_bytes := n\<rparr>]"
proof -
  have acq: "ux_entries (snd (UcxBufferPool_Acquire k v)) = ux_entries v" "ux_entries (snd (new_slot a k v)) = ux_entries v"
    for k and v :: "'a UcxExecutor"
    by (simp_all add: UcxBufferPool_Acquire_def new_slot_def Let_def split: option.split prod.split)
  have find: "UcxSessionRegistry_Find sid (use_registry ux) = Some e" "ux_entries (use_registry ux) = ux_entries ux"
    using assms(2) by (auto simp: use_registry_def UcxSessionRegistry_Find_def Option.bind_eq_Some_conv)
  obtain x v where x: "UcxBufferPool_Acquire (RoundUpPage (max n kPageSize)) (use_registry ux) = (x, v)" by fastforce
  obtain y w where y: "new_slot a (RoundUpPage (max n kPageSize)) v = (y, w)" by fastforce
  have "ux_entries v = ux_entries ux" "ux_entries w = ux_entries ux"
    using acq(1) [of "RoundUpPage (max n kPageSize)" "use_registry ux"] acq(2) [of "RoundUpPage (max n kPageSize)" v] x y find(2) by simp_all
  then show ?thesis
    using assms(1) find x y
    by (auto simp: PrepareTransfer_def Let_def update_entry_def split: if_splits option.splits sum.splits prod.splits)
qed

lemma prepare_gauge:
  assumes "ucx_wf ux"
  shows "gauge (snd (Metered_PrepareTransfer a sid n (ux, m))) = gauge (ux, m) \<and>
    fst (snd (Metered_PrepareTransfer a sid n (ux, m))) = snd (PrepareTransfer a sid n ux)"
proof -
  obtain res ux' where p: "PrepareTransfer a sid n ux = (res, ux')" by fastforce
  show ?thesis
  proof (cases "UcxSessionRegistry_Find sid ux")
    case None
    then have "ux' = ux" using p assms by (auto simp: PrepareTransfer_def Let_def split: if_splits)
    then show ?thesis using p None by (simp add: Metered_PrepareTransfer_def gauge_def)
  next
    case (Some e)
    note e = find_ok(1) [OF assms Some] and en = prepare_entries [OF p Some]
    show ?thesis
    proof (cases "isl res \<or> ue_slot (ux_entries ux ! e) \<noteq> None")
      case True
      then show ?thesis using p Some en by (auto simp: Metered_PrepareTransfer_def gauge_def)
    next
      case False
      then obtain r where "ux_entries ux' = (ux_entries ux)[e := (ux_entries ux ! e)\<lparr>ue_slot := Some r, ue_transfer_bytes := n\<rparr>]" using en by auto
      then have "held (ux_entries ux') = held (ux_entries ux) + {#r#}"
        using held_update [OF e, of "(ux_entries ux ! e)\<lparr>ue_slot := Some r, ue_transfer_bytes := n\<rparr>"] False by simp
      then show ?thesis using p Some False by (simp add: Metered_PrepareTransfer_def gauge_def Let_def)
    qed
  qed
qed

text \<open>A history of the executor with its counters; the number counts the aborts that took a buffer from a session.\<close>

definition abort_holds :: "string \<Rightarrow> 's UcxExecutor \<Rightarrow> bool" where
  "abort_holds sid ux \<longleftrightarrow> (case UcxSessionRegistry_Find sid ux of None \<Rightarrow> False | Some e \<Rightarrow> ue_slot (ux_entries ux ! e) \<noteq> None)"

inductive ucx_meter :: "'s IBackend \<Rightarrow> nat \<Rightarrow> 's UcxExecutor \<times> Metrics \<Rightarrow> bool" for B where
  started: "UcxExecutor_Start a (UcxExecutor_init host bind opts co) = (Inr True, ux) \<Longrightarrow> max_msg_bytes opts + kPageSize < u64_mod \<Longrightarrow>
    ucx_meter B 0 (ux, Metrics_init)"
| opened: "ucx_meter B k (ux, m) \<Longrightarrow> UcxSessionRegistry_Find (session_id s) ux = None \<Longrightarrow>
    ucx_meter B k (snd (UcxExecutor_OnSessionOpened s ux), m)"
| prepare: "ucx_meter B k (ux, m) \<Longrightarrow> ucx_meter B k (snd (Metered_PrepareTransfer aa sid n (ux, m)))"
| remote_write: "ucx_meter B k (ux, m) \<Longrightarrow> ucx_meter B k (rma_put r data ux, m)"
| write_done: "ucx_meter B k (ux, m) \<Longrightarrow> ucx_meter B k (Metered_OnAmWriteDone B now sid (ux, m))"
| commit: "ucx_meter B k (ux, m) \<Longrightarrow> commit_allowed (CommitObj sid n crc rpc) ux \<Longrightarrow>
    ucx_meter B k (snd (Metered_commit_async B now (CommitObj sid n crc rpc) (ux, m)))"
| commit_part: "ucx_meter B k (ux, m) \<Longrightarrow> (\<forall>uid u. commit_allowed (CommitPart sid uid u pn n crc rpc) ux) \<Longrightarrow>
    ucx_meter B k (snd (Metered_CommitPartAsync B now sid up pn n crc rpc (ux, m)))"
| abort: "ucx_meter B k (ux, m) \<Longrightarrow> ucx_meter B (if abort_holds sid ux then k + 1 else k) (snd (AbortSession sid ux), m)"

lemma abort_gauge:
  assumes "ucx_wf ux"
  shows "in_flight (snd (AbortSession sid ux)) = in_flight ux - (if abort_holds sid ux then 1 else 0)"
proof (cases "UcxSessionRegistry_Find sid ux")
  case (Some e)
  note e = find_ok(1) [OF assms Some]
  have en: "ux_entries (snd (AbortSession sid ux)) = (ux_entries ux)[e := (ux_entries ux ! e)\<lparr>ue_slot := None\<rparr>]"
    using assms Some by (simp add: AbortSession_def UcxSessionRegistry_Erase_def release_entries Let_def)
  show ?thesis
  proof (cases "ue_slot (ux_entries ux ! e)")
    case None
    then show ?thesis using en Some held_same_slot [of "(ux_entries ux ! e)\<lparr>ue_slot := None\<rparr>" "ux_entries ux" e] by (simp add: abort_holds_def)
  next
    case (Some r)
    then show ?thesis using en held_release [OF e] \<open>UcxSessionRegistry_Find sid ux = Some e\<close> by (simp add: abort_holds_def)
  qed
qed (use assms in \<open>simp add: AbortSession_def UcxSessionRegistry_Erase_def abort_holds_def Let_def\<close>)

lemma ucx_meter_gauge: "ucx_meter B k um \<Longrightarrow> ucx_reach B (fst um) \<and> gauge um = int k"
proof (induction rule: ucx_meter.induct)
  case (started a host bind opts co ux)
  have "ux_entries ux = []"
    using started(1) by (auto simp: UcxExecutor_Start_def UcxExecutor_init_def Let_def split: if_splits option.splits)
  then show ?case using ucx_reach.started [OF started] by (simp add: gauge_def Metrics_init_def)
next
  case (opened k ux m s)
  have "held (ux_entries (snd (UcxExecutor_OnSessionOpened s ux))) = held (ux_entries ux)"
    by (simp add: UcxExecutor_OnSessionOpened_def UcxSessionRegistry_Create_def use_registry_def Let_def)
  then show ?case using opened ucx_reach.opened [of B ux s] by (simp add: gauge_def)
next
  case (prepare k ux m aa sid n)
  then show ?case using prepare_gauge [of ux aa sid n m] ucx_reach_wf [of B ux] ucx_reach.prepare [of B ux aa sid n] by simp
next
  case (remote_write k ux m r data)
  then show ?case using ucx_reach.remote_write [of B ux r data] by (simp add: gauge_def) (simp add: rma_put_def Let_def)
next
  case (write_done k ux m now sid)
  then show ?case using write_done_gauge [of ux B now sid m] ucx_reach_wf [of B ux] ucx_reach.write_done [of B ux now sid] by simp
next
  case (commit k ux m sid n crc rpc now)
  then have "fst (snd (Metered_commit_async B now (CommitObj sid n crc rpc) (ux, m))) = snd (CommitObjectAsync B now sid n crc rpc ux)"
    using commit_gauge [of ux B now "CommitObj sid n crc rpc" m] ucx_reach_wf [of B ux]
    by (metis CommitObjectAsync_def fst_conv snd_conv)
  then show ?case
    using commit commit_gauge [of ux B now "CommitObj sid n crc rpc" m] ucx_reach_wf [of B ux] ucx_reach.commit [of B ux sid n crc rpc now] by simp
next
  case (commit_part k ux m sid pn n crc rpc now up)
  have wf: "ucx_wf ux" using ucx_reach_wf [of B ux] commit_part.IH by simp
  have "fst (snd (Metered_CommitPartAsync B now sid up pn n crc rpc (ux, m))) = snd (UcxMultipart_CommitPartAsync B now sid up pn n crc rpc ux) \<and>
      gauge (snd (Metered_CommitPartAsync B now sid up pn n crc rpc (ux, m))) = gauge (ux, m)"
  proof (cases "Lookup up (ux_co ux)")
    case (Inl e)
    then show ?thesis by (simp add: Metered_CommitPartAsync_def UcxMultipart_CommitPartAsync_def gauge_def on_done_def)
  next
    case (Inr u)
    let ?c = "CommitPart sid (backend_upload_id (uploads (co_store (ux_co ux)) ! u)) u pn n crc rpc"
    show ?thesis
      using Inr commit_gauge [OF wf, of B now ?c m]
      by (simp add: Metered_CommitPartAsync_def UcxMultipart_CommitPartAsync_def CommitPartDataAsync_def) (metis snd_conv)
  qed
  then show ?case using commit_part ucx_reach.commit_part [of B ux sid pn n crc rpc now up] by simp
next
  case (abort k ux m sid)
  then show ?case using abort_gauge [of ux sid] ucx_reach_wf [of B ux] ucx_reach.abort [of B ux sid] by (auto simp: gauge_def)
qed

text \<open>The gauge \<^verbatim>\<open>ucx_put_inflight\<close> drifts: in every history it is the number of sessions that hold a buffer plus the number of sessions that were
  aborted while they held one, since \<^verbatim>\<open>AbortSession\<close> releases the buffer and leaves the gauge alone. Without such an abort it is exact.\<close>

theorem ucx_inflight_metered:
  assumes "ucx_meter B k (ux, m)"
  shows "mt_count m ucx_put_inflight = int (size (held (ux_entries ux))) + int k"
  using ucx_meter_gauge [OF assms] by (simp add: gauge_def)

text \<open>The five counters of the UCX data path have no name, so that none of them is exposed.\<close>

lemma ucx_counters_unnamed:
  "counter_name c = None \<longleftrightarrow> c \<in> {ucx_put_inflight, ucx_buffer_pool_hit_total, ucx_buffer_pool_miss_total, ucx_put_timeout_total, ucx_session_orphan_total}"
  by (cases c) simp_all

end
