(* ===== verification/Bench_Put.thy ===== *)
theory Bench_Put
  imports Client_Core
begin

text \<open>
  The PUT benchmarks \<^verbatim>\<open>bench/gds_put_bench_v2.cpp\<close> and \<^verbatim>\<open>bench/rdma_put_bench.cpp\<close>: the command line, the naming of the objects, and the
  workers that take indices from a shared counter and put one object for each. The workers are a step relation; a call of the
  client is one step. The vector of flags that says which PUT succeeded is a \<^verbatim>\<open>std::vector<bool>\<close>, whose elements share
  words: setting an element reads the word and writes it back, and these are two steps. The warm-up, time stamps, statistics, and the allocation and
  contents of the buffers are not modelled.
\<close>

section \<open>The command line\<close>

record Args =
  ar_endpoint :: string
  ar_threads :: nat
  ar_count :: nat
  ar_object_size :: nat
  ar_warmup :: nat
  ar_key_modulo :: nat
  ar_bucket :: string
  ar_key_prefix :: string
  ar_seed :: nat

definition gds_put_Args :: Args where
  "gds_put_Args =
     \<lparr>ar_endpoint = [], ar_threads = 0, ar_count = 16, ar_object_size = 4 * 1024 * 1024, ar_warmup = 2, ar_key_modulo = 0,
      ar_bucket = ''us3-bench'', ar_key_prefix = ''bench/gds-put/'', ar_seed = 0xC0FFEE\<rparr>"

definition rdma_put_Args :: Args where
  "rdma_put_Args =
     \<lparr>ar_endpoint = [], ar_threads = 0, ar_count = 64, ar_object_size = 4 * 1024 * 1024, ar_warmup = 4, ar_key_modulo = 0,
      ar_bucket = ''us3-bench'', ar_key_prefix = ''bench/rdma-put/'', ar_seed = 0xC0FFEE\<rparr>"

text \<open>\<^verbatim>\<open>std::stoull\<close> with base 0: white space, a sign, the prefix that chooses the base, digits. It throws when there is no digit or
  the magnitude does not fit; a minus sign negates modulo $2^{64}$.\<close>

definition digit_of :: "nat \<Rightarrow> char \<Rightarrow> nat option" where
  "digit_of base c =
     (let n = of_char c;
          v = (if 48 \<le> n \<and> n \<le> 57 then n - 48 else if 97 \<le> n \<and> n \<le> 122 then n - 87 else if 65 \<le> n \<and> n \<le> 90 then n - 55 else 36)
      in if v < base then Some v else None)"

fun read_digits :: "nat \<Rightarrow> nat \<Rightarrow> string \<Rightarrow> nat \<times> string" where
  "read_digits base acc [] = (acc, [])"
| "read_digits base acc (c # s) = (case digit_of base c of None \<Rightarrow> (acc, c # s) | Some d \<Rightarrow> read_digits base (acc * base + d) s)"

definition is_space :: "char \<Rightarrow> bool" where
  "is_space c \<longleftrightarrow> of_char c \<in> {32, 9, 10, 11, 12, 13 :: nat}"

fun take_sign :: "string \<Rightarrow> bool \<times> string" where
  "take_sign (c # s) = (if c = CHR ''-'' then (True, s) else if c = CHR ''+'' then (False, s) else (False, c # s))"
| "take_sign [] = (False, [])"

definition take_base :: "string \<Rightarrow> nat \<times> string" where
  "take_base s =
     (case s of
        c # x # d # t \<Rightarrow>
          if c = CHR ''0'' \<and> (x = CHR ''x'' \<or> x = CHR ''X'') \<and> digit_of 16 d \<noteq> None then (16, d # t)
          else if c = CHR ''0'' then (8, s) else (10, s)
      | c # t \<Rightarrow> if c = CHR ''0'' then (8, s) else (10, s)
      | [] \<Rightarrow> (10, s))"

definition stoull :: "string \<Rightarrow> (nat \<times> string) option" where
  "stoull s =
     (let (neg, s1) = take_sign (dropWhile is_space s);
          (base, s2) = take_base s1;
          (n, rest) = read_digits base 0 s2
      in if length rest = length s2 \<or> n \<ge> u64_mod then None
         else Some (if neg then u64_sub 0 n else n, rest))"

definition ParseULL :: "string \<Rightarrow> nat option" where
  "ParseULL s = (case stoull s of None \<Rightarrow> None | Some (n, rest) \<Rightarrow> if rest \<noteq> [] then None else Some n)"

text \<open>\<^verbatim>\<open>eat\<close>: the value of an option, empty when the argument is not that option.\<close>

definition eat :: "string \<Rightarrow> string \<Rightarrow> string" where
  "eat s k = (if length s \<le> length k \<or> take (length k) s \<noteq> k then [] else drop (length k) s)"

definition eat_number :: "string \<Rightarrow> string \<Rightarrow> nat option" where
  "eat_number s k = (if eat s k \<noteq> [] then ParseULL (eat s k) else None)"

text \<open>The options with a number, in the order in which the loop tries them.\<close>

definition number_options :: "(string \<times> (nat \<Rightarrow> 'a Args_scheme \<Rightarrow> 'a Args_scheme)) list" where
  "number_options =
     [(''--threads='', \<lambda>n a. a\<lparr>ar_threads := n\<rparr>), (''--count='', \<lambda>n a. a\<lparr>ar_count := n\<rparr>),
      (''--object-size='', \<lambda>n a. a\<lparr>ar_object_size := n\<rparr>), (''--warmup='', \<lambda>n a. a\<lparr>ar_warmup := n\<rparr>),
      (''--key-modulo='', \<lambda>n a. a\<lparr>ar_key_modulo := n\<rparr>), (''--seed='', \<lambda>n a. a\<lparr>ar_seed := n\<rparr>)]"

fun try_numbers :: "(string \<times> (nat \<Rightarrow> 'a \<Rightarrow> 'a)) list \<Rightarrow> string \<Rightarrow> 'a \<Rightarrow> 'a option" where
  "try_numbers [] s a = None"
| "try_numbers ((k, f) # opts) s a = (case eat_number s k of Some n \<Rightarrow> Some (f n a) | None \<Rightarrow> try_numbers opts s a)"

definition ParseArg ::
  "(string \<times> (nat \<Rightarrow> 'a Args_scheme \<Rightarrow> 'a Args_scheme)) list \<Rightarrow> string \<Rightarrow> 'a Args_scheme \<Rightarrow> 'a Args_scheme option" where
  "ParseArg numbers s a =
     (if eat s ''--endpoint='' \<noteq> [] then Some (a\<lparr>ar_endpoint := eat s ''--endpoint=''\<rparr>)
      else if eat s ''--bucket='' \<noteq> [] then Some (a\<lparr>ar_bucket := eat s ''--bucket=''\<rparr>)
      else if eat s ''--key-prefix='' \<noteq> [] then Some (a\<lparr>ar_key_prefix := eat s ''--key-prefix=''\<rparr>)
      else try_numbers numbers s a)"

fun parse_loop ::
  "(string \<times> (nat \<Rightarrow> 'a Args_scheme \<Rightarrow> 'a Args_scheme)) list \<Rightarrow> string list \<Rightarrow> 'a Args_scheme \<Rightarrow> 'a Args_scheme option" where
  "parse_loop numbers [] a = Some a"
| "parse_loop numbers (s # argv) a = (case ParseArg numbers s a of None \<Rightarrow> None | Some a' \<Rightarrow> parse_loop numbers argv a')"

definition ParseArgs :: "string list \<Rightarrow> Args \<Rightarrow> Args option" where
  "ParseArgs argv a =
     (case parse_loop number_options argv a of
        None \<Rightarrow> None
      | Some a \<Rightarrow> if ar_endpoint a = [] then None else if ar_count a = 0 \<or> ar_object_size a = 0 then None else Some a)"

section \<open>One PUT\<close>

definition key_mod :: "'a Args_scheme \<Rightarrow> nat" where
  "key_mod a = (if ar_key_modulo a > 0 then ar_key_modulo a else ar_count a)"

definition bench_request :: "Args \<Rightarrow> nat \<Rightarrow> PutObjectRequest" where
  "bench_request a idx =
     PutObjectRequest_default\<lparr>put_bucket := ar_bucket a, put_key := ar_key_prefix a @ dec (idx mod key_mod a)\<rparr>"

text \<open>The number of workers and of device buffers; \<^verbatim>\<open>hw\<close> is \<^verbatim>\<open>std::thread::hardware_concurrency()\<close>.\<close>

definition gds_pool_size :: "nat \<Rightarrow> Args \<Rightarrow> nat" where
  "gds_pool_size hw a = (if ar_threads a > 0 then ar_threads a else max 1 (hw div 2))"

definition rdma_workers :: "Args \<Rightarrow> nat" where
  "rdma_workers a = (if ar_threads a > 0 then ar_threads a else 4)"

definition do_put :: "'w Platform \<Rightarrow> ClientCore \<Rightarrow> Args \<Rightarrow> nat list \<Rightarrow> nat \<Rightarrow> ('w, TransferOutcome cresult) client" where
  "do_put P core a dev_pool idx =
     Client_PutObject P core (bench_request a idx)
       \<lparr>bv_data = dev_pool ! (idx mod length dev_pool), bv_size = ar_object_size a, bv_type = kCudaDevice\<rparr>"

definition submit :: "'w Platform \<Rightarrow> ClientCore \<Rightarrow> Args \<Rightarrow> nat \<Rightarrow> nat \<Rightarrow> ('w, TransferOutcome cresult) client" where
  "submit P core a raw_buf idx =
     Client_PutObjectAsync P core (bench_request a idx)
       \<lparr>bv_data = raw_buf, bv_size = ar_object_size a, bv_type = kHostRegular\<rparr>"

section \<open>The flags\<close>

text \<open>\<^verbatim>\<open>std::vector<bool>\<close>: 64 elements to a word.\<close>

definition bits_init :: "nat \<Rightarrow> u64 list" where
  "bits_init n = replicate ((n + 63) div 64) 0"

definition bit_at :: "u64 list \<Rightarrow> nat \<Rightarrow> bool" where
  "bit_at ws i = bit (ws ! (i div 64)) (i mod 64)"

section \<open>The workers\<close>

text \<open>Where a worker stands: before it has bound its device, about to take an index, in the PUT, about to read and to
  write the word of its flag, about to count a failure, about to note the error, returned.\<close>

datatype put_worker =
    PBegin | PFetch | PPut nat | PLoad nat | PStore nat u64 | PCount nat ClientError | PErr nat ClientError | PReturned

record 'w PutRun =
  pr_client :: "'w ClientState"
  pr_next_idx :: nat
  pr_ok :: "u64 list"
  pr_fail_count :: nat
  pr_first_err :: string
  pr_workers :: "put_worker list"
  pr_log :: "(nat \<times> bool) list"

text \<open>\<^verbatim>\<open>pr_log\<close> is no variable of the programs: it lists the PUTs that were made, with their success.\<close>

definition stands :: "nat \<Rightarrow> put_worker \<Rightarrow> 'w PutRun \<Rightarrow> bool" where
  "stands j pc r \<longleftrightarrow> j < length (pr_workers r) \<and> pr_workers r ! j = pc"

definition move :: "nat \<Rightarrow> put_worker \<Rightarrow> 'w PutRun \<Rightarrow> 'w PutRun" where
  "move j pc r = r\<lparr>pr_workers := (pr_workers r)[j := pc]\<rparr>"

definition note_error :: "string \<Rightarrow> 'w PutRun \<Rightarrow> 'w PutRun" where
  "note_error msg r = (if pr_first_err r = [] then r\<lparr>pr_first_err := msg\<rparr> else r)"

text \<open>The loop of a worker. The RDMA benchmark counts a failure before it notes the error, the GDS one notes it only: \<^verbatim>\<open>on_fail\<close>.\<close>

inductive put_step ::
  "(nat \<Rightarrow> ClientError \<Rightarrow> put_worker) \<Rightarrow> (nat \<Rightarrow> ('w, TransferOutcome cresult) client) \<Rightarrow> nat \<Rightarrow> 'w PutRun \<Rightarrow> 'w PutRun \<Rightarrow> bool"
  for on_fail put n where
  fetch: "stands j PFetch r \<Longrightarrow>
    put_step on_fail put n r (move j (if pr_next_idx r \<ge> n then PReturned else PPut (pr_next_idx r)) (r\<lparr>pr_next_idx := pr_next_idx r + 1\<rparr>))"
| put_ok: "stands j (PPut i) r \<Longrightarrow> run_state (put i) (pr_client r) = (Inr v, c) \<Longrightarrow>
    put_step on_fail put n r (move j (PLoad i) (r\<lparr>pr_client := c, pr_log := pr_log r @ [(i, True)]\<rparr>))"
| put_fails: "stands j (PPut i) r \<Longrightarrow> run_state (put i) (pr_client r) = (Inl e, c) \<Longrightarrow>
    put_step on_fail put n r (move j (on_fail i e) (r\<lparr>pr_client := c, pr_log := pr_log r @ [(i, False)]\<rparr>))"
| load: "stands j (PLoad i) r \<Longrightarrow> put_step on_fail put n r (move j (PStore i (pr_ok r ! (i div 64))) r)"
| store: "stands j (PStore i w) r \<Longrightarrow>
    put_step on_fail put n r (move j PFetch (r\<lparr>pr_ok := (pr_ok r)[i div 64 := set_bit (i mod 64) w]\<rparr>))"
| count_failure: "stands j (PCount i e) r \<Longrightarrow>
    put_step on_fail put n r (move j (PErr i e) (r\<lparr>pr_fail_count := pr_fail_count r + 1\<rparr>))"
| error: "stands j (PErr i e) r \<Longrightarrow> put_step on_fail put n r (move j PFetch (note_error (ce_message e) r))"
| device: "stands j PBegin r \<Longrightarrow> put_step on_fail put n r (move j PFetch r)"
| no_device: "stands j PBegin r \<Longrightarrow> put_step on_fail put n r (move j PReturned (note_error ''cudaSetDevice failed'' r))"

definition PutRun_init :: "put_worker \<Rightarrow> nat \<Rightarrow> nat \<Rightarrow> 'w ClientState \<Rightarrow> 'w PutRun" where
  "PutRun_init pc workers n c =
     \<lparr>pr_client = c, pr_next_idx = 0, pr_ok = bits_init n, pr_fail_count = 0, pr_first_err = [], pr_workers = replicate workers pc,
      pr_log = []\<rparr>"

definition all_returned :: "'w PutRun \<Rightarrow> bool" where
  "all_returned r \<longleftrightarrow> (\<forall>pc \<in> set (pr_workers r). pc = PReturned)"

text \<open>The measured phase up to the joins. Workers of the GDS benchmark start by binding the device, those of the RDMA one have
  no such step.\<close>

definition gds_measured :: "(nat \<Rightarrow> ('w, TransferOutcome cresult) client) \<Rightarrow> nat \<Rightarrow> nat \<Rightarrow> 'w ClientState \<Rightarrow> 'w PutRun \<Rightarrow> bool" where
  "gds_measured put pool_size n c r \<longleftrightarrow> (put_step PErr put n)\<^sup>*\<^sup>* (PutRun_init PBegin pool_size n c) r \<and> all_returned r"

definition rdma_measured :: "(nat \<Rightarrow> ('w, TransferOutcome cresult) client) \<Rightarrow> nat \<Rightarrow> nat \<Rightarrow> 'w ClientState \<Rightarrow> 'w PutRun \<Rightarrow> bool" where
  "rdma_measured put workers n c r \<longleftrightarrow> (put_step PCount put n)\<^sup>*\<^sup>* (PutRun_init PFetch workers n c) r \<and> all_returned r"

text \<open>After the joins: how many latencies are recorded, the failures, and the exit status.\<close>

definition recorded :: "nat \<Rightarrow> 'w PutRun \<Rightarrow> nat list" where
  "recorded n r = filter (bit_at (pr_ok r)) [0..<n]"

definition gds_failed :: "nat \<Rightarrow> 'w PutRun \<Rightarrow> nat" where
  "gds_failed n r = length (filter (\<lambda>i. \<not> bit_at (pr_ok r) i) [0..<n])"

definition gds_exit :: "nat \<Rightarrow> 'w PutRun \<Rightarrow> nat" where
  "gds_exit n r = (if gds_failed n r = 0 then 0 else 1)"

definition rdma_exit :: "'w PutRun \<Rightarrow> nat" where
  "rdma_exit r = (if pr_fail_count r = 0 then 0 else 1)"

section \<open>Reading the options\<close>

lemma digit_of_char: "d < 10 \<Longrightarrow> base \<le> 10 \<Longrightarrow> digit_of base (digit_char d) = (if d < base then Some d else None)"
  by (simp add: digit_of_def of_digit_char Let_def)

lemma read_digits_append:
  "\<forall>c \<in> set s. \<exists>d<10. c = digit_char d \<Longrightarrow> read_digits 10 acc s = (foldl (\<lambda>n c. n * 10 + digit_val c) acc s, [])"
  by (induction s arbitrary: acc) (auto simp: digit_of_char digit_val_char)

lemma dec_digits: "\<forall>c \<in> set (dec n). \<exists>d<10. c = digit_char d"
proof (induction n rule: less_induct)
  case (less n)
  show ?case
  proof (cases "n < 10")
    case False
    moreover have "n mod 10 < 10" by simp
    ultimately show ?thesis using less [of "n div 10"] by (subst print_base.simps) (auto intro: exI [of _ "n mod 10"])
  qed (subst print_base.simps, auto)
qed

lemma dec_head:
  assumes "n \<noteq> 0"
  shows "\<exists>d t. 0 < d \<and> d < 10 \<and> dec n = digit_char d # t"
  using assms
proof (induction n rule: less_induct)
  case (less n)
  show ?case
  proof (cases "n < 10")
    case True
    then show ?thesis using less(2) by (subst print_base.simps) auto
  next
    case False
    then show ?thesis using less(1) [of "n div 10"] by (subst print_base.simps) (force simp: div_eq_0_iff)
  qed
qed

lemma digit_char_plain:
  assumes "d < 10"
  shows "\<not> is_space (digit_char d)" "digit_char d \<noteq> CHR ''-''" "digit_char d \<noteq> CHR ''+''" "0 < d \<Longrightarrow> digit_char d \<noteq> CHR ''0''"
proof -
  have n: "of_char (digit_char d) = 48 + d" using assms by (simp add: of_digit_char)
  show "\<not> is_space (digit_char d)" using n by (simp add: is_space_def)
  show "digit_char d \<noteq> CHR ''-''" "digit_char d \<noteq> CHR ''+''" using n by auto
  show "digit_char d \<noteq> CHR ''0''" if "0 < d" using n that by auto
qed

lemma ParseULL_dec: "n < u64_mod \<Longrightarrow> ParseULL (dec n) = Some n"
proof (cases "n = 0")
  case True
  then show ?thesis
    by (simp add: print_base.simps [of 10 0] digit_char_simps ParseULL_def stoull_def is_space_def take_base_def digit_of_def u64_mod_def)
next
  case False
  assume n: "n < u64_mod"
  obtain d t where d: "0 < d" "d < 10" "dec n = digit_char d # t" using dec_head [OF False] by blast
  note p = digit_char_plain [OF d(2)] digit_char_plain(4) [OF d(2,1)]
  have start: "take_sign (dropWhile is_space (dec n)) = (False, dec n)" "take_base (dec n) = (10, dec n)"
    using p by (auto simp: d(3) take_base_def split: list.split)
  have "read_digits 10 0 (dec n) = (n, [])"
    using read_digits_append [OF dec_digits, of 0 n] read_print_base [of 10 n] by (simp add: read_base_def)
  then show ?thesis using n by (simp add: ParseULL_def stoull_def start)
qed

section \<open>The workers end\<close>

lemma move_fields [simp]:
  "pr_client (move j pc r) = pr_client r" "pr_next_idx (move j pc r) = pr_next_idx r" "pr_ok (move j pc r) = pr_ok r"
  "pr_fail_count (move j pc r) = pr_fail_count r" "pr_first_err (move j pc r) = pr_first_err r" "pr_log (move j pc r) = pr_log r"
  "pr_workers (move j pc r) = (pr_workers r)[j := pc]"
  by (simp_all add: move_def)

lemma note_error_fields [simp]:
  "pr_client (note_error e r) = pr_client r" "pr_next_idx (note_error e r) = pr_next_idx r" "pr_ok (note_error e r) = pr_ok r"
  "pr_fail_count (note_error e r) = pr_fail_count r" "pr_log (note_error e r) = pr_log r" "pr_workers (note_error e r) = pr_workers r"
  by (simp_all add: note_error_def)

fun put_weight :: "put_worker \<Rightarrow> nat" where
  "put_weight PReturned = 0" | "put_weight PFetch = 1" | "put_weight PBegin = 2" | "put_weight (PStore i w) = 2" | "put_weight (PErr i e) = 2"
| "put_weight (PLoad i) = 3" | "put_weight (PCount i e) = 3" | "put_weight (PPut i) = 4"

definition put_measure :: "nat \<Rightarrow> 'w PutRun \<Rightarrow> nat" where
  "put_measure n r = 4 * (n - pr_next_idx r) + sum_list (map put_weight (pr_workers r))"

lemma sum_list_move:
  "j < length ws \<Longrightarrow> sum_list (map f (ws[j := pc])) + f (ws ! j) = sum_list (map f ws) + (f pc :: nat)"
  by (induction ws arbitrary: j) (auto simp: nth_Cons split: nat.splits)

definition counts_or_notes :: "(nat \<Rightarrow> ClientError \<Rightarrow> put_worker) \<Rightarrow> bool" where
  "counts_or_notes on_fail \<longleftrightarrow> on_fail = PCount \<or> on_fail = PErr"

lemma put_measure_move:
  assumes "j < length (pr_workers r)" "pr_workers r1 = pr_workers r"
    and "4 * (n - pr_next_idx r1) + put_weight pc < 4 * (n - pr_next_idx r) + put_weight (pr_workers r ! j)"
  shows "put_measure n (move j pc r1) < put_measure n r"
  using sum_list_move [OF assms(1), of put_weight pc] assms(2,3) by (simp add: put_measure_def)

lemma put_step_decreases:
  assumes "put_step on_fail put n r r'" "counts_or_notes on_fail"
  shows "put_measure n r' < put_measure n r"
  using assms by (auto elim!: put_step.cases intro!: put_measure_move simp: stands_def counts_or_notes_def)

lemma put_step_wf: "counts_or_notes on_fail \<Longrightarrow> wfP (\<lambda>r' r. put_step on_fail put n r r')"
  by (rule wfp_if_convertible_to_nat [where f = "put_measure n"]) (rule put_step_decreases)

lemma put_not_returned_steps:
  assumes "\<not> all_returned r"
  shows "\<exists>r'. put_step on_fail put n r r'"
proof -
  obtain j pc where j: "stands j pc r" "pc \<noteq> PReturned" using assms by (auto simp: all_returned_def stands_def in_set_conv_nth)
  show ?thesis
  proof (cases pc)
    case (PPut i)
    obtain x c where "run_state (put i) (pr_client r) = (x, c)" by fastforce
    then show ?thesis using put_step.put_ok [of j i r put] put_step.put_fails [of j i r put] j(1) PPut by (cases x) blast+
  qed (use j in \<open>blast intro: put_step.intros\<close>)+
qed

lemma put_runs_to_end:
  assumes "counts_or_notes on_fail"
  shows "\<exists>r'. (put_step on_fail put n)\<^sup>*\<^sup>* r r' \<and> all_returned r'"
proof (induction r rule: wfp_induct_rule [OF put_step_wf [OF assms, of put n]])
  case (1 r)
  show ?case
  proof (cases "all_returned r")
    case False
    then obtain r1 where r1: "put_step on_fail put n r r1" using put_not_returned_steps by blast
    from 1 [OF r1] show ?thesis using r1 by (meson converse_rtranclp_into_rtranclp)
  qed blast
qed

section \<open>Every index once\<close>

fun claimed :: "put_worker \<Rightarrow> nat list" where
  "claimed (PPut i) = [i]" | "claimed pc = []"

definition claims :: "put_worker list \<Rightarrow> nat multiset" where
  "claims ws = mset (concat (map claimed ws))"

lemma claims_split:
  assumes "j < length ws"
  obtains M where "claims ws = M + mset (claimed (ws ! j))" "\<And>pc. claims (ws[j := pc]) = M + mset (claimed pc)"
proof -
  have "claims ws = (claims (take j ws) + claims (drop (Suc j) ws)) + mset (claimed (ws ! j))"
    using assms by (subst id_take_nth_drop [OF assms]) (simp add: claims_def)
  moreover have "claims (ws[j := pc]) = (claims (take j ws) + claims (drop (Suc j) ws)) + mset (claimed pc)" for pc
    using assms by (simp add: upd_conv_take_nth_drop claims_def)
  ultimately show ?thesis using that by blast
qed

text \<open>The PUTs made and those under way are the indices handed out, each once.\<close>

definition indices_ok :: "nat \<Rightarrow> 'w PutRun \<Rightarrow> bool" where
  "indices_ok n r \<longleftrightarrow> mset (map fst (pr_log r)) + claims (pr_workers r) = mset [0..<min (pr_next_idx r) n]"

lemma indices_move:
  assumes "stands j old r" "pr_workers r1 = pr_workers r"
    and "\<And>M. mset (map fst (pr_log r)) + M + mset (claimed old) = mset [0..<min (pr_next_idx r) n] \<Longrightarrow>
      mset (map fst (pr_log r1)) + M + mset (claimed pc) = mset [0..<min (pr_next_idx r1) n]"
    and "indices_ok n r"
  shows "indices_ok n (move j pc r1)"
proof -
  have j: "j < length (pr_workers r)" "pr_workers r ! j = old" using assms(1) by (auto simp: stands_def)
  obtain M where "claims (pr_workers r) = M + mset (claimed old)" "claims ((pr_workers r)[j := pc]) = M + mset (claimed pc)"
    using claims_split [OF j(1)] j(2) by metis
  then show ?thesis using assms(2-4) by (simp add: indices_ok_def ac_simps)
qed

lemma put_step_indices:
  assumes "put_step on_fail put n r r'" "counts_or_notes on_fail" "indices_ok n r"
  shows "indices_ok n r'"
  using assms(1,2)
  by cases (auto elim!: indices_move [OF _ _ _ assms(3)] simp: counts_or_notes_def min_def)

section \<open>What the flags and the counter say\<close>

text \<open>A flag that is set, in the vector or in the word a worker holds, belongs to a PUT that succeeded.\<close>

definition word_ok :: "(nat \<times> bool) list \<Rightarrow> nat \<Rightarrow> u64 \<Rightarrow> bool" where
  "word_ok lg q w \<longleftrightarrow> (\<forall>b<64. bit w b \<longrightarrow> (64 * q + b, True) \<in> set lg)"

fun worker_ok :: "nat \<Rightarrow> (nat \<times> bool) list \<Rightarrow> put_worker \<Rightarrow> bool" where
  "worker_ok n lg (PPut i) \<longleftrightarrow> i < n"
| "worker_ok n lg (PLoad i) \<longleftrightarrow> i < n \<and> (i, True) \<in> set lg"
| "worker_ok n lg (PStore i w) \<longleftrightarrow> i < n \<and> (i, True) \<in> set lg \<and> word_ok lg (i div 64) w"
| "worker_ok n lg pc \<longleftrightarrow> True"

definition flags_ok :: "nat \<Rightarrow> 'w PutRun \<Rightarrow> bool" where
  "flags_ok n r \<longleftrightarrow> length (pr_ok r) = (n + 63) div 64 \<and> (\<forall>q < length (pr_ok r). word_ok (pr_log r) q (pr_ok r ! q)) \<and>
     (\<forall>pc \<in> set (pr_workers r). worker_ok n (pr_log r) pc)"

lemma worker_ok_mono: "worker_ok n lg pc \<Longrightarrow> set lg \<subseteq> set lg' \<Longrightarrow> worker_ok n lg' pc"
  by (cases pc) (auto simp: word_ok_def)

lemma word_of_index: "i < n \<Longrightarrow> i div 64 < (n + 63) div (64::nat)"
  using div_le_mono [of "i + 64" "n + 63" 64] by simp

lemma flags_move:
  assumes "flags_ok n r" "pr_workers r1 = pr_workers r" "set (pr_log r) \<subseteq> set (pr_log r1)" "worker_ok n (pr_log r1) pc"
    and "length (pr_ok r1) = length (pr_ok r)" "\<And>q. q < length (pr_ok r) \<Longrightarrow> word_ok (pr_log r1) q (pr_ok r1 ! q)"
  shows "flags_ok n (move j pc r1)"
proof -
  have "worker_ok n (pr_log r1) p" if "p \<in> set ((pr_workers r)[j := pc])" for p
    using that assms(1,3,4) set_update_subset_insert [of "pr_workers r" j pc] worker_ok_mono [of n "pr_log r" p "pr_log r1"]
    by (auto simp: flags_ok_def)
  then show ?thesis using assms(1,2,5,6) by (simp add: flags_ok_def)
qed

lemma stored_word:
  assumes "(i, True) \<in> set lg" "word_ok lg (i div 64) w"
  shows "word_ok lg (i div 64) (set_bit (i mod 64) w)"
proof -
  have "64 * (i div 64) + i mod 64 = i" by simp
  then show ?thesis using assms by (auto simp: word_ok_def bit_set_bit_iff)
qed

lemma put_step_flags:
  assumes "put_step on_fail put n r r'" "counts_or_notes on_fail" "flags_ok n r"
  shows "flags_ok n r'"
proof -
  have words: "word_ok lg q (pr_ok r ! q)" if "q < length (pr_ok r)" "set (pr_log r) \<subseteq> set lg" for q lg
    using assms(3) that by (auto simp: flags_ok_def word_ok_def)
  have at: "worker_ok n (pr_log r) pc" if "stands j pc r" for j pc
    using assms(3) that by (auto simp: flags_ok_def stands_def)
  have len: "length (pr_ok r) = (n + 63) div 64" using assms(3) by (simp add: flags_ok_def)
  show ?thesis
    using assms(1)
  proof cases
    case (store j i w)
    have w: "(i, True) \<in> set (pr_log r)" "word_ok (pr_log r) (i div 64) w" and "i div 64 < length (pr_ok r)"
      using at [OF store(2)] word_of_index [of i n] len by simp_all
    then show ?thesis unfolding store(1)
      by (intro flags_move [OF assms(3)]) (auto simp: nth_list_update words stored_word [OF w])
  next
    case (load j i)
    have "i div 64 < length (pr_ok r)" using at [OF load(2)] word_of_index [of i n] len by simp
    then show ?thesis unfolding load(1) using at [OF load(2)] words by (intro flags_move [OF assms(3)]) auto
  next
    case (put_fails j i e c)
    then show ?thesis using assms(2) by (auto simp: counts_or_notes_def intro!: flags_move [OF assms(3)] words)
  next
    case (put_ok j i v c)
    then show ?thesis using at [OF put_ok(2)] by (auto intro!: flags_move [OF assms(3)] words)
  qed (auto intro!: flags_move [OF assms(3)] words)
qed

lemma flag_of_success:
  assumes "flags_ok n r" "i < n" "bit_at (pr_ok r) i"
  shows "(i, True) \<in> set (pr_log r)"
proof -
  have "i div 64 < length (pr_ok r)" using assms(1) word_of_index [OF assms(2)] by (simp add: flags_ok_def)
  moreover have "64 * (i div 64) + i mod 64 = i" "i mod 64 < 64" by simp_all
  ultimately show ?thesis using assms(1,3) by (metis bit_at_def flags_ok_def word_ok_def)
qed

text \<open>The counter of the RDMA benchmark lags behind the failures by the workers that are about to count.\<close>

fun about_to_count :: "put_worker \<Rightarrow> nat" where
  "about_to_count (PCount i e) = 1" | "about_to_count pc = 0"

definition failures_ok :: "'w PutRun \<Rightarrow> bool" where
  "failures_ok r \<longleftrightarrow>
     pr_fail_count r + sum_list (map about_to_count (pr_workers r)) = length (filter (\<lambda>p. \<not> snd p) (pr_log r))"

lemma failures_move:
  assumes "failures_ok r" "stands j old r" "pr_workers r1 = pr_workers r"
    and "pr_fail_count r1 + about_to_count pc + length (filter (\<lambda>p. \<not> snd p) (pr_log r)) =
      pr_fail_count r + about_to_count old + length (filter (\<lambda>p. \<not> snd p) (pr_log r1))"
  shows "failures_ok (move j pc r1)"
  using sum_list_move [of j "pr_workers r" about_to_count pc] assms by (simp add: failures_ok_def stands_def)

lemma put_step_failures: "put_step PCount put n r r' \<Longrightarrow> failures_ok r \<Longrightarrow> failures_ok r'"
  by (erule put_step.cases) (auto elim!: failures_move)

text \<open>A worker returns when the indices are used up, or without its device, which leaves an error.\<close>

definition returns_ok :: "bool \<Rightarrow> nat \<Rightarrow> 'w PutRun \<Rightarrow> bool" where
  "returns_ok binds n r \<longleftrightarrow> (PReturned \<in> set (pr_workers r) \<longrightarrow> n \<le> pr_next_idx r \<or> binds \<and> pr_first_err r \<noteq> []) \<and>
     (\<not> binds \<longrightarrow> PBegin \<notin> set (pr_workers r))"

lemma returns_move:
  assumes "returns_ok binds n r" "pr_workers r1 = pr_workers r" "pr_next_idx r \<le> pr_next_idx r1"
    and "pr_first_err r \<noteq> [] \<longrightarrow> pr_first_err r1 \<noteq> []" "pc = PReturned \<longrightarrow> n \<le> pr_next_idx r1 \<or> binds \<and> pr_first_err r1 \<noteq> []" "pc \<noteq> PBegin"
  shows "returns_ok binds n (move j pc r1)"
  using assms set_update_subset_insert [of "pr_workers r" j pc] by (auto simp: returns_ok_def)

lemma put_step_returns:
  assumes "put_step on_fail put n r r'" "counts_or_notes on_fail" "returns_ok binds n r"
  shows "returns_ok binds n r'"
proof -
  have binds: "binds" if "stands j PBegin r" for j
    using assms(3) that nth_mem [of j "pr_workers r"] by (auto simp: returns_ok_def stands_def)
  from assms(1) show ?thesis
    by cases (use assms(2) in \<open>auto simp: counts_or_notes_def note_error_def intro!: returns_move [OF assms(3)] intro: binds\<close>)
qed

definition put_run_ok :: "bool \<Rightarrow> nat \<Rightarrow> 'w PutRun \<Rightarrow> bool" where
  "put_run_ok binds n r \<longleftrightarrow> indices_ok n r \<and> flags_ok n r \<and> returns_ok binds n r"

lemma put_run_init: "pc = PBegin \<and> binds \<or> pc = PFetch \<Longrightarrow> put_run_ok binds n (PutRun_init pc w n c)"
  by (auto simp: put_run_ok_def PutRun_init_def indices_ok_def flags_ok_def returns_ok_def claims_def bits_init_def word_ok_def)

lemma put_run_steps:
  "(put_step on_fail put n)\<^sup>*\<^sup>* r r' \<Longrightarrow> counts_or_notes on_fail \<Longrightarrow> put_run_ok binds n r \<Longrightarrow> put_run_ok binds n r'"
  by (induction rule: rtranclp_induct)
    (auto simp: put_run_ok_def intro: put_step_indices put_step_flags put_step_returns)

lemma put_steps_workers: "(put_step on_fail put n)\<^sup>*\<^sup>* r r' \<Longrightarrow> length (pr_workers r') = length (pr_workers r)"
  by (induction rule: rtranclp_induct) (auto elim!: put_step.cases)

lemma put_run_end:
  assumes "put_run_ok binds n r" "all_returned r" "pr_workers r \<noteq> []"
  shows "mset (map fst (pr_log r)) = mset [0..<min (pr_next_idx r) n]" "n \<le> pr_next_idx r \<or> binds \<and> pr_first_err r \<noteq> []"
    "\<And>i. i < n \<Longrightarrow> bit_at (pr_ok r) i \<Longrightarrow> (i, True) \<in> set (pr_log r)"
proof -
  have "claims (pr_workers r) = {#}" using assms(2) by (auto simp: all_returned_def claims_def)
  then show "mset (map fst (pr_log r)) = mset [0..<min (pr_next_idx r) n]" using assms(1) by (simp add: put_run_ok_def indices_ok_def)
  have "PReturned \<in> set (pr_workers r)" using assms(2,3) by (cases "pr_workers r") (auto simp: all_returned_def)
  then show "n \<le> pr_next_idx r \<or> binds \<and> pr_first_err r \<noteq> []" using assms(1) by (simp add: put_run_ok_def returns_ok_def)
  show "(i, True) \<in> set (pr_log r)" if "i < n" "bit_at (pr_ok r) i" for i
    using assms(1) that by (auto simp: put_run_ok_def intro: flag_of_success)
qed

section \<open>Properties\<close>

text \<open>The options are read back: an argument made of the name of a numeric option and the decimal form of a 64-bit number sets that option and nothing
  else.\<close>

theorem ParseArg_roundtrip:
  assumes "n < u64_mod"
  shows "ParseArg number_options (''--threads='' @ dec n) (a :: Args) = Some (a\<lparr>ar_threads := n\<rparr>)"
    "ParseArg number_options (''--count='' @ dec n) a = Some (a\<lparr>ar_count := n\<rparr>)"
    "ParseArg number_options (''--object-size='' @ dec n) a = Some (a\<lparr>ar_object_size := n\<rparr>)"
    "ParseArg number_options (''--warmup='' @ dec n) a = Some (a\<lparr>ar_warmup := n\<rparr>)"
    "ParseArg number_options (''--key-modulo='' @ dec n) a = Some (a\<lparr>ar_key_modulo := n\<rparr>)"
    "ParseArg number_options (''--seed='' @ dec n) a = Some (a\<lparr>ar_seed := n\<rparr>)"
  using ParseULL_dec [OF assms] by (simp_all add: ParseArg_def number_options_def eat_number_def eat_def)

text \<open>A modulus bounds the number of objects: the PUTs of indices that are equal modulo it overwrite one another, and without it every object of a run has a key of
  its own.\<close>

theorem bench_keys:
  "put_key (bench_request a i) = put_key (bench_request a j) \<longleftrightarrow> i mod key_mod a = j mod key_mod a"
  "0 < ar_count a \<Longrightarrow> card ((\<lambda>i. put_key (bench_request a i)) ` {..<ar_count a}) = min (ar_count a) (key_mod a)"
proof -
  show keys: "put_key (bench_request a i) = put_key (bench_request a j) \<longleftrightarrow> i mod key_mod a = j mod key_mod a" for i j
    by (simp add: bench_request_def)
  assume n: "0 < ar_count a"
  let ?key = "\<lambda>i. put_key (bench_request a i)" and ?m = "min (ar_count a) (key_mod a)"
  have m: "0 < key_mod a" using n by (simp add: key_mod_def)
  have "?key ` {..<ar_count a} = ?key ` {..<?m}"
  proof
    show "?key ` {..<ar_count a} \<subseteq> ?key ` {..<?m}"
    proof
      fix k assume "k \<in> ?key ` {..<ar_count a}"
      then obtain i where i: "i < ar_count a" "k = ?key i" by blast
      have "?key i = ?key (i mod key_mod a)" by (simp add: keys)
      moreover have "i mod key_mod a < ?m" using i(1) m by (simp add: le_less_trans [OF mod_less_eq_dividend])
      ultimately show "k \<in> ?key ` {..<?m}" using i(2) by blast
    qed
  qed auto
  moreover have "inj_on ?key {..<?m}" by (auto simp: inj_on_def keys)
  ultimately show "card (?key ` {..<ar_count a}) = ?m" by (simp add: card_image)
qed

text \<open>The measured phase of both benchmarks ends: no run of the workers is infinite, a run that is not at its end can go on, so the joins return.\<close>

theorem put_bench_terminates:
  assumes "on_fail = PCount \<or> on_fail = PErr"
  shows "wfP (\<lambda>r' r. put_step on_fail put n r r') \<and> (\<forall>r. all_returned r \<or> (\<exists>r'. put_step on_fail put n r r')) \<and>
    (\<exists>r. (put_step on_fail put n)\<^sup>*\<^sup>* (PutRun_init pc workers n c) r \<and> all_returned r)"
  using put_step_wf [of on_fail put n] put_not_returned_steps put_runs_to_end [of on_fail put n] assms
  by (auto simp: counts_or_notes_def)

text \<open>The RDMA benchmark puts every object exactly once, its counter is the number of PUTs that failed, and its exit
  status is 0 just when none did. A latency is recorded only for a PUT that succeeded.\<close>

theorem rdma_put_bench_accounts:
  assumes "rdma_measured put workers n c r" "0 < workers"
  shows "mset (map fst (pr_log r)) = mset [0..<n] \<and> pr_fail_count r = length (filter (\<lambda>p. \<not> snd p) (pr_log r)) \<and>
    (rdma_exit r = 0 \<longleftrightarrow> (\<forall>i<n. (i, True) \<in> set (pr_log r))) \<and> (\<forall>i \<in> set (recorded n r). (i, True) \<in> set (pr_log r))"
proof -
  note run = assms(1) [unfolded rdma_measured_def]
  have ok: "put_run_ok False n r"
    by (rule put_run_steps [OF conjunct1 [OF run]]) (simp_all add: counts_or_notes_def put_run_init)
  have ws: "pr_workers r \<noteq> []" using put_steps_workers [OF conjunct1 [OF run]] assms(2) by (auto simp: PutRun_init_def)
  note fin = put_run_end [OF ok conjunct2 [OF run] ws]
  have "failures_ok r" using conjunct1 [OF run]
    by (induction rule: rtranclp_induct) (auto simp: failures_ok_def PutRun_init_def sum_list_replicate intro: put_step_failures [unfolded failures_ok_def])
  moreover have "map about_to_count (pr_workers r) = map (\<lambda>_. 0) (pr_workers r)" using run by (auto simp: all_returned_def)
  ultimately have count: "pr_fail_count r = length (filter (\<lambda>p. \<not> snd p) (pr_log r))" by (simp add: failures_ok_def sum_list_triv)
  have idx: "mset (map fst (pr_log r)) = mset [0..<n]" using fin(1,2) by (simp add: min_def)
  then have dist: "distinct (map fst (pr_log r))" and idxs: "fst ` set (pr_log r) = {..<n}"
    by (metis distinct_upt mset_eq_imp_distinct_iff, metis atLeast_upt lessThan_atLeast0 list.set_map mset_eq_setD)
  have "pr_fail_count r = 0 \<longleftrightarrow> (\<forall>p \<in> set (pr_log r). snd p)" by (simp add: count filter_empty_conv)
  also have "\<dots> \<longleftrightarrow> (\<forall>i<n. (i, True) \<in> set (pr_log r))"
  proof
    assume "\<forall>p \<in> set (pr_log r). snd p"
    then show "\<forall>i<n. (i, True) \<in> set (pr_log r)" using idxs by (force simp: image_iff set_eq_iff)
  next
    assume all: "\<forall>i<n. (i, True) \<in> set (pr_log r)"
    have "b" if "(i, b) \<in> set (pr_log r)" for i b
      using eq_key_imp_eq_value [OF dist that, of True] all idxs imageI [OF that, of fst] by simp
    then show "\<forall>p \<in> set (pr_log r). snd p" by auto
  qed
  finally show ?thesis using count idx fin(3) by (auto simp: rdma_exit_def recorded_def)
qed

text \<open>The GDS benchmark puts no object twice; every object is put unless an error is noted; and exit status 0 means that every
  PUT was made and succeeded.\<close>

theorem gds_put_bench_sound:
  assumes "gds_measured put pool_size n c r" "0 < pool_size"
  shows "distinct (map fst (pr_log r)) \<and> (mset (map fst (pr_log r)) = mset [0..<n] \<or> pr_first_err r \<noteq> []) \<and>
    (gds_exit n r = 0 \<longrightarrow> (\<forall>i<n. (i, True) \<in> set (pr_log r)))"
proof -
  note run = assms(1) [unfolded gds_measured_def]
  have ok: "put_run_ok True n r"
    by (rule put_run_steps [OF conjunct1 [OF run]]) (simp_all add: counts_or_notes_def put_run_init)
  have ws: "pr_workers r \<noteq> []" using put_steps_workers [OF conjunct1 [OF run]] assms(2) by (auto simp: PutRun_init_def)
  note fin = put_run_end [OF ok conjunct2 [OF run] ws]
  have "distinct (map fst (pr_log r))" using fin(1) by (metis distinct_upt mset_eq_imp_distinct_iff)
  moreover have "mset (map fst (pr_log r)) = mset [0..<n] \<or> pr_first_err r \<noteq> []" using fin(1,2) by (auto simp: min_def)
  moreover have "\<forall>i<n. (i, True) \<in> set (pr_log r)" if "gds_exit n r = 0"
    using that fin(3) by (auto simp: gds_exit_def gds_failed_def filter_empty_conv split: if_splits)
  ultimately show ?thesis by blast
qed

section \<open>Two races\<close>

text \<open>Two workers that finish at the same time can each read the word of their flags before the other has written it.\<close>

abbreviation two_workers :: "'w ClientState \<Rightarrow> nat \<Rightarrow> u64 \<Rightarrow> put_worker \<Rightarrow> put_worker \<Rightarrow> (nat \<times> bool) list \<Rightarrow> 'w PutRun" where
  "two_workers cl next_idx w p q lg \<equiv>
     \<lparr>pr_client = cl, pr_next_idx = next_idx, pr_ok = [w], pr_fail_count = 0, pr_first_err = [], pr_workers = [p, q], pr_log = lg\<rparr>"

lemmas run_simps = stands_def move_def set_bit_eq_or

lemma lost_flag_run:
  assumes "\<forall>i s. \<exists>v s'. run_state (put i) s = (Inr v, s')"
  shows "\<exists>c'. (put_step on_fail put 2)\<^sup>*\<^sup>* (PutRun_init PFetch 2 2 c) (two_workers c' 4 2 PReturned PReturned [(0, True), (1, True)])"
proof -
  let ?S = "put_step on_fail put 2"
  obtain v1 c1 v2 c2 where put: "run_state (put 0) c = (Inr v1, c1)" "run_state (put 1) c1 = (Inr v2, c2)" using assms by metis
  have init: "PutRun_init PFetch 2 2 c = two_workers c 0 0 PFetch PFetch []"
    by (simp add: PutRun_init_def bits_init_def numeral_2_eq_2)
  have "?S\<^sup>*\<^sup>* (two_workers c 0 0 PFetch PFetch []) (two_workers c 0 0 PFetch PFetch [])" by simp
  also have "?S (two_workers c 0 0 PFetch PFetch []) (two_workers c 1 0 (PPut 0) PFetch [])"
    using put_step.fetch [of 0 "two_workers c 0 0 PFetch PFetch []" on_fail put 2] by (simp add: run_simps eval_nat_numeral)
  also have "?S (two_workers c 1 0 (PPut 0) PFetch []) (two_workers c 2 0 (PPut 0) (PPut 1) [])"
    using put_step.fetch [of 1 "two_workers c 1 0 (PPut 0) PFetch []" on_fail put 2] by (simp add: run_simps eval_nat_numeral)
  also have "?S (two_workers c 2 0 (PPut 0) (PPut 1) []) (two_workers c1 2 0 (PLoad 0) (PPut 1) [(0, True)])"
    using put_step.put_ok [of 0 0 "two_workers c 2 0 (PPut 0) (PPut 1) []" put _ _ on_fail 2] put(1) by (simp add: run_simps)
  also have "?S (two_workers c1 2 0 (PLoad 0) (PPut 1) [(0, True)]) (two_workers c2 2 0 (PLoad 0) (PLoad 1) [(0, True), (1, True)])"
    using put_step.put_ok [of 1 1 "two_workers c1 2 0 (PLoad 0) (PPut 1) [(0, True)]" put _ _ on_fail 2] put(2) by (simp add: run_simps)
  also have "?S (two_workers c2 2 0 (PLoad 0) (PLoad 1) [(0, True), (1, True)]) (two_workers c2 2 0 (PStore 0 0) (PLoad 1) [(0, True), (1, True)])"
    using put_step.load [of 0 0 "two_workers c2 2 0 (PLoad 0) (PLoad 1) [(0, True), (1, True)]" on_fail put 2] by (simp add: run_simps)
  also have "?S (two_workers c2 2 0 (PStore 0 0) (PLoad 1) [(0, True), (1, True)]) (two_workers c2 2 0 (PStore 0 0) (PStore 1 0) [(0, True), (1, True)])"
    using put_step.load [of 1 1 "two_workers c2 2 0 (PStore 0 0) (PLoad 1) [(0, True), (1, True)]" on_fail put 2] by (simp add: run_simps)
  also have "?S (two_workers c2 2 0 (PStore 0 0) (PStore 1 0) [(0, True), (1, True)]) (two_workers c2 2 1 PFetch (PStore 1 0) [(0, True), (1, True)])"
    using put_step.store [of 0 0 0 "two_workers c2 2 0 (PStore 0 0) (PStore 1 0) [(0, True), (1, True)]" on_fail put 2] by (simp add: run_simps)
  also have "?S (two_workers c2 2 1 PFetch (PStore 1 0) [(0, True), (1, True)]) (two_workers c2 2 2 PFetch PFetch [(0, True), (1, True)])"
    using put_step.store [of 1 1 0 "two_workers c2 2 1 PFetch (PStore 1 0) [(0, True), (1, True)]" on_fail put 2] by (simp add: run_simps)
  also have "?S (two_workers c2 2 2 PFetch PFetch [(0, True), (1, True)]) (two_workers c2 3 2 PReturned PFetch [(0, True), (1, True)])"
    using put_step.fetch [of 0 "two_workers c2 2 2 PFetch PFetch [(0, True), (1, True)]" on_fail put 2] by (simp add: run_simps eval_nat_numeral)
  also have "?S (two_workers c2 3 2 PReturned PFetch [(0, True), (1, True)]) (two_workers c2 4 2 PReturned PReturned [(0, True), (1, True)])"
    using put_step.fetch [of 1 "two_workers c2 3 2 PReturned PFetch [(0, True), (1, True)]" on_fail put 2] by (simp add: run_simps eval_nat_numeral)
  finally show ?thesis unfolding init by blast
qed

lemma devices_bound: "(put_step on_fail put n)\<^sup>*\<^sup>* (PutRun_init PBegin 2 n c) (PutRun_init PFetch 2 n c)"
proof -
  let ?r = "\<lambda>p q. \<lparr>pr_client = c, pr_next_idx = 0, pr_ok = bits_init n, pr_fail_count = 0, pr_first_err = [], pr_workers = [p, q], pr_log = []\<rparr>"
  have init: "PutRun_init PBegin 2 n c = ?r PBegin PBegin" "PutRun_init PFetch 2 n c = ?r PFetch PFetch"
    by (simp_all add: PutRun_init_def numeral_2_eq_2)
  have "put_step on_fail put n (?r PBegin PBegin) (?r PFetch PBegin)" "put_step on_fail put n (?r PFetch PBegin) (?r PFetch PFetch)"
    using put_step.device [of 0 "?r PBegin PBegin"] put_step.device [of 1 "?r PFetch PBegin"] by (simp_all add: run_simps)
  then show ?thesis unfolding init by (meson converse_rtranclp_into_rtranclp rtranclp.rtrancl_refl)
qed

text \<open>Both PUTs of a run succeed, yet one flag is lost: the GDS benchmark reports a failure and exits with status 1, and the RDMA benchmark
  exits with status 0 but records one latency for two PUTs, so that its throughput is too low.\<close>

theorem put_bench_loses_flag:
  assumes "\<forall>i s. \<exists>v s'. run_state (put i) s = (Inr v, s')"
  shows "(\<exists>r. gds_measured put 2 2 c r \<and> pr_log r = [(0, True), (1, True)] \<and> gds_exit 2 r = 1) \<and>
    (\<exists>r. rdma_measured put 2 2 c r \<and> pr_log r = [(0, True), (1, True)] \<and> rdma_exit r = 0 \<and> recorded 2 r = [1])"
proof -
  let ?fin = "\<lambda>c'. two_workers c' 4 2 PReturned PReturned [(0, True), (1, True)]"
  have flags: "[0..<2] = [0, Suc 0]" "\<not> bit (2::u64) 0" "bit (2::u64) (Suc 0)" by (simp_all add: upt_rec numeral_2_eq_2 bit_simps)
  obtain c1 c2 where "(put_step PErr put 2)\<^sup>*\<^sup>* (PutRun_init PBegin 2 2 c) (?fin c1)" "(put_step PCount put 2)\<^sup>*\<^sup>* (PutRun_init PFetch 2 2 c) (?fin c2)"
    using lost_flag_run [OF assms, of PErr c] lost_flag_run [OF assms, of PCount c] devices_bound [of PErr put 2 c] by (meson rtranclp_trans)
  then have "gds_measured put 2 2 c (?fin c1)" "rdma_measured put 2 2 c (?fin c2)"
    by (simp_all add: gds_measured_def rdma_measured_def all_returned_def)
  moreover have "gds_exit 2 (?fin c1) = 1" "rdma_exit (?fin c2) = 0" "recorded 2 (?fin c2) = [1]"
    using flags by (simp_all add: gds_exit_def gds_failed_def rdma_exit_def recorded_def bit_at_def)
  ultimately show ?thesis by (metis (no_types, lifting) PutRun.select_convs(7))
qed

text \<open>The device buffer of a PUT is that of its index modulo the number of workers. With two workers the PUTs of objects 0 and 2
  can be under way at the same time, and both read the first buffer.\<close>

theorem put_bench_shares_buffer:
  assumes "\<forall>i s. \<exists>v s'. run_state (put i) s = (Inr v, s')"
  shows "\<exists>r. (put_step PErr put 3)\<^sup>*\<^sup>* (PutRun_init PBegin 2 3 c) r \<and> pr_workers r = [PPut 0, PPut 2] \<and> (0::nat) mod 2 = 2 mod 2"
proof -
  let ?S = "put_step PErr put 3"
  obtain v c1 where put: "run_state (put 1) c = (Inr v, c1)" using assms by metis
  have init: "PutRun_init PFetch 2 3 c = two_workers c 0 0 PFetch PFetch []"
    by (simp add: PutRun_init_def bits_init_def numeral_2_eq_2)
  have "?S\<^sup>*\<^sup>* (two_workers c 0 0 PFetch PFetch []) (two_workers c 0 0 PFetch PFetch [])" by simp
  also have "?S (two_workers c 0 0 PFetch PFetch []) (two_workers c 1 0 (PPut 0) PFetch [])"
    using put_step.fetch [of 0 "two_workers c 0 0 PFetch PFetch []" PErr put 3] by (simp add: run_simps eval_nat_numeral)
  also have "?S (two_workers c 1 0 (PPut 0) PFetch []) (two_workers c 2 0 (PPut 0) (PPut 1) [])"
    using put_step.fetch [of 1 "two_workers c 1 0 (PPut 0) PFetch []" PErr put 3] by (simp add: run_simps eval_nat_numeral)
  also have "?S (two_workers c 2 0 (PPut 0) (PPut 1) []) (two_workers c1 2 0 (PPut 0) (PLoad 1) [(1, True)])"
    using put_step.put_ok [of 1 1 "two_workers c 2 0 (PPut 0) (PPut 1) []" put _ _ PErr 3] put by (simp add: run_simps)
  also have "?S (two_workers c1 2 0 (PPut 0) (PLoad 1) [(1, True)]) (two_workers c1 2 0 (PPut 0) (PStore 1 0) [(1, True)])"
    using put_step.load [of 1 1 "two_workers c1 2 0 (PPut 0) (PLoad 1) [(1, True)]" PErr put 3] by (simp add: run_simps)
  also have "?S (two_workers c1 2 0 (PPut 0) (PStore 1 0) [(1, True)]) (two_workers c1 2 2 (PPut 0) PFetch [(1, True)])"
    using put_step.store [of 1 1 0 "two_workers c1 2 0 (PPut 0) (PStore 1 0) [(1, True)]" PErr put 3] by (simp add: run_simps)
  also have "?S (two_workers c1 2 2 (PPut 0) PFetch [(1, True)]) (two_workers c1 3 2 (PPut 0) (PPut 2) [(1, True)])"
    using put_step.fetch [of 1 "two_workers c1 2 2 (PPut 0) PFetch [(1, True)]" PErr put 3] by (simp add: run_simps eval_nat_numeral)
  finally show ?thesis using rtranclp_trans [OF devices_bound [of PErr put 3 c, unfolded init]] by fastforce
qed

end
