(* ===== verification/Part_Split.thy ===== *)
theory Part_Split
  imports Client_Multipart
begin

text \<open>
  The division of an object into parts as the multipart programs make it (\<^verbatim>\<open>bench/gds_multipart_bench.cpp\<close>,
  \<^verbatim>\<open>bench/rdma_multipart_bench.cpp\<close>, \<^verbatim>\<open>examples/gds/gds_multipart_example.cpp\<close>): \<^verbatim>\<open>sz\<close> bytes in parts of \<^verbatim>\<open>part\<close> bytes, each part in a
  buffer of its own.
\<close>

definition num_parts :: "nat \<Rightarrow> nat \<Rightarrow> nat" where
  "num_parts sz part = u64_sub (u64_add sz part) 1 div part"

definition part_off :: "nat \<Rightarrow> nat \<Rightarrow> nat" where
  "part_off part i = (i * part) mod u64_mod"

definition part_len :: "nat \<Rightarrow> nat \<Rightarrow> nat \<Rightarrow> nat" where
  "part_len sz part i = min part (u64_sub sz (part_off part i))"

definition part_specs :: "nat \<Rightarrow> nat \<Rightarrow> BufferType \<Rightarrow> nat list \<Rightarrow> PartSpec list" where
  "part_specs sz part kind bufs =
     map (\<lambda>i. \<lparr>ps_part_number = (i + 1) mod 2 ^ 32, ps_object_offset = part_off part i,
              ps_buffer = \<lparr>bv_data = bufs ! i, bv_size = part_len sz part i, bv_type = kind\<rparr>\<rparr>) [0..<num_parts sz part]"

text \<open>Sizes whose sum stays within 64 bits.\<close>

definition sizes_ok :: "nat \<Rightarrow> nat \<Rightarrow> bool" where
  "sizes_ok sz part \<longleftrightarrow> 0 < sz \<and> 0 < part \<and> sz + part < u64_mod"

lemma num_parts_ceil:
  assumes "sizes_ok sz part"
  shows "num_parts sz part = (sz + part - 1) div part" "0 < num_parts sz part"
    "(num_parts sz part - 1) * part < sz" "sz \<le> num_parts sz part * part"
proof -
  have p: "0 < part" "0 < sz" "sz + part < u64_mod" using assms by (simp_all add: sizes_ok_def)
  show n: "num_parts sz part = (sz + part - 1) div part" using p by (simp add: num_parts_def u64_add_def u64_sub_exact)
  have "part \<le> sz + part - 1" using p by simp
  then show pos: "0 < num_parts sz part" using p n by (simp add: div_greater_zero_iff)
  have "num_parts sz part * part \<le> sz + part - 1" unfolding n by (simp add: div_times_less_eq_dividend)
  moreover have "num_parts sz part * part = (num_parts sz part - 1) * part + part" using pos by (metis Suc_diff_1 add.commute mult_Suc)
  ultimately show "(num_parts sz part - 1) * part < sz" using p by linarith
  have "sz + part - 1 < num_parts sz part * part + part"
    unfolding n using dividend_less_div_times [OF p(1), of "sz + part - 1"] by linarith
  then show "sz \<le> num_parts sz part * part" using p by linarith
qed

lemma part_extent:
  assumes "sizes_ok sz part" "i < num_parts sz part"
  shows "part_off part i = i * part" "part_off part i < sz" "part_len sz part i = min part (sz - i * part)"
    "0 < part_len sz part i" "part_len sz part i \<le> part" "part_off part i + part_len sz part i \<le> sz"
proof -
  have p: "0 < part" "sz < u64_mod" using assms(1) by (simp_all add: sizes_ok_def)
  have "i * part \<le> (num_parts sz part - 1) * part" using assms(2) by (intro mult_le_mono1) simp
  then have lt: "i * part < sz" using num_parts_ceil(3) [OF assms(1)] by linarith
  show off: "part_off part i = i * part" using lt p by (simp add: part_off_def)
  show "part_off part i < sz" using off lt by simp
  show len: "part_len sz part i = min part (sz - i * part)" using off lt p by (simp add: part_len_def u64_sub_exact)
  show "0 < part_len sz part i" "part_len sz part i \<le> part" "part_off part i + part_len sz part i \<le> sz" using len lt p off by simp_all
qed

lemma parts_before:
  assumes "sizes_ok sz part" "k \<le> num_parts sz part"
  shows "(\<Sum>i\<leftarrow>[0..<k]. part_len sz part i) = min sz (k * part)"
  using assms(2)
proof (induction k)
  case (Suc k)
  then have "(\<Sum>i\<leftarrow>[0..<Suc k]. part_len sz part i) = k * part + min part (sz - k * part)"
    using part_extent [OF assms(1), of k] by simp
  also have "\<dots> = min sz (Suc k * part)" using part_extent(1,2) [OF assms(1), of k] Suc.prems by (auto simp: min_def)
  finally show ?case .
qed simp

lemma length_part_specs [simp]: "length (part_specs sz part kind bufs) = num_parts sz part"
  by (simp add: part_specs_def)

text \<open>The parts are numbered from 1, start where the parts before them end, are not empty and no larger than the part
  size, and their sizes add up to the object.\<close>

theorem part_specs_cover:
  assumes "sizes_ok sz part" "num_parts sz part < 2 ^ 32"
  shows "let ps = part_specs sz part kind bufs in
    map ps_part_number ps = [1..<length ps + 1] \<and> (\<Sum>p\<leftarrow>ps. bv_size (ps_buffer p)) = sz \<and> ps \<noteq> [] \<and>
    (\<forall>i<length ps. ps_object_offset (ps ! i) = (\<Sum>p\<leftarrow>take i ps. bv_size (ps_buffer p)) \<and>
       0 < bv_size (ps_buffer (ps ! i)) \<and> bv_size (ps_buffer (ps ! i)) \<le> part \<and>
       (i + 1 < length ps \<longrightarrow> bv_size (ps_buffer (ps ! i)) = part))"
proof -
  let ?ps = "part_specs sz part kind bufs"
  have len: "length ?ps = num_parts sz part" by simp
  have sizes: "map (\<lambda>p. bv_size (ps_buffer p)) (take i ?ps) = map (part_len sz part) [0..<i]" if "i \<le> num_parts sz part" for i
    using that by (simp add: part_specs_def take_map)
  have numbers: "map ps_part_number ?ps = [1..<length ?ps + 1]"
    using assms(2) by (intro nth_equalityI) (auto simp: part_specs_def simp del: upt_Suc)
  have sum: "(\<Sum>p\<leftarrow>?ps. bv_size (ps_buffer p)) = sz"
    using sizes [of "num_parts sz part"] parts_before [OF assms(1), of "num_parts sz part"] num_parts_ceil(4) [OF assms(1)] by simp
  have each: "ps_object_offset (?ps ! i) = (\<Sum>p\<leftarrow>take i ?ps. bv_size (ps_buffer p)) \<and>
       0 < bv_size (ps_buffer (?ps ! i)) \<and> bv_size (ps_buffer (?ps ! i)) \<le> part \<and>
       (i + 1 < length ?ps \<longrightarrow> bv_size (ps_buffer (?ps ! i)) = part)" if "i < length ?ps" for i
  proof -
    have i: "i < num_parts sz part" using that len by simp
    note e = part_extent [OF assms(1) i]
    have "part_len sz part i = part" if "i + 1 < num_parts sz part"
      using e(3) part_extent(1,2) [OF assms(1) that] by (simp add: min_def)
    moreover have "(\<Sum>p\<leftarrow>take i ?ps. bv_size (ps_buffer p)) = i * part"
      using sizes [of i] parts_before [OF assms(1), of i] i e(1,2) by simp
    ultimately show ?thesis using e i len by (simp add: part_specs_def)
  qed
  show ?thesis using numbers sum each num_parts_ceil(2) [OF assms(1)] by (auto simp: Let_def)
qed

end
