(* ===== verification/Bench_Multipart.thy ===== *)
theory Bench_Multipart
  imports Bench_Put Part_Split Multipart_Availability
begin

text \<open>
  The multipart benchmarks \<^verbatim>\<open>bench/gds_multipart_bench.cpp\<close> and \<^verbatim>\<open>bench/rdma_multipart_bench.cpp\<close>: the command line, the division of an
  object into parts, one upload through the public operations of the client, and the warm-up and measured rounds with the exit status. The
  buffers of the parts are given by their addresses. Allocation, registration and release of the buffers, time stamps and
  statistics are not modelled.
\<close>

section \<open>The command line\<close>

record MultipartArgs = Args +
  ma_part_size :: nat

definition gds_mp_Args :: MultipartArgs where
  "gds_mp_Args =
     \<lparr>ar_endpoint = [], ar_threads = 0, ar_count = 4, ar_object_size = 32 * 1024 * 1024, ar_warmup = 1, ar_key_modulo = 0,
      ar_bucket = ''us3-bench'', ar_key_prefix = ''bench/gds-mp/'', ar_seed = 0xC0FFEE, ma_part_size = 8 * 1024 * 1024\<rparr>"

definition rdma_mp_Args :: MultipartArgs where
  "rdma_mp_Args =
     \<lparr>ar_endpoint = [], ar_threads = 0, ar_count = 4, ar_object_size = 32 * 1024 * 1024, ar_warmup = 1, ar_key_modulo = 0,
      ar_bucket = ''us3-bench'', ar_key_prefix = ''bench/rdma-mp/'', ar_seed = 0xC0FFEE, ma_part_size = 8 * 1024 * 1024\<rparr>"

definition mp_number_options :: "(string \<times> (nat \<Rightarrow> MultipartArgs \<Rightarrow> MultipartArgs)) list" where
  "mp_number_options = take 3 number_options @ [(''--part-size='', \<lambda>n a. a\<lparr>ma_part_size := n\<rparr>)] @ drop 3 number_options"

definition mp_ParseArgs :: "string list \<Rightarrow> MultipartArgs \<Rightarrow> MultipartArgs option" where
  "mp_ParseArgs argv a =
     (case parse_loop mp_number_options argv a of
        None \<Rightarrow> None
      | Some a \<Rightarrow>
          if ar_endpoint a = [] then None
          else if ar_count a = 0 \<or> ar_object_size a = 0 \<or> ma_part_size a = 0 then None else Some a)"

section \<open>Uploads\<close>

abbreviation bench_parts :: "MultipartArgs \<Rightarrow> nat" where
  "bench_parts a \<equiv> num_parts (ar_object_size a) (ma_part_size a)"

definition bench_specs :: "MultipartArgs \<Rightarrow> BufferType \<Rightarrow> nat list \<Rightarrow> PartSpec list" where
  "bench_specs a kind bufs = part_specs (ar_object_size a) (ma_part_size a) kind bufs"

definition concurrency_of :: "MultipartArgs \<Rightarrow> nat" where
  "concurrency_of a = (if ar_threads a > 0 then ar_threads a else 4)"

text \<open>\<^verbatim>\<open>UploadOne\<close>, with the destructor of the handle on every return. \<^verbatim>\<open>StartUpload\<close> fills the handle whenever its status is a success: no error the
  client makes has the code \<^verbatim>\<open>kSuccess\<close>.\<close>

inductive UploadOne ::
  "'w Platform \<Rightarrow> ClientCore \<Rightarrow> BufferType \<Rightarrow> nat list \<Rightarrow> MultipartArgs \<Rightarrow> string \<Rightarrow> 'w ClientState \<Rightarrow> bool \<Rightarrow> 'w ClientState \<Rightarrow> bool"
  for pf core kind bufs a key where
  start_fails: "run_state (Client_StartUpload pf core (ar_bucket a) key False (ar_object_size a) []) c = ((st, h), c1) \<Longrightarrow> \<not> st_ok st \<Longrightarrow>
    run_state (MultipartUpload_destruct h) c1 = ((), c2) \<Longrightarrow> UploadOne pf core kind bufs a key c False c2"
| parts_fail: "run_state (Client_StartUpload pf core (ar_bucket a) key False (ar_object_size a) []) c = ((st, Some u), c1) \<Longrightarrow> st_ok st \<Longrightarrow>
    UploadParts (bench_specs a kind bufs) (min (concurrency_of a) (bench_parts a)) u c1 (Inl e) u1 c2 \<Longrightarrow>
    run_state (MultipartUpload_destruct (Some u1)) c2 = ((), c3) \<Longrightarrow> UploadOne pf core kind bufs a key c False c3"
| complete_fails: "run_state (Client_StartUpload pf core (ar_bucket a) key False (ar_object_size a) []) c = ((st, Some u), c1) \<Longrightarrow> st_ok st \<Longrightarrow>
    UploadParts (bench_specs a kind bufs) (min (concurrency_of a) (bench_parts a)) u c1 (Inr outs) u1 c2 \<Longrightarrow>
    run_state (MultipartUpload_Complete u1) c2 = ((Inl e, u2), c3) \<Longrightarrow>
    run_state (MultipartUpload_destruct (Some u2)) c3 = ((), c4) \<Longrightarrow> UploadOne pf core kind bufs a key c False c4"
| uploaded: "run_state (Client_StartUpload pf core (ar_bucket a) key False (ar_object_size a) []) c = ((st, Some u), c1) \<Longrightarrow> st_ok st \<Longrightarrow>
    UploadParts (bench_specs a kind bufs) (min (concurrency_of a) (bench_parts a)) u c1 (Inr outs) u1 c2 \<Longrightarrow>
    run_state (MultipartUpload_Complete u1) c2 = ((Inr res, u2), c3) \<Longrightarrow>
    run_state (MultipartUpload_destruct (Some u2)) c3 = ((), c4) \<Longrightarrow> UploadOne pf core kind bufs a key c True c4"

text \<open>The warm-up ends at the first failure; the measured rounds go on and count it.\<close>

inductive warm_up ::
  "'w Platform \<Rightarrow> ClientCore \<Rightarrow> BufferType \<Rightarrow> nat list \<Rightarrow> MultipartArgs \<Rightarrow> nat list \<Rightarrow> 'w ClientState \<Rightarrow> bool \<Rightarrow> 'w ClientState \<Rightarrow> bool"
  for pf core kind bufs a where
  warm: "warm_up pf core kind bufs a [] c True c"
| warm_failed: "UploadOne pf core kind bufs a (ar_key_prefix a @ ''warmup-'' @ dec i) c False c1 \<Longrightarrow> warm_up pf core kind bufs a (i # is) c False c1"
| warm_on: "UploadOne pf core kind bufs a (ar_key_prefix a @ ''warmup-'' @ dec i) c True c1 \<Longrightarrow> warm_up pf core kind bufs a is c1 ok c2 \<Longrightarrow>
    warm_up pf core kind bufs a (i # is) c ok c2"

inductive rounds ::
  "'w Platform \<Rightarrow> ClientCore \<Rightarrow> BufferType \<Rightarrow> nat list \<Rightarrow> MultipartArgs \<Rightarrow> nat list \<Rightarrow> 'w ClientState \<Rightarrow> bool list \<Rightarrow> 'w ClientState \<Rightarrow> bool"
  for pf core kind bufs a where
  over: "rounds pf core kind bufs a [] c [] c"
| a_round: "UploadOne pf core kind bufs a (ar_key_prefix a @ ''iter-'' @ dec (i mod key_mod a)) c ok c1 \<Longrightarrow>
    rounds pf core kind bufs a is c1 oks c2 \<Longrightarrow> rounds pf core kind bufs a (i # is) c (ok # oks) c2"

text \<open>From the warm-up to the exit status.\<close>

inductive mp_bench ::
  "'w Platform \<Rightarrow> ClientCore \<Rightarrow> BufferType \<Rightarrow> nat list \<Rightarrow> MultipartArgs \<Rightarrow> 'w ClientState \<Rightarrow> nat \<Rightarrow> 'w ClientState \<Rightarrow> bool"
  for pf core kind bufs a where
  cold: "warm_up pf core kind bufs a [0..<ar_warmup a] c False c1 \<Longrightarrow> mp_bench pf core kind bufs a c 1 c1"
| measured: "warm_up pf core kind bufs a [0..<ar_warmup a] c True c1 \<Longrightarrow> rounds pf core kind bufs a [0..<ar_count a] c1 oks c2 \<Longrightarrow>
    mp_bench pf core kind bufs a c (if length (filter Not oks) = 0 then 0 else 1) c2"

section \<open>Uploads against a gateway\<close>

lemma default_policy: "set_checksum_policy ''none'' (UploadImpl_init ses flow) = UploadImpl_init ses flow"
  by (simp add: set_checksum_policy_def UploadImpl_init_def)

text \<open>An upload of the GDS benchmark that returns true has stored the buffers of the parts, one after the other, under the given key:
  as many bytes as the object size.\<close>

theorem bench_upload_stores:
  assumes "UploadOne (deployment md5) core kCudaDevice bufs a key s True s'" "opens_uploads cap (wd_gw (cw s))"
    and "o_data_flow (cc_options core) = GPUDirect" "sizes_ok (ar_object_size a) (ma_part_size a)" "bench_parts a < 2 ^ 32" "length bufs = bench_parts a"
    and "\<forall>x \<in> set bufs. x < u64_mod" "cap + ar_object_size a < u64_mod"
  shows "\<exists>e v data. stored (ar_bucket a) key data e v (wd_gw (cw s')) \<and> length data = ar_object_size a \<and>
    data = concat (map (\<lambda>i. map (wd_memory (cw s)) [bufs ! i..<bufs ! i + part_len (ar_object_size a) (ma_part_size a) i]) [0..<bench_parts a])"
proof -
  let ?ps = "bench_specs a kCudaDevice bufs"
  note cover = part_specs_cover [OF assms(4,5), of kCudaDevice bufs, unfolded Let_def, folded bench_specs_def]
  have len: "length ?ps = bench_parts a" by (simp add: bench_specs_def)
  from assms(1) obtain st u c1 outs u1 c2 res u2 c3 where
    run: "run_state (Client_StartUpload (deployment md5) core (ar_bucket a) key False (ar_object_size a) []) s = ((st, Some u), c1)"
      "UploadParts ?ps (min (concurrency_of a) (bench_parts a)) u c1 (Inr outs) u1 c2"
      "run_state (MultipartUpload_Complete u1) c2 = ((Inr res, u2), c3)" "run_state (MultipartUpload_destruct (Some u2)) c3 = ((), s')"
    by (auto elim: UploadOne.cases)
  have "set_checksum_policy ''none'' u = u" using StartUpload_gds(1) [OF assms(3) run(1)] default_policy by blast
  then have parts: "UploadParts ?ps (min (concurrency_of a) (bench_parts a)) (set_checksum_policy ''none'' u) c1 (Inr outs) u1 c2"
    using run(2) by simp
  have data: "\<forall>p \<in> set ?ps. bv_data (ps_buffer p) < u64_mod" using assms(6,7) by (auto simp: bench_specs_def part_specs_def)
  have same: "s' = c3" using finished_handle(4) [OF Abort_finishes(2) [OF run(3)], of c3] run(4) by simp
  have order: "sort_key ps_part_number ?ps = ?ps" using cover by (intro sort_key_id_if_sorted) (metis sorted_upt)
  obtain st' ses where ses: "run_state (GdsMultipartFlow_CreateSession (deployment md5) (cc_options core) (cc_caps core)
      (upload_descriptor (ar_bucket a) key (ar_object_size a) [])) s = ((st', Some ses), c1)" "u = UploadImpl_init ses GPUDirect"
    using StartUpload_gds(1) [OF assms(3) run(1)] by blast
  have size: "cap + (\<Sum>p\<leftarrow>?ps. bv_size (ps_buffer p)) < u64_mod" "length ?ps < 2 ^ 32" using cover len assms(5,8) by simp_all
  note st = gds_multipart_stores_object [OF assms(2) size(2) data size(1) ses(1) parts [unfolded ses(2)] run(3), unfolded order]
  have "concat (map (part_bytes (wd_memory (cw s))) ?ps) =
      concat (map (\<lambda>i. map (wd_memory (cw s)) [bufs ! i..<bufs ! i + part_len (ar_object_size a) (ma_part_size a) i]) [0..<bench_parts a])"
    by (simp add: bench_specs_def part_specs_def part_bytes_def comp_def)
  moreover have "length (concat (map (part_bytes (wd_memory (cw s))) ?ps)) = ar_object_size a"
    using cover by (simp add: length_concat part_bytes_def comp_def)
  ultimately show ?thesis using st same by (auto simp: upload_descriptor_def)
qed

text \<open>Against a gateway that accepts the parts, an upload of the GDS benchmark always comes to an end, and it returns false only
  when a worker could not bind its CUDA device.\<close>

theorem bench_upload_progress:
  assumes "upload_accepted t lmt cap (cc_options core) (cc_caps core) (upload_descriptor (ar_bucket a) key (ar_object_size a) [])
      (bench_specs a kCudaDevice bufs) s"
    and "cc_initialized core" "o_data_flow (cc_options core) = GPUDirect"
  shows "(\<exists>ok s'. UploadOne (deployment md5) core kCudaDevice bufs a key s ok s') \<and>
    (\<forall>s'. UploadOne (deployment md5) core kCudaDevice bufs a key s False s' \<longrightarrow>
       (\<exists>u c1 u1 c2. run_state (Client_StartUpload (deployment md5) core (ar_bucket a) key False (ar_object_size a) []) s = ((Status_Ok, Some u), c1) \<and>
          UploadParts (bench_specs a kCudaDevice bufs) (min (concurrency_of a) (bench_parts a)) u c1 (Inl cuda_error) u1 c2))"
proof -
  let ?ps = "bench_specs a kCudaDevice bufs" and ?n = "min (concurrency_of a) (bench_parts a)"
  from gds_multipart_progress [OF assms(1), of md5 "''none''"] obtain ses c1 where
    g: "run_state (GdsMultipartFlow_CreateSession (deployment md5) (cc_options core) (cc_caps core)
        (upload_descriptor (ar_bucket a) key (ar_object_size a) [])) s = ((Status_Ok, Some ses), c1)"
      "\<forall>n e u1 s2. UploadParts ?ps n (UploadImpl_init ses GPUDirect) c1 (Inl e) u1 s2 \<longrightarrow> e = cuda_error"
      "\<forall>n outs u1 s2. UploadParts ?ps n (UploadImpl_init ses GPUDirect) c1 (Inr outs) u1 s2 \<longrightarrow>
        (\<exists>res u2 s3. run_state (MultipartUpload_Complete u1) s2 = ((Inr res, u2), s3))"
    unfolding Let_def default_policy by blast
  note start = StartUpload_gds(2) [OF assms(3,2) g(1)]
  have ok: "st_ok Status_Ok" by (simp add: Status_Ok_def)
  obtain res u1 c2 where up: "UploadParts ?ps ?n (UploadImpl_init ses GPUDirect) c1 res u1 c2" using upload_parts_result by blast
  have "\<exists>ok s'. UploadOne (deployment md5) core kCudaDevice bufs a key s ok s'"
  proof (cases res)
    case (Inl e)
    show ?thesis using UploadOne.parts_fail [OF start ok up [unfolded Inl]] upload_parts_failure_closes [OF up [unfolded Inl]] by blast
  next
    case (Inr outs)
    with g(3) up obtain r u2 s3 where c: "run_state (MultipartUpload_Complete u1) c2 = ((Inr r, u2), s3)" by blast
    show ?thesis
      using UploadOne.uploaded [OF start ok up [unfolded Inr] c finished_handle(4) [OF Abort_finishes(2) [OF c]]] by blast
  qed
  moreover have "\<exists>u1 c2. UploadParts ?ps ?n (UploadImpl_init ses GPUDirect) c1 (Inl cuda_error) u1 c2"
    if "UploadOne (deployment md5) core kCudaDevice bufs a key s False s'" for s'
    using that
  proof cases
    case (parts_fail st u c1' e u1 c2)
    then have "u = UploadImpl_init ses GPUDirect" "c1' = c1" using start by simp_all
    then show ?thesis using parts_fail(3) g(2) by metis
  next
    case (complete_fails st u c1' outs u1 c2 e u2 c3)
    then show ?thesis using start g(3) by fastforce
  qed (use start ok in auto)
  ultimately show ?thesis using start by blast
qed

text \<open>The exit status is 0 just when the warm-up and every measured upload returned true.\<close>

theorem mp_bench_exit:
  "mp_bench pf core kind bufs a c 0 c' \<longleftrightarrow>
     (\<exists>c1. warm_up pf core kind bufs a [0..<ar_warmup a] c True c1 \<and> rounds pf core kind bufs a [0..<ar_count a] c1 (replicate (ar_count a) True) c')"
proof -
  have len: "length oks = length is" if "rounds pf core kind bufs a is c1 oks c2" for "is" c1 oks c2
    using that by induction simp_all
  show ?thesis
  proof
    assume "mp_bench pf core kind bufs a c 0 c'"
    then show "\<exists>c1. warm_up pf core kind bufs a [0..<ar_warmup a] c True c1 \<and> rounds pf core kind bufs a [0..<ar_count a] c1 (replicate (ar_count a) True) c'"
    proof cases
      case (measured c1 oks)
      have "oks = replicate (ar_count a) True"
        using len [OF measured(3)] measured(1) by (intro replicate_eqI) (auto simp: filter_empty_conv split: if_splits)
      then show ?thesis using measured(2,3) by blast
    qed simp
  next
    assume "\<exists>c1. warm_up pf core kind bufs a [0..<ar_warmup a] c True c1 \<and> rounds pf core kind bufs a [0..<ar_count a] c1 (replicate (ar_count a) True) c'"
    then obtain c1 where "warm_up pf core kind bufs a [0..<ar_warmup a] c True c1"
      "rounds pf core kind bufs a [0..<ar_count a] c1 (replicate (ar_count a) True) c'" by blast
    from mp_bench.measured [OF this] show "mp_bench pf core kind bufs a c 0 c'" by simp
  qed
qed

end
