(* ===== verification/Example_Multipart.thy ===== *)
theory Example_Multipart
  imports Bench_Put Part_Split Multipart_Deployment
begin

text \<open>
  The regression program \<^verbatim>\<open>examples/gds/gds_multipart_example.cpp\<close>: it uploads a pattern in parts, completes the upload, tries to complete it again, and
  reads the object back part by part to compare it with the pattern. The program is modelled from the command line to the
  verdict; the client is already initialised. The calls of the CUDA runtime (\<^verbatim>\<open>cudaMalloc\<close>, \<^verbatim>\<open>cudaMemcpy\<close>, \<^verbatim>\<open>cudaMemset\<close>) are arguments.
\<close>

section \<open>The command line\<close>

text \<open>\<^verbatim>\<open>std::strtoull\<close> with base 10 and no end pointer: what is not a number reads as 0, and what is too large as the largest number.\<close>

definition strtoull10 :: "string \<Rightarrow> nat" where
  "strtoull10 s =
     (let (neg, t) = take_sign (dropWhile is_space s); n = fst (read_digits 10 0 t)
      in if n \<ge> u64_mod then u64_mod - 1 else if neg then u64_sub 0 n else n)"

record ExampleArgs =
  ea_endpoint :: string
  ea_total_bytes :: nat
  ea_part_size :: nat
  ea_bucket :: string
  ea_object_key :: string
  ea_concurrency :: nat
  ea_checksum_policy :: string

text \<open>\<^verbatim>\<open>argv\<close> without the name of the program.\<close>

definition example_args :: "string list \<Rightarrow> ExampleArgs option" where
  "example_args argv =
     (if length argv < 5 \<or> length argv > 7 then None
      else let a = \<lparr>ea_endpoint = argv ! 0, ea_total_bytes = strtoull10 (argv ! 1), ea_part_size = strtoull10 (argv ! 2),
                   ea_bucket = argv ! 3, ea_object_key = argv ! 4,
                   ea_concurrency = (if length argv \<ge> 6 then max 1 (strtoull10 (argv ! 5)) else 1),
                   ea_checksum_policy = (if length argv \<ge> 7 then argv ! 6 else ''none'')\<rparr> in
        if ea_total_bytes a = 0 \<or> ea_part_size a = 0 then None else Some a)"

section \<open>The program\<close>

text \<open>The CUDA runtime: the address \<^verbatim>\<open>cudaMalloc\<close> returns for the buffer of a part, copies to and from the device, and filling with zeros. \<^verbatim>\<open>None\<close> is an
  error.\<close>

record 'w Cuda =
  cu_malloc :: "nat \<Rightarrow> nat option"
  cu_to_device :: "nat \<Rightarrow> bytes \<Rightarrow> 'w \<Rightarrow> 'w option"
  cu_zero :: "nat \<Rightarrow> nat \<Rightarrow> 'w \<Rightarrow> 'w option"
  cu_to_host :: "nat \<Rightarrow> nat \<Rightarrow> 'w \<Rightarrow> bytes option"

definition pattern_byte :: "nat \<Rightarrow> byte" where
  "pattern_byte k = of_nat (k mod 251)"

definition payload :: "nat \<Rightarrow> nat \<Rightarrow> bytes" where
  "payload off n = map (\<lambda>j. pattern_byte (off + j)) [0..<n]"

abbreviation ea_parts :: "ExampleArgs \<Rightarrow> nat" where
  "ea_parts a \<equiv> num_parts (ea_total_bytes a) (ea_part_size a)"

abbreviation ea_off :: "ExampleArgs \<Rightarrow> nat \<Rightarrow> nat" where
  "ea_off a i \<equiv> part_off (ea_part_size a) i"

abbreviation ea_len :: "ExampleArgs \<Rightarrow> nat \<Rightarrow> nat" where
  "ea_len a i \<equiv> part_len (ea_total_bytes a) (ea_part_size a) i"

fun stage_parts :: "'w Cuda \<Rightarrow> ExampleArgs \<Rightarrow> nat list \<Rightarrow> 'w \<Rightarrow> 'w option" where
  "stage_parts cu a [] w = Some w"
| "stage_parts cu a (i # is) w =
     (case cu_malloc cu i of
        None \<Rightarrow> None
      | Some ptr \<Rightarrow>
          (case cu_to_device cu ptr (payload (ea_off a i) (ea_len a i)) w of None \<Rightarrow> None | Some w' \<Rightarrow> stage_parts cu a is w'))"

definition dev_parts :: "'w Cuda \<Rightarrow> ExampleArgs \<Rightarrow> nat list" where
  "dev_parts cu a = map (\<lambda>i. the (cu_malloc cu i)) [0..<ea_parts a]"

text \<open>How the program ends; the exit status is 0 for \<^verbatim>\<open>Same\<close> and 1 for everything else.\<close>

datatype verdict =
    StartFailed | CudaFailed | PartsFailed | CompleteFailed | SecondCompleteSucceeded | HeadFailed | HeadMismatch | GetFailed nat | Mismatch nat | Same

definition example_exit :: "verdict \<Rightarrow> nat" where
  "example_exit v = (if v = Same then 0 else 1)"

definition example_get_request :: "ExampleArgs \<Rightarrow> nat \<Rightarrow> GetObjectRequest" where
  "example_get_request a i =
     GetObjectRequest_default\<lparr>get_bucket := ea_bucket a, get_key := ea_object_key a, get_offset := ea_off a i, get_length := Some (ea_len a i)\<rparr>"

definition compare :: "ExampleArgs \<Rightarrow> nat \<Rightarrow> bytes \<Rightarrow> nat option" where
  "compare a i host = find (\<lambda>j. host ! j \<noteq> pattern_byte (ea_off a i + j)) [0..<ea_len a i]"

fun verify :: "'w Platform \<Rightarrow> 'w Cuda \<Rightarrow> ClientCore \<Rightarrow> ExampleArgs \<Rightarrow> nat \<Rightarrow> nat list \<Rightarrow> ('w, verdict) client" where
  "verify P cu core a dev_dn [] = ret Same"
| "verify P cu core a dev_dn (i # is) = do {
     w \<leftarrow> gets cw;
     (case cu_zero cu dev_dn (ea_len a i) w of
        None \<Rightarrow> ret CudaFailed
      | Some w' \<Rightarrow> do {
          _ \<leftarrow> modify (\<lambda>s. s\<lparr>cw := w'\<rparr>);
          got \<leftarrow> Client_GetObject P core (example_get_request a i) \<lparr>bv_data = dev_dn, bv_size = ea_len a i, bv_type = kCudaDevice\<rparr>;
          (case got of
             Inl e \<Rightarrow> ret (GetFailed i)
           | Inr out \<Rightarrow> do {
               w \<leftarrow> gets cw;
               (case cu_to_host cu dev_dn (ea_len a i) w of
                  None \<Rightarrow> ret CudaFailed
                | Some host \<Rightarrow>
                    (case compare a i host of
                       Some j \<Rightarrow> ret (Mismatch (ea_off a i + j))
                     | None \<Rightarrow> verify P cu core a dev_dn is)) }) }) }"

inductive multipart_example ::
  "'w Platform \<Rightarrow> 'w Cuda \<Rightarrow> ClientCore \<Rightarrow> ExampleArgs \<Rightarrow> 'w ClientState \<Rightarrow> verdict \<Rightarrow> bool"
  for pf cu core a where
  start_fails: "run_state (Client_StartUpload pf core (ea_bucket a) (ea_object_key a) False (ea_total_bytes a) []) c = ((st, h), c1) \<Longrightarrow>
    \<not> st_ok st \<Longrightarrow> multipart_example pf cu core a c StartFailed"
| no_staging: "run_state (Client_StartUpload pf core (ea_bucket a) (ea_object_key a) False (ea_total_bytes a) []) c = ((st, Some u), c1) \<Longrightarrow>
    st_ok st \<Longrightarrow> stage_parts cu a [0..<ea_parts a] (cw c1) = None \<Longrightarrow> multipart_example pf cu core a c CudaFailed"
| parts_fail: "run_state (Client_StartUpload pf core (ea_bucket a) (ea_object_key a) False (ea_total_bytes a) []) c = ((st, Some u), c1) \<Longrightarrow>
    st_ok st \<Longrightarrow> stage_parts cu a [0..<ea_parts a] (cw c1) = Some w \<Longrightarrow>
    UploadParts (part_specs (ea_total_bytes a) (ea_part_size a) kCudaDevice (dev_parts cu a)) (min (ea_concurrency a) (ea_parts a))
      (set_checksum_policy (ea_checksum_policy a) u) (c1\<lparr>cw := w\<rparr>) (Inl e) u1 c2 \<Longrightarrow>
    multipart_example pf cu core a c PartsFailed"
| completed: "run_state (Client_StartUpload pf core (ea_bucket a) (ea_object_key a) False (ea_total_bytes a) []) c = ((st, Some u), c1) \<Longrightarrow>
    st_ok st \<Longrightarrow> stage_parts cu a [0..<ea_parts a] (cw c1) = Some w \<Longrightarrow>
    UploadParts (part_specs (ea_total_bytes a) (ea_part_size a) kCudaDevice (dev_parts cu a)) (min (ea_concurrency a) (ea_parts a))
      (set_checksum_policy (ea_checksum_policy a) u) (c1\<lparr>cw := w\<rparr>) (Inr outs) u1 c2 \<Longrightarrow>
    run_state (MultipartUpload_Complete u1) c2 = ((res, u2), c3) \<Longrightarrow>
    run_state (MultipartUpload_Complete u2) c3 = ((res2, u3), c4) \<Longrightarrow>
    run_state (Client_HeadObject pf core (ea_bucket a) (ea_object_key a)) c4 = (head, c5) \<Longrightarrow>
    run_state (verify pf cu core a (dev_parts cu a ! 0) [0..<ea_parts a]) c5 = (v, c6) \<Longrightarrow>
    multipart_example pf cu core a c
      (if isl res then CompleteFailed else if \<not> isl res2 then SecondCompleteSucceeded else if isl head then HeadFailed
       else if cm_content_length (projr head) \<noteq> ea_total_bytes a then HeadMismatch else v)"

section \<open>The comparison never fails\<close>

text \<open>The device memory of the deployment.\<close>

definition world_cuda :: "(nat \<Rightarrow> nat option) \<Rightarrow> World Cuda" where
  "world_cuda alloc =
     \<lparr>cu_malloc = alloc, cu_to_device = (\<lambda>ptr data w. Some (w\<lparr>wd_memory := write_mem ptr data (wd_memory w)\<rparr>)),
      cu_zero = (\<lambda>ptr n w. Some (w\<lparr>wd_memory := write_mem ptr (replicate n 0) (wd_memory w)\<rparr>)),
      cu_to_host = (\<lambda>ptr n w. Some (read_mem w ptr n))\<rparr>"

text \<open>\<^verbatim>\<open>cudaMalloc\<close> returns buffers that do not overlap and lie within the address space.\<close>

definition alloc_ok :: "ExampleArgs \<Rightarrow> (nat \<Rightarrow> nat option) \<Rightarrow> bool" where
  "alloc_ok a alloc \<longleftrightarrow> (\<forall>i<ea_parts a. \<forall>p. alloc i = Some p \<longrightarrow> p + ea_part_size a \<le> u64_mod \<and>
     (\<forall>j<ea_parts a. \<forall>q. j \<noteq> i \<longrightarrow> alloc j = Some q \<longrightarrow> p + ea_len a i \<le> q \<or> q + ea_len a j \<le> p))"

lemma stage_parts_filled:
  assumes "stage_parts (world_cuda alloc) a is w = Some w'" "alloc_ok a alloc" "set is \<subseteq> {..<ea_parts a}" "distinct is"
  shows "\<exists>m. w' = w\<lparr>wd_memory := m\<rparr> \<and> (\<forall>i \<in> set is. alloc i \<noteq> None \<and> map m [the (alloc i)..<the (alloc i) + ea_len a i] = payload (ea_off a i) (ea_len a i)) \<and>
    (\<forall>x. (\<forall>i \<in> set is. x < the (alloc i) \<or> the (alloc i) + ea_len a i \<le> x) \<longrightarrow> m x = wd_memory w x)"
  using assms(1,3,4)
proof (induction "is" arbitrary: w)
  case (Cons i "is")
  let ?n = "ea_len a i" and ?data = "payload (ea_off a i) (ea_len a i)"
  obtain p where p: "alloc i = Some p" using Cons.prems(1) by (auto simp: world_cuda_def split: option.splits)
  let ?w = "w\<lparr>wd_memory := write_mem p ?data (wd_memory w)\<rparr>"
  have "stage_parts (world_cuda alloc) a is ?w = Some w'" using Cons.prems(1) p by (simp add: world_cuda_def)
  from Cons.IH [OF this] Cons.prems(2,3) obtain m where m: "w' = ?w\<lparr>wd_memory := m\<rparr>"
    "\<forall>i \<in> set is. alloc i \<noteq> None \<and> map m [the (alloc i)..<the (alloc i) + ea_len a i] = payload (ea_off a i) (ea_len a i)"
    "\<forall>x. (\<forall>i \<in> set is. x < the (alloc i) \<or> the (alloc i) + ea_len a i \<le> x) \<longrightarrow> m x = wd_memory ?w x" by auto
  have len: "length ?data = ?n" by (simp add: payload_def)
  have "m x = wd_memory ?w x" if "p \<le> x" "x < p + ?n" for x
  proof -
    have "x < the (alloc j) \<or> the (alloc j) + ea_len a j \<le> x" if "j \<in> set is" for j
    proof -
      obtain q where q: "alloc j = Some q" using m(2) \<open>j \<in> set is\<close> by fastforce
      have "i \<noteq> j" "i < ea_parts a" "j < ea_parts a" using Cons.prems(2,3) \<open>j \<in> set is\<close> by auto
      then show ?thesis using assms(2) p q \<open>p \<le> x\<close> \<open>x < p + ?n\<close> unfolding alloc_ok_def by fastforce
    qed
    then show ?thesis using m(3) by blast
  qed
  then have "map m [p..<p + ?n] = map (write_mem p ?data (wd_memory w)) [p..<p + ?n]" by simp
  then have "map m [p..<p + ?n] = ?data" using written_back [of p ?data "wd_memory w"] by (simp only: len)
  moreover have "m x = wd_memory w x" if "\<forall>j \<in> set (i # is). x < the (alloc j) \<or> the (alloc j) + ea_len a j \<le> x" for x
    using that m(3) p len by (auto simp: write_mem_apply)
  ultimately show ?case using m(1,2) p by auto
qed (auto intro: exI [of _ "wd_memory w'"])

lemma payload_append: "payload off x @ payload (off + x) y = payload off (x + y)"
proof -
  have "map (\<lambda>j. pattern_byte (off + x + j)) [0..<y] = map (\<lambda>j. pattern_byte (off + j)) [x..<x + y]"
    by (rule nth_equalityI) (simp_all add: add.assoc)
  then show ?thesis by (simp add: payload_def upt_add_eq_append [of 0 x y] flip: map_append)
qed

lemma payload_parts:
  assumes "sizes_ok (ea_total_bytes a) (ea_part_size a)" "k \<le> ea_parts a"
  shows "concat (map (\<lambda>i. payload (ea_off a i) (ea_len a i)) [0..<k]) = payload 0 (min (ea_total_bytes a) (k * ea_part_size a))"
  using assms(2)
proof (induction k)
  case (Suc k)
  have "ea_off a k = min (ea_total_bytes a) (k * ea_part_size a)" using part_extent(1,2) [OF assms(1), of k] Suc.prems by simp
  moreover have "min (ea_total_bytes a) (k * ea_part_size a) + ea_len a k = min (ea_total_bytes a) (Suc k * ea_part_size a)"
    using parts_before [OF assms(1), of "Suc k"] parts_before [OF assms(1), of k] Suc.prems by simp
  ultimately show ?case using Suc payload_append [of 0 "min (ea_total_bytes a) (k * ea_part_size a)" "ea_len a k"] by simp
qed (simp add: payload_def)

lemma payload_slice: "off + n \<le> x \<Longrightarrow> take n (drop off (payload 0 x)) = payload off n"
  by (intro nth_equalityI) (auto simp: payload_def)

lemma compare_payload: "compare a i (payload (ea_off a i) (ea_len a i)) = None"
  by (auto simp: compare_def find_None_iff payload_def)

lemma verify_no_mismatch:
  assumes "run_state (verify (deployment md5) (world_cuda alloc) core a dn is) s = (vd, s')" "o_data_flow (cc_options core) = GPUDirect"
    and "sizes_ok (ea_total_bytes a) (ea_part_size a)" "set is \<subseteq> {..<ea_parts a}" "dn + ea_part_size a \<le> u64_mod"
    and "serving cap (wd_gw (cw s))" "stored (ea_bucket a) (ea_object_key a) (payload 0 (ea_total_bytes a)) e v (wd_gw (cw s))"
  shows "vd = Same \<or> vd \<in> range GetFailed"
  using assms(1,4,6,7)
proof (induction "is" arbitrary: s)
  case (Cons i "is")
  let ?g = "example_get_request a i" and ?d = "\<lparr>bv_data = dn, bv_size = ea_len a i, bv_type = kCudaDevice\<rparr>"
  let ?s = "s\<lparr>cw := (cw s)\<lparr>wd_memory := write_mem dn (replicate (ea_len a i) 0) (wd_memory (cw s))\<rparr>\<rparr>"
  obtain got s1 where get: "run_state (Client_GetObject (deployment md5) core ?g ?d) ?s = (got, s1)" by fastforce
  have i: "i < ea_parts a" using Cons.prems(2) by simp
  note x = part_extent [OF assms(3) i]
  have ask: "asked ?g ?d = ea_len a i" "get_offset ?g = ea_off a i" "get_bucket ?g = ea_bucket a" "get_key ?g = ea_object_key a" "get_length ?g = Some (ea_len a i)"
    by (simp_all add: asked_def example_get_request_def)
  have len: "length (payload 0 (ea_total_bytes a)) = ea_total_bytes a" by (simp add: payload_def)
  show ?case
  proof (cases got)
    case (Inl err)
    then show ?thesis using Cons.prems(1) get by (auto simp: world_cuda_def)
  next
    case (Inr out)
    have src: "serving cap (wd_gw (cw ?s))" "stored (get_bucket ?g) (get_key ?g) (payload 0 (ea_total_bytes a)) e v (wd_gw (cw ?s))"
      using Cons.prems(3,4) ask by simp_all
    note r = client_get_reads [OF src assms(2) _ _ _ _ _ get [unfolded Inr]]
    have cond: "length (payload 0 (ea_total_bytes a)) < u64_mod" "get_offset ?g + asked ?g ?d \<le> length (payload 0 (ea_total_bytes a))" "0 < asked ?g ?d"
        "\<forall>n. get_length ?g = Some n \<longrightarrow> n \<le> bv_size ?d" "bv_data ?d + bv_size ?d \<le> u64_mod"
      using x(2,4,5,6) assms(3,5) len ask by (simp_all add: sizes_ok_def)
    have host: "read_mem (cw s1) dn (ea_len a i) = payload (ea_off a i) (ea_len a i)"
      using r(1) [OF cond] payload_slice [OF x(6)] ask by simp
    have "run_state (verify (deployment md5) (world_cuda alloc) core a dn is) s1 = (vd, s')"
      using Cons.prems(1) get Inr host compare_payload [of a i] by (simp add: world_cuda_def)
    then show ?thesis using Cons.IH [of s1] Cons.prems(2) r(6,7) [OF cond] ask by simp
  qed
qed simp

text \<open>Opening the upload does not look at the memory of the client.\<close>

lemma create_session_memory:
  assumes "run_state (GdsMultipartFlow_CreateSession (deployment md5) opts caps d) s = (r, s1)"
  shows "run_state (GdsMultipartFlow_CreateSession (deployment md5) opts caps d) (s\<lparr>cw := (cw s)\<lparr>wd_memory := m\<rparr>\<rparr>) =
    (r, s1\<lparr>cw := (cw s1)\<lparr>wd_memory := m\<rparr>\<rparr>)"
  using assms
  by (auto simp: GdsMultipartFlow_CreateSession_def create_session_def RpcCreateMultipartUpload_def or_fail_def deployment_def at_gateway_def
      split: option.splits prod.splits sum.splits)

lemma staged_bytes_are_payload:
  assumes "\<forall>i<ea_parts a. map m [the (alloc i)..<the (alloc i) + ea_len a i] = payload (ea_off a i) (ea_len a i)"
    and "sizes_ok (ea_total_bytes a) (ea_part_size a)" "ea_parts a < 2 ^ 32"
  shows "concat (map (part_bytes m) (sort_key ps_part_number
      (part_specs (ea_total_bytes a) (ea_part_size a) kCudaDevice (dev_parts (world_cuda alloc) a)))) = payload 0 (ea_total_bytes a)"
proof -
  let ?ps = "part_specs (ea_total_bytes a) (ea_part_size a) kCudaDevice (dev_parts (world_cuda alloc) a)"
  have "sorted (map ps_part_number ?ps)"
    using part_specs_cover [OF assms(2,3), of kCudaDevice "dev_parts (world_cuda alloc) a"] unfolding Let_def by (metis sorted_upt)
  then have "sort_key ps_part_number ?ps = ?ps" by (rule sort_key_id_if_sorted)
  moreover have "map (part_bytes m) ?ps = map (\<lambda>i. payload (ea_off a i) (ea_len a i)) [0..<ea_parts a]"
    using assms(1) by (auto simp: part_specs_def part_bytes_def dev_parts_def world_cuda_def)
  moreover have "min (ea_total_bytes a) (ea_parts a * ea_part_size a) = ea_total_bytes a"
    using num_parts_ceil(4) [OF assms(2)] by simp
  ultimately show ?thesis using payload_parts [OF assms(2), of "ea_parts a"] by simp
qed

text \<open>Against a gateway with the memory backend the checks of the program never fail: whatever number of workers and whatever their interleaving, an upload that was completed
  cannot be completed again, \<^verbatim>\<open>HeadObject\<close> reports the length that was uploaded, and every range that is read back is the pattern that
  was written. The program ends with status 1 only when a call of the client or of CUDA itself fails.\<close>

theorem example_checks_hold:
  assumes "multipart_example (deployment md5) (world_cuda alloc) core a c vd" "opens_uploads cap (wd_gw (cw c))"
    and "o_data_flow (cc_options core) = GPUDirect" "cc_initialized core" "sizes_ok (ea_total_bytes a) (ea_part_size a)" "ea_parts a < 2 ^ 32"
    and "alloc_ok a alloc" "cap + ea_total_bytes a < u64_mod"
  shows "vd \<noteq> SecondCompleteSucceeded \<and> vd \<noteq> HeadMismatch \<and> vd \<notin> range Mismatch"
  using assms(1)
proof cases
  case (completed st u c1 w outs u1 c2 res u2 c3 res2 u3 c4 head c5 v c6)
  let ?ps = "part_specs (ea_total_bytes a) (ea_part_size a) kCudaDevice (dev_parts (world_cuda alloc) a)"
  let ?d = "upload_descriptor (ea_bucket a) (ea_object_key a) (ea_total_bytes a) []"
  obtain st' ses where ses: "run_state (GdsMultipartFlow_CreateSession (deployment md5) (cc_options core) (cc_caps core) ?d) c = ((st', Some ses), c1)"
      "u = UploadImpl_init ses GPUDirect"
    using StartUpload_gds(1) [OF assms(3) completed(2)] by blast
  obtain m where m: "w = (cw c1)\<lparr>wd_memory := m\<rparr>"
      "\<forall>i<ea_parts a. alloc i \<noteq> None \<and> map m [the (alloc i)..<the (alloc i) + ea_len a i] = payload (ea_off a i) (ea_len a i)"
    using stage_parts_filled [OF completed(4) assms(7)] by (simp add: atLeast0LessThan) blast
  have ptrs: "the (alloc i) + ea_part_size a \<le> u64_mod" if "i < ea_parts a" for i
    using m(2) assms(7) that unfolding alloc_ok_def by fastforce
  have second: "isl res2" "c4 = c3"
    using finished_handle(2) [OF Abort_finishes(2) [OF completed(6)], of c3] completed(7) by auto
  show ?thesis
  proof (cases res)
    case (Inr cr)
    let ?c = "c\<lparr>cw := (cw c)\<lparr>wd_memory := m\<rparr>\<rparr>"
    have pre: "opens_uploads cap (wd_gw (cw ?c))" "length ?ps < 2 ^ 32" "\<forall>p \<in> set ?ps. bv_data (ps_buffer p) < u64_mod"
        "cap + (\<Sum>p\<leftarrow>?ps. bv_size (ps_buffer p)) < u64_mod"
      using assms(2,5,6,8) ptrs part_specs_cover [OF assms(5,6), of kCudaDevice "dev_parts (world_cuda alloc) a"]
      by (auto simp: part_specs_def dev_parts_def world_cuda_def sizes_ok_def Let_def less_le_trans [OF less_add_same_cancel1 [THEN iffD2]])
    have "serving cap (wd_gw (cw c3))" "stored (ea_bucket a) (ea_object_key a) (payload 0 (ea_total_bytes a)) (cr_etag cr) (cr_version cr) (wd_gw (cw c3))"
      using gds_multipart_stores_object [OF pre create_session_memory [OF ses(1)] completed(5) [unfolded ses(2) m(1)] completed(6) [unfolded Inr]]
        staged_bytes_are_payload [of a m alloc] m(2) assms(5,6) by (simp_all add: upload_descriptor_def)
    note c3 = this
    have "cw c5 = cw c4" "isl head \<or> cm_content_length (projr head) = ea_total_bytes a"
      using completed(8) assms(4) c3(2) second(2)
      by (auto simp: Client_HeadObject_def when_initialized_def MetadataClient_HeadObject_def deployment_def HeadObject_def reply_def or_fail_def
          MetadataService_Head_def stored_def CheckRpcFailure_def payload_def split: option.splits sum.splits if_splits)
    moreover have "v = Same \<or> v \<in> range GetFailed"
      using verify_no_mismatch [OF completed(9) assms(3,5), of cap "cr_etag cr" "cr_version cr"] calculation(1) second(2) c3 ptrs num_parts_ceil(2) [OF assms(5)]
      by (simp add: dev_parts_def world_cuda_def atLeast0LessThan)
    ultimately show ?thesis using completed(1) second(1) by auto
  qed (use completed(1) in auto)
qed auto

end
